(* ===== verification/Prelude.thy ===== *)
theory Prelude
  imports Main "HOL-Library.Word" "HOL-Library.Monad_Syntax"
begin

text \<open>
  Shared vocabulary of the development: two's-complement wrap-around and shifts of the C
  integer types, arrays with checked accesses, counted and pointer loops in the option monad,
  and big-endian readers. A C expression whose evaluation is undefined behaviour on an array
  (a read or a write outside its bounds) is the value \<open>None\<close>, so a theorem whose conclusion is
  \<open>Some ...\<close> shows at the same time that the code stays inside its arrays.
\<close>

unbundle bit_operations_syntax

named_theorems c_arith \<open>the C integer operators as arithmetic on int\<close>
named_theorems array_simps \<open>checked array accesses\<close>

section \<open>C integers\<close>

text \<open>
  \<open>jint\<close>, \<open>gint\<close> and \<open>int32_t\<close> values are integers; \<open>s32\<close> is the conversion of an
  arbitrary value to 32-bit two's complement and \<open>s64\<close> the one to 64 bits. Addition,
  subtraction and multiplication commute with the conversion, so it is applied where a value is
  shifted, compared, divided or stored.
\<close>

type_synonym jint = int
type_synonym jlong = int
type_synonym byte = "8 word"

definition s32 :: "int \<Rightarrow> int" where
  "s32 x = signed_take_bit 31 x"

definition s64 :: "int \<Rightarrow> int" where
  "s64 x = signed_take_bit 63 x"

definition shr :: "int \<Rightarrow> nat \<Rightarrow> int" where
  "shr x n = drop_bit n x"

definition shl :: "int \<Rightarrow> nat \<Rightarrow> int" where
  "shl x n = push_bit n x"

definition in_s32 :: "int \<Rightarrow> bool" where
  "in_s32 x \<longleftrightarrow> - 2147483648 \<le> x \<and> x < 2147483648"

text \<open>C division and remainder truncate towards zero.\<close>

definition cdiv :: "int \<Rightarrow> int \<Rightarrow> int" where
  "cdiv a b = sgn a * sgn b * (\<bar>a\<bar> div \<bar>b\<bar>)"

definition cmod :: "int \<Rightarrow> int \<Rightarrow> int" where
  "cmod a b = a - cdiv a b * b"

lemma shr_div [c_arith]: "shr x n = x div 2 ^ n"
  by (simp add: shr_def drop_bit_eq_div)

lemma shl_mult [c_arith]: "shl x n = x * 2 ^ n"
  by (simp add: shl_def push_bit_eq_mult)

lemma and_255 [c_arith]: "(x::int) AND 255 = x mod 256"
proof -
  have "x AND 255 = x AND mask 8" by (simp add: mask_eq_exp_minus_1)
  also have "\<dots> = take_bit 8 x" by (simp add: take_bit_eq_mask)
  finally show ?thesis by (simp add: take_bit_eq_mod)
qed

lemma and_65535 [c_arith]: "(x::int) AND 65535 = x mod 65536"
proof -
  have "x AND 65535 = x AND mask 16" by (simp add: mask_eq_exp_minus_1)
  also have "\<dots> = take_bit 16 x" by (simp add: take_bit_eq_mask)
  finally show ?thesis by (simp add: take_bit_eq_mod)
qed

lemma and_131071 [c_arith]: "(x::int) AND 131071 = x mod 131072"
proof -
  have "x AND 131071 = x AND mask 17" by (simp add: mask_eq_exp_minus_1)
  also have "\<dots> = take_bit 17 x" by (simp add: take_bit_eq_mask)
  finally show ?thesis by (simp add: take_bit_eq_mod)
qed

lemma s32_id [simp]: "- 2147483648 \<le> x \<Longrightarrow> x < 2147483648 \<Longrightarrow> s32 x = x"
  by (simp add: s32_def signed_take_bit_int_eq_self)

lemma s32_in_s32 [simp]: "in_s32 (s32 x)"
  using signed_take_bit_int_greater_eq_minus_exp [of 31 x] signed_take_bit_int_less_exp [of 31 x]
  by (simp add: in_s32_def s32_def)

lemma s64_id [simp]:
  "- 9223372036854775808 \<le> x \<Longrightarrow> x < 9223372036854775808 \<Longrightarrow> s64 x = x"
  by (simp add: s64_def signed_take_bit_int_eq_self)

lemma s32_eq_mod: "s32 x = (x + 2147483648) mod 4294967296 - 2147483648"
  using signed_take_bit_eq_take_bit_minus [of 31 x]
  by (simp add: s32_def signed_take_bit_eq_take_bit_shift take_bit_eq_mod)

lemma s32_mod_pow2:
  assumes "n \<le> 32"
  shows "s32 x mod 2 ^ n = x mod 2 ^ n"
proof -
  have "take_bit n (s32 x) = take_bit n x"
    unfolding s32_def using assms
    by (intro bit_eqI)
      (auto simp: bit_take_bit_iff bit_signed_take_bit_iff min_def dest!: le_antisym
        dest: less_le_trans)
  then show ?thesis by (simp add: take_bit_eq_mod)
qed

lemma s32_shr_and_255:
  assumes "n \<le> 24"
  shows "shr (s32 x) n AND 255 = shr x n AND 255"
proof -
  have "take_bit 8 (drop_bit n (s32 x)) = take_bit 8 (drop_bit n x)"
    using s32_mod_pow2 [of "n + 8" x] assms
    by (simp add: drop_bit_take_bit [symmetric] take_bit_eq_mod [symmetric] flip: drop_bit_take_bit)
       (metis add.commute drop_bit_take_bit diff_add_inverse)
  moreover have "(z::int) AND 255 = take_bit 8 z" for z
    by (simp add: and_255 take_bit_eq_mod)
  ultimately show ?thesis by (simp add: shr_def)
qed

lemma shl_or_low:
  assumes "0 \<le> b" "b < 2 ^ n"
  shows "shl a n OR b = a * 2 ^ n + b"
proof -
  have "take_bit n b = b" using assms by (simp add: take_bit_int_eq_self)
  then have "shl a n OR b = concat_bit n b a" by (simp add: concat_bit_def shl_def or.commute)
  also have "\<dots> = take_bit n b + push_bit n a" by (rule concat_bit_eq)
  finally show ?thesis using \<open>take_bit n b = b\<close> by (simp add: push_bit_eq_mult)
qed

lemma int_le_div_iff:
  fixes a b c :: int
  assumes "0 < c"
  shows "a \<le> b div c \<longleftrightarrow> a * c \<le> b"
proof
  assume "a \<le> b div c"
  then have "a * c \<le> b div c * c" using assms by (intro mult_right_mono) simp_all
  also have "\<dots> \<le> b" using assms div_mult_mod_eq [of b c] pos_mod_sign [of c b] by linarith
  finally show "a * c \<le> b" .
next
  assume "a * c \<le> b"
  then show "a \<le> b div c" using zdiv_mono1 [of "a * c" b c] assms by simp
qed

section \<open>Arrays\<close>

text \<open>
  A C array is a list; \<open>rd\<close> and \<open>wr\<close> are the accesses at an index, \<open>None\<close> outside
  the array. \<open>upd_range\<close> is the specification counterpart of a loop over consecutive elements.
\<close>

definition rd :: "'a list \<Rightarrow> int \<Rightarrow> 'a option" where
  "rd xs i = (if 0 \<le> i \<and> i < int (length xs) then Some (xs ! nat i) else None)"

definition wr :: "'a list \<Rightarrow> int \<Rightarrow> 'a \<Rightarrow> 'a list option" where
  "wr xs i v = (if 0 \<le> i \<and> i < int (length xs) then Some (xs[nat i := v]) else None)"

definition upd_range :: "nat \<Rightarrow> nat \<Rightarrow> (nat \<Rightarrow> 'a \<Rightarrow> 'a) \<Rightarrow> 'a list \<Rightarrow> 'a list" where
  "upd_range b n f xs =
     map (\<lambda>i. if b \<le> i \<and> i < b + n then f (i - b) (xs ! i) else xs ! i) [0..<length xs]"

lemma rd_in [array_simps]: "0 \<le> i \<Longrightarrow> i < int (length xs) \<Longrightarrow> rd xs i = Some (xs ! nat i)"
  by (simp add: rd_def)

lemma wr_in [array_simps]:
  "0 \<le> i \<Longrightarrow> i < int (length xs) \<Longrightarrow> wr xs i v = Some (xs[nat i := v])"
  by (simp add: wr_def)

lemma rd_Some: "rd xs i = Some v \<longleftrightarrow> 0 \<le> i \<and> i < int (length xs) \<and> v = xs ! nat i"
  by (auto simp: rd_def)

lemma wr_Some: "wr xs i v = Some ys \<longleftrightarrow> 0 \<le> i \<and> i < int (length xs) \<and> ys = xs[nat i := v]"
  by (auto simp: wr_def)

lemma length_upd_range [simp]: "length (upd_range b n f xs) = length xs"
  by (simp add: upd_range_def)

lemma nth_upd_range:
  "i < length xs \<Longrightarrow>
     upd_range b n f xs ! i = (if b \<le> i \<and> i < b + n then f (i - b) (xs ! i) else xs ! i)"
  by (simp add: upd_range_def)

lemma upd_range_0 [simp]: "upd_range b 0 f xs = xs"
  by (rule nth_equalityI) (auto simp: nth_upd_range)

lemma upd_range_Suc:
  assumes "b < length xs"
  shows "upd_range b (Suc n) f xs = upd_range (Suc b) n (\<lambda>k. f (Suc k)) (xs[b := f 0 (xs ! b)])"
  using assms
  by (auto simp: list_eq_iff_nth_eq nth_upd_range nth_list_update Suc_diff_le
      simp flip: Suc_diff_Suc)

lemma upd_range_one: "b < length xs \<Longrightarrow> upd_range b 1 f xs = xs[b := f 0 (xs ! b)]"
  using upd_range_Suc [of b xs 0 f] by simp

lemma upd_range_snoc:
  "b + n < length xs \<Longrightarrow>
     upd_range b (Suc n) f xs = (upd_range b n f xs)[b + n := f n (xs ! (b + n))]"
  by (auto simp: list_eq_iff_nth_eq nth_upd_range nth_list_update less_Suc_eq)

lemma upd_range_append:
  "upd_range (b + m) n g (upd_range b m f xs) =
     upd_range b (m + n) (\<lambda>k. if k < m then f k else g (k - m)) xs"
  by (auto simp: list_eq_iff_nth_eq nth_upd_range)

lemma upd_range_cong:
  "(\<And>k x. k < n \<Longrightarrow> f k x = g k x) \<Longrightarrow> upd_range b n f xs = upd_range b n g xs"
  by (auto simp: list_eq_iff_nth_eq nth_upd_range)

text \<open>
  The same for a rectangle of \<open>h\<close> rows of \<open>w\<close> elements whose rows start \<open>s\<close> elements apart;
  the first argument of \<open>f\<close> is the row, the second the column.
\<close>

definition upd_rect ::
    "nat \<Rightarrow> nat \<Rightarrow> nat \<Rightarrow> nat \<Rightarrow> (nat \<Rightarrow> nat \<Rightarrow> 'a \<Rightarrow> 'a) \<Rightarrow> 'a list \<Rightarrow> 'a list" where
  "upd_rect b s w h f xs =
     map (\<lambda>i. if b \<le> i \<and> (i - b) div s < h \<and> (i - b) mod s < w
              then f ((i - b) div s) ((i - b) mod s) (xs ! i) else xs ! i) [0..<length xs]"

lemma length_upd_rect [simp]: "length (upd_rect b s w h f xs) = length xs"
  by (simp add: upd_rect_def)

lemma nth_upd_rect:
  "i < length xs \<Longrightarrow>
     upd_rect b s w h f xs ! i =
       (if b \<le> i \<and> (i - b) div s < h \<and> (i - b) mod s < w
        then f ((i - b) div s) ((i - b) mod s) (xs ! i) else xs ! i)"
  by (simp add: upd_rect_def)

lemma upd_rect_0 [simp]: "upd_rect b s w 0 f xs = xs"
  by (rule nth_equalityI) (auto simp: nth_upd_rect)

lemma upd_rect_Suc:
  assumes "w \<le> s"
  shows "upd_rect b s w (Suc h) f xs =
    upd_rect (b + s) s w h (\<lambda>j. f (Suc j)) (upd_range b w (f 0) xs)"
proof (rule nth_equalityI)
  fix i assume "i < length (upd_rect b s w (Suc h) f xs)"
  then have i: "i < length xs" by simp
  show "upd_rect b s w (Suc h) f xs ! i =
    upd_rect (b + s) s w h (\<lambda>j. f (Suc j)) (upd_range b w (f 0) xs) ! i"
  proof (cases "b + s \<le> i")
    case True
    show ?thesis
    proof (cases "s = 0")
      case True
      then show ?thesis using i assms by (simp add: nth_upd_rect nth_upd_range)
    next
      case False
      have "(i - b) div s = Suc ((i - (b + s)) div s)" "(i - b) mod s = (i - (b + s)) mod s"
        using True False by (simp_all add: le_div_geq le_mod_geq)
      then show ?thesis using i assms True by (simp add: nth_upd_rect nth_upd_range)
    qed
  next
    case False
    then show ?thesis using i assms by (auto simp: nth_upd_rect nth_upd_range)
  qed
qed simp

lemma upd_rect_full:
  assumes "0 < s"
  shows "upd_rect b s s h (\<lambda>_ _. f) xs = upd_range b (s * h) (\<lambda>_. f) xs"
  using assms
  by (auto simp: list_eq_iff_nth_eq nth_upd_rect nth_upd_range div_less_iff_less_mult mult.commute)

lemma upd_rect_cong:
  "(\<And>j i x. j < h \<Longrightarrow> i < w \<Longrightarrow> f j i x = g j i x) \<Longrightarrow> upd_rect b s w h f xs = upd_rect b s w h g xs"
  by (auto simp: list_eq_iff_nth_eq nth_upd_rect)

lemma upd_range_all:
  assumes "\<And>k x. k < n \<Longrightarrow> P x \<Longrightarrow> P (f k x)" "\<forall>x \<in> set xs. P x"
  shows "\<forall>x \<in> set (upd_range b n f xs). P x"
  using assms by (auto simp: all_set_conv_all_nth nth_upd_range)

lemma upd_rect_all:
  assumes "\<And>j i x. j < h \<Longrightarrow> i < w \<Longrightarrow> P x \<Longrightarrow> P (f j i x)" "\<forall>x \<in> set xs. P x"
  shows "\<forall>x \<in> set (upd_rect b s w h f xs). P x"
  using assms by (simp add: all_set_conv_all_nth nth_upd_rect)

text \<open>What is outside the rectangle stays as it is.\<close>

definition kept_outside :: "nat \<Rightarrow> nat \<Rightarrow> nat \<Rightarrow> nat \<Rightarrow> 'a list \<Rightarrow> 'a list \<Rightarrow> bool" where
  "kept_outside b s w h d d' \<longleftrightarrow> length d' = length d \<and>
     (\<forall>i < length d. b \<le> i \<and> (i - b) div s < h \<and> (i - b) mod s < w \<or> d' ! i = d ! i)"

lemma kept_outside_length: "kept_outside b s w h d d' \<Longrightarrow> length d' = length d"
  by (simp add: kept_outside_def)

lemma upd_rect_kept: "kept_outside b s w h d (upd_rect b s w h f d)"
  by (simp add: kept_outside_def nth_upd_rect)

lemma upd_range_kept: "w \<le> s \<Longrightarrow> kept_outside b s w 1 d (upd_range b w f d)"
  by (auto simp: kept_outside_def nth_upd_range)

section \<open>Loops\<close>

text \<open>
  \<open>for_up i n body s\<close> runs \<open>body i\<close>, \<open>body (i + 1)\<close>, \dots, \<open>body (i + n - 1)\<close> and stops at
  the first fault: the counted loops of the sources.
\<close>

fun for_up :: "nat \<Rightarrow> nat \<Rightarrow> (nat \<Rightarrow> 's \<Rightarrow> 's option) \<Rightarrow> 's \<Rightarrow> 's option" where
  "for_up i 0 body s = Some s"
| "for_up i (Suc n) body s = do { s' \<leftarrow> body i s; for_up (Suc i) n body s' }"

lemma for_up_invariant:
  assumes "for_up i n body s = Some s'" and "I i s"
    and "\<And>k t t'. i \<le> k \<Longrightarrow> k < i + n \<Longrightarrow> I k t \<Longrightarrow> body k t = Some t' \<Longrightarrow> I (Suc k) t'"
  shows "I (i + n) s'"
  using assms
proof (induction n arbitrary: i s)
  case 0
  then show ?case by simp
next
  case (Suc n)
  from Suc.prems(1) obtain t where t: "body i s = Some t" "for_up (Suc i) n body t = Some s'"
    by (auto split: bind_splits)
  have "I (Suc i) t" using Suc.prems(2,3) t(1) by simp
  with Suc.IH [OF t(2)] Suc.prems(3) show ?case by simp
qed

lemma for_up_total:
  assumes "I i s"
    and "\<And>k t. i \<le> k \<Longrightarrow> k < i + n \<Longrightarrow> I k t \<Longrightarrow> \<exists>t'. body k t = Some t' \<and> I (Suc k) t'"
  shows "\<exists>s'. for_up i n body s = Some s' \<and> I (i + n) s'"
  using assms
proof (induction n arbitrary: i s)
  case 0
  then show ?case by simp
next
  case (Suc n)
  from Suc.prems obtain t where t: "body i s = Some t" "I (Suc i) t" by fastforce
  have "\<exists>s'. for_up (Suc i) n body t = Some s' \<and> I (Suc i + n) s'"
    by (rule Suc.IH) (use t Suc.prems(2) in auto)
  with t show ?case by simp
qed

text \<open>
  A loop that updates one element per iteration updates a range; a loop that updates one row per
  iteration updates a rectangle. \<open>st k d\<close> is the loop's state before iteration \<open>k\<close> with array
  contents \<open>d\<close>.
\<close>

lemma for_up_range:
  assumes "b + n \<le> length d"
    and "\<And>j d'. j < n \<Longrightarrow> length d' = length d \<Longrightarrow> (\<forall>i. b + j \<le> i \<longrightarrow> d' ! i = d ! i) \<Longrightarrow>
      body (k + j) (st (k + j) d') = Some (st (k + Suc j) (d'[b + j := f j (d' ! (b + j))]))"
  shows "for_up k n body (st k d) = Some (st (k + n) (upd_range b n f d))"
  using assms
proof (induction n arbitrary: k b f d)
  case 0
  then show ?case by simp
next
  case (Suc n)
  let ?d = "d[b := f 0 (d ! b)]"
  have 1: "body k (st k d) = Some (st (Suc k) ?d)" using Suc.prems(2) [of 0 d] by simp
  have "for_up (Suc k) n body (st (Suc k) ?d) =
      Some (st (Suc k + n) (upd_range (Suc b) n (\<lambda>j. f (Suc j)) ?d))"
    using Suc.prems(1) Suc.prems(2) [of "Suc _"] by (intro Suc.IH) auto
  with 1 show ?case using Suc.prems(1) by (simp add: upd_range_Suc)
qed

lemma for_up_rect:
  assumes "w \<le> s" and "0 < h \<Longrightarrow> b + (h - 1) * s + w \<le> length d"
    and "\<And>j d'. j < h \<Longrightarrow> length d' = length d \<Longrightarrow> b + j * s + w \<le> length d \<Longrightarrow>
      (\<And>i. i < b \<Longrightarrow> d' ! i = d ! i) \<Longrightarrow>
      body (k + j) (st (k + j) d') = Some (st (k + Suc j) (upd_range (b + j * s) w (f j) d'))"
  shows "for_up k h body (st k d) = Some (st (k + h) (upd_rect b s w h f d))"
  using assms
proof (induction h arbitrary: k b f d)
  case 0
  then show ?case by simp
next
  case (Suc h)
  let ?d = "upd_range b w (f 0) d"
  have "b + w \<le> length d" using Suc.prems(2) by simp
  then have 1: "body k (st k d) = Some (st (Suc k) ?d)" using Suc.prems(3) [of 0 d] by simp
  have "for_up (Suc k) h body (st (Suc k) ?d) =
      Some (st (Suc k + h) (upd_rect (b + s) s w h (\<lambda>j. f (Suc j)) ?d))"
  proof (rule Suc.IH)
    show "0 < h \<Longrightarrow> b + s + (h - 1) * s + w \<le> length ?d"
      using Suc.prems(2) by (cases h) (simp_all add: add.assoc)
    show "body (Suc k + j) (st (Suc k + j) d') =
        Some (st (Suc k + Suc j) (upd_range (b + s + j * s) w (f (Suc j)) d'))"
      if "j < h" "length d' = length ?d" "b + s + j * s + w \<le> length ?d"
        "\<And>i. i < b + s \<Longrightarrow> d' ! i = ?d ! i" for j d'
      using Suc.prems(3) [of "Suc j" d'] that by (simp add: add.assoc nth_upd_range)
  qed (rule Suc.prems(1))
  with 1 show ?case using Suc.prems(1) by (simp add: upd_rect_Suc)
qed

end
