(* ===== verification/Pisces_Pixel.thy ===== *)
theory Pisces_Pixel
  imports Prelude
begin

text \<open>
  The pixel arithmetic of the Pisces software rasterizer
  (native-prism-sw/PiscesBlit.c): packed 32-bit ARGB pixels with premultiplied colour
  components, the division by 255, and the compositing of one source colour with one
  destination pixel. A C function that takes \<open>jint *intData\<close> is a definition that takes the
  array and the index the pointer stands for; the value it stores is a definition of its own,
  with the suffix \<open>_val\<close>.
\<close>

section \<open>Packed pixels\<close>

definition MAX_ALPHA :: jint where
  "MAX_ALPHA = 255"

definition pixA :: "jint \<Rightarrow> jint" where
  "pixA x = shr x 24 AND 255"

definition pixR :: "jint \<Rightarrow> jint" where
  "pixR x = shr x 16 AND 255"

definition pixG :: "jint \<Rightarrow> jint" where
  "pixG x = shr x 8 AND 255"

definition pixB :: "jint \<Rightarrow> jint" where
  "pixB x = x AND 255"

definition pack :: "jint \<Rightarrow> jint \<Rightarrow> jint \<Rightarrow> jint \<Rightarrow> jint" where
  "pack a r g b = s32 (shl a 24 OR shl r 16 OR shl g 8 OR b)"

definition div255 :: "jint \<Rightarrow> jint" where
  "div255 x = shr (s32 (x * 257 + 257)) 16"

section \<open>Compositing one pixel\<close>

definition blendSrcOver8888_pre_val :: "jint \<Rightarrow> jint \<Rightarrow> jint \<Rightarrow> jint \<Rightarrow> jint \<Rightarrow> jint" where
  "blendSrcOver8888_pre_val ival aval sred sgreen sblue =
    (let dalpha = shr ival 24 AND 255; dred = shr ival 16 AND 255;
         dgreen = shr ival 8 AND 255; dblue = ival AND 255;
         oneminusaval = 255 - aval;
         oalpha = div255 (255 * aval + oneminusaval * dalpha);
         ored = div255 (sred * aval + oneminusaval * dred);
         ogreen = div255 (sgreen * aval + oneminusaval * dgreen);
         oblue = div255 (sblue * aval + oneminusaval * dblue)
     in pack oalpha ored ogreen oblue)"

definition blendSrcOver8888_pre_pre_val ::
    "jint \<Rightarrow> jint \<Rightarrow> jint \<Rightarrow> jint \<Rightarrow> jint \<Rightarrow> jint \<Rightarrow> jint" where
  "blendSrcOver8888_pre_pre_val ival frac aval sred sgreen sblue =
    (let dalpha = shr ival 24 AND 255; dred = shr ival 16 AND 255;
         dgreen = shr ival 8 AND 255; dblue = ival AND 255;
         aval2 = shr (s32 (aval * frac)) 8;
         oneminusaval = 255 - aval2;
         oalpha = aval2 + div255 (oneminusaval * dalpha);
         ored = shr (s32 (sred * frac)) 8 + div255 (oneminusaval * dred);
         ogreen = shr (s32 (sgreen * frac)) 8 + div255 (oneminusaval * dgreen);
         oblue = shr (s32 (sblue * frac)) 8 + div255 (oneminusaval * dblue)
     in pack oalpha ored ogreen oblue)"

definition blendSrcOver8888_pre_pre_fullFrac_val ::
    "jint \<Rightarrow> jint \<Rightarrow> jint \<Rightarrow> jint \<Rightarrow> jint \<Rightarrow> jint" where
  "blendSrcOver8888_pre_pre_fullFrac_val ival aval sred sgreen sblue =
    (let dalpha = shr ival 24 AND 255; dred = shr ival 16 AND 255;
         dgreen = shr ival 8 AND 255; dblue = ival AND 255;
         oneminusaval = 255 - aval;
         oalpha = aval + div255 (oneminusaval * dalpha);
         ored = sred + div255 (oneminusaval * dred);
         ogreen = sgreen + div255 (oneminusaval * dgreen);
         oblue = sblue + div255 (oneminusaval * dblue)
     in pack oalpha ored ogreen oblue)"

definition blendSrc8888_pre_val ::
    "jint \<Rightarrow> jint \<Rightarrow> jint \<Rightarrow> jint \<Rightarrow> jint \<Rightarrow> jint \<Rightarrow> jint" where
  "blendSrc8888_pre_val ival aval raaval sred sgreen sblue =
    (let dalpha = shr ival 24 AND 255; dred = shr ival 16 AND 255;
         dgreen = shr ival 8 AND 255; dblue = ival AND 255;
         denom = 255 * aval + dalpha * raaval
     in if denom = 0 then 0
        else pack (div255 denom) (div255 (aval * sred + raaval * dred))
               (div255 (aval * sgreen + raaval * dgreen))
               (div255 (aval * sblue + raaval * dblue)))"

definition blendSrc8888_pre_pre_val ::
    "jint \<Rightarrow> jint \<Rightarrow> jint \<Rightarrow> jint \<Rightarrow> jint \<Rightarrow> jint \<Rightarrow> jint" where
  "blendSrc8888_pre_pre_val ival aval raaval sred sgreen sblue =
    (let dalpha = shr ival 24 AND 255; dred = shr ival 16 AND 255;
         dgreen = shr ival 8 AND 255; dblue = ival AND 255;
         denom = 255 * aval + dalpha * raaval
     in if denom = 0 then 0
        else pack (div255 denom) (sred + div255 (raaval * dred))
               (sgreen + div255 (raaval * dgreen)) (sblue + div255 (raaval * dblue)))"

text \<open>
  LCD text goes through the gamma tables. \<open>initGammaArrays\<close> fills them from \<open>pow\<close> in
  floating point; here they are arguments, arrays of 256 entries, and reading beyond them is a
  fault.
\<close>

definition blendLCDSrcOver8888_pre_val ::
    "jint list \<Rightarrow> jint list \<Rightarrow> jint \<Rightarrow> jint \<Rightarrow> jint \<Rightarrow> jint \<Rightarrow> jint \<Rightarrow> jint \<Rightarrow> jint \<Rightarrow> jint option" where
  "blendLCDSrcOver8888_pre_val gammaArray invGammaArray ival ared agreen ablue sred sgreen sblue =
    do { dred \<leftarrow> rd invGammaArray (shr ival 16 AND 255);
         dgreen \<leftarrow> rd invGammaArray (shr ival 8 AND 255);
         dblue \<leftarrow> rd invGammaArray (ival AND 255);
         ored \<leftarrow> rd gammaArray (div255 (ared * sred + (255 - ared) * dred));
         ogreen \<leftarrow> rd gammaArray (div255 (agreen * sgreen + (255 - agreen) * dgreen));
         oblue \<leftarrow> rd gammaArray (div255 (ablue * sblue + (255 - ablue) * dblue));
         Some (pack 255 ored ogreen oblue) }"

definition blendSrcOver8888_pre ::
    "jint list \<Rightarrow> int \<Rightarrow> jint \<Rightarrow> jint \<Rightarrow> jint \<Rightarrow> jint \<Rightarrow> jint list option" where
  "blendSrcOver8888_pre intData i aval sred sgreen sblue =
    do { ival \<leftarrow> rd intData i; wr intData i (blendSrcOver8888_pre_val ival aval sred sgreen sblue) }"

definition blendSrcOver8888_pre_pre ::
    "jint list \<Rightarrow> int \<Rightarrow> jint \<Rightarrow> jint \<Rightarrow> jint \<Rightarrow> jint \<Rightarrow> jint \<Rightarrow> jint list option" where
  "blendSrcOver8888_pre_pre intData i frac aval sred sgreen sblue =
    do { ival \<leftarrow> rd intData i;
         wr intData i (blendSrcOver8888_pre_pre_val ival frac aval sred sgreen sblue) }"

definition blendSrcOver8888_pre_pre_fullFrac ::
    "jint list \<Rightarrow> int \<Rightarrow> jint \<Rightarrow> jint \<Rightarrow> jint \<Rightarrow> jint \<Rightarrow> jint list option" where
  "blendSrcOver8888_pre_pre_fullFrac intData i aval sred sgreen sblue =
    do { ival \<leftarrow> rd intData i;
         wr intData i (blendSrcOver8888_pre_pre_fullFrac_val ival aval sred sgreen sblue) }"

definition blendSrc8888_pre ::
    "jint list \<Rightarrow> int \<Rightarrow> jint \<Rightarrow> jint \<Rightarrow> jint \<Rightarrow> jint \<Rightarrow> jint \<Rightarrow> jint list option" where
  "blendSrc8888_pre intData i aval raaval sred sgreen sblue =
    do { ival \<leftarrow> rd intData i;
         wr intData i (blendSrc8888_pre_val ival aval raaval sred sgreen sblue) }"

definition blendSrc8888_pre_pre ::
    "jint list \<Rightarrow> int \<Rightarrow> jint \<Rightarrow> jint \<Rightarrow> jint \<Rightarrow> jint \<Rightarrow> jint \<Rightarrow> jint list option" where
  "blendSrc8888_pre_pre intData i aval raaval sred sgreen sblue =
    do { ival \<leftarrow> rd intData i;
         wr intData i (blendSrc8888_pre_pre_val ival aval raaval sred sgreen sblue) }"

definition blendLCDSrcOver8888_pre ::
    "jint list \<Rightarrow> jint list \<Rightarrow> jint list \<Rightarrow> int \<Rightarrow> jint \<Rightarrow> jint \<Rightarrow> jint \<Rightarrow> jint \<Rightarrow> jint \<Rightarrow> jint \<Rightarrow>
     jint list option" where
  "blendLCDSrcOver8888_pre gammaArray invGammaArray intData i ared agreen ablue sred sgreen sblue =
    do { ival \<leftarrow> rd intData i;
         v \<leftarrow> blendLCDSrcOver8888_pre_val gammaArray invGammaArray ival ared agreen ablue
                sred sgreen sblue;
         wr intData i v }"

section \<open>Packing and unpacking\<close>

definition chan :: "jint \<Rightarrow> bool" where
  "chan x \<longleftrightarrow> 0 \<le> x \<and> x \<le> 255"

lemma pix_range [simp]: "chan (pixA x)" "chan (pixR x)" "chan (pixG x)" "chan (pixB x)"
  by (auto simp: chan_def pixA_def pixR_def pixG_def pixB_def and_255)

lemma pack_arith:
  assumes "chan a" "chan r" "chan g" "chan b"
  shows "pack a r g b = s32 (a * 16777216 + r * 65536 + g * 256 + b)"
  using assms shl_or_low [of b 8 g] shl_or_low [of "g * 256 + b" 16 r]
    shl_or_low [of "r * 65536 + (g * 256 + b)" 24 a]
  by (simp add: chan_def pack_def add.assoc)

lemma unpack_pack [simp]:
  assumes "chan a" "chan r" "chan g" "chan b"
  shows "pixA (pack a r g b) = a" "pixR (pack a r g b) = r"
    "pixG (pack a r g b) = g" "pixB (pack a r g b) = b"
proof -
  let ?v = "a * 16777216 + r * 65536 + g * 256 + b"
  have p: "pack a r g b = s32 ?v" using assms by (rule pack_arith)
  note b = assms [unfolded chan_def]
  have "?v div 16777216 = a"
    by (rule int_div_pos_eq [where r = "r * 65536 + g * 256 + b"]) (use b in simp_all)
  then show "pixA (pack a r g b) = a"
    unfolding pixA_def p by (subst s32_shr_and_255) (use b in \<open>simp_all add: c_arith\<close>)
  have "?v div 65536 = a * 256 + r"
    by (rule int_div_pos_eq [where r = "g * 256 + b"]) (use b in simp_all)
  then show "pixR (pack a r g b) = r"
    unfolding pixR_def p by (subst s32_shr_and_255) (use b in \<open>simp_all add: c_arith\<close>)
  have "?v div 256 = (a * 256 + r) * 256 + g"
    by (rule int_div_pos_eq [where r = b]) (use b in simp_all)
  then have "?v div 256 mod 256 = g" using b by (simp only: mod_mult_self3) simp
  then show "pixG (pack a r g b) = g"
    unfolding pixG_def p by (subst s32_shr_and_255) (simp_all add: c_arith)
  have "?v = ((a * 256 + r) * 256 + g) * 256 + b" by simp
  then have "?v mod 256 = b" using b by (simp only: mod_mult_self3) simp
  then show "pixB (pack a r g b) = b"
    unfolding pixB_def p using s32_mod_pow2 [of 8 ?v] by (simp add: and_255)
qed

lemma base256_sum:
  "x = 16777216 * a + y \<Longrightarrow> y = 65536 * r + z \<Longrightarrow> z = 256 * g + b \<Longrightarrow>
     a * 16777216 + r * 65536 + g * 256 + b = (x::int)"
  by simp

lemma pack_unpack:
  assumes "in_s32 p"
  shows "pack (pixA p) (pixR p) (pixG p) (pixB p) = p"
proof -
  have "pixA p * 16777216 + pixR p * 65536 + pixG p * 256 + pixB p = p mod 4294967296"
  proof (rule base256_sum [where y = "p mod 16777216" and z = "p mod 65536"])
    show "p mod 4294967296 = 16777216 * pixA p + p mod 16777216"
      using zmod_zmult2_eq [of 256 p 16777216] by (simp add: pixA_def c_arith)
    show "p mod 16777216 = 65536 * pixR p + p mod 65536"
      using zmod_zmult2_eq [of 256 p 65536] by (simp add: pixR_def c_arith)
    show "p mod 65536 = 256 * pixG p + pixB p"
      using zmod_zmult2_eq [of 256 p 256] by (simp add: pixG_def pixB_def c_arith)
  qed
  then have "pack (pixA p) (pixR p) (pixG p) (pixB p) = s32 (p mod 4294967296)"
    by (simp add: pack_arith)
  also have "\<dots> = s32 p"
    by (simp only: s32_eq_mod mod_add_left_eq)
  finally show ?thesis using assms by (simp add: in_s32_def)
qed

section \<open>Division by 255\<close>

lemma div255_exact:
  assumes "0 \<le> x" "x < 65535"
  shows "div255 x = x div 255"
proof -
  have r: "0 \<le> x mod 255" "x mod 255 \<le> 254" and q: "0 \<le> x div 255" "x div 255 \<le> 256"
    using assms by simp_all
  have "y * 257 + 257 = 65536 * q + (257 * (m + 1) - q)" if "255 * q + m = y" for y q m :: int
    using that by auto
  from this [OF mult_div_mod_eq [of 255 x]]
  have "x * 257 + 257 = 65536 * (x div 255) + (257 * (x mod 255 + 1) - x div 255)" .
  moreover have "0 \<le> 257 * (x mod 255 + 1) - x div 255"
    "257 * (x mod 255 + 1) - x div 255 < 65536"
    using r q by simp_all
  ultimately have "(x * 257 + 257) div 65536 = x div 255"
    by (rule int_div_pos_eq)
  then show ?thesis using assms by (simp add: div255_def c_arith)
qed

lemma div255_mono: "0 \<le> x \<Longrightarrow> x \<le> y \<Longrightarrow> y < 65535 \<Longrightarrow> div255 x \<le> div255 y"
  by (simp add: div255_exact zdiv_mono1)

lemma div255_chan: "0 \<le> x \<Longrightarrow> x \<le> 65025 \<Longrightarrow> chan (div255 x)"
  unfolding chan_def using zdiv_mono1 [of x 65025 255]
  by (simp add: div255_exact pos_imp_zdiv_nonneg_iff)

section \<open>Compositing keeps pixels premultiplied\<close>

definition premult :: "jint \<Rightarrow> bool" where
  "premult p \<longleftrightarrow> pixR p \<le> pixA p \<and> pixG p \<le> pixA p \<and> pixB p \<le> pixA p"

lemma pack_premult:
  assumes "chan a" "chan r" "chan g" "chan b" "r \<le> a" "g \<le> a" "b \<le> a"
  shows "premult (pack a r g b)"
  using assms by (simp add: premult_def)

lemma pix_nonneg [simp]: "0 \<le> pixA x" "0 \<le> pixR x" "0 \<le> pixG x" "0 \<le> pixB x"
  using pix_range [of x] by (simp_all add: chan_def)

lemma pix_le_255 [simp]: "pixA x \<le> 255" "pixR x \<le> 255" "pixG x \<le> 255" "pixB x \<le> 255"
  using pix_range [of x] by (simp_all add: chan_def)

lemmas pix_unfolds = Let_def pixA_def pixR_def pixG_def pixB_def

lemma blendSrcOver_eq:
  "blendSrcOver8888_pre_val ival aval sred sgreen sblue =
     pack (div255 (255 * aval + (255 - aval) * pixA ival))
       (div255 (sred * aval + (255 - aval) * pixR ival))
       (div255 (sgreen * aval + (255 - aval) * pixG ival))
       (div255 (sblue * aval + (255 - aval) * pixB ival))"
  by (simp only: blendSrcOver8888_pre_val_def pix_unfolds)

lemma blendSrcOver_pre_pre_eq:
  "blendSrcOver8888_pre_pre_val ival frac aval sred sgreen sblue =
     (let a = shr (s32 (aval * frac)) 8
      in pack (a + div255 ((255 - a) * pixA ival))
           (shr (s32 (sred * frac)) 8 + div255 ((255 - a) * pixR ival))
           (shr (s32 (sgreen * frac)) 8 + div255 ((255 - a) * pixG ival))
           (shr (s32 (sblue * frac)) 8 + div255 ((255 - a) * pixB ival)))"
  by (simp only: blendSrcOver8888_pre_pre_val_def pix_unfolds)

lemma blendSrcOver_fullFrac_eq:
  "blendSrcOver8888_pre_pre_fullFrac_val ival aval sred sgreen sblue =
     pack (aval + div255 ((255 - aval) * pixA ival)) (sred + div255 ((255 - aval) * pixR ival))
       (sgreen + div255 ((255 - aval) * pixG ival)) (sblue + div255 ((255 - aval) * pixB ival))"
  by (simp only: blendSrcOver8888_pre_pre_fullFrac_val_def pix_unfolds)

lemma blendSrc_eq:
  "blendSrc8888_pre_val ival aval raaval sred sgreen sblue =
     (if 255 * aval + pixA ival * raaval = 0 then 0
      else pack (div255 (255 * aval + pixA ival * raaval))
             (div255 (aval * sred + raaval * pixR ival))
             (div255 (aval * sgreen + raaval * pixG ival))
             (div255 (aval * sblue + raaval * pixB ival)))"
  by (simp only: blendSrc8888_pre_val_def pix_unfolds)

lemma mix_mono:
  assumes "chan a" "chan d" "0 \<le> e" "e \<le> d" "0 \<le> s" "s \<le> t" "t \<le> 255"
  shows "0 \<le> s * a + (255 - a) * e" "s * a + (255 - a) * e \<le> t * a + (255 - a) * d"
    "t * a + (255 - a) * d \<le> 65025"
proof -
  have "0 \<le> s * a" "0 \<le> (255 - a) * e" using assms by (simp_all add: chan_def)
  then show "0 \<le> s * a + (255 - a) * e" by simp
  have "s * a \<le> t * a" "(255 - a) * e \<le> (255 - a) * d"
    using assms by (simp_all add: chan_def mult_right_mono mult_left_mono)
  then show "s * a + (255 - a) * e \<le> t * a + (255 - a) * d" by simp
  have "t * a \<le> 255 * a" using assms by (intro mult_right_mono) (simp_all add: chan_def)
  moreover have "(255 - a) * d \<le> (255 - a) * 255"
    using assms by (intro mult_left_mono) (simp_all add: chan_def)
  ultimately show "t * a + (255 - a) * d \<le> 65025" by simp
qed

lemma mix_div255:
  assumes "chan a" "chan d" "chan s"
  shows "chan (div255 (s * a + (255 - a) * d))"
    "div255 (s * a + (255 - a) * d) = (s * a + (255 - a) * d) div 255"
  using mix_mono [of a d d s s] assms
  by (auto simp: chan_def [of d] chan_def [of s] intro!: div255_chan div255_exact)

lemma blendSrcOver_channels:
  assumes "chan aval" "chan sred" "chan sgreen" "chan sblue"
  shows "pixA (blendSrcOver8888_pre_val ival aval sred sgreen sblue) =
      (255 * aval + (255 - aval) * pixA ival) div 255"
    "pixR (blendSrcOver8888_pre_val ival aval sred sgreen sblue) =
      (sred * aval + (255 - aval) * pixR ival) div 255"
    "pixG (blendSrcOver8888_pre_val ival aval sred sgreen sblue) =
      (sgreen * aval + (255 - aval) * pixG ival) div 255"
    "pixB (blendSrcOver8888_pre_val ival aval sred sgreen sblue) =
      (sblue * aval + (255 - aval) * pixB ival) div 255"
proof -
  have "chan 255" by (simp add: chan_def)
  then show "pixA (blendSrcOver8888_pre_val ival aval sred sgreen sblue) =
      (255 * aval + (255 - aval) * pixA ival) div 255"
    "pixR (blendSrcOver8888_pre_val ival aval sred sgreen sblue) =
      (sred * aval + (255 - aval) * pixR ival) div 255"
    "pixG (blendSrcOver8888_pre_val ival aval sred sgreen sblue) =
      (sgreen * aval + (255 - aval) * pixG ival) div 255"
    "pixB (blendSrcOver8888_pre_val ival aval sred sgreen sblue) =
      (sblue * aval + (255 - aval) * pixB ival) div 255"
    using assms by (simp_all add: blendSrcOver_eq mix_div255(1)) (simp_all add: mix_div255(2))
qed

lemma blendSrcOver_premult:
  assumes "chan aval" "chan sred" "chan sgreen" "chan sblue" "premult ival"
  shows "premult (blendSrcOver8888_pre_val ival aval sred sgreen sblue)"
proof -
  have m: "(s * aval + (255 - aval) * d) div 255 \<le> (255 * aval + (255 - aval) * pixA ival) div 255"
    if "chan s" "0 \<le> d" "d \<le> pixA ival" for s d
    using that mix_mono(2) [OF assms(1) pix_range(1) that(2,3), of s 255]
    by (intro zdiv_mono1) (simp_all add: chan_def)
  show ?thesis
    unfolding premult_def blendSrcOver_channels [OF assms(1-4)]
    by (intro conjI; rule m) (use assms(2-5) in \<open>simp_all add: premult_def\<close>)
qed

text \<open>Premultiplied sources: a source channel \<open>s\<close> of a colour with alpha \<open>a\<close> satisfies \<open>s \<le> a\<close>.\<close>

lemma over_bounds:
  assumes "0 \<le> e" "e \<le> d" "chan d" "0 \<le> s" "s \<le> a" "chan a"
  shows "chan (s + div255 ((255 - a) * e))" "s + div255 ((255 - a) * e) \<le> a + div255 ((255 - a) * d)"
proof -
  have le: "0 \<le> (255 - a) * e" "(255 - a) * e \<le> (255 - a) * d"
    using assms by (auto simp: chan_def intro!: mult_nonneg_nonneg mult_left_mono)
  have le3: "(255 - a) * d \<le> (255 - a) * 255"
    using assms by (intro mult_left_mono) (simp_all add: chan_def)
  have up: "(255 - a) * 255 \<le> 65025" using assms by (simp add: chan_def)
  have d: "div255 ((255 - a) * e) \<le> div255 ((255 - a) * d)"
    using le le3 up by (intro div255_mono) simp_all
  have "div255 ((255 - a) * d) \<le> div255 ((255 - a) * 255)"
    using le le3 up by (intro div255_mono) simp_all
  also have "\<dots> = (255 - a) * 255 div 255"
    using le le3 up by (intro div255_exact) simp_all
  finally have u: "div255 ((255 - a) * d) \<le> 255 - a" by simp
  have z: "0 \<le> div255 ((255 - a) * e)"
    using div255_chan [of "(255 - a) * e"] le le3 up by (simp add: chan_def)
  show "chan (s + div255 ((255 - a) * e))" "s + div255 ((255 - a) * e) \<le> a + div255 ((255 - a) * d)"
    using assms d u z by (auto simp: chan_def)
qed

lemma over_pack_premult:
  assumes "premult p" "chan a" "0 \<le> r" "r \<le> a" "0 \<le> g" "g \<le> a" "0 \<le> b" "b \<le> a"
  shows "premult (pack (a + div255 ((255 - a) * pixA p)) (r + div255 ((255 - a) * pixR p))
    (g + div255 ((255 - a) * pixG p)) (b + div255 ((255 - a) * pixB p)))"
  using assms over_bounds [of _ "pixA p" _ a]
  by (intro pack_premult) (auto simp: premult_def chan_def [of a])

lemma scale_bounds:
  assumes "0 \<le> s" "s \<le> a" "chan a" "0 \<le> frac" "frac \<le> 256"
  shows "0 \<le> shr (s32 (s * frac)) 8" "shr (s32 (s * frac)) 8 \<le> shr (s32 (a * frac)) 8"
    "chan (shr (s32 (a * frac)) 8)"
proof -
  have le: "0 \<le> s * frac" "s * frac \<le> a * frac" "a * frac \<le> a * 256" "a * 256 \<le> 65280"
    using assms by (auto simp: chan_def intro!: mult_nonneg_nonneg mult_right_mono mult_left_mono)
  have *: "s32 (s * frac) = s * frac" "s32 (a * frac) = a * frac" using le by simp_all
  show "0 \<le> shr (s32 (s * frac)) 8" "shr (s32 (s * frac)) 8 \<le> shr (s32 (a * frac)) 8"
    using le unfolding * c_arith by (simp_all add: zdiv_mono1 pos_imp_zdiv_nonneg_iff)
  have "a * frac div 256 \<le> a" using le zdiv_mono1 [of "a * frac" "a * 256" 256] by simp
  then show "chan (shr (s32 (a * frac)) 8)"
    using le assms unfolding * c_arith by (simp add: chan_def pos_imp_zdiv_nonneg_iff)
qed

lemma blendSrcOver_pre_pre_premult:
  assumes "premult ival" "premult src" "0 \<le> frac" "frac \<le> 256"
  shows "premult (blendSrcOver8888_pre_pre_val ival frac (pixA src) (pixR src) (pixG src) (pixB src))"
  unfolding blendSrcOver_pre_pre_eq Let_def
  using assms scale_bounds(1,2) [OF _ _ pix_range(1) assms(3,4), of _ src]
    scale_bounds(3) [OF pix_nonneg(1) order_refl pix_range(1) assms(3,4), of src]
  by (intro over_pack_premult) (auto simp: premult_def)

lemma blendSrcOver_fullFrac_premult:
  assumes "premult ival" "premult src"
  shows "premult (blendSrcOver8888_pre_pre_fullFrac_val ival (pixA src) (pixR src) (pixG src) (pixB src))"
  unfolding blendSrcOver_fullFrac_eq
  using assms by (intro over_pack_premult) (auto simp: premult_def)

text \<open>
  The source rule composites with an explicit weight for the destination. It keeps pixels
  premultiplied when the two weights add up to at most 255.
\<close>

lemma blendSrc_weights:
  assumes "chan aval" "chan raaval" "aval + raaval \<le> 255" "chan s" "0 \<le> d" "d \<le> e" "chan e"
  shows "chan (div255 (aval * s + raaval * d))"
    "div255 (aval * s + raaval * d) \<le> div255 (255 * aval + e * raaval)"
    "chan (div255 (255 * aval + e * raaval))"
proof -
  have 1: "0 \<le> aval * s" "aval * s \<le> 255 * aval"
    using assms(1,4) mult_left_mono [of s 255 aval] by (simp_all add: chan_def mult.commute)
  have 2: "0 \<le> raaval * d" "raaval * d \<le> e * raaval" "e * raaval \<le> 255 * raaval"
    using assms by (auto simp: chan_def mult.commute [of raaval] intro!: mult_right_mono)
  have 3: "255 * aval + e * raaval \<le> 65025" using 2 assms(3) by simp
  show "chan (div255 (aval * s + raaval * d))"
    "div255 (aval * s + raaval * d) \<le> div255 (255 * aval + e * raaval)"
    "chan (div255 (255 * aval + e * raaval))"
    using 1 2 3 by (auto intro!: div255_chan div255_mono)
qed

lemma blendSrc_premult:
  assumes "chan aval" "chan raaval" "aval + raaval \<le> 255"
    and "chan sred" "chan sgreen" "chan sblue" "premult ival"
  shows "premult (blendSrc8888_pre_val ival aval raaval sred sgreen sblue)"
proof -
  have "premult 0" by (simp add: premult_def pixA_def pixR_def pixG_def pixB_def shr_def)
  then show ?thesis
    unfolding blendSrc_eq
    using assms(4-7) blendSrc_weights(1,2) [OF assms(1-3) _ _ _ pix_range(1) [of ival]]
      blendSrc_weights(3) [OF assms(1-4) pix_nonneg(1) order_refl pix_range(1) [of ival]]
    by (auto simp: premult_def [of ival] intro!: pack_premult)
qed

end
