(* ===== verification/Pisces_State.thy ===== *)
theory Pisces_State
  imports Pisces_Pixel
begin

text \<open>
  The state of the Pisces renderer: the \<open>Renderer\<close> struct of PiscesRenderer.h and the
  \<open>Surface\<close> struct of PiscesSurface.h as records. A field keeps its C name after the prefix
  \<open>rdr_\<close> (\<open>sf_\<close> for the surface). Arrays the struct points to are lists; the pixel array that
  \<open>_data\<close> shares with the surface is \<open>rdr_data\<close>. Function-pointer fields hold the name of the
  routine they point to, and \<open>None\<close> where the C pointer is NULL. The gamma tables, static
  arrays of PiscesBlit.c, are the two last fields of the drawing part.
\<close>

datatype blit_routine =
    BlitSrcOver8888_pre | BlitPTSrcOver8888_pre | BlitSrc8888_pre | BlitPTSrc8888_pre
  | BlitSrcOverMask8888_pre | BlitPTSrcOverMask8888_pre | BlitSrcMask8888_pre
  | BlitPTSrcMask8888_pre | BlitSrcOverLCDMask8888_pre

datatype line_routine =
    EmitLineSource8888_pre | EmitLineSourceOver8888_pre
  | EmitLinePTSource8888_pre | EmitLinePTSourceOver8888_pre

datatype paint_routine =
    GenLinearGradientPaint | GenRadialGradientPaint | GenTexturePaint | GenTexturePaintMultiply

record surface =
  sf_width :: jint
  sf_height :: jint
  sf_offset :: jint
  sf_scanlineStride :: jint
  sf_pixelStride :: jint
  sf_imageType :: jint
  sf_data :: "jint list"

record renderer =
  rdr_paintMode :: jint
  rdr_prevPaintMode :: jint
  rdr_ured :: jint
  rdr_ugreen :: jint
  rdr_ublue :: jint
  rdr_ualpha :: jint
  rdr_cred :: jint
  rdr_cgreen :: jint
  rdr_cblue :: jint
  rdr_calpha :: jint
  rdr_compositeRule :: jint
  rdr_surface :: surface
  rdr_data :: "jint list"
  rdr_width :: jint
  rdr_height :: jint
  rdr_imageOffset :: jint
  rdr_imageScanlineStride :: jint
  rdr_imagePixelStride :: jint
  rdr_imageType :: jint
  rdr_clearRect_set :: bool
  rdr_bl_SourceOverMask :: "blit_routine option"
  rdr_bl_PT_SourceOverMask :: "blit_routine option"
  rdr_bl_SourceMask :: "blit_routine option"
  rdr_bl_PT_SourceMask :: "blit_routine option"
  rdr_bl_SourceOverLCDMask :: "blit_routine option"
  rdr_bl_PT_SourceOverLCDMask :: "blit_routine option"
  rdr_bl_SourceLCDMask :: "blit_routine option"
  rdr_bl_PT_SourceLCDMask :: "blit_routine option"
  rdr_bl_SourceOverNoMask :: "blit_routine option"
  rdr_bl_PT_SourceOverNoMask :: "blit_routine option"
  rdr_bl_SourceNoMask :: "blit_routine option"
  rdr_bl_PT_SourceNoMask :: "blit_routine option"
  rdr_bl_SourceOver :: "blit_routine option"
  rdr_bl_PT_SourceOver :: "blit_routine option"
  rdr_bl_Source :: "blit_routine option"
  rdr_bl_PT_Source :: "blit_routine option"
  rdr_el_Source :: "line_routine option"
  rdr_el_SourceOver :: "line_routine option"
  rdr_el_PT_Source :: "line_routine option"
  rdr_el_PT_SourceOver :: "line_routine option"
  rdr_bl_Clear :: "blit_routine option"
  rdr_bl_PT_Clear :: "blit_routine option"
  rdr_bl :: "blit_routine option"
  rdr_bl_PT :: "blit_routine option"
  rdr_el :: "line_routine option"
  rdr_el_PT :: "line_routine option"
  rdr_emitRows :: "blit_routine option"
  rdr_emitLine :: "line_routine option"
  rdr_genPaint :: "paint_routine option"
  rdr_rowNum :: jint
  rdr_alphaWidth :: jint
  rdr_minTouched :: jint
  rdr_maxTouched :: jint
  rdr_currX :: jint
  rdr_currY :: jint
  rdr_currImageOffset :: jint
  rdr_alphaMap :: "jint list"
  rdr_rowAAInt :: "jint list"
  rdr_rectX :: jint
  rdr_rectY :: jint
  rdr_maskType :: jint
  rdr_mask_byteData :: "jint list"
  rdr_maskOffset :: jint
  rdr_mask_width :: jint
  rdr_mask_height :: jint
  rdr_paint :: "jint list"
  rdr_gradient_colors :: "jint list"
  rdr_gradient_cycleMethod :: jint
  rdr_texture_intData :: "jint list"
  rdr_texture_hasAlpha :: bool
  rdr_texture_imageWidth :: jint
  rdr_texture_imageHeight :: jint
  rdr_texture_stride :: jint
  rdr_texture_txMin :: jint
  rdr_texture_tyMin :: jint
  rdr_texture_txMax :: jint
  rdr_texture_tyMax :: jint
  rdr_texture_repeat :: bool
  rdr_texture_m00 :: jlong
  rdr_texture_m01 :: jlong
  rdr_texture_m02 :: jlong
  rdr_texture_m10 :: jlong
  rdr_texture_m11 :: jlong
  rdr_texture_m12 :: jlong
  rdr_texture_interpolate :: bool
  rdr_texture_transformType :: jint
  rdr_clip_bbMinX :: jint
  rdr_clip_bbMinY :: jint
  rdr_clip_bbMaxX :: jint
  rdr_clip_bbMaxY :: jint
  rdr_el_lfrac :: jint
  rdr_el_rfrac :: jint
  rdr_rendererState :: jint
  rdr_gammaArray :: "jint list"
  rdr_invGammaArray :: "jint list"

text \<open>
  \<open>my_malloc\<close> is \<open>calloc\<close>: a new renderer has every field zero (a NULL pointer is \<open>None\<close> or the
  empty array).
\<close>

definition zero_renderer :: "surface \<Rightarrow> renderer" where
  "zero_renderer sf =
    \<lparr>rdr_paintMode = 0, rdr_prevPaintMode = 0, rdr_ured = 0, rdr_ugreen = 0,
      rdr_ublue = 0, rdr_ualpha = 0, rdr_cred = 0, rdr_cgreen = 0, rdr_cblue = 0, rdr_calpha = 0,
      rdr_compositeRule = 0, rdr_surface = sf, rdr_data = [], rdr_width = 0, rdr_height = 0,
      rdr_imageOffset = 0, rdr_imageScanlineStride = 0, rdr_imagePixelStride = 0,
      rdr_imageType = 0, rdr_clearRect_set = False, rdr_bl_SourceOverMask = None,
      rdr_bl_PT_SourceOverMask = None, rdr_bl_SourceMask = None, rdr_bl_PT_SourceMask = None,
      rdr_bl_SourceOverLCDMask = None, rdr_bl_PT_SourceOverLCDMask = None,
      rdr_bl_SourceLCDMask = None, rdr_bl_PT_SourceLCDMask = None,
      rdr_bl_SourceOverNoMask = None, rdr_bl_PT_SourceOverNoMask = None,
      rdr_bl_SourceNoMask = None, rdr_bl_PT_SourceNoMask = None, rdr_bl_SourceOver = None,
      rdr_bl_PT_SourceOver = None, rdr_bl_Source = None, rdr_bl_PT_Source = None,
      rdr_el_Source = None, rdr_el_SourceOver = None, rdr_el_PT_Source = None,
      rdr_el_PT_SourceOver = None, rdr_bl_Clear = None, rdr_bl_PT_Clear = None, rdr_bl = None,
      rdr_bl_PT = None, rdr_el = None, rdr_el_PT = None, rdr_emitRows = None,
      rdr_emitLine = None, rdr_genPaint = None, rdr_rowNum = 0, rdr_alphaWidth = 0,
      rdr_minTouched = 0, rdr_maxTouched = 0, rdr_currX = 0, rdr_currY = 0,
      rdr_currImageOffset = 0, rdr_alphaMap = [], rdr_rowAAInt = [], rdr_rectX = 0,
      rdr_rectY = 0, rdr_maskType = 0, rdr_mask_byteData = [], rdr_maskOffset = 0,
      rdr_mask_width = 0, rdr_mask_height = 0, rdr_paint = [], rdr_gradient_colors = [],
      rdr_gradient_cycleMethod = 0, rdr_texture_intData = [], rdr_texture_hasAlpha = False,
      rdr_texture_imageWidth = 0, rdr_texture_imageHeight = 0, rdr_texture_stride = 0,
      rdr_texture_txMin = 0, rdr_texture_tyMin = 0, rdr_texture_txMax = 0, rdr_texture_tyMax = 0,
      rdr_texture_repeat = False, rdr_texture_m00 = 0, rdr_texture_m01 = 0, rdr_texture_m02 = 0,
      rdr_texture_m10 = 0, rdr_texture_m11 = 0, rdr_texture_m12 = 0,
      rdr_texture_interpolate = False, rdr_texture_transformType = 0, rdr_clip_bbMinX = 0,
      rdr_clip_bbMinY = 0, rdr_clip_bbMaxX = 0, rdr_clip_bbMaxY = 0, rdr_el_lfrac = 0,
      rdr_el_rfrac = 0, rdr_rendererState = 0, rdr_gammaArray = [], rdr_invGammaArray = []\<rparr>"

end
