(* ===== verification/Pisces_Blit.thy ===== *)
theory Pisces_Blit
  imports Pisces_State
begin

text \<open>
  The span and row blitters of native-prism-sw/PiscesBlit.c. The \<open>emitLine\<close> routines fill
  horizontal spans of a rectangle with fractional left, right, top and bottom edges; the
  \<open>blit\<close> routines composite one row under an anti-aliasing delta row (\<open>_rowAAInt\<close>) or a byte
  mask; \<open>clearRect8888_any\<close> fills a rectangle. A pointer into the pixel array is the index it
  stands for. Index arithmetic is over unbounded integers (signed overflow is undefined in C), and
  an index outside an array makes the routine fault (\<open>None\<close>).
\<close>

section \<open>Spans\<close>

text \<open>
  \<open>while (a < am) { body; a += imagePixelStride; aidx++; }\<close> as the code has it; the loop that
  does not stop (a stride that is not positive) is \<open>None\<close>.
\<close>

partial_function (option) span_loop ::
    "(int \<Rightarrow> int \<Rightarrow> jint list \<Rightarrow> jint list option) \<Rightarrow> int \<Rightarrow> int \<Rightarrow> int \<Rightarrow> int \<Rightarrow> jint list \<Rightarrow>
     (int \<times> int \<times> jint list) option" where
  "span_loop body a am stride aidx d =
     (if a < am
      then Option.bind (body aidx a d) (\<lambda>d'. span_loop body (a + stride) am stride (aidx + 1) d')
      else Some (a, aidx, d))"

declare span_loop.simps [code]

text \<open>One row of an \<open>emitLine\<close> routine: left edge pixel, full pixels, right edge pixel.\<close>

definition emit_row ::
    "(int \<Rightarrow> int \<Rightarrow> jint list \<Rightarrow> jint list option) \<Rightarrow> (int \<Rightarrow> int \<Rightarrow> jint list \<Rightarrow> jint list option) \<Rightarrow>
     (int \<Rightarrow> int \<Rightarrow> jint list \<Rightarrow> jint list option) \<Rightarrow> jint \<Rightarrow> jint \<Rightarrow> jint \<Rightarrow> int \<Rightarrow> int \<Rightarrow> int \<Rightarrow>
     jint list \<Rightarrow> jint list option" where
  "emit_row left mid right lfrac rfrac w stride a aidx d =
    do { (a, aidx, d) \<leftarrow> (if lfrac \<noteq> 0
           then do { d \<leftarrow> left aidx a d; Some (a + stride, aidx + 1, d) } else Some (a, aidx, d));
         (a, aidx, d) \<leftarrow> span_loop mid a (a + w) stride aidx d;
         if rfrac \<noteq> 0 then right aidx a d else Some d }"

definition emit_rows ::
    "(int \<Rightarrow> int \<Rightarrow> jint list \<Rightarrow> jint list option) \<Rightarrow> (int \<Rightarrow> int \<Rightarrow> jint list \<Rightarrow> jint list option) \<Rightarrow>
     (int \<Rightarrow> int \<Rightarrow> jint list \<Rightarrow> jint list option) \<Rightarrow> jint \<Rightarrow> jint \<Rightarrow> jint \<Rightarrow> renderer \<Rightarrow> jint \<Rightarrow>
     renderer option" where
  "emit_rows left mid right lfrac rfrac w rdr height =
    do { (off, pof, d) \<leftarrow> for_up 0 (nat height)
           (\<lambda>j (imageOffset, paint_offset, d).
              do { d \<leftarrow> emit_row left mid right lfrac rfrac w (rdr_imagePixelStride rdr)
                          (imageOffset + rdr_minTouched rdr * rdr_imagePixelStride rdr) paint_offset d;
                   Some (imageOffset + rdr_imageScanlineStride rdr,
                         paint_offset + rdr_alphaWidth rdr, d) })
           (rdr_currImageOffset rdr, 0, rdr_data rdr);
         Some (rdr\<lparr>rdr_data := d\<rparr>) }"

definition edge_width :: "renderer \<Rightarrow> jint \<Rightarrow> jint \<Rightarrow> jint" where
  "edge_width rdr lfrac rfrac =
     rdr_alphaWidth rdr - (if lfrac \<noteq> 0 then 1 else 0) - (if rfrac \<noteq> 0 then 1 else 0)"

definition emitLineSource8888_pre :: "renderer \<Rightarrow> jint \<Rightarrow> jint \<Rightarrow> renderer option" where
  "emitLineSource8888_pre rdr height frac =
    (let calpha = rdr_calpha rdr; cred = rdr_cred rdr; cgreen = rdr_cgreen rdr;
         cblue = rdr_cblue rdr; lfrac = rdr_el_lfrac rdr; rfrac = rdr_el_rfrac rdr;
         w = edge_width rdr lfrac rfrac
     in if frac = 65536
        then let pre_red = shr (s32 ((calpha + 1) * cred)) 8;
                 pre_green = shr (s32 ((calpha + 1) * cgreen)) 8;
                 pre_blue = shr (s32 ((calpha + 1) * cblue)) 8;
                 pixel = pack calpha pre_red pre_green pre_blue
             in emit_rows
                  (\<lambda>aidx a d. blendSrc8888_pre d a calpha (255 - shr lfrac 8) cred cgreen cblue)
                  (\<lambda>aidx a d. wr d a pixel)
                  (\<lambda>aidx a d. blendSrc8888_pre d a calpha (255 - shr rfrac 8) cred cgreen cblue)
                  lfrac rfrac w rdr height
        else let comp_frac = 255 - shr frac 8;
                 lfrac' = s32 (shr (s64 (lfrac * frac)) 16);
                 rfrac' = s32 (shr (s64 (rfrac * frac)) 16)
             in emit_rows
                  (\<lambda>aidx a d. blendSrc8888_pre d a calpha (255 - shr lfrac' 8) cred cgreen cblue)
                  (\<lambda>aidx a d. blendSrc8888_pre d a calpha comp_frac cred cgreen cblue)
                  (\<lambda>aidx a d. blendSrc8888_pre d a calpha (255 - shr rfrac' 8) cred cgreen cblue)
                  lfrac' rfrac' w rdr height)"

definition emitLinePTSource8888_pre :: "renderer \<Rightarrow> jint \<Rightarrow> jint \<Rightarrow> renderer option" where
  "emitLinePTSource8888_pre rdr height frac =
    (let paint = rdr_paint rdr; comp_frac = 255 - shr frac 8;
         lfrac = s32 (shr (s64 (rdr_el_lfrac rdr * frac)) 16);
         rfrac = s32 (shr (s64 (rdr_el_rfrac rdr * frac)) 16);
         blend = (\<lambda>raaval aidx a d. do { cval \<leftarrow> rd paint aidx;
           blendSrc8888_pre_pre d a (pixA cval) raaval (pixR cval) (pixG cval) (pixB cval) })
     in emit_rows (blend (255 - shr lfrac 8))
          (if frac = 65536 then (\<lambda>aidx a d. do { cval \<leftarrow> rd paint aidx; wr d a cval })
           else blend comp_frac)
          (blend (255 - shr rfrac 8)) lfrac rfrac (edge_width rdr lfrac rfrac) rdr height)"

definition emitLineSourceOver8888_pre :: "renderer \<Rightarrow> jint \<Rightarrow> jint \<Rightarrow> renderer option" where
  "emitLineSourceOver8888_pre rdr height frac =
    (let calpha = rdr_calpha rdr; cred = rdr_cred rdr; cgreen = rdr_cgreen rdr;
         cblue = rdr_cblue rdr; alpha = shr (s32 (calpha * frac)) 16;
         lfrac = rdr_el_lfrac rdr; rfrac = rdr_el_rfrac rdr;
         w = edge_width rdr lfrac rfrac;
         blend = (\<lambda>aval aidx a d. blendSrcOver8888_pre d a aval cred cgreen cblue)
     in if alpha = MAX_ALPHA
        then emit_rows (blend (shr lfrac 8)) (\<lambda>aidx a d. wr d a (pack 255 cred cgreen cblue))
               (blend (shr rfrac 8)) lfrac rfrac w rdr height
        else let lalpha = shr (s32 (lfrac * alpha)) 16; ralpha = shr (s32 (rfrac * alpha)) 16
             in emit_rows (blend lalpha) (blend alpha) (blend ralpha) lfrac rfrac w rdr height)"

definition emitLinePTSourceOver8888_pre :: "renderer \<Rightarrow> jint \<Rightarrow> jint \<Rightarrow> renderer option" where
  "emitLinePTSourceOver8888_pre rdr height frac =
    (let paint = rdr_paint rdr;
         lfrac = s32 (shr (s64 (rdr_el_lfrac rdr * frac)) 16);
         rfrac = s32 (shr (s64 (rdr_el_rfrac rdr * frac)) 16);
         blend = (\<lambda>fr aidx a d. do { cval \<leftarrow> rd paint aidx;
           blendSrcOver8888_pre_pre d a fr (pixA cval) (pixR cval) (pixG cval) (pixB cval) });
         full = (\<lambda>aidx a d. do { cval \<leftarrow> rd paint aidx;
           let palpha = pixA cval in
             if palpha = 0 then Some d
             else if palpha = MAX_ALPHA then wr d a cval
             else blendSrcOver8888_pre_pre_fullFrac d a palpha (pixR cval) (pixG cval) (pixB cval) })
     in emit_rows (blend (shr lfrac 8)) (if frac = 65536 then full else blend (shr frac 8))
          (blend (shr rfrac 8)) lfrac rfrac (edge_width rdr lfrac rfrac) rdr height)"

section \<open>Rows under an anti-aliasing delta row\<close>

text \<open>
  \<open>_rowAAInt\<close> holds coverage deltas; the loops accumulate them into \<open>aval_relative\<close>, look the
  sum up in \<open>alphaMap\<close> and clear the delta they consumed. The pixel operation receives the
  paint index, \<open>aval_relative\<close> and the index of the destination pixel.
\<close>

definition touched_width :: "renderer \<Rightarrow> jint" where
  "touched_width rdr =
     (if rdr_maxTouched rdr \<ge> rdr_minTouched rdr
      then rdr_maxTouched rdr - rdr_minTouched rdr + 1 else 0)"

definition aa_step ::
    "(int \<Rightarrow> jint \<Rightarrow> int \<Rightarrow> jint list \<Rightarrow> jint list option) \<Rightarrow> jint \<Rightarrow> nat \<Rightarrow>
     jint \<times> jint list \<times> int \<times> jint list \<Rightarrow> (jint \<times> jint list \<times> int \<times> jint list) option" where
  "aa_step px ps i = (\<lambda>(aval_relative, alpha, iidx, d).
    do { delta \<leftarrow> rd alpha (int i);
         alpha \<leftarrow> wr alpha (int i) 0;
         d \<leftarrow> px (int i) (aval_relative + delta) iidx d;
         Some (aval_relative + delta, alpha, iidx + ps, d) })"

definition aa_rows ::
    "(int \<Rightarrow> jint \<Rightarrow> int \<Rightarrow> jint list \<Rightarrow> jint list option) \<Rightarrow> renderer \<Rightarrow> jint \<Rightarrow> renderer option" where
  "aa_rows px rdr height =
    do { (alpha, off, d) \<leftarrow> for_up 0 (nat height)
           (\<lambda>j (alpha, imageOffset, d).
              do { (rel, alpha, iidx, d) \<leftarrow> for_up 0 (nat (touched_width rdr))
                     (aa_step px (rdr_imagePixelStride rdr))
                     (0, alpha, imageOffset + rdr_minTouched rdr * rdr_imagePixelStride rdr, d);
                   Some (alpha, imageOffset + rdr_imageScanlineStride rdr, d) })
           (rdr_rowAAInt rdr, rdr_currImageOffset rdr, rdr_data rdr);
         Some (rdr\<lparr>rdr_data := d, rdr_rowAAInt := alpha\<rparr>) }"

text \<open>What the loops do with one coverage value, shared by the delta-row and mask variants.\<close>

definition src_cov :: "renderer \<Rightarrow> jint \<Rightarrow> int \<Rightarrow> jint list \<Rightarrow> jint list option" where
  "src_cov rdr acoverage iidx d =
    (if acoverage = MAX_ALPHA
     then wr d iidx (pack (rdr_calpha rdr) (rdr_cred rdr) (rdr_cgreen rdr) (rdr_cblue rdr))
     else if acoverage > 0
     then blendSrc8888_pre d iidx (shr (s32 ((acoverage + 1) * rdr_calpha rdr)) 8) (255 - acoverage)
            (rdr_cred rdr) (rdr_cgreen rdr) (rdr_cblue rdr)
     else Some d)"

definition pt_src_cov :: "jint \<Rightarrow> jint \<Rightarrow> int \<Rightarrow> jint list \<Rightarrow> jint list option" where
  "pt_src_cov cval acoverage iidx d =
    (if acoverage = MAX_ALPHA then wr d iidx cval
     else if acoverage > 0
     then blendSrc8888_pre_pre d iidx (shr (s32 ((acoverage + 1) * pixA cval)) 8) (255 - acoverage)
            (pixR cval) (pixG cval) (pixB cval)
     else Some d)"

definition srcover_cov :: "renderer \<Rightarrow> jint \<Rightarrow> int \<Rightarrow> jint list \<Rightarrow> jint list option" where
  "srcover_cov rdr m iidx d =
    (let aval = shr (s32 ((m + 1) * rdr_calpha rdr)) 8
     in if aval = MAX_ALPHA
        then wr d iidx (pack 255 (rdr_cred rdr) (rdr_cgreen rdr) (rdr_cblue rdr))
        else if aval > 0
        then blendSrcOver8888_pre d iidx aval (rdr_cred rdr) (rdr_cgreen rdr) (rdr_cblue rdr)
        else Some d)"

definition pt_srcover_cov :: "jint \<Rightarrow> jint \<Rightarrow> int \<Rightarrow> jint list \<Rightarrow> jint list option" where
  "pt_srcover_cov cval malpha iidx d =
    (let palpha = pixA cval; aval = shr (s32 ((malpha + 1) * palpha)) 8
     in if aval = MAX_ALPHA then wr d iidx cval
        else if aval > 0
        then blendSrcOver8888_pre_pre d iidx (malpha + 1) palpha (pixR cval) (pixG cval) (pixB cval)
        else Some d)"

definition blitSrc8888_px :: "renderer \<Rightarrow> int \<Rightarrow> jint \<Rightarrow> int \<Rightarrow> jint list \<Rightarrow> jint list option" where
  "blitSrc8888_px rdr aidx aval_relative iidx d =
    do { m \<leftarrow> rd (rdr_alphaMap rdr) aval_relative; src_cov rdr (m AND 255) iidx d }"

definition blitPTSrc8888_px :: "renderer \<Rightarrow> int \<Rightarrow> jint \<Rightarrow> int \<Rightarrow> jint list \<Rightarrow> jint list option" where
  "blitPTSrc8888_px rdr aidx aval_relative iidx d =
    do { cval \<leftarrow> rd (rdr_paint rdr) aidx; m \<leftarrow> rd (rdr_alphaMap rdr) aval_relative;
         pt_src_cov cval (m AND 255) iidx d }"

definition blitSrcOver8888_px :: "renderer \<Rightarrow> int \<Rightarrow> jint \<Rightarrow> int \<Rightarrow> jint list \<Rightarrow> jint list option" where
  "blitSrcOver8888_px rdr aidx aval_relative iidx d =
    (if aval_relative \<noteq> 0
     then do { m \<leftarrow> rd (rdr_alphaMap rdr) aval_relative; srcover_cov rdr (m AND 255) iidx d }
     else Some d)"

definition blitPTSrcOver8888_px :: "renderer \<Rightarrow> int \<Rightarrow> jint \<Rightarrow> int \<Rightarrow> jint list \<Rightarrow> jint list option" where
  "blitPTSrcOver8888_px rdr aidx aval_relative iidx d =
    do { cval \<leftarrow> rd (rdr_paint rdr) aidx;
         if aval_relative \<noteq> 0
         then do { m \<leftarrow> rd (rdr_alphaMap rdr) aval_relative; pt_srcover_cov cval (m AND 255) iidx d }
         else Some d }"

definition blitSrc8888_pre :: "renderer \<Rightarrow> jint \<Rightarrow> renderer option" where
  "blitSrc8888_pre rdr height = aa_rows (blitSrc8888_px rdr) rdr height"

definition blitPTSrc8888_pre :: "renderer \<Rightarrow> jint \<Rightarrow> renderer option" where
  "blitPTSrc8888_pre rdr height = aa_rows (blitPTSrc8888_px rdr) rdr height"

definition blitSrcOver8888_pre :: "renderer \<Rightarrow> jint \<Rightarrow> renderer option" where
  "blitSrcOver8888_pre rdr height = aa_rows (blitSrcOver8888_px rdr) rdr height"

definition blitPTSrcOver8888_pre :: "renderer \<Rightarrow> jint \<Rightarrow> renderer option" where
  "blitPTSrcOver8888_pre rdr height = aa_rows (blitPTSrcOver8888_px rdr) rdr height"

section \<open>Rows under a byte mask\<close>

text \<open>
  The mask variants read one byte per pixel (three for LCD masks) from \<open>_mask_byteData\<close> at
  \<open>_maskOffset\<close>. The flat-colour variants advance the offset by \<open>_alphaWidth\<close> after each row, the
  paint variants do not.
\<close>

definition mask_step ::
    "(int \<Rightarrow> jint \<Rightarrow> int \<Rightarrow> jint list \<Rightarrow> jint list option) \<Rightarrow> jint list \<Rightarrow> int \<Rightarrow> jint \<Rightarrow> nat \<Rightarrow>
     int \<times> jint list \<Rightarrow> (int \<times> jint list) option" where
  "mask_step px bytes alphaOffset ps i = (\<lambda>(iidx, d).
    do { m \<leftarrow> rd bytes (alphaOffset + int i); d \<leftarrow> px (int i) m iidx d; Some (iidx + ps, d) })"

definition mask_rows ::
    "(int \<Rightarrow> jint \<Rightarrow> int \<Rightarrow> jint list \<Rightarrow> jint list option) \<Rightarrow> jint \<Rightarrow> renderer \<Rightarrow> jint \<Rightarrow> renderer option" where
  "mask_rows px alphaStride rdr height =
    do { (aoff, off, d) \<leftarrow> for_up 0 (nat height)
           (\<lambda>j (alphaOffset, imageOffset, d).
              do { (iidx, d) \<leftarrow> for_up 0 (nat (touched_width rdr))
                     (mask_step px (rdr_mask_byteData rdr) alphaOffset (rdr_imagePixelStride rdr))
                     (imageOffset + rdr_minTouched rdr * rdr_imagePixelStride rdr, d);
                   Some (alphaOffset + alphaStride, imageOffset + rdr_imageScanlineStride rdr, d) })
           (rdr_maskOffset rdr, rdr_currImageOffset rdr, rdr_data rdr);
         Some (rdr\<lparr>rdr_data := d\<rparr>) }"

definition blitSrcMask8888_px :: "renderer \<Rightarrow> int \<Rightarrow> jint \<Rightarrow> int \<Rightarrow> jint list \<Rightarrow> jint list option" where
  "blitSrcMask8888_px rdr aidx m iidx d = src_cov rdr (m AND 255) iidx d"

definition blitPTSrcMask8888_px :: "renderer \<Rightarrow> int \<Rightarrow> jint \<Rightarrow> int \<Rightarrow> jint list \<Rightarrow> jint list option" where
  "blitPTSrcMask8888_px rdr aidx m iidx d =
    do { cval \<leftarrow> rd (rdr_paint rdr) aidx; pt_src_cov cval (m AND 255) iidx d }"

definition blitSrcOverMask8888_px :: "renderer \<Rightarrow> int \<Rightarrow> jint \<Rightarrow> int \<Rightarrow> jint list \<Rightarrow> jint list option" where
  "blitSrcOverMask8888_px rdr aidx m iidx d =
    (if m \<noteq> 0 then srcover_cov rdr (m AND 255) iidx d else Some d)"

definition blitPTSrcOverMask8888_px :: "renderer \<Rightarrow> int \<Rightarrow> jint \<Rightarrow> int \<Rightarrow> jint list \<Rightarrow> jint list option" where
  "blitPTSrcOverMask8888_px rdr aidx m iidx d =
    (if m \<noteq> 0 then do { cval \<leftarrow> rd (rdr_paint rdr) aidx; pt_srcover_cov cval (m AND 255) iidx d }
     else Some d)"

definition blitSrcMask8888_pre :: "renderer \<Rightarrow> jint \<Rightarrow> renderer option" where
  "blitSrcMask8888_pre rdr height =
     mask_rows (blitSrcMask8888_px rdr) (rdr_alphaWidth rdr) rdr height"

definition blitPTSrcMask8888_pre :: "renderer \<Rightarrow> jint \<Rightarrow> renderer option" where
  "blitPTSrcMask8888_pre rdr height = mask_rows (blitPTSrcMask8888_px rdr) 0 rdr height"

definition blitSrcOverMask8888_pre :: "renderer \<Rightarrow> jint \<Rightarrow> renderer option" where
  "blitSrcOverMask8888_pre rdr height =
     mask_rows (blitSrcOverMask8888_px rdr) (rdr_alphaWidth rdr) rdr height"

definition blitPTSrcOverMask8888_pre :: "renderer \<Rightarrow> jint \<Rightarrow> renderer option" where
  "blitPTSrcOverMask8888_pre rdr height = mask_rows (blitPTSrcOverMask8888_px rdr) 0 rdr height"

definition lcd_step ::
    "renderer \<Rightarrow> jint \<Rightarrow> jint \<Rightarrow> jint \<Rightarrow> jint \<Rightarrow> int \<Rightarrow> nat \<Rightarrow> int \<times> jint list \<Rightarrow> (int \<times> jint list) option" where
  "lcd_step rdr calpha cred cgreen cblue alphaOffset i = (\<lambda>(iidx, d).
    do { mr \<leftarrow> rd (rdr_mask_byteData rdr) (alphaOffset + 3 * int i);
         mg \<leftarrow> rd (rdr_mask_byteData rdr) (alphaOffset + 3 * int i + 1);
         mb \<leftarrow> rd (rdr_mask_byteData rdr) (alphaOffset + 3 * int i + 2);
         let scale = (\<lambda>m. if calpha < MAX_ALPHA then shr (s32 ((m + 1) * calpha)) 8 else m);
             ared = scale (mr AND 255); agreen = scale (mg AND 255); ablue = scale (mb AND 255);
             aval_ismax = ared AND agreen AND ablue
         in do { d \<leftarrow> (if aval_ismax = MAX_ALPHA then wr d iidx (pack 255 cred cgreen cblue)
                       else blendLCDSrcOver8888_pre (rdr_gammaArray rdr) (rdr_invGammaArray rdr) d iidx
                              ared agreen ablue cred cgreen cblue);
                 Some (iidx + rdr_imagePixelStride rdr, d) } })"

definition blitSrcOverLCDMask8888_pre :: "renderer \<Rightarrow> jint \<Rightarrow> renderer option" where
  "blitSrcOverLCDMask8888_pre rdr height =
    do { calpha \<leftarrow> rd (rdr_invGammaArray rdr) (rdr_calpha rdr);
         cred \<leftarrow> rd (rdr_invGammaArray rdr) (rdr_cred rdr);
         cgreen \<leftarrow> rd (rdr_invGammaArray rdr) (rdr_cgreen rdr);
         cblue \<leftarrow> rd (rdr_invGammaArray rdr) (rdr_cblue rdr);
         (aoff, off, d) \<leftarrow> for_up 0 (nat height)
           (\<lambda>j (alphaOffset, imageOffset, d).
              do { (iidx, d) \<leftarrow> for_up 0 (nat (touched_width rdr))
                     (lcd_step rdr calpha cred cgreen cblue alphaOffset)
                     (imageOffset + rdr_minTouched rdr * rdr_imagePixelStride rdr, d);
                   Some (alphaOffset + rdr_alphaWidth rdr, imageOffset + rdr_imageScanlineStride rdr, d) })
           (rdr_maskOffset rdr, rdr_currImageOffset rdr, rdr_data rdr);
         Some (rdr\<lparr>rdr_data := d\<rparr>) }"

section \<open>Clearing a rectangle\<close>

text \<open>
  The loop that stores one pixel value, \<open>memset (p, 0, 4 * n)\<close> and \<open>memcpy\<close> of \<open>n\<close> pixels within
  the pixel array; a negative count, which C converts to a huge unsigned size, is a fault of the
  last two.
\<close>

definition fill_run :: "jint list \<Rightarrow> int \<Rightarrow> jint \<Rightarrow> jint \<Rightarrow> jint list option" where
  "fill_run d i n v = for_up 0 (nat n) (\<lambda>k d. wr d (i + int k) v) d"

definition memset_run :: "jint list \<Rightarrow> int \<Rightarrow> jint \<Rightarrow> jint list option" where
  "memset_run d i n = (if n < 0 then None else fill_run d i n 0)"

definition copy_run :: "jint list \<Rightarrow> int \<Rightarrow> int \<Rightarrow> jint \<Rightarrow> jint list option" where
  "copy_run d dst src n =
     (if n < 0 then None
      else for_up 0 (nat n) (\<lambda>k d. do { v \<leftarrow> rd d (src + int k); wr d (dst + int k) v }) d)"

definition clearRect8888_any ::
    "renderer \<Rightarrow> jint \<Rightarrow> jint \<Rightarrow> jint \<Rightarrow> jint \<Rightarrow> renderer option" where
  "clearRect8888_any rdr x y w h =
    (let cval = pack (rdr_calpha rdr) (rdr_cred rdr) (rdr_cgreen rdr) (rdr_cblue rdr);
         stride = rdr_imageScanlineStride rdr;
         intData = rdr_imageOffset rdr + y * stride + x * rdr_imagePixelStride rdr
     in do { d \<leftarrow>
         (if cval = 0
          then if x = 0 \<and> w = rdr_width rdr
               then memset_run (rdr_data rdr) intData (w * h)
               else for_up 0 (nat h) (\<lambda>j d. memset_run d (intData + int j * stride) w) (rdr_data rdr)
          else do { d \<leftarrow> fill_run (rdr_data rdr) intData w cval;
                    for_up 0 (nat (h - 1))
                      (\<lambda>j d. copy_run d (intData + stride + int j * stride) intData w) d });
         Some (rdr\<lparr>rdr_data := d\<rparr>) })"

end
