(* ===== verification/Pisces_Blit_Rows.thy ===== *)
theory Pisces_Blit_Rows
  imports Pisces_Blit
begin

text \<open>
  The row blitters of PiscesBlit.c against a pointwise specification. The interface between the
  row loops and the pixel operations is the locale \<open>pixel_op\<close>: what one pixel operation promises.
  The effect of the loops is proved once inside it, and each of the eight flat and paint
  operations interprets it.
\<close>

section \<open>The interface of a pixel operation\<close>

text \<open>The value a coverage leaves in the pixel, without the array around it.\<close>

definition src_cov_val :: "renderer \<Rightarrow> jint \<Rightarrow> jint \<Rightarrow> jint" where
  "src_cov_val rdr acoverage p =
    (if acoverage = MAX_ALPHA
     then pack (rdr_calpha rdr) (rdr_cred rdr) (rdr_cgreen rdr) (rdr_cblue rdr)
     else if acoverage > 0
     then blendSrc8888_pre_val p (shr (s32 ((acoverage + 1) * rdr_calpha rdr)) 8) (255 - acoverage)
            (rdr_cred rdr) (rdr_cgreen rdr) (rdr_cblue rdr)
     else p)"

definition pt_src_cov_val :: "jint \<Rightarrow> jint \<Rightarrow> jint \<Rightarrow> jint" where
  "pt_src_cov_val cval acoverage p =
    (if acoverage = MAX_ALPHA then cval
     else if acoverage > 0
     then blendSrc8888_pre_pre_val p (shr (s32 ((acoverage + 1) * pixA cval)) 8) (255 - acoverage)
            (pixR cval) (pixG cval) (pixB cval)
     else p)"

definition srcover_cov_val :: "renderer \<Rightarrow> jint \<Rightarrow> jint \<Rightarrow> jint" where
  "srcover_cov_val rdr m p =
    (let aval = shr (s32 ((m + 1) * rdr_calpha rdr)) 8
     in if aval = MAX_ALPHA then pack 255 (rdr_cred rdr) (rdr_cgreen rdr) (rdr_cblue rdr)
        else if aval > 0
        then blendSrcOver8888_pre_val p aval (rdr_cred rdr) (rdr_cgreen rdr) (rdr_cblue rdr)
        else p)"

definition pt_srcover_cov_val :: "jint \<Rightarrow> jint \<Rightarrow> jint \<Rightarrow> jint" where
  "pt_srcover_cov_val cval malpha p =
    (let aval = shr (s32 ((malpha + 1) * pixA cval)) 8
     in if aval = MAX_ALPHA then cval
        else if aval > 0
        then blendSrcOver8888_pre_pre_val p (malpha + 1) (pixA cval) (pixR cval) (pixG cval) (pixB cval)
        else p)"

lemma cov_eqs:
  assumes "0 \<le> i" "i < int (length d)"
  shows "src_cov rdr m i d = Some (d[nat i := src_cov_val rdr m (d ! nat i)])"
    and "pt_src_cov c m i d = Some (d[nat i := pt_src_cov_val c m (d ! nat i)])"
    and "srcover_cov rdr m i d = Some (d[nat i := srcover_cov_val rdr m (d ! nat i)])"
    and "pt_srcover_cov c m i d = Some (d[nat i := pt_srcover_cov_val c m (d ! nat i)])"
  using assms
  by (simp_all add: array_simps src_cov_def src_cov_val_def pt_src_cov_def pt_src_cov_val_def
      srcover_cov_def srcover_cov_val_def pt_srcover_cov_def pt_srcover_cov_val_def Let_def
      blendSrc8888_pre_def blendSrc8888_pre_pre_def blendSrcOver8888_pre_def
      blendSrcOver8888_pre_pre_def)

text \<open>
  \<open>target_ok rdr w h\<close>: the \<open>w\<close> by \<open>h\<close> pixels from the current row and column lie inside the
  pixel array, rows do not overlap, and pixels are adjacent.
\<close>

definition target_base :: "renderer \<Rightarrow> nat" where
  "target_base rdr = nat (rdr_currImageOffset rdr + rdr_minTouched rdr)"

definition target_ok :: "renderer \<Rightarrow> jint \<Rightarrow> jint \<Rightarrow> bool" where
  "target_ok rdr w h \<longleftrightarrow>
     rdr_imagePixelStride rdr = 1 \<and> 0 \<le> rdr_currImageOffset rdr + rdr_minTouched rdr \<and>
     0 \<le> w \<and> w \<le> rdr_imageScanlineStride rdr \<and>
     (0 < h \<longrightarrow> rdr_currImageOffset rdr + rdr_minTouched rdr +
        (h - 1) * rdr_imageScanlineStride rdr + w \<le> int (length (rdr_data rdr)))"

lemma target_ok_nat:
  assumes "target_ok rdr w h"
  shows "nat w \<le> nat (rdr_imageScanlineStride rdr)"
    and "0 < nat h \<Longrightarrow> target_base rdr + (nat h - 1) * nat (rdr_imageScanlineStride rdr) + nat w
           \<le> length (rdr_data rdr)"
    and "rdr_imagePixelStride rdr = 1"
    and "int (target_base rdr) = rdr_currImageOffset rdr + rdr_minTouched rdr"
    and "int (nat w) = w" and "int (nat (rdr_imageScanlineStride rdr)) = rdr_imageScanlineStride rdr"
proof -
  show "nat w \<le> nat (rdr_imageScanlineStride rdr)" "rdr_imagePixelStride rdr = 1"
    "int (nat w) = w" "int (nat (rdr_imageScanlineStride rdr)) = rdr_imageScanlineStride rdr"
    and b: "int (target_base rdr) = rdr_currImageOffset rdr + rdr_minTouched rdr"
    using assms by (auto simp: target_ok_def target_base_def)
  assume "0 < nat h"
  then have "int (target_base rdr + (nat h - 1) * nat (rdr_imageScanlineStride rdr) + nat w)
      \<le> int (length (rdr_data rdr))"
    using assms unfolding of_nat_add of_nat_mult b by (simp add: target_ok_def of_nat_diff)
  then show "target_base rdr + (nat h - 1) * nat (rdr_imageScanlineStride rdr) + nat w
      \<le> length (rdr_data rdr)" by (rule iffD1 [OF of_nat_le_iff])
qed

locale pixel_op =
  fixes px :: "int \<Rightarrow> jint \<Rightarrow> int \<Rightarrow> jint list \<Rightarrow> jint list option"
    and pv :: "int \<Rightarrow> jint \<Rightarrow> jint \<Rightarrow> jint"
    and ok :: "int \<Rightarrow> jint \<Rightarrow> bool"
  assumes px_at:
    "ok k m \<Longrightarrow> 0 \<le> i \<Longrightarrow> i < int (length d) \<Longrightarrow> px k m i d = Some (d[nat i := pv k m (d ! nat i)])"
begin

lemma mask_row:
  assumes "b + w \<le> length d"
    and "\<And>i. i < w \<Longrightarrow> 0 \<le> ao + int i \<and> ao + int i < int (length bytes) \<and>
           ok (int i) (bytes ! nat (ao + int i))"
  shows "for_up 0 w (mask_step px bytes ao 1) (int b, d) =
    Some (int (b + w), upd_range b w (\<lambda>i. pv (int i) (bytes ! nat (ao + int i))) d)"
proof -
  have "for_up 0 w (mask_step px bytes ao 1) ((\<lambda>i d. (int (b + i), d)) 0 d) =
    Some ((\<lambda>i d. (int (b + i), d)) (0 + w)
      (upd_range b w (\<lambda>i. pv (int i) (bytes ! nat (ao + int i))) d))"
    using assms
    by (intro for_up_range) (simp_all add: mask_step_def array_simps px_at nat_int_add)
  then show ?thesis by simp
qed

lemma mask_rows_rect:
  assumes "target_ok rdr (touched_width rdr) h"
    and "\<And>j i. j < nat h \<Longrightarrow> i < nat (touched_width rdr) \<Longrightarrow>
      0 \<le> rdr_maskOffset rdr + int j * st + int i \<and>
      rdr_maskOffset rdr + int j * st + int i < int (length (rdr_mask_byteData rdr)) \<and>
      ok (int i) (rdr_mask_byteData rdr ! nat (rdr_maskOffset rdr + int j * st + int i))"
  shows "mask_rows px st rdr h =
    Some (rdr\<lparr>rdr_data := upd_rect (target_base rdr) (nat (rdr_imageScanlineStride rdr))
      (nat (touched_width rdr)) (nat h)
      (\<lambda>j i. pv (int i) (rdr_mask_byteData rdr ! nat (rdr_maskOffset rdr + int j * st + int i)))
      (rdr_data rdr)\<rparr>)"
proof -
  note t = target_ok_nat [OF assms(1)]
  let ?st = "\<lambda>j d. (rdr_maskOffset rdr + int j * st,
      rdr_currImageOffset rdr + int j * rdr_imageScanlineStride rdr, d)"
  have off: "rdr_currImageOffset rdr + int j * rdr_imageScanlineStride rdr + rdr_minTouched rdr =
      int (target_base rdr + j * nat (rdr_imageScanlineStride rdr))" for j
    unfolding of_nat_add of_nat_mult t(4,6) by simp
  show ?thesis
    unfolding mask_rows_def
    by (subst for_up_rect [OF t(1) t(2), where k = 0 and st = ?st, simplified])
      (simp_all add: t(3) off mask_row assms(2) distrib_right del: of_nat_add of_nat_mult)
qed

text \<open>
  Under a delta row the coverage of column \<open>i\<close> is the sum of the first \<open>i + 1\<close> deltas, and the
  deltas that were consumed are cleared for the next row.
\<close>

lemma aa_row:
  assumes "b + w \<le> length d" "w \<le> length alpha"
    and "\<And>i. i < w \<Longrightarrow> ok (int i) (sum_list (take (Suc i) alpha))"
  shows "for_up 0 w (aa_step px 1) (0, alpha, int b, d) =
    Some (sum_list (take w alpha), upd_range 0 w (\<lambda>_ _. 0) alpha, int (b + w),
      upd_range b w (\<lambda>i. pv (int i) (sum_list (take (Suc i) alpha))) d)"
proof -
  let ?st = "\<lambda>i (d :: jint list). (sum_list (take i alpha), upd_range 0 i (\<lambda>_ _. 0) alpha, int (b + i), d)"
  have "for_up 0 w (aa_step px 1) (?st 0 d) =
    Some (?st (0 + w) (upd_range b w (\<lambda>i. pv (int i) (sum_list (take (Suc i) alpha))) d))"
  proof (rule for_up_range [OF assms(1)])
    fix j and d' :: "jint list"
    assume j: "j < w" "length d' = length d"
    have "sum_list (take j alpha) + alpha ! j = sum_list (take (Suc j) alpha)"
      using j assms(2) by (simp add: take_Suc_conv_app_nth)
    with j assms show "aa_step px 1 (0 + j) (?st (0 + j) d') =
      Some (?st (0 + Suc j) (d'[b + j := pv (int j) (sum_list (take (Suc j) alpha)) (d' ! (b + j))]))"
      by (simp add: aa_step_def array_simps px_at nat_int_add nth_upd_range upd_range_snoc [where b = 0, simplified])
  qed
  then show ?thesis by simp
qed

lemma aa_rows_row:
  assumes "target_ok rdr (touched_width rdr) 1"
    and "touched_width rdr \<le> int (length (rdr_rowAAInt rdr))"
    and "\<And>i. i < nat (touched_width rdr) \<Longrightarrow> ok (int i) (sum_list (take (Suc i) (rdr_rowAAInt rdr)))"
  shows "aa_rows px rdr 1 =
    Some (rdr\<lparr>rdr_data := upd_range (target_base rdr) (nat (touched_width rdr))
        (\<lambda>i. pv (int i) (sum_list (take (Suc i) (rdr_rowAAInt rdr)))) (rdr_data rdr),
      rdr_rowAAInt := upd_range 0 (nat (touched_width rdr)) (\<lambda>_ _. 0) (rdr_rowAAInt rdr)\<rparr>)"
proof -
  note t = target_ok_nat [OF assms(1)]
  have "for_up 0 (nat (touched_width rdr)) (aa_step px 1)
      (0, rdr_rowAAInt rdr, int (target_base rdr), rdr_data rdr) =
    Some (sum_list (take (nat (touched_width rdr)) (rdr_rowAAInt rdr)),
      upd_range 0 (nat (touched_width rdr)) (\<lambda>_ _. 0) (rdr_rowAAInt rdr),
      int (target_base rdr + nat (touched_width rdr)),
      upd_range (target_base rdr) (nat (touched_width rdr))
        (\<lambda>i. pv (int i) (sum_list (take (Suc i) (rdr_rowAAInt rdr)))) (rdr_data rdr))"
    using t(2) assms by (intro aa_row) auto
  then show ?thesis unfolding t(4) by (simp add: aa_rows_def t(3))
qed

end

section \<open>The eight pixel operations\<close>

lemmas px_defs = blitSrc8888_px_def blitPTSrc8888_px_def blitSrcOver8888_px_def
  blitPTSrcOver8888_px_def blitSrcMask8888_px_def blitPTSrcMask8888_px_def
  blitSrcOverMask8888_px_def blitPTSrcOverMask8888_px_def

text \<open>The paint index and the coverage index stay inside the paint buffer and the alpha map.\<close>

definition in_paint :: "renderer \<Rightarrow> int \<Rightarrow> bool" where
  "in_paint rdr k \<longleftrightarrow> 0 \<le> k \<and> k < int (length (rdr_paint rdr))"

definition in_map :: "renderer \<Rightarrow> jint \<Rightarrow> bool" where
  "in_map rdr m \<longleftrightarrow> 0 \<le> m \<and> m < int (length (rdr_alphaMap rdr))"

definition map_cov :: "renderer \<Rightarrow> jint \<Rightarrow> jint" where
  "map_cov rdr m = rdr_alphaMap rdr ! nat m AND 255"

interpretation blitSrcMask: pixel_op "blitSrcMask8888_px rdr"
  "\<lambda>k m. src_cov_val rdr (m AND 255)" "\<lambda>k m. True" for rdr
  by unfold_locales (simp add: px_defs cov_eqs)

interpretation blitPTSrcMask: pixel_op "blitPTSrcMask8888_px rdr"
  "\<lambda>k m. pt_src_cov_val (rdr_paint rdr ! nat k) (m AND 255)" "\<lambda>k m. in_paint rdr k" for rdr
  by unfold_locales (simp add: px_defs cov_eqs in_paint_def array_simps)

interpretation blitSrcOverMask: pixel_op "blitSrcOverMask8888_px rdr"
  "\<lambda>k m p. if m = 0 then p else srcover_cov_val rdr (m AND 255) p" "\<lambda>k m. True" for rdr
  by unfold_locales (simp add: px_defs cov_eqs)

interpretation blitPTSrcOverMask: pixel_op "blitPTSrcOverMask8888_px rdr"
  "\<lambda>k m p. if m = 0 then p else pt_srcover_cov_val (rdr_paint rdr ! nat k) (m AND 255) p"
  "\<lambda>k m. in_paint rdr k" for rdr
  by unfold_locales (simp add: px_defs cov_eqs in_paint_def array_simps)

interpretation blitSrc: pixel_op "blitSrc8888_px rdr"
  "\<lambda>k m. src_cov_val rdr (map_cov rdr m)" "\<lambda>k m. in_map rdr m" for rdr
  by unfold_locales (simp add: px_defs cov_eqs in_map_def map_cov_def array_simps)

interpretation blitPTSrc: pixel_op "blitPTSrc8888_px rdr"
  "\<lambda>k m. pt_src_cov_val (rdr_paint rdr ! nat k) (map_cov rdr m)"
  "\<lambda>k m. in_paint rdr k \<and> in_map rdr m" for rdr
  by unfold_locales (simp add: px_defs cov_eqs in_map_def map_cov_def in_paint_def array_simps)

interpretation blitSrcOver: pixel_op "blitSrcOver8888_px rdr"
  "\<lambda>k m p. if m = 0 then p else srcover_cov_val rdr (map_cov rdr m) p" "\<lambda>k m. in_map rdr m" for rdr
  by unfold_locales (simp add: px_defs cov_eqs in_map_def map_cov_def array_simps)

interpretation blitPTSrcOver: pixel_op "blitPTSrcOver8888_px rdr"
  "\<lambda>k m p. if m = 0 then p else pt_srcover_cov_val (rdr_paint rdr ! nat k) (map_cov rdr m) p"
  "\<lambda>k m. in_paint rdr k \<and> in_map rdr m" for rdr
  by unfold_locales (simp add: px_defs cov_eqs in_map_def map_cov_def in_paint_def array_simps)

section \<open>Source-over keeps a premultiplied surface premultiplied\<close>

text \<open>
  A surface of type INT_ARGB_PRE holds premultiplied pixels. \<open>premult_op\<close> adds to the interface
  that the operation keeps a pixel premultiplied; the loops then keep the whole surface so.
\<close>

definition premult_all :: "jint list \<Rightarrow> bool" where
  "premult_all d \<longleftrightarrow> (\<forall>p \<in> set d. premult p)"

definition color_ok :: "renderer \<Rightarrow> bool" where
  "color_ok rdr \<longleftrightarrow>
     chan (rdr_calpha rdr) \<and> chan (rdr_cred rdr) \<and> chan (rdr_cgreen rdr) \<and> chan (rdr_cblue rdr)"

definition mask_ok :: "renderer \<Rightarrow> jint \<Rightarrow> jint \<Rightarrow> bool" where
  "mask_ok rdr st h \<longleftrightarrow>
     0 \<le> rdr_maskOffset rdr \<and> 0 \<le> st \<and>
     (0 < h \<longrightarrow> rdr_maskOffset rdr + (h - 1) * st + touched_width rdr
                 \<le> int (length (rdr_mask_byteData rdr)))"

text \<open>The first \<open>n\<close> entries of the paint buffer are premultiplied pixels.\<close>

definition paint_ok :: "int \<Rightarrow> jint list \<Rightarrow> bool" where
  "paint_ok n paint \<longleftrightarrow> n \<le> int (length paint) \<and> (\<forall>k < nat n. premult (paint ! k))"

lemma premult_all_paint_ok: "premult_all paint \<Longrightarrow> n \<le> int (length paint) \<Longrightarrow> paint_ok n paint"
  by (auto simp: premult_all_def paint_ok_def)

text \<open>The result of a row routine on \<open>h\<close> rows.\<close>

definition rows_kept :: "renderer \<Rightarrow> jint \<Rightarrow> jint \<Rightarrow> jint list \<Rightarrow> bool" where
  "rows_kept rdr w h d \<longleftrightarrow> premult_all d \<and>
     kept_outside (target_base rdr) (nat (rdr_imageScanlineStride rdr)) (nat w) (nat h) (rdr_data rdr) d"

lemma mask_ok_index:
  assumes "mask_ok rdr st h" "j < nat h" "i < nat (touched_width rdr)"
  shows "0 \<le> rdr_maskOffset rdr + int j * st + int i"
    and "rdr_maskOffset rdr + int j * st + int i < int (length (rdr_mask_byteData rdr))"
proof -
  have "int j * st \<le> (h - 1) * st"
    using assms by (intro mult_right_mono) (auto simp: mask_ok_def)
  then show "0 \<le> rdr_maskOffset rdr + int j * st + int i"
    "rdr_maskOffset rdr + int j * st + int i < int (length (rdr_mask_byteData rdr))"
    using assms by (auto simp: mask_ok_def)
qed

locale premult_op = pixel_op px pv ok for px pv ok +
  assumes pv_premult: "ok k m \<Longrightarrow> premult p \<Longrightarrow> premult (pv k m p)"
begin

lemma mask_rows_premult:
  assumes "target_ok rdr (touched_width rdr) h" "mask_ok rdr st h" "premult_all (rdr_data rdr)"
    and "\<And>j i. j < nat h \<Longrightarrow> i < nat (touched_width rdr) \<Longrightarrow>
      ok (int i) (rdr_mask_byteData rdr ! nat (rdr_maskOffset rdr + int j * st + int i))"
  shows "\<exists>d. mask_rows px st rdr h = Some (rdr\<lparr>rdr_data := d\<rparr>) \<and> rows_kept rdr (touched_width rdr) h d"
proof (subst mask_rows_rect; (intro exI conjI refl)?)
  have "premult_all (upd_rect (target_base rdr) (nat (rdr_imageScanlineStride rdr))
      (nat (touched_width rdr)) (nat h)
      (\<lambda>j i. pv (int i) (rdr_mask_byteData rdr ! nat (rdr_maskOffset rdr + int j * st + int i)))
      (rdr_data rdr))"
    using assms(3,4) unfolding premult_all_def by (intro upd_rect_all pv_premult)
  then show "rows_kept rdr (touched_width rdr) h (upd_rect (target_base rdr) (nat (rdr_imageScanlineStride rdr))
      (nat (touched_width rdr)) (nat h)
      (\<lambda>j i. pv (int i) (rdr_mask_byteData rdr ! nat (rdr_maskOffset rdr + int j * st + int i)))
      (rdr_data rdr))"
    by (simp add: rows_kept_def upd_rect_kept)
qed (use assms mask_ok_index [OF assms(2)] in auto)

lemma aa_rows_premult:
  assumes "target_ok rdr (touched_width rdr) 1"
    and "touched_width rdr \<le> int (length (rdr_rowAAInt rdr))" "premult_all (rdr_data rdr)"
    and "\<And>i. i < nat (touched_width rdr) \<Longrightarrow> ok (int i) (sum_list (take (Suc i) (rdr_rowAAInt rdr)))"
  shows "\<exists>d. aa_rows px rdr 1 = Some (rdr\<lparr>rdr_data := d,
      rdr_rowAAInt := upd_range 0 (nat (touched_width rdr)) (\<lambda>_ _. 0) (rdr_rowAAInt rdr)\<rparr>) \<and>
    rows_kept rdr (touched_width rdr) 1 d"
proof (subst aa_rows_row; (intro exI conjI refl)?)
  have "premult_all (upd_range (target_base rdr) (nat (touched_width rdr))
      (\<lambda>i. pv (int i) (sum_list (take (Suc i) (rdr_rowAAInt rdr)))) (rdr_data rdr))"
    using assms(3,4) unfolding premult_all_def by (intro upd_range_all pv_premult)
  then show "rows_kept rdr (touched_width rdr) 1 (upd_range (target_base rdr) (nat (touched_width rdr))
      (\<lambda>i. pv (int i) (sum_list (take (Suc i) (rdr_rowAAInt rdr)))) (rdr_data rdr))"
    using target_ok_nat(1) [OF assms(1)] by (simp add: rows_kept_def upd_range_kept [simplified])
qed (use assms in auto)

end

lemma and_255_chan [simp]: "chan (m AND 255)"
  by (simp add: chan_def and_255)

lemma scaled_chan:
  assumes "chan m" "chan a"
  shows "chan (shr (s32 ((m + 1) * a)) 8)"
  using scale_bounds(3) [of 0 a "m + 1"] assms by (simp add: chan_def mult.commute)

lemma srcover_cov_premult:
  assumes "chan m" "color_ok rdr" "premult p"
  shows "premult (srcover_cov_val rdr m p)"
  using assms scaled_chan [of m "rdr_calpha rdr"]
  by (auto simp: srcover_cov_val_def Let_def color_ok_def chan_def [of 255] chan_def [of "rdr_cred rdr"]
      chan_def [of "rdr_cgreen rdr"] chan_def [of "rdr_cblue rdr"] intro!: pack_premult blendSrcOver_premult)

lemma pt_srcover_cov_premult:
  assumes "chan m" "premult c" "premult p"
  shows "premult (pt_srcover_cov_val c m p)"
  using assms by (simp add: pt_srcover_cov_val_def Let_def blendSrcOver_pre_pre_premult chan_def)

interpretation blitSrcOverMask_pm: premult_op "blitSrcOverMask8888_px rdr"
  "\<lambda>k m p. if m = 0 then p else srcover_cov_val rdr (m AND 255) p" "\<lambda>k m. color_ok rdr" for rdr
  by unfold_locales (simp_all add: blitSrcOverMask.px_at srcover_cov_premult)

interpretation blitPTSrcOverMask_pm: premult_op "blitPTSrcOverMask8888_px rdr"
  "\<lambda>k m p. if m = 0 then p else pt_srcover_cov_val (rdr_paint rdr ! nat k) (m AND 255) p"
  "\<lambda>k m. in_paint rdr k \<and> premult (rdr_paint rdr ! nat k)" for rdr
  by unfold_locales (simp_all add: blitPTSrcOverMask.px_at pt_srcover_cov_premult)

interpretation blitSrcOver_pm: premult_op "blitSrcOver8888_px rdr"
  "\<lambda>k m p. if m = 0 then p else srcover_cov_val rdr (map_cov rdr m) p"
  "\<lambda>k m. in_map rdr m \<and> color_ok rdr" for rdr
  by unfold_locales (simp_all add: blitSrcOver.px_at srcover_cov_premult map_cov_def)

interpretation blitPTSrcOver_pm: premult_op "blitPTSrcOver8888_px rdr"
  "\<lambda>k m p. if m = 0 then p else pt_srcover_cov_val (rdr_paint rdr ! nat k) (map_cov rdr m) p"
  "\<lambda>k m. in_paint rdr k \<and> in_map rdr m \<and> premult (rdr_paint rdr ! nat k)" for rdr
  by unfold_locales (simp_all add: blitPTSrcOver.px_at pt_srcover_cov_premult map_cov_def)

section \<open>Properties of the row blitters\<close>

lemma touched_width_nonneg [simp]: "0 \<le> touched_width rdr"
  by (simp add: touched_width_def)

text \<open>
  C28: blitSrcOverMask8888_pre composites exactly the \<open>height\<close> rows of the touched columns: the
  pixel in row j, column i is the source-over result for the mask byte at
  \<open>_maskOffset + j * _alphaWidth + i\<close>, every other pixel and every other field of the renderer is
  unchanged, and no access leaves the pixel array or the mask.
\<close>

theorem blitSrcOverMask8888_pre_rect:
  assumes "target_ok rdr (touched_width rdr) height" "mask_ok rdr (rdr_alphaWidth rdr) height"
  shows "blitSrcOverMask8888_pre rdr height =
    Some (rdr\<lparr>rdr_data := upd_rect (target_base rdr) (nat (rdr_imageScanlineStride rdr))
      (nat (touched_width rdr)) (nat height)
      (\<lambda>j i p. let m = rdr_mask_byteData rdr !
                     nat (rdr_maskOffset rdr + int j * rdr_alphaWidth rdr + int i)
               in if m = 0 then p else srcover_cov_val rdr (m AND 255) p)
      (rdr_data rdr)\<rparr>)"
  unfolding blitSrcOverMask8888_pre_def Let_def
  using mask_ok_index [OF assms(2)] by (intro blitSrcOverMask.mask_rows_rect assms(1)) auto

text \<open>A 4 by 3 surface with a 2 by 2 mask over its middle.\<close>

definition mask_demo :: renderer where
  "mask_demo = (zero_renderer \<lparr>sf_width = 4, sf_height = 3, sf_offset = 0, sf_scanlineStride = 4,
      sf_pixelStride = 1, sf_imageType = 1, sf_data = []\<rparr>)
    \<lparr>rdr_data := replicate 12 (pack 255 0 0 0), rdr_imageScanlineStride := 4, rdr_imagePixelStride := 1,
     rdr_minTouched := 1, rdr_maxTouched := 2, rdr_alphaWidth := 2, rdr_currImageOffset := 4,
     rdr_maskOffset := 0, rdr_mask_byteData := [0, 255, 128, 64], rdr_rowAAInt := [2, -1, 0],
     rdr_alphaMap := [0, 127, 255], rdr_paint := [pack 128 64 0 0, pack 255 9 9 9],
     rdr_calpha := 255, rdr_cred := 200, rdr_cgreen := 100, rdr_cblue := 50\<rparr>"

lemmas demo_simps = mask_demo_def zero_renderer_def target_ok_def mask_ok_def touched_width_def
  target_base_def color_ok_def chan_def

theorem blitSrcOverMask8888_pre_rect_witness:
  "blitSrcOverMask8888_pre mask_demo 2 =
    Some (mask_demo\<lparr>rdr_data := upd_rect (target_base mask_demo)
      (nat (rdr_imageScanlineStride mask_demo)) (nat (touched_width mask_demo)) (nat 2)
      (\<lambda>j i p. let m = rdr_mask_byteData mask_demo !
                     nat (rdr_maskOffset mask_demo + int j * rdr_alphaWidth mask_demo + int i)
               in if m = 0 then p else srcover_cov_val mask_demo (m AND 255) p)
      (rdr_data mask_demo)\<rparr>)"
  by (rule blitSrcOverMask8888_pre_rect) (simp_all add: demo_simps)

text \<open>
  blitSrcOver8888_pre composites one row under the delta row: the coverage of column i is
  the alpha-map entry at the sum of the first i + 1 deltas, a column whose sum is 0 keeps its
  pixel, and the deltas it consumed are zero afterwards while the others are kept.
\<close>

theorem blitSrcOver8888_pre_row:
  assumes "target_ok rdr (touched_width rdr) 1"
    and "touched_width rdr \<le> int (length (rdr_rowAAInt rdr))"
    and "\<And>i. i < nat (touched_width rdr) \<Longrightarrow>
      0 \<le> sum_list (take (Suc i) (rdr_rowAAInt rdr)) \<and>
      sum_list (take (Suc i) (rdr_rowAAInt rdr)) < int (length (rdr_alphaMap rdr))"
  shows "blitSrcOver8888_pre rdr 1 =
    Some (rdr\<lparr>rdr_data := upd_range (target_base rdr) (nat (touched_width rdr))
        (\<lambda>i p. let rel = sum_list (take (Suc i) (rdr_rowAAInt rdr))
               in if rel = 0 then p
                  else srcover_cov_val rdr (rdr_alphaMap rdr ! nat rel AND 255) p) (rdr_data rdr),
      rdr_rowAAInt := upd_range 0 (nat (touched_width rdr)) (\<lambda>_ _. 0) (rdr_rowAAInt rdr)\<rparr>)"
  unfolding blitSrcOver8888_pre_def Let_def map_cov_def [symmetric]
  by (rule blitSrcOver.aa_rows_row [OF assms(1,2)]) (simp add: in_map_def assms(3))

theorem blitSrcOver8888_pre_row_witness:
  "blitSrcOver8888_pre mask_demo 1 =
    Some (mask_demo\<lparr>rdr_data := upd_range 5 2
        (\<lambda>i p. let rel = sum_list (take (Suc i) [2, -1, 0])
               in if rel = 0 then p
                  else srcover_cov_val mask_demo ([0, 127, 255] ! nat rel AND 255) p) (rdr_data mask_demo),
      rdr_rowAAInt := [0, 0, 0]\<rparr>)"
proof -
  have t: "target_base mask_demo = 5" "touched_width mask_demo = 2" "nat 2 = 2"
    "rdr_rowAAInt mask_demo = [2, -1, 0]" "rdr_alphaMap mask_demo = [0, 127, 255]"
    by (simp_all add: demo_simps)
  have z: "upd_range 0 2 (\<lambda>_ _. 0) [2, -1, 0 :: int] = [0, 0, 0]"
    by (simp add: upd_range_def upt_rec numeral_2_eq_2)
  have o: "target_ok mask_demo 2 1" by (simp add: demo_simps)
  have i: "0 \<le> sum_list (take (Suc i) [2, -1, 0 :: int]) \<and>
      sum_list (take (Suc i) [2, -1, 0 :: int]) < int (length [0 :: int, 127, 255])" if "i < 2" for i
    using that by (cases i) auto
  show ?thesis
    by (rule blitSrcOver8888_pre_row [of mask_demo, unfolded t z]) (use o i in auto)
qed

lemma source_over_rows_kept:
  assumes "target_ok rdr (touched_width rdr) 1" "premult_all (rdr_data rdr)"
  shows "color_ok rdr \<Longrightarrow> mask_ok rdr (rdr_alphaWidth rdr) 1 \<Longrightarrow>
      \<exists>d. blitSrcOverMask8888_pre rdr 1 = Some (rdr\<lparr>rdr_data := d\<rparr>) \<and> rows_kept rdr (touched_width rdr) 1 d"
    and "paint_ok (touched_width rdr) (rdr_paint rdr) \<Longrightarrow> mask_ok rdr 0 1 \<Longrightarrow>
      \<exists>d. blitPTSrcOverMask8888_pre rdr 1 = Some (rdr\<lparr>rdr_data := d\<rparr>) \<and> rows_kept rdr (touched_width rdr) 1 d"
    and "color_ok rdr \<Longrightarrow> touched_width rdr \<le> int (length (rdr_rowAAInt rdr)) \<Longrightarrow>
      \<forall>i < nat (touched_width rdr). in_map rdr (sum_list (take (Suc i) (rdr_rowAAInt rdr))) \<Longrightarrow>
      \<exists>d. blitSrcOver8888_pre rdr 1 = Some (rdr\<lparr>rdr_data := d,
        rdr_rowAAInt := upd_range 0 (nat (touched_width rdr)) (\<lambda>_ _. 0) (rdr_rowAAInt rdr)\<rparr>) \<and>
        rows_kept rdr (touched_width rdr) 1 d"
    and "paint_ok (touched_width rdr) (rdr_paint rdr) \<Longrightarrow> touched_width rdr \<le> int (length (rdr_rowAAInt rdr)) \<Longrightarrow>
      \<forall>i < nat (touched_width rdr). in_map rdr (sum_list (take (Suc i) (rdr_rowAAInt rdr))) \<Longrightarrow>
      \<exists>d. blitPTSrcOver8888_pre rdr 1 = Some (rdr\<lparr>rdr_data := d,
        rdr_rowAAInt := upd_range 0 (nat (touched_width rdr)) (\<lambda>_ _. 0) (rdr_rowAAInt rdr)\<rparr>) \<and>
        rows_kept rdr (touched_width rdr) 1 d"
  unfolding blitSrcOver8888_pre_def blitPTSrcOver8888_pre_def blitSrcOverMask8888_pre_def
    blitPTSrcOverMask8888_pre_def paint_ok_def
  by (rule blitSrcOverMask_pm.mask_rows_premult blitPTSrcOverMask_pm.mask_rows_premult
      blitSrcOver_pm.aa_rows_premult blitPTSrcOver_pm.aa_rows_premult;
      use assms in \<open>auto simp: in_paint_def\<close>)+

text \<open>
  C11: with a valid colour and a premultiplied paint, all four source-over row blitters (flat or
  paint, delta row or byte mask) return, leave a premultiplied surface premultiplied and change
  no pixel outside the touched columns of the row.
\<close>

theorem source_over_rows_premultiplied:
  assumes "target_ok rdr (touched_width rdr) 1" "mask_ok rdr (rdr_alphaWidth rdr) 1"
    and "color_ok rdr" "premult_all (rdr_data rdr)" "paint_ok (touched_width rdr) (rdr_paint rdr)"
    and "touched_width rdr \<le> int (length (rdr_rowAAInt rdr))"
    and "\<forall>i < nat (touched_width rdr). in_map rdr (sum_list (take (Suc i) (rdr_rowAAInt rdr)))"
    and "blit \<in> {blitSrcOver8888_pre, blitPTSrcOver8888_pre, blitSrcOverMask8888_pre,
                 blitPTSrcOverMask8888_pre}"
  shows "\<exists>rdr'. blit rdr 1 = Some rdr' \<and> premult_all (rdr_data rdr') \<and>
    kept_outside (target_base rdr) (nat (rdr_imageScanlineStride rdr)) (nat (touched_width rdr)) 1
      (rdr_data rdr) (rdr_data rdr')"
proof -
  have "mask_ok rdr 0 1" using assms(2) by (simp add: mask_ok_def)
  with source_over_rows_kept [OF assms(1,4)] assms(2,3,5-8) show ?thesis
    by (auto simp: rows_kept_def)
qed

theorem source_over_rows_premultiplied_witness:
  "\<exists>rdr'. blitPTSrcOver8888_pre mask_demo 1 = Some rdr' \<and> premult_all (rdr_data rdr') \<and>
    kept_outside (target_base mask_demo) (nat (rdr_imageScanlineStride mask_demo))
      (nat (touched_width mask_demo)) 1 (rdr_data mask_demo) (rdr_data rdr')"
proof -
  have t: "touched_width mask_demo = 2" "rdr_rowAAInt mask_demo = [2, -1, 0]"
    "rdr_alphaMap mask_demo = [0, 127, 255]"
    by (simp_all add: demo_simps)
  have "i < 2 \<Longrightarrow> i = 0 \<or> i = 1" for i :: nat by auto
  then have "\<forall>i < nat (touched_width mask_demo).
      in_map mask_demo (sum_list (take (Suc i) (rdr_rowAAInt mask_demo)))"
    unfolding in_map_def t by force
  moreover have "premult_all (rdr_data mask_demo)" "paint_ok (touched_width mask_demo) (rdr_paint mask_demo)"
    by (rule_tac [2] premult_all_paint_ok)
      (simp_all add: premult_all_def premult_def demo_simps)
  ultimately show ?thesis
    by (intro source_over_rows_premultiplied) (simp_all add: demo_simps)
qed

end
