(* ===== verification/Pisces_Blit_LCD.thy ===== *)
theory Pisces_Blit_LCD
  imports Pisces_Blit_Rows
begin

text \<open>
  LCD text (\<open>blitSrcOverLCDMask8888_pre\<close> and \<open>initGammaArrays\<close> of PiscesBlit.c): three coverage
  bytes per pixel and gamma-corrected blending through two tables of 256 entries. The tables hold
  \<open>(jint)(255 * pow(i / 255.0, g))\<close>; the floating-point function that computes one entry is a
  parameter of the model.
\<close>

section \<open>The gamma tables\<close>

record 'f gamma_state =
  currentGamma :: 'f
  gammaArray :: "jint list"
  invGammaArray :: "jint list"

definition initGammaArrays ::
    "('f \<Rightarrow> nat \<Rightarrow> jint) \<Rightarrow> ('f \<Rightarrow> 'f) \<Rightarrow> 'f \<Rightarrow> 'f gamma_state \<Rightarrow> 'f gamma_state" where
  "initGammaArrays entry recip gamma st =
    (if currentGamma st \<noteq> gamma
     then \<lparr>currentGamma = gamma, gammaArray = map (entry gamma) [0..<256],
           invGammaArray = map (entry (recip gamma)) [0..<256]\<rparr>
     else st)"

definition gamma_table :: "jint list \<Rightarrow> bool" where
  "gamma_table g \<longleftrightarrow> length g = 256 \<and> (\<forall>v \<in> set g. chan v)"

lemma gamma_table_rd:
  assumes "gamma_table g" "chan i"
  shows "rd g i = Some (g ! nat i)" "chan (g ! nat i)"
  using assms by (auto simp: gamma_table_def chan_def rd_def)

lemma initGammaArrays_tables:
  assumes "\<And>g i. i < 256 \<Longrightarrow> chan (entry g i)" "currentGamma st \<noteq> gamma"
  shows "gamma_table (gammaArray (initGammaArrays entry recip gamma st))"
    "gamma_table (invGammaArray (initGammaArrays entry recip gamma st))"
  using assms by (auto simp: initGammaArrays_def gamma_table_def)

section \<open>LCD rows\<close>

definition lcd_ok :: "renderer \<Rightarrow> bool" where
  "lcd_ok rdr \<longleftrightarrow>
     target_ok rdr (touched_width rdr) 1 \<and> color_ok rdr \<and>
     gamma_table (rdr_gammaArray rdr) \<and> gamma_table (rdr_invGammaArray rdr) \<and>
     0 \<le> rdr_maskOffset rdr \<and>
     rdr_maskOffset rdr + 3 * touched_width rdr \<le> int (length (rdr_mask_byteData rdr))"

lemma blendLCD_returns:
  assumes "gamma_table ga" "gamma_table iga" "chan ared" "chan agreen" "chan ablue"
    and "chan sred" "chan sgreen" "chan sblue"
  shows "\<exists>v. blendLCDSrcOver8888_pre_val ga iga ival ared agreen ablue sred sgreen sblue = Some v \<and>
    pixA v = 255"
proof -
  have d: "chan (shr ival 16 AND 255)" "chan (shr ival 8 AND 255)" "chan (ival AND 255)" by simp_all
  have m: "chan (div255 (a * s + (255 - a) * iga ! nat i))" if "chan a" "chan s" "chan i" for a s i
    using mix_div255(1) [OF that(1) gamma_table_rd(2) [OF assms(2) that(3)] that(2)]
    by (simp add: mult.commute [of a s])
  have 255: "chan 255" by (simp add: chan_def)
  show ?thesis
    unfolding blendLCDSrcOver8888_pre_val_def
    using assms d m 255 by (simp add: gamma_table_rd)
qed

lemma lcd_step_returns:
  assumes "lcd_ok rdr" "chan calpha" "chan cred" "chan cgreen" "chan cblue"
    and "i < nat (touched_width rdr)" "length d = length (rdr_data rdr)"
  shows "\<exists>v. lcd_step rdr calpha cred cgreen cblue (rdr_maskOffset rdr) i (int (target_base rdr + i), d) =
    Some (int (target_base rdr + Suc i), d[target_base rdr + i := v]) \<and> pixA v = 255"
proof -
  have t: "target_ok rdr (touched_width rdr) 1" using assms(1) by (simp add: lcd_ok_def)
  have b: "target_base rdr + i < length d" using target_ok_nat(2) [OF t] assms(6,7) by simp
  have b': "nat (int (target_base rdr + i)) = target_base rdr + i"
    "int (target_base rdr + i) < int (length d)" using b by simp_all
  have g: "gamma_table (rdr_gammaArray rdr)" "gamma_table (rdr_invGammaArray rdr)"
    using assms(1) by (simp_all add: lcd_ok_def)
  let ?s = "\<lambda>m. if calpha < MAX_ALPHA then shr (s32 ((m + 1) * calpha)) 8 else m"
  have s: "chan (?s (m AND 255))" for m using assms(2) by (simp add: scaled_chan)
  have 255: "chan 255" by (simp add: chan_def)
  have r: "rd (rdr_mask_byteData rdr) (rdr_maskOffset rdr + 3 * int i + c) =
      Some (rdr_mask_byteData rdr ! nat (rdr_maskOffset rdr + 3 * int i + c))" if "0 \<le> c" "c < 3" for c
    using assms(1,6) that by (intro rd_in) (auto simp: lcd_ok_def)
  note l = blendLCD_returns [OF g s s s assms(3-5)]
  show ?thesis
    using r [of 0] r [of 1] r [of 2] target_ok_nat(3) [OF t] b' 255 assms(3-5)
      l [of "d ! (target_base rdr + i)" "rdr_mask_byteData rdr ! nat (rdr_maskOffset rdr + 3 * int i)"
         "rdr_mask_byteData rdr ! nat (rdr_maskOffset rdr + 3 * int i + 1)"
         "rdr_mask_byteData rdr ! nat (rdr_maskOffset rdr + 3 * int i + 2)"]
    unfolding lcd_step_def prod.case Let_def blendLCDSrcOver8888_pre_def
    by (auto simp: rd_in wr_in simp del: of_nat_add)
qed

text \<open>
  C32: with 256-entry gamma tables of channel values and three mask bytes per pixel in range,
  blitSrcOverLCDMask8888_pre returns: no table, mask or pixel access leaves its array. Every touched
  pixel is opaque afterwards and every other pixel is unchanged.
\<close>

theorem blitSrcOverLCDMask8888_pre_opaque:
  assumes "lcd_ok rdr"
  shows "\<exists>d. blitSrcOverLCDMask8888_pre rdr 1 = Some (rdr\<lparr>rdr_data := d\<rparr>) \<and>
    length d = length (rdr_data rdr) \<and>
    (\<forall>i < length d. if target_base rdr \<le> i \<and> i < target_base rdr + nat (touched_width rdr)
      then pixA (d ! i) = 255 else d ! i = rdr_data rdr ! i)"
proof -
  have t: "target_ok rdr (touched_width rdr) 1" and g: "gamma_table (rdr_invGammaArray rdr)"
    and c: "chan (rdr_calpha rdr)" "chan (rdr_cred rdr)" "chan (rdr_cgreen rdr)" "chan (rdr_cblue rdr)"
    using assms by (simp_all add: lcd_ok_def color_ok_def)
  let ?c = "\<lambda>x. rdr_invGammaArray rdr ! nat x"
  let ?step = "lcd_step rdr (?c (rdr_calpha rdr)) (?c (rdr_cred rdr)) (?c (rdr_cgreen rdr))
      (?c (rdr_cblue rdr)) (rdr_maskOffset rdr)"
  let ?I = "\<lambda>k (iidx, d). iidx = int (target_base rdr + k) \<and> length d = length (rdr_data rdr) \<and>
      (\<forall>i < length d. if target_base rdr \<le> i \<and> i < target_base rdr + k
        then pixA (d ! i) = 255 else d ! i = rdr_data rdr ! i)"
  have "\<exists>s. for_up 0 (nat (touched_width rdr)) ?step (int (target_base rdr), rdr_data rdr) = Some s \<and>
      ?I (0 + nat (touched_width rdr)) s"
  proof (rule for_up_total)
    fix k s assume k: "0 \<le> k" "k < 0 + nat (touched_width rdr)" and "?I k s"
    then obtain d where d: "s = (int (target_base rdr + k), d)" "?I k s" "length d = length (rdr_data rdr)"
      by (cases s) auto
    obtain v where "?step k s = Some (int (target_base rdr + Suc k), d[target_base rdr + k := v])"
      "pixA v = 255"
      using lcd_step_returns [OF assms gamma_table_rd(2) [OF g c(1)] gamma_table_rd(2) [OF g c(2)]
          gamma_table_rd(2) [OF g c(3)] gamma_table_rd(2) [OF g c(4)] _ d(3), of k] k
      unfolding d(1) by auto
    then show "\<exists>s'. ?step k s = Some s' \<and> ?I (Suc k) s'"
      using d by (auto simp: nth_list_update less_Suc_eq split: if_splits)
  qed simp
  then show ?thesis
    using target_ok_nat(3,4) [OF t] gamma_table_rd(1) [OF g] c
    by (auto simp: blitSrcOverLCDMask8888_pre_def)
qed

definition lcd_demo :: renderer where
  "lcd_demo = mask_demo\<lparr>rdr_mask_byteData := [10, 20, 30, 255, 255, 255],
     rdr_gammaArray := map int [0..<256], rdr_invGammaArray := map int [0..<256]\<rparr>"

theorem blitSrcOverLCDMask8888_pre_opaque_witness:
  "\<exists>d. blitSrcOverLCDMask8888_pre lcd_demo 1 = Some (lcd_demo\<lparr>rdr_data := d\<rparr>) \<and>
    length d = length (rdr_data lcd_demo) \<and>
    (\<forall>i < length d. if target_base lcd_demo \<le> i \<and> i < target_base lcd_demo + nat (touched_width lcd_demo)
      then pixA (d ! i) = 255 else d ! i = rdr_data lcd_demo ! i)"
  by (rule blitSrcOverLCDMask8888_pre_opaque)
    (auto simp: lcd_ok_def lcd_demo_def demo_simps gamma_table_def)

text \<open>
  A pixel whose three coverages are 255 takes the fast path, which stores the
  inverse-gamma colour without the final gamma lookup of the blending path: the two agree exactly
  when the gamma table fixes the three colour values.
\<close>

theorem lcd_full_coverage_skips_gamma:
  assumes "gamma_table ga" "gamma_table iga" "chan sred" "chan sgreen" "chan sblue"
  shows "blendLCDSrcOver8888_pre_val ga iga ival 255 255 255 sred sgreen sblue =
      Some (pack 255 sred sgreen sblue) \<longleftrightarrow>
    ga ! nat sred = sred \<and> ga ! nat sgreen = sgreen \<and> ga ! nat sblue = sblue"
proof -
  have full: "div255 (255 * s + (255 - 255) * x) = s" if "chan s" for s x
    using that by (simp add: div255_exact chan_def)
  have 255: "chan 255" by (simp add: chan_def)
  have "blendLCDSrcOver8888_pre_val ga iga ival 255 255 255 sred sgreen sblue =
      Some (pack 255 (ga ! nat sred) (ga ! nat sgreen) (ga ! nat sblue))"
    unfolding blendLCDSrcOver8888_pre_val_def using assms
    by (simp add: gamma_table_rd full [simplified])
  moreover have "pack 255 r g b = pack 255 r' g' b' \<longleftrightarrow> r = r' \<and> g = g' \<and> b = b'"
    if "chan r" "chan g" "chan b" "chan r'" "chan g'" "chan b'" for r g b r' g' b'
    using unpack_pack [OF 255 that(1-3)] unpack_pack [OF 255 that(4-6)] by metis
  ultimately show ?thesis using assms by (simp add: gamma_table_rd(2))
qed

theorem lcd_full_coverage_skips_gamma_witness:
  "blendLCDSrcOver8888_pre_val (replicate 256 0) (replicate 256 0) 0 255 255 255 9 9 9 \<noteq>
    Some (pack 255 9 9 9)"
  using lcd_full_coverage_skips_gamma [of "replicate 256 0" "replicate 256 0" 9 9 9 0]
  by (simp add: gamma_table_def chan_def)

end
