(* ===== verification/Pisces_Paint.thy ===== *)
theory Pisces_Paint
  imports Pisces_State
begin

text \<open>
  The paint generators of native-prism-sw/PiscesPaint.c: linear and radial gradients, texture
  sampling with and without interpolation under the three kinds of transform, and the
  multiplication of a texture with the current paint. Each generator writes the paint buffer
  \<open>_paint\<close> (\<open>_alphaWidth\<close> entries per row); a read outside the texture or a write outside the
  buffer is a fault.
\<close>

section \<open>Scalar helpers\<close>

text \<open>\<open>x % y\<close> with a zero divisor is undefined in C.\<close>

definition lmod :: "jlong \<Rightarrow> jlong \<Rightarrow> jlong option" where
  "lmod x y = (if y = 0 then None
     else let r = cmod x y in Some (if r < 0 then r + y else r))"

definition interp :: "jint \<Rightarrow> jint \<Rightarrow> jint \<Rightarrow> jint" where
  "interp x0 x1 frac = shr (s32 (shl x0 16 + (x1 - x0) * frac + 32768)) 16"

definition CYCLE_NONE :: jint where "CYCLE_NONE = 0"
definition CYCLE_REPEAT :: jint where "CYCLE_REPEAT = 1"
definition CYCLE_REFLECT :: jint where "CYCLE_REFLECT = 2"

definition pad :: "jint \<Rightarrow> jint \<Rightarrow> jint" where
  "pad ifrac cycleMethod =
    (if cycleMethod = CYCLE_NONE
     then if ifrac < 0 then 0 else if ifrac > 65535 then 65535 else ifrac
     else if cycleMethod = CYCLE_REPEAT then ifrac AND 65535
     else if cycleMethod = CYCLE_REFLECT
     then let i = (if ifrac < 0 then s32 (- ifrac) else ifrac) AND 131071
          in if i > 65535 then 131071 - i else i
     else ifrac)"

section \<open>Gradients\<close>

text \<open>
  Single-precision arithmetic is a parameter: the operations the code uses, on an arbitrary type of
  float values. Only \<open>f_to_jint\<close>, the conversion to a 32-bit integer, meets the integer part.
\<close>

record 'f float_ops =
  fadd :: "'f \<Rightarrow> 'f \<Rightarrow> 'f"
  fsub :: "'f \<Rightarrow> 'f \<Rightarrow> 'f"
  fmul :: "'f \<Rightarrow> 'f \<Rightarrow> 'f"
  fdiv :: "'f \<Rightarrow> 'f \<Rightarrow> 'f"
  fneg :: "'f \<Rightarrow> 'f"
  fsqrt :: "'f \<Rightarrow> 'f"
  fless :: "'f \<Rightarrow> 'f \<Rightarrow> bool"
  f_of_int :: "int \<Rightarrow> 'f"
  f_to_jint :: "'f \<Rightarrow> jint"

record 'f gradient_geometry =
  lg_mx :: 'f
  lg_my :: 'f
  lg_b :: 'f
  rg_a00 :: 'f
  rg_a01 :: 'f
  rg_a02 :: 'f
  rg_a10 :: 'f
  rg_a11 :: 'f
  rg_a12 :: 'f
  rg_cx :: 'f
  rg_cy :: 'f
  rg_fx :: 'f
  rg_fy :: 'f
  rg_r :: 'f
  rg_rsq :: 'f
  rg_a00a00 :: 'f
  rg_a10a10 :: 'f
  rg_a00a10 :: 'f

definition gradient_color :: "renderer \<Rightarrow> jint \<Rightarrow> jint option" where
  "gradient_color rdr ifrac =
     rd (rdr_gradient_colors rdr) (shr (pad ifrac (rdr_gradient_cycleMethod rdr)) 8)"

definition linear_step ::
    "'f float_ops \<Rightarrow> 'f gradient_geometry \<Rightarrow> renderer \<Rightarrow> int \<Rightarrow> nat \<Rightarrow> 'f \<times> jint list \<Rightarrow>
     ('f \<times> jint list) option" where
  "linear_step F g rdr paintOffset i = (\<lambda>(frac, paint).
    do { c \<leftarrow> gradient_color rdr (f_to_jint F frac);
         paint \<leftarrow> wr paint (paintOffset + int i) c;
         Some (fadd F frac (lg_mx g), paint) })"

definition genLinearGradientPaint ::
    "'f float_ops \<Rightarrow> 'f gradient_geometry \<Rightarrow> renderer \<Rightarrow> jint \<Rightarrow> renderer option" where
  "genLinearGradientPaint F g rdr height =
    do { paint \<leftarrow> for_up 0 (nat height)
           (\<lambda>j paint.
              let x = f_of_int F (rdr_currX rdr); y = f_of_int F (rdr_currY rdr + int j);
                  frac = fadd F (fadd F (fmul F x (lg_mx g)) (fmul F y (lg_my g))) (lg_b g)
              in do { (frac, paint) \<leftarrow> for_up 0 (nat (rdr_alphaWidth rdr))
                        (linear_step F g rdr (int j * rdr_alphaWidth rdr)) (frac, paint);
                      Some paint })
           (rdr_paint rdr);
         Some (rdr\<lparr>rdr_paint := paint\<rparr>) }"

text \<open>The differences that the radial generator advances along a row.\<close>

record 'f radial_row =
  rr_U :: 'f
  rr_dU :: 'f
  rr_V :: 'f
  rr_dV :: 'f
  rr_ddV :: 'f

definition radial_init ::
    "'f float_ops \<Rightarrow> 'f gradient_geometry \<Rightarrow> jint \<Rightarrow> jint \<Rightarrow> 'f radial_row" where
  "radial_init F g xi yi =
    (let add = fadd F; sub = fsub F; mul = fmul F; n = f_of_int F;
         x = n xi; y = n yi; cx = rg_cx g; cy = rg_cy g; fx = rg_fx g; fy = rg_fy g;
         a00 = rg_a00 g; a10 = rg_a10 g; rsq = rg_rsq g;
         a00a00 = rg_a00a00 g; a10a10 = rg_a10a10 g; a00a10 = rg_a00a10 g;
         txx = add (add (mul x a00) (mul y (rg_a01 g))) (rg_a02 g);
         tyy = add (add (mul x a10) (mul y (rg_a11 g))) (rg_a12 g);
         fxx = sub fx txx; fyy = sub fy tyy;
         A = add (mul fxx fxx) (mul fyy fyy);
         cfx = sub cx fx; cfy = sub cy fy;
         cfxcfx = mul cfx cfx; cfycfy = mul cfy cfy; cfxcfy = mul cfx cfy;
         B = add (mul cfx fxx) (mul cfy fyy);
         B2 = mul (fneg F B) (n 2);
         C = sub (add cfxcfx cfycfy) rsq;
         C2 = mul (n 2) C;
         rC = fdiv F (n 1) C;
         rCsq = mul rC rC;
         U = mul (fneg F B) rC;
         dU = mul (add (mul a00 cfx) (mul a10 cfy)) rC;
         V = mul (sub (mul B B) (mul A C)) rCsq;
         sube = mul (mul (n 2) a00a10) cfxcfy;
         dV = mul (add (add sube
                (add (mul a00a00 (sub cfxcfx C)) (mul a00 (add (mul B2 cfx) (mul C2 fxx)))))
                (add (mul a10a10 (sub cfycfy C)) (mul a10 (add (mul B2 cfy) (mul C2 fyy))))) rCsq;
         tmp = add (sub (mul a00a00 cfycfy) sube) (mul a10a10 cfxcfx);
         ddV = mul (mul (n 2) (sub (mul (add a00a00 a10a10) rsq) tmp)) rCsq;
         k = n 65536; kk = mul k k
     in \<lparr>rr_U = mul k U, rr_dU = mul k dU, rr_V = mul kk V, rr_dV = mul kk dV, rr_ddV = mul kk ddV\<rparr>)"

definition radial_step ::
    "'f float_ops \<Rightarrow> renderer \<Rightarrow> int \<Rightarrow> nat \<Rightarrow> 'f radial_row \<times> jint list \<Rightarrow>
     ('f radial_row \<times> jint list) option" where
  "radial_step F rdr paintOffset i = (\<lambda>(s, paint).
    let V = (if fless F (rr_V s) (f_of_int F 0) then f_of_int F 0 else rr_V s);
        ifrac = f_to_jint F (fadd F (rr_U s) (fsqrt F V))
    in do { c \<leftarrow> gradient_color rdr ifrac;
            paint \<leftarrow> wr paint (paintOffset + int i) c;
            Some (s\<lparr>rr_U := fadd F (rr_U s) (rr_dU s), rr_V := fadd F V (rr_dV s),
                    rr_dV := fadd F (rr_dV s) (rr_ddV s)\<rparr>, paint) })"

definition genRadialGradientPaint ::
    "'f float_ops \<Rightarrow> 'f gradient_geometry \<Rightarrow> renderer \<Rightarrow> jint \<Rightarrow> renderer option" where
  "genRadialGradientPaint F g rdr height =
    do { paint \<leftarrow> for_up 0 (nat height)
           (\<lambda>j paint.
              do { (s, paint) \<leftarrow> for_up 0 (nat (rdr_alphaWidth rdr))
                     (radial_step F rdr (int j * rdr_alphaWidth rdr))
                     (radial_init F g (rdr_currX rdr) (rdr_currY rdr + int j), paint);
                   Some paint })
           (rdr_paint rdr);
         Some (rdr\<lparr>rdr_paint := paint\<rparr>) }"

section \<open>Interpolation\<close>

definition interpolate2points :: "jint \<Rightarrow> jint \<Rightarrow> jint \<Rightarrow> jint" where
  "interpolate2points p0 p1 frac =
     pack (interp (pixA p0) (pixA p1) frac) (interp (pixR p0) (pixR p1) frac)
       (interp (pixG p0) (pixG p1) frac) (interp (pixB p0) (pixB p1) frac)"

definition interpolate4points :: "jint \<Rightarrow> jint \<Rightarrow> jint \<Rightarrow> jint \<Rightarrow> jint \<Rightarrow> jint \<Rightarrow> jint" where
  "interpolate4points p00 p01 p10 p11 hfrac vfrac =
    (let a0 = interp (pixA p00) (pixA p01) hfrac; r0 = interp (pixR p00) (pixR p01) hfrac;
         g0 = interp (pixG p00) (pixG p01) hfrac; b0 = interp (pixB p00) (pixB p01) hfrac;
         a1 = interp (pixA p10) (pixA p11) hfrac; r1 = interp (pixR p10) (pixR p11) hfrac;
         g1 = interp (pixG p10) (pixG p11) hfrac; b1 = interp (pixB p10) (pixB p11) hfrac
     in pack (interp a0 a1 vfrac) (interp r0 r1 vfrac) (interp g0 g1 vfrac) (interp b0 b1 vfrac))"

definition interpolate2pointsNoAlpha :: "jint \<Rightarrow> jint \<Rightarrow> jint \<Rightarrow> jint" where
  "interpolate2pointsNoAlpha p0 p1 frac =
     pack 255 (interp (pixR p0) (pixR p1) frac)
       (interp (pixG p0) (pixG p1) frac) (interp (pixB p0) (pixB p1) frac)"

definition interpolate4pointsNoAlpha :: "jint \<Rightarrow> jint \<Rightarrow> jint \<Rightarrow> jint \<Rightarrow> jint \<Rightarrow> jint \<Rightarrow> jint" where
  "interpolate4pointsNoAlpha p00 p01 p10 p11 hfrac vfrac =
    (let r0 = interp (pixR p00) (pixR p01) hfrac; g0 = interp (pixG p00) (pixG p01) hfrac;
         b0 = interp (pixB p00) (pixB p01) hfrac; r1 = interp (pixR p10) (pixR p11) hfrac;
         g1 = interp (pixG p10) (pixG p11) hfrac; b1 = interp (pixB p10) (pixB p11) hfrac
     in pack 255 (interp r0 r1 vfrac) (interp g0 g1 vfrac) (interp b0 b1 vfrac))"

end
