(* ===== verification/Pisces_Texture.thy ===== *)
theory Pisces_Texture
  imports Pisces_Paint
begin

text \<open>
  \<open>genTexturePaintTarget\<close> and \<open>genTexturePaintMultiply\<close> of native-prism-sw/PiscesPaint.c. The
  function has one loop per transform kind and mode; each loop is a definition of its own, built
  from the bounds check it makes and the way it reads the texture. Texture coordinates are 48.16
  fixed-point \<open>jlong\<close> values.
\<close>

section \<open>Bounds checks and texel reads\<close>

definition isInBoundsNoRepeat :: "jint \<Rightarrow> jint \<Rightarrow> jint \<Rightarrow> bool" where
  "isInBoundsNoRepeat a mn mx \<longleftrightarrow> \<not> (a < mn \<or> a > mx)"

definition checkBoundsRepeat :: "jint \<Rightarrow> jlong \<Rightarrow> jint \<Rightarrow> jint \<Rightarrow> (jint \<times> jlong) option" where
  "checkBoundsRepeat a la mn mx =
    (if a < mn \<or> a > mx
     then if mx \<ge> 0
          then do { la \<leftarrow> lmod la (s32 (shl (mx + 1) 16)); Some (s32 (shr la 16), la) }
          else Some (0, 0)
     else Some (a, la))"

definition checkBoundsNoRepeat :: "jint \<Rightarrow> jlong \<Rightarrow> jint \<Rightarrow> jint \<Rightarrow> (jint \<times> jlong) option" where
  "checkBoundsNoRepeat a la mn mx =
     Some (if a < mn then mn else if a > mx then mx else a, la)"

definition getPointsToInterpolate ::
    "jint list \<Rightarrow> jint \<Rightarrow> jint \<Rightarrow> jint \<Rightarrow> jint \<Rightarrow> jint \<Rightarrow> jint \<Rightarrow> jint \<Rightarrow> (jint \<times> jint \<times> jint) option" where
  "getPointsToInterpolate data sidx stride p00 tx txMax ty tyMax =
    (let sidx2 = (if ty \<ge> tyMax then sidx else sidx + stride); isXin = tx < txMax
     in do { q0 \<leftarrow> (if isXin then rd data (sidx + 1) else Some p00);
             q1 \<leftarrow> rd data sidx2;
             q2 \<leftarrow> (if isXin then rd data (sidx2 + 1) else rd data sidx2);
             Some (q0, q1, q2) })"

definition getPointsToInterpolateRepeat ::
    "jint list \<Rightarrow> jint \<Rightarrow> jint \<Rightarrow> jint \<Rightarrow> jint \<Rightarrow> jint \<Rightarrow> jint \<Rightarrow> jint \<Rightarrow> (jint \<times> jint \<times> jint) option" where
  "getPointsToInterpolateRepeat data sidx stride p00 tx txMax ty tyMax =
    (let sidx2 = (if ty \<ge> tyMax then max tx 0 else sidx + stride); isXin = tx < txMax
     in do { q0 \<leftarrow> (if isXin then rd data (sidx + 1) else rd data (sidx - max tx 0));
             q1 \<leftarrow> rd data sidx2;
             q2 \<leftarrow> (if isXin then rd data (sidx2 + 1) else rd data (sidx2 - max tx 0));
             Some (q0, q1, q2) })"

text \<open>
  The texel at the checked coordinates: nearest, and interpolated from four neighbours with the
  neighbour function and the two interpolators of the mode.
\<close>

definition texel_nearest :: "renderer \<Rightarrow> jint \<Rightarrow> jint \<Rightarrow> jint \<Rightarrow> jint \<Rightarrow> jint option" where
  "texel_nearest rdr tx ty hfrac vfrac =
     rd (rdr_texture_intData rdr) (max 0 ty * rdr_texture_stride rdr + max 0 tx)"

definition texel_interpolated ::
    "(jint list \<Rightarrow> jint \<Rightarrow> jint \<Rightarrow> jint \<Rightarrow> jint \<Rightarrow> jint \<Rightarrow> jint \<Rightarrow> jint \<Rightarrow> (jint \<times> jint \<times> jint) option) \<Rightarrow>
     (jint \<Rightarrow> jint \<Rightarrow> jint \<Rightarrow> jint) \<Rightarrow> (jint \<Rightarrow> jint \<Rightarrow> jint \<Rightarrow> jint \<Rightarrow> jint \<Rightarrow> jint \<Rightarrow> jint) \<Rightarrow>
     renderer \<Rightarrow> jint \<Rightarrow> jint \<Rightarrow> jint \<Rightarrow> jint \<Rightarrow> jint option" where
  "texel_interpolated points ip2 ip4 rdr tx ty hfrac vfrac =
    (let data = rdr_texture_intData rdr; stride = rdr_texture_stride rdr;
         sidx = max 0 ty * stride + max 0 tx
     in do { p00 \<leftarrow> rd data sidx;
             (q0, q1, q2) \<leftarrow> points data sidx stride p00 tx (rdr_texture_imageWidth rdr - 1)
                               ty (rdr_texture_imageHeight rdr - 1);
             Some (if hfrac \<noteq> 0 \<and> vfrac \<noteq> 0 then ip4 p00 q0 q1 q2 hfrac vfrac
                   else if hfrac \<noteq> 0 then ip2 p00 q0 hfrac
                   else if vfrac \<noteq> 0 then ip2 p00 q1 vfrac
                   else p00) })"

definition texel_alpha :: "renderer \<Rightarrow> jint \<Rightarrow> jint \<Rightarrow> jint \<Rightarrow> jint \<Rightarrow> jint option" where
  "texel_alpha = texel_interpolated getPointsToInterpolate interpolate2points interpolate4points"

definition texel_alpha_repeat :: "renderer \<Rightarrow> jint \<Rightarrow> jint \<Rightarrow> jint \<Rightarrow> jint \<Rightarrow> jint option" where
  "texel_alpha_repeat =
     texel_interpolated getPointsToInterpolateRepeat interpolate2points interpolate4points"

definition texel_noalpha :: "renderer \<Rightarrow> jint \<Rightarrow> jint \<Rightarrow> jint \<Rightarrow> jint \<Rightarrow> jint option" where
  "texel_noalpha =
     texel_interpolated getPointsToInterpolate interpolate2pointsNoAlpha interpolate4pointsNoAlpha"

definition texel_noalpha_repeat :: "renderer \<Rightarrow> jint \<Rightarrow> jint \<Rightarrow> jint \<Rightarrow> jint \<Rightarrow> jint option" where
  "texel_noalpha_repeat =
     texel_interpolated getPointsToInterpolateRepeat interpolate2pointsNoAlpha
       interpolate4pointsNoAlpha"

section \<open>The mode\<close>

datatype texture_mode =
    NO_REPEAT_NO_INTERPOLATE | REPEAT_NO_INTERPOLATE | NO_REPEAT_INTERPOLATE_NO_ALPHA
  | NO_REPEAT_INTERPOLATE_ALPHA | REPEAT_INTERPOLATE_NO_ALPHA | REPEAT_INTERPOLATE_ALPHA

definition repeatInterpolateMode :: "renderer \<Rightarrow> texture_mode" where
  "repeatInterpolateMode rdr =
    (if rdr_texture_interpolate rdr
     then if rdr_texture_hasAlpha rdr
          then if rdr_texture_repeat rdr then REPEAT_INTERPOLATE_ALPHA else NO_REPEAT_INTERPOLATE_ALPHA
          else if rdr_texture_repeat rdr then REPEAT_INTERPOLATE_NO_ALPHA
               else NO_REPEAT_INTERPOLATE_NO_ALPHA
     else if rdr_texture_repeat rdr then REPEAT_NO_INTERPOLATE else NO_REPEAT_NO_INTERPOLATE)"

type_synonym bounds_check = "jint \<Rightarrow> jlong \<Rightarrow> jint \<Rightarrow> jint \<Rightarrow> (jint \<times> jlong) option"
type_synonym texel_read = "renderer \<Rightarrow> jint \<Rightarrow> jint \<Rightarrow> jint \<Rightarrow> jint \<Rightarrow> jint option"

section \<open>Translation\<close>

text \<open>The coordinate of the row is checked once; the column advances by one texel.\<close>

definition translate_step ::
    "bounds_check \<Rightarrow> texel_read \<Rightarrow> renderer \<Rightarrow> jint \<Rightarrow> jint \<Rightarrow> jint \<Rightarrow> int \<Rightarrow> nat \<Rightarrow>
     jlong \<times> jint list \<Rightarrow> (jlong \<times> jint list) option" where
  "translate_step check texel rdr ty hfrac vfrac paintOffset i = (\<lambda>(ltx, paint).
    do { (tx, ltx) \<leftarrow> check (s32 (shr ltx 16)) ltx (rdr_texture_txMin rdr - 1) (rdr_texture_txMax rdr);
         cval \<leftarrow> texel rdr tx ty hfrac vfrac;
         paint \<leftarrow> wr paint (paintOffset + int i) cval;
         Some (s64 (ltx + 65536), paint) })"

text \<open>Without repetition and interpolation: left padding, a copy of the texture row, right padding.\<close>

definition translate_copy_row ::
    "renderer \<Rightarrow> jint \<Rightarrow> jlong \<Rightarrow> int \<Rightarrow> jint list \<Rightarrow> jint list option" where
  "translate_copy_row rdr ty ltx paintOffset paint =
    (let data = rdr_texture_intData rdr; row = max 0 ty * rdr_texture_stride rdr;
         txMin = rdr_texture_txMin rdr; txMax = rdr_texture_txMax rdr;
         n = max 0 (rdr_alphaWidth rdr); tx = s32 (shr ltx 16);
         n1 = min n (max 0 (txMin - tx)); tx1 = tx + n1;
         len = max 0 (min (n - n1) (txMax - tx1 + 1))
     in do { paint \<leftarrow> for_up 0 (nat n1)
               (\<lambda>i paint. do { v \<leftarrow> rd data (row + txMin); wr paint (paintOffset + int i) v }) paint;
             paint \<leftarrow> for_up 0 (nat len)
               (\<lambda>i paint. do { v \<leftarrow> rd data (row + tx1 + int i);
                               wr paint (paintOffset + n1 + int i) v }) paint;
             for_up 0 (nat (n - n1 - len))
               (\<lambda>i paint. do { v \<leftarrow> rd data (row + txMax);
                               wr paint (paintOffset + n1 + len + int i) v }) paint })"

definition translate_loop ::
    "bounds_check \<Rightarrow> texel_read \<Rightarrow> renderer \<Rightarrow> jint \<Rightarrow> jint \<Rightarrow> jint \<Rightarrow> jlong \<Rightarrow> int \<Rightarrow> jint list \<Rightarrow>
     jint list option" where
  "translate_loop check texel rdr ty hfrac vfrac ltx paintOffset paint =
     map_option snd (for_up 0 (nat (rdr_alphaWidth rdr))
       (translate_step check texel rdr ty hfrac vfrac paintOffset) (ltx, paint))"

definition translate_row ::
    "renderer \<Rightarrow> jint \<Rightarrow> jint \<Rightarrow> jint \<Rightarrow> jlong \<Rightarrow> int \<Rightarrow> jint list \<Rightarrow> jint list option" where
  "translate_row rdr ty hfrac vfrac ltx paintOffset paint =
    (case repeatInterpolateMode rdr of
       NO_REPEAT_NO_INTERPOLATE \<Rightarrow> translate_copy_row rdr ty ltx paintOffset paint
     | REPEAT_NO_INTERPOLATE \<Rightarrow>
         translate_loop checkBoundsRepeat texel_nearest rdr ty hfrac vfrac ltx paintOffset paint
     | NO_REPEAT_INTERPOLATE_ALPHA \<Rightarrow>
         translate_loop checkBoundsNoRepeat texel_alpha rdr ty hfrac vfrac ltx paintOffset paint
     | REPEAT_INTERPOLATE_ALPHA \<Rightarrow>
         translate_loop checkBoundsRepeat texel_alpha_repeat rdr ty hfrac vfrac ltx paintOffset paint
     | NO_REPEAT_INTERPOLATE_NO_ALPHA \<Rightarrow>
         translate_loop checkBoundsNoRepeat texel_noalpha rdr ty hfrac vfrac ltx paintOffset paint
     | REPEAT_INTERPOLATE_NO_ALPHA \<Rightarrow>
         translate_loop checkBoundsRepeat texel_noalpha_repeat rdr ty hfrac vfrac ltx paintOffset paint)"

definition translate_rows :: "renderer \<Rightarrow> nat \<Rightarrow> jint list \<Rightarrow> jint list option" where
  "translate_rows rdr j paint =
    (let x = rdr_currX rdr; y = rdr_currY rdr + int j;
         ltx = s64 (s32 (shl x 16) + rdr_texture_m02 rdr);
         lty = s64 (s32 (shl y 16) + rdr_texture_m12 rdr);
         check = (if rdr_texture_repeat rdr then checkBoundsRepeat else checkBoundsNoRepeat)
     in do { (ty, lty') \<leftarrow> check (s32 (shr lty 16)) lty (rdr_texture_tyMin rdr - 1) (rdr_texture_tyMax rdr);
             translate_row rdr ty (ltx AND 65535) (lty AND 65535) ltx
               (int j * rdr_alphaWidth rdr) paint })"

section \<open>Scaling and general transforms\<close>

text \<open>Both coordinates advance with every pixel and are checked there.\<close>

definition scale_step ::
    "bounds_check \<Rightarrow> texel_read \<Rightarrow> renderer \<Rightarrow> int \<Rightarrow> nat \<Rightarrow>
     jlong \<times> jlong \<times> jint list \<Rightarrow> (jlong \<times> jlong \<times> jint list) option" where
  "scale_step check texel rdr paintOffset i = (\<lambda>(ltx, lty, paint).
    let hfrac = ltx AND 65535; vfrac = lty AND 65535
    in do { (tx, ltx) \<leftarrow> check (s32 (shr ltx 16)) ltx (rdr_texture_txMin rdr - 1) (rdr_texture_txMax rdr);
            (ty, lty) \<leftarrow> check (s32 (shr lty 16)) lty (rdr_texture_tyMin rdr - 1) (rdr_texture_tyMax rdr);
            cval \<leftarrow> texel rdr tx ty hfrac vfrac;
            paint \<leftarrow> wr paint (paintOffset + int i) cval;
            Some (s64 (ltx + rdr_texture_m00 rdr), s64 (lty + rdr_texture_m10 rdr), paint) })"

text \<open>A general transform without repetition leaves pixels outside the texture transparent.\<close>

definition generic_step ::
    "texel_read \<Rightarrow> renderer \<Rightarrow> int \<Rightarrow> nat \<Rightarrow>
     jlong \<times> jlong \<times> jint list \<Rightarrow> (jlong \<times> jlong \<times> jint list) option" where
  "generic_step texel rdr paintOffset i = (\<lambda>(ltx, lty, paint).
    let tx = s32 (shr ltx 16); ty = s32 (shr lty 16);
        hfrac = ltx AND 65535; vfrac = lty AND 65535;
        inBounds = isInBoundsNoRepeat tx (rdr_texture_txMin rdr - 1) (rdr_texture_txMax rdr) \<and>
          isInBoundsNoRepeat ty (rdr_texture_tyMin rdr - 1) (rdr_texture_tyMax rdr)
    in do { cval \<leftarrow> (if inBounds then texel rdr tx ty hfrac vfrac else Some 0);
            paint \<leftarrow> wr paint (paintOffset + int i) cval;
            Some (s64 (ltx + rdr_texture_m00 rdr), s64 (lty + rdr_texture_m10 rdr), paint) })"

definition scale_row_step ::
    "renderer \<Rightarrow> int \<Rightarrow> nat \<Rightarrow> jlong \<times> jlong \<times> jint list \<Rightarrow> (jlong \<times> jlong \<times> jint list) option" where
  "scale_row_step rdr =
    (case repeatInterpolateMode rdr of
       NO_REPEAT_NO_INTERPOLATE \<Rightarrow> scale_step checkBoundsNoRepeat texel_nearest rdr
     | REPEAT_NO_INTERPOLATE \<Rightarrow> scale_step checkBoundsRepeat texel_nearest rdr
     | NO_REPEAT_INTERPOLATE_ALPHA \<Rightarrow> scale_step checkBoundsNoRepeat texel_alpha rdr
     | REPEAT_INTERPOLATE_ALPHA \<Rightarrow> scale_step checkBoundsRepeat texel_alpha_repeat rdr
     | NO_REPEAT_INTERPOLATE_NO_ALPHA \<Rightarrow> scale_step checkBoundsNoRepeat texel_noalpha rdr
     | REPEAT_INTERPOLATE_NO_ALPHA \<Rightarrow> scale_step checkBoundsRepeat texel_noalpha_repeat rdr)"

definition generic_row_step ::
    "renderer \<Rightarrow> int \<Rightarrow> nat \<Rightarrow> jlong \<times> jlong \<times> jint list \<Rightarrow> (jlong \<times> jlong \<times> jint list) option" where
  "generic_row_step rdr =
    (case repeatInterpolateMode rdr of
       NO_REPEAT_NO_INTERPOLATE \<Rightarrow> generic_step texel_nearest rdr
     | REPEAT_NO_INTERPOLATE \<Rightarrow> scale_step checkBoundsRepeat texel_nearest rdr
     | NO_REPEAT_INTERPOLATE_ALPHA \<Rightarrow> generic_step texel_alpha rdr
     | REPEAT_INTERPOLATE_ALPHA \<Rightarrow> scale_step checkBoundsRepeat texel_alpha_repeat rdr
     | NO_REPEAT_INTERPOLATE_NO_ALPHA \<Rightarrow> generic_step texel_noalpha rdr
     | REPEAT_INTERPOLATE_NO_ALPHA \<Rightarrow> scale_step checkBoundsRepeat texel_noalpha_repeat rdr)"

definition affine_rows ::
    "(renderer \<Rightarrow> int \<Rightarrow> nat \<Rightarrow> jlong \<times> jlong \<times> jint list \<Rightarrow> (jlong \<times> jlong \<times> jint list) option) \<Rightarrow>
     renderer \<Rightarrow> nat \<Rightarrow> jint list \<Rightarrow> jint list option" where
  "affine_rows step rdr j paint =
    (let x = rdr_currX rdr; y = rdr_currY rdr + int j;
         ltx = s64 (x * rdr_texture_m00 rdr + y * rdr_texture_m01 rdr + rdr_texture_m02 rdr);
         lty = s64 (x * rdr_texture_m10 rdr + y * rdr_texture_m11 rdr + rdr_texture_m12 rdr)
     in map_option (\<lambda>(ltx, lty, paint). paint)
          (for_up 0 (nat (rdr_alphaWidth rdr)) (step rdr (int j * rdr_alphaWidth rdr)) (ltx, lty, paint)))"

section \<open>The generators\<close>

definition TEXTURE_TRANSFORM_IDENTITY :: jint where "TEXTURE_TRANSFORM_IDENTITY = 1"
definition TEXTURE_TRANSFORM_TRANSLATE :: jint where "TEXTURE_TRANSFORM_TRANSLATE = 2"
definition TEXTURE_TRANSFORM_SCALE_TRANSLATE :: jint where "TEXTURE_TRANSFORM_SCALE_TRANSLATE = 3"
definition TEXTURE_TRANSFORM_GENERIC :: jint where "TEXTURE_TRANSFORM_GENERIC = 4"

definition genTexturePaintTarget :: "renderer \<Rightarrow> jint list \<Rightarrow> jint \<Rightarrow> jint list option" where
  "genTexturePaintTarget rdr paint height =
    (let ty = rdr_texture_transformType rdr
     in if ty = TEXTURE_TRANSFORM_IDENTITY \<or> ty = TEXTURE_TRANSFORM_TRANSLATE
        then for_up 0 (nat height) (translate_rows rdr) paint
        else if ty = TEXTURE_TRANSFORM_SCALE_TRANSLATE
        then for_up 0 (nat height) (affine_rows scale_row_step rdr) paint
        else if ty = TEXTURE_TRANSFORM_GENERIC
        then for_up 0 (nat height) (affine_rows generic_row_step rdr) paint
        else Some paint)"

definition genTexturePaint :: "renderer \<Rightarrow> jint \<Rightarrow> renderer option" where
  "genTexturePaint rdr height =
    do { paint \<leftarrow> genTexturePaintTarget rdr (rdr_paint rdr) height; Some (rdr\<lparr>rdr_paint := paint\<rparr>) }"

section \<open>Texture times paint\<close>

definition PAINT_FLAT_COLOR :: jint where "PAINT_FLAT_COLOR = 0"
definition PAINT_LINEAR_GRADIENT :: jint where "PAINT_LINEAR_GRADIENT = 1"
definition PAINT_RADIAL_GRADIENT :: jint where "PAINT_RADIAL_GRADIENT = 2"
definition PAINT_TEXTURE8888 :: jint where "PAINT_TEXTURE8888 = 4"
definition PAINT_TEXTURE8888_MULTIPLY :: jint where "PAINT_TEXTURE8888_MULTIPLY = 5"

definition multiply_white :: "jint \<Rightarrow> jint \<Rightarrow> jint" where
  "multiply_white palpha_1 tval =
     pack (shr (palpha_1 * (shr tval 24 AND 255)) 8) (shr (palpha_1 * (shr tval 16 AND 255)) 8)
       (shr (palpha_1 * (shr tval 8 AND 255)) 8) (shr (palpha_1 * (tval AND 255)) 8)"

definition multiply_color :: "jint \<Rightarrow> jint \<Rightarrow> jint \<Rightarrow> jint \<Rightarrow> jint \<Rightarrow> jint" where
  "multiply_color palpha_1 cred cgreen cblue tval =
     pack (shr (palpha_1 * (shr tval 24 AND 255)) 8)
       (shr (shr ((cred + 1) * (shr tval 16 AND 255)) 8 * palpha_1) 8)
       (shr (shr ((cgreen + 1) * (shr tval 8 AND 255)) 8 * palpha_1) 8)
       (shr (shr ((cblue + 1) * (tval AND 255)) 8 * palpha_1) 8)"

definition multiply_paint :: "jint \<Rightarrow> jint \<Rightarrow> jint" where
  "multiply_paint pval tval =
     multiply_color ((shr pval 24 AND 255) + 1) (shr pval 16 AND 255) (shr pval 8 AND 255)
       (pval AND 255) tval"

definition multiply_rows ::
    "(int \<Rightarrow> jint list \<Rightarrow> jint option) \<Rightarrow> renderer \<Rightarrow> jint \<Rightarrow> jint list \<Rightarrow> jint list option" where
  "multiply_rows f rdr height paint =
     for_up 0 (nat height)
       (\<lambda>i. for_up 0 (nat (rdr_maxTouched rdr - rdr_minTouched rdr + 1))
         (\<lambda>j paint. let idx = int i * rdr_alphaWidth rdr + int j
                    in do { v \<leftarrow> f idx paint; wr paint idx v })) paint"

definition genTexturePaintMultiply ::
    "'f float_ops \<Rightarrow> 'f gradient_geometry \<Rightarrow> renderer \<Rightarrow> jint \<Rightarrow> renderer option" where
  "genTexturePaintMultiply F g rdr height =
    (let w = rdr_maxTouched rdr - rdr_minTouched rdr + 1; palpha_1 = rdr_calpha rdr + 1;
         cred = rdr_cred rdr; cgreen = rdr_cgreen rdr; cblue = rdr_cblue rdr;
         mode = rdr_prevPaintMode rdr
     in if mode = PAINT_FLAT_COLOR
        then do { paint \<leftarrow> genTexturePaintTarget rdr (rdr_paint rdr) height;
                  paint \<leftarrow> (if cred = 255 \<and> cgreen = 255 \<and> cblue = 255
                     then if rdr_calpha rdr < 255
                          then multiply_rows (\<lambda>i p. map_option (multiply_white palpha_1) (rd p i))
                                 rdr height paint
                          else Some paint
                     else multiply_rows
                            (\<lambda>i p. map_option (multiply_color palpha_1 cred cgreen cblue) (rd p i))
                            rdr height paint);
                  Some (rdr\<lparr>rdr_paint := paint\<rparr>) }
        else if mode = PAINT_LINEAR_GRADIENT \<or> mode = PAINT_RADIAL_GRADIENT
        then do { rdr \<leftarrow> (if mode = PAINT_LINEAR_GRADIENT then genLinearGradientPaint F g rdr height
                           else genRadialGradientPaint F g rdr height);
                  image \<leftarrow> genTexturePaintTarget rdr (replicate (nat (w * height)) 0) height;
                  paint \<leftarrow> multiply_rows
                     (\<lambda>i p. do { pval \<leftarrow> rd p i; tval \<leftarrow> rd image i; Some (multiply_paint pval tval) })
                     rdr height (rdr_paint rdr);
                  Some (rdr\<lparr>rdr_paint := paint\<rparr>) }
        else Some rdr)"

end
