(* ===== verification/Pisces_Surface.thy ===== *)
theory Pisces_Surface
  imports Pisces_State
begin

text \<open>
  Surfaces: JJavaSurface.c (initialisation and acquisition of the Java pixel array),
  JAbstractSurface.c (\<open>getRGBImpl\<close>, \<open>setRGBImpl\<close>), the macro \<open>CORRECT_DIMS\<close> of PiscesSurface.h
  and \<open>surface_setRGB\<close> of PiscesSurface.inl. The pixel array is a list, a Java exception is a value
  of \<open>surface_error\<close>; an access outside an array and a division by zero are faults (\<open>None\<close>).
\<close>

datatype surface_error = IllegalArgumentException | OutOfMemoryError

type_synonym 'a surface_result = "(surface_error + 'a) option"

definition TYPE_INT_ARGB_PRE :: jint where "TYPE_INT_ARGB_PRE = 1"

definition JavaSurface_initialize :: "jint \<Rightarrow> jint \<Rightarrow> jint \<Rightarrow> surface" where
  "JavaSurface_initialize dataType width height =
     \<lparr>sf_width = width, sf_height = height, sf_offset = 0, sf_scanlineStride = width,
      sf_pixelStride = 1, sf_imageType = dataType, sf_data = []\<rparr>"

text \<open>
  \<open>dataArrayLength / width < height\<close> is evaluated only for non-negative sizes; a zero width
  divides by zero. \<open>pinned\<close> is the result of \<open>GetPrimitiveArrayCritical\<close>, which the virtual machine
  may refuse.
\<close>

definition surface_acquire :: "surface \<Rightarrow> jint list \<Rightarrow> bool \<Rightarrow> jint list surface_result" where
  "surface_acquire sf dataArray pinned =
    (let width = sf_width sf; height = sf_height sf
     in if width < 0 \<or> height < 0 then Some (Inl IllegalArgumentException)
        else if width = 0 then None
        else if cdiv (int (length dataArray)) width < height then Some (Inl IllegalArgumentException)
        else if pinned then Some (Inr dataArray) else Some (Inl OutOfMemoryError))"

text \<open>The clipped rectangle \<open>(x, y, w, h)\<close> and the offset \<open>(x1, y1)\<close> into the other array.\<close>

definition CORRECT_DIMS ::
    "surface \<Rightarrow> jint \<Rightarrow> jint \<Rightarrow> jint \<Rightarrow> jint \<Rightarrow> jint \<Rightarrow> jint \<Rightarrow> jint \<times> jint \<times> jint \<times> jint \<times> jint \<times> jint" where
  "CORRECT_DIMS sf x y w h x1 y1 =
    (let (x1, w, x) = (if x < 0 then (s32 (x1 - x), s32 (w + x), 0) else (x1, w, x));
         (y1, h, y) = (if y < 0 then (s32 (y1 - y), s32 (h + y), 0) else (y1, h, y));
         w = (if s32 (x + w) > sf_width sf then s32 (sf_width sf - x) else w);
         h = (if s32 (y + h) > sf_height sf then s32 (sf_height sf - y) else h)
     in (x, y, w, h, x1, y1))"

definition copy_rows ::
    "jint list \<Rightarrow> int \<Rightarrow> jint \<Rightarrow> jint \<Rightarrow> jint \<Rightarrow> jint list \<Rightarrow> int \<Rightarrow> jint \<Rightarrow> jint list option" where
  "copy_rows src srcStart srcScan width height dst dstStart dstScan =
     for_up 0 (nat height)
       (\<lambda>j. for_up 0 (nat width)
          (\<lambda>i dst. do { v \<leftarrow> rd src (srcStart + int j * srcScan + int i);
                        wr dst (dstStart + int j * dstScan + int i) v })) dst"

definition setRGB ::
    "jint list \<Rightarrow> int \<Rightarrow> jint \<Rightarrow> jint list \<Rightarrow> int \<Rightarrow> jint \<Rightarrow> jint \<Rightarrow> jint \<Rightarrow> jint list option" where
  "setRGB dst dstStart dstScanLength src srcStart srcScanLength width height =
     copy_rows src srcStart srcScanLength width height dst dstStart dstScanLength"

definition getRGBImpl ::
    "surface \<Rightarrow> jint list \<Rightarrow> jint list \<Rightarrow> jint \<Rightarrow> jint \<Rightarrow> jint \<Rightarrow> jint \<Rightarrow> jint \<Rightarrow> jint \<Rightarrow>
     jint list surface_result" where
  "getRGBImpl sf pixels dst offset scanLength x y width height =
    (let (x, y, width, height, dstX, dstY) = CORRECT_DIMS sf x y width height 0 0;
         dstStart = offset + dstY * scanLength + dstX;
         dstEnd = dstStart + height * scanLength - 1;
         dstDataLength = int (length dst)
     in if width > 0 \<and> height > 0
        then if dstStart < 0 \<or> dstStart \<ge> dstDataLength \<or> dstEnd < 0 \<or> dstEnd \<ge> dstDataLength
             then Some (Inl IllegalArgumentException)
             else map_option Inr (copy_rows pixels (y * sf_width sf + x) (sf_width sf) width height
                    dst dstStart scanLength)
        else Some (Inr dst))"

definition setRGBImpl ::
    "surface \<Rightarrow> jint list \<Rightarrow> jint list \<Rightarrow> jint \<Rightarrow> jint \<Rightarrow> jint \<Rightarrow> jint \<Rightarrow> jint \<Rightarrow> jint \<Rightarrow>
     jint list surface_result" where
  "setRGBImpl sf pixels src offset scanLength x y width height =
    (let (x, y, width, height, srcX, srcY) = CORRECT_DIMS sf x y width height 0 0;
         srcStart = offset + srcY * scanLength + srcX;
         srcEnd = srcStart + height * scanLength - 1;
         srcDataLength = int (length src)
     in if width > 0 \<and> height > 0
        then if srcStart < 0 \<or> srcStart \<ge> srcDataLength \<or> srcEnd < 0 \<or> srcEnd \<ge> srcDataLength
             then Some (Inl IllegalArgumentException)
             else map_option Inr (setRGB pixels (y * sf_width sf + x) (sf_width sf)
                    src srcStart scanLength width height)
        else Some (Inr pixels))"

section \<open>Acquisition\<close>

lemma acquired_iff:
  assumes "0 < sf_width sf" "0 \<le> sf_height sf"
  shows "surface_acquire sf pixels True = Some (Inr pixels) \<longleftrightarrow>
    sf_width sf * sf_height sf \<le> int (length pixels)"
proof -
  have "cdiv (int (length pixels)) (sf_width sf) = int (length pixels) div sf_width sf"
    using assms(1) by (cases "length pixels = 0") (simp_all add: cdiv_def)
  moreover have "int (length pixels) div sf_width sf < sf_height sf \<longleftrightarrow>
      int (length pixels) < sf_height sf * sf_width sf"
    using int_le_div_iff [OF assms(1), of "sf_height sf" "int (length pixels)"] by linarith
  ultimately show ?thesis
    using assms by (auto simp: surface_acquire_def Let_def mult.commute)
qed

text \<open>
  A surface of positive width is acquired only when its array holds \<open>width * height\<close> pixels,
  and a non-negative size whose pixels fit is acquired whenever the array can be pinned.
\<close>

theorem surface_acquire_fits:
  assumes "0 < sf_width sf" "0 \<le> sf_height sf"
  shows "surface_acquire sf pixels True = Some (Inr pixels) \<longleftrightarrow>
    sf_width sf * sf_height sf \<le> int (length pixels)"
  using assms by (rule acquired_iff)

theorem surface_acquire_fits_witness:
  "surface_acquire (JavaSurface_initialize 1 2 3) [1, 2, 3, 4, 5, 6] True = Some (Inr [1, 2, 3, 4, 5, 6])"
  using surface_acquire_fits [of "JavaSurface_initialize 1 2 3" "[1, 2, 3, 4, 5, 6]"]
  by (simp add: JavaSurface_initialize_def)

section \<open>Clipping\<close>

text \<open>
  \<open>CORRECT_DIMS\<close> is the intersection of the rectangle with the surface, as long as the sums do not
  overflow: a pixel is in the corrected rectangle exactly when it is in the given one and on the
  surface, and the pixel's position relative to the rectangle's origin is kept by the returned offset.
\<close>

definition dims_ok :: "surface \<Rightarrow> jint \<Rightarrow> jint \<Rightarrow> jint \<Rightarrow> jint \<Rightarrow> bool" where
  "dims_ok sf x y w h \<longleftrightarrow> 0 \<le> w \<and> 0 \<le> h \<and> - 2147483648 < x \<and> x + w < 2147483648 \<and> - 2147483648 < y \<and> y + h < 2147483648 \<and>
     0 \<le> sf_width sf \<and> sf_width sf < 2147483648 \<and> 0 \<le> sf_height sf \<and> sf_height sf < 2147483648"

lemma CORRECT_DIMS_exact:
  assumes "dims_ok sf x y w h"
  shows "CORRECT_DIMS sf x y w h 0 0 =
    (max 0 x, max 0 y, min (x + w) (sf_width sf) - max 0 x, min (y + h) (sf_height sf) - max 0 y, max 0 x - x, max 0 y - y)"
  using assms by (simp add: CORRECT_DIMS_def Let_def dims_ok_def max_def min_def)

theorem CORRECT_DIMS_intersection:
  assumes "dims_ok sf x y w h" "CORRECT_DIMS sf x y w h 0 0 = (x', y', w', h', x1, y1)"
  shows "((x' \<le> px \<and> px < x' + w' \<and> y' \<le> py \<and> py < y' + h') \<longleftrightarrow>
      (x \<le> px \<and> px < x + w \<and> y \<le> py \<and> py < y + h) \<and>
      0 \<le> px \<and> px < sf_width sf \<and> 0 \<le> py \<and> py < sf_height sf) \<and>
    x1 = x' - x \<and> y1 = y' - y \<and> 0 \<le> x' \<and> 0 \<le> y'"
  using assms(2) unfolding CORRECT_DIMS_exact [OF assms(1)] by auto

theorem CORRECT_DIMS_intersection_witness:
  "((0 \<le> (1::int) \<and> 1 < 0 + (2::int) \<and> 2 \<le> (3::int) \<and> 3 < 2 + (2::int)) \<longleftrightarrow>
      (-1 \<le> (1::int) \<and> 1 < -1 + (3::int) \<and> 2 \<le> (3::int) \<and> 3 < 2 + (5::int)) \<and>
      0 \<le> (1::int) \<and> 1 < sf_width (JavaSurface_initialize 1 4 4) \<and> 0 \<le> (3::int) \<and>
      3 < sf_height (JavaSurface_initialize 1 4 4)) \<and>
    (1::int) = 0 - (-1) \<and> (0::int) = 2 - 2 \<and> 0 \<le> (0::int) \<and> 0 \<le> (2::int)"
  by (rule CORRECT_DIMS_intersection) (simp_all add: CORRECT_DIMS_def JavaSurface_initialize_def dims_ok_def)

section \<open>Copying rectangles\<close>

text \<open>A rectangle of the source and one of the destination, row by row in range.\<close>

definition rect_in :: "int \<Rightarrow> jint \<Rightarrow> jint \<Rightarrow> jint \<Rightarrow> 'a list \<Rightarrow> bool" where
  "rect_in start scan w h xs \<longleftrightarrow>
     0 \<le> start \<and> 0 \<le> w \<and> w \<le> scan \<and> (0 < h \<longrightarrow> start + (h - 1) * scan + w \<le> int (length xs))"

lemma rect_in_index:
  assumes "rect_in start scan w h xs" "j < nat h" "i < nat w"
  shows "0 \<le> start + int j * scan + int i" "start + int j * scan + int i < int (length xs)"
proof -
  have "int j * scan \<le> (h - 1) * scan" using assms by (intro mult_right_mono) (auto simp: rect_in_def)
  moreover have "0 \<le> int j * scan" using assms by (simp add: rect_in_def)
  ultimately show "0 \<le> start + int j * scan + int i" "start + int j * scan + int i < int (length xs)"
    using assms unfolding rect_in_def by linarith+
qed

lemma copy_rows_rect_in:
  assumes s: "rect_in ss sscan w h src" and d: "rect_in ds dscan w h dst"
  shows "copy_rows src ss sscan w h dst ds dscan =
    Some (upd_rect (nat ds) (nat dscan) (nat w) (nat h)
      (\<lambda>j i _. src ! nat (ss + int j * sscan + int i)) dst)"
proof -
  let ?b = "nat ds"
  have b: "int ?b = ds" "int (nat dscan) = dscan" "int (nat w) = w" using d by (auto simp: rect_in_def)
  have off: "ds + int j * dscan = int (?b + j * nat dscan)" for j using b by simp
  have row: "for_up 0 (nat w) (\<lambda>i dst. do { v \<leftarrow> rd src (ss + int j * sscan + int i);
        wr dst (ds + int j * dscan + int i) v }) d' =
      Some (upd_range (?b + j * nat dscan) (nat w) (\<lambda>i _. src ! nat (ss + int j * sscan + int i)) d')"
    if "j < nat h" "?b + j * nat dscan + nat w \<le> length d'" for j d'
    unfolding off
    using for_up_range [where st = "\<lambda>_ d. d" and k = 0 and b = "?b + j * nat dscan" and n = "nat w" and
        d = d' and f = "\<lambda>i _. src ! nat (ss + int j * sscan + int i)"] that rect_in_index [OF s that(1)]
    by (simp add: rd_in wr_def nat_int_add del: of_nat_add of_nat_mult)
  have h: "?b + (nat h - 1) * nat dscan + nat w \<le> length dst" if "0 < nat h"
  proof -
    have "int (?b + (nat h - 1) * nat dscan + nat w) \<le> int (length dst)"
      using d that unfolding of_nat_add of_nat_mult b by (simp add: rect_in_def of_nat_diff)
    then show ?thesis by (rule iffD1 [OF of_nat_le_iff])
  qed
  show ?thesis
    unfolding copy_rows_def
    by (rule for_up_rect [where st = "\<lambda>_ d. d" and k = 0, OF _ h])
      (use row d in \<open>auto simp: rect_in_def\<close>)
qed

text \<open>What the Java side guarantees of a call that passed its own argument check.\<close>

definition rgb_args_ok ::
    "surface \<Rightarrow> jint list \<Rightarrow> jint list \<Rightarrow> jint \<Rightarrow> jint \<Rightarrow> jint \<Rightarrow> jint \<Rightarrow> jint \<Rightarrow> jint \<Rightarrow> bool" where
  "rgb_args_ok sf pixels argb offset scan x y w h \<longleftrightarrow>
     0 \<le> x \<and> 0 \<le> y \<and> 0 < w \<and> 0 < h \<and> x + w \<le> sf_width sf \<and> y + h \<le> sf_height sf \<and>
     0 \<le> offset \<and> w \<le> scan \<and> offset + h * scan \<le> int (length argb) \<and>
     sf_width sf * sf_height sf \<le> int (length pixels)"

lemma s32_le: "0 \<le> n \<Longrightarrow> s32 n \<le> n"
  by (cases "n < 2147483648") (auto simp: s32_eq_mod intro: order_trans [OF _ zmod_le_nonneg_dividend])

lemma rgb_args_rects:
  assumes "rgb_args_ok sf pixels argb offset scan x y w h"
  shows "rect_in (y * sf_width sf + x) (sf_width sf) w h pixels" "rect_in offset scan w h argb"
    "CORRECT_DIMS sf x y w h 0 0 = (x, y, w, h, 0, 0)"
proof -
  have a: "0 \<le> x" "0 \<le> y" "0 < w" "0 < h" "x + w \<le> sf_width sf" "y + h \<le> sf_height sf" "0 \<le> offset"
    "w \<le> scan" "offset + h * scan \<le> int (length argb)" "sf_width sf * sf_height sf \<le> int (length pixels)"
    using assms by (simp_all add: rgb_args_ok_def)
  have "(y + h) * sf_width sf \<le> sf_height sf * sf_width sf" using a by (intro mult_right_mono) simp_all
  then show "rect_in (y * sf_width sf + x) (sf_width sf) w h pixels"
    using a by (simp add: rect_in_def algebra_simps)
  show "rect_in offset scan w h argb" using a by (simp add: rect_in_def algebra_simps)
  have "s32 (x + w) \<le> x + w" "s32 (y + h) \<le> y + h" using a by (simp_all add: s32_le)
  then show "CORRECT_DIMS sf x y w h 0 0 = (x, y, w, h, 0, 0)" using a by (simp add: CORRECT_DIMS_def)
qed

lemma rgb_calls:
  assumes "rgb_args_ok sf pixels argb offset scan x y w h"
  shows "getRGBImpl sf pixels argb offset scan x y w h =
      map_option Inr (copy_rows pixels (y * sf_width sf + x) (sf_width sf) w h argb offset scan)"
    "setRGBImpl sf pixels argb offset scan x y w h =
      map_option Inr (copy_rows argb offset scan w h pixels (y * sf_width sf + x) (sf_width sf))"
proof -
  have a: "0 < w" "0 < h" "0 \<le> offset" "w \<le> scan" "offset + h * scan \<le> int (length argb)"
    using assms by (simp_all add: rgb_args_ok_def)
  have "0 < h * scan" using a by simp
  then have "\<not> (offset < 0 \<or> int (length argb) \<le> offset \<or> offset + h * scan - 1 < 0 \<or>
      int (length argb) \<le> offset + h * scan - 1)" using a by linarith
  then show "getRGBImpl sf pixels argb offset scan x y w h =
      map_option Inr (copy_rows pixels (y * sf_width sf + x) (sf_width sf) w h argb offset scan)"
    "setRGBImpl sf pixels argb offset scan x y w h =
      map_option Inr (copy_rows argb offset scan w h pixels (y * sf_width sf + x) (sf_width sf))"
    using a(1,2) unfolding getRGBImpl_def setRGBImpl_def rgb_args_rects(3) [OF assms] setRGB_def Let_def
    by (simp_all only: prod.case mult_zero_left add_0_right if_True if_False simp_thms)
qed

lemma upd_rect_nth_in:
  assumes "b + j * s + i < length xs" "j < h" "i < w" "w \<le> s"
  shows "upd_rect b s w h f xs ! (b + j * s + i) = f j i (xs ! (b + j * s + i))"
  using assms by (simp add: nth_upd_rect add.assoc)

text \<open>
  C30: writing a rectangle into the surface and reading it back gives the values written: after
  setRGBImpl and getRGBImpl with the same arguments, every entry of the destination that belongs to
  the rectangle equals the source entry, and all its other entries are unchanged. Neither call leaves
  an array.
\<close>

theorem setRGB_getRGB_roundtrip:
  assumes "rgb_args_ok sf pixels src offset scan x y w h" "length dst = length src"
  shows "\<exists>pixels' dst'. setRGBImpl sf pixels src offset scan x y w h = Some (Inr pixels') \<and>
    getRGBImpl sf pixels' dst offset scan x y w h = Some (Inr dst') \<and>
    dst' = upd_rect (nat offset) (nat scan) (nat w) (nat h)
      (\<lambda>j i _. src ! (nat offset + j * nat scan + i)) dst"
proof -
  note r = rgb_args_rects [OF assms(1)]
  let ?p = "upd_rect (nat (y * sf_width sf + x)) (nat (sf_width sf)) (nat w) (nat h)
    (\<lambda>j i _. src ! nat (offset + int j * scan + int i)) pixels"
  have set_: "setRGBImpl sf pixels src offset scan x y w h = Some (Inr ?p)"
    by (simp add: rgb_calls(2) [OF assms(1)] copy_rows_rect_in [OF r(2,1)])
  have ok: "rgb_args_ok sf ?p dst offset scan x y w h" using assms by (simp add: rgb_args_ok_def)
  note r' = rgb_args_rects [OF ok]
  have i: "?p ! nat (y * sf_width sf + x + int j * sf_width sf + int i) =
      src ! (nat offset + j * nat scan + i)" if "j < nat h" "i < nat w" for j i
  proof -
    let ?b = "nat (y * sf_width sf + x)"
    let ?s = "nat (sf_width sf)"
    have n: "nat (y * sf_width sf + x + int j * sf_width sf + int i) = ?b + j * ?s + i"
      "nat (offset + int j * scan + int i) = nat offset + j * nat scan + i" "w \<le> sf_width sf"
      using r(1,2) by (simp_all add: rect_in_def nat_add_distrib nat_mult_distrib)
    have "?b + j * ?s + i < length pixels"
      using rect_in_index [OF r(1) that] n(1) by (metis nat_less_iff)
    then show ?thesis unfolding n(1) using that n(2,3) by (simp add: upd_rect_nth_in)
  qed
  have "getRGBImpl sf ?p dst offset scan x y w h =
      Some (Inr (upd_rect (nat offset) (nat scan) (nat w) (nat h)
        (\<lambda>j i _. src ! (nat offset + j * nat scan + i)) dst))"
    unfolding rgb_calls(1) [OF ok] copy_rows_rect_in [OF r'(1,2)]
    by (simp add: i cong: upd_rect_cong)
  with set_ show ?thesis by blast
qed

theorem setRGB_getRGB_roundtrip_witness:
  "\<exists>pixels' dst'. setRGBImpl (JavaSurface_initialize 1 3 2) [0, 0, 0, 0, 0, 0] [7, 8, 9, 10] 0 2 1 0 2 2 =
      Some (Inr pixels') \<and>
    getRGBImpl (JavaSurface_initialize 1 3 2) pixels' [1, 1, 1, 1] 0 2 1 0 2 2 = Some (Inr dst') \<and>
    dst' = upd_rect (nat 0) (nat 2) (nat 2) (nat 2) (\<lambda>j i _. [7, 8, 9, 10] ! (nat 0 + j * nat 2 + i)) [1, 1, 1, 1]"
  by (rule setRGB_getRGB_roundtrip) (simp_all add: rgb_args_ok_def JavaSurface_initialize_def)

end
