(* ===== verification/Pisces_Renderer.thy ===== *)
theory Pisces_Renderer
  imports Pisces_Texture Pisces_Surface
begin

text \<open>
  The renderer's state machine (native-prism-sw/PiscesRenderer.inl): setters mark parts of the
  derived state invalid in the bits of \<open>_rendererState\<close>, and \<open>VALIDATE_BLITTING\<close> recomputes what
  is marked before anything is drawn. Freed buffers (\<open>_texture_free\<close>, \<open>_mask_free\<close>) are
  not part of the model.
\<close>

section \<open>Constants\<close>

definition INVALID_COLOR_ALPHA_MAP :: jint where "INVALID_COLOR_ALPHA_MAP = 1"
definition INVALID_PAINT_ALPHA_MAP :: jint where "INVALID_PAINT_ALPHA_MAP = 2"
definition INVALID_INTERNAL_COLOR :: jint where "INVALID_INTERNAL_COLOR = 8"
definition INVALID_RENDERER_SURFACE :: jint where "INVALID_RENDERER_SURFACE = 16"
definition INVALID_COMPOSITE_DEPENDED_ROUTINES :: jint where "INVALID_COMPOSITE_DEPENDED_ROUTINES = 32"
definition INVALID_PAINT_DEPENDED_ROUTINES :: jint where "INVALID_PAINT_DEPENDED_ROUTINES = 64"
definition INVALID_MASK_DEPENDED_ROUTINES :: jint where "INVALID_MASK_DEPENDED_ROUTINES = 128"

definition INVALID_BLITTING_MASK :: jint where
  "INVALID_BLITTING_MASK = INVALID_INTERNAL_COLOR OR INVALID_RENDERER_SURFACE OR
     INVALID_COMPOSITE_DEPENDED_ROUTINES OR INVALID_PAINT_DEPENDED_ROUTINES OR
     INVALID_MASK_DEPENDED_ROUTINES"

definition INVALID_ALL :: jint where
  "INVALID_ALL = INVALID_COLOR_ALPHA_MAP OR INVALID_PAINT_ALPHA_MAP OR INVALID_BLITTING_MASK"

definition COMPOSITE_CLEAR :: jint where "COMPOSITE_CLEAR = 0"
definition COMPOSITE_SRC :: jint where "COMPOSITE_SRC = 1"
definition COMPOSITE_SRC_OVER :: jint where "COMPOSITE_SRC_OVER = 2"

definition NO_MASK :: jint where "NO_MASK = 0"
definition ALPHA_MASK :: jint where "ALPHA_MASK = 1"
definition LCD_ALPHA_MASK :: jint where "LCD_ALPHA_MASK = 2"

definition IMAGE_MODE_NORMAL :: jint where "IMAGE_MODE_NORMAL = 1"

lemmas renderer_consts = INVALID_COLOR_ALPHA_MAP_def INVALID_PAINT_ALPHA_MAP_def
  INVALID_INTERNAL_COLOR_def INVALID_RENDERER_SURFACE_def INVALID_COMPOSITE_DEPENDED_ROUTINES_def
  INVALID_PAINT_DEPENDED_ROUTINES_def INVALID_MASK_DEPENDED_ROUTINES_def INVALID_BLITTING_MASK_def
  INVALID_ALL_def COMPOSITE_CLEAR_def COMPOSITE_SRC_def COMPOSITE_SRC_OVER_def NO_MASK_def
  ALPHA_MASK_def LCD_ALPHA_MASK_def IMAGE_MODE_NORMAL_def TYPE_INT_ARGB_PRE_def
  PAINT_FLAT_COLOR_def PAINT_LINEAR_GRADIENT_def PAINT_RADIAL_GRADIENT_def PAINT_TEXTURE8888_def
  PAINT_TEXTURE8888_MULTIPLY_def

definition mark :: "jint \<Rightarrow> renderer \<Rightarrow> renderer" where
  "mark flags rdr = rdr\<lparr>rdr_rendererState := rdr_rendererState rdr OR flags\<rparr>"

definition unmark :: "jint \<Rightarrow> renderer \<Rightarrow> renderer" where
  "unmark flags rdr = rdr\<lparr>rdr_rendererState := rdr_rendererState rdr AND NOT flags\<rparr>"

section \<open>Derived state\<close>

definition updatePaintDependedRoutines :: "renderer \<Rightarrow> renderer" where
  "updatePaintDependedRoutines rdr =
    (let gen = (\<lambda>g. rdr\<lparr>rdr_genPaint := Some g, rdr_emitRows := rdr_bl_PT rdr,
                       rdr_emitLine := rdr_el_PT rdr\<rparr>);
         rdr = (if rdr_paintMode rdr = PAINT_LINEAR_GRADIENT then gen GenLinearGradientPaint
                else if rdr_paintMode rdr = PAINT_RADIAL_GRADIENT then gen GenRadialGradientPaint
                else if rdr_paintMode rdr = PAINT_TEXTURE8888 then gen GenTexturePaint
                else if rdr_paintMode rdr = PAINT_TEXTURE8888_MULTIPLY then gen GenTexturePaintMultiply
                else if rdr_paintMode rdr = PAINT_FLAT_COLOR
                then rdr\<lparr>rdr_genPaint := None, rdr_emitRows := rdr_bl rdr, rdr_emitLine := rdr_el rdr\<rparr>
                else rdr)
     in unmark INVALID_PAINT_DEPENDED_ROUTINES rdr)"

definition updateCompositeDependedRoutines :: "renderer \<Rightarrow> renderer" where
  "updateCompositeDependedRoutines rdr =
    (let rdr = (if rdr_compositeRule rdr = COMPOSITE_SRC_OVER
                then rdr\<lparr>rdr_bl := rdr_bl_SourceOver rdr, rdr_bl_PT := rdr_bl_PT_SourceOver rdr,
                         rdr_el := rdr_el_SourceOver rdr, rdr_el_PT := rdr_el_PT_SourceOver rdr\<rparr>
                else if rdr_compositeRule rdr = COMPOSITE_SRC
                then rdr\<lparr>rdr_bl := rdr_bl_Source rdr, rdr_bl_PT := rdr_bl_PT_Source rdr,
                         rdr_el := rdr_el_Source rdr, rdr_el_PT := rdr_el_PT_Source rdr\<rparr>
                else if rdr_compositeRule rdr = COMPOSITE_CLEAR
                then rdr\<lparr>rdr_bl := rdr_bl_Clear rdr, rdr_bl_PT := rdr_bl_PT_Clear rdr,
                         rdr_el := rdr_el_Source rdr, rdr_el_PT := rdr_el_Source rdr\<rparr>
                else rdr)
     in unmark INVALID_COMPOSITE_DEPENDED_ROUTINES (updatePaintDependedRoutines rdr))"

definition updateMaskDependedRoutines :: "renderer \<Rightarrow> renderer" where
  "updateMaskDependedRoutines rdr =
    (let rdr = (if rdr_maskType rdr = NO_MASK
                then rdr\<lparr>rdr_bl_SourceOver := rdr_bl_SourceOverNoMask rdr,
                         rdr_bl_PT_SourceOver := rdr_bl_PT_SourceOverNoMask rdr,
                         rdr_bl_Source := rdr_bl_SourceNoMask rdr,
                         rdr_bl_PT_Source := rdr_bl_PT_SourceNoMask rdr\<rparr>
                else if rdr_maskType rdr = ALPHA_MASK
                then rdr\<lparr>rdr_bl_SourceOver := rdr_bl_SourceOverMask rdr,
                         rdr_bl_PT_SourceOver := rdr_bl_PT_SourceOverMask rdr,
                         rdr_bl_Source := rdr_bl_SourceMask rdr,
                         rdr_bl_PT_Source := rdr_bl_PT_SourceMask rdr\<rparr>
                else if rdr_maskType rdr = LCD_ALPHA_MASK
                then rdr\<lparr>rdr_bl_SourceOver := rdr_bl_SourceOverLCDMask rdr,
                         rdr_bl_PT_SourceOver := rdr_bl_PT_SourceOverLCDMask rdr,
                         rdr_bl_Source := rdr_bl_SourceLCDMask rdr,
                         rdr_bl_PT_Source := rdr_bl_PT_SourceLCDMask rdr\<rparr>
                else rdr)
     in unmark INVALID_MASK_DEPENDED_ROUTINES (updateCompositeDependedRoutines rdr))"

definition updateSurfaceDependedRoutines :: "renderer \<Rightarrow> renderer" where
  "updateSurfaceDependedRoutines rdr =
     updateMaskDependedRoutines
      (if rdr_imageType rdr = TYPE_INT_ARGB_PRE
       then rdr\<lparr>rdr_bl_SourceOverNoMask := Some BlitSrcOver8888_pre,
                rdr_bl_PT_SourceOverNoMask := Some BlitPTSrcOver8888_pre,
                rdr_bl_SourceNoMask := Some BlitSrc8888_pre,
                rdr_bl_PT_SourceNoMask := Some BlitPTSrc8888_pre,
                rdr_bl_SourceOverMask := Some BlitSrcOverMask8888_pre,
                rdr_bl_PT_SourceOverMask := Some BlitPTSrcOverMask8888_pre,
                rdr_bl_SourceMask := Some BlitSrcMask8888_pre,
                rdr_bl_PT_SourceMask := Some BlitPTSrcMask8888_pre,
                rdr_bl_SourceOverLCDMask := Some BlitSrcOverLCDMask8888_pre,
                rdr_bl_PT_SourceOverLCDMask := None, rdr_bl_SourceLCDMask := None,
                rdr_bl_PT_SourceLCDMask := None,
                rdr_bl_Clear := Some BlitSrc8888_pre, rdr_bl_PT_Clear := Some BlitSrc8888_pre,
                rdr_clearRect_set := True,
                rdr_el_Source := Some EmitLineSource8888_pre,
                rdr_el_SourceOver := Some EmitLineSourceOver8888_pre,
                rdr_el_PT_Source := Some EmitLinePTSource8888_pre,
                rdr_el_PT_SourceOver := Some EmitLinePTSourceOver8888_pre\<rparr>
       else rdr)"

definition updateInternalColor :: "renderer \<Rightarrow> renderer" where
  "updateInternalColor rdr = unmark INVALID_INTERNAL_COLOR
    (if rdr_compositeRule rdr = COMPOSITE_CLEAR
     then rdr\<lparr>rdr_cred := 0, rdr_cgreen := 0, rdr_cblue := 0, rdr_calpha := 0\<rparr>
     else rdr\<lparr>rdr_cred := rdr_ured rdr, rdr_cgreen := rdr_ugreen rdr, rdr_cblue := rdr_ublue rdr,
              rdr_calpha := rdr_ualpha rdr\<rparr>)"

definition updateRendererSurface :: "renderer \<Rightarrow> renderer" where
  "updateRendererSurface rdr =
    (let sf = rdr_surface rdr;
         rdr = rdr\<lparr>rdr_width := sf_width sf, rdr_height := sf_height sf, rdr_data := sf_data sf,
                   rdr_imageOffset := sf_offset sf,
                   rdr_imageScanlineStride := sf_scanlineStride sf,
                   rdr_imagePixelStride := sf_pixelStride sf\<rparr>;
         rdr = (if rdr_imageType rdr \<noteq> sf_imageType sf
                then updateSurfaceDependedRoutines
                  ((if rdr_compositeRule rdr \<noteq> COMPOSITE_SRC_OVER \<and> sf_imageType sf = TYPE_INT_ARGB_PRE
                    then mark (INVALID_COLOR_ALPHA_MAP OR INVALID_PAINT_ALPHA_MAP) rdr else rdr)
                   \<lparr>rdr_imageType := sf_imageType sf\<rparr>)
                else rdr)
     in unmark INVALID_RENDERER_SURFACE rdr)"

definition VALIDATE_BLITTING :: "renderer \<Rightarrow> renderer" where
  "VALIDATE_BLITTING rdr =
    (let state = rdr_rendererState rdr
     in if state AND INVALID_BLITTING_MASK \<noteq> 0
        then let rdr = (if state AND INVALID_RENDERER_SURFACE \<noteq> 0 then updateRendererSurface rdr else rdr);
                 rdr = (if state AND INVALID_INTERNAL_COLOR \<noteq> 0 then updateInternalColor rdr else rdr)
             in if state AND INVALID_MASK_DEPENDED_ROUTINES \<noteq> 0 then updateMaskDependedRoutines rdr
                else if state AND INVALID_COMPOSITE_DEPENDED_ROUTINES \<noteq> 0
                then updateCompositeDependedRoutines rdr
                else if state AND INVALID_PAINT_DEPENDED_ROUTINES \<noteq> 0
                then updatePaintDependedRoutines rdr
                else rdr
        else rdr)"

section \<open>Creation and setters\<close>

definition renderer_create :: "surface \<Rightarrow> renderer" where
  "renderer_create sf = (zero_renderer sf)
     \<lparr>rdr_imageType := -1, rdr_compositeRule := COMPOSITE_SRC_OVER, rdr_maskType := NO_MASK,
      rdr_paintMode := PAINT_FLAT_COLOR, rdr_surface := sf,
      rdr_clip_bbMinX := 0, rdr_clip_bbMinY := 0,
      rdr_clip_bbMaxX := sf_width sf - 1, rdr_clip_bbMaxY := sf_height sf - 1,
      rdr_rendererState := INVALID_ALL\<rparr>"

definition renderer_setClip :: "jint \<Rightarrow> jint \<Rightarrow> jint \<Rightarrow> jint \<Rightarrow> renderer \<Rightarrow> renderer" where
  "renderer_setClip minX minY width height rdr =
     rdr\<lparr>rdr_clip_bbMinX := minX, rdr_clip_bbMinY := minY,
         rdr_clip_bbMaxX := minX + width - 1, rdr_clip_bbMaxY := minY + height - 1\<rparr>"

definition setPaintMode :: "jint \<Rightarrow> renderer \<Rightarrow> renderer" where
  "setPaintMode newPaintMode rdr =
    (if rdr_paintMode rdr \<noteq> newPaintMode
     then (mark INVALID_PAINT_DEPENDED_ROUTINES rdr)
       \<lparr>rdr_texture_intData := [], rdr_prevPaintMode := rdr_paintMode rdr, rdr_paintMode := newPaintMode\<rparr>
     else rdr)"

definition renderer_setColor :: "jint \<Rightarrow> jint \<Rightarrow> jint \<Rightarrow> jint \<Rightarrow> renderer \<Rightarrow> renderer" where
  "renderer_setColor red green blue alpha rdr =
     setPaintMode PAINT_FLAT_COLOR
      (if rdr_ured rdr \<noteq> red \<or> rdr_ugreen rdr \<noteq> green \<or> rdr_ublue rdr \<noteq> blue \<or> rdr_ualpha rdr \<noteq> alpha
       then (let rdr' = mark INVALID_INTERNAL_COLOR rdr;
                 rdr' = (if rdr_ualpha rdr' \<noteq> alpha
                         then mark (INVALID_COLOR_ALPHA_MAP OR INVALID_PAINT_ALPHA_MAP) rdr' else rdr')
             in rdr'\<lparr>rdr_ured := red, rdr_ugreen := green, rdr_ublue := blue, rdr_ualpha := alpha\<rparr>)
       else rdr)"

definition renderer_setCompositeRule :: "jint \<Rightarrow> renderer \<Rightarrow> renderer" where
  "renderer_setCompositeRule compositeRule rdr =
    (if rdr_compositeRule rdr \<noteq> compositeRule
     then (let rdr' = mark (INVALID_INTERNAL_COLOR OR INVALID_COMPOSITE_DEPENDED_ROUTINES) rdr;
               rdr' = (if compositeRule = COMPOSITE_SRC_OVER \<or>
                          (compositeRule = COMPOSITE_CLEAR \<or> compositeRule = COMPOSITE_SRC) \<and>
                          rdr_imageType rdr' = TYPE_INT_ARGB_PRE
                       then mark (INVALID_COLOR_ALPHA_MAP OR INVALID_PAINT_ALPHA_MAP) rdr' else rdr')
           in rdr'\<lparr>rdr_compositeRule := compositeRule\<rparr>)
     else rdr)"

definition renderer_setMask :: "jint \<Rightarrow> jint list \<Rightarrow> jint \<Rightarrow> jint \<Rightarrow> renderer \<Rightarrow> renderer" where
  "renderer_setMask maskType data width height rdr =
     mark (INVALID_BLITTING_MASK OR INVALID_MASK_DEPENDED_ROUTINES)
      (rdr\<lparr>rdr_maskType := maskType, rdr_mask_byteData := data, rdr_mask_width := width,
           rdr_mask_height := height\<rparr>)"

definition renderer_removeMask :: "renderer \<Rightarrow> renderer" where
  "renderer_removeMask rdr =
     mark (INVALID_BLITTING_MASK OR INVALID_MASK_DEPENDED_ROUTINES)
      (rdr\<lparr>rdr_maskType := NO_MASK, rdr_mask_byteData := []\<rparr>)"

definition INVALIDATE_RENDERER_SURFACE :: "renderer \<Rightarrow> renderer" where
  "INVALIDATE_RENDERER_SURFACE rdr = mark INVALID_RENDERER_SURFACE rdr"

text \<open>
  The surface's pointer after its array was pinned. The pointer \<open>_data\<close> that the previous drawing left in the
  renderer is then stale: no pixel can be reached through it, until a validation copies the surface's.
\<close>

definition acquired :: "jint list \<Rightarrow> renderer \<Rightarrow> renderer" where
  "acquired d rdr = rdr\<lparr>rdr_data := [], rdr_surface := (rdr_surface rdr)\<lparr>sf_data := d\<rparr>\<rparr>"

section \<open>What validation establishes\<close>

text \<open>
  The routine tables of the surface type, and the selections by mask, composite rule and paint mode
  that the update functions maintain.
\<close>

definition tables_ok :: "renderer \<Rightarrow> bool" where
  "tables_ok r \<longleftrightarrow>
     rdr_bl_SourceOverNoMask r = Some BlitSrcOver8888_pre \<and>
     rdr_bl_PT_SourceOverNoMask r = Some BlitPTSrcOver8888_pre \<and>
     rdr_bl_SourceNoMask r = Some BlitSrc8888_pre \<and> rdr_bl_PT_SourceNoMask r = Some BlitPTSrc8888_pre \<and>
     rdr_bl_SourceOverMask r = Some BlitSrcOverMask8888_pre \<and>
     rdr_bl_PT_SourceOverMask r = Some BlitPTSrcOverMask8888_pre \<and>
     rdr_bl_SourceMask r = Some BlitSrcMask8888_pre \<and>
     rdr_bl_PT_SourceMask r = Some BlitPTSrcMask8888_pre \<and>
     rdr_bl_SourceOverLCDMask r = Some BlitSrcOverLCDMask8888_pre \<and>
     rdr_bl_PT_SourceOverLCDMask r = None \<and> rdr_bl_SourceLCDMask r = None \<and>
     rdr_bl_PT_SourceLCDMask r = None \<and>
     rdr_bl_Clear r = Some BlitSrc8888_pre \<and> rdr_bl_PT_Clear r = Some BlitSrc8888_pre \<and>
     rdr_clearRect_set r \<and>
     rdr_el_Source r = Some EmitLineSource8888_pre \<and>
     rdr_el_SourceOver r = Some EmitLineSourceOver8888_pre \<and>
     rdr_el_PT_Source r = Some EmitLinePTSource8888_pre \<and>
     rdr_el_PT_SourceOver r = Some EmitLinePTSourceOver8888_pre"

definition mask_sel :: "renderer \<Rightarrow> bool" where
  "mask_sel r \<longleftrightarrow>
     (rdr_bl_SourceOver r, rdr_bl_PT_SourceOver r, rdr_bl_Source r, rdr_bl_PT_Source r) =
     (if rdr_maskType r = NO_MASK
      then (rdr_bl_SourceOverNoMask r, rdr_bl_PT_SourceOverNoMask r, rdr_bl_SourceNoMask r,
            rdr_bl_PT_SourceNoMask r)
      else if rdr_maskType r = ALPHA_MASK
      then (rdr_bl_SourceOverMask r, rdr_bl_PT_SourceOverMask r, rdr_bl_SourceMask r, rdr_bl_PT_SourceMask r)
      else (rdr_bl_SourceOverLCDMask r, rdr_bl_PT_SourceOverLCDMask r, rdr_bl_SourceLCDMask r,
            rdr_bl_PT_SourceLCDMask r))"

definition comp_sel :: "renderer \<Rightarrow> bool" where
  "comp_sel r \<longleftrightarrow>
     (rdr_bl r, rdr_bl_PT r, rdr_el r, rdr_el_PT r) =
     (if rdr_compositeRule r = COMPOSITE_SRC_OVER
      then (rdr_bl_SourceOver r, rdr_bl_PT_SourceOver r, rdr_el_SourceOver r, rdr_el_PT_SourceOver r)
      else if rdr_compositeRule r = COMPOSITE_SRC
      then (rdr_bl_Source r, rdr_bl_PT_Source r, rdr_el_Source r, rdr_el_PT_Source r)
      else (rdr_bl_Clear r, rdr_bl_PT_Clear r, rdr_el_Source r, rdr_el_Source r))"

definition gen_of :: "jint \<Rightarrow> paint_routine option" where
  "gen_of mode =
    (if mode = PAINT_LINEAR_GRADIENT then Some GenLinearGradientPaint
     else if mode = PAINT_RADIAL_GRADIENT then Some GenRadialGradientPaint
     else if mode = PAINT_TEXTURE8888 then Some GenTexturePaint
     else if mode = PAINT_TEXTURE8888_MULTIPLY then Some GenTexturePaintMultiply else None)"

definition paint_sel :: "renderer \<Rightarrow> bool" where
  "paint_sel r \<longleftrightarrow>
     rdr_genPaint r = gen_of (rdr_paintMode r) \<and>
     (rdr_emitRows r, rdr_emitLine r) =
       (if rdr_paintMode r = PAINT_FLAT_COLOR then (rdr_bl r, rdr_el r) else (rdr_bl_PT r, rdr_el_PT r))"

definition color_sel :: "renderer \<Rightarrow> bool" where
  "color_sel r \<longleftrightarrow>
     (rdr_calpha r, rdr_cred r, rdr_cgreen r, rdr_cblue r) =
       (if rdr_compositeRule r = COMPOSITE_CLEAR then (0, 0, 0, 0)
        else (rdr_ualpha r, rdr_ured r, rdr_ugreen r, rdr_ublue r))"

definition config_ok :: "renderer \<Rightarrow> bool" where
  "config_ok r \<longleftrightarrow>
     rdr_paintMode r \<in> {PAINT_FLAT_COLOR, PAINT_LINEAR_GRADIENT, PAINT_RADIAL_GRADIENT,
       PAINT_TEXTURE8888, PAINT_TEXTURE8888_MULTIPLY} \<and>
     rdr_compositeRule r \<in> {COMPOSITE_CLEAR, COMPOSITE_SRC, COMPOSITE_SRC_OVER} \<and>
     rdr_maskType r \<in> {NO_MASK, ALPHA_MASK, LCD_ALPHA_MASK} \<and>
     sf_imageType (rdr_surface r) = TYPE_INT_ARGB_PRE"

text \<open>Fields an update function leaves alone.\<close>

lemma updatePaint_keeps [simp]:
  shows "rdr_bl_SourceOverNoMask (updatePaintDependedRoutines rdr) = rdr_bl_SourceOverNoMask rdr"
    "rdr_bl_PT_SourceOverNoMask (updatePaintDependedRoutines rdr) = rdr_bl_PT_SourceOverNoMask rdr"
    "rdr_bl_SourceNoMask (updatePaintDependedRoutines rdr) = rdr_bl_SourceNoMask rdr"
    "rdr_bl_PT_SourceNoMask (updatePaintDependedRoutines rdr) = rdr_bl_PT_SourceNoMask rdr"
    "rdr_bl_SourceOverMask (updatePaintDependedRoutines rdr) = rdr_bl_SourceOverMask rdr"
    "rdr_bl_PT_SourceOverMask (updatePaintDependedRoutines rdr) = rdr_bl_PT_SourceOverMask rdr"
    "rdr_bl_SourceMask (updatePaintDependedRoutines rdr) = rdr_bl_SourceMask rdr"
    "rdr_bl_PT_SourceMask (updatePaintDependedRoutines rdr) = rdr_bl_PT_SourceMask rdr"
    "rdr_bl_SourceOverLCDMask (updatePaintDependedRoutines rdr) = rdr_bl_SourceOverLCDMask rdr"
    "rdr_bl_PT_SourceOverLCDMask (updatePaintDependedRoutines rdr) = rdr_bl_PT_SourceOverLCDMask rdr"
    "rdr_bl_SourceLCDMask (updatePaintDependedRoutines rdr) = rdr_bl_SourceLCDMask rdr"
    "rdr_bl_PT_SourceLCDMask (updatePaintDependedRoutines rdr) = rdr_bl_PT_SourceLCDMask rdr"
    "rdr_bl_Clear (updatePaintDependedRoutines rdr) = rdr_bl_Clear rdr"
    "rdr_bl_PT_Clear (updatePaintDependedRoutines rdr) = rdr_bl_PT_Clear rdr"
    "rdr_el_Source (updatePaintDependedRoutines rdr) = rdr_el_Source rdr"
    "rdr_el_SourceOver (updatePaintDependedRoutines rdr) = rdr_el_SourceOver rdr"
    "rdr_el_PT_Source (updatePaintDependedRoutines rdr) = rdr_el_PT_Source rdr"
    "rdr_el_PT_SourceOver (updatePaintDependedRoutines rdr) = rdr_el_PT_SourceOver rdr"
    "rdr_clearRect_set (updatePaintDependedRoutines rdr) = rdr_clearRect_set rdr"
    "rdr_bl_SourceOver (updatePaintDependedRoutines rdr) = rdr_bl_SourceOver rdr"
    "rdr_bl_PT_SourceOver (updatePaintDependedRoutines rdr) = rdr_bl_PT_SourceOver rdr"
    "rdr_bl_Source (updatePaintDependedRoutines rdr) = rdr_bl_Source rdr"
    "rdr_bl_PT_Source (updatePaintDependedRoutines rdr) = rdr_bl_PT_Source rdr"
    "rdr_bl (updatePaintDependedRoutines rdr) = rdr_bl rdr"
    "rdr_bl_PT (updatePaintDependedRoutines rdr) = rdr_bl_PT rdr"
    "rdr_el (updatePaintDependedRoutines rdr) = rdr_el rdr"
    "rdr_el_PT (updatePaintDependedRoutines rdr) = rdr_el_PT rdr"
    "rdr_paintMode (updatePaintDependedRoutines rdr) = rdr_paintMode rdr"
    "rdr_prevPaintMode (updatePaintDependedRoutines rdr) = rdr_prevPaintMode rdr"
    "rdr_compositeRule (updatePaintDependedRoutines rdr) = rdr_compositeRule rdr"
    "rdr_maskType (updatePaintDependedRoutines rdr) = rdr_maskType rdr"
    "rdr_surface (updatePaintDependedRoutines rdr) = rdr_surface rdr"
    "rdr_imageType (updatePaintDependedRoutines rdr) = rdr_imageType rdr"
    "rdr_width (updatePaintDependedRoutines rdr) = rdr_width rdr"
    "rdr_height (updatePaintDependedRoutines rdr) = rdr_height rdr"
    "rdr_ured (updatePaintDependedRoutines rdr) = rdr_ured rdr"
    "rdr_ugreen (updatePaintDependedRoutines rdr) = rdr_ugreen rdr"
    "rdr_ublue (updatePaintDependedRoutines rdr) = rdr_ublue rdr"
    "rdr_ualpha (updatePaintDependedRoutines rdr) = rdr_ualpha rdr"
    "rdr_cred (updatePaintDependedRoutines rdr) = rdr_cred rdr"
    "rdr_cgreen (updatePaintDependedRoutines rdr) = rdr_cgreen rdr"
    "rdr_cblue (updatePaintDependedRoutines rdr) = rdr_cblue rdr"
    "rdr_calpha (updatePaintDependedRoutines rdr) = rdr_calpha rdr"
    "rdr_data (updatePaintDependedRoutines rdr) = rdr_data rdr"
    "rdr_clip_bbMinX (updatePaintDependedRoutines rdr) = rdr_clip_bbMinX rdr"
    "rdr_clip_bbMinY (updatePaintDependedRoutines rdr) = rdr_clip_bbMinY rdr"
    "rdr_clip_bbMaxX (updatePaintDependedRoutines rdr) = rdr_clip_bbMaxX rdr"
    "rdr_clip_bbMaxY (updatePaintDependedRoutines rdr) = rdr_clip_bbMaxY rdr"
    "rdr_imageScanlineStride (updatePaintDependedRoutines rdr) = rdr_imageScanlineStride rdr"
    "rdr_imagePixelStride (updatePaintDependedRoutines rdr) = rdr_imagePixelStride rdr"
    "rdr_imageOffset (updatePaintDependedRoutines rdr) = rdr_imageOffset rdr"
    "rdr_mask_byteData (updatePaintDependedRoutines rdr) = rdr_mask_byteData rdr"
    "rdr_texture_intData (updatePaintDependedRoutines rdr) = rdr_texture_intData rdr"
    "rdr_gradient_colors (updatePaintDependedRoutines rdr) = rdr_gradient_colors rdr"
    "rdr_gradient_cycleMethod (updatePaintDependedRoutines rdr) = rdr_gradient_cycleMethod rdr"
    "rdr_paint (updatePaintDependedRoutines rdr) = rdr_paint rdr"
    "rdr_rowAAInt (updatePaintDependedRoutines rdr) = rdr_rowAAInt rdr"
    "rdr_alphaMap (updatePaintDependedRoutines rdr) = rdr_alphaMap rdr"
    "rdr_maskOffset (updatePaintDependedRoutines rdr) = rdr_maskOffset rdr"
    "rdr_gammaArray (updatePaintDependedRoutines rdr) = rdr_gammaArray rdr"
    "rdr_invGammaArray (updatePaintDependedRoutines rdr) = rdr_invGammaArray rdr"
  by (simp_all add: updatePaintDependedRoutines_def unmark_def Let_def)

lemma updateComposite_keeps [simp]:
  shows "rdr_bl_SourceOverNoMask (updateCompositeDependedRoutines rdr) = rdr_bl_SourceOverNoMask rdr"
    "rdr_bl_PT_SourceOverNoMask (updateCompositeDependedRoutines rdr) = rdr_bl_PT_SourceOverNoMask rdr"
    "rdr_bl_SourceNoMask (updateCompositeDependedRoutines rdr) = rdr_bl_SourceNoMask rdr"
    "rdr_bl_PT_SourceNoMask (updateCompositeDependedRoutines rdr) = rdr_bl_PT_SourceNoMask rdr"
    "rdr_bl_SourceOverMask (updateCompositeDependedRoutines rdr) = rdr_bl_SourceOverMask rdr"
    "rdr_bl_PT_SourceOverMask (updateCompositeDependedRoutines rdr) = rdr_bl_PT_SourceOverMask rdr"
    "rdr_bl_SourceMask (updateCompositeDependedRoutines rdr) = rdr_bl_SourceMask rdr"
    "rdr_bl_PT_SourceMask (updateCompositeDependedRoutines rdr) = rdr_bl_PT_SourceMask rdr"
    "rdr_bl_SourceOverLCDMask (updateCompositeDependedRoutines rdr) = rdr_bl_SourceOverLCDMask rdr"
    "rdr_bl_PT_SourceOverLCDMask (updateCompositeDependedRoutines rdr) = rdr_bl_PT_SourceOverLCDMask rdr"
    "rdr_bl_SourceLCDMask (updateCompositeDependedRoutines rdr) = rdr_bl_SourceLCDMask rdr"
    "rdr_bl_PT_SourceLCDMask (updateCompositeDependedRoutines rdr) = rdr_bl_PT_SourceLCDMask rdr"
    "rdr_bl_Clear (updateCompositeDependedRoutines rdr) = rdr_bl_Clear rdr"
    "rdr_bl_PT_Clear (updateCompositeDependedRoutines rdr) = rdr_bl_PT_Clear rdr"
    "rdr_el_Source (updateCompositeDependedRoutines rdr) = rdr_el_Source rdr"
    "rdr_el_SourceOver (updateCompositeDependedRoutines rdr) = rdr_el_SourceOver rdr"
    "rdr_el_PT_Source (updateCompositeDependedRoutines rdr) = rdr_el_PT_Source rdr"
    "rdr_el_PT_SourceOver (updateCompositeDependedRoutines rdr) = rdr_el_PT_SourceOver rdr"
    "rdr_clearRect_set (updateCompositeDependedRoutines rdr) = rdr_clearRect_set rdr"
    "rdr_bl_SourceOver (updateCompositeDependedRoutines rdr) = rdr_bl_SourceOver rdr"
    "rdr_bl_PT_SourceOver (updateCompositeDependedRoutines rdr) = rdr_bl_PT_SourceOver rdr"
    "rdr_bl_Source (updateCompositeDependedRoutines rdr) = rdr_bl_Source rdr"
    "rdr_bl_PT_Source (updateCompositeDependedRoutines rdr) = rdr_bl_PT_Source rdr"
    "rdr_paintMode (updateCompositeDependedRoutines rdr) = rdr_paintMode rdr"
    "rdr_prevPaintMode (updateCompositeDependedRoutines rdr) = rdr_prevPaintMode rdr"
    "rdr_compositeRule (updateCompositeDependedRoutines rdr) = rdr_compositeRule rdr"
    "rdr_maskType (updateCompositeDependedRoutines rdr) = rdr_maskType rdr"
    "rdr_surface (updateCompositeDependedRoutines rdr) = rdr_surface rdr"
    "rdr_imageType (updateCompositeDependedRoutines rdr) = rdr_imageType rdr"
    "rdr_width (updateCompositeDependedRoutines rdr) = rdr_width rdr"
    "rdr_height (updateCompositeDependedRoutines rdr) = rdr_height rdr"
    "rdr_ured (updateCompositeDependedRoutines rdr) = rdr_ured rdr"
    "rdr_ugreen (updateCompositeDependedRoutines rdr) = rdr_ugreen rdr"
    "rdr_ublue (updateCompositeDependedRoutines rdr) = rdr_ublue rdr"
    "rdr_ualpha (updateCompositeDependedRoutines rdr) = rdr_ualpha rdr"
    "rdr_cred (updateCompositeDependedRoutines rdr) = rdr_cred rdr"
    "rdr_cgreen (updateCompositeDependedRoutines rdr) = rdr_cgreen rdr"
    "rdr_cblue (updateCompositeDependedRoutines rdr) = rdr_cblue rdr"
    "rdr_calpha (updateCompositeDependedRoutines rdr) = rdr_calpha rdr"
    "rdr_data (updateCompositeDependedRoutines rdr) = rdr_data rdr"
    "rdr_clip_bbMinX (updateCompositeDependedRoutines rdr) = rdr_clip_bbMinX rdr"
    "rdr_clip_bbMinY (updateCompositeDependedRoutines rdr) = rdr_clip_bbMinY rdr"
    "rdr_clip_bbMaxX (updateCompositeDependedRoutines rdr) = rdr_clip_bbMaxX rdr"
    "rdr_clip_bbMaxY (updateCompositeDependedRoutines rdr) = rdr_clip_bbMaxY rdr"
    "rdr_imageScanlineStride (updateCompositeDependedRoutines rdr) = rdr_imageScanlineStride rdr"
    "rdr_imagePixelStride (updateCompositeDependedRoutines rdr) = rdr_imagePixelStride rdr"
    "rdr_imageOffset (updateCompositeDependedRoutines rdr) = rdr_imageOffset rdr"
    "rdr_mask_byteData (updateCompositeDependedRoutines rdr) = rdr_mask_byteData rdr"
    "rdr_texture_intData (updateCompositeDependedRoutines rdr) = rdr_texture_intData rdr"
    "rdr_gradient_colors (updateCompositeDependedRoutines rdr) = rdr_gradient_colors rdr"
    "rdr_gradient_cycleMethod (updateCompositeDependedRoutines rdr) = rdr_gradient_cycleMethod rdr"
    "rdr_paint (updateCompositeDependedRoutines rdr) = rdr_paint rdr"
    "rdr_rowAAInt (updateCompositeDependedRoutines rdr) = rdr_rowAAInt rdr"
    "rdr_alphaMap (updateCompositeDependedRoutines rdr) = rdr_alphaMap rdr"
    "rdr_maskOffset (updateCompositeDependedRoutines rdr) = rdr_maskOffset rdr"
    "rdr_gammaArray (updateCompositeDependedRoutines rdr) = rdr_gammaArray rdr"
    "rdr_invGammaArray (updateCompositeDependedRoutines rdr) = rdr_invGammaArray rdr"
  by (simp_all add: updateCompositeDependedRoutines_def unmark_def Let_def)

lemma updateMask_keeps [simp]:
  shows "rdr_bl_SourceOverNoMask (updateMaskDependedRoutines rdr) = rdr_bl_SourceOverNoMask rdr"
    "rdr_bl_PT_SourceOverNoMask (updateMaskDependedRoutines rdr) = rdr_bl_PT_SourceOverNoMask rdr"
    "rdr_bl_SourceNoMask (updateMaskDependedRoutines rdr) = rdr_bl_SourceNoMask rdr"
    "rdr_bl_PT_SourceNoMask (updateMaskDependedRoutines rdr) = rdr_bl_PT_SourceNoMask rdr"
    "rdr_bl_SourceOverMask (updateMaskDependedRoutines rdr) = rdr_bl_SourceOverMask rdr"
    "rdr_bl_PT_SourceOverMask (updateMaskDependedRoutines rdr) = rdr_bl_PT_SourceOverMask rdr"
    "rdr_bl_SourceMask (updateMaskDependedRoutines rdr) = rdr_bl_SourceMask rdr"
    "rdr_bl_PT_SourceMask (updateMaskDependedRoutines rdr) = rdr_bl_PT_SourceMask rdr"
    "rdr_bl_SourceOverLCDMask (updateMaskDependedRoutines rdr) = rdr_bl_SourceOverLCDMask rdr"
    "rdr_bl_PT_SourceOverLCDMask (updateMaskDependedRoutines rdr) = rdr_bl_PT_SourceOverLCDMask rdr"
    "rdr_bl_SourceLCDMask (updateMaskDependedRoutines rdr) = rdr_bl_SourceLCDMask rdr"
    "rdr_bl_PT_SourceLCDMask (updateMaskDependedRoutines rdr) = rdr_bl_PT_SourceLCDMask rdr"
    "rdr_bl_Clear (updateMaskDependedRoutines rdr) = rdr_bl_Clear rdr"
    "rdr_bl_PT_Clear (updateMaskDependedRoutines rdr) = rdr_bl_PT_Clear rdr"
    "rdr_el_Source (updateMaskDependedRoutines rdr) = rdr_el_Source rdr"
    "rdr_el_SourceOver (updateMaskDependedRoutines rdr) = rdr_el_SourceOver rdr"
    "rdr_el_PT_Source (updateMaskDependedRoutines rdr) = rdr_el_PT_Source rdr"
    "rdr_el_PT_SourceOver (updateMaskDependedRoutines rdr) = rdr_el_PT_SourceOver rdr"
    "rdr_clearRect_set (updateMaskDependedRoutines rdr) = rdr_clearRect_set rdr"
    "rdr_paintMode (updateMaskDependedRoutines rdr) = rdr_paintMode rdr"
    "rdr_prevPaintMode (updateMaskDependedRoutines rdr) = rdr_prevPaintMode rdr"
    "rdr_compositeRule (updateMaskDependedRoutines rdr) = rdr_compositeRule rdr"
    "rdr_maskType (updateMaskDependedRoutines rdr) = rdr_maskType rdr"
    "rdr_surface (updateMaskDependedRoutines rdr) = rdr_surface rdr"
    "rdr_imageType (updateMaskDependedRoutines rdr) = rdr_imageType rdr"
    "rdr_width (updateMaskDependedRoutines rdr) = rdr_width rdr"
    "rdr_height (updateMaskDependedRoutines rdr) = rdr_height rdr"
    "rdr_ured (updateMaskDependedRoutines rdr) = rdr_ured rdr"
    "rdr_ugreen (updateMaskDependedRoutines rdr) = rdr_ugreen rdr"
    "rdr_ublue (updateMaskDependedRoutines rdr) = rdr_ublue rdr"
    "rdr_ualpha (updateMaskDependedRoutines rdr) = rdr_ualpha rdr"
    "rdr_cred (updateMaskDependedRoutines rdr) = rdr_cred rdr"
    "rdr_cgreen (updateMaskDependedRoutines rdr) = rdr_cgreen rdr"
    "rdr_cblue (updateMaskDependedRoutines rdr) = rdr_cblue rdr"
    "rdr_calpha (updateMaskDependedRoutines rdr) = rdr_calpha rdr"
    "rdr_data (updateMaskDependedRoutines rdr) = rdr_data rdr"
    "rdr_clip_bbMinX (updateMaskDependedRoutines rdr) = rdr_clip_bbMinX rdr"
    "rdr_clip_bbMinY (updateMaskDependedRoutines rdr) = rdr_clip_bbMinY rdr"
    "rdr_clip_bbMaxX (updateMaskDependedRoutines rdr) = rdr_clip_bbMaxX rdr"
    "rdr_clip_bbMaxY (updateMaskDependedRoutines rdr) = rdr_clip_bbMaxY rdr"
    "rdr_imageScanlineStride (updateMaskDependedRoutines rdr) = rdr_imageScanlineStride rdr"
    "rdr_imagePixelStride (updateMaskDependedRoutines rdr) = rdr_imagePixelStride rdr"
    "rdr_imageOffset (updateMaskDependedRoutines rdr) = rdr_imageOffset rdr"
    "rdr_mask_byteData (updateMaskDependedRoutines rdr) = rdr_mask_byteData rdr"
    "rdr_texture_intData (updateMaskDependedRoutines rdr) = rdr_texture_intData rdr"
    "rdr_gradient_colors (updateMaskDependedRoutines rdr) = rdr_gradient_colors rdr"
    "rdr_gradient_cycleMethod (updateMaskDependedRoutines rdr) = rdr_gradient_cycleMethod rdr"
    "rdr_paint (updateMaskDependedRoutines rdr) = rdr_paint rdr"
    "rdr_rowAAInt (updateMaskDependedRoutines rdr) = rdr_rowAAInt rdr"
    "rdr_alphaMap (updateMaskDependedRoutines rdr) = rdr_alphaMap rdr"
    "rdr_maskOffset (updateMaskDependedRoutines rdr) = rdr_maskOffset rdr"
    "rdr_gammaArray (updateMaskDependedRoutines rdr) = rdr_gammaArray rdr"
    "rdr_invGammaArray (updateMaskDependedRoutines rdr) = rdr_invGammaArray rdr"
  by (simp_all add: updateMaskDependedRoutines_def unmark_def Let_def)

lemma flag_bits:
  "(st :: int) AND 8 \<noteq> 0 \<longleftrightarrow> bit st 3" "st AND 16 \<noteq> 0 \<longleftrightarrow> bit st 4" "st AND 32 \<noteq> 0 \<longleftrightarrow> bit st 5"
  "st AND 64 \<noteq> 0 \<longleftrightarrow> bit st 6" "st AND 128 \<noteq> 0 \<longleftrightarrow> bit st 7"
  using and_exp_eq_0_iff_not_bit [of st 3] and_exp_eq_0_iff_not_bit [of st 4]
    and_exp_eq_0_iff_not_bit [of st 5] and_exp_eq_0_iff_not_bit [of st 6]
    and_exp_eq_0_iff_not_bit [of st 7] by simp_all

lemma blitting_mask_value: "INVALID_BLITTING_MASK = 248"
  by (simp add: renderer_consts)

lemma blitting_flags:
  "(st :: int) AND 248 \<noteq> 0 \<longleftrightarrow> bit st 3 \<or> bit st 4 \<or> bit st 5 \<or> bit st 6 \<or> bit st 7"
proof -
  have "(248 :: int) = 8 OR 16 OR 32 OR 64 OR 128" by simp
  then have "st AND 248 = (st AND 8) OR (st AND 16) OR (st AND 32) OR (st AND 64) OR (st AND 128)"
    by (simp only: bit.conj_disj_distrib)
  then show ?thesis using flag_bits [of st] by (auto simp: or_eq_0_iff)
qed

lemma unmark_bit:
  "bit (rdr_rendererState (unmark INVALID_PAINT_DEPENDED_ROUTINES r)) n \<longleftrightarrow> bit (rdr_rendererState r) n \<and> n \<noteq> 6"
  "bit (rdr_rendererState (unmark INVALID_COMPOSITE_DEPENDED_ROUTINES r)) n \<longleftrightarrow> bit (rdr_rendererState r) n \<and> n \<noteq> 5"
  "bit (rdr_rendererState (unmark INVALID_MASK_DEPENDED_ROUTINES r)) n \<longleftrightarrow> bit (rdr_rendererState r) n \<and> n \<noteq> 7"
  "bit (rdr_rendererState (unmark INVALID_INTERNAL_COLOR r)) n \<longleftrightarrow> bit (rdr_rendererState r) n \<and> n \<noteq> 3"
  "bit (rdr_rendererState (unmark INVALID_RENDERER_SURFACE r)) n \<longleftrightarrow> bit (rdr_rendererState r) n \<and> n \<noteq> 4"
proof -
  have u: "bit (rdr_rendererState (unmark f r)) n \<longleftrightarrow> bit (rdr_rendererState r) n \<and> n \<noteq> k"
    if "f = 2 ^ k" for f k
    using that by (auto simp: unmark_def bit_and_iff bit_not_iff bit_exp_iff)
  show "bit (rdr_rendererState (unmark INVALID_PAINT_DEPENDED_ROUTINES r)) n \<longleftrightarrow> bit (rdr_rendererState r) n \<and> n \<noteq> 6"
    "bit (rdr_rendererState (unmark INVALID_COMPOSITE_DEPENDED_ROUTINES r)) n \<longleftrightarrow> bit (rdr_rendererState r) n \<and> n \<noteq> 5"
    "bit (rdr_rendererState (unmark INVALID_MASK_DEPENDED_ROUTINES r)) n \<longleftrightarrow> bit (rdr_rendererState r) n \<and> n \<noteq> 7"
    "bit (rdr_rendererState (unmark INVALID_INTERNAL_COLOR r)) n \<longleftrightarrow> bit (rdr_rendererState r) n \<and> n \<noteq> 3"
    "bit (rdr_rendererState (unmark INVALID_RENDERER_SURFACE r)) n \<longleftrightarrow> bit (rdr_rendererState r) n \<and> n \<noteq> 4"
    by (intro u; simp add: renderer_consts)+
qed

lemma update_bits:
  "bit (rdr_rendererState (updatePaintDependedRoutines r)) n \<longleftrightarrow> bit (rdr_rendererState r) n \<and> n \<noteq> 6"
  "bit (rdr_rendererState (updateCompositeDependedRoutines r)) n \<longleftrightarrow> bit (rdr_rendererState r) n \<and> n \<notin> {5, 6}"
  "bit (rdr_rendererState (updateMaskDependedRoutines r)) n \<longleftrightarrow> bit (rdr_rendererState r) n \<and> n \<notin> {5, 6, 7}"
proof -
  show 1: "bit (rdr_rendererState (updatePaintDependedRoutines r)) n \<longleftrightarrow> bit (rdr_rendererState r) n \<and> n \<noteq> 6" for r
    by (simp add: updatePaintDependedRoutines_def Let_def unmark_bit)
  show 2: "bit (rdr_rendererState (updateCompositeDependedRoutines r)) n \<longleftrightarrow> bit (rdr_rendererState r) n \<and> n \<notin> {5, 6}" for r
    by (auto simp: updateCompositeDependedRoutines_def Let_def unmark_bit 1)
  show "bit (rdr_rendererState (updateMaskDependedRoutines r)) n \<longleftrightarrow> bit (rdr_rendererState r) n \<and> n \<notin> {5, 6, 7}"
    by (auto simp: updateMaskDependedRoutines_def Let_def unmark_bit 2)
qed

lemma paint_sel_update: "config_ok r \<Longrightarrow> paint_sel (updatePaintDependedRoutines r)"
  by (auto simp: paint_sel_def config_ok_def updatePaintDependedRoutines_def unmark_def Let_def gen_of_def
      PAINT_FLAT_COLOR_def PAINT_LINEAR_GRADIENT_def PAINT_RADIAL_GRADIENT_def PAINT_TEXTURE8888_def
      PAINT_TEXTURE8888_MULTIPLY_def)

lemma paint_sel_unmark [simp]: "paint_sel (unmark f r) = paint_sel r" "comp_sel (unmark f r) = comp_sel r"
  "mask_sel (unmark f r) = mask_sel r"
  by (simp_all add: paint_sel_def comp_sel_def mask_sel_def unmark_def)

lemma comp_sel_update:
  assumes "config_ok r"
  shows "comp_sel (updateCompositeDependedRoutines r)" "paint_sel (updateCompositeDependedRoutines r)"
proof -
  let ?r = "if rdr_compositeRule r = COMPOSITE_SRC_OVER
    then r\<lparr>rdr_bl := rdr_bl_SourceOver r, rdr_bl_PT := rdr_bl_PT_SourceOver r,
           rdr_el := rdr_el_SourceOver r, rdr_el_PT := rdr_el_PT_SourceOver r\<rparr>
    else if rdr_compositeRule r = COMPOSITE_SRC
    then r\<lparr>rdr_bl := rdr_bl_Source r, rdr_bl_PT := rdr_bl_PT_Source r,
           rdr_el := rdr_el_Source r, rdr_el_PT := rdr_el_PT_Source r\<rparr>
    else if rdr_compositeRule r = COMPOSITE_CLEAR
    then r\<lparr>rdr_bl := rdr_bl_Clear r, rdr_bl_PT := rdr_bl_PT_Clear r,
           rdr_el := rdr_el_Source r, rdr_el_PT := rdr_el_Source r\<rparr> else r"
  have e: "updateCompositeDependedRoutines r =
      unmark INVALID_COMPOSITE_DEPENDED_ROUTINES (updatePaintDependedRoutines ?r)"
    by (simp only: updateCompositeDependedRoutines_def Let_def)
  have "config_ok ?r" using assms by (auto simp: config_ok_def)
  then show "paint_sel (updateCompositeDependedRoutines r)" unfolding e by (simp only: paint_sel_unmark paint_sel_update)
  have "comp_sel ?r" using assms by (auto simp: comp_sel_def config_ok_def)
  then have "comp_sel (updatePaintDependedRoutines ?r)"
    unfolding comp_sel_def updatePaint_keeps .
  then show "comp_sel (updateCompositeDependedRoutines r)" unfolding e paint_sel_unmark .
qed

lemma mask_sel_update:
  assumes "config_ok r"
  shows "mask_sel (updateMaskDependedRoutines r)" "comp_sel (updateMaskDependedRoutines r)"
    "paint_sel (updateMaskDependedRoutines r)"
proof -
  define r' where "r' = (if rdr_maskType r = NO_MASK
    then r\<lparr>rdr_bl_SourceOver := rdr_bl_SourceOverNoMask r, rdr_bl_PT_SourceOver := rdr_bl_PT_SourceOverNoMask r,
           rdr_bl_Source := rdr_bl_SourceNoMask r, rdr_bl_PT_Source := rdr_bl_PT_SourceNoMask r\<rparr>
    else if rdr_maskType r = ALPHA_MASK
    then r\<lparr>rdr_bl_SourceOver := rdr_bl_SourceOverMask r, rdr_bl_PT_SourceOver := rdr_bl_PT_SourceOverMask r,
           rdr_bl_Source := rdr_bl_SourceMask r, rdr_bl_PT_Source := rdr_bl_PT_SourceMask r\<rparr>
    else if rdr_maskType r = LCD_ALPHA_MASK
    then r\<lparr>rdr_bl_SourceOver := rdr_bl_SourceOverLCDMask r, rdr_bl_PT_SourceOver := rdr_bl_PT_SourceOverLCDMask r,
           rdr_bl_Source := rdr_bl_SourceLCDMask r, rdr_bl_PT_Source := rdr_bl_PT_SourceLCDMask r\<rparr> else r)"
  have e: "updateMaskDependedRoutines r =
      unmark INVALID_MASK_DEPENDED_ROUTINES (updateCompositeDependedRoutines r')"
    by (simp only: updateMaskDependedRoutines_def Let_def r'_def)
  have c: "config_ok r'" using assms by (auto simp: config_ok_def r'_def)
  show "comp_sel (updateMaskDependedRoutines r)" "paint_sel (updateMaskDependedRoutines r)"
    unfolding e using comp_sel_update [OF c] by simp_all
  have "mask_sel r'" using assms by (auto simp: mask_sel_def config_ok_def r'_def)
  then have "mask_sel (updateCompositeDependedRoutines r')"
    unfolding mask_sel_def updateComposite_keeps .
  then show "mask_sel (updateMaskDependedRoutines r)" unfolding e paint_sel_unmark .
qed

end
