(* ===== verification/Pisces_Transform.thy ===== *)
theory Pisces_Transform
  imports Pisces_Renderer
begin

text \<open>
  Affine transforms (PiscesTransform.c) and the setters of PiscesRenderer.inl that install a paint
  through one: \<open>renderer_setLinearGradient\<close>, \<open>renderer_setRadialGradient\<close> and
  \<open>renderer_setTexture\<close>. Matrix entries are 16.16 fixed point; the inverse goes through single
  precision, which stays a parameter. The float fields of the renderer form a
  \<open>gradient_geometry\<close> record beside it.
\<close>

section \<open>Fixed-point matrices\<close>

record transform6 =
  m00 :: jint
  m01 :: jint
  m10 :: jint
  m11 :: jint
  m02 :: jint
  m12 :: jint

definition pisces_transform_multiply :: "transform6 \<Rightarrow> transform6 \<Rightarrow> transform6" where
  "pisces_transform_multiply d s =
     \<lparr>m00 = s32 (shr (s64 (m00 d * m00 s + m01 d * m10 s)) 16),
      m01 = s32 (shr (s64 (m00 d * m01 s + m01 d * m11 s)) 16),
      m10 = s32 (shr (s64 (m10 d * m00 s + m11 d * m10 s)) 16),
      m11 = s32 (shr (s64 (m10 d * m01 s + m11 d * m11 s)) 16),
      m02 = s32 (shr (s64 (shl (m02 d) 16 + m00 d * m02 s + m01 d * m12 s)) 16),
      m12 = s32 (shr (s64 (shl (m12 d) 16 + m10 d * m02 s + m11 d * m12 s)) 16)\<rparr>"

definition pisces_transform_invert :: "'f float_ops \<Rightarrow> transform6 \<Rightarrow> transform6" where
  "pisces_transform_invert F t =
    (let k = f_of_int F 65536; fm = (\<lambda>m. fdiv F (f_of_int F m) k);
         fm00 = fm (m00 t); fm01 = fm (m01 t); fm02 = fm (m02 t);
         fm10 = fm (m10 t); fm11 = fm (m11 t); fm12 = fm (m12 t);
         fdet = fsub F (fmul F fm00 fm11) (fmul F fm01 fm10);
         fa00 = fdiv F fm11 fdet; fa01 = fdiv F (fneg F fm01) fdet;
         fa10 = fdiv F (fneg F fm10) fdet; fa11 = fdiv F fm00 fdet;
         fa02 = fdiv F (fsub F (fmul F fm01 fm12) (fmul F fm02 fm11)) fdet;
         fa12 = fdiv F (fsub F (fmul F fm02 fm10) (fmul F fm00 fm12)) fdet;
         fix = (\<lambda>a. f_to_jint F (fmul F a k))
     in \<lparr>m00 = fix fa00, m01 = fix fa01, m10 = fix fa10, m11 = fix fa11, m02 = fix fa02, m12 = fix fa12\<rparr>)"

text \<open>A null pointer is \<open>None\<close>; \<open>same\<close> tells whether the two pointers are equal.\<close>

definition pisces_transform_equals :: "bool \<Rightarrow> transform6 option \<Rightarrow> transform6 option \<Rightarrow> bool" where
  "pisces_transform_equals same tr1 tr2 =
    (if same then True
     else case (tr1, tr2) of
       (Some a, Some b) \<Rightarrow> m00 a = m00 b \<and> m01 a = m01 b \<and> m02 a = m02 b \<and> m10 a = m10 b \<and>
         m11 a = m11 b \<and> m12 a = m12 b
     | _ \<Rightarrow> False)"

section \<open>Installing a paint\<close>

definition renderer_setLinearGradient ::
    "'f float_ops \<Rightarrow> jint \<Rightarrow> jint \<Rightarrow> jint \<Rightarrow> jint \<Rightarrow> jint list \<Rightarrow> transform6 \<Rightarrow> renderer \<Rightarrow> 'f gradient_geometry \<Rightarrow>
     renderer \<times> 'f gradient_geometry" where
  "renderer_setLinearGradient F x0 y0 x1 y1 colors transform rdr g =
    (let inv = pisces_transform_invert F transform; n = f_of_int F; k = n 65536;
         add = fadd F; sub = fsub F; mul = fmul F; dv = fdiv F;
         a00 = n (m00 inv); a01 = n (m01 inv); a02 = dv (n (m02 inv)) k;
         a10 = n (m10 inv); a11 = n (m11 inv); a12 = dv (n (m12 inv)) k;
         fx0 = dv (n x0) k; fx1 = dv (n x1) k; fy0 = dv (n y0) k; fy1 = dv (n y1) k;
         fdx = sub fx1 fx0; fdy = sub fy1 fy0;
         flensq = add (mul fdx fdx) (mul fdy fdy);
         t = add (mul fdx fx0) (mul fdy fy0)
     in ((setPaintMode PAINT_LINEAR_GRADIENT rdr)\<lparr>rdr_gradient_colors := take 256 colors\<rparr>,
         g\<lparr>lg_mx := dv (add (mul a00 fdx) (mul a10 fdy)) flensq,
           lg_my := dv (add (mul a01 fdx) (mul a11 fdy)) flensq,
           lg_b := dv (mul k (sub (add (mul a02 fdx) (mul a12 fdy)) t)) flensq\<rparr>))"

text \<open>
  The constants 0.94 and 0.97 that keep the focus inside the circle are the parameters \<open>c94\<close> and
  \<open>c97\<close>: single-precision literals.
\<close>

definition renderer_setRadialGradient ::
    "'f float_ops \<Rightarrow> 'f \<Rightarrow> 'f \<Rightarrow> jint \<Rightarrow> jint \<Rightarrow> jint \<Rightarrow> jint \<Rightarrow> jint \<Rightarrow> jint list \<Rightarrow> transform6 \<Rightarrow>
     renderer \<Rightarrow> 'f gradient_geometry \<Rightarrow> renderer \<times> 'f gradient_geometry" where
  "renderer_setRadialGradient F c94 c97 cx cy fx fy radius colors transform rdr g =
    (let inv = pisces_transform_invert F transform; n = f_of_int F; k = n 65536;
         add = fadd F; sub = fsub F; mul = fmul F; dv = fdiv F;
         a00 = dv (n (m00 inv)) k; a10 = dv (n (m10 inv)) k;
         ccx = dv (n cx) k; ccy = dv (n cy) k; ffx = dv (n fx) k; ffy = dv (n fy) k;
         r = dv (n radius) k; rsq = mul r r;
         fcx = sub ffx ccx; fcy = sub ffy ccy;
         dsq = add (mul fcx fcx) (mul fcy fcy);
         f = dv (mul r c97) (fsqrt F dsq);
         (ffx, ffy) = (if fless F (mul rsq c94) dsq
                       then (add ccx (mul f fcx), add ccy (mul f fcy)) else (ffx, ffy))
     in ((setPaintMode PAINT_RADIAL_GRADIENT rdr)\<lparr>rdr_gradient_colors := take 256 colors\<rparr>,
         g\<lparr>rg_a00 := a00, rg_a01 := dv (n (m01 inv)) k, rg_a02 := dv (n (m02 inv)) k,
           rg_a10 := a10, rg_a11 := dv (n (m11 inv)) k, rg_a12 := dv (n (m12 inv)) k,
           rg_a00a00 := mul a00 a00, rg_a10a10 := mul a10 a10, rg_a00a10 := mul a00 a10,
           rg_r := r, rg_rsq := rsq, rg_cx := ccx, rg_cy := ccy, rg_fx := ffx, rg_fy := ffy\<rparr>))"

definition renderer_setTexture ::
    "'f float_ops \<Rightarrow> jint \<Rightarrow> jint list \<Rightarrow> jint \<Rightarrow> jint \<Rightarrow> jint \<Rightarrow> bool \<Rightarrow> bool \<Rightarrow> transform6 \<Rightarrow> bool \<Rightarrow>
     jint \<Rightarrow> jint \<Rightarrow> jint \<Rightarrow> jint \<Rightarrow> renderer \<Rightarrow> renderer" where
  "renderer_setTexture F renderMode data width height stride repeat smooth transform hasAlpha
      txMin tyMin txMax tyMax rdr =
    (let c = pisces_transform_invert F transform;
         t02 = (if smooth then s64 (m02 c + shr (m00 c) 1 + shr (m01 c) 1 - 32768) else m02 c);
         t12 = (if smooth then s64 (m12 c + shr (m10 c) 1 + shr (m11 c) 1 - 32768) else m12 c);
         unit = m00 c = 65536 \<and> m11 c = 65536 \<and> m01 c = 0 \<and> m10 c = 0
     in (setPaintMode (if renderMode = IMAGE_MODE_NORMAL then PAINT_TEXTURE8888
                       else PAINT_TEXTURE8888_MULTIPLY) rdr)
       \<lparr>rdr_texture_hasAlpha := hasAlpha, rdr_texture_intData := data,
        rdr_texture_imageWidth := width, rdr_texture_imageHeight := height, rdr_texture_stride := stride,
        rdr_texture_repeat := repeat, rdr_texture_txMin := txMin, rdr_texture_tyMin := tyMin,
        rdr_texture_txMax := txMax, rdr_texture_tyMax := tyMax,
        rdr_texture_m00 := m00 c, rdr_texture_m01 := m01 c, rdr_texture_m10 := m10 c,
        rdr_texture_m11 := m11 c, rdr_texture_m02 := t02, rdr_texture_m12 := t12,
        rdr_texture_interpolate :=
          (if unit \<and> (t02 = 0 \<and> t12 = 0 \<or> t02 AND 65535 = 0 \<and> t12 AND 65535 = 0) then False else smooth),
        rdr_texture_transformType :=
          (if unit then if t02 = 0 \<and> t12 = 0 then TEXTURE_TRANSFORM_IDENTITY else TEXTURE_TRANSFORM_TRANSLATE
           else if m01 c = 0 \<and> m10 c = 0 then TEXTURE_TRANSFORM_SCALE_TRANSLATE
           else TEXTURE_TRANSFORM_GENERIC)\<rparr>)"

end
