(* ===== verification/Pisces_Driver.thy ===== *)
theory Pisces_Driver
  imports Pisces_Transform Pisces_Surface Pisces_Texture Pisces_Blit
begin

text \<open>
  The drawing entry points of JPiscesRenderer.c: filling a rectangle with fractional edges, drawing
  an image, emitting an anti-aliased row, filling under an alpha mask and clearing a rectangle.
  Each acquires the surface's pixel array, validates the renderer, sets the row state and calls
  the selected paint and blit routines. A call through a NULL routine pointer and an access outside
  an array are faults (\<open>None\<close>). Acquiring the surface sets the surface's pointer only; \<open>_data\<close> follows when
  the renderer is validated with its surface invalid. Allocations of the renderer's own buffers succeed.
\<close>

section \<open>Calls through the routine pointers\<close>

definition run_paint ::
    "'f float_ops \<Rightarrow> 'f gradient_geometry \<Rightarrow> paint_routine \<Rightarrow> renderer \<Rightarrow> jint \<Rightarrow> renderer option" where
  "run_paint F g p rdr height =
    (case p of GenLinearGradientPaint \<Rightarrow> genLinearGradientPaint F g rdr height
     | GenRadialGradientPaint \<Rightarrow> genRadialGradientPaint F g rdr height
     | GenTexturePaint \<Rightarrow> genTexturePaint rdr height
     | GenTexturePaintMultiply \<Rightarrow> genTexturePaintMultiply F g rdr height)"

definition run_line :: "line_routine \<Rightarrow> renderer \<Rightarrow> jint \<Rightarrow> jint \<Rightarrow> renderer option" where
  "run_line l rdr height frac =
    (case l of EmitLineSource8888_pre \<Rightarrow> emitLineSource8888_pre rdr height frac
     | EmitLineSourceOver8888_pre \<Rightarrow> emitLineSourceOver8888_pre rdr height frac
     | EmitLinePTSource8888_pre \<Rightarrow> emitLinePTSource8888_pre rdr height frac
     | EmitLinePTSourceOver8888_pre \<Rightarrow> emitLinePTSourceOver8888_pre rdr height frac)"

definition run_rows :: "blit_routine \<Rightarrow> renderer \<Rightarrow> jint \<Rightarrow> renderer option" where
  "run_rows b rdr height =
    (case b of BlitSrcOver8888_pre \<Rightarrow> blitSrcOver8888_pre rdr height
     | BlitPTSrcOver8888_pre \<Rightarrow> blitPTSrcOver8888_pre rdr height
     | BlitSrc8888_pre \<Rightarrow> blitSrc8888_pre rdr height
     | BlitPTSrc8888_pre \<Rightarrow> blitPTSrc8888_pre rdr height
     | BlitSrcOverMask8888_pre \<Rightarrow> blitSrcOverMask8888_pre rdr height
     | BlitPTSrcOverMask8888_pre \<Rightarrow> blitPTSrcOverMask8888_pre rdr height
     | BlitSrcMask8888_pre \<Rightarrow> blitSrcMask8888_pre rdr height
     | BlitPTSrcMask8888_pre \<Rightarrow> blitPTSrcMask8888_pre rdr height
     | BlitSrcOverLCDMask8888_pre \<Rightarrow> blitSrcOverLCDMask8888_pre rdr height)"

text \<open>\<open>ALLOC3\<close>: a paint buffer that is too short is replaced by a zeroed one of length \<open>len\<close>.\<close>

definition ALLOC3_paint :: "jint \<Rightarrow> renderer \<Rightarrow> renderer" where
  "ALLOC3_paint len rdr =
    (if int (length (rdr_paint rdr)) < len then rdr\<lparr>rdr_paint := replicate (nat len) 0\<rparr> else rdr)"

definition call_genPaint ::
    "'f float_ops \<Rightarrow> 'f gradient_geometry \<Rightarrow> jint \<Rightarrow> renderer \<Rightarrow> jint \<Rightarrow> renderer option" where
  "call_genPaint F g len rdr height =
    (case rdr_genPaint rdr of None \<Rightarrow> Some rdr
     | Some p \<Rightarrow> run_paint F g p (ALLOC3_paint len rdr) height)"

definition call_emitLine :: "renderer \<Rightarrow> jint \<Rightarrow> jint \<Rightarrow> renderer option" where
  "call_emitLine rdr height frac =
    (case rdr_emitLine rdr of None \<Rightarrow> None | Some l \<Rightarrow> run_line l rdr height frac)"

definition call_emitRows :: "renderer \<Rightarrow> jint \<Rightarrow> renderer option" where
  "call_emitRows rdr height =
    (case rdr_emitRows rdr of None \<Rightarrow> None | Some b \<Rightarrow> run_rows b rdr height)"

section \<open>Acquiring the surface\<close>

text \<open>
  \<open>ACQUIRE_SURFACE\<close> \dots\ \<open>RELEASE_SURFACE\<close> around \<open>body\<close>. An array that cannot be pinned sets the
  memory error flag, which skips the body and becomes an OutOfMemoryError. A surface whose array is
  too short leaves a NULL data pointer and a pending IllegalArgumentException, and the body runs.
\<close>

definition with_surface ::
    "jint list \<Rightarrow> bool \<Rightarrow> (renderer \<Rightarrow> renderer option) \<Rightarrow> renderer \<Rightarrow> (surface_error option \<times> renderer) option" where
  "with_surface pixels pinned body rdr =
    (case surface_acquire (rdr_surface rdr) pixels pinned of
       None \<Rightarrow> None
     | Some (Inr d) \<Rightarrow> map_option (Pair None) (body (acquired d rdr))
     | Some (Inl OutOfMemoryError) \<Rightarrow> Some (Some OutOfMemoryError, acquired [] rdr)
     | Some (Inl IllegalArgumentException) \<Rightarrow>
         map_option (Pair (Some IllegalArgumentException)) (body (acquired [] rdr)))"

section \<open>Filling a rectangle\<close>

definition IMAGE_FRAC_EDGE_KEEP :: jint where "IMAGE_FRAC_EDGE_KEEP = 0"
definition IMAGE_FRAC_EDGE_PAD :: jint where "IMAGE_FRAC_EDGE_PAD = 1"
definition IMAGE_FRAC_EDGE_TRIM :: jint where "IMAGE_FRAC_EDGE_TRIM = 2"
definition NUM_ALPHA_ROWS :: jint where "NUM_ALPHA_ROWS = 8"

text \<open>The pixel bounds of a rectangle and the coverage of its four edges in 1/65536.\<close>

record fill_box =
  x_from :: jint
  x_to :: jint
  y_from :: jint
  y_to :: jint
  lfrac :: jint
  rfrac :: jint
  tfrac :: jint
  bfrac :: jint

definition fill_edges :: "jint \<Rightarrow> jint \<Rightarrow> jint \<Rightarrow> jint \<Rightarrow> fill_box" where
  "fill_edges x y w h =
    (let r = s32 (x + w) AND 65535; b = s32 (y + h) AND 65535
     in \<lparr>x_from = shr x 16, x_to = shr (s32 (x + w)) 16 - (if r \<noteq> 0 then 0 else 1),
         y_from = shr y 16, y_to = shr (s32 (y + h)) 16 - (if b \<noteq> 0 then 0 else 1),
         lfrac = (65536 - (x AND 65535)) AND 65535, rfrac = r,
         tfrac = (65536 - (y AND 65535)) AND 65535, bfrac = b\<rparr>)"

definition edge_mode :: "jint \<Rightarrow> jint \<Rightarrow> jint \<Rightarrow> jint \<Rightarrow> jint \<times> jint" where
  "edge_mode mode inward pos frac =
    (if mode = IMAGE_FRAC_EDGE_PAD then (pos, 0)
     else if mode = IMAGE_FRAC_EDGE_TRIM then (if frac \<noteq> 0 then pos + inward else pos, 0)
     else (pos, frac))"

definition apply_edges :: "jint \<Rightarrow> jint \<Rightarrow> jint \<Rightarrow> jint \<Rightarrow> fill_box \<Rightarrow> fill_box" where
  "apply_edges lEdge rEdge tEdge bEdge b =
    (let (xf, lf) = edge_mode lEdge 1 (x_from b) (lfrac b);
         (xt, rf) = edge_mode rEdge (-1) (x_to b) (rfrac b);
         (yf, tf) = edge_mode tEdge 1 (y_from b) (tfrac b);
         (yt, bf) = edge_mode bEdge (-1) (y_to b) (bfrac b)
     in \<lparr>x_from = xf, x_to = xt, y_from = yf, y_to = yt, lfrac = lf, rfrac = rf, tfrac = tf, bfrac = bf\<rparr>)"

definition apply_clip :: "renderer \<Rightarrow> fill_box \<Rightarrow> fill_box" where
  "apply_clip rdr b =
    (let b = (if x_from b < rdr_clip_bbMinX rdr then b\<lparr>x_from := rdr_clip_bbMinX rdr, lfrac := 0\<rparr> else b);
         b = (if y_from b < rdr_clip_bbMinY rdr then b\<lparr>y_from := rdr_clip_bbMinY rdr, tfrac := 0\<rparr> else b);
         b = (if x_to b > rdr_clip_bbMaxX rdr then b\<lparr>x_to := rdr_clip_bbMaxX rdr, rfrac := 0\<rparr> else b)
     in if y_to b > rdr_clip_bbMaxY rdr then b\<lparr>y_to := rdr_clip_bbMaxY rdr, bfrac := 0\<rparr> else b)"

text \<open>A rectangle one pixel high or wide has the two opposite edges in the same pixel.\<close>

definition join_fracs :: "fill_box \<Rightarrow> fill_box" where
  "join_fracs b =
    (let b = (if y_from b = y_to b \<and> tfrac b OR bfrac b \<noteq> 0
              then b\<lparr>tfrac := (bfrac b - 65536 + tfrac b) AND 65535, bfrac := 0\<rparr> else b)
     in if x_from b = x_to b \<and> lfrac b OR rfrac b \<noteq> 0
        then b\<lparr>lfrac := (rfrac b - 65536 + lfrac b) AND 65535, rfrac := 0\<rparr> else b)"

definition emit_block ::
    "'f float_ops \<Rightarrow> 'f gradient_geometry \<Rightarrow> jint \<Rightarrow> jint \<Rightarrow> jint \<Rightarrow> renderer \<Rightarrow> renderer option" where
  "emit_block F g width rows frac rdr =
    do { rdr \<leftarrow> call_genPaint F g (width * rows) rdr rows; call_emitLine rdr rows frac }"

definition next_rows :: "jint \<Rightarrow> jint \<Rightarrow> renderer \<Rightarrow> renderer" where
  "next_rows xf rows rdr =
     rdr\<lparr>rdr_currX := xf, rdr_currY := rdr_currY rdr + rows,
         rdr_currImageOffset := s32 ((rdr_currY rdr + rows) * sf_width (rdr_surface rdr)),
         rdr_rowNum := rdr_rowNum rdr + rows\<rparr>"

function full_rows ::
    "'f float_ops \<Rightarrow> 'f gradient_geometry \<Rightarrow> jint \<Rightarrow> jint \<Rightarrow> jint \<Rightarrow> renderer \<Rightarrow> renderer option" where
  "full_rows F g width xf rows rdr =
    (if rows > 0
     then let n = min rows NUM_ALPHA_ROWS
          in do { rdr \<leftarrow> emit_block F g width n 65536 rdr;
                  full_rows F g width xf (rows - n) (next_rows xf n rdr) }
     else Some rdr)"
  by pat_completeness auto
termination by (relation "measure (\<lambda>(F, g, width, xf, rows, rdr). nat rows)") (auto simp: NUM_ALPHA_ROWS_def)

declare full_rows.simps [simp del]

definition fill_rows ::
    "'f float_ops \<Rightarrow> 'f gradient_geometry \<Rightarrow> fill_box \<Rightarrow> renderer \<Rightarrow> renderer option" where
  "fill_rows F g b rdr =
    (let rdr = VALIDATE_BLITTING (INVALIDATE_RENDERER_SURFACE rdr);
         W = sf_width (rdr_surface rdr); width = x_to b - x_from b + 1;
         j = join_fracs b;
         rdr = rdr\<lparr>rdr_minTouched := x_from b, rdr_maxTouched := x_to b, rdr_currX := x_from b,
                   rdr_currY := y_from b, rdr_alphaWidth := width,
                   rdr_currImageOffset := s32 (y_from b * W), rdr_imageScanlineStride := W,
                   rdr_imagePixelStride := 1, rdr_rowNum := 0,
                   rdr_el_lfrac := lfrac j, rdr_el_rfrac := rfrac j\<rparr>;
         rows = y_to b - y_from b + 1 - (if bfrac j \<noteq> 0 then 1 else 0)
     in do { (rdr, rows) \<leftarrow>
               (if tfrac j \<noteq> 0
                then do { rdr \<leftarrow> emit_block F g width 1 (tfrac j) rdr;
                          Some (next_rows (x_from b) 1 rdr, rows - 1) }
                else Some (rdr, rows));
             rdr \<leftarrow> full_rows F g width (x_from b) rows rdr;
             if bfrac j \<noteq> 0 then emit_block F g width 1 (bfrac j) rdr else Some rdr })"

definition fillRect ::
    "'f float_ops \<Rightarrow> 'f gradient_geometry \<Rightarrow> jint list \<Rightarrow> bool \<Rightarrow> jint \<Rightarrow> jint \<Rightarrow> jint \<Rightarrow> jint \<Rightarrow>
     jint \<Rightarrow> jint \<Rightarrow> jint \<Rightarrow> jint \<Rightarrow> renderer \<Rightarrow> (surface_error option \<times> renderer) option" where
  "fillRect F g pixels pinned x y w h lEdge rEdge tEdge bEdge rdr =
    (let b = fill_edges x y w h;
         rdr = rdr\<lparr>rdr_rectX := x_from b, rdr_rectY := y_from b\<rparr>;
         b = apply_clip rdr (apply_edges lEdge rEdge tEdge bEdge b)
     in if x_from b \<le> x_to b \<and> y_from b \<le> y_to b
        then with_surface pixels pinned (fill_rows F g b) rdr
        else Some (None, rdr))"

definition fillRectImpl ::
    "'f float_ops \<Rightarrow> 'f gradient_geometry \<Rightarrow> jint list \<Rightarrow> bool \<Rightarrow> jint \<Rightarrow> jint \<Rightarrow> jint \<Rightarrow> jint \<Rightarrow> renderer \<Rightarrow>
     (surface_error option \<times> renderer) option" where
  "fillRectImpl F g pixels pinned x y w h rdr =
     fillRect F g pixels pinned x y w h IMAGE_FRAC_EDGE_KEEP IMAGE_FRAC_EDGE_KEEP
       IMAGE_FRAC_EDGE_KEEP IMAGE_FRAC_EDGE_KEEP rdr"

section \<open>Images\<close>

text \<open>The array of the image is pinned when \<open>imagePinned\<close>; \<open>offset\<close> is where the image starts in it.\<close>

definition drawImageImpl ::
    "'f float_ops \<Rightarrow> 'f gradient_geometry \<Rightarrow> jint list \<Rightarrow> bool \<Rightarrow> jint \<Rightarrow> jint list \<Rightarrow> bool \<Rightarrow> jint \<Rightarrow> jint \<Rightarrow>
     jint \<Rightarrow> jint \<Rightarrow> transform6 \<Rightarrow> bool \<Rightarrow> jint \<Rightarrow> jint \<Rightarrow> jint \<Rightarrow> jint \<Rightarrow> jint \<Rightarrow> jint \<Rightarrow> jint \<Rightarrow> jint \<Rightarrow>
     jint \<Rightarrow> jint \<Rightarrow> jint \<Rightarrow> jint \<Rightarrow> bool \<Rightarrow> renderer \<Rightarrow> (surface_error option \<times> renderer) option" where
  "drawImageImpl F g pixels pinned imageMode data imagePinned width height offset stride transform
      repeat bboxX bboxY bboxW bboxH lEdge rEdge tEdge bEdge txMin tyMin txMax tyMax hasAlpha rdr =
    (if imagePinned
     then do { (e, rdr) \<leftarrow> fillRect F g pixels pinned bboxX bboxY bboxW bboxH lEdge rEdge tEdge bEdge
                 (renderer_setTexture F imageMode (drop (nat offset) data) width height stride repeat True
                   transform hasAlpha txMin tyMin txMax tyMax rdr);
               Some (e, rdr\<lparr>rdr_texture_intData := []\<rparr>) }
     else Some (Some OutOfMemoryError, rdr))"

definition setTextureImpl ::
    "'f float_ops \<Rightarrow> jint list \<Rightarrow> bool \<Rightarrow> jint \<Rightarrow> jint \<Rightarrow> jint \<Rightarrow> transform6 \<Rightarrow> bool \<Rightarrow> bool \<Rightarrow> renderer \<Rightarrow>
     (surface_error option \<times> renderer) option" where
  "setTextureImpl F data imagePinned width height stride transform repeat hasAlpha rdr =
    (if imagePinned
     then do { copied \<leftarrow> copy_rows data 0 stride width height (replicate (nat (width * height)) 0) 0 width;
               Some (None, renderer_setTexture F IMAGE_MODE_NORMAL copied width height width repeat True
                 transform hasAlpha 0 0 (width - 1) (height - 1) rdr) }
     else Some (Some OutOfMemoryError, rdr))"

section \<open>Gradients\<close>

definition setLinearGradientImpl ::
    "'f float_ops \<Rightarrow> jint \<Rightarrow> jint \<Rightarrow> jint \<Rightarrow> jint \<Rightarrow> jint list \<Rightarrow> bool \<Rightarrow> jint \<Rightarrow> transform6 \<Rightarrow> renderer \<Rightarrow>
     'f gradient_geometry \<Rightarrow> surface_error option \<times> renderer \<times> 'f gradient_geometry" where
  "setLinearGradientImpl F x0 y0 x1 y1 ramp rampPinned cycleMethod transform rdr g =
    (if rampPinned
     then (None, renderer_setLinearGradient F x0 y0 x1 y1 ramp transform
             (rdr\<lparr>rdr_gradient_cycleMethod := cycleMethod\<rparr>) g)
     else (Some OutOfMemoryError, rdr, g))"

definition setRadialGradientImpl ::
    "'f float_ops \<Rightarrow> 'f \<Rightarrow> 'f \<Rightarrow> jint \<Rightarrow> jint \<Rightarrow> jint \<Rightarrow> jint \<Rightarrow> jint \<Rightarrow> jint list \<Rightarrow> bool \<Rightarrow> jint \<Rightarrow> transform6 \<Rightarrow>
     renderer \<Rightarrow> 'f gradient_geometry \<Rightarrow> surface_error option \<times> renderer \<times> 'f gradient_geometry" where
  "setRadialGradientImpl F c94 c97 cx cy fx fy radius ramp rampPinned cycleMethod transform rdr g =
    (if rampPinned
     then (None, renderer_setRadialGradient F c94 c97 cx cy fx fy radius ramp transform
             (rdr\<lparr>rdr_gradient_cycleMethod := cycleMethod\<rparr>) g)
     else (Some OutOfMemoryError, rdr, g))"

section \<open>Anti-aliased rows and masks\<close>

text \<open>
  The arrays \<open>alphaMap\<close> and \<open>alphaDeltas\<close> are pinned when \<open>mapPinned\<close> and \<open>deltasPinned\<close>. The
  deltas the routine consumed are written back to the Java array.
\<close>

definition alpha_row ::
    "'f float_ops \<Rightarrow> 'f gradient_geometry \<Rightarrow> jint list \<Rightarrow> jint list \<Rightarrow> jint \<Rightarrow> jint \<Rightarrow> jint \<Rightarrow> jint \<Rightarrow>
     renderer \<Rightarrow> renderer option" where
  "alpha_row F g alphaMap alphaRow y xf xt rowNum rdr =
    (let rdr = VALIDATE_BLITTING (INVALIDATE_RENDERER_SURFACE rdr);
         xf = max xf (rdr_clip_bbMinX rdr); xt = min xt (rdr_clip_bbMaxX rdr);
         W = sf_width (rdr_surface rdr)
     in if xt \<ge> xf \<and> y \<ge> rdr_clip_bbMinY rdr \<and> y \<le> rdr_clip_bbMaxY rdr
        then let rdr = rdr\<lparr>rdr_minTouched := xf, rdr_maxTouched := xt, rdr_currX := xf, rdr_currY := y,
                   rdr_rowNum := rowNum, rdr_alphaMap := alphaMap, rdr_rowAAInt := alphaRow,
                   rdr_alphaWidth := xt - xf + 1, rdr_currImageOffset := s32 (y * W),
                   rdr_imageScanlineStride := W, rdr_imagePixelStride := 1\<rparr>
             in do { rdr \<leftarrow> call_genPaint F g (xt - xf + 1) rdr 1; call_emitRows rdr 1 }
        else Some (rdr\<lparr>rdr_rowAAInt := alphaRow\<rparr>))"

definition emitAndClearAlphaRowImpl ::
    "'f float_ops \<Rightarrow> 'f gradient_geometry \<Rightarrow> jint list \<Rightarrow> bool \<Rightarrow> jint list \<Rightarrow> bool \<Rightarrow> jint list \<Rightarrow> bool \<Rightarrow>
     jint \<Rightarrow> jint \<Rightarrow> jint \<Rightarrow> jint \<Rightarrow> renderer \<Rightarrow> (surface_error option \<times> renderer \<times> jint list) option" where
  "emitAndClearAlphaRowImpl F g pixels pinned alphaMap mapPinned alphaDeltas deltasPinned y xf xt rowNum rdr =
    (if mapPinned \<and> deltasPinned
     then do { (e, rdr') \<leftarrow> with_surface pixels pinned (alpha_row F g alphaMap alphaDeltas y xf xt rowNum) rdr;
               if e = Some OutOfMemoryError then Some (e, rdr', alphaDeltas)
               else Some (e, rdr'\<lparr>rdr_rowAAInt := []\<rparr>, rdr_rowAAInt rdr') }
     else do { (e, rdr') \<leftarrow> with_surface pixels pinned
                 (\<lambda>rdr. Some (VALIDATE_BLITTING (INVALIDATE_RENDERER_SURFACE rdr))) rdr;
               Some (Some OutOfMemoryError, rdr', alphaDeltas) })"

definition mask_row ::
    "'f float_ops \<Rightarrow> 'f gradient_geometry \<Rightarrow> jint \<Rightarrow> jint \<Rightarrow> jint \<Rightarrow> renderer \<Rightarrow> renderer option" where
  "mask_row F g width maskWidth x rdr =
    do { let rdr = rdr\<lparr>rdr_currImageOffset := s32 (rdr_currY rdr * sf_width (rdr_surface rdr))\<rparr>;
         rdr \<leftarrow> call_genPaint F g width rdr 1;
         rdr \<leftarrow> call_emitRows rdr 1;
         Some (rdr\<lparr>rdr_maskOffset := rdr_maskOffset rdr + maskWidth, rdr_rowNum := rdr_rowNum rdr + 1,
                   rdr_currX := x, rdr_currY := rdr_currY rdr + 1\<rparr>) }"

definition mask_fill ::
    "'f float_ops \<Rightarrow> 'f gradient_geometry \<Rightarrow> jint \<Rightarrow> jint \<Rightarrow> jint \<Rightarrow> jint \<Rightarrow> jint \<Rightarrow> jint list \<Rightarrow> jint \<Rightarrow>
     jint \<Rightarrow> jint \<Rightarrow> jint \<Rightarrow> renderer \<Rightarrow> renderer option" where
  "mask_fill F g minX minY maxX maxY maskType bytes x maskWidth maskHeight offset rdr =
    (let width = maxX - minX + 1; height = maxY - minY + 1;
         rdr = VALIDATE_BLITTING (INVALIDATE_RENDERER_SURFACE
                 (renderer_setMask maskType bytes maskWidth maskHeight rdr));
         rdr = rdr\<lparr>rdr_minTouched := minX, rdr_maxTouched := maxX, rdr_currX := minX, rdr_currY := minY,
                   rdr_alphaWidth := width, rdr_imageScanlineStride := sf_width (rdr_surface rdr),
                   rdr_imagePixelStride := 1, rdr_rowNum := 0, rdr_maskOffset := offset\<rparr>
     in do { rdr \<leftarrow> for_up 0 (nat height) (\<lambda>_. mask_row F g width maskWidth x) rdr;
             Some (renderer_removeMask rdr) })"

definition fillAlphaMask ::
    "'f float_ops \<Rightarrow> 'f gradient_geometry \<Rightarrow> jint list \<Rightarrow> bool \<Rightarrow> jint \<Rightarrow> jint \<Rightarrow> jint \<Rightarrow> jint \<Rightarrow> jint \<Rightarrow>
     jint list \<Rightarrow> bool \<Rightarrow> jint \<Rightarrow> jint \<Rightarrow> jint \<Rightarrow> jint \<Rightarrow> renderer \<Rightarrow> (surface_error option \<times> renderer) option" where
  "fillAlphaMask F g pixels pinned minX minY maxX maxY maskType bytes maskPinned x maskWidth maskHeight offset rdr =
    (if maxX \<ge> minX \<and> maxY \<ge> minY
     then if maskPinned
          then with_surface pixels pinned
                 (mask_fill F g minX minY maxX maxY maskType bytes x maskWidth maskHeight offset) rdr
          else map_option (\<lambda>(e, rdr). (Some OutOfMemoryError, rdr)) (with_surface pixels pinned Some rdr)
     else Some (None, rdr))"

definition fillAlphaMaskImpl ::
    "'f float_ops \<Rightarrow> 'f gradient_geometry \<Rightarrow> jint list \<Rightarrow> bool \<Rightarrow> jint list \<Rightarrow> bool \<Rightarrow> jint \<Rightarrow> jint \<Rightarrow> jint \<Rightarrow>
     jint \<Rightarrow> jint \<Rightarrow> renderer \<Rightarrow> (surface_error option \<times> renderer) option" where
  "fillAlphaMaskImpl F g pixels pinned bytes maskPinned x y maskWidth maskHeight offset rdr =
    (let minX = max x (rdr_clip_bbMinX rdr); minY = max y (rdr_clip_bbMinY rdr);
         maxX = min (x + maskWidth - 1) (rdr_clip_bbMaxX rdr);
         maxY = min (y + maskHeight - 1) (rdr_clip_bbMaxY rdr);
         maskOffset = offset + (minY - y) * maskWidth + minX - x
     in fillAlphaMask F g pixels pinned minX minY maxX maxY ALPHA_MASK bytes maskPinned x
          maskWidth maskHeight maskOffset rdr)"

definition fillLCDAlphaMaskImpl ::
    "'f float_ops \<Rightarrow> 'f gradient_geometry \<Rightarrow> jint list \<Rightarrow> bool \<Rightarrow> jint list \<Rightarrow> bool \<Rightarrow> jint \<Rightarrow> jint \<Rightarrow> jint \<Rightarrow>
     jint \<Rightarrow> jint \<Rightarrow> renderer \<Rightarrow> (surface_error option \<times> renderer) option" where
  "fillLCDAlphaMaskImpl F g pixels pinned bytes maskPinned x y maskWidth maskHeight offset rdr =
    (let minX = max x (rdr_clip_bbMinX rdr); minY = max y (rdr_clip_bbMinY rdr);
         maxX = min (x + cdiv maskWidth 3 - 1) (rdr_clip_bbMaxX rdr);
         maxY = min (y + maskHeight - 1) (rdr_clip_bbMaxY rdr);
         maskOffset = offset + (minY - y) * maskWidth + (minX - x) * 3
     in fillAlphaMask F g pixels pinned minX minY maxX maxY LCD_ALPHA_MASK bytes maskPinned x
          maskWidth maskHeight maskOffset rdr)"

section \<open>Clearing a rectangle\<close>

definition renderer_clearRect :: "jint \<Rightarrow> jint \<Rightarrow> jint \<Rightarrow> jint \<Rightarrow> renderer \<Rightarrow> renderer option" where
  "renderer_clearRect x y w h rdr =
    (let maxX = s32 (x + w - 1); maxY = s32 (y + h - 1);
         rdr = VALIDATE_BLITTING rdr;
         x = max (max x 0) (rdr_clip_bbMinX rdr); y = max (max y 0) (rdr_clip_bbMinY rdr);
         maxX = min (min maxX (rdr_width rdr - 1)) (rdr_clip_bbMaxX rdr);
         maxY = min (min maxY (rdr_height rdr - 1)) (rdr_clip_bbMaxY rdr)
     in if x \<le> maxX \<and> y \<le> maxY
        then if rdr_clearRect_set rdr then clearRect8888_any rdr x y (maxX - x + 1) (maxY - y + 1) else None
        else Some rdr)"

definition clearRectImpl ::
    "jint list \<Rightarrow> bool \<Rightarrow> jint \<Rightarrow> jint \<Rightarrow> jint \<Rightarrow> jint \<Rightarrow> renderer \<Rightarrow> (surface_error option \<times> renderer) option" where
  "clearRectImpl pixels pinned x y w h rdr =
     with_surface pixels pinned
       (\<lambda>rdr. renderer_clearRect x y w h ((INVALIDATE_RENDERER_SURFACE rdr)
          \<lparr>rdr_imagePixelStride := 1, rdr_imageScanlineStride := sf_width (rdr_surface rdr)\<rparr>)) rdr"

section \<open>Coordinates\<close>

text \<open>
  \<open>toPiscesCoords\<close> turns the bits of a single-precision number into 16.16 fixed point. A shift by
  32 or more is undefined in C (\<open>None\<close>).
\<close>

definition toPiscesCoords :: "32 word \<Rightarrow> jint option" where
  "toPiscesCoords ff =
    (let gg = (ff AND 0xFFFFFF) OR 0x800000;
         shift = 134 - uint ((drop_bit 23 ff) AND 0xFF);
         sgn = drop_bit 31 ff
     in if \<bar>shift\<bar> \<ge> 32 then None
        else let gg = (if shift < 0 then push_bit (nat (- shift)) gg else drop_bit (nat shift) gg);
                 gg = (gg XOR (- sgn)) + sgn;
                 gg = gg AND (if ff \<noteq> 0 then -1 else 0)
             in Some (sint gg))"

end
