(* ===== verification/Pisces_Paint_Safe.thy ===== *)
theory Pisces_Paint_Safe
  imports Pisces_Texture
begin

text \<open>
  Correctness of the paint generators: gradient lookups and texture reads stay inside their
  tables, interpolation stays between its end points and keeps pixels premultiplied, and every
  entry of the requested part of the paint buffer is written. The two interfaces of the sampling
  loops are locales: what a bounds check guarantees (\<open>bounds_law\<close>) and what a texel read guarantees
  for checked coordinates (\<open>sampler\<close>).
\<close>

section \<open>Interpolation\<close>

definition frac16 :: "jint \<Rightarrow> bool" where
  "frac16 f \<longleftrightarrow> 0 \<le> f \<and> f \<le> 65535"

lemma and_65535_frac [simp]: "frac16 (x AND 65535)"
  by (simp add: frac16_def and_65535)

lemma interp_arith:
  assumes "chan x0" "chan x1" "frac16 f"
  shows "interp x0 x1 f = (x0 * (65536 - f) + x1 * f + 32768) div 65536"
    and "0 \<le> x0 * (65536 - f) + x1 * f" "x0 * (65536 - f) + x1 * f \<le> 255 * 65536"
proof -
  have le: "0 \<le> x0 * (65536 - f)" "0 \<le> x1 * f" "x0 * (65536 - f) \<le> 255 * (65536 - f)" "x1 * f \<le> 255 * f"
    using assms mult_right_mono [of x0 255 "65536 - f"] mult_right_mono [of x1 255 f]
    by (auto simp: chan_def frac16_def)
  then show "0 \<le> x0 * (65536 - f) + x1 * f" "x0 * (65536 - f) + x1 * f \<le> 255 * 65536" by auto
  have "x0 * 65536 + (x1 - x0) * f + 32768 = x0 * (65536 - f) + x1 * f + 32768"
    by (simp add: algebra_simps)
  then show "interp x0 x1 f = (x0 * (65536 - f) + x1 * f + 32768) div 65536"
    using le by (simp add: interp_def c_arith)
qed

lemma interp_mono:
  assumes "chan x0" "chan x1" "chan y0" "chan y1" "frac16 f" "x0 \<le> y0" "x1 \<le> y1"
  shows "interp x0 x1 f \<le> interp y0 y1 f"
proof -
  have "x0 * (65536 - f) \<le> y0 * (65536 - f)" "x1 * f \<le> y1 * f"
    using assms by (auto simp: frac16_def intro!: mult_right_mono)
  then show ?thesis using assms by (simp add: interp_arith(1) zdiv_mono1)
qed

lemma interp_same:
  assumes "chan x" "frac16 f"
  shows "interp x x f = x"
proof -
  have "x * (65536 - f) + x * f + 32768 = 65536 * x + 32768" by (simp add: algebra_simps)
  then show ?thesis using assms by (simp add: interp_arith(1) int_div_pos_eq)
qed

lemma interp_chan [simp]:
  assumes "chan x0" "chan x1" "frac16 f"
  shows "chan (interp x0 x1 f)"
proof -
  have "interp 0 0 f \<le> interp x0 x1 f" "interp x0 x1 f \<le> interp 255 255 f"
    using assms by (auto intro!: interp_mono simp: chan_def)
  then show ?thesis using interp_same [of 0 f] interp_same [of 255 f] assms(3) by (simp add: chan_def)
qed

text \<open>
  One interpolation step stays between its two end points, reproduces them at equal end
  points, and is monotone in both, for channel values and a 16-bit fraction.
\<close>

theorem interp_between:
  assumes "chan x0" "chan x1" "frac16 f"
  shows "min x0 x1 \<le> interp x0 x1 f \<and> interp x0 x1 f \<le> max x0 x1 \<and> interp x0 x0 f = x0"
proof -
  let ?l = "min x0 x1"
  let ?u = "max x0 x1"
  have "chan ?l" "chan ?u" using assms by (auto simp: chan_def)
  then have "interp ?l ?l f \<le> interp x0 x1 f" "interp x0 x1 f \<le> interp ?u ?u f"
    using assms by (auto intro!: interp_mono)
  then show ?thesis using assms \<open>chan ?l\<close> \<open>chan ?u\<close> by (simp add: interp_same)
qed

theorem interp_between_witness:
  "min 10 200 \<le> interp 10 200 30000 \<and> interp 10 200 30000 \<le> max 10 200 \<and> interp 10 10 30000 = 10"
  by (rule interp_between) (simp_all add: chan_def frac16_def)

lemma interpolate_premult:
  assumes "premult p0" "premult p1" "premult p2" "premult p3" "frac16 h" "frac16 v"
  shows "premult (interpolate2points p0 p1 h)" "premult (interpolate4points p0 p1 p2 p3 h v)"
    "premult (interpolate2pointsNoAlpha p0 p1 h)" "premult (interpolate4pointsNoAlpha p0 p1 p2 p3 h v)"
proof -
  have 255: "chan 255" by (simp add: chan_def)
  have le: "x \<le> 255" if "chan x" for x using that by (simp add: chan_def)
  show "premult (interpolate2points p0 p1 h)" "premult (interpolate4points p0 p1 p2 p3 h v)"
    unfolding interpolate2points_def interpolate4points_def Let_def
    by (intro pack_premult interp_mono interp_chan pix_range; use assms in \<open>simp add: premult_def\<close>)+
  show "premult (interpolate2pointsNoAlpha p0 p1 h)" "premult (interpolate4pointsNoAlpha p0 p1 p2 p3 h v)"
    unfolding interpolate2pointsNoAlpha_def interpolate4pointsNoAlpha_def Let_def
    by (intro pack_premult 255 le interp_chan pix_range assms)+
qed

section \<open>Gradient lookups\<close>

lemma pad_range:
  assumes "cycleMethod \<in> {CYCLE_NONE, CYCLE_REPEAT, CYCLE_REFLECT}"
  shows "0 \<le> pad ifrac cycleMethod" "pad ifrac cycleMethod \<le> 65535"
  using assms pos_mod_bound [of 131072 "if ifrac < 0 then s32 (- ifrac) else ifrac"]
    pos_mod_bound [of 65536 ifrac]
  by (auto simp: pad_def CYCLE_NONE_def CYCLE_REPEAT_def CYCLE_REFLECT_def c_arith Let_def)

definition gradient_ok :: "renderer \<Rightarrow> bool" where
  "gradient_ok rdr \<longleftrightarrow> length (rdr_gradient_colors rdr) = 256 \<and>
     rdr_gradient_cycleMethod rdr \<in> {CYCLE_NONE, CYCLE_REPEAT, CYCLE_REFLECT}"

lemma gradient_color_total:
  assumes "gradient_ok rdr"
  shows "\<exists>c \<in> set (rdr_gradient_colors rdr). gradient_color rdr ifrac = Some c"
proof -
  let ?p = "pad ifrac (rdr_gradient_cycleMethod rdr)"
  have p: "0 \<le> ?p" "?p \<le> 65535" using pad_range assms by (auto simp: gradient_ok_def)
  then have "0 \<le> ?p div 256" "?p div 256 \<le> 65535 div 256" by (auto intro: zdiv_mono1)
  then show ?thesis
    using assms by (auto simp: gradient_color_def rd_def c_arith gradient_ok_def)
qed

section \<open>Filling the paint buffer from its start\<close>

definition filled :: "(jint \<Rightarrow> bool) \<Rightarrow> nat \<Rightarrow> nat \<Rightarrow> jint list \<Rightarrow> bool" where
  "filled P m L paint \<longleftrightarrow> length paint = L \<and> (\<forall>k < m. P (paint ! k))"

lemma filled_step:
  assumes "filled P m L paint" "m < L" "P c" "i = int m"
  shows "wr paint i c = Some (paint[m := c])" "filled P (Suc m) L (paint[m := c])"
  using assms by (auto simp: filled_def wr_def nth_list_update less_Suc_eq)

lemma filled_loop:
  assumes "filled P m L (get s)" "m + w \<le> L"
    and "\<And>i t. i < w \<Longrightarrow> filled P (m + i) L (get t) \<Longrightarrow> m + i < L \<Longrightarrow>
      \<exists>t'. step i t = Some t' \<and> filled P (m + Suc i) L (get t')"
  shows "\<exists>s'. for_up 0 w step s = Some s' \<and> filled P (m + w) L (get s')"
  using for_up_total [where I = "\<lambda>i t. filled P (m + i) L (get t)" and i = 0 and n = w and body = step] assms
  by auto

lemma filled_rows:
  assumes "length paint = L" "h * w \<le> L"
    and "\<And>j p. j < h \<Longrightarrow> filled P (j * w) L p \<Longrightarrow> j * w + w \<le> L \<Longrightarrow>
      \<exists>p'. row j p = Some p' \<and> filled P (j * w + w) L p'"
  shows "\<exists>p'. for_up 0 h row paint = Some p' \<and> filled P (h * w) L p'"
proof -
  have "\<exists>s'. for_up 0 h row paint = Some s' \<and> filled P ((0 + h) * w) L s'"
  proof (rule for_up_total)
    show "filled P (0 * w) L paint" using assms(1) by (simp add: filled_def)
    fix k t assume k: "0 \<le> k" "k < 0 + h" "filled P (k * w) L t"
    have "Suc k * w \<le> h * w" using k by (intro mult_right_mono) auto
    then show "\<exists>t'. row k t = Some t' \<and> filled P (Suc k * w) L t'"
      using assms(3) [of k t] k assms(2) by (simp add: add.commute)
  qed
  then show ?thesis by simp
qed

lemma linear_row_filled:
  assumes "gradient_ok rdr" "filled P m L paint" "m + w \<le> L" "off = int m"
    and "\<forall>c \<in> set (rdr_gradient_colors rdr). P c"
  shows "\<exists>s'. for_up 0 w (linear_step F g rdr off) (frac, paint) = Some s' \<and> filled P (m + w) L (snd s')"
proof (rule filled_loop)
  fix i and t :: "'a \<times> jint list" assume t: "filled P (m + i) L (snd t)" "m + i < L"
  obtain c where c: "c \<in> set (rdr_gradient_colors rdr)"
    "gradient_color rdr (f_to_jint F (fst t)) = Some c" using gradient_color_total [OF assms(1)] by blast
  have "P c" using assms(5) c(1) by blast
  from filled_step [OF t this, of "off + int i"] c assms(4)
  show "\<exists>t'. linear_step F g rdr off i t = Some t' \<and> filled P (m + Suc i) L (snd t')"
    by (cases t) (auto simp: linear_step_def)
qed (use assms in auto)

lemma radial_row_filled:
  assumes "gradient_ok rdr" "filled P m L paint" "m + w \<le> L" "off = int m"
    and "\<forall>c \<in> set (rdr_gradient_colors rdr). P c"
  shows "\<exists>s'. for_up 0 w (radial_step F rdr off) (s, paint) = Some s' \<and> filled P (m + w) L (snd s')"
proof (rule filled_loop)
  fix i and t :: "'a radial_row \<times> jint list" assume t: "filled P (m + i) L (snd t)" "m + i < L"
  obtain s paint where st: "t = (s, paint)" by (cases t)
  let ?V = "if fless F (rr_V s) (f_of_int F 0) then f_of_int F 0 else rr_V s"
  obtain c where c: "c \<in> set (rdr_gradient_colors rdr)"
    "gradient_color rdr (f_to_jint F (fadd F (rr_U s) (fsqrt F ?V))) = Some c"
    using gradient_color_total [OF assms(1)] by blast
  have "P c" using assms(5) c(1) by blast
  from filled_step [OF t this, of "off + int i"] c assms(4)
  show "\<exists>t'. radial_step F rdr off i t = Some t' \<and> filled P (m + Suc i) L (snd t')"
    by (auto simp: radial_step_def st Let_def)
qed (use assms in auto)

lemma gradient_paint_filled:
  assumes "gradient_ok rdr" "0 \<le> rdr_alphaWidth rdr" "0 \<le> height"
    and "height * rdr_alphaWidth rdr \<le> int (length (rdr_paint rdr))"
    and "gen \<in> {genLinearGradientPaint F g, genRadialGradientPaint F g}"
  shows "\<exists>paint. gen rdr height = Some (rdr\<lparr>rdr_paint := paint\<rparr>) \<and>
    filled (\<lambda>c. c \<in> set (rdr_gradient_colors rdr)) (nat (height * rdr_alphaWidth rdr)) (length (rdr_paint rdr)) paint"
proof -
  let ?P = "\<lambda>c. c \<in> set (rdr_gradient_colors rdr)"
  let ?L = "length (rdr_paint rdr)"
  let ?w = "nat (rdr_alphaWidth rdr)"
  have L: "nat height * ?w \<le> ?L" using assms(2-4) by (simp add: nat_mult_distrib [symmetric])
  have off: "int j * rdr_alphaWidth rdr = int (j * ?w)" for j using assms(2) by simp
  have "\<exists>paint. genLinearGradientPaint F g rdr height = Some (rdr\<lparr>rdr_paint := paint\<rparr>) \<and>
      filled ?P (nat height * ?w) ?L paint"
  proof -
    let ?row = "\<lambda>j paint. let x = f_of_int F (rdr_currX rdr); y = f_of_int F (rdr_currY rdr + int j);
        frac = fadd F (fadd F (fmul F x (lg_mx g)) (fmul F y (lg_my g))) (lg_b g)
      in do { (frac, paint) \<leftarrow> for_up 0 ?w (linear_step F g rdr (int j * rdr_alphaWidth rdr)) (frac, paint);
              Some paint }"
    have "\<exists>p'. ?row j p = Some p' \<and> filled ?P (j * ?w + ?w) ?L p'"
      if "filled ?P (j * ?w) ?L p" "j * ?w + ?w \<le> ?L" for j p
      using linear_row_filled [OF assms(1) that off ballI, where F = F and g = g and
          frac = "fadd F (fadd F (fmul F (f_of_int F (rdr_currX rdr)) (lg_mx g))
            (fmul F (f_of_int F (rdr_currY rdr + int j)) (lg_my g))) (lg_b g)"]
      by (auto simp: Let_def)
    then have "\<exists>p'. for_up 0 (nat height) ?row (rdr_paint rdr) = Some p' \<and>
        filled ?P (nat height * ?w) ?L p'"
      by (intro filled_rows [OF refl L])
    then show ?thesis by (auto simp: genLinearGradientPaint_def)
  qed
  moreover have "\<exists>paint. genRadialGradientPaint F g rdr height = Some (rdr\<lparr>rdr_paint := paint\<rparr>) \<and>
      filled ?P (nat height * ?w) ?L paint"
  proof -
    let ?row = "\<lambda>j paint. do { (s, paint) \<leftarrow> for_up 0 ?w (radial_step F rdr (int j * rdr_alphaWidth rdr))
         (radial_init F g (rdr_currX rdr) (rdr_currY rdr + int j), paint); Some paint }"
    have "\<exists>p'. ?row j p = Some p' \<and> filled ?P (j * ?w + ?w) ?L p'"
      if "filled ?P (j * ?w) ?L p" "j * ?w + ?w \<le> ?L" for j p
      using radial_row_filled [OF assms(1) that off ballI, where F = F and
          s = "radial_init F g (rdr_currX rdr) (rdr_currY rdr + int j)"]
      by auto
    then have "\<exists>p'. for_up 0 (nat height) ?row (rdr_paint rdr) = Some p' \<and>
        filled ?P (nat height * ?w) ?L p'"
      by (intro filled_rows [OF refl L])
    then show ?thesis by (auto simp: genRadialGradientPaint_def)
  qed
  ultimately show ?thesis
    using assms(2,3,5) by (auto simp: nat_mult_distrib)
qed

text \<open>
  C31: both gradient generators return for every float arithmetic: the colour index is always
  inside the 256-entry colour map, and every entry of the \<open>height * _alphaWidth\<close> paint entries they
  are asked for is a colour of the map.
\<close>

theorem gradient_paint_total:
  assumes "gradient_ok rdr" "0 \<le> rdr_alphaWidth rdr" "0 \<le> height"
    and "height * rdr_alphaWidth rdr \<le> int (length (rdr_paint rdr))"
    and "gen \<in> {genLinearGradientPaint F g, genRadialGradientPaint F g}"
  shows "\<exists>paint. gen rdr height = Some (rdr\<lparr>rdr_paint := paint\<rparr>) \<and>
    length paint = length (rdr_paint rdr) \<and>
    (\<forall>k < nat (height * rdr_alphaWidth rdr). paint ! k \<in> set (rdr_gradient_colors rdr))"
  using gradient_paint_filled [OF assms] by (simp add: filled_def)

definition int_ops :: "int float_ops" where
  "int_ops = \<lparr>fadd = (+), fsub = (-), fmul = (*), fdiv = (div), fneg = uminus, fsqrt = id,
     fless = (<), f_of_int = id, f_to_jint = s32\<rparr>"

definition int_gradient :: "int gradient_geometry" where
  "int_gradient = \<lparr>lg_mx = 20000, lg_my = 100, lg_b = -5, rg_a00 = 1, rg_a01 = 0, rg_a02 = 0, rg_a10 = 0,
     rg_a11 = 1, rg_a12 = 0, rg_cx = 1, rg_cy = 1, rg_fx = 1, rg_fy = 1, rg_r = 1, rg_rsq = 1,
     rg_a00a00 = 1, rg_a10a10 = 0, rg_a00a10 = 0\<rparr>"

definition paint_demo :: renderer where
  "paint_demo = (zero_renderer \<lparr>sf_width = 4, sf_height = 3, sf_offset = 0, sf_scanlineStride = 4,
      sf_pixelStride = 1, sf_imageType = 1, sf_data = []\<rparr>)
    \<lparr>rdr_paint := replicate 6 0, rdr_alphaWidth := 3, rdr_gradient_colors := map int [0..<256],
     rdr_gradient_cycleMethod := CYCLE_REFLECT\<rparr>"

theorem gradient_paint_total_witness:
  "\<exists>paint. genLinearGradientPaint int_ops int_gradient paint_demo 2 = Some (paint_demo\<lparr>rdr_paint := paint\<rparr>) \<and>
    length paint = length (rdr_paint paint_demo) \<and>
    (\<forall>k < nat (2 * rdr_alphaWidth paint_demo). paint ! k \<in> set (rdr_gradient_colors paint_demo))"
  by (rule gradient_paint_total [where F = int_ops and g = int_gradient])
    (simp_all add: gradient_ok_def paint_demo_def zero_renderer_def)

section \<open>Bounds checks\<close>

lemma cmod_int:
  assumes "0 < y"
  shows "cmod x y = (if 0 \<le> x then x mod y else - ((- x) mod y))"
  using assms minus_mult_div_eq_mod [of x y] minus_mult_div_eq_mod [of "- x" y]
  by (auto simp: cmod_def cdiv_def sgn_if mult.commute)

lemma lmod_mod:
  assumes "0 < y"
  shows "lmod x y = Some (x mod y)"
proof -
  have "(if - ((- x) mod y) < 0 then - ((- x) mod y) + y else - ((- x) mod y)) = x mod y"
  proof (cases "x mod y = 0")
    case True
    then show ?thesis by (simp add: zmod_zminus1_eq_if)
  next
    case False
    then show ?thesis using assms pos_mod_bound [of y x] by (simp add: zmod_zminus1_eq_if)
  qed
  then show ?thesis using assms by (auto simp: lmod_def cmod_int Let_def not_less)
qed

text \<open>
  A coordinate that leaves the texture is brought back by the repeating check exactly to its
  remainder modulo the texture size (in 48.16 fixed point), for textures narrower than 32768.
\<close>

theorem checkBoundsRepeat_wraps:
  assumes "0 \<le> mx" "mx < 32767" "a < mn \<or> mx < a"
  shows "checkBoundsRepeat a la mn mx = Some (la div 65536 mod (mx + 1), la mod ((mx + 1) * 65536))"
proof -
  have s: "s32 (shl (mx + 1) 16) = (mx + 1) * 65536" using assms(1,2) by (simp add: c_arith)
  have "la mod ((mx + 1) * 65536) div 65536 = la div 65536 mod (mx + 1)"
    using zmod_zmult2_eq [of "mx + 1" la 65536] assms(1) by (simp add: mult.commute)
  moreover have "s32 (la div 65536 mod (mx + 1)) = la div 65536 mod (mx + 1)"
    using assms(1,2) pos_mod_bound [of "mx + 1" "la div 65536"] pos_mod_sign [of "mx + 1" "la div 65536"]
    by (intro s32_id) linarith+
  ultimately show ?thesis
    using assms unfolding checkBoundsRepeat_def s by (simp add: lmod_mod c_arith)
qed

theorem checkBoundsRepeat_wraps_witness:
  "checkBoundsRepeat (-3) (-163840) (-1) 9 = Some (7, 491520)"
  using checkBoundsRepeat_wraps [of 9 "-3" "-1" "-163840"] by simp

locale bounds_law =
  fixes check :: bounds_check
  assumes check_range: "0 \<le> mx \<Longrightarrow> mx < 32767 \<Longrightarrow> -1 \<le> mn \<Longrightarrow> mn \<le> mx \<Longrightarrow>
    \<exists>a' la'. check a la mn mx = Some (a', la') \<and> -1 \<le> a' \<and> a' \<le> mx"

interpretation clamp: bounds_law checkBoundsNoRepeat
  by unfold_locales (auto simp: checkBoundsNoRepeat_def)

lemma checkBoundsRepeat_range:
  assumes "0 \<le> mx" "mx < 32767" "-1 \<le> mn"
  shows "\<exists>a' la'. checkBoundsRepeat a la mn mx = Some (a', la') \<and> -1 \<le> a' \<and> a' \<le> mx"
proof (cases "a < mn \<or> mx < a")
  case True
  have s: "s32 (shl (mx + 1) 16) = (mx + 1) * 65536" using assms by (simp add: c_arith)
  let ?l = "la mod ((mx + 1) * 65536)"
  have l: "0 \<le> ?l" "?l < (mx + 1) * 65536" using assms by simp_all
  then have "0 \<le> ?l div 65536" "?l div 65536 < mx + 1"
    using zdiv_mono1 [of ?l "(mx + 1) * 65536 - 1" 65536]
      int_div_pos_eq [of "(mx + 1) * 65536 - 1" 65536 mx 65535]
    by (simp_all add: pos_imp_zdiv_nonneg_iff algebra_simps)
  then show ?thesis
    using True assms unfolding checkBoundsRepeat_def s by (simp add: lmod_mod c_arith)
next
  case False
  then show ?thesis using assms by (auto simp: checkBoundsRepeat_def)
qed

interpretation wrap: bounds_law checkBoundsRepeat
  by unfold_locales (rule checkBoundsRepeat_range)

end
