(* ===== verification/Pisces_Texture_Safe.thy ===== *)
theory Pisces_Texture_Safe
  imports Pisces_Paint_Safe Pisces_Blit_Rows
begin

text \<open>
  Texture sampling reads inside the texture and fills the paint buffer. \<open>sampler\<close> states what the
  sampling loops rely on: for coordinates between \<open>-1\<close> and the texture's maximum, a texel read
  succeeds, and yields a premultiplied pixel from a premultiplied texture. Nearest reads need a
  texture of at least 1 by 1, interpolating reads one of at least 2 by 2.
\<close>

section \<open>The interface of a texel read\<close>

definition texture_ok :: "int \<Rightarrow> renderer \<Rightarrow> bool" where
  "texture_ok n rdr \<longleftrightarrow>
     n \<le> rdr_texture_imageWidth rdr \<and> rdr_texture_imageWidth rdr \<le> rdr_texture_stride rdr \<and>
     rdr_texture_imageWidth rdr \<le> 32767 \<and>
     n \<le> rdr_texture_imageHeight rdr \<and> rdr_texture_imageHeight rdr \<le> 32767 \<and>
     0 \<le> rdr_texture_txMin rdr \<and> rdr_texture_txMin rdr \<le> rdr_texture_txMax rdr \<and>
     rdr_texture_txMax rdr < rdr_texture_imageWidth rdr \<and>
     0 \<le> rdr_texture_tyMin rdr \<and> rdr_texture_tyMin rdr \<le> rdr_texture_tyMax rdr \<and>
     rdr_texture_tyMax rdr < rdr_texture_imageHeight rdr \<and>
     (rdr_texture_imageHeight rdr - 1) * rdr_texture_stride rdr + rdr_texture_imageWidth rdr
       \<le> int (length (rdr_texture_intData rdr))"

definition tex_premult :: "renderer \<Rightarrow> jint \<Rightarrow> bool" where
  "tex_premult rdr c \<longleftrightarrow> (premult_all (rdr_texture_intData rdr) \<longrightarrow> premult c)"

lemma texel_at:
  assumes "texture_ok n rdr" "0 \<le> x" "x < rdr_texture_imageWidth rdr"
    "0 \<le> y" "y < rdr_texture_imageHeight rdr"
  shows "\<exists>c. rd (rdr_texture_intData rdr) (y * rdr_texture_stride rdr + x) = Some c \<and> tex_premult rdr c"
proof -
  let ?s = "rdr_texture_stride rdr"
  have "0 \<le> y * ?s" using assms by (simp add: texture_ok_def)
  moreover have "y * ?s \<le> (rdr_texture_imageHeight rdr - 1) * ?s"
    using assms by (intro mult_right_mono) (auto simp: texture_ok_def)
  moreover have "(rdr_texture_imageHeight rdr - 1) * ?s + rdr_texture_imageWidth rdr
      \<le> int (length (rdr_texture_intData rdr))" using assms(1) by (simp add: texture_ok_def)
  ultimately have i: "0 \<le> y * ?s + x" "y * ?s + x < int (length (rdr_texture_intData rdr))"
    using assms(2-5) by linarith+
  then show ?thesis by (auto simp: rd_def tex_premult_def premult_all_def)
qed

locale sampler =
  fixes n :: int and texel :: texel_read
  assumes sample: "texture_ok n rdr \<Longrightarrow> -1 \<le> tx \<Longrightarrow> tx \<le> rdr_texture_txMax rdr \<Longrightarrow>
    -1 \<le> ty \<Longrightarrow> ty \<le> rdr_texture_tyMax rdr \<Longrightarrow> frac16 h \<Longrightarrow> frac16 v \<Longrightarrow>
    \<exists>c. texel rdr tx ty h v = Some c \<and> tex_premult rdr c"

interpretation nearest: sampler 1 texel_nearest
proof
  fix rdr tx ty h v
  assume t: "texture_ok 1 rdr" and b: "tx \<le> rdr_texture_txMax rdr" "ty \<le> rdr_texture_tyMax rdr"
  then have "max 0 tx < rdr_texture_imageWidth rdr" "max 0 ty < rdr_texture_imageHeight rdr"
    by (auto simp: texture_ok_def)
  then show "\<exists>c. texel_nearest rdr tx ty h v = Some c \<and> tex_premult rdr c"
    using texel_at [OF t, of "max 0 tx" "max 0 ty"] by (simp add: texel_nearest_def)
qed

lemma points_total:
  assumes "texture_ok 2 rdr" "-1 \<le> tx" "tx < rdr_texture_imageWidth rdr"
    "-1 \<le> ty" "ty < rdr_texture_imageHeight rdr"
    and "p00 = rdr_texture_intData rdr ! nat sidx"
    and "sidx = max 0 ty * rdr_texture_stride rdr + max 0 tx"
    and "pts \<in> {getPointsToInterpolate, getPointsToInterpolateRepeat}"
  shows "\<exists>q0 q1 q2. pts (rdr_texture_intData rdr) sidx (rdr_texture_stride rdr) p00
      tx (rdr_texture_imageWidth rdr - 1) ty (rdr_texture_imageHeight rdr - 1) = Some (q0, q1, q2) \<and>
    tex_premult rdr q0 \<and> tex_premult rdr q1 \<and> tex_premult rdr q2"
proof -
  let ?s = "rdr_texture_stride rdr"
  let ?d = "rdr_texture_intData rdr"
  let ?x = "max 0 tx"
  let ?y = "max 0 ty"
  let ?x1 = "?x + 1"
  let ?y1 = "?y + 1"
  have w: "2 \<le> rdr_texture_imageWidth rdr" "2 \<le> rdr_texture_imageHeight rdr"
    using assms(1) by (simp_all add: texture_ok_def)
  note t = texel_at [OF assms(1)]
  have x1: "?x1 < rdr_texture_imageWidth rdr" if "tx < rdr_texture_imageWidth rdr - 1" using that w by auto
  have y1: "?y1 < rdr_texture_imageHeight rdr" if "ty < rdr_texture_imageHeight rdr - 1" using that w by auto
  have p: "rd ?d sidx = Some p00" "tex_premult rdr p00"
    using t [of ?x ?y] w assms(2-7) by (auto simp: rd_def split: if_splits)
  have r: "\<exists>c. rd ?d (sidx + 1) = Some c \<and> tex_premult rdr c" if "tx < rdr_texture_imageWidth rdr - 1"
    using t [of ?x1 ?y] x1 [OF that] w assms(2-7) by (simp add: add.assoc)
  have d: "\<exists>c. rd ?d (sidx + ?s) = Some c \<and> tex_premult rdr c" if "ty < rdr_texture_imageHeight rdr - 1"
    using t [of ?x ?y1] y1 [OF that] w assms(2-7) by (simp add: algebra_simps)
  have rd: "\<exists>c. rd ?d (sidx + ?s + 1) = Some c \<and> tex_premult rdr c"
    if "tx < rdr_texture_imageWidth rdr - 1" "ty < rdr_texture_imageHeight rdr - 1"
    using t [of ?x1 ?y1] x1 [OF that(1)] y1 [OF that(2)] w assms(2-7)
    by (simp add: algebra_simps)
  have r0: "\<exists>c. rd ?d (sidx - ?x) = Some c \<and> tex_premult rdr c"
    using t [of 0 ?y] w assms(2-7) by simp
  have d0: "\<exists>c. rd ?d (sidx + ?s - ?x) = Some c \<and> tex_premult rdr c"
    if "ty < rdr_texture_imageHeight rdr - 1"
    using t [of 0 ?y1] w y1 [OF that] assms(2-7) by (simp add: distrib_right add.commute)
  have t0: "\<exists>c. rd ?d ?x = Some c \<and> tex_premult rdr c"
    using t [of ?x 0] w assms(2-7) by simp
  have t1: "\<exists>c. rd ?d (?x + 1) = Some c \<and> tex_premult rdr c" if "tx < rdr_texture_imageWidth rdr - 1"
    using t [of ?x1 0] w x1 [OF that] assms(2-7) by simp
  have t00: "\<exists>c. rd ?d 0 = Some c \<and> tex_premult rdr c" using t [of 0 0] w by simp
  have "\<exists>q0 q1 q2. getPointsToInterpolate ?d sidx ?s p00 tx (rdr_texture_imageWidth rdr - 1)
      ty (rdr_texture_imageHeight rdr - 1) = Some (q0, q1, q2) \<and>
    tex_premult rdr q0 \<and> tex_premult rdr q1 \<and> tex_premult rdr q2"
    using p r d rd unfolding getPointsToInterpolate_def Let_def
    by (cases "tx < rdr_texture_imageWidth rdr - 1"; cases "ty < rdr_texture_imageHeight rdr - 1") force+
  moreover have "\<exists>q0 q1 q2. getPointsToInterpolateRepeat ?d sidx ?s p00 tx (rdr_texture_imageWidth rdr - 1)
      ty (rdr_texture_imageHeight rdr - 1) = Some (q0, q1, q2) \<and>
    tex_premult rdr q0 \<and> tex_premult rdr q1 \<and> tex_premult rdr q2"
    using p r d rd r0 d0 t0 t1 t00 unfolding getPointsToInterpolateRepeat_def Let_def max.commute [of tx 0]
    by (cases "tx < rdr_texture_imageWidth rdr - 1"; cases "ty < rdr_texture_imageHeight rdr - 1") force+
  ultimately show ?thesis using assms(8) by blast
qed

lemma texel_interpolated_total:
  assumes "texture_ok 2 rdr" "-1 \<le> tx" "tx \<le> rdr_texture_txMax rdr"
    "-1 \<le> ty" "ty \<le> rdr_texture_tyMax rdr" "frac16 h" "frac16 v"
    and "pts \<in> {getPointsToInterpolate, getPointsToInterpolateRepeat}"
    and "(ip2, ip4) \<in> {(interpolate2points, interpolate4points),
                       (interpolate2pointsNoAlpha, interpolate4pointsNoAlpha)}"
  shows "\<exists>c. texel_interpolated pts ip2 ip4 rdr tx ty h v = Some c \<and> tex_premult rdr c"
proof -
  let ?sidx = "max 0 ty * rdr_texture_stride rdr + max 0 tx"
  have b: "tx < rdr_texture_imageWidth rdr" "ty < rdr_texture_imageHeight rdr"
    "0 < rdr_texture_imageWidth rdr" "0 < rdr_texture_imageHeight rdr"
    using assms(1,3,5) by (auto simp: texture_ok_def)
  obtain p00 where p: "rd (rdr_texture_intData rdr) ?sidx = Some p00" "tex_premult rdr p00"
    using texel_at [OF assms(1), of "max 0 tx" "max 0 ty"] b by auto
  then have e: "p00 = rdr_texture_intData rdr ! nat ?sidx" by (simp add: rd_def split: if_splits)
  obtain q0 q1 q2 where q: "pts (rdr_texture_intData rdr) ?sidx (rdr_texture_stride rdr) p00
      tx (rdr_texture_imageWidth rdr - 1) ty (rdr_texture_imageHeight rdr - 1) = Some (q0, q1, q2)"
    "tex_premult rdr q0" "tex_premult rdr q1" "tex_premult rdr q2"
    using points_total [OF assms(1,2) b(1) assms(4) b(2) e refl assms(8)] by blast
  show ?thesis
    using assms(6,7,9) p q
    by (auto simp: texel_interpolated_def Let_def tex_premult_def interpolate_premult)
qed

interpretation alpha: sampler 2 texel_alpha
  by unfold_locales (auto simp: texel_alpha_def intro!: texel_interpolated_total)

interpretation alpha_repeat: sampler 2 texel_alpha_repeat
  by unfold_locales (auto simp: texel_alpha_repeat_def intro!: texel_interpolated_total)

interpretation noalpha: sampler 2 texel_noalpha
  by unfold_locales (auto simp: texel_noalpha_def intro!: texel_interpolated_total)

interpretation noalpha_repeat: sampler 2 texel_noalpha_repeat
  by unfold_locales (auto simp: texel_noalpha_repeat_def intro!: texel_interpolated_total)

section \<open>The sampling loops\<close>

context sampler begin

lemma generic_step_filled:
  assumes "texture_ok n rdr" "filled (tex_premult rdr) m L paint" "m < L" "off + int i = int m"
  shows "\<exists>l1 l2 p. generic_step texel rdr off i (ltx, lty, paint) = Some (l1, l2, p) \<and>
    filled (tex_premult rdr) (Suc m) L p"
proof -
  let ?tx = "s32 (shr ltx 16)"
  let ?ty = "s32 (shr lty 16)"
  let ?in = "isInBoundsNoRepeat ?tx (rdr_texture_txMin rdr - 1) (rdr_texture_txMax rdr) \<and>
    isInBoundsNoRepeat ?ty (rdr_texture_tyMin rdr - 1) (rdr_texture_tyMax rdr)"
  have "premult 0" by (simp add: premult_def pixA_def pixR_def pixG_def pixB_def shr_def)
  have "\<exists>c. (if ?in then texel rdr ?tx ?ty (ltx AND 65535) (lty AND 65535) else Some 0) = Some c \<and>
      tex_premult rdr c"
  proof (cases ?in)
    case True
    then have "-1 \<le> ?tx" "?tx \<le> rdr_texture_txMax rdr" "-1 \<le> ?ty" "?ty \<le> rdr_texture_tyMax rdr"
      using assms(1) by (auto simp: isInBoundsNoRepeat_def texture_ok_def)
    then show ?thesis using True sample [OF assms(1), of ?tx ?ty] by simp
  next
    case False
    then show ?thesis using \<open>premult 0\<close> by (auto simp: tex_premult_def)
  qed
  then obtain c where c: "(if ?in then texel rdr ?tx ?ty (ltx AND 65535) (lty AND 65535) else Some 0) = Some c"
    "tex_premult rdr c" by blast
  show ?thesis
    using filled_step [OF assms(2,3) c(2) assms(4)] c(1) by (simp add: generic_step_def Let_def)
qed

end

locale sampling = bounds_law check + sampler n texel for check n texel
begin

lemma checked:
  assumes "texture_ok n rdr"
  shows "\<exists>a' la'. check a la (rdr_texture_txMin rdr - 1) (rdr_texture_txMax rdr) = Some (a', la') \<and>
      -1 \<le> a' \<and> a' \<le> rdr_texture_txMax rdr"
    and "\<exists>a' la'. check a la (rdr_texture_tyMin rdr - 1) (rdr_texture_tyMax rdr) = Some (a', la') \<and>
      -1 \<le> a' \<and> a' \<le> rdr_texture_tyMax rdr"
  by (rule check_range; use assms in \<open>simp add: texture_ok_def\<close>)+

lemma scale_step_filled:
  assumes "texture_ok n rdr" "filled (tex_premult rdr) m L paint" "m < L" "off + int i = int m"
  shows "\<exists>l1 l2 p. scale_step check texel rdr off i (ltx, lty, paint) = Some (l1, l2, p) \<and>
    filled (tex_premult rdr) (Suc m) L p"
proof -
  obtain tx lx where x: "check (s32 (shr ltx 16)) ltx (rdr_texture_txMin rdr - 1) (rdr_texture_txMax rdr) =
      Some (tx, lx)" "-1 \<le> tx" "tx \<le> rdr_texture_txMax rdr" using checked(1) [OF assms(1)] by blast
  obtain ty ly where y: "check (s32 (shr lty 16)) lty (rdr_texture_tyMin rdr - 1) (rdr_texture_tyMax rdr) =
      Some (ty, ly)" "-1 \<le> ty" "ty \<le> rdr_texture_tyMax rdr" using checked(2) [OF assms(1)] by blast
  obtain c where c: "texel rdr tx ty (ltx AND 65535) (lty AND 65535) = Some c" "tex_premult rdr c"
    using sample [OF assms(1) x(2,3) y(2,3) and_65535_frac and_65535_frac] by blast
  show ?thesis
    using filled_step [OF assms(2,3) c(2) assms(4)] c(1) x(1) y(1) by (simp add: scale_step_def Let_def)
qed

lemma translate_loop_filled:
  assumes "texture_ok n rdr" "filled (tex_premult rdr) m L paint" "off = int m"
    "m + nat (rdr_alphaWidth rdr) \<le> L" "-1 \<le> ty" "ty \<le> rdr_texture_tyMax rdr" "frac16 h" "frac16 v"
  shows "\<exists>p. translate_loop check texel rdr ty h v ltx off paint = Some p \<and>
    filled (tex_premult rdr) (m + nat (rdr_alphaWidth rdr)) L p"
proof -
  have "\<exists>s. for_up 0 (nat (rdr_alphaWidth rdr)) (translate_step check texel rdr ty h v off) (ltx, paint) =
      Some s \<and> filled (tex_premult rdr) (m + nat (rdr_alphaWidth rdr)) L (snd s)"
  proof (rule filled_loop)
    fix i and t :: "jlong \<times> jint list"
    assume t: "filled (tex_premult rdr) (m + i) L (snd t)" "m + i < L"
    obtain tx lx where x: "check (s32 (shr (fst t) 16)) (fst t) (rdr_texture_txMin rdr - 1)
        (rdr_texture_txMax rdr) = Some (tx, lx)" "-1 \<le> tx" "tx \<le> rdr_texture_txMax rdr"
      using checked(1) [OF assms(1)] by blast
    obtain c where c: "texel rdr tx ty h v = Some c" "tex_premult rdr c"
      using sample [OF assms(1) x(2,3) assms(5-8)] by blast
    show "\<exists>t'. translate_step check texel rdr ty h v off i t = Some t' \<and>
        filled (tex_premult rdr) (m + Suc i) L (snd t')"
      using filled_step [OF t c(2), of "off + int i"] c(1) x(1) assms(3)
      by (cases t) (simp add: translate_step_def)
  qed (use assms in auto)
  then show ?thesis by (auto simp: translate_loop_def)
qed

end

interpretation nn: sampling checkBoundsNoRepeat 1 texel_nearest by unfold_locales
interpretation rn: sampling checkBoundsRepeat 1 texel_nearest by unfold_locales
interpretation na: sampling checkBoundsNoRepeat 2 texel_alpha by unfold_locales
interpretation ra: sampling checkBoundsRepeat 2 texel_alpha_repeat by unfold_locales
interpretation no: sampling checkBoundsNoRepeat 2 texel_noalpha by unfold_locales
interpretation ro: sampling checkBoundsRepeat 2 texel_noalpha_repeat by unfold_locales

text \<open>The texture size a mode needs.\<close>

definition mode_size :: "renderer \<Rightarrow> int" where
  "mode_size rdr = (if rdr_texture_interpolate rdr then 2 else 1)"

lemma affine_rows_filled:
  assumes "texture_ok (mode_size rdr) rdr" "0 \<le> rdr_alphaWidth rdr"
    and "filled (tex_premult rdr) (j * nat (rdr_alphaWidth rdr)) L paint"
    and "j * nat (rdr_alphaWidth rdr) + nat (rdr_alphaWidth rdr) \<le> L"
    and "step \<in> {scale_row_step, generic_row_step}"
  shows "\<exists>p. affine_rows step rdr j paint = Some p \<and>
    filled (tex_premult rdr) (j * nat (rdr_alphaWidth rdr) + nat (rdr_alphaWidth rdr)) L p"
proof -
  let ?w = "nat (rdr_alphaWidth rdr)"
  let ?m = "j * ?w"
  let ?get = "\<lambda>(a :: jlong, b :: jlong, p :: jint list). p"
  have step: "\<exists>l1 l2 p. step rdr (int j * rdr_alphaWidth rdr) i (l, l', q) = Some (l1, l2, p) \<and>
      filled (tex_premult rdr) (?m + Suc i) L p"
    if "filled (tex_premult rdr) (?m + i) L q" "?m + i < L" for i l l' q
  proof -
    have off: "int j * rdr_alphaWidth rdr + int i = int (?m + i)" using assms(2) by simp
    note facts = nn.scale_step_filled rn.scale_step_filled na.scale_step_filled ra.scale_step_filled
      no.scale_step_filled ro.scale_step_filled nearest.generic_step_filled alpha.generic_step_filled
      noalpha.generic_step_filled
    show ?thesis
      using assms(1,5) facts [OF _ that off]
      by (auto simp: scale_row_step_def generic_row_step_def repeatInterpolateMode_def mode_size_def
          split: if_splits)
  qed
  have "\<exists>s. for_up 0 ?w (step rdr (int j * rdr_alphaWidth rdr)) (l, l', paint) = Some s \<and>
      filled (tex_premult rdr) (?m + ?w) L (?get s)" for l l'
    by (rule filled_loop) (use assms(3,4) step in auto)
  then show ?thesis by (fastforce simp: affine_rows_def Let_def)
qed

lemma copy_filled:
  assumes "filled P m L paint" "m + k \<le> L" "off = int m"
    and "\<And>i. i < k \<Longrightarrow> \<exists>c. rd data (f i) = Some c \<and> P c"
  shows "\<exists>p. for_up 0 k (\<lambda>i paint. do { v \<leftarrow> rd data (f i); wr paint (off + int i) v }) paint = Some p \<and>
    filled P (m + k) L p"
proof (rule filled_loop [where get = id, unfolded id_apply])
  fix i t assume t: "i < k" "filled P (m + i) L t" "m + i < L"
  obtain c where c: "rd data (f i) = Some c" "P c" using assms(4) t(1) by blast
  show "\<exists>t'. do { v \<leftarrow> rd data (f i); wr t (off + int i) v } = Some t' \<and> filled P (m + Suc i) L t'"
    using filled_step [OF t(2,3) c(2), of "off + int i"] c(1) assms(3) by simp
qed (use assms in auto)

lemma copy_split:
  fixes n tx lo hi :: int
  defines "n1 \<equiv> min n (max 0 (lo - tx))"
  defines "len \<equiv> max 0 (min (n - n1) (hi - (tx + n1) + 1))"
  assumes "0 \<le> n"
  shows "0 \<le> n1 \<and> 0 \<le> len \<and> n1 + len \<le> n \<and>
    (\<forall>i. 0 \<le> i \<and> i < len \<longrightarrow> lo \<le> tx + n1 + i \<and> tx + n1 + i \<le> hi)"
  using assms(3) unfolding n1_def len_def by (auto simp: min_def max_def split: if_splits)

lemma translate_copy_row_filled:
  assumes "texture_ok 1 rdr" "0 \<le> rdr_alphaWidth rdr" "filled (tex_premult rdr) m L paint" "off = int m"
    "m + nat (rdr_alphaWidth rdr) \<le> L" "-1 \<le> ty" "ty \<le> rdr_texture_tyMax rdr"
  shows "\<exists>p. translate_copy_row rdr ty ltx off paint = Some p \<and>
    filled (tex_premult rdr) (m + nat (rdr_alphaWidth rdr)) L p"
proof -
  let ?P = "tex_premult rdr"
  let ?data = "rdr_texture_intData rdr"
  define n where "n = max 0 (rdr_alphaWidth rdr)"
  define tx where "tx = s32 (shr ltx 16)"
  define n1 where "n1 = min n (max 0 (rdr_texture_txMin rdr - tx))"
  define len where "len = max 0 (min (n - n1) (rdr_texture_txMax rdr - (tx + n1) + 1))"
  define row where "row = max 0 ty * rdr_texture_stride rdr"
  have "0 \<le> n" by (simp add: n_def)
  from copy_split [OF this, of "rdr_texture_txMin rdr" tx "rdr_texture_txMax rdr"]
  have s: "0 \<le> n1" "0 \<le> len" "n1 + len \<le> n"
    and s': "0 \<le> i \<Longrightarrow> i < len \<Longrightarrow> rdr_texture_txMin rdr \<le> tx + n1 + i \<and> tx + n1 + i \<le> rdr_texture_txMax rdr" for i
    unfolding n1_def [symmetric] len_def [symmetric] by blast+
  have n: "nat n1 + nat len \<le> nat n" "m + nat n \<le> L" "nat n = nat (rdr_alphaWidth rdr)"
    using s(1-3) assms(2,5) by (simp_all add: n_def)
  have r: "\<exists>c. rd ?data (row + x) = Some c \<and> ?P c"
    if "rdr_texture_txMin rdr \<le> x" "x \<le> rdr_texture_txMax rdr" for x
    using texel_at [OF assms(1), of x "max 0 ty"] that assms(1,7) by (simp add: texture_ok_def row_def)
  have ends: "rdr_texture_txMin rdr \<le> rdr_texture_txMax rdr" using assms(1) by (simp add: texture_ok_def)
  obtain p1 where p1: "for_up 0 (nat n1) (\<lambda>i paint. do { v \<leftarrow> rd ?data (row + rdr_texture_txMin rdr);
      wr paint (off + int i) v }) paint = Some p1" "filled ?P (m + nat n1) L p1"
    using copy_filled [OF assms(3), of "nat n1" off ?data "\<lambda>i. row + rdr_texture_txMin rdr"]
      r [OF order_refl ends] assms(4) n(1,2) by (meson add_leD1 add_le_cancel_left order_trans)
  have "\<exists>p. for_up 0 (nat len) (\<lambda>i paint. do { v \<leftarrow> rd ?data (row + (tx + n1) + int i);
      wr paint (off + n1 + int i) v }) p1 = Some p \<and> filled ?P (m + nat n1 + nat len) L p"
  proof (rule copy_filled [OF p1(2)])
    fix i assume "i < nat len"
    then show "\<exists>c. rd ?data (row + (tx + n1) + int i) = Some c \<and> ?P c"
      using r [of "tx + n1 + int i"] s' [of "int i"] by (simp add: add.assoc)
  qed (use n s(1) assms(4) in auto)
  then obtain p2 where p2: "for_up 0 (nat len) (\<lambda>i paint. do { v \<leftarrow> rd ?data (row + (tx + n1) + int i);
      wr paint (off + n1 + int i) v }) p1 = Some p2" "filled ?P (m + nat n1 + nat len) L p2" by blast
  have "\<exists>p. for_up 0 (nat (n - n1 - len)) (\<lambda>i paint. do { v \<leftarrow> rd ?data (row + rdr_texture_txMax rdr);
      wr paint (off + n1 + len + int i) v }) p2 = Some p \<and>
    filled ?P (m + nat n1 + nat len + nat (n - n1 - len)) L p"
    by (rule copy_filled [OF p2(2)]) (use n s(1-3) assms(4) r [OF ends order_refl] in auto)
  moreover have "m + nat n1 + nat len + nat (n - n1 - len) = m + nat (rdr_alphaWidth rdr)"
    using n(3) s(1-3) by simp
  ultimately show ?thesis
    unfolding translate_copy_row_def Let_def
    by (simp only: p1(1) p2(1) bind.bind_lunit n_def [symmetric] tx_def [symmetric] n1_def [symmetric]
        len_def [symmetric] row_def [symmetric])
qed

lemma translate_rows_filled:
  assumes "texture_ok (mode_size rdr) rdr" "0 \<le> rdr_alphaWidth rdr"
    and "filled (tex_premult rdr) (j * nat (rdr_alphaWidth rdr)) L paint"
    and "j * nat (rdr_alphaWidth rdr) + nat (rdr_alphaWidth rdr) \<le> L"
  shows "\<exists>p. translate_rows rdr j paint = Some p \<and>
    filled (tex_premult rdr) (j * nat (rdr_alphaWidth rdr) + nat (rdr_alphaWidth rdr)) L p"
proof -
  let ?m = "j * nat (rdr_alphaWidth rdr)"
  have off: "int j * rdr_alphaWidth rdr = int ?m" using assms(2) by simp
  have ok: "texture_ok 1 rdr" "rdr_texture_interpolate rdr \<Longrightarrow> texture_ok 2 rdr"
    using assms(1) by (auto simp: mode_size_def texture_ok_def split: if_splits)
  have row: "\<exists>p. translate_row rdr ty h v ltx (int j * rdr_alphaWidth rdr) paint = Some p \<and>
      filled (tex_premult rdr) (?m + nat (rdr_alphaWidth rdr)) L p"
    if "-1 \<le> ty" "ty \<le> rdr_texture_tyMax rdr" "frac16 h" "frac16 v" for ty h v ltx
  proof (cases "rdr_texture_interpolate rdr")
    case True
    note loops = na.translate_loop_filled ra.translate_loop_filled no.translate_loop_filled
      ro.translate_loop_filled
    show ?thesis
      using True loops [OF ok(2) [OF True] assms(3) off assms(4) that, of ltx]
      by (simp add: translate_row_def repeatInterpolateMode_def)
  next
    case False
    then show ?thesis
      using translate_copy_row_filled [OF ok(1) assms(2,3) off assms(4) that(1,2), of ltx]
        rn.translate_loop_filled [OF ok(1) assms(3) off assms(4) that, of ltx]
      by (simp add: translate_row_def repeatInterpolateMode_def)
  qed
  let ?check = "if rdr_texture_repeat rdr then checkBoundsRepeat else checkBoundsNoRepeat"
  let ?lty = "s64 (s32 (shl (rdr_currY rdr + int j) 16) + rdr_texture_m12 rdr)"
  obtain ty la where "?check (s32 (shr ?lty 16)) ?lty (rdr_texture_tyMin rdr - 1) (rdr_texture_tyMax rdr) =
      Some (ty, la)" "-1 \<le> ty" "ty \<le> rdr_texture_tyMax rdr"
    using nn.checked(2) [OF ok(1), of "s32 (shr ?lty 16)" ?lty]
      rn.checked(2) [OF ok(1), of "s32 (shr ?lty 16)" ?lty] by (cases "rdr_texture_repeat rdr") auto
  then show ?thesis
    unfolding translate_rows_def Let_def using row [of ty "_ AND 65535" "_ AND 65535"] by simp
qed

lemma genTexturePaintTarget_filled:
  assumes "texture_ok (mode_size rdr) rdr" "0 \<le> rdr_alphaWidth rdr" "0 \<le> height"
    and "height * rdr_alphaWidth rdr \<le> int (length paint)"
    and "rdr_texture_transformType rdr \<in> {1, 2, 3, 4}"
  shows "\<exists>paint'. genTexturePaintTarget rdr paint height = Some paint' \<and>
    filled (tex_premult rdr) (nat (height * rdr_alphaWidth rdr)) (length paint) paint'"
proof -
  let ?w = "nat (rdr_alphaWidth rdr)"
  have L: "nat height * ?w \<le> length paint" using assms(2-4) by (simp add: nat_mult_distrib [symmetric])
  have "\<exists>p. for_up 0 (nat height) row paint = Some p \<and> filled (tex_premult rdr) (nat height * ?w) (length paint) p"
    if "row \<in> {translate_rows rdr, affine_rows scale_row_step rdr, affine_rows generic_row_step rdr}" for row
    by (rule filled_rows [OF refl L])
      (use that translate_rows_filled [OF assms(1,2)] affine_rows_filled [OF assms(1,2)] in auto)
  then have "\<exists>p. genTexturePaintTarget rdr paint height = Some p \<and>
      filled (tex_premult rdr) (nat height * ?w) (length paint) p"
    using assms(5) by (auto simp: genTexturePaintTarget_def TEXTURE_TRANSFORM_IDENTITY_def
        TEXTURE_TRANSFORM_TRANSLATE_def TEXTURE_TRANSFORM_SCALE_TRANSLATE_def
        TEXTURE_TRANSFORM_GENERIC_def Let_def)
  then show ?thesis
    using assms(2,3) by (auto simp: nat_mult_distrib)
qed


text \<open>A 2 by 2 texture drawn at twice its size with smoothing.\<close>

definition texture_demo :: renderer where
  "texture_demo = paint_demo\<lparr>rdr_texture_intData := [pack 255 9 9 9, 0, 0, pack 128 64 64 64],
     rdr_texture_imageWidth := 2, rdr_texture_imageHeight := 2, rdr_texture_stride := 2,
     rdr_texture_txMax := 1, rdr_texture_tyMax := 1, rdr_texture_interpolate := True,
     rdr_texture_hasAlpha := True, rdr_texture_transformType := 3,
     rdr_texture_m00 := 32768, rdr_texture_m11 := 32768, rdr_texture_m02 := -16384,
     rdr_texture_m12 := -16384\<rparr>"


section \<open>One texel is not enough\<close>

text \<open>The texel left and above of the first sample.\<close>

definition first_texel :: "renderer \<Rightarrow> jint \<times> jint" where
  "first_texel rdr =
    (let x = rdr_currX rdr; y = rdr_currY rdr;
         (ltx, lty) = (if rdr_texture_transformType rdr = TEXTURE_TRANSFORM_IDENTITY \<or>
             rdr_texture_transformType rdr = TEXTURE_TRANSFORM_TRANSLATE
           then (s64 (s32 (shl x 16) + rdr_texture_m02 rdr), s64 (s32 (shl y 16) + rdr_texture_m12 rdr))
           else (s64 (x * rdr_texture_m00 rdr + y * rdr_texture_m01 rdr + rdr_texture_m02 rdr),
                 s64 (x * rdr_texture_m10 rdr + y * rdr_texture_m11 rdr + rdr_texture_m12 rdr)))
     in (s32 (shr ltx 16), s32 (shr lty 16)))"

text \<open>
  An interpolated image one texel high, whose array holds this row only, drawn so that the first
  sample falls between the row above the image and the image.
\<close>

definition one_row_above :: "renderer \<Rightarrow> bool" where
  "one_row_above rdr \<longleftrightarrow> rdr_texture_interpolate rdr \<and> rdr_texture_imageHeight rdr = 1 \<and>
     rdr_texture_tyMin rdr = 0 \<and> rdr_texture_tyMax rdr = 0 \<and>
     int (length (rdr_texture_intData rdr)) \<le> rdr_texture_stride rdr \<and> snd (first_texel rdr) = -1 \<and>
     rdr_texture_txMin rdr - 1 \<le> fst (first_texel rdr) \<and> fst (first_texel rdr) \<le> rdr_texture_txMax rdr"

lemma points_outside:
  assumes "int (length data) \<le> stride"
  shows "getPointsToInterpolate data (max 0 tx) stride p00 tx txMax (-1) 0 = None"
    "getPointsToInterpolateRepeat data (max 0 tx) stride p00 tx txMax (-1) 0 = None"
proof -
  have "rd data (max 0 tx + stride) = None" using assms by (auto simp: rd_def)
  then show "getPointsToInterpolate data (max 0 tx) stride p00 tx txMax (-1) 0 = None"
    "getPointsToInterpolateRepeat data (max 0 tx) stride p00 tx txMax (-1) 0 = None"
    by (simp_all add: getPointsToInterpolate_def getPointsToInterpolateRepeat_def Let_def bind_eq_None_conv)
qed

lemma texel_outside:
  assumes "one_row_above rdr"
  shows "texel_alpha rdr tx (-1) hfrac vfrac = None" "texel_alpha_repeat rdr tx (-1) hfrac vfrac = None"
    "texel_noalpha rdr tx (-1) hfrac vfrac = None" "texel_noalpha_repeat rdr tx (-1) hfrac vfrac = None"
  using assms by (simp_all add: one_row_above_def texel_alpha_def texel_alpha_repeat_def texel_noalpha_def
      texel_noalpha_repeat_def texel_interpolated_def points_outside bind_eq_None_conv)

lemma check_first:
  assumes "one_row_above rdr"
  shows "checkBoundsNoRepeat (fst (first_texel rdr)) l (rdr_texture_txMin rdr - 1) (rdr_texture_txMax rdr) = Some (fst (first_texel rdr), l)"
    "checkBoundsRepeat (fst (first_texel rdr)) l (rdr_texture_txMin rdr - 1) (rdr_texture_txMax rdr) = Some (fst (first_texel rdr), l)"
    "checkBoundsNoRepeat (-1) l (rdr_texture_tyMin rdr - 1) (rdr_texture_tyMax rdr) = Some (-1, l)"
    "checkBoundsRepeat (-1) l (rdr_texture_tyMin rdr - 1) (rdr_texture_tyMax rdr) = Some (-1, l)"
  using assms by (auto simp: one_row_above_def checkBoundsNoRepeat_def checkBoundsRepeat_def)

lemma for_up_fails: "0 < n \<Longrightarrow> body i s = None \<Longrightarrow> for_up i n body s = None"
  by (cases n) simp_all

text \<open>
  C40: the bound of 2 by 2 texels of the safety theorem is needed. For an image one texel high the row below
  is taken to exist when the first sample falls above the image, as smoothing an enlarged image makes it do: for
  every such image and every transform, of any width, with or without repetition and alpha, painting reads beyond the data.
\<close>

theorem one_texel_reads_outside:
  assumes "one_row_above rdr" "rdr_texture_transformType rdr \<in> {1, 2, 3, 4}" "0 < rdr_alphaWidth rdr" "0 < height"
  shows "genTexturePaintTarget rdr paint height = None"
proof -
  note tt = TEXTURE_TRANSFORM_IDENTITY_def TEXTURE_TRANSFORM_TRANSLATE_def TEXTURE_TRANSFORM_SCALE_TRANSLATE_def
    TEXTURE_TRANSFORM_GENERIC_def
  note out = texel_outside [OF assms(1)] check_first [OF assms(1)]
  have i: "rdr_texture_interpolate rdr" and y: "snd (first_texel rdr) = -1" and
    b: "rdr_texture_txMin rdr - 1 \<le> fst (first_texel rdr)" "fst (first_texel rdr) \<le> rdr_texture_txMax rdr"
      "rdr_texture_tyMin rdr = 0" "rdr_texture_tyMax rdr = 0" using assms(1) by (simp_all add: one_row_above_def)
  have w: "0 < nat (rdr_alphaWidth rdr)" "0 < nat height" using assms(3,4) by simp_all
  define l where "l = s64 (rdr_currX rdr * rdr_texture_m00 rdr + rdr_currY rdr * rdr_texture_m01 rdr + rdr_texture_m02 rdr)"
  define m where "m = s64 (rdr_currX rdr * rdr_texture_m10 rdr + rdr_currY rdr * rdr_texture_m11 rdr + rdr_texture_m12 rdr)"
  have affine: "affine_rows step rdr 0 paint = None" if "step rdr 0 0 (l, m, paint) = None" for step
    using that w(1) by (simp add: affine_rows_def l_def m_def for_up_fails)
  have f: "s32 (shr l 16) = fst (first_texel rdr)" "s32 (shr m 16) = -1" if "rdr_texture_transformType rdr \<in> {3, 4}"
    using that y by (auto simp: first_texel_def Let_def tt l_def m_def)
  have scale: "scale_step check texel rdr 0 0 (l, m, paint) = None"
    if "rdr_texture_transformType rdr \<in> {3, 4}" "check \<in> {checkBoundsNoRepeat, checkBoundsRepeat}"
      "texel \<in> {texel_alpha, texel_alpha_repeat, texel_noalpha, texel_noalpha_repeat}" for check texel
    using that(2,3) by (auto simp: scale_step_def f [OF that(1)] out)
  have generic: "generic_step texel rdr 0 0 (l, m, paint) = None"
    if "rdr_texture_transformType rdr \<in> {3, 4}" "texel \<in> {texel_alpha, texel_noalpha}" for texel
    using that(2) b by (auto simp: generic_step_def Let_def isInBoundsNoRepeat_def f [OF that(1)] out)
  consider "rdr_texture_transformType rdr \<in> {1, 2}" | "rdr_texture_transformType rdr = 3" | "rdr_texture_transformType rdr = 4"
    using assms(2) by auto
  then show ?thesis
  proof cases
    case 1
    define l where "l = s64 (s32 (shl (rdr_currX rdr) 16) + rdr_texture_m02 rdr)"
    define m where "m = s64 (s32 (shl (rdr_currY rdr) 16) + rdr_texture_m12 rdr)"
    have f: "s32 (shr l 16) = fst (first_texel rdr)" "s32 (shr m 16) = -1"
      using 1 y by (auto simp: first_texel_def Let_def tt l_def m_def)
    have row: "translate_row rdr (-1) hf vf l off paint = None" for hf vf off
      using i w(1) by (auto simp: translate_row_def repeatInterpolateMode_def translate_loop_def translate_step_def f out
          intro!: for_up_fails)
    have "translate_rows rdr 0 paint = None"
      using row by (auto simp: translate_rows_def Let_def l_def [symmetric] m_def [symmetric] f out)
    then show ?thesis using 1 w(2) by (auto simp: genTexturePaintTarget_def Let_def tt intro: for_up_fails)
  next
    case 2
    then show ?thesis using affine [of scale_row_step] w(2) scale
      by (auto simp: genTexturePaintTarget_def Let_def tt scale_row_step_def repeatInterpolateMode_def i intro!: for_up_fails)
  next
    case 3
    then show ?thesis using affine [of generic_row_step] w(2) scale generic
      by (auto simp: genTexturePaintTarget_def Let_def tt generic_row_step_def repeatInterpolateMode_def i intro!: for_up_fails)
  qed
qed

theorem one_texel_reads_outside_witness:
  "genTexturePaintTarget (texture_demo\<lparr>rdr_texture_intData := [pack 255 9 9 9], rdr_texture_imageWidth := 1,
      rdr_texture_imageHeight := 1, rdr_texture_stride := 1, rdr_texture_txMax := 0, rdr_texture_tyMax := 0\<rparr>) [0, 0, 0] 1 = None"
  by (rule one_texel_reads_outside)
    (simp_all add: one_row_above_def first_texel_def Let_def TEXTURE_TRANSFORM_IDENTITY_def TEXTURE_TRANSFORM_TRANSLATE_def
      texture_demo_def paint_demo_def zero_renderer_def c_arith)

end
