(* ===== verification/Pisces_Blit_Spans.thy ===== *)
theory Pisces_Blit_Spans
  imports Pisces_Blit_Rows
begin

text \<open>
  The span fillers (the \<open>emitLine\<close> routines) and \<open>clearRect8888_any\<close> of PiscesBlit.c against a
  pointwise specification. The locale \<open>line_op\<close> is the interface between the row loop and the three
  pixel operations of a span (left edge, middle, right edge).
\<close>

section \<open>The interface of a span\<close>

lemma span_loop_range:
  assumes "b + n \<le> length d"
    and "\<And>j d'. j < n \<Longrightarrow> length d' = length d \<Longrightarrow>
      mid (aidx + int j) (int (b + j)) d' = Some (d'[b + j := mv (aidx + int j) (d' ! (b + j))])"
  shows "span_loop mid (int b) (int b + int n) 1 aidx d =
    Some (int (b + n), aidx + int n, upd_range b n (\<lambda>j. mv (aidx + int j)) d)"
  using assms
proof (induction n arbitrary: b aidx d)
  case 0
  then show ?case by (simp add: span_loop.simps)
next
  case (Suc n)
  let ?d = "d[b := mv aidx (d ! b)]"
  have "mid aidx (int b) d = Some ?d" using Suc.prems(2) [of 0 d] by simp
  moreover have "span_loop mid (int (Suc b)) (int (Suc b) + int n) 1 (aidx + 1) ?d =
      Some (int (Suc b + n), aidx + 1 + int n, upd_range (Suc b) n (\<lambda>j. mv (aidx + 1 + int j)) ?d)"
    by (rule Suc.IH) (use Suc.prems(1) Suc.prems(2) [of "Suc _"] in \<open>simp_all add: add.assoc\<close>)
  ultimately show ?case
    using Suc.prems(1) by (subst span_loop.simps) (simp add: upd_range_Suc algebra_simps)
qed

definition edge :: "jint \<Rightarrow> nat" where
  "edge frac = (if frac \<noteq> 0 then 1 else 0)"

text \<open>What a span of \<open>n\<close> pixels leaves in its \<open>i\<close>-th pixel.\<close>

definition span_val ::
    "(int \<Rightarrow> jint \<Rightarrow> jint) \<Rightarrow> (int \<Rightarrow> jint \<Rightarrow> jint) \<Rightarrow> (int \<Rightarrow> jint \<Rightarrow> jint) \<Rightarrow> jint \<Rightarrow> jint \<Rightarrow> nat \<Rightarrow>
     int \<Rightarrow> nat \<Rightarrow> jint \<Rightarrow> jint" where
  "span_val lv mv rv lfrac rfrac n aidx i p =
     (if lfrac \<noteq> 0 \<and> i = 0 then lv aidx p
      else if rfrac \<noteq> 0 \<and> Suc i = n then rv (aidx + int i) p
      else mv (aidx + int i) p)"

locale line_op =
  fixes left mid right :: "int \<Rightarrow> int \<Rightarrow> jint list \<Rightarrow> jint list option"
    and lv mv rv :: "int \<Rightarrow> jint \<Rightarrow> jint" and ok :: "int \<Rightarrow> bool"
  assumes left_at: "ok k \<Longrightarrow> 0 \<le> a \<Longrightarrow> a < int (length d) \<Longrightarrow>
      left k a d = Some (d[nat a := lv k (d ! nat a)])"
    and mid_at: "ok k \<Longrightarrow> 0 \<le> a \<Longrightarrow> a < int (length d) \<Longrightarrow>
      mid k a d = Some (d[nat a := mv k (d ! nat a)])"
    and right_at: "ok k \<Longrightarrow> 0 \<le> a \<Longrightarrow> a < int (length d) \<Longrightarrow>
      right k a d = Some (d[nat a := rv k (d ! nat a)])"
begin

lemma emit_row_range:
  assumes n: "n = edge lfrac + nat w + edge rfrac" "0 \<le> w" and "b + n \<le> length d"
    and ok: "\<And>i. i < n \<Longrightarrow> ok (aidx + int i)"
  shows "emit_row left mid right lfrac rfrac w 1 (int b) aidx d =
    Some (upd_range b n (span_val lv mv rv lfrac rfrac n aidx) d)"
proof -
  let ?l = "edge lfrac"
  let ?m = "nat w"
  let ?d1 = "upd_range b ?l (\<lambda>_. lv aidx) d"
  let ?d2 = "upd_range (b + ?l) ?m (\<lambda>j. mv (aidx + int ?l + int j)) ?d1"
  have 1: "(if lfrac \<noteq> 0 then do { d \<leftarrow> left aidx (int b) d; Some (int b + 1, aidx + 1, d) }
      else Some (int b, aidx, d)) = Some (int (b + ?l), aidx + int ?l, ?d1)"
    using assms ok [of 0] by (auto simp: edge_def left_at upd_range_one [simplified])
  have 2: "span_loop mid (int (b + ?l)) (int (b + ?l) + w) 1 (aidx + int ?l) ?d1 =
      Some (int (b + ?l + ?m), aidx + int ?l + int ?m, ?d2)"
  proof -
    have "mid (aidx + int ?l + int j) (int (b + ?l + j)) d' =
        Some (d'[b + ?l + j := mv (aidx + int ?l + int j) (d' ! (b + ?l + j))])"
      if "j < ?m" "length d' = length ?d1" for j d'
    proof -
      have "ok (aidx + int ?l + int j)" using ok [of "?l + j"] that n by (simp add: add.assoc)
      moreover have "int (b + ?l + j) < int (length d')" using that assms by simp
      ultimately show ?thesis
        using mid_at [of "aidx + int ?l + int j" "int (b + ?l + j)" d'] by (simp only: nat_int of_nat_0_le_iff)
    qed
    moreover have "b + ?l + ?m \<le> length ?d1" using assms by simp
    ultimately show ?thesis
      using span_loop_range [of "b + ?l" ?m ?d1 mid "aidx + int ?l" mv] n(2) by simp
  qed
  have 3: "(if rfrac \<noteq> 0 then right (aidx + int ?l + int ?m) (int (b + ?l + ?m)) ?d2 else Some ?d2) =
      Some (upd_range (b + ?l + ?m) (edge rfrac) (\<lambda>_. rv (aidx + int ?l + int ?m)) ?d2)"
  proof (cases "rfrac = 0")
    case False
    then have "ok (aidx + int ?l + int ?m)" "int (b + ?l + ?m) < int (length ?d2)"
      using ok [of "?l + ?m"] n assms(3) by (simp_all add: add.assoc edge_def [of rfrac])
    then have "right (aidx + int ?l + int ?m) (int (b + ?l + ?m)) ?d2 =
        Some (?d2[b + ?l + ?m := rv (aidx + int ?l + int ?m) (?d2 ! (b + ?l + ?m))])"
      using right_at [of "aidx + int ?l + int ?m" "int (b + ?l + ?m)" ?d2]
      by (simp only: nat_int of_nat_0_le_iff)
    then show ?thesis
      using False assms(3) n(1) by (simp add: edge_def [of rfrac] upd_range_one [simplified])
  qed (simp add: edge_def)
  have 4: "upd_range (b + ?l + ?m) (edge rfrac) (\<lambda>_. rv (aidx + int ?l + int ?m)) ?d2 =
      upd_range b n (span_val lv mv rv lfrac rfrac n aidx) d"
    unfolding upd_range_append add.assoc n(1)
    by (rule upd_range_cong) (auto simp: span_val_def edge_def split: if_splits)
  show ?thesis
    unfolding emit_row_def 1 by (simp only: bind.bind_lunit prod.case 2 3 4)
qed

lemma emit_rows_rect:
  assumes n: "n = edge lfrac + nat w + edge rfrac" "0 \<le> w" and t: "target_ok rdr (int n) h"
    and ok: "\<And>j i. j < nat h \<Longrightarrow> i < n \<Longrightarrow> ok (int j * rdr_alphaWidth rdr + int i)"
  shows "emit_rows left mid right lfrac rfrac w rdr h =
    Some (rdr\<lparr>rdr_data := upd_rect (target_base rdr) (nat (rdr_imageScanlineStride rdr)) n (nat h)
      (\<lambda>j. span_val lv mv rv lfrac rfrac n (int j * rdr_alphaWidth rdr)) (rdr_data rdr)\<rparr>)"
proof -
  note t = target_ok_nat [OF t, unfolded nat_int]
  let ?st = "\<lambda>j d. (rdr_currImageOffset rdr + int j * rdr_imageScanlineStride rdr,
      int j * rdr_alphaWidth rdr, d)"
  have off: "rdr_currImageOffset rdr + int j * rdr_imageScanlineStride rdr + rdr_minTouched rdr =
      int (target_base rdr + j * nat (rdr_imageScanlineStride rdr))" for j
    unfolding of_nat_add of_nat_mult t(4,6) by simp
  show ?thesis
    unfolding emit_rows_def
    by (subst for_up_rect [OF t(1) t(2), where k = 0 and st = ?st, simplified])
      (simp_all add: t(3) off emit_row_range [OF n] ok distrib_right del: of_nat_add of_nat_mult)
qed

end

section \<open>The span fillers\<close>

lemmas blend_at = blendSrcOver8888_pre_def blendSrcOver8888_pre_pre_def
  blendSrcOver8888_pre_pre_fullFrac_def blendSrc8888_pre_def blendSrc8888_pre_pre_def

text \<open>A flat colour over the destination, with and without an opaque middle.\<close>

interpretation over_line: line_op
  "\<lambda>k a d. blendSrcOver8888_pre d a la r g b" "\<lambda>k a d. blendSrcOver8888_pre d a ma r g b"
  "\<lambda>k a d. blendSrcOver8888_pre d a ra r g b"
  "\<lambda>k p. blendSrcOver8888_pre_val p la r g b" "\<lambda>k p. blendSrcOver8888_pre_val p ma r g b"
  "\<lambda>k p. blendSrcOver8888_pre_val p ra r g b" "\<lambda>k. True" for la ma ra r g b
  by unfold_locales (simp_all add: blend_at array_simps)

interpretation opaque_line: line_op
  "\<lambda>k a d. blendSrcOver8888_pre d a la r g b" "\<lambda>k a d. wr d a pixel"
  "\<lambda>k a d. blendSrcOver8888_pre d a ra r g b"
  "\<lambda>k p. blendSrcOver8888_pre_val p la r g b" "\<lambda>k p. pixel"
  "\<lambda>k p. blendSrcOver8888_pre_val p ra r g b" "\<lambda>k. True" for la pixel ra r g b
  by unfold_locales (simp_all add: blend_at array_simps)

definition in_array :: "jint list \<Rightarrow> int \<Rightarrow> bool" where
  "in_array xs k \<longleftrightarrow> 0 \<le> k \<and> k < int (length xs)"

definition pt_over_val :: "jint list \<Rightarrow> jint \<Rightarrow> int \<Rightarrow> jint \<Rightarrow> jint" where
  "pt_over_val paint fr k p =
     (let c = paint ! nat k in blendSrcOver8888_pre_pre_val p fr (pixA c) (pixR c) (pixG c) (pixB c))"

definition pt_over_full_val :: "jint list \<Rightarrow> int \<Rightarrow> jint \<Rightarrow> jint" where
  "pt_over_full_val paint k p =
     (let c = paint ! nat k in
      if pixA c = 0 then p else if pixA c = MAX_ALPHA then c
      else blendSrcOver8888_pre_pre_fullFrac_val p (pixA c) (pixR c) (pixG c) (pixB c))"

interpretation pt_over_line: line_op
  "\<lambda>k a d. do { c \<leftarrow> rd paint k; blendSrcOver8888_pre_pre d a lf (pixA c) (pixR c) (pixG c) (pixB c) }"
  "\<lambda>k a d. do { c \<leftarrow> rd paint k; blendSrcOver8888_pre_pre d a mf (pixA c) (pixR c) (pixG c) (pixB c) }"
  "\<lambda>k a d. do { c \<leftarrow> rd paint k; blendSrcOver8888_pre_pre d a rf (pixA c) (pixR c) (pixG c) (pixB c) }"
  "pt_over_val paint lf" "pt_over_val paint mf" "pt_over_val paint rf" "in_array paint" for paint lf mf rf
  by unfold_locales (simp_all add: blend_at array_simps in_array_def pt_over_val_def Let_def)

interpretation pt_over_full_line: line_op
  "\<lambda>k a d. do { c \<leftarrow> rd paint k; blendSrcOver8888_pre_pre d a lf (pixA c) (pixR c) (pixG c) (pixB c) }"
  "\<lambda>k a d. do { c \<leftarrow> rd paint k; let palpha = pixA c in
      if palpha = 0 then Some d else if palpha = MAX_ALPHA then wr d a c
      else blendSrcOver8888_pre_pre_fullFrac d a palpha (pixR c) (pixG c) (pixB c) }"
  "\<lambda>k a d. do { c \<leftarrow> rd paint k; blendSrcOver8888_pre_pre d a rf (pixA c) (pixR c) (pixG c) (pixB c) }"
  "pt_over_val paint lf" "pt_over_full_val paint" "pt_over_val paint rf" "in_array paint" for paint lf rf
  by unfold_locales
    (simp_all add: blend_at array_simps in_array_def pt_over_val_def pt_over_full_val_def Let_def)

section \<open>Properties of the span fillers\<close>

text \<open>The coverage of column \<open>i\<close> of a span with fractional edges, in 16.16 fixed point.\<close>

definition column_frac :: "renderer \<Rightarrow> nat \<Rightarrow> jint" where
  "column_frac rdr i =
     (if rdr_el_lfrac rdr \<noteq> 0 \<and> i = 0 then rdr_el_lfrac rdr
      else if rdr_el_rfrac rdr \<noteq> 0 \<and> int i + 1 = rdr_alphaWidth rdr then rdr_el_rfrac rdr
      else 65536)"

lemma edge_width_total:
  assumes "0 \<le> edge_width rdr lfrac rfrac"
  shows "nat (rdr_alphaWidth rdr) = edge lfrac + nat (edge_width rdr lfrac rfrac) + edge rfrac"
    "int (nat (rdr_alphaWidth rdr)) = rdr_alphaWidth rdr"
  using assms by (auto simp: edge_width_def edge_def split: if_splits)

text \<open>
  C29: emitLineSourceOver8888_pre composites the flat colour over every pixel of the \<open>height\<close> by
  \<open>_alphaWidth\<close> rectangle with the row's coverage times the column's coverage (the two
  fractional edges, 1 in between), and changes no other pixel. Full coverage of an opaque colour
  stores the colour itself.
\<close>

theorem emitLineSourceOver8888_pre_rect:
  assumes "target_ok rdr (rdr_alphaWidth rdr) height"
    and "0 \<le> edge_width rdr (rdr_el_lfrac rdr) (rdr_el_rfrac rdr)"
    and "rdr_el_lfrac rdr < 65536" "rdr_el_rfrac rdr < 65536"
  shows "emitLineSourceOver8888_pre rdr height frac =
    Some (rdr\<lparr>rdr_data := upd_rect (target_base rdr) (nat (rdr_imageScanlineStride rdr))
      (nat (rdr_alphaWidth rdr)) (nat height)
      (\<lambda>j i p. let alpha = shr (s32 (rdr_calpha rdr * frac)) 16; fr = column_frac rdr i;
                   over = (\<lambda>a. blendSrcOver8888_pre_val p a (rdr_cred rdr) (rdr_cgreen rdr) (rdr_cblue rdr))
               in if alpha = 255
                  then if fr = 65536 then pack 255 (rdr_cred rdr) (rdr_cgreen rdr) (rdr_cblue rdr)
                       else over (shr fr 8)
                  else if fr = 65536 then over alpha else over (shr (s32 (fr * alpha)) 16))
      (rdr_data rdr)\<rparr>)"
proof -
  note n = edge_width_total [OF assms(2)]
  have t: "target_ok rdr (int (nat (rdr_alphaWidth rdr))) height" using assms(1) n(2) by simp
  show ?thesis
    unfolding emitLineSourceOver8888_pre_def Let_def MAX_ALPHA_def
    by (cases "shr (s32 (rdr_calpha rdr * frac)) 16 = 255")
      (simp_all add: over_line.emit_rows_rect [OF n(1) assms(2) t]
        opaque_line.emit_rows_rect [OF n(1) assms(2) t],
       use assms(3,4) n(2) in \<open>auto simp: span_val_def column_frac_def intro!: upd_rect_cong
          arg_cong [where f = "\<lambda>d. rdr\<lparr>rdr_data := d\<rparr>"]\<close>)
qed

definition span_demo :: renderer where
  "span_demo = mask_demo\<lparr>rdr_minTouched := 0, rdr_maxTouched := 2, rdr_alphaWidth := 3,
     rdr_el_lfrac := 32768, rdr_el_rfrac := 16384,
     rdr_paint := replicate 6 (pack 128 64 0 0)\<rparr>"

theorem emitLineSourceOver8888_pre_rect_witness:
  "emitLineSourceOver8888_pre span_demo 2 65536 =
    Some (span_demo\<lparr>rdr_data := upd_rect 4 4 3 2
      (\<lambda>j i p. let fr = column_frac span_demo i
               in if fr = 65536 then pack 255 200 100 50
                  else blendSrcOver8888_pre_val p (shr fr 8) 200 100 50)
      (rdr_data span_demo)\<rparr>)"
proof -
  have "shr (s32 (rdr_calpha span_demo * 65536)) 16 = 255" "rdr_cred span_demo = 200"
    "rdr_cgreen span_demo = 100" "rdr_cblue span_demo = 50" "target_base span_demo = 4"
    "nat (rdr_imageScanlineStride span_demo) = 4" "nat (rdr_alphaWidth span_demo) = 3" "nat 2 = 2"
    by (simp_all add: span_demo_def demo_simps c_arith)
  note e = this
  show ?thesis
    using emitLineSourceOver8888_pre_rect [of span_demo 2 65536, unfolded e]
    by (simp add: span_demo_def demo_simps edge_width_def)
qed

text \<open>A row coverage and the edge coverages are fractions in 16.16 fixed point.\<close>

definition frac_ok :: "jint \<Rightarrow> bool" where
  "frac_ok f \<longleftrightarrow> 0 \<le> f \<and> f \<le> 65536"

lemma s64_frac_product:
  assumes "frac_ok f" "frac_ok g"
  shows "s32 (shr (s64 (f * g)) 16) = f * g div 65536" "frac_ok (f * g div 65536)"
proof -
  have p: "0 \<le> f * g" "f * g \<le> 65536 * 65536"
    using assms mult_mono [of f 65536 g 65536] by (auto simp: frac_ok_def)
  then have "f * g div 65536 \<le> 65536" using zdiv_mono1 [of "f * g" "65536 * 65536" 65536] by simp
  with p show "s32 (shr (s64 (f * g)) 16) = f * g div 65536" "frac_ok (f * g div 65536)"
    by (simp_all add: c_arith frac_ok_def pos_imp_zdiv_nonneg_iff)
qed

lemma frac_shr_8:
  assumes "frac_ok f"
  shows "0 \<le> shr f 8" "shr f 8 \<le> 256" "f < 65536 \<Longrightarrow> chan (shr f 8)"
  using assms zdiv_mono1 [of f 65536 256] zdiv_mono1 [of f 65535 256]
  by (auto simp: frac_ok_def c_arith chan_def pos_imp_zdiv_nonneg_iff)

lemma frac_scale_chan:
  assumes "frac_ok f" "chan a"
  shows "chan (shr (s32 (f * a)) 16)"
proof -
  have p: "0 \<le> f * a" "f * a \<le> 65536 * a" "65536 * a \<le> 65536 * 255"
    using assms by (auto simp: frac_ok_def chan_def intro!: mult_right_mono mult_left_mono)
  then have "f * a div 65536 \<le> a" using zdiv_mono1 [of "f * a" "65536 * a" 65536] by simp
  with p assms(2) show ?thesis by (simp add: c_arith chan_def pos_imp_zdiv_nonneg_iff)
qed

lemma pt_over_premult:
  assumes "premult p" "premult (paint ! nat k)"
  shows "0 \<le> fr \<Longrightarrow> fr \<le> 256 \<Longrightarrow> premult (pt_over_val paint fr k p)"
    and "premult (pt_over_full_val paint k p)"
  using assms
  by (simp_all add: pt_over_val_def pt_over_full_val_def Let_def blendSrcOver_pre_pre_premult
      blendSrcOver_fullFrac_premult)

locale premult_line = line_op left mid right lv mv rv ok for left mid right lv mv rv ok +
  assumes lv_premult: "ok k \<Longrightarrow> premult p \<Longrightarrow> premult (lv k p)"
    and mv_premult: "ok k \<Longrightarrow> premult p \<Longrightarrow> premult (mv k p)"
    and rv_premult: "ok k \<Longrightarrow> premult p \<Longrightarrow> premult (rv k p)"
begin

lemma emit_rows_premult:
  assumes "0 \<le> edge_width rdr lfrac rfrac" "target_ok rdr (rdr_alphaWidth rdr) h"
    and "premult_all (rdr_data rdr)"
    and ok: "\<And>j i. j < nat h \<Longrightarrow> i < nat (rdr_alphaWidth rdr) \<Longrightarrow> ok (int j * rdr_alphaWidth rdr + int i)"
  shows "\<exists>d. emit_rows left mid right lfrac rfrac (edge_width rdr lfrac rfrac) rdr h =
      Some (rdr\<lparr>rdr_data := d\<rparr>) \<and> rows_kept rdr (rdr_alphaWidth rdr) h d"
proof -
  note n = edge_width_total [OF assms(1)]
  have t: "target_ok rdr (int (nat (rdr_alphaWidth rdr))) h" using assms(2) n(2) by simp
  have v: "premult (span_val lv mv rv lfrac rfrac (nat (rdr_alphaWidth rdr)) (int j * rdr_alphaWidth rdr) i p)"
    if "j < nat h" "i < nat (rdr_alphaWidth rdr)" "premult p" for j i p
    using that ok [of j i] ok [of j 0]
    by (auto simp: span_val_def intro!: lv_premult mv_premult rv_premult)
  show ?thesis
  proof (intro exI conjI)
    show "emit_rows left mid right lfrac rfrac (edge_width rdr lfrac rfrac) rdr h =
        Some (rdr\<lparr>rdr_data := upd_rect (target_base rdr) (nat (rdr_imageScanlineStride rdr))
          (nat (rdr_alphaWidth rdr)) (nat h)
          (\<lambda>j. span_val lv mv rv lfrac rfrac (nat (rdr_alphaWidth rdr)) (int j * rdr_alphaWidth rdr))
          (rdr_data rdr)\<rparr>)" (is "_ = Some (rdr\<lparr>rdr_data := ?d\<rparr>)")
      by (rule emit_rows_rect [OF n(1) assms(1) t ok])
    have "premult_all ?d"
      using assms(3) unfolding premult_all_def by (intro upd_rect_all v)
    then show "rows_kept rdr (rdr_alphaWidth rdr) h ?d" by (simp add: rows_kept_def upd_rect_kept)
  qed
qed

end

interpretation over_line_pm: premult_line
  "\<lambda>k a d. blendSrcOver8888_pre d a la r g b" "\<lambda>k a d. blendSrcOver8888_pre d a ma r g b"
  "\<lambda>k a d. blendSrcOver8888_pre d a ra r g b"
  "\<lambda>k p. blendSrcOver8888_pre_val p la r g b" "\<lambda>k p. blendSrcOver8888_pre_val p ma r g b"
  "\<lambda>k p. blendSrcOver8888_pre_val p ra r g b"
  "\<lambda>k. chan la \<and> chan ma \<and> chan ra \<and> chan r \<and> chan g \<and> chan b" for la ma ra r g b
  by unfold_locales (simp_all add: blend_at array_simps blendSrcOver_premult)

interpretation opaque_line_pm: premult_line
  "\<lambda>k a d. blendSrcOver8888_pre d a la r g b" "\<lambda>k a d. wr d a (pack 255 r g b)"
  "\<lambda>k a d. blendSrcOver8888_pre d a ra r g b"
  "\<lambda>k p. blendSrcOver8888_pre_val p la r g b" "\<lambda>k p. pack 255 r g b"
  "\<lambda>k p. blendSrcOver8888_pre_val p ra r g b"
  "\<lambda>k. chan la \<and> chan ra \<and> chan r \<and> chan g \<and> chan b" for la ra r g b
  by unfold_locales
    (simp_all add: blend_at array_simps blendSrcOver_premult, simp_all add: chan_def pack_premult)

interpretation pt_over_line_pm: premult_line
  "\<lambda>k a d. do { c \<leftarrow> rd paint k; blendSrcOver8888_pre_pre d a lf (pixA c) (pixR c) (pixG c) (pixB c) }"
  "\<lambda>k a d. do { c \<leftarrow> rd paint k; blendSrcOver8888_pre_pre d a mf (pixA c) (pixR c) (pixG c) (pixB c) }"
  "\<lambda>k a d. do { c \<leftarrow> rd paint k; blendSrcOver8888_pre_pre d a rf (pixA c) (pixR c) (pixG c) (pixB c) }"
  "pt_over_val paint lf" "pt_over_val paint mf" "pt_over_val paint rf"
  "\<lambda>k. in_array paint k \<and> premult (paint ! nat k) \<and> 0 \<le> lf \<and> lf \<le> 256 \<and> 0 \<le> mf \<and> mf \<le> 256 \<and>
       0 \<le> rf \<and> rf \<le> 256" for paint lf mf rf
  by unfold_locales
    (simp_all add: blend_at array_simps in_array_def pt_over_premult, simp_all add: pt_over_val_def Let_def)

interpretation pt_over_full_line_pm: premult_line
  "\<lambda>k a d. do { c \<leftarrow> rd paint k; blendSrcOver8888_pre_pre d a lf (pixA c) (pixR c) (pixG c) (pixB c) }"
  "\<lambda>k a d. do { c \<leftarrow> rd paint k; let palpha = pixA c in
      if palpha = 0 then Some d else if palpha = MAX_ALPHA then wr d a c
      else blendSrcOver8888_pre_pre_fullFrac d a palpha (pixR c) (pixG c) (pixB c) }"
  "\<lambda>k a d. do { c \<leftarrow> rd paint k; blendSrcOver8888_pre_pre d a rf (pixA c) (pixR c) (pixG c) (pixB c) }"
  "pt_over_val paint lf" "pt_over_full_val paint" "pt_over_val paint rf"
  "\<lambda>k. in_array paint k \<and> premult (paint ! nat k) \<and> 0 \<le> lf \<and> lf \<le> 256 \<and> 0 \<le> rf \<and> rf \<le> 256"
  for paint lf rf
  by unfold_locales
    (simp_all add: pt_over_full_line.left_at pt_over_full_line.mid_at pt_over_full_line.right_at
      pt_over_premult)

lemma row_index:
  assumes "j < nat h" "i < nat n"
  shows "0 \<le> int j * n + int i" "int j * n + int i < h * n"
proof -
  have "int j * n + int i < (int j + 1) * n" using assms by (simp add: distrib_right)
  also have "\<dots> \<le> h * n" using assms by (intro mult_right_mono) auto
  finally show "int j * n + int i < h * n" .
qed (use assms in simp)

lemma source_over_spans_kept:
  assumes "target_ok rdr (rdr_alphaWidth rdr) height"
    and "edge (rdr_el_lfrac rdr) + edge (rdr_el_rfrac rdr) \<le> nat (rdr_alphaWidth rdr)"
    and fl: "frac_ok (rdr_el_lfrac rdr)" "frac_ok (rdr_el_rfrac rdr)" "frac_ok frac"
    and "premult_all (rdr_data rdr)"
  shows "color_ok rdr \<Longrightarrow> rdr_el_lfrac rdr < 65536 \<Longrightarrow> rdr_el_rfrac rdr < 65536 \<Longrightarrow>
      \<exists>d. emitLineSourceOver8888_pre rdr height frac = Some (rdr\<lparr>rdr_data := d\<rparr>) \<and>
        rows_kept rdr (rdr_alphaWidth rdr) height d"
    and "paint_ok (height * rdr_alphaWidth rdr) (rdr_paint rdr) \<Longrightarrow>
      \<exists>d. emitLinePTSourceOver8888_pre rdr height frac = Some (rdr\<lparr>rdr_data := d\<rparr>) \<and>
        rows_kept rdr (rdr_alphaWidth rdr) height d"
proof -
  let ?n = "nat (rdr_alphaWidth rdr)"
  have w: "0 \<le> edge_width rdr l r" if "edge l + edge r \<le> ?n" for l r
    using that assms(1) by (auto simp: edge_width_def edge_def target_ok_def split: if_splits)
  { assume "color_ok rdr" and lr: "rdr_el_lfrac rdr < 65536" "rdr_el_rfrac rdr < 65536"
    then have c: "chan (rdr_calpha rdr)" "chan (rdr_cred rdr)" "chan (rdr_cgreen rdr)" "chan (rdr_cblue rdr)"
      by (simp_all add: color_ok_def)
    have alpha: "chan (shr (s32 (rdr_calpha rdr * frac)) 16)"
      using frac_scale_chan [OF fl(3) c(1)] by (simp add: mult.commute)
    show "\<exists>d. emitLineSourceOver8888_pre rdr height frac = Some (rdr\<lparr>rdr_data := d\<rparr>) \<and>
        rows_kept rdr (rdr_alphaWidth rdr) height d"
      unfolding emitLineSourceOver8888_pre_def Let_def
      by (split if_split, intro conjI impI over_line_pm.emit_rows_premult
          opaque_line_pm.emit_rows_premult w)
        (use assms c alpha fl lr in \<open>simp_all add: frac_shr_8 frac_scale_chan\<close>) }
  assume p: "paint_ok (height * rdr_alphaWidth rdr) (rdr_paint rdr)"
  let ?l = "rdr_el_lfrac rdr * frac div 65536"
  let ?r = "rdr_el_rfrac rdr * frac div 65536"
  have f: "frac_ok ?l" "frac_ok ?r" "edge ?l + edge ?r \<le> ?n"
    using s64_frac_product(2) [OF fl(1,3)] s64_frac_product(2) [OF fl(2,3)] assms(2)
    by (auto simp: edge_def split: if_splits)
  have a: "in_array (rdr_paint rdr) (int j * rdr_alphaWidth rdr + int i)"
      "premult (rdr_paint rdr ! nat (int j * rdr_alphaWidth rdr + int i))"
    if "j < nat height" "i < ?n" for j i
    using row_index [OF that] p by (auto simp: paint_ok_def in_array_def)
  show "\<exists>d. emitLinePTSourceOver8888_pre rdr height frac = Some (rdr\<lparr>rdr_data := d\<rparr>) \<and>
      rows_kept rdr (rdr_alphaWidth rdr) height d"
    unfolding emitLinePTSourceOver8888_pre_def Let_def s64_frac_product(1) [OF fl(1,3)]
      s64_frac_product(1) [OF fl(2,3)]
    by (split if_split, intro conjI impI pt_over_line_pm.emit_rows_premult
        pt_over_full_line_pm.emit_rows_premult [unfolded Let_def] w f assms(1,6))
      (use a f fl(3) in \<open>simp_all add: frac_shr_8\<close>)
qed

text \<open>
  C26: with a valid colour, a paint buffer of \<open>height * _alphaWidth\<close> premultiplied pixels and
  fractions between 0 and 1, both source-over span fillers return, leave a premultiplied
  surface premultiplied and change no pixel outside the rectangle.
\<close>

theorem source_over_spans_premultiplied:
  assumes "target_ok rdr (rdr_alphaWidth rdr) height"
    and "edge (rdr_el_lfrac rdr) + edge (rdr_el_rfrac rdr) \<le> nat (rdr_alphaWidth rdr)"
    and "0 \<le> rdr_el_lfrac rdr" "rdr_el_lfrac rdr < 65536"
    and "0 \<le> rdr_el_rfrac rdr" "rdr_el_rfrac rdr < 65536" "frac_ok frac"
    and "color_ok rdr" "premult_all (rdr_data rdr)"
    and "paint_ok (height * rdr_alphaWidth rdr) (rdr_paint rdr)"
    and "emit \<in> {emitLineSourceOver8888_pre, emitLinePTSourceOver8888_pre}"
  shows "\<exists>d. emit rdr height frac = Some (rdr\<lparr>rdr_data := d\<rparr>) \<and> premult_all d \<and>
    kept_outside (target_base rdr) (nat (rdr_imageScanlineStride rdr)) (nat (rdr_alphaWidth rdr))
      (nat height) (rdr_data rdr) d"
proof -
  have "frac_ok (rdr_el_lfrac rdr)" "frac_ok (rdr_el_rfrac rdr)"
    using assms(3-6) by (simp_all add: frac_ok_def)
  from source_over_spans_kept [OF assms(1,2) this assms(7,9)] assms(4,6,8,10,11) show ?thesis
    by (auto simp: rows_kept_def)
qed

theorem source_over_spans_premultiplied_witness:
  "\<exists>d. emitLinePTSourceOver8888_pre span_demo 2 40000 = Some (span_demo\<lparr>rdr_data := d\<rparr>) \<and>
    premult_all d \<and> kept_outside (target_base span_demo) (nat (rdr_imageScanlineStride span_demo))
      (nat (rdr_alphaWidth span_demo)) (nat 2) (rdr_data span_demo) d"
proof -
  have "premult_all (rdr_data span_demo)"
      "paint_ok (2 * rdr_alphaWidth span_demo) (rdr_paint span_demo)"
    by (rule_tac [2] premult_all_paint_ok)
      (simp_all add: premult_all_def premult_def span_demo_def demo_simps)
  then show ?thesis
    by (intro source_over_spans_premultiplied)
      (simp_all add: span_demo_def demo_simps edge_def frac_ok_def)
qed

definition edge_demo :: renderer where
  "edge_demo = mask_demo\<lparr>rdr_data := [-1, -1, -1], rdr_minTouched := 0, rdr_maxTouched := 0,
     rdr_currImageOffset := 0, rdr_alphaWidth := 1, rdr_el_lfrac := 32768, rdr_el_rfrac := 0,
     rdr_calpha := 255, rdr_cred := 255, rdr_cgreen := 255, rdr_cblue := 255,
     rdr_maskOffset := 0, rdr_mask_byteData := [127]\<rparr>"

text \<open>
  The source rule at a fractional edge blends the unscaled colour with the remaining
  destination, so the two weights add up to more than one: a white span that half covers an
  opaque white pixel leaves 0x7D7D7D7D, a half transparent grey, there. The row blitter
  blitSrcMask8888_pre at half coverage leaves the opaque white pixel as it is.
\<close>

theorem emitLineSource8888_pre_edge_overflow:
  "map_option rdr_data (emitLineSource8888_pre edge_demo 1 65536) = Some [0x7D7D7D7D, -1, -1] \<and>
   map_option rdr_data (blitSrcMask8888_pre edge_demo 1) = Some [-1, -1, -1]"
  by (simp add: emitLineSource8888_pre_def blitSrcMask8888_pre_def edge_demo_def demo_simps
      emit_rows_def emit_row_def edge_width_def span_loop.simps mask_rows_def mask_step_def
      px_defs src_cov_def blend_at rd_def wr_def blendSrc8888_pre_val_def MAX_ALPHA_def Let_def
      c_arith div255_def pack_def s32_def)

section \<open>Clearing a rectangle\<close>

lemma fill_run_range:
  assumes "0 \<le> n" "b + nat n \<le> length d"
  shows "fill_run d (int b) n v = Some (upd_range b (nat n) (\<lambda>_ _. v) d)"
proof -
  have "for_up 0 (nat n) (\<lambda>k d. wr d (int b + int k) v) ((\<lambda>_ d. d) (0 :: nat) d) =
      Some ((\<lambda>_ d. d) (0 + nat n) (upd_range b (nat n) (\<lambda>_ _. v) d))"
    using assms by (intro for_up_range) (simp_all add: wr_def nat_int_add)
  then show ?thesis by (simp add: fill_run_def)
qed

lemma copy_run_range:
  assumes "0 \<le> n" "src + nat n \<le> dst" "dst + nat n \<le> length d"
  shows "copy_run d (int dst) (int src) n = Some (upd_range dst (nat n) (\<lambda>k _. d ! (src + k)) d)"
proof -
  let ?d = "\<lambda>k. upd_range dst k (\<lambda>k _. d ! (src + k)) d"
  have "for_up 0 (nat n) (\<lambda>k d. do { v \<leftarrow> rd d (int src + int k); wr d (int dst + int k) v }) d =
      Some (?d (nat n))"
    using for_up_total [where I = "\<lambda>k s. s = ?d k" and i = 0 and s = d and n = "nat n" and
        body = "\<lambda>k d. do { v \<leftarrow> rd d (int src + int k); wr d (int dst + int k) v }"] assms
    by (auto simp: rd_def wr_def nat_int_add nth_upd_range upd_range_snoc)
  then show ?thesis using assms(1) by (simp add: copy_run_def)
qed

text \<open>The rectangle lies inside a surface whose rows follow each other without gaps.\<close>

definition rect_ok :: "renderer \<Rightarrow> jint \<Rightarrow> jint \<Rightarrow> jint \<Rightarrow> jint \<Rightarrow> bool" where
  "rect_ok rdr x y w h \<longleftrightarrow>
     0 \<le> x \<and> 0 \<le> y \<and> 0 < w \<and> 0 < h \<and> x + w \<le> rdr_width rdr \<and> y + h \<le> rdr_height rdr \<and>
     rdr_imagePixelStride rdr = 1 \<and> rdr_imageScanlineStride rdr = rdr_width rdr \<and>
     0 \<le> rdr_imageOffset rdr \<and>
     rdr_imageOffset rdr + rdr_height rdr * rdr_width rdr \<le> int (length (rdr_data rdr))"

definition rect_base :: "renderer \<Rightarrow> jint \<Rightarrow> jint \<Rightarrow> nat" where
  "rect_base rdr x y = nat (rdr_imageOffset rdr + y * rdr_imageScanlineStride rdr + x)"

lemma rect_ok_bounds:
  assumes "rect_ok rdr x y w h"
  shows "int (rect_base rdr x y) = rdr_imageOffset rdr + y * rdr_imageScanlineStride rdr + x"
    and "int (nat (rdr_imageScanlineStride rdr)) = rdr_imageScanlineStride rdr"
    and "nat w \<le> nat (rdr_imageScanlineStride rdr)"
    and "rect_base rdr x y + (nat h - 1) * nat (rdr_imageScanlineStride rdr) + nat w
           \<le> length (rdr_data rdr)"
proof -
  let ?s = "rdr_imageScanlineStride rdr"
  have r: "0 \<le> x" "0 \<le> y" "0 < w" "0 < h" "x + w \<le> ?s" "y + h \<le> rdr_height rdr"
    "0 \<le> rdr_imageOffset rdr" "rdr_imageOffset rdr + rdr_height rdr * ?s \<le> int (length (rdr_data rdr))"
    using assms by (simp_all add: rect_ok_def)
  then show b: "int (rect_base rdr x y) = rdr_imageOffset rdr + y * ?s + x"
    and s: "int (nat ?s) = ?s" and "nat w \<le> nat ?s"
    by (simp_all add: rect_base_def)
  have "(y + (h - 1)) * ?s + x + w \<le> (y + (h - 1)) * ?s + 1 * ?s" using r by simp
  also have "\<dots> = (y + h) * ?s" by (simp add: algebra_simps)
  also have "\<dots> \<le> rdr_height rdr * ?s" using r by (intro mult_right_mono) simp_all
  finally have "int (rect_base rdr x y + (nat h - 1) * nat ?s + nat w) \<le> int (length (rdr_data rdr))"
    using r unfolding of_nat_add of_nat_mult b s by (simp add: of_nat_diff algebra_simps)
  then show "rect_base rdr x y + (nat h - 1) * nat ?s + nat w \<le> length (rdr_data rdr)"
    by (rule iffD1 [OF of_nat_le_iff])
qed

text \<open>The three paths: a \<open>memset\<close> of whole rows, one \<open>memset\<close> per row, a filled row copied down.\<close>

lemma memset_rows_rect:
  assumes "nat w \<le> s" "0 \<le> w" "0 < h \<Longrightarrow> b + (h - 1) * s + nat w \<le> length d"
  shows "for_up 0 h (\<lambda>j d. memset_run d (int b + int j * int s) w) d =
    Some (upd_rect b s (nat w) h (\<lambda>_ _ _. 0) d)"
proof -
  have "for_up 0 h (\<lambda>j d. memset_run d (int b + int j * int s) w) ((\<lambda>_ d. d) (0 :: nat) d) =
      Some ((\<lambda>_ d. d) (0 + h) (upd_rect b s (nat w) h (\<lambda>_ _ _. 0) d))"
    using assms fill_run_range [OF assms(2), of "b + _ * s"]
    by (intro for_up_rect) (simp_all add: memset_run_def)
  then show ?thesis by simp
qed

lemma copy_rows_rect:
  assumes "nat w \<le> s" "0 \<le> w" "b + h * s + nat w \<le> length d"
    and "\<And>k. k < nat w \<Longrightarrow> d ! (b + k) = v"
  shows "for_up 0 h (\<lambda>j d. copy_run d (int b + int s + int j * int s) (int b) w) d =
    Some (upd_rect (b + s) s (nat w) h (\<lambda>_ _ _. v) d)"
proof -
  have c: "copy_run d' (int b + int s + int j * int s) (int b) w =
      Some (upd_range (b + s + j * s) (nat w) (\<lambda>_ _. v) d')"
    if "length d' = length d" "b + s + j * s + nat w \<le> length d"
      "\<And>i. i < b + s \<Longrightarrow> d' ! i = d ! i" for j d'
    using copy_run_range [OF assms(2), of b "b + s + j * s" d'] that assms(1,4)
    by (auto intro: upd_range_cong)
  have "for_up 0 h (\<lambda>j d. copy_run d (int b + int s + int j * int s) (int b) w) ((\<lambda>_ d. d) (0 :: nat) d) =
      Some ((\<lambda>_ d. d) (0 + h) (upd_rect (b + s) s (nat w) h (\<lambda>_ _ _. v) d))"
  proof (rule for_up_rect)
    show "0 < h \<Longrightarrow> b + s + (h - 1) * s + nat w \<le> length d" using assms(3) by (cases h) simp_all
  qed (use assms(1) c in simp_all)
  then show ?thesis by simp
qed

text \<open>
  clearRect8888_any fills exactly the w by h rectangle at (x, y) with the packed current
  colour, whichever of its three paths it takes, and changes no other pixel.
\<close>

theorem clearRect8888_any_rect:
  assumes "rect_ok rdr x y w h"
  shows "clearRect8888_any rdr x y w h =
    Some (rdr\<lparr>rdr_data := upd_rect (rect_base rdr x y) (nat (rdr_width rdr)) (nat w) (nat h)
      (\<lambda>_ _ _. pack (rdr_calpha rdr) (rdr_cred rdr) (rdr_cgreen rdr) (rdr_cblue rdr)) (rdr_data rdr)\<rparr>)"
proof -
  let ?b = "rect_base rdr x y"
  let ?s = "nat (rdr_imageScanlineStride rdr)"
  let ?v = "pack (rdr_calpha rdr) (rdr_cred rdr) (rdr_cgreen rdr) (rdr_cblue rdr)"
  note b = rect_ok_bounds [OF assms]
  have r: "0 < w" "0 < h" "rdr_imagePixelStride rdr = 1" "rdr_width rdr = rdr_imageScanlineStride rdr"
    using assms by (simp_all add: rect_ok_def)
  have i: "rdr_imageOffset rdr + y * rdr_imageScanlineStride rdr + x * rdr_imagePixelStride rdr = int ?b"
    using b(1) r(3) by simp
  have full: "memset_run (rdr_data rdr) (int ?b) (w * h) =
      Some (upd_rect ?b ?s (nat w) (nat h) (\<lambda>_ _ _. 0) (rdr_data rdr))" if "w = rdr_width rdr"
  proof -
    have "?s * nat h = (nat h - 1) * ?s + nat w" using that r by (cases "nat h") simp_all
    then show ?thesis
      using that r b(2-4) fill_run_range [of "w * h" ?b "rdr_data rdr" 0]
        upd_rect_full [of ?s ?b "nat h" "\<lambda>_. 0" "rdr_data rdr"]
      by (simp add: memset_run_def nat_mult_distrib not_less)
  qed
  have rows: "for_up 0 (nat h) (\<lambda>j d. memset_run d (int ?b + int j * rdr_imageScanlineStride rdr) w)
      (rdr_data rdr) = Some (upd_rect ?b ?s (nat w) (nat h) (\<lambda>_ _ _. 0) (rdr_data rdr))"
    using memset_rows_rect [OF b(3), of "nat h" ?b] b r by simp
  have copies: "do { d \<leftarrow> fill_run (rdr_data rdr) (int ?b) w ?v;
      for_up 0 (nat (h - 1)) (\<lambda>j d. copy_run d (int ?b + rdr_imageScanlineStride rdr +
        int j * rdr_imageScanlineStride rdr) (int ?b) w) d } =
      Some (upd_rect ?b ?s (nat w) (nat h) (\<lambda>_ _ _. ?v) (rdr_data rdr))"
  proof -
    have h: "nat h = Suc (nat (h - 1))" using r by simp
    then show ?thesis
      using copy_rows_rect [OF b(3), of ?b "nat (h - 1)" "upd_range ?b (nat w) (\<lambda>_ _. ?v) (rdr_data rdr)" ?v]
        fill_run_range [of w ?b "rdr_data rdr" ?v] b r
      by (simp add: upd_rect_Suc [OF b(3)] nth_upd_range)
  qed
  show ?thesis
    unfolding clearRect8888_any_def Let_def i using full rows copies r(4) by auto
qed

theorem clearRect8888_any_rect_witness:
  "clearRect8888_any (mask_demo\<lparr>rdr_width := 4, rdr_height := 3\<rparr>) 1 1 2 2 =
    Some (mask_demo\<lparr>rdr_width := 4, rdr_height := 3,
      rdr_data := upd_rect 5 4 2 2 (\<lambda>_ _ _. pack 255 200 100 50) (rdr_data mask_demo)\<rparr>)"
  using clearRect8888_any_rect [of "mask_demo\<lparr>rdr_width := 4, rdr_height := 3\<rparr>" 1 1 2 2]
  by (simp add: rect_ok_def rect_base_def demo_simps)

end
