(* ===== verification/Pisces_Sources.thy ===== *)
theory Pisces_Sources
  imports Pisces_Driver Pisces_Texture_Safe Pisces_Blit_Spans
begin

text \<open>
  What the drawing entry points rely on from a paint: called for \<open>h\<close> rows, a generator returns,
  changes nothing but the paint buffer and fills it with premultiplied pixels. \<open>paint_gen\<close> states
  this contract; the gradient, texture and texture-times-paint generators provide it.
\<close>

section \<open>Texture times paint\<close>

lemma scale8:
  assumes "0 \<le> s" "s \<le> a" "chan a" "0 \<le> f" "f \<le> 256"
  shows "0 \<le> shr (f * s) 8" "shr (f * s) 8 \<le> shr (f * a) 8" "shr (f * s) 8 \<le> s" "chan (shr (f * s) 8)"
proof -
  have le: "0 \<le> f * s" "f * s \<le> f * a" "f * s \<le> 256 * s"
    using assms by (auto simp: chan_def intro!: mult_nonneg_nonneg mult_left_mono mult_right_mono)
  then show "0 \<le> shr (f * s) 8" "shr (f * s) 8 \<le> shr (f * a) 8" "shr (f * s) 8 \<le> s"
    using zdiv_mono1 [of "f * s" "256 * s" 256]
    by (simp_all add: c_arith pos_imp_zdiv_nonneg_iff zdiv_mono1)
  then show "chan (shr (f * s) 8)" using assms by (simp add: chan_def)
qed

lemma multiply_eqs:
  "multiply_white k t = pack (shr (k * pixA t) 8) (shr (k * pixR t) 8) (shr (k * pixG t) 8) (shr (k * pixB t) 8)"
  "multiply_color k r g b t = pack (shr (k * pixA t) 8) (shr (shr ((r + 1) * pixR t) 8 * k) 8)
     (shr (shr ((g + 1) * pixG t) 8 * k) 8) (shr (shr ((b + 1) * pixB t) 8 * k) 8)"
  "multiply_paint p t = multiply_color (pixA p + 1) (pixR p) (pixG p) (pixB p) t"
  by (simp_all only: multiply_white_def multiply_color_def multiply_paint_def pix_unfolds)

lemma multiply_white_premult:
  assumes "premult t" "0 \<le> k" "k \<le> 256"
  shows "premult (multiply_white k t)"
  unfolding multiply_eqs
  using assms scale8 [OF _ _ pix_range(1), of _ t k]
  by (intro pack_premult) (auto simp: premult_def)

lemma multiply_color_premult:
  assumes "premult t" "0 \<le> k" "k \<le> 256" "chan r" "chan g" "chan b"
  shows "premult (multiply_color k r g b t)"
proof -
  have c: "0 \<le> shr (shr ((x + 1) * c) 8 * k) 8" "shr (shr ((x + 1) * c) 8 * k) 8 \<le> shr (k * pixA t) 8"
    if "chan x" "0 \<le> c" "c \<le> pixA t" for x c
  proof -
    have "0 \<le> shr ((x + 1) * c) 8" "shr ((x + 1) * c) 8 \<le> pixA t"
      using scale8 [of c "pixA t" "x + 1"] that by (auto simp: chan_def)
    then show "0 \<le> shr (shr ((x + 1) * c) 8 * k) 8" "shr (shr ((x + 1) * c) 8 * k) 8 \<le> shr (k * pixA t) 8"
      using scale8(1,2) [OF _ _ pix_range(1) assms(2,3), of "shr ((x + 1) * c) 8" t]
      by (simp_all add: mult.commute)
  qed
  have a: "chan (shr (k * pixA t) 8)" using scale8(4) [OF _ order_refl pix_range(1) assms(2,3), of t] by simp
  note c' = c [OF assms(4), of "pixR t"] c [OF assms(5), of "pixG t"] c [OF assms(6), of "pixB t"]
  show ?thesis
    unfolding multiply_eqs
    using assms(1) a c' by (intro pack_premult) (auto simp: premult_def chan_def)
qed

lemma multiply_paint_premult: "premult t \<Longrightarrow> premult (multiply_paint p t)"
  unfolding multiply_eqs(3)
  using pix_le_255(1) [of p] by (intro multiply_color_premult) simp_all

text \<open>The loop replaces every pixel once; \<open>done_to\<close> is its state before pixel \<open>m\<close>.\<close>

definition done_to :: "nat \<Rightarrow> jint list \<Rightarrow> jint list \<Rightarrow> bool" where
  "done_to m paint p \<longleftrightarrow> length p = length paint \<and> (\<forall>k < m. premult (p ! k)) \<and>
     (\<forall>k \<ge> m. k < length paint \<longrightarrow> p ! k = paint ! k)"

lemma done_to_step:
  assumes "done_to m paint p" "m < length paint" "premult v"
  shows "wr p (int m) v = Some (p[m := v])" "done_to (Suc m) paint (p[m := v])"
  using assms by (auto simp: done_to_def wr_def nth_list_update less_Suc_eq)

lemma multiply_rows_ok:
  assumes w: "rdr_maxTouched rdr - rdr_minTouched rdr + 1 = rdr_alphaWidth rdr" "0 \<le> rdr_alphaWidth rdr"
    and L: "height * rdr_alphaWidth rdr \<le> int (length paint)" "0 \<le> height"
    and f: "\<And>i p. i < nat (height * rdr_alphaWidth rdr) \<Longrightarrow> length p = length paint \<Longrightarrow>
      p ! i = paint ! i \<Longrightarrow> \<exists>v. f (int i) p = Some v \<and> premult v"
  shows "\<exists>p. multiply_rows f rdr height paint = Some p \<and> length p = length paint \<and>
    paint_ok (height * rdr_alphaWidth rdr) p"
proof -
  let ?w = "nat (rdr_alphaWidth rdr)"
  let ?h = "nat height"
  have n: "nat (height * rdr_alphaWidth rdr) = ?h * ?w" using w(2) L(2) by (simp add: nat_mult_distrib)
  have "?h * ?w = nat (height * rdr_alphaWidth rdr)" using n by simp
  also have "\<dots> \<le> length paint" using L(1) by simp
  finally have le: "?h * ?w \<le> length paint" .
  let ?body = "\<lambda>i j paint. let idx = int i * rdr_alphaWidth rdr + int j in do { v \<leftarrow> f idx paint; wr paint idx v }"
  have step: "\<exists>p'. ?body i j p = Some p' \<and> done_to (i * ?w + Suc j) paint p'"
    if ij: "i < ?h" "j < ?w" and d: "done_to (i * ?w + j) paint p" for i j p
  proof -
    have i: "int i * rdr_alphaWidth rdr + int j = int (i * ?w + j)" using w(2) by simp
    have "i * ?w + j < Suc i * ?w" using ij by simp
    also have "\<dots> \<le> ?h * ?w" using ij by (intro mult_le_mono1) simp
    finally have m: "i * ?w + j < ?h * ?w" .
    then obtain v where v: "f (int (i * ?w + j)) p = Some v" "premult v"
      using f [of "i * ?w + j" p] d le n by (auto simp: done_to_def)
    show ?thesis
      using done_to_step [OF d _ v(2)] m le v(1) by (simp only: i Let_def) simp
  qed
  have row: "\<exists>p'. for_up 0 ?w (?body i) p = Some p' \<and> done_to (Suc i * ?w) paint p'"
    if "i < ?h" "done_to (i * ?w) paint p" for i p
    using for_up_total [where i = 0 and n = ?w and s = p and body = "?body i" and
        I = "\<lambda>j. done_to (i * ?w + j) paint"] step that by (simp add: add.commute)
  have "\<exists>p'. for_up 0 ?h (\<lambda>i. for_up 0 ?w (?body i)) paint = Some p' \<and> done_to ((0 + ?h) * ?w) paint p'"
    by (rule for_up_total) (use row in \<open>auto simp: done_to_def\<close>)
  then show ?thesis
    unfolding multiply_rows_def w(1) using L(1) by (auto simp: done_to_def paint_ok_def n)
qed

section \<open>The contract of a paint generator\<close>

locale paint_gen =
  fixes gen :: "renderer \<Rightarrow> jint \<Rightarrow> renderer option" and ok :: "renderer \<Rightarrow> bool"
  assumes fills: "ok rdr \<Longrightarrow> rdr_maxTouched rdr - rdr_minTouched rdr + 1 = rdr_alphaWidth rdr \<Longrightarrow>
      0 \<le> rdr_alphaWidth rdr \<Longrightarrow> 0 \<le> h \<Longrightarrow> h * rdr_alphaWidth rdr \<le> int (length (rdr_paint rdr)) \<Longrightarrow>
      \<exists>p. gen rdr h = Some (rdr\<lparr>rdr_paint := p\<rparr>) \<and> paint_ok (h * rdr_alphaWidth rdr) p"
    and ok_paint: "ok (rdr\<lparr>rdr_paint := p\<rparr>) = ok rdr"
begin

lemma alloc_fills:
  assumes "ok rdr" "rdr_maxTouched rdr - rdr_minTouched rdr + 1 = rdr_alphaWidth rdr"
    "0 \<le> rdr_alphaWidth rdr" "0 \<le> h"
  shows "\<exists>p. gen (ALLOC3_paint (rdr_alphaWidth rdr * h) rdr) h = Some (rdr\<lparr>rdr_paint := p\<rparr>) \<and>
    paint_ok (h * rdr_alphaWidth rdr) p"
proof -
  define q where "q = (if int (length (rdr_paint rdr)) < rdr_alphaWidth rdr * h
    then replicate (nat (rdr_alphaWidth rdr * h)) 0 else rdr_paint rdr)"
  have q: "ALLOC3_paint (rdr_alphaWidth rdr * h) rdr = rdr\<lparr>rdr_paint := q\<rparr>"
    by (simp add: ALLOC3_paint_def q_def)
  have "0 \<le> rdr_alphaWidth rdr * h" using assms(3,4) by simp
  then have "h * rdr_alphaWidth rdr \<le> int (length q)" by (simp add: q_def mult.commute)
  then show ?thesis unfolding q using fills [of "rdr\<lparr>rdr_paint := q\<rparr>" h] assms by (simp add: ok_paint)
qed

end

definition ramp_ok :: "renderer \<Rightarrow> bool" where
  "ramp_ok r \<longleftrightarrow> gradient_ok r \<and> premult_all (rdr_gradient_colors r)"

definition image_ok :: "renderer \<Rightarrow> bool" where
  "image_ok r \<longleftrightarrow> texture_ok (mode_size r) r \<and> rdr_texture_transformType r \<in> {1, 2, 3, 4} \<and>
     premult_all (rdr_texture_intData r)"

definition multiply_ok :: "renderer \<Rightarrow> bool" where
  "multiply_ok r \<longleftrightarrow> image_ok r \<and>
     (rdr_prevPaintMode r = PAINT_FLAT_COLOR \<and> color_ok r \<or>
      rdr_prevPaintMode r \<in> {PAINT_LINEAR_GRADIENT, PAINT_RADIAL_GRADIENT} \<and> gradient_ok r)"

lemma image_filled:
  assumes "image_ok rdr" "0 \<le> rdr_alphaWidth rdr" "0 \<le> h" "h * rdr_alphaWidth rdr \<le> int (length paint)"
  shows "\<exists>p. genTexturePaintTarget rdr paint h = Some p \<and> length p = length paint \<and>
    paint_ok (h * rdr_alphaWidth rdr) p"
  using genTexturePaintTarget_filled [OF _ assms(2-4)] assms(1,4)
  by (auto simp: image_ok_def filled_def tex_premult_def paint_ok_def)

interpretation lin: paint_gen "genLinearGradientPaint F g" ramp_ok for F g
proof
  fix rdr h
  assume a: "ramp_ok rdr" "0 \<le> rdr_alphaWidth rdr" "0 \<le> h" "h * rdr_alphaWidth rdr \<le> int (length (rdr_paint rdr))"
  then show "\<exists>p. genLinearGradientPaint F g rdr h = Some (rdr\<lparr>rdr_paint := p\<rparr>) \<and> paint_ok (h * rdr_alphaWidth rdr) p"
    using gradient_paint_filled [of rdr h "genLinearGradientPaint F g" F g]
    by (auto simp: ramp_ok_def filled_def paint_ok_def premult_all_def)
qed (simp add: ramp_ok_def gradient_ok_def)

interpretation rad: paint_gen "genRadialGradientPaint F g" ramp_ok for F g
proof
  fix rdr h
  assume a: "ramp_ok rdr" "0 \<le> rdr_alphaWidth rdr" "0 \<le> h" "h * rdr_alphaWidth rdr \<le> int (length (rdr_paint rdr))"
  then show "\<exists>p. genRadialGradientPaint F g rdr h = Some (rdr\<lparr>rdr_paint := p\<rparr>) \<and> paint_ok (h * rdr_alphaWidth rdr) p"
    using gradient_paint_filled [of rdr h "genRadialGradientPaint F g" F g]
    by (auto simp: ramp_ok_def filled_def paint_ok_def premult_all_def)
qed (simp add: ramp_ok_def gradient_ok_def)

interpretation tex: paint_gen genTexturePaint image_ok
proof
  fix rdr h
  assume "image_ok rdr" "0 \<le> rdr_alphaWidth rdr" "0 \<le> h" "h * rdr_alphaWidth rdr \<le> int (length (rdr_paint rdr))"
  from image_filled [OF this]
  show "\<exists>p. genTexturePaint rdr h = Some (rdr\<lparr>rdr_paint := p\<rparr>) \<and> paint_ok (h * rdr_alphaWidth rdr) p"
    by (auto simp: genTexturePaint_def)
qed (simp add: image_ok_def texture_ok_def mode_size_def)

lemma multiply_flat:
  assumes "image_ok rdr" "color_ok rdr" "rdr_maxTouched rdr - rdr_minTouched rdr + 1 = rdr_alphaWidth rdr"
    "0 \<le> rdr_alphaWidth rdr" "0 \<le> h" "h * rdr_alphaWidth rdr \<le> int (length (rdr_paint rdr))"
    "rdr_prevPaintMode rdr = PAINT_FLAT_COLOR"
  shows "\<exists>p. genTexturePaintMultiply F g rdr h = Some (rdr\<lparr>rdr_paint := p\<rparr>) \<and> paint_ok (h * rdr_alphaWidth rdr) p"
proof -
  obtain p0 where p0: "genTexturePaintTarget rdr (rdr_paint rdr) h = Some p0"
    "length p0 = length (rdr_paint rdr)" "paint_ok (h * rdr_alphaWidth rdr) p0"
    using image_filled [OF assms(1,4,5,6)] by blast
  have k: "0 \<le> rdr_calpha rdr + 1" "rdr_calpha rdr + 1 \<le> 256" and
    c: "chan (rdr_cred rdr)" "chan (rdr_cgreen rdr)" "chan (rdr_cblue rdr)"
    using assms(2) by (auto simp: color_ok_def chan_def)
  have m: "\<exists>p. multiply_rows (\<lambda>i p. map_option m (rd p i)) rdr h p0 = Some p \<and> length p = length p0 \<and>
      paint_ok (h * rdr_alphaWidth rdr) p"
    if "\<And>t. premult t \<Longrightarrow> premult (m t)" for m
    using that p0 assms(4-6)
    by (intro multiply_rows_ok assms(3)) (auto simp: paint_ok_def rd_def)
  have "\<exists>p. multiply_rows (\<lambda>i p. map_option (multiply_white (rdr_calpha rdr + 1)) (rd p i)) rdr h p0 = Some p \<and>
      length p = length p0 \<and> paint_ok (h * rdr_alphaWidth rdr) p"
    by (rule m) (rule multiply_white_premult [OF _ k])
  moreover have "\<exists>p. multiply_rows (\<lambda>i p. map_option (multiply_color (rdr_calpha rdr + 1) (rdr_cred rdr)
        (rdr_cgreen rdr) (rdr_cblue rdr)) (rd p i)) rdr h p0 = Some p \<and>
      length p = length p0 \<and> paint_ok (h * rdr_alphaWidth rdr) p"
    by (rule m) (rule multiply_color_premult [OF _ k c])
  moreover note p0
  ultimately show ?thesis unfolding genTexturePaintMultiply_def assms(7) by (auto simp: Let_def)
qed

lemma multiply_gradient:
  assumes "image_ok rdr" "gradient_ok rdr" "rdr_maxTouched rdr - rdr_minTouched rdr + 1 = rdr_alphaWidth rdr"
    "0 \<le> rdr_alphaWidth rdr" "0 \<le> h" "h * rdr_alphaWidth rdr \<le> int (length (rdr_paint rdr))"
    "rdr_prevPaintMode rdr \<in> {PAINT_LINEAR_GRADIENT, PAINT_RADIAL_GRADIENT}"
  shows "\<exists>p. genTexturePaintMultiply F g rdr h = Some (rdr\<lparr>rdr_paint := p\<rparr>) \<and> paint_ok (h * rdr_alphaWidth rdr) p"
proof -
  let ?gen = "if rdr_prevPaintMode rdr = PAINT_LINEAR_GRADIENT then genLinearGradientPaint F g
    else genRadialGradientPaint F g"
  obtain p1 where p1: "?gen rdr h = Some (rdr\<lparr>rdr_paint := p1\<rparr>)" "length p1 = length (rdr_paint rdr)"
    using gradient_paint_filled [OF assms(2,4-6), of ?gen F g]
    by (cases "rdr_prevPaintMode rdr = PAINT_LINEAR_GRADIENT") (auto simp: filled_def)
  let ?r = "rdr\<lparr>rdr_paint := p1\<rparr>"
  have "image_ok ?r" using assms(1) by (simp add: tex.ok_paint)
  then obtain im where im: "genTexturePaintTarget ?r (replicate (nat (rdr_alphaWidth rdr * h)) 0) h = Some im"
    "length im = nat (rdr_alphaWidth rdr * h)" "paint_ok (h * rdr_alphaWidth rdr) im"
    using image_filled [of ?r h "replicate (nat (rdr_alphaWidth rdr * h)) 0"] assms(4,5)
    by (auto simp: mult.commute)
  have "\<exists>p. multiply_rows (\<lambda>i p. do { pval \<leftarrow> rd p i; tval \<leftarrow> rd im i; Some (multiply_paint pval tval) }) ?r h p1 =
      Some p \<and> length p = length p1 \<and> paint_ok (h * rdr_alphaWidth ?r) p"
    using im p1(2) assms(3-6)
    by (intro multiply_rows_ok) (auto simp: paint_ok_def rd_def multiply_paint_premult mult.commute)
  moreover have "PAINT_FLAT_COLOR \<notin> {PAINT_LINEAR_GRADIENT, PAINT_RADIAL_GRADIENT}"
    by (simp add: PAINT_FLAT_COLOR_def PAINT_LINEAR_GRADIENT_def PAINT_RADIAL_GRADIENT_def)
  ultimately show ?thesis
    unfolding genTexturePaintMultiply_def Let_def
    using p1(1) im(1) assms(3,7) by (cases "rdr_prevPaintMode rdr = PAINT_LINEAR_GRADIENT") auto
qed

interpretation mult: paint_gen "genTexturePaintMultiply F g" multiply_ok for F g
proof
  fix rdr h
  assume "multiply_ok rdr" "rdr_maxTouched rdr - rdr_minTouched rdr + 1 = rdr_alphaWidth rdr"
    "0 \<le> rdr_alphaWidth rdr" "0 \<le> h" "h * rdr_alphaWidth rdr \<le> int (length (rdr_paint rdr))"
  then show "\<exists>p. genTexturePaintMultiply F g rdr h = Some (rdr\<lparr>rdr_paint := p\<rparr>) \<and> paint_ok (h * rdr_alphaWidth rdr) p"
    using multiply_flat [of rdr h F g] multiply_gradient [of rdr h F g] by (auto simp: multiply_ok_def)
qed (simp add: multiply_ok_def tex.ok_paint gradient_ok_def color_ok_def)

section \<open>Calling the selected generator\<close>

definition source_ok :: "renderer \<Rightarrow> bool" where
  "source_ok r \<longleftrightarrow>
    (case rdr_genPaint r of None \<Rightarrow> color_ok r
     | Some GenLinearGradientPaint \<Rightarrow> ramp_ok r | Some GenRadialGradientPaint \<Rightarrow> ramp_ok r
     | Some GenTexturePaint \<Rightarrow> image_ok r | Some GenTexturePaintMultiply \<Rightarrow> multiply_ok r)"

lemma call_genPaint_fills:
  assumes "source_ok rdr" "rdr_maxTouched rdr - rdr_minTouched rdr + 1 = rdr_alphaWidth rdr"
    "0 \<le> rdr_alphaWidth rdr" "0 \<le> h"
  shows "\<exists>p. call_genPaint F g (rdr_alphaWidth rdr * h) rdr h = Some (rdr\<lparr>rdr_paint := p\<rparr>) \<and>
    (rdr_genPaint rdr \<noteq> None \<longrightarrow> paint_ok (h * rdr_alphaWidth rdr) p)"
proof (cases "rdr_genPaint rdr")
  case None
  then show ?thesis by (auto simp: call_genPaint_def intro: exI [of _ "rdr_paint rdr"])
next
  case (Some p)
  then show ?thesis
    using assms(1) lin.alloc_fills [OF _ assms(2-4), of F g] rad.alloc_fills [OF _ assms(2-4), of F g]
      tex.alloc_fills [OF _ assms(2-4)] mult.alloc_fills [OF _ assms(2-4), of F g]
    by (cases p) (simp_all add: call_genPaint_def run_paint_def source_ok_def)
qed

end
