(* ===== verification/Pisces_Validate.thy ===== *)
theory Pisces_Validate
  imports Pisces_Renderer
begin

text \<open>
  The incremental validation of PiscesRenderer.inl is correct: whatever sequence of setters ran
  since the renderer was created, \<open>VALIDATE_BLITTING\<close> leaves the routines and the internal colour
  that a recomputation from scratch would give, and clears every invalid bit.
\<close>

section \<open>The transition system\<close>

inductive renderer_step :: "renderer \<Rightarrow> renderer \<Rightarrow> bool" where
  step_color: "renderer_step r (renderer_setColor red green blue alpha r)"
| step_composite: "rule \<in> {COMPOSITE_CLEAR, COMPOSITE_SRC, COMPOSITE_SRC_OVER} \<Longrightarrow>
    renderer_step r (renderer_setCompositeRule rule r)"
| step_mask: "m \<in> {ALPHA_MASK, LCD_ALPHA_MASK} \<Longrightarrow> renderer_step r (renderer_setMask m bytes w h r)"
| step_removeMask: "renderer_step r (renderer_removeMask r)"
| step_paint: "mode \<in> {PAINT_LINEAR_GRADIENT, PAINT_RADIAL_GRADIENT, PAINT_TEXTURE8888,
    PAINT_TEXTURE8888_MULTIPLY} \<Longrightarrow> renderer_step r (setPaintMode mode r)"
| step_clip: "renderer_step r (renderer_setClip x y w h r)"
| step_invalidate: "renderer_step r (INVALIDATE_RENDERER_SURFACE r)"
| step_acquire: "renderer_step r (INVALIDATE_RENDERER_SURFACE (acquired d r))"
| step_validate: "renderer_step r (VALIDATE_BLITTING r)"

inductive_cases renderer_stepE: "renderer_step r r'"

inductive renderer_reach :: "surface \<Rightarrow> renderer \<Rightarrow> bool" for sf where
  reach_create: "renderer_reach sf (renderer_create sf)"
| reach_step: "renderer_reach sf r \<Longrightarrow> renderer_step r r' \<Longrightarrow> renderer_reach sf r'"

section \<open>The invariant\<close>

definition routines_ok :: "renderer \<Rightarrow> bool" where
  "routines_ok r \<longleftrightarrow> tables_ok r \<and>
     (let st = rdr_rendererState r
      in (\<not> bit st 7 \<longrightarrow> mask_sel r) \<and> (\<not> bit st 7 \<and> \<not> bit st 5 \<longrightarrow> comp_sel r) \<and>
         (\<not> bit st 7 \<and> \<not> bit st 5 \<and> \<not> bit st 6 \<longrightarrow> paint_sel r))"

definition coherent :: "renderer \<Rightarrow> bool" where
  "coherent r \<longleftrightarrow> config_ok r \<and>
     (rdr_imageType r = -1 \<and> bit (rdr_rendererState r) 4 \<or>
      rdr_imageType r = TYPE_INT_ARGB_PRE \<and> routines_ok r) \<and>
     (\<not> bit (rdr_rendererState r) 3 \<longrightarrow> color_sel r) \<and>
     (\<not> bit (rdr_rendererState r) 4 \<longrightarrow>
        rdr_width r = sf_width (rdr_surface r) \<and> rdr_height r = sf_height (rdr_surface r))"

lemmas sel_defs = tables_ok_def mask_sel_def comp_sel_def paint_sel_def color_sel_def config_ok_def

lemma mark_bit: "bit (rdr_rendererState (mark f r)) n \<longleftrightarrow> bit (rdr_rendererState r) n \<or> bit f n"
  by (simp add: mark_def bit_or_iff)

lemma mark_sels [simp]:
  "tables_ok (mark f r) = tables_ok r" "mask_sel (mark f r) = mask_sel r"
  "comp_sel (mark f r) = comp_sel r" "paint_sel (mark f r) = paint_sel r"
  "color_sel (mark f r) = color_sel r" "config_ok (mark f r) = config_ok r"
  "rdr_imageType (mark f r) = rdr_imageType r" "rdr_surface (mark f r) = rdr_surface r"
  "rdr_width (mark f r) = rdr_width r" "rdr_height (mark f r) = rdr_height r"
  by (simp_all add: sel_defs mark_def)

lemma coherent_mark: "coherent r \<Longrightarrow> coherent (mark f r)"
  by (auto simp: coherent_def routines_ok_def mark_bit Let_def)

text \<open>Setters that change a field mark what depends on it.\<close>

lemma unaffected_sels [simp]:
  "tables_ok (r\<lparr>rdr_ured := a, rdr_ugreen := b, rdr_ublue := c, rdr_ualpha := d\<rparr>) = tables_ok r"
  "mask_sel (r\<lparr>rdr_ured := a, rdr_ugreen := b, rdr_ublue := c, rdr_ualpha := d\<rparr>) = mask_sel r"
  "comp_sel (r\<lparr>rdr_ured := a, rdr_ugreen := b, rdr_ublue := c, rdr_ualpha := d\<rparr>) = comp_sel r"
  "paint_sel (r\<lparr>rdr_ured := a, rdr_ugreen := b, rdr_ublue := c, rdr_ualpha := d\<rparr>) = paint_sel r"
  "config_ok (r\<lparr>rdr_ured := a, rdr_ugreen := b, rdr_ublue := c, rdr_ualpha := d\<rparr>) = config_ok r"
  "tables_ok (r\<lparr>rdr_compositeRule := rule\<rparr>) = tables_ok r"
  "mask_sel (r\<lparr>rdr_compositeRule := rule\<rparr>) = mask_sel r"
  "paint_sel (r\<lparr>rdr_compositeRule := rule\<rparr>) = paint_sel r"
  "tables_ok (r\<lparr>rdr_texture_intData := [], rdr_prevPaintMode := q, rdr_paintMode := mode\<rparr>) = tables_ok r"
  "mask_sel (r\<lparr>rdr_texture_intData := [], rdr_prevPaintMode := q, rdr_paintMode := mode\<rparr>) = mask_sel r"
  "comp_sel (r\<lparr>rdr_texture_intData := [], rdr_prevPaintMode := q, rdr_paintMode := mode\<rparr>) = comp_sel r"
  "color_sel (r\<lparr>rdr_texture_intData := [], rdr_prevPaintMode := q, rdr_paintMode := mode\<rparr>) = color_sel r"
  "tables_ok (r\<lparr>rdr_maskType := m, rdr_mask_byteData := e, rdr_mask_width := w, rdr_mask_height := h\<rparr>) = tables_ok r"
  "comp_sel (r\<lparr>rdr_maskType := m, rdr_mask_byteData := e, rdr_mask_width := w, rdr_mask_height := h\<rparr>) = comp_sel r"
  "paint_sel (r\<lparr>rdr_maskType := m, rdr_mask_byteData := e, rdr_mask_width := w, rdr_mask_height := h\<rparr>) = paint_sel r"
  "color_sel (r\<lparr>rdr_maskType := m, rdr_mask_byteData := e, rdr_mask_width := w, rdr_mask_height := h\<rparr>) = color_sel r"
  "tables_ok (r\<lparr>rdr_maskType := m, rdr_mask_byteData := e\<rparr>) = tables_ok r"
  "comp_sel (r\<lparr>rdr_maskType := m, rdr_mask_byteData := e\<rparr>) = comp_sel r"
  "paint_sel (r\<lparr>rdr_maskType := m, rdr_mask_byteData := e\<rparr>) = paint_sel r"
  "color_sel (r\<lparr>rdr_maskType := m, rdr_mask_byteData := e\<rparr>) = color_sel r"
  by (simp_all only: sel_defs) simp_all

lemma coherent_color:
  assumes "coherent r" "bit (rdr_rendererState r) 3"
  shows "coherent (r\<lparr>rdr_ured := a, rdr_ugreen := b, rdr_ublue := c, rdr_ualpha := d\<rparr>)"
  using assms by (simp add: coherent_def routines_ok_def Let_def)

lemma coherent_composite:
  assumes "coherent r" "bit (rdr_rendererState r) 3" "bit (rdr_rendererState r) 5"
    "rule \<in> {COMPOSITE_CLEAR, COMPOSITE_SRC, COMPOSITE_SRC_OVER}"
  shows "coherent (r\<lparr>rdr_compositeRule := rule\<rparr>)"
proof -
  have "config_ok (r\<lparr>rdr_compositeRule := rule\<rparr>)" using assms by (simp add: coherent_def config_ok_def)
  with assms show ?thesis by (simp add: coherent_def routines_ok_def Let_def)
qed

lemma coherent_paint:
  assumes "coherent r" "bit (rdr_rendererState r) 6"
    "mode \<in> {PAINT_FLAT_COLOR, PAINT_LINEAR_GRADIENT, PAINT_RADIAL_GRADIENT, PAINT_TEXTURE8888,
      PAINT_TEXTURE8888_MULTIPLY}"
  shows "coherent (r\<lparr>rdr_texture_intData := [], rdr_prevPaintMode := q, rdr_paintMode := mode\<rparr>)"
proof -
  have "config_ok (r\<lparr>rdr_texture_intData := [], rdr_prevPaintMode := q, rdr_paintMode := mode\<rparr>)"
    using assms by (simp add: coherent_def config_ok_def)
  with assms show ?thesis by (simp add: coherent_def routines_ok_def Let_def)
qed

lemma coherent_mask:
  assumes "coherent r" "bit (rdr_rendererState r) 7" "m \<in> {NO_MASK, ALPHA_MASK, LCD_ALPHA_MASK}"
  shows "coherent (r\<lparr>rdr_maskType := m, rdr_mask_byteData := e\<rparr>)"
    "coherent (r\<lparr>rdr_maskType := m, rdr_mask_byteData := e, rdr_mask_width := w, rdr_mask_height := h\<rparr>)"
proof -
  have "config_ok (r\<lparr>rdr_maskType := m, rdr_mask_byteData := e\<rparr>)"
    "config_ok (r\<lparr>rdr_maskType := m, rdr_mask_byteData := e, rdr_mask_width := w, rdr_mask_height := h\<rparr>)"
    using assms by (simp_all add: coherent_def config_ok_def)
  with assms show "coherent (r\<lparr>rdr_maskType := m, rdr_mask_byteData := e\<rparr>)"
    "coherent (r\<lparr>rdr_maskType := m, rdr_mask_byteData := e, rdr_mask_width := w, rdr_mask_height := h\<rparr>)"
    by (simp_all add: coherent_def routines_ok_def Let_def)
qed

lemma flag_bit_values:
  "bit INVALID_INTERNAL_COLOR 3" "bit INVALID_PAINT_DEPENDED_ROUTINES 6"
  "bit (INVALID_INTERNAL_COLOR OR INVALID_COMPOSITE_DEPENDED_ROUTINES) 3"
  "bit (INVALID_INTERNAL_COLOR OR INVALID_COMPOSITE_DEPENDED_ROUTINES) 5"
  "bit (INVALID_BLITTING_MASK OR INVALID_MASK_DEPENDED_ROUTINES) 7"
  by (simp_all add: renderer_consts bit_numeral_rec)

lemma coherent_setPaintMode:
  assumes "coherent r" "mode \<in> {PAINT_FLAT_COLOR, PAINT_LINEAR_GRADIENT, PAINT_RADIAL_GRADIENT,
    PAINT_TEXTURE8888, PAINT_TEXTURE8888_MULTIPLY}"
  shows "coherent (setPaintMode mode r)"
  using assms unfolding setPaintMode_def
  by (auto simp del: insert_iff intro!: coherent_paint coherent_mark simp: mark_bit flag_bit_values)

lemma coherent_setColor: "coherent r \<Longrightarrow> coherent (renderer_setColor red green blue alpha r)"
  unfolding renderer_setColor_def Let_def
  by (intro coherent_setPaintMode)
    (auto intro!: coherent_color coherent_mark simp: mark_bit flag_bit_values)

lemma coherent_setCompositeRule:
  assumes "coherent r" "rule \<in> {COMPOSITE_CLEAR, COMPOSITE_SRC, COMPOSITE_SRC_OVER}"
  shows "coherent (renderer_setCompositeRule rule r)"
  using assms unfolding renderer_setCompositeRule_def Let_def
  by (auto simp del: insert_iff intro!: coherent_composite coherent_mark simp: mark_bit flag_bit_values)

lemma mark_swap:
  "mark f (r\<lparr>rdr_maskType := m, rdr_mask_byteData := d\<rparr>) = (mark f r)\<lparr>rdr_maskType := m, rdr_mask_byteData := d\<rparr>"
  "mark f (r\<lparr>rdr_maskType := m, rdr_mask_byteData := d, rdr_mask_width := w, rdr_mask_height := h\<rparr>) =
     (mark f r)\<lparr>rdr_maskType := m, rdr_mask_byteData := d, rdr_mask_width := w, rdr_mask_height := h\<rparr>"
  by (simp_all add: mark_def)

lemma coherent_setMask:
  assumes "coherent r"
  shows "m \<in> {ALPHA_MASK, LCD_ALPHA_MASK} \<Longrightarrow> coherent (renderer_setMask m d w h r)"
    "coherent (renderer_removeMask r)"
  unfolding renderer_setMask_def renderer_removeMask_def mark_swap
  by (rule coherent_mask; use assms in \<open>auto intro!: coherent_mark simp: mark_bit flag_bit_values\<close>)+

section \<open>Validation\<close>

lemma updateSurfaceRoutines_keeps [simp]:
  shows "rdr_paintMode (updateSurfaceDependedRoutines rdr) = rdr_paintMode rdr"
    "rdr_prevPaintMode (updateSurfaceDependedRoutines rdr) = rdr_prevPaintMode rdr"
    "rdr_compositeRule (updateSurfaceDependedRoutines rdr) = rdr_compositeRule rdr"
    "rdr_maskType (updateSurfaceDependedRoutines rdr) = rdr_maskType rdr"
    "rdr_surface (updateSurfaceDependedRoutines rdr) = rdr_surface rdr"
    "rdr_ured (updateSurfaceDependedRoutines rdr) = rdr_ured rdr"
    "rdr_ugreen (updateSurfaceDependedRoutines rdr) = rdr_ugreen rdr"
    "rdr_ublue (updateSurfaceDependedRoutines rdr) = rdr_ublue rdr"
    "rdr_ualpha (updateSurfaceDependedRoutines rdr) = rdr_ualpha rdr"
    "rdr_data (updateSurfaceDependedRoutines rdr) = rdr_data rdr"
    "rdr_clip_bbMinX (updateSurfaceDependedRoutines rdr) = rdr_clip_bbMinX rdr"
    "rdr_clip_bbMinY (updateSurfaceDependedRoutines rdr) = rdr_clip_bbMinY rdr"
    "rdr_clip_bbMaxX (updateSurfaceDependedRoutines rdr) = rdr_clip_bbMaxX rdr"
    "rdr_clip_bbMaxY (updateSurfaceDependedRoutines rdr) = rdr_clip_bbMaxY rdr"
    "rdr_mask_byteData (updateSurfaceDependedRoutines rdr) = rdr_mask_byteData rdr"
    "rdr_texture_intData (updateSurfaceDependedRoutines rdr) = rdr_texture_intData rdr"
    "rdr_gradient_colors (updateSurfaceDependedRoutines rdr) = rdr_gradient_colors rdr"
    "rdr_gradient_cycleMethod (updateSurfaceDependedRoutines rdr) = rdr_gradient_cycleMethod rdr"
    "rdr_paint (updateSurfaceDependedRoutines rdr) = rdr_paint rdr"
    "rdr_rowAAInt (updateSurfaceDependedRoutines rdr) = rdr_rowAAInt rdr"
    "rdr_alphaMap (updateSurfaceDependedRoutines rdr) = rdr_alphaMap rdr"
    "rdr_maskOffset (updateSurfaceDependedRoutines rdr) = rdr_maskOffset rdr"
    "rdr_gammaArray (updateSurfaceDependedRoutines rdr) = rdr_gammaArray rdr"
    "rdr_invGammaArray (updateSurfaceDependedRoutines rdr) = rdr_invGammaArray rdr"
    "rdr_cred (updateSurfaceDependedRoutines rdr) = rdr_cred rdr"
    "rdr_cgreen (updateSurfaceDependedRoutines rdr) = rdr_cgreen rdr"
    "rdr_cblue (updateSurfaceDependedRoutines rdr) = rdr_cblue rdr"
    "rdr_calpha (updateSurfaceDependedRoutines rdr) = rdr_calpha rdr"
    "rdr_imageType (updateSurfaceDependedRoutines rdr) = rdr_imageType rdr"
    "rdr_width (updateSurfaceDependedRoutines rdr) = rdr_width rdr"
    "rdr_height (updateSurfaceDependedRoutines rdr) = rdr_height rdr"
    "rdr_imageOffset (updateSurfaceDependedRoutines rdr) = rdr_imageOffset rdr"
    "rdr_imageScanlineStride (updateSurfaceDependedRoutines rdr) = rdr_imageScanlineStride rdr"
    "rdr_imagePixelStride (updateSurfaceDependedRoutines rdr) = rdr_imagePixelStride rdr"
  by (simp_all add: updateSurfaceDependedRoutines_def)

lemma updateRendererSurface_keeps [simp]:
  shows "rdr_paintMode (updateRendererSurface rdr) = rdr_paintMode rdr"
    "rdr_prevPaintMode (updateRendererSurface rdr) = rdr_prevPaintMode rdr"
    "rdr_compositeRule (updateRendererSurface rdr) = rdr_compositeRule rdr"
    "rdr_maskType (updateRendererSurface rdr) = rdr_maskType rdr"
    "rdr_surface (updateRendererSurface rdr) = rdr_surface rdr"
    "rdr_ured (updateRendererSurface rdr) = rdr_ured rdr"
    "rdr_ugreen (updateRendererSurface rdr) = rdr_ugreen rdr"
    "rdr_ublue (updateRendererSurface rdr) = rdr_ublue rdr"
    "rdr_ualpha (updateRendererSurface rdr) = rdr_ualpha rdr"
    "rdr_data (updateRendererSurface rdr) = sf_data (rdr_surface rdr)"
    "rdr_clip_bbMinX (updateRendererSurface rdr) = rdr_clip_bbMinX rdr"
    "rdr_clip_bbMinY (updateRendererSurface rdr) = rdr_clip_bbMinY rdr"
    "rdr_clip_bbMaxX (updateRendererSurface rdr) = rdr_clip_bbMaxX rdr"
    "rdr_clip_bbMaxY (updateRendererSurface rdr) = rdr_clip_bbMaxY rdr"
    "rdr_mask_byteData (updateRendererSurface rdr) = rdr_mask_byteData rdr"
    "rdr_texture_intData (updateRendererSurface rdr) = rdr_texture_intData rdr"
    "rdr_gradient_colors (updateRendererSurface rdr) = rdr_gradient_colors rdr"
    "rdr_gradient_cycleMethod (updateRendererSurface rdr) = rdr_gradient_cycleMethod rdr"
    "rdr_paint (updateRendererSurface rdr) = rdr_paint rdr"
    "rdr_rowAAInt (updateRendererSurface rdr) = rdr_rowAAInt rdr"
    "rdr_alphaMap (updateRendererSurface rdr) = rdr_alphaMap rdr"
    "rdr_maskOffset (updateRendererSurface rdr) = rdr_maskOffset rdr"
    "rdr_gammaArray (updateRendererSurface rdr) = rdr_gammaArray rdr"
    "rdr_invGammaArray (updateRendererSurface rdr) = rdr_invGammaArray rdr"
    "rdr_cred (updateRendererSurface rdr) = rdr_cred rdr"
    "rdr_cgreen (updateRendererSurface rdr) = rdr_cgreen rdr"
    "rdr_cblue (updateRendererSurface rdr) = rdr_cblue rdr"
    "rdr_calpha (updateRendererSurface rdr) = rdr_calpha rdr"
  by (simp_all add: updateRendererSurface_def unmark_def mark_def Let_def)

lemma updateInternalColor_keeps [simp]:
  shows "rdr_paintMode (updateInternalColor rdr) = rdr_paintMode rdr"
    "rdr_prevPaintMode (updateInternalColor rdr) = rdr_prevPaintMode rdr"
    "rdr_compositeRule (updateInternalColor rdr) = rdr_compositeRule rdr"
    "rdr_maskType (updateInternalColor rdr) = rdr_maskType rdr"
    "rdr_surface (updateInternalColor rdr) = rdr_surface rdr"
    "rdr_ured (updateInternalColor rdr) = rdr_ured rdr"
    "rdr_ugreen (updateInternalColor rdr) = rdr_ugreen rdr"
    "rdr_ublue (updateInternalColor rdr) = rdr_ublue rdr"
    "rdr_ualpha (updateInternalColor rdr) = rdr_ualpha rdr"
    "rdr_data (updateInternalColor rdr) = rdr_data rdr"
    "rdr_clip_bbMinX (updateInternalColor rdr) = rdr_clip_bbMinX rdr"
    "rdr_clip_bbMinY (updateInternalColor rdr) = rdr_clip_bbMinY rdr"
    "rdr_clip_bbMaxX (updateInternalColor rdr) = rdr_clip_bbMaxX rdr"
    "rdr_clip_bbMaxY (updateInternalColor rdr) = rdr_clip_bbMaxY rdr"
    "rdr_mask_byteData (updateInternalColor rdr) = rdr_mask_byteData rdr"
    "rdr_texture_intData (updateInternalColor rdr) = rdr_texture_intData rdr"
    "rdr_gradient_colors (updateInternalColor rdr) = rdr_gradient_colors rdr"
    "rdr_gradient_cycleMethod (updateInternalColor rdr) = rdr_gradient_cycleMethod rdr"
    "rdr_paint (updateInternalColor rdr) = rdr_paint rdr"
    "rdr_rowAAInt (updateInternalColor rdr) = rdr_rowAAInt rdr"
    "rdr_alphaMap (updateInternalColor rdr) = rdr_alphaMap rdr"
    "rdr_maskOffset (updateInternalColor rdr) = rdr_maskOffset rdr"
    "rdr_gammaArray (updateInternalColor rdr) = rdr_gammaArray rdr"
    "rdr_invGammaArray (updateInternalColor rdr) = rdr_invGammaArray rdr"
    "rdr_bl_SourceOverNoMask (updateInternalColor rdr) = rdr_bl_SourceOverNoMask rdr"
    "rdr_bl_PT_SourceOverNoMask (updateInternalColor rdr) = rdr_bl_PT_SourceOverNoMask rdr"
    "rdr_bl_SourceNoMask (updateInternalColor rdr) = rdr_bl_SourceNoMask rdr"
    "rdr_bl_PT_SourceNoMask (updateInternalColor rdr) = rdr_bl_PT_SourceNoMask rdr"
    "rdr_bl_SourceOverMask (updateInternalColor rdr) = rdr_bl_SourceOverMask rdr"
    "rdr_bl_PT_SourceOverMask (updateInternalColor rdr) = rdr_bl_PT_SourceOverMask rdr"
    "rdr_bl_SourceMask (updateInternalColor rdr) = rdr_bl_SourceMask rdr"
    "rdr_bl_PT_SourceMask (updateInternalColor rdr) = rdr_bl_PT_SourceMask rdr"
    "rdr_bl_SourceOverLCDMask (updateInternalColor rdr) = rdr_bl_SourceOverLCDMask rdr"
    "rdr_bl_PT_SourceOverLCDMask (updateInternalColor rdr) = rdr_bl_PT_SourceOverLCDMask rdr"
    "rdr_bl_SourceLCDMask (updateInternalColor rdr) = rdr_bl_SourceLCDMask rdr"
    "rdr_bl_PT_SourceLCDMask (updateInternalColor rdr) = rdr_bl_PT_SourceLCDMask rdr"
    "rdr_bl_Clear (updateInternalColor rdr) = rdr_bl_Clear rdr"
    "rdr_bl_PT_Clear (updateInternalColor rdr) = rdr_bl_PT_Clear rdr"
    "rdr_el_Source (updateInternalColor rdr) = rdr_el_Source rdr"
    "rdr_el_SourceOver (updateInternalColor rdr) = rdr_el_SourceOver rdr"
    "rdr_el_PT_Source (updateInternalColor rdr) = rdr_el_PT_Source rdr"
    "rdr_el_PT_SourceOver (updateInternalColor rdr) = rdr_el_PT_SourceOver rdr"
    "rdr_clearRect_set (updateInternalColor rdr) = rdr_clearRect_set rdr"
    "rdr_bl_SourceOver (updateInternalColor rdr) = rdr_bl_SourceOver rdr"
    "rdr_bl_PT_SourceOver (updateInternalColor rdr) = rdr_bl_PT_SourceOver rdr"
    "rdr_bl_Source (updateInternalColor rdr) = rdr_bl_Source rdr"
    "rdr_bl_PT_Source (updateInternalColor rdr) = rdr_bl_PT_Source rdr"
    "rdr_bl (updateInternalColor rdr) = rdr_bl rdr"
    "rdr_bl_PT (updateInternalColor rdr) = rdr_bl_PT rdr"
    "rdr_el (updateInternalColor rdr) = rdr_el rdr"
    "rdr_el_PT (updateInternalColor rdr) = rdr_el_PT rdr"
    "rdr_emitRows (updateInternalColor rdr) = rdr_emitRows rdr"
    "rdr_emitLine (updateInternalColor rdr) = rdr_emitLine rdr"
    "rdr_genPaint (updateInternalColor rdr) = rdr_genPaint rdr"
    "rdr_imageType (updateInternalColor rdr) = rdr_imageType rdr"
    "rdr_width (updateInternalColor rdr) = rdr_width rdr"
    "rdr_height (updateInternalColor rdr) = rdr_height rdr"
    "rdr_imageOffset (updateInternalColor rdr) = rdr_imageOffset rdr"
    "rdr_imageScanlineStride (updateInternalColor rdr) = rdr_imageScanlineStride rdr"
    "rdr_imagePixelStride (updateInternalColor rdr) = rdr_imagePixelStride rdr"
  by (simp_all add: updateInternalColor_def unmark_def)

text \<open>The routine part of the invariant, relative to the invalid bits \<open>st\<close> found at the start.\<close>

definition pending :: "int \<Rightarrow> renderer \<Rightarrow> bool" where
  "pending st r \<longleftrightarrow> config_ok r \<and> rdr_imageType r = TYPE_INT_ARGB_PRE \<and> tables_ok r \<and>
     (\<not> bit st 7 \<longrightarrow> mask_sel r) \<and> (\<not> bit st 7 \<and> \<not> bit st 5 \<longrightarrow> comp_sel r) \<and>
     (\<not> bit st 7 \<and> \<not> bit st 5 \<and> \<not> bit st 6 \<longrightarrow> paint_sel r)"

lemma tables_ok_updates [simp]:
  "tables_ok (updatePaintDependedRoutines r) = tables_ok r"
  "tables_ok (updateCompositeDependedRoutines r) = tables_ok r"
  "tables_ok (updateMaskDependedRoutines r) = tables_ok r" "tables_ok (unmark f r) = tables_ok r"
  "config_ok (updatePaintDependedRoutines r) = config_ok r"
  "config_ok (updateCompositeDependedRoutines r) = config_ok r"
  "config_ok (updateMaskDependedRoutines r) = config_ok r" "config_ok (unmark f r) = config_ok r"
  by (simp_all only: tables_ok_def config_ok_def updatePaint_keeps updateComposite_keeps updateMask_keeps)
     (simp_all add: unmark_def)

lemma surface_routines:
  assumes "config_ok r" "rdr_imageType r = TYPE_INT_ARGB_PRE"
  shows "tables_ok (updateSurfaceDependedRoutines r)" "mask_sel (updateSurfaceDependedRoutines r)"
    "comp_sel (updateSurfaceDependedRoutines r)" "paint_sel (updateSurfaceDependedRoutines r)"
    "config_ok (updateSurfaceDependedRoutines r)"
    "bit (rdr_rendererState (updateSurfaceDependedRoutines r)) n \<longleftrightarrow> bit (rdr_rendererState r) n \<and> n \<notin> {5, 6, 7}"
proof -
  obtain r' where r': "updateSurfaceDependedRoutines r = updateMaskDependedRoutines r'"
    "tables_ok r'" "config_ok r'" "rdr_rendererState r' = rdr_rendererState r"
    using assms unfolding updateSurfaceDependedRoutines_def
    by (fastforce simp: tables_ok_def config_ok_def)
  then show "tables_ok (updateSurfaceDependedRoutines r)" "mask_sel (updateSurfaceDependedRoutines r)"
    "comp_sel (updateSurfaceDependedRoutines r)" "paint_sel (updateSurfaceDependedRoutines r)"
    "config_ok (updateSurfaceDependedRoutines r)"
    "bit (rdr_rendererState (updateSurfaceDependedRoutines r)) n \<longleftrightarrow> bit (rdr_rendererState r) n \<and> n \<notin> {5, 6, 7}"
    by (simp_all add: mask_sel_update update_bits)
qed

lemma layout_sels [simp]:
  "tables_ok (r\<lparr>rdr_width := w, rdr_height := h, rdr_data := d, rdr_imageOffset := ofs, rdr_imageScanlineStride := ss, rdr_imagePixelStride := ps\<rparr>) = tables_ok r"
  "mask_sel (r\<lparr>rdr_width := w, rdr_height := h, rdr_data := d, rdr_imageOffset := ofs, rdr_imageScanlineStride := ss, rdr_imagePixelStride := ps\<rparr>) = mask_sel r"
  "comp_sel (r\<lparr>rdr_width := w, rdr_height := h, rdr_data := d, rdr_imageOffset := ofs, rdr_imageScanlineStride := ss, rdr_imagePixelStride := ps\<rparr>) = comp_sel r"
  "paint_sel (r\<lparr>rdr_width := w, rdr_height := h, rdr_data := d, rdr_imageOffset := ofs, rdr_imageScanlineStride := ss, rdr_imagePixelStride := ps\<rparr>) = paint_sel r"
  "config_ok (r\<lparr>rdr_width := w, rdr_height := h, rdr_data := d, rdr_imageOffset := ofs, rdr_imageScanlineStride := ss, rdr_imagePixelStride := ps\<rparr>) = config_ok r"
  "config_ok (r\<lparr>rdr_imageType := i\<rparr>) = config_ok r"
  by (simp_all only: sel_defs) simp_all

lemma updateRendererSurface_pending:
  assumes "coherent r"
  shows "pending (rdr_rendererState r) (updateRendererSurface r)"
    and "rdr_width (updateRendererSurface r) = sf_width (rdr_surface r)"
    and "rdr_height (updateRendererSurface r) = sf_height (rdr_surface r)"
    and "3 \<le> n \<Longrightarrow> bit (rdr_rendererState (updateRendererSurface r)) n \<Longrightarrow>
      bit (rdr_rendererState r) n \<and> n \<noteq> 4"
proof -
  let ?sf = "rdr_surface r"
  define r0 where "r0 = r\<lparr>rdr_width := sf_width ?sf, rdr_height := sf_height ?sf, rdr_data := sf_data ?sf, rdr_imageOffset := sf_offset ?sf,
    rdr_imageScanlineStride := sf_scanlineStride ?sf, rdr_imagePixelStride := sf_pixelStride ?sf\<rparr>"
  have c: "config_ok r" "sf_imageType ?sf = TYPE_INT_ARGB_PRE"
    using assms by (simp_all add: coherent_def config_ok_def)
  have r0: "config_ok r0" "rdr_imageType r0 = rdr_imageType r" "rdr_surface r0 = ?sf"
    "rdr_rendererState r0 = rdr_rendererState r" "rdr_compositeRule r0 = rdr_compositeRule r"
    using c by (simp_all add: r0_def)
  have wh: "rdr_width r0 = sf_width ?sf" "rdr_height r0 = sf_height ?sf" by (simp_all add: r0_def)
  have "pending (rdr_rendererState r) (updateRendererSurface r) \<and>
    rdr_width (updateRendererSurface r) = sf_width ?sf \<and> rdr_height (updateRendererSurface r) = sf_height ?sf \<and>
    (3 \<le> n \<longrightarrow> bit (rdr_rendererState (updateRendererSurface r)) n \<longrightarrow> bit (rdr_rendererState r) n \<and> n \<noteq> 4)" for n
  proof (cases "rdr_imageType r = TYPE_INT_ARGB_PRE")
    case True
    then have e: "updateRendererSurface r = unmark INVALID_RENDERER_SURFACE r0"
      using c by (simp add: updateRendererSurface_def Let_def r0_def)
    have "routines_ok r" using assms True by (simp add: coherent_def TYPE_INT_ARGB_PRE_def)
    then have "pending (rdr_rendererState r) (unmark INVALID_RENDERER_SURFACE r0)"
      using True c by (simp add: pending_def routines_ok_def r0_def Let_def) (simp add: unmark_def)
    then show ?thesis
      unfolding e using wh r0 by (simp add: unmark_bit) (simp add: unmark_def)
  next
    case False
    define r1 where "r1 = (if rdr_compositeRule r0 \<noteq> COMPOSITE_SRC_OVER \<and> sf_imageType ?sf = TYPE_INT_ARGB_PRE
      then mark (INVALID_COLOR_ALPHA_MAP OR INVALID_PAINT_ALPHA_MAP) r0 else r0)
      \<lparr>rdr_imageType := sf_imageType ?sf\<rparr>"
    have e: "updateRendererSurface r = unmark INVALID_RENDERER_SURFACE (updateSurfaceDependedRoutines r1)"
      using False c unfolding updateRendererSurface_def Let_def r1_def r0_def by simp
    have low: "bit (INVALID_COLOR_ALPHA_MAP OR INVALID_PAINT_ALPHA_MAP) n \<Longrightarrow> n < 3" for n
      by (cases n) (auto simp: INVALID_COLOR_ALPHA_MAP_def INVALID_PAINT_ALPHA_MAP_def bit_or_iff bit_Suc
          bit_1_iff)
    have b: "3 \<le> n \<Longrightarrow> bit (rdr_rendererState r1) n \<longleftrightarrow> bit (rdr_rendererState r) n" for n
      using r0(4) low [of n] by (auto simp: r1_def mark_bit)
    have r1: "config_ok r1" "rdr_imageType r1 = TYPE_INT_ARGB_PRE" "rdr_width r1 = sf_width ?sf"
      "rdr_height r1 = sf_height ?sf"
      using r0 wh c(2) by (simp_all add: r1_def)
    show ?thesis
      unfolding e pending_def using surface_routines [OF r1(1,2)] r1 b
      by (simp add: unmark_bit) (auto simp: unmark_def)
  qed
  then show "pending (rdr_rendererState r) (updateRendererSurface r)"
    "rdr_width (updateRendererSurface r) = sf_width (rdr_surface r)"
    "rdr_height (updateRendererSurface r) = sf_height (rdr_surface r)"
    "3 \<le> n \<Longrightarrow> bit (rdr_rendererState (updateRendererSurface r)) n \<Longrightarrow>
      bit (rdr_rendererState r) n \<and> n \<noteq> 4" by blast+
qed

lemma updateInternalColor_sels [simp]:
  "tables_ok (updateInternalColor r) = tables_ok r" "mask_sel (updateInternalColor r) = mask_sel r"
  "comp_sel (updateInternalColor r) = comp_sel r" "paint_sel (updateInternalColor r) = paint_sel r"
  "config_ok (updateInternalColor r) = config_ok r" "color_sel (updateInternalColor r)"
  by (simp_all only: tables_ok_def mask_sel_def comp_sel_def paint_sel_def config_ok_def
      updateInternalColor_keeps)
    (simp add: color_sel_def updateInternalColor_def unmark_def)

lemma updateInternalColor_bit:
  "bit (rdr_rendererState (updateInternalColor r)) n \<longleftrightarrow> bit (rdr_rendererState r) n \<and> n \<noteq> 3"
  by (simp add: updateInternalColor_def unmark_bit)

lemma color_sel_keeps [simp]:
  "color_sel (updateRendererSurface r) = color_sel r"
  "color_sel (updatePaintDependedRoutines r) = color_sel r"
  "color_sel (updateCompositeDependedRoutines r) = color_sel r"
  "color_sel (updateMaskDependedRoutines r) = color_sel r"
  by (simp_all only: color_sel_def updateRendererSurface_keeps updatePaint_keeps updateComposite_keeps
      updateMask_keeps)

lemma sels_keep [simp]:
  "mask_sel (updatePaintDependedRoutines r) = mask_sel r"
  "comp_sel (updatePaintDependedRoutines r) = comp_sel r"
  "mask_sel (updateCompositeDependedRoutines r) = mask_sel r"
  by (simp_all only: mask_sel_def comp_sel_def updatePaint_keeps updateComposite_keeps)

definition fully_selected :: "renderer \<Rightarrow> bool" where
  "fully_selected r \<longleftrightarrow> tables_ok r \<and> mask_sel r \<and> comp_sel r \<and> paint_sel r \<and> color_sel r \<and>
     rdr_width r = sf_width (rdr_surface r) \<and> rdr_height r = sf_height (rdr_surface r)"

lemma VALIDATE_BLITTING_selects:
  assumes "coherent r"
  shows "fully_selected (VALIDATE_BLITTING r)" "config_ok (VALIDATE_BLITTING r)"
    "rdr_imageType (VALIDATE_BLITTING r) = TYPE_INT_ARGB_PRE"
    "n \<in> {3, 4, 5, 6, 7} \<Longrightarrow> \<not> bit (rdr_rendererState (VALIDATE_BLITTING r)) n"
proof -
  let ?st = "rdr_rendererState r"
  let ?sf = "rdr_surface r"
  define r1 where "r1 = (if bit ?st 4 then updateRendererSurface r else r)"
  define r2 where "r2 = (if bit ?st 3 then updateInternalColor r1 else r1)"
  define r3 where "r3 = (if bit ?st 7 then updateMaskDependedRoutines r2
    else if bit ?st 5 then updateCompositeDependedRoutines r2
    else if bit ?st 6 then updatePaintDependedRoutines r2 else r2)"
  have e: "VALIDATE_BLITTING r = r3"
  proof (cases "?st AND INVALID_BLITTING_MASK = 0")
    case True
    then have "\<not> bit ?st 3" "\<not> bit ?st 4" "\<not> bit ?st 5" "\<not> bit ?st 6" "\<not> bit ?st 7"
      using blitting_flags [of ?st] by (simp_all add: blitting_mask_value)
    then show ?thesis using True by (simp add: VALIDATE_BLITTING_def r1_def r2_def r3_def)
  next
    case False
    then show ?thesis
      by (simp add: VALIDATE_BLITTING_def Let_def r1_def r2_def r3_def flag_bits INVALID_RENDERER_SURFACE_def
          INVALID_INTERNAL_COLOR_def INVALID_MASK_DEPENDED_ROUTINES_def
          INVALID_COMPOSITE_DEPENDED_ROUTINES_def INVALID_PAINT_DEPENDED_ROUTINES_def)
  qed
  have r1: "pending ?st r1 \<and> rdr_width r1 = sf_width ?sf \<and> rdr_height r1 = sf_height ?sf \<and>
      rdr_surface r1 = ?sf \<and> (\<not> bit ?st 3 \<longrightarrow> color_sel r1) \<and>
      (\<forall>n \<ge> 3. bit (rdr_rendererState r1) n \<longrightarrow> bit ?st n \<and> n \<noteq> 4)"
  proof (cases "bit ?st 4")
    case True
    then show ?thesis
      using updateRendererSurface_pending [OF assms] assms by (simp add: r1_def coherent_def)
  next
    case False
    then have "rdr_imageType r = TYPE_INT_ARGB_PRE" "routines_ok r" using assms by (auto simp: coherent_def)
    then show ?thesis using False assms
      by (auto simp: r1_def coherent_def pending_def routines_ok_def Let_def)
  qed
  have r2: "pending ?st r2 \<and> rdr_width r2 = sf_width ?sf \<and> rdr_height r2 = sf_height ?sf \<and>
      rdr_surface r2 = ?sf \<and> color_sel r2 \<and>
      (\<forall>n \<ge> 3. bit (rdr_rendererState r2) n \<longrightarrow> bit ?st n \<and> n \<noteq> 4 \<and> n \<noteq> 3)"
    using r1 by (auto simp: r2_def pending_def updateInternalColor_bit)
  show "fully_selected (VALIDATE_BLITTING r)" "config_ok (VALIDATE_BLITTING r)"
    "rdr_imageType (VALIDATE_BLITTING r) = TYPE_INT_ARGB_PRE"
    unfolding e fully_selected_def r3_def
    using r2 by (auto simp: pending_def mask_sel_update comp_sel_update paint_sel_update)
  have "3 \<le> n \<Longrightarrow> bit (rdr_rendererState r2) n \<Longrightarrow> bit ?st n \<and> n \<noteq> 4 \<and> n \<noteq> 3" using r2 by blast
  then show "n \<in> {3, 4, 5, 6, 7} \<Longrightarrow> \<not> bit (rdr_rendererState (VALIDATE_BLITTING r)) n"
    unfolding e r3_def by (auto simp: update_bits)
qed

lemma coherent_VALIDATE: "coherent r \<Longrightarrow> coherent (VALIDATE_BLITTING r)"
  using VALIDATE_BLITTING_selects [of r]
  by (simp add: coherent_def routines_ok_def fully_selected_def Let_def)

lemma acquired_simps [simp]:
  "rdr_rendererState (acquired d r) = rdr_rendererState r" "rdr_surface (acquired d r) = (rdr_surface r)\<lparr>sf_data := d\<rparr>"
  by (simp_all add: acquired_def)

lemma coherent_acquired [simp]: "coherent (acquired d r) = coherent r"
proof -
  have "tables_ok (acquired d r) = tables_ok r" "mask_sel (acquired d r) = mask_sel r" "comp_sel (acquired d r) = comp_sel r"
    "paint_sel (acquired d r) = paint_sel r" "color_sel (acquired d r) = color_sel r" "config_ok (acquired d r) = config_ok r"
    unfolding acquired_def by (simp_all only: sel_defs) simp_all
  then show ?thesis unfolding coherent_def routines_ok_def Let_def by (simp add: acquired_def)
qed

lemma coherent_step:
  assumes "renderer_step r r'" "coherent r"
  shows "coherent r'"
  using assms
proof cases
  case (step_clip x y w h)
  have "tables_ok r' = tables_ok r" "mask_sel r' = mask_sel r" "comp_sel r' = comp_sel r"
    "paint_sel r' = paint_sel r" "color_sel r' = color_sel r" "config_ok r' = config_ok r"
    unfolding step_clip renderer_setClip_def by (simp_all only: sel_defs) simp_all
  then show ?thesis using assms(2) unfolding coherent_def routines_ok_def Let_def
    by (simp add: step_clip renderer_setClip_def)
next
  case step_invalidate
  then show ?thesis using assms(2) by (simp add: INVALIDATE_RENDERER_SURFACE_def coherent_mark)
next
  case (step_acquire d)
  then show ?thesis using assms(2) by (simp add: INVALIDATE_RENDERER_SURFACE_def coherent_mark)
qed (auto intro: coherent_setColor coherent_setCompositeRule coherent_setMask coherent_setPaintMode
      coherent_VALIDATE assms(2))

lemma coherent_create: "sf_imageType sf = TYPE_INT_ARGB_PRE \<Longrightarrow> coherent (renderer_create sf)"
  by (simp add: coherent_def renderer_create_def config_ok_def zero_renderer_def)
    (simp add: renderer_consts bit_numeral_rec)

lemma coherent_reach:
  assumes "renderer_reach sf r" "sf_imageType sf = TYPE_INT_ARGB_PRE"
  shows "coherent r"
  using assms by induction (auto intro: coherent_create coherent_step)

section \<open>Properties of the state machine\<close>

text \<open>The routines a renderer must use, from its settings alone.\<close>

definition rows_of :: "jint \<Rightarrow> jint \<Rightarrow> jint \<Rightarrow> blit_routine option" where
  "rows_of rule msk mode =
    (let flat = mode = PAINT_FLAT_COLOR
     in if rule = COMPOSITE_CLEAR then Some BlitSrc8888_pre
        else if rule = COMPOSITE_SRC_OVER
        then if msk = NO_MASK then Some (if flat then BlitSrcOver8888_pre else BlitPTSrcOver8888_pre)
             else if msk = ALPHA_MASK
             then Some (if flat then BlitSrcOverMask8888_pre else BlitPTSrcOverMask8888_pre)
             else if flat then Some BlitSrcOverLCDMask8888_pre else None
        else if msk = NO_MASK then Some (if flat then BlitSrc8888_pre else BlitPTSrc8888_pre)
             else if msk = ALPHA_MASK
             then Some (if flat then BlitSrcMask8888_pre else BlitPTSrcMask8888_pre)
             else None)"

definition line_of :: "jint \<Rightarrow> jint \<Rightarrow> line_routine option" where
  "line_of rule mode =
    (if rule = COMPOSITE_SRC_OVER
     then Some (if mode = PAINT_FLAT_COLOR then EmitLineSourceOver8888_pre else EmitLinePTSourceOver8888_pre)
     else if rule = COMPOSITE_SRC \<and> mode \<noteq> PAINT_FLAT_COLOR then Some EmitLinePTSource8888_pre
     else Some EmitLineSource8888_pre)"

lemma VALIDATE_keeps [simp]:
  "rdr_paintMode (VALIDATE_BLITTING r) = rdr_paintMode r"
  "rdr_compositeRule (VALIDATE_BLITTING r) = rdr_compositeRule r"
  "rdr_maskType (VALIDATE_BLITTING r) = rdr_maskType r" "rdr_surface (VALIDATE_BLITTING r) = rdr_surface r"
  "rdr_mask_byteData (VALIDATE_BLITTING r) = rdr_mask_byteData r"
  "rdr_ured (VALIDATE_BLITTING r) = rdr_ured r" "rdr_ugreen (VALIDATE_BLITTING r) = rdr_ugreen r"
  "rdr_ublue (VALIDATE_BLITTING r) = rdr_ublue r" "rdr_ualpha (VALIDATE_BLITTING r) = rdr_ualpha r"
  "rdr_clip_bbMinX (VALIDATE_BLITTING r) = rdr_clip_bbMinX r"
  "rdr_clip_bbMinY (VALIDATE_BLITTING r) = rdr_clip_bbMinY r"
  "rdr_clip_bbMaxX (VALIDATE_BLITTING r) = rdr_clip_bbMaxX r"
  "rdr_clip_bbMaxY (VALIDATE_BLITTING r) = rdr_clip_bbMaxY r"
  "rdr_rowAAInt (VALIDATE_BLITTING r) = rdr_rowAAInt r" "rdr_alphaMap (VALIDATE_BLITTING r) = rdr_alphaMap r"
  by (simp_all add: VALIDATE_BLITTING_def Let_def)

lemma VALIDATE_data:
  "rdr_data (VALIDATE_BLITTING r) = (if bit (rdr_rendererState r) 4 then sf_data (rdr_surface r) else rdr_data r)"
  using blitting_flags [of "rdr_rendererState r"]
  by (auto simp: VALIDATE_BLITTING_def Let_def flag_bits INVALID_RENDERER_SURFACE_def blitting_mask_value)

text \<open>The renderer's pointer is the surface's, unless the surface is marked invalid.\<close>

definition data_follows :: "renderer \<Rightarrow> bool" where
  "data_follows r \<longleftrightarrow> bit (rdr_rendererState r) 4 \<or> rdr_data r = sf_data (rdr_surface r)"

lemma data_follows_mark: "data_follows r \<Longrightarrow> data_follows (mark f r)"
  by (auto simp: data_follows_def mark_bit) (simp_all add: mark_def)

lemma data_follows_setPaintMode: "data_follows r \<Longrightarrow> data_follows (setPaintMode m r)"
  using data_follows_mark [of r INVALID_PAINT_DEPENDED_ROUTINES] by (simp add: setPaintMode_def data_follows_def)

lemma data_follows_step:
  assumes "renderer_step r r'" "data_follows r"
  shows "data_follows r'"
  using assms
proof cases
  case (step_color red green blue alpha)
  show ?thesis unfolding step_color renderer_setColor_def Let_def using assms(2)
    by (intro data_follows_setPaintMode) (simp add: data_follows_def mark_bit, auto simp: mark_def)
next
  case (step_composite rule)
  show ?thesis unfolding step_composite renderer_setCompositeRule_def Let_def using assms(2)
    by (simp add: data_follows_def mark_bit) (auto simp: mark_def)
next
  case step_validate
  then show ?thesis using assms(2) by (auto simp: data_follows_def VALIDATE_data)
next
  case (step_acquire d)
  then show ?thesis
    by (simp add: data_follows_def INVALIDATE_RENDERER_SURFACE_def mark_bit INVALID_RENDERER_SURFACE_def bit_numeral_rec)
next
  case (step_mask m bytes w h)
  show ?thesis unfolding step_mask(1) renderer_setMask_def using assms(2)
    by (intro data_follows_mark) (simp add: data_follows_def)
next
  case step_removeMask
  show ?thesis unfolding step_removeMask renderer_removeMask_def using assms(2)
    by (intro data_follows_mark) (simp add: data_follows_def)
next
  case (step_clip x y w h)
  then show ?thesis using assms(2) by (simp add: renderer_setClip_def data_follows_def)
qed (use assms(2) in \<open>auto intro: data_follows_setPaintMode data_follows_mark simp: INVALIDATE_RENDERER_SURFACE_def\<close>)

lemma reach_data: "renderer_reach sf r \<Longrightarrow> data_follows r"
proof (induction rule: renderer_reach.induct)
  case reach_create
  then show ?case by (simp add: data_follows_def renderer_create_def) (simp add: renderer_consts bit_numeral_rec)
qed (rule data_follows_step)

text \<open>With its surface invalid, what the pointer \<open>_data\<close> was does not matter.\<close>

lemma updateRendererSurface_data [simp]: "updateRendererSurface (r\<lparr>rdr_data := d\<rparr>) = updateRendererSurface r"
  by (simp add: updateRendererSurface_def Let_def)

lemma VALIDATE_forgets:
  "VALIDATE_BLITTING (INVALIDATE_RENDERER_SURFACE (r\<lparr>rdr_data := d\<rparr>)) = VALIDATE_BLITTING (INVALIDATE_RENDERER_SURFACE r)"
proof -
  have "bit (rdr_rendererState (INVALIDATE_RENDERER_SURFACE r)) 4"
    by (simp add: INVALIDATE_RENDERER_SURFACE_def mark_bit INVALID_RENDERER_SURFACE_def bit_numeral_rec)
  moreover have "INVALIDATE_RENDERER_SURFACE (r\<lparr>rdr_data := d\<rparr>) = (INVALIDATE_RENDERER_SURFACE r)\<lparr>rdr_data := d\<rparr>"
    by (simp add: INVALIDATE_RENDERER_SURFACE_def mark_def)
  ultimately show ?thesis
    by (simp add: VALIDATE_BLITTING_def Let_def flag_bits INVALID_RENDERER_SURFACE_def blitting_flags blitting_mask_value)
qed

lemma selected_routines:
  assumes "fully_selected r" "config_ok r"
  shows "rdr_emitRows r = rows_of (rdr_compositeRule r) (rdr_maskType r) (rdr_paintMode r)"
    "rdr_emitLine r = line_of (rdr_compositeRule r) (rdr_paintMode r)"
    "rdr_genPaint r = gen_of (rdr_paintMode r)"
proof -
  have s: "tables_ok r" "mask_sel r" "comp_sel r" "paint_sel r" and
    m: "rdr_maskType r \<in> {NO_MASK, ALPHA_MASK, LCD_ALPHA_MASK}" and
    c: "rdr_compositeRule r \<in> {COMPOSITE_CLEAR, COMPOSITE_SRC, COMPOSITE_SRC_OVER}"
    using assms by (simp_all add: fully_selected_def config_ok_def)
  have d: "COMPOSITE_CLEAR \<noteq> COMPOSITE_SRC" "COMPOSITE_CLEAR \<noteq> COMPOSITE_SRC_OVER"
    "COMPOSITE_SRC \<noteq> COMPOSITE_SRC_OVER" "NO_MASK \<noteq> ALPHA_MASK" "NO_MASK \<noteq> LCD_ALPHA_MASK"
    "ALPHA_MASK \<noteq> LCD_ALPHA_MASK" by (simp_all add: renderer_consts)
  show "rdr_genPaint r = gen_of (rdr_paintMode r)" using s(4) by (simp add: paint_sel_def)
  note s' = s [unfolded tables_ok_def mask_sel_def comp_sel_def paint_sel_def]
  note d' = d d [THEN not_sym]
  show "rdr_emitRows r = rows_of (rdr_compositeRule r) (rdr_maskType r) (rdr_paintMode r)"
    using c m
    by (elim insertE emptyE; cases "rdr_paintMode r = PAINT_FLAT_COLOR";
        use s' in \<open>simp add: rows_of_def d'\<close>)
  show "rdr_emitLine r = line_of (rdr_compositeRule r) (rdr_paintMode r)"
    using c
    by (elim insertE emptyE; cases "rdr_paintMode r = PAINT_FLAT_COLOR";
        use s' in \<open>simp add: line_of_def d'\<close>)
qed

text \<open>
  C10: after any sequence of setters, acquisitions and invalidations of the surface and validations since creation,
  VALIDATE_BLITTING leaves no invalid bit (the assertion at its end holds), the row, line and paint
  routines that the composite rule, the mask type and the paint mode call for, the internal
  colour (the user's colour, or transparent black under COMPOSITE_CLEAR), and the surface's pointer to the pixels.
\<close>

theorem VALIDATE_BLITTING_from_scratch:
  assumes "renderer_reach sf r" "sf_imageType sf = TYPE_INT_ARGB_PRE" "v = VALIDATE_BLITTING r"
  shows "rdr_rendererState v AND INVALID_BLITTING_MASK = 0 \<and>
    rdr_emitRows v = rows_of (rdr_compositeRule r) (rdr_maskType r) (rdr_paintMode r) \<and>
    rdr_emitLine v = line_of (rdr_compositeRule r) (rdr_paintMode r) \<and>
    rdr_genPaint v = gen_of (rdr_paintMode r) \<and>
    (rdr_calpha v, rdr_cred v, rdr_cgreen v, rdr_cblue v) =
      (if rdr_compositeRule r = COMPOSITE_CLEAR then (0, 0, 0, 0)
       else (rdr_ualpha r, rdr_ured r, rdr_ugreen r, rdr_ublue r)) \<and>
    rdr_data v = sf_data (rdr_surface v)"
proof -
  note v = VALIDATE_BLITTING_selects [OF coherent_reach [OF assms(1,2)]]
  have "rdr_rendererState v AND 248 = 0" using blitting_flags [of "rdr_rendererState v"] v(4) assms(3) by auto
  moreover have "color_sel v" using v(1) assms(3) by (simp add: fully_selected_def)
  moreover have "rdr_data v = sf_data (rdr_surface v)"
    using reach_data [OF assms(1)] by (auto simp: assms(3) VALIDATE_data data_follows_def)
  ultimately show ?thesis
    using selected_routines [OF v(1,2)] assms(3)
    by (simp add: blitting_mask_value color_sel_def)
qed

theorem VALIDATE_BLITTING_from_scratch_witness:
  "rdr_emitRows (VALIDATE_BLITTING (renderer_setCompositeRule COMPOSITE_SRC
     (VALIDATE_BLITTING (renderer_create (JavaSurface_initialize 1 4 4))))) = Some BlitSrc8888_pre"
proof -
  let ?sf = "JavaSurface_initialize 1 4 4"
  have t: "sf_imageType ?sf = TYPE_INT_ARGB_PRE"
    by (simp add: JavaSurface_initialize_def TYPE_INT_ARGB_PRE_def)
  have "renderer_reach ?sf (renderer_setCompositeRule COMPOSITE_SRC (VALIDATE_BLITTING (renderer_create ?sf)))"
    by (rule reach_step [OF reach_step [OF reach_create step_validate] step_composite]) simp
  from VALIDATE_BLITTING_from_scratch [OF this t refl]
  show ?thesis
    by (simp add: rows_of_def renderer_setCompositeRule_def renderer_create_def mark_def Let_def zero_renderer_def)
       (simp add: renderer_consts)
qed

text \<open>
  Under COMPOSITE_CLEAR the selected row routine reads the anti-aliasing delta row whatever
  the mask is, so a renderer with an alpha mask set is validated to a routine that ignores the mask.
\<close>

theorem clear_ignores_mask:
  assumes "renderer_reach sf r" "sf_imageType sf = TYPE_INT_ARGB_PRE" "rdr_compositeRule r = COMPOSITE_CLEAR"
  shows "rdr_emitRows (VALIDATE_BLITTING (renderer_setMask ALPHA_MASK bytes w h r)) = Some BlitSrc8888_pre"
proof -
  have "coherent (renderer_setMask ALPHA_MASK bytes w h r)"
    using coherent_setMask(1) [OF coherent_reach [OF assms(1,2)]] by simp
  note v = VALIDATE_BLITTING_selects [OF this]
  from selected_routines(1) [OF v(1,2)] assms(3) show ?thesis
    by (simp add: rows_of_def renderer_setMask_def mark_def)
qed

theorem clear_ignores_mask_witness:
  "rdr_emitRows (VALIDATE_BLITTING (renderer_setMask ALPHA_MASK [1, 2] 2 1
     (renderer_setCompositeRule COMPOSITE_CLEAR (renderer_create (JavaSurface_initialize 1 4 4))))) =
   Some BlitSrc8888_pre"
proof (rule clear_ignores_mask)
  show "renderer_reach (JavaSurface_initialize 1 4 4)
      (renderer_setCompositeRule COMPOSITE_CLEAR (renderer_create (JavaSurface_initialize 1 4 4)))"
    by (intro reach_step [OF reach_create] step_composite) simp
  show "sf_imageType (JavaSurface_initialize 1 4 4) = TYPE_INT_ARGB_PRE"
    by (simp add: JavaSurface_initialize_def TYPE_INT_ARGB_PRE_def)
  show "rdr_compositeRule (renderer_setCompositeRule COMPOSITE_CLEAR
      (renderer_create (JavaSurface_initialize 1 4 4))) = COMPOSITE_CLEAR"
    by (simp add: renderer_setCompositeRule_def Let_def)
qed

end
