(* ===== verification/Pisces_Fill.thy ===== *)
theory Pisces_Fill
  imports Pisces_Sources Pisces_Validate
begin

text \<open>
  Filling a rectangle, end to end. For a renderer in any state its setters can reach, with the
  source-over rule and a valid paint, \<open>fillRect\<close> returns for every rectangle, keeps the surface
  premultiplied and writes no pixel outside the clip.
\<close>

section \<open>Boxes of pixels\<close>

text \<open>Pixel \<open>i\<close> of a surface of width \<open>W\<close> is in column \<open>i mod W\<close> of row \<open>i div W\<close>.\<close>

definition kept_box :: "int \<Rightarrow> int \<Rightarrow> int \<Rightarrow> int \<Rightarrow> int \<Rightarrow> 'a list \<Rightarrow> 'a list \<Rightarrow> bool" where
  "kept_box W x0 y0 x1 y1 d d' \<longleftrightarrow> length d' = length d \<and>
     (\<forall>i < length d. x0 \<le> int i mod W \<and> int i mod W \<le> x1 \<and> y0 \<le> int i div W \<and> int i div W \<le> y1 \<or>
        d' ! i = d ! i)"

lemma kept_box_refl [simp]: "kept_box W x0 y0 x1 y1 d d"
  by (simp add: kept_box_def)

lemma kept_box_trans:
  "kept_box W x0 y0 x1 y1 d d' \<Longrightarrow> kept_box W x0 y0 x1 y1 d' d'' \<Longrightarrow> kept_box W x0 y0 x1 y1 d d''"
  unfolding kept_box_def by metis

lemma kept_box_mono:
  "kept_box W x0 y0 x1 y1 d d' \<Longrightarrow> x0' \<le> x0 \<Longrightarrow> y0' \<le> y0 \<Longrightarrow> x1 \<le> x1' \<Longrightarrow> y1 \<le> y1' \<Longrightarrow> kept_box W x0' y0' x1' y1' d d'"
  unfolding kept_box_def by fastforce

lemma rect_pixel:
  assumes "0 \<le> x" "0 \<le> y" "x + int n \<le> W" "b = nat (y * W + x)" "b \<le> i"
    and "(i - b) div nat W < h" "(i - b) mod nat W < n"
  shows "x \<le> int i mod W" "int i mod W \<le> x + int n - 1" "y \<le> int i div W" "int i div W \<le> y + int h - 1"
proof -
  let ?q = "(i - b) div nat W"
  let ?r = "(i - b) mod nat W"
  have W: "0 < W" using assms(1,3,7) by linarith
  have b: "int b = y * W + x" using assms W by simp
  have "int (i - b) = int (?q * nat W + ?r)" by simp
  then have "int i = int b + (int ?q * W + int ?r)" using assms(5) W by (simp only: of_nat_add of_nat_mult of_nat_diff) simp
  then have i: "int i = (x + int ?r) + (y + int ?q) * W" by (simp add: b algebra_simps)
  have r: "0 \<le> x + int ?r" "x + int ?r < W" using assms by linarith+
  have "int i div W = y + int ?q" "int i mod W = x + int ?r"
    unfolding i using r by (simp_all add: div_mult_self1 W div_pos_pos_trivial mod_pos_pos_trivial)
  then show "x \<le> int i mod W" "int i mod W \<le> x + int n - 1" "y \<le> int i div W" "int i div W \<le> y + int h - 1"
    using assms(6,7) by linarith+
qed

lemma kept_outside_box:
  assumes "0 \<le> x" "0 \<le> y" "x + int n \<le> W" "kept_outside (nat (y * W + x)) (nat W) n h d d'"
  shows "kept_box W x y (x + int n - 1) (y + int h - 1) d d'"
  using assms(4) rect_pixel [OF assms(1-3) refl]
  unfolding kept_box_def kept_outside_def by blast

section \<open>The bounds of the rectangle\<close>

definition fracs_ok :: "fill_box \<Rightarrow> bool" where
  "fracs_ok b \<longleftrightarrow> (\<forall>f \<in> {lfrac b, rfrac b, tfrac b, bfrac b}. 0 \<le> f \<and> f < 65536)"

lemma fracs_ok_edges: "fracs_ok (fill_edges x y w h)"
  by (simp add: fracs_ok_def fill_edges_def Let_def and_65535)

lemma fracs_ok_apply: "fracs_ok b \<Longrightarrow> fracs_ok (apply_edges l r t bt b)"
  by (simp add: fracs_ok_def apply_edges_def edge_mode_def)

lemma apply_clip_ok:
  "fracs_ok b \<Longrightarrow> fracs_ok (apply_clip rdr b)"
  "rdr_clip_bbMinX rdr \<le> x_from (apply_clip rdr b)" "rdr_clip_bbMinY rdr \<le> y_from (apply_clip rdr b)"
  "x_to (apply_clip rdr b) \<le> rdr_clip_bbMaxX rdr" "y_to (apply_clip rdr b) \<le> rdr_clip_bbMaxY rdr"
  by (auto simp: fracs_ok_def apply_clip_def Let_def)

lemma join_fracs_ok:
  assumes "fracs_ok b" "x_from b \<le> x_to b" "y_from b \<le> y_to b"
  shows "fracs_ok (join_fracs b)"
    "edge (lfrac (join_fracs b)) + edge (rfrac (join_fracs b)) \<le> nat (x_to b - x_from b + 1)"
    "tfrac (join_fracs b) \<noteq> 0 \<Longrightarrow> bfrac (join_fracs b) \<noteq> 0 \<Longrightarrow> y_from b < y_to b"
proof -
  have "x OR y = 0 \<longleftrightarrow> x = 0 \<and> y = 0" for x y :: int by (rule or_eq_0_iff)
  then show "edge (lfrac (join_fracs b)) + edge (rfrac (join_fracs b)) \<le> nat (x_to b - x_from b + 1)"
    "tfrac (join_fracs b) \<noteq> 0 \<Longrightarrow> bfrac (join_fracs b) \<noteq> 0 \<Longrightarrow> y_from b < y_to b"
    using assms(2,3) by (auto simp: join_fracs_def Let_def edge_def split: if_splits)
  show "fracs_ok (join_fracs b)"
    using assms(1) by (simp add: fracs_ok_def join_fracs_def Let_def and_65535)
qed

section \<open>Validation keeps the paint\<close>

text \<open>The settings a paint generator reads, which validation does not touch.\<close>

definition paint_state ::
    "renderer \<Rightarrow> (jint list \<times> jint) \<times> (jint list \<times> bool \<times> bool) \<times> (jint \<times> jint \<times> jint) \<times>
      (jint \<times> jint \<times> jint \<times> jint) \<times> bool \<times> jint \<times> jint" where
  "paint_state r =
     ((rdr_gradient_colors r, rdr_gradient_cycleMethod r),
      (rdr_texture_intData r, rdr_texture_interpolate r, rdr_texture_repeat r),
      (rdr_texture_imageWidth r, rdr_texture_imageHeight r, rdr_texture_stride r),
      (rdr_texture_txMin r, rdr_texture_tyMin r, rdr_texture_txMax r, rdr_texture_tyMax r),
      rdr_texture_hasAlpha r, rdr_texture_transformType r, rdr_prevPaintMode r)"

lemma paint_state_fields [simp]:
  "paint_state (r\<lparr>rdr_cred := v_rdr_cred\<rparr>) = paint_state r"
  "paint_state (r\<lparr>rdr_cgreen := v_rdr_cgreen\<rparr>) = paint_state r"
  "paint_state (r\<lparr>rdr_cblue := v_rdr_cblue\<rparr>) = paint_state r"
  "paint_state (r\<lparr>rdr_calpha := v_rdr_calpha\<rparr>) = paint_state r"
  "paint_state (r\<lparr>rdr_data := v_rdr_data\<rparr>) = paint_state r"
  "paint_state (r\<lparr>rdr_width := v_rdr_width\<rparr>) = paint_state r"
  "paint_state (r\<lparr>rdr_height := v_rdr_height\<rparr>) = paint_state r"
  "paint_state (r\<lparr>rdr_imageOffset := v_rdr_imageOffset\<rparr>) = paint_state r"
  "paint_state (r\<lparr>rdr_imageScanlineStride := v_rdr_imageScanlineStride\<rparr>) = paint_state r"
  "paint_state (r\<lparr>rdr_imagePixelStride := v_rdr_imagePixelStride\<rparr>) = paint_state r"
  "paint_state (r\<lparr>rdr_imageType := v_rdr_imageType\<rparr>) = paint_state r"
  "paint_state (r\<lparr>rdr_clearRect_set := v_rdr_clearRect_set\<rparr>) = paint_state r"
  "paint_state (r\<lparr>rdr_bl_SourceOverMask := v_rdr_bl_SourceOverMask\<rparr>) = paint_state r"
  "paint_state (r\<lparr>rdr_bl_PT_SourceOverMask := v_rdr_bl_PT_SourceOverMask\<rparr>) = paint_state r"
  "paint_state (r\<lparr>rdr_bl_SourceMask := v_rdr_bl_SourceMask\<rparr>) = paint_state r"
  "paint_state (r\<lparr>rdr_bl_PT_SourceMask := v_rdr_bl_PT_SourceMask\<rparr>) = paint_state r"
  "paint_state (r\<lparr>rdr_bl_SourceOverLCDMask := v_rdr_bl_SourceOverLCDMask\<rparr>) = paint_state r"
  "paint_state (r\<lparr>rdr_bl_PT_SourceOverLCDMask := v_rdr_bl_PT_SourceOverLCDMask\<rparr>) = paint_state r"
  "paint_state (r\<lparr>rdr_bl_SourceLCDMask := v_rdr_bl_SourceLCDMask\<rparr>) = paint_state r"
  "paint_state (r\<lparr>rdr_bl_PT_SourceLCDMask := v_rdr_bl_PT_SourceLCDMask\<rparr>) = paint_state r"
  "paint_state (r\<lparr>rdr_bl_SourceOverNoMask := v_rdr_bl_SourceOverNoMask\<rparr>) = paint_state r"
  "paint_state (r\<lparr>rdr_bl_PT_SourceOverNoMask := v_rdr_bl_PT_SourceOverNoMask\<rparr>) = paint_state r"
  "paint_state (r\<lparr>rdr_bl_SourceNoMask := v_rdr_bl_SourceNoMask\<rparr>) = paint_state r"
  "paint_state (r\<lparr>rdr_bl_PT_SourceNoMask := v_rdr_bl_PT_SourceNoMask\<rparr>) = paint_state r"
  "paint_state (r\<lparr>rdr_bl_SourceOver := v_rdr_bl_SourceOver\<rparr>) = paint_state r"
  "paint_state (r\<lparr>rdr_bl_PT_SourceOver := v_rdr_bl_PT_SourceOver\<rparr>) = paint_state r"
  "paint_state (r\<lparr>rdr_bl_Source := v_rdr_bl_Source\<rparr>) = paint_state r"
  "paint_state (r\<lparr>rdr_bl_PT_Source := v_rdr_bl_PT_Source\<rparr>) = paint_state r"
  "paint_state (r\<lparr>rdr_el_Source := v_rdr_el_Source\<rparr>) = paint_state r"
  "paint_state (r\<lparr>rdr_el_SourceOver := v_rdr_el_SourceOver\<rparr>) = paint_state r"
  "paint_state (r\<lparr>rdr_el_PT_Source := v_rdr_el_PT_Source\<rparr>) = paint_state r"
  "paint_state (r\<lparr>rdr_el_PT_SourceOver := v_rdr_el_PT_SourceOver\<rparr>) = paint_state r"
  "paint_state (r\<lparr>rdr_bl_Clear := v_rdr_bl_Clear\<rparr>) = paint_state r"
  "paint_state (r\<lparr>rdr_bl_PT_Clear := v_rdr_bl_PT_Clear\<rparr>) = paint_state r"
  "paint_state (r\<lparr>rdr_bl := v_rdr_bl\<rparr>) = paint_state r"
  "paint_state (r\<lparr>rdr_bl_PT := v_rdr_bl_PT\<rparr>) = paint_state r"
  "paint_state (r\<lparr>rdr_el := v_rdr_el\<rparr>) = paint_state r"
  "paint_state (r\<lparr>rdr_el_PT := v_rdr_el_PT\<rparr>) = paint_state r"
  "paint_state (r\<lparr>rdr_emitRows := v_rdr_emitRows\<rparr>) = paint_state r"
  "paint_state (r\<lparr>rdr_emitLine := v_rdr_emitLine\<rparr>) = paint_state r"
  "paint_state (r\<lparr>rdr_genPaint := v_rdr_genPaint\<rparr>) = paint_state r"
  "paint_state (r\<lparr>rdr_rowNum := v_rdr_rowNum\<rparr>) = paint_state r"
  "paint_state (r\<lparr>rdr_alphaWidth := v_rdr_alphaWidth\<rparr>) = paint_state r"
  "paint_state (r\<lparr>rdr_minTouched := v_rdr_minTouched\<rparr>) = paint_state r"
  "paint_state (r\<lparr>rdr_maxTouched := v_rdr_maxTouched\<rparr>) = paint_state r"
  "paint_state (r\<lparr>rdr_currX := v_rdr_currX\<rparr>) = paint_state r"
  "paint_state (r\<lparr>rdr_currY := v_rdr_currY\<rparr>) = paint_state r"
  "paint_state (r\<lparr>rdr_currImageOffset := v_rdr_currImageOffset\<rparr>) = paint_state r"
  "paint_state (r\<lparr>rdr_alphaMap := v_rdr_alphaMap\<rparr>) = paint_state r"
  "paint_state (r\<lparr>rdr_rowAAInt := v_rdr_rowAAInt\<rparr>) = paint_state r"
  "paint_state (r\<lparr>rdr_rectX := v_rdr_rectX\<rparr>) = paint_state r"
  "paint_state (r\<lparr>rdr_rectY := v_rdr_rectY\<rparr>) = paint_state r"
  "paint_state (r\<lparr>rdr_maskType := v_rdr_maskType\<rparr>) = paint_state r"
  "paint_state (r\<lparr>rdr_mask_byteData := v_rdr_mask_byteData\<rparr>) = paint_state r"
  "paint_state (r\<lparr>rdr_maskOffset := v_rdr_maskOffset\<rparr>) = paint_state r"
  "paint_state (r\<lparr>rdr_mask_width := v_rdr_mask_width\<rparr>) = paint_state r"
  "paint_state (r\<lparr>rdr_mask_height := v_rdr_mask_height\<rparr>) = paint_state r"
  "paint_state (r\<lparr>rdr_paint := v_rdr_paint\<rparr>) = paint_state r"
  "paint_state (r\<lparr>rdr_el_lfrac := v_rdr_el_lfrac\<rparr>) = paint_state r"
  "paint_state (r\<lparr>rdr_el_rfrac := v_rdr_el_rfrac\<rparr>) = paint_state r"
  "paint_state (r\<lparr>rdr_rendererState := v_rdr_rendererState\<rparr>) = paint_state r"
  by (simp_all add: paint_state_def)

lemma paint_state_mark [simp]:
  "paint_state (unmark f r) = paint_state r" "paint_state (mark f r) = paint_state r"
  by (simp_all add: unmark_def mark_def)

lemma paint_state_updates [simp]:
  shows "paint_state (updatePaintDependedRoutines r) = paint_state r"
    "paint_state (updateCompositeDependedRoutines r) = paint_state r"
    "paint_state (updateMaskDependedRoutines r) = paint_state r"
    "paint_state (updateSurfaceDependedRoutines r) = paint_state r"
    "paint_state (updateRendererSurface r) = paint_state r"
    "paint_state (updateInternalColor r) = paint_state r"
proof -
  show p: "paint_state (updatePaintDependedRoutines r) = paint_state r" for r
    by (simp add: updatePaintDependedRoutines_def Let_def)
  show c: "paint_state (updateCompositeDependedRoutines r) = paint_state r" for r
    by (simp add: updateCompositeDependedRoutines_def Let_def p)
  show m: "paint_state (updateMaskDependedRoutines r) = paint_state r" for r
    by (simp add: updateMaskDependedRoutines_def Let_def c)
  show u: "paint_state (updateSurfaceDependedRoutines r) = paint_state r" for r
    by (simp add: updateSurfaceDependedRoutines_def m)
  show "paint_state (updateRendererSurface r) = paint_state r"
    by (simp add: updateRendererSurface_def Let_def u)
  show "paint_state (updateInternalColor r) = paint_state r"
    by (simp add: updateInternalColor_def)
qed

lemma paint_state_VALIDATE [simp]: "paint_state (VALIDATE_BLITTING r) = paint_state r"
  by (simp add: VALIDATE_BLITTING_def Let_def)

lemma paint_state_ok:
  assumes "paint_state r' = paint_state r"
  shows "ramp_ok r' = ramp_ok r" "image_ok r' = image_ok r" "gradient_ok r' = gradient_ok r"
    "rdr_prevPaintMode r' = rdr_prevPaintMode r"
  using assms
  by (simp_all add: paint_state_def ramp_ok_def image_ok_def gradient_ok_def texture_ok_def mode_size_def)

text \<open>
  A valid paint, from the settings: a colour of channel values, a premultiplied ramp of 256
  colours, a premultiplied texture, or a texture over one of the former.
\<close>

definition user_color_ok :: "renderer \<Rightarrow> bool" where
  "user_color_ok r \<longleftrightarrow>
     chan (rdr_ualpha r) \<and> chan (rdr_ured r) \<and> chan (rdr_ugreen r) \<and> chan (rdr_ublue r)"

definition paint_valid :: "renderer \<Rightarrow> bool" where
  "paint_valid r \<longleftrightarrow>
    (let mode = rdr_paintMode r; prev = rdr_prevPaintMode r
     in if mode = PAINT_FLAT_COLOR then user_color_ok r
        else if mode = PAINT_LINEAR_GRADIENT \<or> mode = PAINT_RADIAL_GRADIENT then ramp_ok r
        else if mode = PAINT_TEXTURE8888 then image_ok r
        else image_ok r \<and> (prev = PAINT_FLAT_COLOR \<and> user_color_ok r \<or>
          prev \<in> {PAINT_LINEAR_GRADIENT, PAINT_RADIAL_GRADIENT} \<and> gradient_ok r))"

lemma paint_consts:
  "PAINT_FLAT_COLOR \<noteq> PAINT_LINEAR_GRADIENT" "PAINT_FLAT_COLOR \<noteq> PAINT_RADIAL_GRADIENT"
  "PAINT_FLAT_COLOR \<noteq> PAINT_TEXTURE8888" "PAINT_FLAT_COLOR \<noteq> PAINT_TEXTURE8888_MULTIPLY"
  "PAINT_LINEAR_GRADIENT \<noteq> PAINT_RADIAL_GRADIENT" "PAINT_LINEAR_GRADIENT \<noteq> PAINT_TEXTURE8888"
  "PAINT_LINEAR_GRADIENT \<noteq> PAINT_TEXTURE8888_MULTIPLY" "PAINT_RADIAL_GRADIENT \<noteq> PAINT_TEXTURE8888"
  "PAINT_RADIAL_GRADIENT \<noteq> PAINT_TEXTURE8888_MULTIPLY" "PAINT_TEXTURE8888 \<noteq> PAINT_TEXTURE8888_MULTIPLY"
  by (simp_all add: PAINT_FLAT_COLOR_def PAINT_LINEAR_GRADIENT_def PAINT_RADIAL_GRADIENT_def
      PAINT_TEXTURE8888_def PAINT_TEXTURE8888_MULTIPLY_def)

lemma gen_of_None:
  "mode \<in> {PAINT_FLAT_COLOR, PAINT_LINEAR_GRADIENT, PAINT_RADIAL_GRADIENT, PAINT_TEXTURE8888,
     PAINT_TEXTURE8888_MULTIPLY} \<Longrightarrow> gen_of mode = None \<longleftrightarrow> mode = PAINT_FLAT_COLOR"
  by (elim insertE emptyE) (simp_all add: gen_of_def paint_consts paint_consts [THEN not_sym])

lemma paint_valid_source:
  assumes "paint_valid r" "rdr_genPaint r' = gen_of (rdr_paintMode r)" "paint_state r' = paint_state r"
    and "rdr_paintMode r \<in> {PAINT_FLAT_COLOR, PAINT_LINEAR_GRADIENT, PAINT_RADIAL_GRADIENT, PAINT_TEXTURE8888,
     PAINT_TEXTURE8888_MULTIPLY}"
    and "(rdr_calpha r', rdr_cred r', rdr_cgreen r', rdr_cblue r') =
      (rdr_ualpha r, rdr_ured r, rdr_ugreen r, rdr_ublue r)"
  shows "source_ok r'"
proof -
  have c: "user_color_ok r \<Longrightarrow> color_ok r'" using assms(5) by (simp add: user_color_ok_def color_ok_def)
  show ?thesis
    using assms(1,4) c
    by (elim insertE emptyE; simp add: paint_valid_def source_ok_def assms(2) gen_of_def paint_consts
        paint_consts [THEN not_sym] paint_state_ok [OF assms(3)] multiply_ok_def Let_def; blast?)
qed

text \<open>A validated renderer with the source-over rule draws with the source-over routines.\<close>

definition over_selected :: "renderer \<Rightarrow> bool" where
  "over_selected r \<longleftrightarrow> source_ok r \<and>
     (rdr_genPaint r = None \<longrightarrow> rdr_emitLine r = Some EmitLineSourceOver8888_pre) \<and>
     (rdr_genPaint r \<noteq> None \<longrightarrow> rdr_emitLine r = Some EmitLinePTSourceOver8888_pre)"

text \<open>The fields on which coherence depends.\<close>

definition routine_state :: "renderer \<Rightarrow> jint list \<times> surface list \<times> bool list \<times> (blit_routine option) list \<times> (line_routine option) list \<times> (paint_routine option) list" where
  "routine_state r =
     ([rdr_paintMode r, rdr_ured r, rdr_ugreen r, rdr_ublue r, rdr_ualpha r, rdr_cred r,
       rdr_cgreen r, rdr_cblue r, rdr_calpha r, rdr_compositeRule r, rdr_width r, rdr_height r,
       rdr_imageType r, rdr_maskType r, rdr_rendererState r],
      [rdr_surface r],
      [rdr_clearRect_set r],
      [rdr_bl_SourceOverMask r, rdr_bl_PT_SourceOverMask r, rdr_bl_SourceMask r, rdr_bl_PT_SourceMask r, rdr_bl_SourceOverLCDMask r, rdr_bl_PT_SourceOverLCDMask r,
       rdr_bl_SourceLCDMask r, rdr_bl_PT_SourceLCDMask r, rdr_bl_SourceOverNoMask r, rdr_bl_PT_SourceOverNoMask r, rdr_bl_SourceNoMask r, rdr_bl_PT_SourceNoMask r,
       rdr_bl_SourceOver r, rdr_bl_PT_SourceOver r, rdr_bl_Source r, rdr_bl_PT_Source r, rdr_bl_Clear r, rdr_bl_PT_Clear r,
       rdr_bl r, rdr_bl_PT r, rdr_emitRows r],
      [rdr_el_Source r, rdr_el_SourceOver r, rdr_el_PT_Source r, rdr_el_PT_SourceOver r, rdr_el r, rdr_el_PT r,
       rdr_emitLine r],
      [rdr_genPaint r])"

lemma coherent_cong: "routine_state r' = routine_state r \<Longrightarrow> coherent r' = coherent r"
  unfolding coherent_def routines_ok_def Let_def sel_defs routine_state_def
  by (simp only: prod.inject list.inject)

lemma routine_state_fields:
  "routine_state (r\<lparr>rdr_prevPaintMode := v_rdr_prevPaintMode\<rparr>) = routine_state r"
  "routine_state (r\<lparr>rdr_data := v_rdr_data\<rparr>) = routine_state r"
  "routine_state (r\<lparr>rdr_imageOffset := v_rdr_imageOffset\<rparr>) = routine_state r"
  "routine_state (r\<lparr>rdr_imageScanlineStride := v_rdr_imageScanlineStride\<rparr>) = routine_state r"
  "routine_state (r\<lparr>rdr_imagePixelStride := v_rdr_imagePixelStride\<rparr>) = routine_state r"
  "routine_state (r\<lparr>rdr_rowNum := v_rdr_rowNum\<rparr>) = routine_state r"
  "routine_state (r\<lparr>rdr_alphaWidth := v_rdr_alphaWidth\<rparr>) = routine_state r"
  "routine_state (r\<lparr>rdr_minTouched := v_rdr_minTouched\<rparr>) = routine_state r"
  "routine_state (r\<lparr>rdr_maxTouched := v_rdr_maxTouched\<rparr>) = routine_state r"
  "routine_state (r\<lparr>rdr_currX := v_rdr_currX\<rparr>) = routine_state r"
  "routine_state (r\<lparr>rdr_currY := v_rdr_currY\<rparr>) = routine_state r"
  "routine_state (r\<lparr>rdr_currImageOffset := v_rdr_currImageOffset\<rparr>) = routine_state r"
  "routine_state (r\<lparr>rdr_alphaMap := v_rdr_alphaMap\<rparr>) = routine_state r"
  "routine_state (r\<lparr>rdr_rowAAInt := v_rdr_rowAAInt\<rparr>) = routine_state r"
  "routine_state (r\<lparr>rdr_rectX := v_rdr_rectX\<rparr>) = routine_state r"
  "routine_state (r\<lparr>rdr_rectY := v_rdr_rectY\<rparr>) = routine_state r"
  "routine_state (r\<lparr>rdr_mask_byteData := v_rdr_mask_byteData\<rparr>) = routine_state r"
  "routine_state (r\<lparr>rdr_maskOffset := v_rdr_maskOffset\<rparr>) = routine_state r"
  "routine_state (r\<lparr>rdr_mask_width := v_rdr_mask_width\<rparr>) = routine_state r"
  "routine_state (r\<lparr>rdr_mask_height := v_rdr_mask_height\<rparr>) = routine_state r"
  "routine_state (r\<lparr>rdr_paint := v_rdr_paint\<rparr>) = routine_state r"
  "routine_state (r\<lparr>rdr_gradient_colors := v_rdr_gradient_colors\<rparr>) = routine_state r"
  "routine_state (r\<lparr>rdr_gradient_cycleMethod := v_rdr_gradient_cycleMethod\<rparr>) = routine_state r"
  "routine_state (r\<lparr>rdr_texture_intData := v_rdr_texture_intData\<rparr>) = routine_state r"
  "routine_state (r\<lparr>rdr_texture_hasAlpha := v_rdr_texture_hasAlpha\<rparr>) = routine_state r"
  "routine_state (r\<lparr>rdr_texture_imageWidth := v_rdr_texture_imageWidth\<rparr>) = routine_state r"
  "routine_state (r\<lparr>rdr_texture_imageHeight := v_rdr_texture_imageHeight\<rparr>) = routine_state r"
  "routine_state (r\<lparr>rdr_texture_stride := v_rdr_texture_stride\<rparr>) = routine_state r"
  "routine_state (r\<lparr>rdr_texture_txMin := v_rdr_texture_txMin\<rparr>) = routine_state r"
  "routine_state (r\<lparr>rdr_texture_tyMin := v_rdr_texture_tyMin\<rparr>) = routine_state r"
  "routine_state (r\<lparr>rdr_texture_txMax := v_rdr_texture_txMax\<rparr>) = routine_state r"
  "routine_state (r\<lparr>rdr_texture_tyMax := v_rdr_texture_tyMax\<rparr>) = routine_state r"
  "routine_state (r\<lparr>rdr_texture_repeat := v_rdr_texture_repeat\<rparr>) = routine_state r"
  "routine_state (r\<lparr>rdr_texture_m00 := v_rdr_texture_m00\<rparr>) = routine_state r"
  "routine_state (r\<lparr>rdr_texture_m01 := v_rdr_texture_m01\<rparr>) = routine_state r"
  "routine_state (r\<lparr>rdr_texture_m02 := v_rdr_texture_m02\<rparr>) = routine_state r"
  "routine_state (r\<lparr>rdr_texture_m10 := v_rdr_texture_m10\<rparr>) = routine_state r"
  "routine_state (r\<lparr>rdr_texture_m11 := v_rdr_texture_m11\<rparr>) = routine_state r"
  "routine_state (r\<lparr>rdr_texture_m12 := v_rdr_texture_m12\<rparr>) = routine_state r"
  "routine_state (r\<lparr>rdr_texture_interpolate := v_rdr_texture_interpolate\<rparr>) = routine_state r"
  "routine_state (r\<lparr>rdr_texture_transformType := v_rdr_texture_transformType\<rparr>) = routine_state r"
  "routine_state (r\<lparr>rdr_clip_bbMinX := v_rdr_clip_bbMinX\<rparr>) = routine_state r"
  "routine_state (r\<lparr>rdr_clip_bbMinY := v_rdr_clip_bbMinY\<rparr>) = routine_state r"
  "routine_state (r\<lparr>rdr_clip_bbMaxX := v_rdr_clip_bbMaxX\<rparr>) = routine_state r"
  "routine_state (r\<lparr>rdr_clip_bbMaxY := v_rdr_clip_bbMaxY\<rparr>) = routine_state r"
  "routine_state (r\<lparr>rdr_el_lfrac := v_rdr_el_lfrac\<rparr>) = routine_state r"
  "routine_state (r\<lparr>rdr_el_rfrac := v_rdr_el_rfrac\<rparr>) = routine_state r"
  by (simp_all add: routine_state_def)

lemmas coherent_fields [simp] = routine_state_fields [THEN coherent_cong]

lemma validated_over:
  assumes "coherent r" "rdr_compositeRule r = COMPOSITE_SRC_OVER" "paint_valid r"
    and "v = VALIDATE_BLITTING (INVALIDATE_RENDERER_SURFACE r)"
  shows "over_selected v" "rdr_surface v = rdr_surface r" "rdr_data v = sf_data (rdr_surface r)"
    "rdr_emitRows v = rows_of COMPOSITE_SRC_OVER (rdr_maskType r)
      (if rdr_genPaint v = None then PAINT_FLAT_COLOR else PAINT_TEXTURE8888)"
proof -
  let ?i = "INVALIDATE_RENDERER_SURFACE r"
  have i: "coherent ?i" using assms(1) by (simp add: INVALIDATE_RENDERER_SURFACE_def coherent_mark)
  have k: "rdr_paintMode v = rdr_paintMode r" "rdr_compositeRule v = rdr_compositeRule r"
    "rdr_maskType v = rdr_maskType r" "paint_state v = paint_state r" "rdr_surface v = rdr_surface r"
    "(rdr_ualpha v, rdr_ured v, rdr_ugreen v, rdr_ublue v) = (rdr_ualpha r, rdr_ured r, rdr_ugreen r, rdr_ublue r)"
    by (simp_all add: assms(4) INVALIDATE_RENDERER_SURFACE_def) (simp_all add: mark_def)
  then show "rdr_surface v = rdr_surface r" by simp
  show "rdr_data v = sf_data (rdr_surface r)"
    by (simp add: assms(4) VALIDATE_data INVALIDATE_RENDERER_SURFACE_def mark_def INVALID_RENDERER_SURFACE_def bit_or_iff bit_numeral_rec)
  note s = VALIDATE_BLITTING_selects [OF i, folded assms(4)]
  note sel = selected_routines [OF s(1,2)]
  have modes: "rdr_paintMode v \<in> {PAINT_FLAT_COLOR, PAINT_LINEAR_GRADIENT, PAINT_RADIAL_GRADIENT,
      PAINT_TEXTURE8888, PAINT_TEXTURE8888_MULTIPLY}" using s(2) by (simp add: config_ok_def)
  have "color_sel v" using s(1) by (simp add: fully_selected_def)
  then have "(rdr_calpha v, rdr_cred v, rdr_cgreen v, rdr_cblue v) =
      (rdr_ualpha r, rdr_ured r, rdr_ugreen r, rdr_ublue r)"
    using assms(2) k by (simp add: color_sel_def COMPOSITE_CLEAR_def COMPOSITE_SRC_OVER_def)
  then have "source_ok v" using paint_valid_source [OF assms(3), of v] sel(3) k modes by simp
  then show "over_selected v"
    using sel gen_of_None [OF modes] assms(2) k by (simp add: over_selected_def line_of_def)
  show "rdr_emitRows v = rows_of COMPOSITE_SRC_OVER (rdr_maskType r)
      (if rdr_genPaint v = None then PAINT_FLAT_COLOR else PAINT_TEXTURE8888)"
    using sel gen_of_None [OF modes] assms(2) k
    by (simp add: rows_of_def Let_def paint_consts [THEN not_sym])
qed

section \<open>The rows\<close>

text \<open>
  The state between two blocks of rows: the routines and the paint are those of the validated
  renderer, the row state addresses row \<open>_currY\<close> of the box \<open>b\<close>, and the box lies on the surface.
\<close>

definition on_surface :: "fill_box \<Rightarrow> renderer \<Rightarrow> bool" where
  "on_surface b r \<longleftrightarrow>
     0 \<le> x_from b \<and> x_from b \<le> x_to b \<and> x_to b < sf_width (rdr_surface r) \<and>
     0 \<le> y_from b \<and> y_to b < sf_height (rdr_surface r) \<and>
     sf_width (rdr_surface r) * sf_height (rdr_surface r) \<le> int (length (rdr_data r)) \<and>
     int (length (rdr_data r)) < 2147483648"

definition row_state :: "fill_box \<Rightarrow> renderer \<Rightarrow> bool" where
  "row_state b r \<longleftrightarrow>
     rdr_minTouched r = x_from b \<and> rdr_maxTouched r = x_to b \<and> rdr_alphaWidth r = x_to b - x_from b + 1 \<and>
     rdr_imageScanlineStride r = sf_width (rdr_surface r) \<and> rdr_imagePixelStride r = 1 \<and>
     rdr_currImageOffset r = rdr_currY r * sf_width (rdr_surface r) \<and> y_from b \<le> rdr_currY r \<and>
     frac_ok (rdr_el_lfrac r) \<and> frac_ok (rdr_el_rfrac r) \<and>
     rdr_el_lfrac r < 65536 \<and> rdr_el_rfrac r < 65536 \<and>
     edge (rdr_el_lfrac r) + edge (rdr_el_rfrac r) \<le> nat (x_to b - x_from b + 1)"

definition fill_ready :: "fill_box \<Rightarrow> renderer \<Rightarrow> bool" where
  "fill_ready b r \<longleftrightarrow> over_selected r \<and> on_surface b r \<and> row_state b r \<and> premult_all (rdr_data r)"

lemma source_ok_fields [simp]:
  "source_ok (r\<lparr>rdr_data := d\<rparr>) = source_ok r" "source_ok (r\<lparr>rdr_paint := p\<rparr>) = source_ok r"
  "source_ok (r\<lparr>rdr_currX := v\<rparr>) = source_ok r" "source_ok (r\<lparr>rdr_currY := v\<rparr>) = source_ok r"
  "source_ok (r\<lparr>rdr_currImageOffset := v\<rparr>) = source_ok r" "source_ok (r\<lparr>rdr_rowNum := v\<rparr>) = source_ok r"
  "source_ok (r\<lparr>rdr_minTouched := v\<rparr>) = source_ok r" "source_ok (r\<lparr>rdr_maxTouched := v\<rparr>) = source_ok r"
  "source_ok (r\<lparr>rdr_alphaWidth := v\<rparr>) = source_ok r" "source_ok (r\<lparr>rdr_imageScanlineStride := v\<rparr>) = source_ok r"
  "source_ok (r\<lparr>rdr_imagePixelStride := v\<rparr>) = source_ok r" "source_ok (r\<lparr>rdr_el_lfrac := v\<rparr>) = source_ok r"
  "source_ok (r\<lparr>rdr_el_rfrac := v\<rparr>) = source_ok r" "source_ok (r\<lparr>rdr_alphaMap := m\<rparr>) = source_ok r"
  "source_ok (r\<lparr>rdr_rowAAInt := m\<rparr>) = source_ok r" "source_ok (r\<lparr>rdr_maskOffset := v\<rparr>) = source_ok r"
  by (simp_all add: source_ok_def ramp_ok_def image_ok_def gradient_ok_def texture_ok_def mode_size_def
      multiply_ok_def color_ok_def split: option.split paint_routine.split)

lemma surface_row:
  assumes "on_surface b r" "0 \<le> y" "y \<le> sf_height (rdr_surface r)"
  shows "0 \<le> y * sf_width (rdr_surface r)"
    "y * sf_width (rdr_surface r) \<le> int (length (rdr_data r))"
    "s32 (y * sf_width (rdr_surface r)) = y * sf_width (rdr_surface r)"
proof -
  have W: "0 < sf_width (rdr_surface r)" using assms(1) by (simp add: on_surface_def)
  then show "0 \<le> y * sf_width (rdr_surface r)" using assms(2) by simp
  have "y * sf_width (rdr_surface r) \<le> sf_height (rdr_surface r) * sf_width (rdr_surface r)"
    using assms(3) W by (intro mult_right_mono) simp_all
  also have "\<dots> \<le> int (length (rdr_data r))" using assms(1) by (simp add: on_surface_def mult.commute)
  finally show l: "y * sf_width (rdr_surface r) \<le> int (length (rdr_data r))" .
  show "s32 (y * sf_width (rdr_surface r)) = y * sf_width (rdr_surface r)"
    using l assms(1) \<open>0 \<le> y * sf_width (rdr_surface r)\<close> by (intro s32_id) (simp_all add: on_surface_def)
qed

lemma fill_target:
  assumes "fill_ready b r" "0 < n" "rdr_currY r + n - 1 \<le> y_to b"
  shows "target_ok r (rdr_alphaWidth r) n"
    "target_base r = nat (rdr_currY r * sf_width (rdr_surface r) + x_from b)"
proof -
  let ?W = "sf_width (rdr_surface r)"
  have s: "on_surface b r" "row_state b r" using assms(1) by (simp_all add: fill_ready_def)
  have "(rdr_currY r + n) * ?W \<le> int (length (rdr_data r))" "0 \<le> rdr_currY r * ?W"
    using assms(2,3) s by (auto intro!: surface_row(1,2) [OF s(1)] simp: on_surface_def row_state_def)
  then show "target_ok r (rdr_alphaWidth r) n"
    using s assms(2) by (simp add: target_ok_def on_surface_def row_state_def algebra_simps)
  show "target_base r = nat (rdr_currY r * ?W + x_from b)"
    using s(2) by (simp add: target_base_def row_state_def)
qed

lemma emit_block_ok:
  assumes "fill_ready b r" "0 < n" "rdr_currY r + n - 1 \<le> y_to b" "frac_ok frac"
  shows "\<exists>r'. emit_block F g (x_to b - x_from b + 1) n frac r = Some r' \<and> fill_ready b r' \<and>
    rdr_currY r' = rdr_currY r \<and> rdr_surface r' = rdr_surface r \<and>
    kept_box (sf_width (rdr_surface r)) (x_from b) (y_from b) (x_to b) (y_to b) (rdr_data r) (rdr_data r')"
proof -
  have o: "over_selected r" and s: "on_surface b r" "row_state b r" and pm: "premult_all (rdr_data r)"
    using assms(1) by (simp_all add: fill_ready_def)
  note t = fill_target [OF assms(1-3)]
  have w: "rdr_alphaWidth r = x_to b - x_from b + 1" "0 \<le> rdr_alphaWidth r"
    "rdr_maxTouched r - rdr_minTouched r + 1 = rdr_alphaWidth r"
    using s by (simp_all add: on_surface_def row_state_def)
  obtain p where p: "call_genPaint F g (rdr_alphaWidth r * n) r n = Some (r\<lparr>rdr_paint := p\<rparr>)"
    "rdr_genPaint r \<noteq> None \<longrightarrow> paint_ok (n * rdr_alphaWidth r) p"
    using call_genPaint_fills [OF _ w(3,2), of n F g] o assms(2) by (auto simp: over_selected_def)
  let ?r = "r\<lparr>rdr_paint := p\<rparr>"
  have "\<exists>d. call_emitLine ?r n frac = Some (?r\<lparr>rdr_data := d\<rparr>) \<and> rows_kept ?r (rdr_alphaWidth ?r) n d"
  proof (cases "rdr_genPaint r")
    case None
    then show ?thesis
      using source_over_spans_kept(1) [of ?r n frac] o s(2) t(1) pm assms(4)
      by (simp add: over_selected_def call_emitLine_def run_line_def row_state_def target_ok_def
          source_ok_def color_ok_def)
  next
    case (Some q)
    then show ?thesis
      using source_over_spans_kept(2) [of ?r n frac] o s(2) t(1) pm assms(4) p(2)
      by (simp add: over_selected_def call_emitLine_def run_line_def row_state_def target_ok_def)
  qed
  then obtain d where d: "call_emitLine ?r n frac = Some (?r\<lparr>rdr_data := d\<rparr>)"
    "premult_all d" "kept_outside (target_base r) (nat (sf_width (rdr_surface r))) (nat (rdr_alphaWidth r)) (nat n)
      (rdr_data r) d"
    using s(2) by (auto simp: rows_kept_def row_state_def target_base_def)
  have y: "0 \<le> rdr_currY r" using s by (simp add: on_surface_def row_state_def)
  have "kept_box (sf_width (rdr_surface r)) (x_from b) (rdr_currY r) (x_from b + int (nat (rdr_alphaWidth r)) - 1)
      (rdr_currY r + int (nat n) - 1) (rdr_data r) d"
    by (rule kept_outside_box) (use s y d(3) t(2) w in \<open>auto simp: on_surface_def\<close>)
  then have k: "kept_box (sf_width (rdr_surface r)) (x_from b) (y_from b) (x_to b) (y_to b) (rdr_data r) d"
    by (rule kept_box_mono) (use s assms(2,3) w in \<open>auto simp: row_state_def on_surface_def\<close>)
  have "length d = length (rdr_data r)" using d(3) by (rule kept_outside_length)
  then have "fill_ready b (?r\<lparr>rdr_data := d\<rparr>)"
    using o s d(2) by (simp add: fill_ready_def over_selected_def on_surface_def row_state_def)
  then show ?thesis
    using p(1) d(1) k w(1) by (simp add: emit_block_def)
qed

lemma next_rows_ready:
  assumes "fill_ready b r" "0 \<le> n" "rdr_currY r + n - 1 \<le> y_to b"
  shows "fill_ready b (next_rows (x_from b) n r)" "rdr_currY (next_rows xf n r) = rdr_currY r + n"
    "rdr_surface (next_rows xf n r) = rdr_surface r" "rdr_data (next_rows xf n r) = rdr_data r"
proof -
  have s: "on_surface b r" "row_state b r" using assms(1) by (simp_all add: fill_ready_def)
  have "s32 ((rdr_currY r + n) * sf_width (rdr_surface r)) = (rdr_currY r + n) * sf_width (rdr_surface r)"
    by (rule surface_row(3) [OF s(1)]) (use s assms(2,3) in \<open>auto simp: on_surface_def row_state_def\<close>)
  then show "fill_ready b (next_rows (x_from b) n r)"
    using assms by (simp add: fill_ready_def next_rows_def over_selected_def on_surface_def row_state_def)
qed (simp_all add: next_rows_def)

lemma full_rows_ok:
  assumes "fill_ready b r" "rdr_currY r + rows - 1 \<le> y_to b"
  shows "\<exists>r'. full_rows F g (x_to b - x_from b + 1) (x_from b) rows r = Some r' \<and> fill_ready b r' \<and>
    rdr_currY r' = rdr_currY r + max 0 rows \<and> rdr_surface r' = rdr_surface r \<and>
    kept_box (sf_width (rdr_surface r)) (x_from b) (y_from b) (x_to b) (y_to b) (rdr_data r) (rdr_data r')"
  using assms
proof (induction "nat rows" arbitrary: rows r rule: less_induct)
  case less
  show ?case
  proof (cases "rows > 0")
    case True
    let ?n = "min rows NUM_ALPHA_ROWS"
    have n: "0 < ?n" "?n \<le> rows" "nat (rows - ?n) < nat rows" using True by (auto simp: NUM_ALPHA_ROWS_def)
    obtain r1 where r1: "emit_block F g (x_to b - x_from b + 1) ?n 65536 r = Some r1" "fill_ready b r1"
      "rdr_currY r1 = rdr_currY r" "rdr_surface r1 = rdr_surface r"
      "kept_box (sf_width (rdr_surface r)) (x_from b) (y_from b) (x_to b) (y_to b) (rdr_data r) (rdr_data r1)"
      using emit_block_ok [OF less.prems(1) n(1), of 65536 F g] less.prems(2) n(2) by (auto simp: frac_ok_def)
    let ?r2 = "next_rows (x_from b) ?n r1"
    note r2 = next_rows_ready [OF r1(2), of ?n]
    have "fill_ready b ?r2" "rdr_currY ?r2 + (rows - ?n) - 1 \<le> y_to b"
      using r2 r1(3) n less.prems(2) by auto
    from less.hyps [OF n(3) this] obtain r' where r': "full_rows F g (x_to b - x_from b + 1) (x_from b) (rows - ?n) ?r2 = Some r'"
      "fill_ready b r'" "rdr_currY r' = rdr_currY ?r2 + max 0 (rows - ?n)" "rdr_surface r' = rdr_surface ?r2"
      "kept_box (sf_width (rdr_surface ?r2)) (x_from b) (y_from b) (x_to b) (y_to b) (rdr_data ?r2) (rdr_data r')"
      by blast
    have "full_rows F g (x_to b - x_from b + 1) (x_from b) rows r = Some r'"
      using True r1(1) r'(1) by (subst full_rows.simps) (simp add: Let_def)
    moreover have "rdr_currY r' = rdr_currY r + max 0 rows" "rdr_surface r' = rdr_surface r"
      using r'(3,4) r1(3,4) True n(2) by (simp_all add: next_rows_def)
    moreover have "kept_box (sf_width (rdr_surface r)) (x_from b) (y_from b) (x_to b) (y_to b) (rdr_data r) (rdr_data r')"
      using r1(5) r'(5) r1(4) by (auto simp: next_rows_def intro: kept_box_trans)
    ultimately show ?thesis using r'(2) by blast
  next
    case False
    then show ?thesis using less.prems by (subst full_rows.simps) simp
  qed
qed

lemma top_line_ok:
  fixes rows :: jint
  assumes "fill_ready b r" "rdr_currY r \<le> y_to b" "frac_ok f"
  shows "\<exists>r'. (if f \<noteq> 0
      then do { r \<leftarrow> emit_block F g (x_to b - x_from b + 1) 1 f r; Some (next_rows (x_from b) 1 r, rows - 1) }
      else Some (r, rows)) = Some (r', rows - of_bool (f \<noteq> 0)) \<and>
      fill_ready b r' \<and> rdr_currY r' = rdr_currY r + of_bool (f \<noteq> 0) \<and> rdr_surface r' = rdr_surface r \<and>
      kept_box (sf_width (rdr_surface r)) (x_from b) (y_from b) (x_to b) (y_to b) (rdr_data r) (rdr_data r')"
proof (cases "f = 0")
  case False
  obtain r1 where "emit_block F g (x_to b - x_from b + 1) 1 f r = Some r1" "fill_ready b r1"
    "rdr_currY r1 = rdr_currY r" "rdr_surface r1 = rdr_surface r"
    "kept_box (sf_width (rdr_surface r)) (x_from b) (y_from b) (x_to b) (y_to b) (rdr_data r) (rdr_data r1)"
    using emit_block_ok [OF assms(1) zero_less_one _ assms(3), of F g] assms(2) by auto
  then show ?thesis
    using False next_rows_ready [of b r1 1] assms(2) by (auto simp: next_rows_def)
qed (use assms in simp)

lemma bottom_line_ok:
  assumes "fill_ready b r" "f \<noteq> 0 \<Longrightarrow> rdr_currY r \<le> y_to b" "frac_ok f"
  shows "\<exists>r'. (if f \<noteq> 0 then emit_block F g (x_to b - x_from b + 1) 1 f r else Some r) = Some r' \<and>
      fill_ready b r' \<and>
      kept_box (sf_width (rdr_surface r)) (x_from b) (y_from b) (x_to b) (y_to b) (rdr_data r) (rdr_data r')"
  using emit_block_ok [OF assms(1) zero_less_one _ assms(3), of F g] assms by (cases "f = 0") auto

text \<open>Drawing starts with a validation, so the pointer left by an earlier drawing does not matter.\<close>

definition on_pixels :: "renderer \<Rightarrow> renderer" where
  "on_pixels r = r\<lparr>rdr_surface := (rdr_surface r)\<lparr>sf_data := rdr_data r\<rparr>\<rparr>"

lemma acquired_on_pixels: "acquired (rdr_data r) r = (on_pixels r)\<lparr>rdr_data := []\<rparr>"
  by (simp add: acquired_def on_pixels_def)

lemma on_pixels_simps [simp]:
  "rdr_data (on_pixels r) = rdr_data r" "rdr_surface (on_pixels r) = (rdr_surface r)\<lparr>sf_data := rdr_data r\<rparr>"
  "rdr_compositeRule (on_pixels r) = rdr_compositeRule r" "rdr_maskType (on_pixels r) = rdr_maskType r"
  "rdr_clip_bbMinX (on_pixels r) = rdr_clip_bbMinX r" "rdr_clip_bbMinY (on_pixels r) = rdr_clip_bbMinY r"
  "rdr_clip_bbMaxX (on_pixels r) = rdr_clip_bbMaxX r" "rdr_clip_bbMaxY (on_pixels r) = rdr_clip_bbMaxY r"
  by (simp_all add: on_pixels_def)

lemma coherent_on_pixels [simp]: "coherent (on_pixels r) = coherent r"
proof -
  have "on_pixels r = (acquired (rdr_data r) r)\<lparr>rdr_data := rdr_data r\<rparr>" by (simp add: acquired_def on_pixels_def)
  then show ?thesis by simp
qed

lemma paint_on_pixels [simp]: "paint_state (on_pixels r) = paint_state r"
  by (simp add: paint_state_def on_pixels_def)

lemma fill_rows_forgets: "fill_rows F g b (r\<lparr>rdr_data := d\<rparr>) = fill_rows F g b r"
  by (simp only: fill_rows_def VALIDATE_forgets)

lemma fill_rows_ok:
  assumes "coherent r" "rdr_compositeRule r = COMPOSITE_SRC_OVER" "paint_valid r"
    and "on_surface b r" "y_from b \<le> y_to b" "fracs_ok b" "premult_all (rdr_data r)"
    and data: "sf_data (rdr_surface r) = rdr_data r"
  shows "\<exists>r'. fill_rows F g b r = Some r' \<and> premult_all (rdr_data r') \<and>
    kept_box (sf_width (rdr_surface r)) (x_from b) (y_from b) (x_to b) (y_to b) (rdr_data r) (rdr_data r')"
proof -
  define v where "v = VALIDATE_BLITTING (INVALIDATE_RENDERER_SURFACE r)"
  note v = validated_over [OF assms(1-3) v_def, unfolded data]
  let ?j = "join_fracs b"
  let ?W = "sf_width (rdr_surface r)"
  let ?n = "x_to b - x_from b + 1"
  define r0 where "r0 = v\<lparr>rdr_minTouched := x_from b, rdr_maxTouched := x_to b, rdr_currX := x_from b,
    rdr_currY := y_from b, rdr_alphaWidth := ?n, rdr_currImageOffset := s32 (y_from b * ?W),
    rdr_imageScanlineStride := ?W, rdr_imagePixelStride := 1, rdr_rowNum := 0,
    rdr_el_lfrac := lfrac ?j, rdr_el_rfrac := rfrac ?j\<rparr>"
  have x: "x_from b \<le> x_to b" using assms(4) by (simp add: on_surface_def)
  note j = join_fracs_ok [OF assms(6) x assms(5)]
  have fr: "frac_ok (lfrac ?j)" "frac_ok (rfrac ?j)" "frac_ok (tfrac ?j)" "frac_ok (bfrac ?j)"
    "lfrac ?j < 65536" "rfrac ?j < 65536" using j(1) by (auto simp: fracs_ok_def frac_ok_def)
  have "s32 (y_from b * ?W) = y_from b * ?W"
    by (rule surface_row(3) [OF assms(4)]) (use assms(4,5) in \<open>auto simp: on_surface_def\<close>)
  then have r0: "fill_ready b r0" "rdr_currY r0 = y_from b" "rdr_surface r0 = rdr_surface r" "rdr_data r0 = rdr_data r"
    using v assms(4,7) fr j(2)
    by (simp_all add: r0_def fill_ready_def over_selected_def on_surface_def row_state_def)
  let ?kept = "kept_box ?W (x_from b) (y_from b) (x_to b) (y_to b)"
  let ?rows = "y_to b - y_from b + 1 - (if bfrac ?j \<noteq> 0 then 1 else 0)"
  obtain r1 where r1: "(if tfrac ?j \<noteq> 0
      then do { rdr \<leftarrow> emit_block F g ?n 1 (tfrac ?j) r0; Some (next_rows (x_from b) 1 rdr, ?rows - 1) }
      else Some (r0, ?rows)) = Some (r1, ?rows - of_bool (tfrac ?j \<noteq> 0))"
      "fill_ready b r1" "rdr_currY r1 = y_from b + of_bool (tfrac ?j \<noteq> 0)"
      "rdr_surface r1 = rdr_surface r" "?kept (rdr_data r) (rdr_data r1)"
    using top_line_ok [OF r0(1) _ fr(3), of F g ?rows] assms(5) r0(2-4) by auto
  define m where "m = ?rows - of_bool (tfrac ?j \<noteq> 0)"
  have m: "0 \<le> m" "rdr_currY r1 + m - 1 \<le> y_to b" "bfrac ?j \<noteq> 0 \<Longrightarrow> rdr_currY r1 + m \<le> y_to b"
    using j(3) assms(5) r1(3) by (auto simp: m_def)
  obtain r2 where r2: "full_rows F g ?n (x_from b) m r1 = Some r2" "fill_ready b r2"
    "rdr_currY r2 = rdr_currY r1 + m" "rdr_surface r2 = rdr_surface r" "?kept (rdr_data r1) (rdr_data r2)"
    using full_rows_ok [OF r1(2) m(2), of F g] m(1) r1(4) by auto
  obtain r3 where r3: "(if bfrac ?j \<noteq> 0 then emit_block F g ?n 1 (bfrac ?j) r2 else Some r2) = Some r3"
    "fill_ready b r3" "?kept (rdr_data r2) (rdr_data r3)"
    using bottom_line_ok [OF r2(2) _ fr(4), of F g] m(3) r2(3,4) by auto
  have "fill_rows F g b r =
      do { (rdr, rows) \<leftarrow> Some (r1, m);
           rdr \<leftarrow> full_rows F g ?n (x_from b) rows rdr;
           if bfrac ?j \<noteq> 0 then emit_block F g ?n 1 (bfrac ?j) rdr else Some rdr }"
    unfolding fill_rows_def Let_def v_def [symmetric] v(2) r0_def [symmetric] r1(1) m_def ..
  then have "fill_rows F g b r = Some r3" using r2(1) r3(1) by simp
  moreover have "?kept (rdr_data r) (rdr_data r3)" using r1(5) r2(5) r3(3) kept_box_trans by blast
  ultimately show ?thesis using r3(2) by (auto simp: fill_ready_def)
qed


section \<open>The rectangle\<close>

lemma paint_valid_cong:
  assumes "paint_state r' = paint_state r" "rdr_paintMode r' = rdr_paintMode r"
    "rdr_ualpha r' = rdr_ualpha r" "rdr_ured r' = rdr_ured r" "rdr_ugreen r' = rdr_ugreen r" "rdr_ublue r' = rdr_ublue r"
  shows "paint_valid r' = paint_valid r"
  by (simp only: paint_valid_def user_color_ok_def assms(2-6) paint_state_ok [OF assms(1)])

lemma fillRect_ok:
  assumes "coherent r" "rdr_compositeRule r = COMPOSITE_SRC_OVER" "paint_valid r"
    and "0 \<le> rdr_clip_bbMinX r" "rdr_clip_bbMaxX r < sf_width (rdr_surface r)"
    and "0 \<le> rdr_clip_bbMinY r" "rdr_clip_bbMaxY r < sf_height (rdr_surface r)"
    and "sf_width (rdr_surface r) * sf_height (rdr_surface r) \<le> int (length (rdr_data r))"
    and "int (length (rdr_data r)) < 2147483648" "premult_all (rdr_data r)"
  shows "\<exists>r'. fillRect F g (rdr_data r) True x y w h lEdge rEdge tEdge bEdge r = Some (None, r') \<and>
    premult_all (rdr_data r') \<and>
    kept_box (sf_width (rdr_surface r)) (rdr_clip_bbMinX r) (rdr_clip_bbMinY r)
      (rdr_clip_bbMaxX r) (rdr_clip_bbMaxY r) (rdr_data r) (rdr_data r')"
proof -
  let ?pixels = "rdr_data r"
  let ?e = "fill_edges x y w h"
  let ?r = "r\<lparr>rdr_rectX := x_from ?e, rdr_rectY := y_from ?e\<rparr>"
  define b where "b = apply_clip ?r (apply_edges lEdge rEdge tEdge bEdge ?e)"
  have c: "rdr_clip_bbMinX r \<le> x_from b" "rdr_clip_bbMinY r \<le> y_from b" "x_to b \<le> rdr_clip_bbMaxX r"
    "y_to b \<le> rdr_clip_bbMaxY r" and f: "fracs_ok b"
    using apply_clip_ok(2-5) [of ?r "apply_edges lEdge rEdge tEdge bEdge ?e"]
      apply_clip_ok(1) [OF fracs_ok_apply [OF fracs_ok_edges]] by (simp_all add: b_def)
  have e: "fillRect F g ?pixels True x y w h lEdge rEdge tEdge bEdge r =
      (if x_from b \<le> x_to b \<and> y_from b \<le> y_to b then with_surface ?pixels True (fill_rows F g b) ?r
       else Some (None, ?r))"
    by (simp add: fillRect_def Let_def b_def)
  show ?thesis
  proof (cases "x_from b \<le> x_to b \<and> y_from b \<le> y_to b")
    case True
    let ?d = "on_pixels ?r"
    have "0 < sf_width (rdr_surface r)" "0 \<le> sf_height (rdr_surface r)" using True c assms(4-7) by linarith+
    then have a: "surface_acquire (rdr_surface ?r) ?pixels True = Some (Inr ?pixels)"
      using assms(8) by (simp add: acquired_iff)
    have "on_surface b ?d" using True c assms(4-9) by (simp add: on_surface_def)
    moreover have "paint_valid ?d"
      using assms(3) by (subst paint_valid_cong [of _ r]) (simp_all only: paint_on_pixels, simp_all add: on_pixels_def)
    ultimately obtain r' where "fill_rows F g b ?d = Some r'" "premult_all (rdr_data r')"
      "kept_box (sf_width (rdr_surface r)) (x_from b) (y_from b) (x_to b) (y_to b) ?pixels (rdr_data r')"
      using fill_rows_ok [of ?d b F g] assms(1,2,10) True f by auto
    then show ?thesis using True e a c
      using acquired_on_pixels [of ?r] by (auto simp: with_surface_def fill_rows_forgets intro: kept_box_mono)
  next
    case False
    then show ?thesis using e assms(10) by auto
  qed
qed

end
