(* ===== verification/Pisces_Session.thy ===== *)
theory Pisces_Session
  imports Pisces_Fill
begin

text \<open>
  Whole sessions with a renderer: any sequence of setters and drawing operations. Every one of them
  keeps the renderer coherent, so the drawing operations find the routines their settings call for
  whatever happened before.
\<close>

section \<open>What a routine may change\<close>

lemma emit_rows_frame: "emit_rows l m r lf rf w rdr h = Some rdr' \<Longrightarrow> \<exists>d. rdr' = rdr\<lparr>rdr_data := d\<rparr>"
  by (auto simp: emit_rows_def split: bind_splits prod.splits)

lemma aa_rows_frame: "aa_rows px rdr h = Some rdr' \<Longrightarrow> \<exists>d a. rdr' = rdr\<lparr>rdr_data := d, rdr_rowAAInt := a\<rparr>"
  by (auto simp: aa_rows_def split: bind_splits prod.splits)

lemma mask_rows_frame: "mask_rows px st rdr h = Some rdr' \<Longrightarrow> \<exists>d. rdr' = rdr\<lparr>rdr_data := d\<rparr>"
  by (auto simp: mask_rows_def split: bind_splits prod.splits)

lemma lcd_frame: "blitSrcOverLCDMask8888_pre rdr h = Some rdr' \<Longrightarrow> \<exists>d. rdr' = rdr\<lparr>rdr_data := d\<rparr>"
  by (auto simp: blitSrcOverLCDMask8888_pre_def split: bind_splits prod.splits)

lemma clearRect_frame: "clearRect8888_any rdr x y w h = Some rdr' \<Longrightarrow> \<exists>d. rdr' = rdr\<lparr>rdr_data := d\<rparr>"
  by (auto simp: clearRect8888_any_def Let_def split: bind_splits)

lemma run_line_frame: "run_line l rdr h frac = Some rdr' \<Longrightarrow> \<exists>d. rdr' = rdr\<lparr>rdr_data := d\<rparr>"
  by (cases l) (auto simp: run_line_def emitLineSource8888_pre_def emitLineSourceOver8888_pre_def
      emitLinePTSource8888_pre_def emitLinePTSourceOver8888_pre_def Let_def dest: emit_rows_frame split: if_splits)

lemma coherent_data: "\<exists>d. rdr' = rdr\<lparr>rdr_data := d\<rparr> \<Longrightarrow> coherent rdr' = coherent rdr"
  by auto

lemma coherent_data_row: "\<exists>d a. rdr' = rdr\<lparr>rdr_data := d, rdr_rowAAInt := a\<rparr> \<Longrightarrow> coherent rdr' = coherent rdr"
  by auto

lemma run_rows_coherent: "run_rows b rdr h = Some rdr' \<Longrightarrow> coherent rdr' = coherent rdr"
  by (cases b) (auto simp: run_rows_def blitSrcOver8888_pre_def blitPTSrcOver8888_pre_def blitSrc8888_pre_def
      blitPTSrc8888_pre_def blitSrcOverMask8888_pre_def blitPTSrcOverMask8888_pre_def blitSrcMask8888_pre_def
      blitPTSrcMask8888_pre_def dest: aa_rows_frame mask_rows_frame lcd_frame)

lemma gradient_frame:
  "genLinearGradientPaint F g rdr h = Some rdr' \<Longrightarrow> \<exists>p. rdr' = rdr\<lparr>rdr_paint := p\<rparr>"
  "genRadialGradientPaint F g rdr h = Some rdr' \<Longrightarrow> \<exists>p. rdr' = rdr\<lparr>rdr_paint := p\<rparr>"
  by (auto simp: genLinearGradientPaint_def genRadialGradientPaint_def split: bind_splits)

lemma multiply_frame:
  "genTexturePaintMultiply F g rdr h = Some rdr' \<Longrightarrow> \<exists>p. rdr' = rdr\<lparr>rdr_paint := p\<rparr>"
  by (auto simp: genTexturePaintMultiply_def Let_def intro: exI [of _ "rdr_paint rdr"]
      dest!: gradient_frame split: bind_splits if_splits)

lemma run_paint_coherent: "run_paint F g p rdr h = Some rdr' \<Longrightarrow> coherent rdr' = coherent rdr"
  by (cases p) (auto simp: run_paint_def genTexturePaint_def dest!: gradient_frame multiply_frame
      split: bind_splits)

lemma call_coherent:
  "call_genPaint F g len rdr h = Some rdr' \<Longrightarrow> coherent rdr' = coherent rdr"
  "call_emitLine rdr h frac = Some rdr' \<Longrightarrow> coherent rdr' = coherent rdr"
  "call_emitRows rdr h = Some rdr' \<Longrightarrow> coherent rdr' = coherent rdr"
  by (auto simp: call_genPaint_def call_emitLine_def call_emitRows_def ALLOC3_paint_def
      dest!: run_paint_coherent run_line_frame run_rows_coherent split: option.splits if_splits)

lemma emit_block_coherent: "emit_block F g w n frac rdr = Some rdr' \<Longrightarrow> coherent rdr' = coherent rdr"
  by (auto simp: emit_block_def call_coherent split: bind_splits)

lemma full_rows_coherent:
  "full_rows F g w xf rows rdr = Some rdr' \<Longrightarrow> coherent rdr' = coherent rdr"
proof (induction F g w xf rows rdr rule: full_rows.induct)
  case (1 F g w xf rows rdr)
  from 1(2) show ?case
    by (subst (asm) full_rows.simps)
      (auto simp: Let_def next_rows_def emit_block_coherent dest!: 1(1) split: bind_splits if_splits)
qed

lemma coherent_validated: "coherent r \<Longrightarrow> coherent (VALIDATE_BLITTING (INVALIDATE_RENDERER_SURFACE r))"
  by (simp add: INVALIDATE_RENDERER_SURFACE_def coherent_mark coherent_VALIDATE)

lemma fill_rows_coherent:
  assumes "fill_rows F g b r = Some r'" "coherent r"
  shows "coherent r'"
  using assms(1) coherent_validated [OF assms(2)]
  by (auto simp: fill_rows_def Let_def next_rows_def emit_block_coherent full_rows_coherent
      split: bind_splits if_splits)

lemma alpha_row_coherent:
  assumes "alpha_row F g m a y xf xt n r = Some r'" "coherent r"
  shows "coherent r'"
  using assms(1) coherent_validated [OF assms(2)]
  by (auto simp: alpha_row_def Let_def call_coherent split: bind_splits if_splits)

lemma mask_row_coherent: "mask_row F g w mw x r = Some r' \<Longrightarrow> coherent r' = coherent r"
  by (auto simp: mask_row_def Let_def call_coherent split: bind_splits)

lemma mask_fill_coherent:
  assumes "mask_fill F g x0 y0 x1 y1 t bytes x mw mh off r = Some r'" "coherent r"
    and "t \<in> {ALPHA_MASK, LCD_ALPHA_MASK}"
  shows "coherent r'"
proof -
  let ?v = "VALIDATE_BLITTING (INVALIDATE_RENDERER_SURFACE (renderer_setMask t bytes mw mh r))"
  have "coherent ?v" using assms(2,3) by (intro coherent_validated coherent_setMask(1))
  moreover obtain s where s: "r' = renderer_removeMask s" "for_up 0 (nat (y1 - y0 + 1)) (\<lambda>_. mask_row F g (x1 - x0 + 1) mw x)
      (?v\<lparr>rdr_minTouched := x0, rdr_maxTouched := x1, rdr_currX := x0, rdr_currY := y0,
        rdr_alphaWidth := x1 - x0 + 1, rdr_imageScanlineStride := sf_width (rdr_surface ?v),
        rdr_imagePixelStride := 1, rdr_rowNum := 0, rdr_maskOffset := off\<rparr>) = Some s"
    using assms(1) by (auto simp: mask_fill_def Let_def split: bind_splits)
  ultimately have "coherent s"
    by (intro for_up_invariant [OF s(2), where I = "\<lambda>_. coherent"]) (simp_all add: mask_row_coherent)
  then show ?thesis using s(1) coherent_setMask(2) by simp
qed

lemma clear_coherent:
  assumes "renderer_clearRect x y w h ((INVALIDATE_RENDERER_SURFACE r)
    \<lparr>rdr_imagePixelStride := 1, rdr_imageScanlineStride := k\<rparr>) = Some r'" "coherent r"
  shows "coherent r'"
proof -
  have "coherent (VALIDATE_BLITTING ((INVALIDATE_RENDERER_SURFACE r)
    \<lparr>rdr_imagePixelStride := 1, rdr_imageScanlineStride := k\<rparr>))"
    using assms(2) by (intro coherent_VALIDATE) (simp add: INVALIDATE_RENDERER_SURFACE_def coherent_mark)
  then show ?thesis using assms(1)
    by (auto simp: renderer_clearRect_def Let_def dest!: clearRect_frame split: if_splits)
qed

lemma with_surface_coherent:
  assumes "with_surface pixels pinned body r = Some (e, r')" "coherent r"
    and "\<And>r r'. body r = Some r' \<Longrightarrow> coherent r \<Longrightarrow> coherent r'"
  shows "coherent r'"
  using assms(1,2) assms(3) [of "acquired _ r"]
  by (auto simp: with_surface_def split: option.splits sum.splits surface_error.splits)

lemma fillRect_coherent:
  assumes "fillRect F g pixels pinned x y w h lE rE tE bE r = Some (e, r')" "coherent r"
  shows "coherent r'"
  using assms
  by (auto simp: fillRect_def Let_def intro: with_surface_coherent fill_rows_coherent split: if_splits)

lemma coherent_paints:
  assumes "coherent r"
  shows "coherent (renderer_setTexture F mode data w h st rep sm t al x0 y0 x1 y1 r)"
    "coherent (fst (renderer_setLinearGradient F a0 b0 a1 b1 ramp t r g))"
    "coherent (fst (renderer_setRadialGradient F k1 k2 cx cy fx fy rad ramp t r g))"
  using coherent_setPaintMode [OF assms]
  by (simp_all add: renderer_setTexture_def renderer_setLinearGradient_def renderer_setRadialGradient_def
      Let_def case_prod_unfold)

section \<open>Sessions\<close>

text \<open>Between the calls Java code may store into the pixel array (\<open>session_pixels\<close>).\<close>

inductive session :: "'f float_ops \<Rightarrow> surface \<Rightarrow> renderer \<Rightarrow> bool" for F sf where
  session_create: "session F sf (renderer_create sf)"
| session_pixels: "session F sf r \<Longrightarrow> session F sf (r\<lparr>rdr_data := d\<rparr>)"
| session_set: "session F sf r \<Longrightarrow> renderer_step r r' \<Longrightarrow> session F sf r'"
| session_linear: "session F sf r \<Longrightarrow>
    setLinearGradientImpl F x0 y0 x1 y1 ramp pin cycle t r g = (e, r', g') \<Longrightarrow> session F sf r'"
| session_radial: "session F sf r \<Longrightarrow>
    setRadialGradientImpl F c94 c97 cx cy fx fy radius ramp pin cycle t r g = (e, r', g') \<Longrightarrow> session F sf r'"
| session_texture: "session F sf r \<Longrightarrow>
    setTextureImpl F data pin w h st t rep alpha r = Some (e, r') \<Longrightarrow> session F sf r'"
| session_fill: "session F sf r \<Longrightarrow> fillRectImpl F g pixels pin x y w h r = Some (e, r') \<Longrightarrow> session F sf r'"
| session_image: "session F sf r \<Longrightarrow>
    drawImageImpl F g pixels pin mode data ipin w h off st t rep bx bby bw bh le re te be x0 y0 x1 y1 alpha r =
      Some (e, r') \<Longrightarrow> session F sf r'"
| session_row: "session F sf r \<Longrightarrow>
    emitAndClearAlphaRowImpl F g pixels pin amap mpin deltas dpin y xf xt n r = Some (e, r', deltas') \<Longrightarrow>
    session F sf r'"
| session_mask: "session F sf r \<Longrightarrow>
    fillAlphaMaskImpl F g pixels pin bytes mpin x y mw mh off r = Some (e, r') \<Longrightarrow> session F sf r'"
| session_lcd: "session F sf r \<Longrightarrow>
    fillLCDAlphaMaskImpl F g pixels pin bytes mpin x y mw mh off r = Some (e, r') \<Longrightarrow> session F sf r'"
| session_clear: "session F sf r \<Longrightarrow> clearRectImpl pixels pin x y w h r = Some (e, r') \<Longrightarrow> session F sf r'"

lemma fillAlphaMask_coherent:
  assumes "fillAlphaMask F g pixels pin x0 y0 x1 y1 t bytes mpin x mw mh off r = Some (e, r')" "coherent r"
    and "t \<in> {ALPHA_MASK, LCD_ALPHA_MASK}"
  shows "coherent r'"
  using assms(1,2)
  by (auto simp: fillAlphaMask_def intro: with_surface_coherent mask_fill_coherent [OF _ _ assms(3)]
      split: if_splits)

lemma emitRow_coherent:
  assumes "emitAndClearAlphaRowImpl F g pixels pin amap mpin deltas dpin y xf xt n r = Some (e, r', deltas')"
    and "coherent r"
  shows "coherent r'"
proof -
  have row: "coherent b" if "with_surface pixels pin (alpha_row F g amap deltas y xf xt n) r = Some (e, b)" for e b
    using that assms(2) by (rule with_surface_coherent) (rule alpha_row_coherent)
  have none: "coherent b" if "with_surface pixels pin
      (\<lambda>rdr. Some (VALIDATE_BLITTING (INVALIDATE_RENDERER_SURFACE rdr))) r = Some (e, b)" for e b
    using that assms(2) by (rule with_surface_coherent) (auto intro: coherent_validated)
  show ?thesis
  proof (cases "mpin \<and> dpin")
    case True
    then obtain e' b where "with_surface pixels pin (alpha_row F g amap deltas y xf xt n) r = Some (e', b)"
      "r' = b \<or> r' = b\<lparr>rdr_rowAAInt := []\<rparr>"
      using assms(1) by (auto simp: emitAndClearAlphaRowImpl_def split: if_splits bind_splits)
    with row [of e' b] show ?thesis by auto
  next
    case False
    then show ?thesis using assms(1) none by (auto simp: emitAndClearAlphaRowImpl_def split: if_splits bind_splits)
  qed
qed

lemma session_coherent:
  assumes "session F sf r" "sf_imageType sf = TYPE_INT_ARGB_PRE"
  shows "coherent r"
  using assms(1)
proof induction
  case session_create
  then show ?case using assms(2) by (rule coherent_create)
next
  case (session_pixels r d)
  then show ?case by simp
next
  case (session_set r r')
  then show ?case by (blast intro: coherent_step)
next
  case (session_linear r x0 y0 x1 y1 ramp pin cycle t g e r' g')
  then show ?case
    using coherent_paints(2) [of "r\<lparr>rdr_gradient_cycleMethod := cycle\<rparr>" F x0 y0 x1 y1 ramp t g]
    by (auto simp: setLinearGradientImpl_def split: if_splits)
next
  case (session_radial r c94 c97 cx cy fx fy radius ramp pin cycle t g e r' g')
  then show ?case
    using coherent_paints(3) [of "r\<lparr>rdr_gradient_cycleMethod := cycle\<rparr>" F c94 c97 cx cy fx fy radius ramp t g]
    by (auto simp: setRadialGradientImpl_def split: if_splits)
next
  case (session_texture r data pin w h st t rep alpha e r')
  then show ?case
    by (auto simp: setTextureImpl_def intro: coherent_paints split: if_splits bind_splits)
next
  case (session_fill r g pixels pin x y w h e r')
  then show ?case by (auto simp: fillRectImpl_def intro: fillRect_coherent)
next
  case (session_image r g pixels pin mode data ipin w h off st t rep bx bby bw bh le re te be x0 y0 x1 y1 alpha e r')
  then show ?case
    by (auto simp: drawImageImpl_def dest!: fillRect_coherent intro: coherent_paints split: if_splits bind_splits)
next
  case (session_row r g pixels pin amap mpin deltas dpin y xf xt n e r' deltas')
  then show ?case by (blast intro: emitRow_coherent)
next
  case (session_mask r g pixels pin bytes mpin x y mw mh off e r')
  then show ?case by (auto simp: fillAlphaMaskImpl_def Let_def intro: fillAlphaMask_coherent)
next
  case (session_lcd r g pixels pin bytes mpin x y mw mh off e r')
  then show ?case by (auto simp: fillLCDAlphaMaskImpl_def Let_def intro: fillAlphaMask_coherent)
next
  case (session_clear r pixels pin x y w h e r')
  then show ?case
    by (auto simp: clearRectImpl_def intro: with_surface_coherent clear_coherent)
qed

section \<open>Drawing is safe\<close>

text \<open>The clip lies on the surface, whose array holds all its pixels, premultiplied.\<close>

definition drawable :: "renderer \<Rightarrow> bool" where
  "drawable r \<longleftrightarrow>
     0 \<le> rdr_clip_bbMinX r \<and> rdr_clip_bbMaxX r < sf_width (rdr_surface r) \<and>
     0 \<le> rdr_clip_bbMinY r \<and> rdr_clip_bbMaxY r < sf_height (rdr_surface r) \<and>
     sf_width (rdr_surface r) * sf_height (rdr_surface r) \<le> int (length (rdr_data r)) \<and>
     int (length (rdr_data r)) < 2147483648 \<and> premult_all (rdr_data r)"

definition clip_kept :: "renderer \<Rightarrow> renderer \<Rightarrow> bool" where
  "clip_kept r r' \<longleftrightarrow> premult_all (rdr_data r') \<and>
     kept_box (sf_width (rdr_surface r)) (rdr_clip_bbMinX r) (rdr_clip_bbMinY r)
       (rdr_clip_bbMaxX r) (rdr_clip_bbMaxY r) (rdr_data r) (rdr_data r')"

text \<open>
  C1: filling a rectangle with source-over. In any session, with a valid flat, gradient or texture
  paint and a clip on the surface, fillRect returns without an exception for every rectangle (whole
  or fractional, inside, across or outside the clip, whatever the edge modes and the float
  arithmetic), leaves every pixel premultiplied, and changes no pixel outside the clip.
\<close>

theorem fillRect_safe:
  assumes "session F sf r" "sf_imageType sf = TYPE_INT_ARGB_PRE" "drawable r"
    and "rdr_compositeRule r = COMPOSITE_SRC_OVER" "paint_valid r"
  shows "\<exists>r'. fillRect F g (rdr_data r) True x y w h lEdge rEdge tEdge bEdge r = Some (None, r') \<and> clip_kept r r'"
  unfolding clip_kept_def
  by (rule fillRect_ok [OF session_coherent [OF assms(1,2)] assms(4,5)]) (use assms(3) in \<open>auto simp: drawable_def\<close>)

definition draw_demo :: renderer where
  "draw_demo = (renderer_setColor 255 0 0 128 (renderer_create (JavaSurface_initialize 1 4 3)))
     \<lparr>rdr_data := replicate 12 0\<rparr>"

lemma draw_demo_session: "session F (JavaSurface_initialize 1 4 3) draw_demo"
  unfolding draw_demo_def by (intro session_pixels session_set [OF session_create] step_color)

lemmas draw_demo_simps = draw_demo_def renderer_setColor_def setPaintMode_def renderer_create_def
  zero_renderer_def mark_def JavaSurface_initialize_def Let_def PAINT_FLAT_COLOR_def

lemma draw_demo_ok: "drawable draw_demo" "paint_valid draw_demo" "rdr_compositeRule draw_demo = COMPOSITE_SRC_OVER"
  by (simp_all add: drawable_def paint_valid_def user_color_ok_def chan_def premult_all_def premult_def
      pixA_def pixR_def pixG_def pixB_def draw_demo_simps shr_def)

theorem fillRect_safe_witness:
  "\<exists>r'. fillRect int_ops int_gradient (rdr_data draw_demo) True 98304 32768 131072 65536 0 0 0 0 draw_demo =
     Some (None, r') \<and> clip_kept draw_demo r'"
  by (rule fillRect_safe [OF draw_demo_session _ draw_demo_ok(1,3,2)])
    (simp add: JavaSurface_initialize_def TYPE_INT_ARGB_PRE_def)



end
