(* ===== verification/Pisces_Masks.thy ===== *)
theory Pisces_Masks
  imports Pisces_Session
begin

text \<open>
  Drawing rows under coverage: anti-aliased rows (\<open>emitAndClearAlphaRowImpl\<close>), alpha masks
  (\<open>fillAlphaMaskImpl\<close>) and clearing (\<open>clearRectImpl\<close>).
\<close>

section \<open>One row\<close>

text \<open>The renderer is set up to draw columns \<open>x0\<close> to \<open>x1\<close> of row \<open>_currY\<close>.\<close>

definition one_row :: "jint \<Rightarrow> jint \<Rightarrow> renderer \<Rightarrow> bool" where
  "one_row x0 x1 r \<longleftrightarrow>
     rdr_minTouched r = x0 \<and> rdr_maxTouched r = x1 \<and> rdr_alphaWidth r = x1 - x0 + 1 \<and>
     0 \<le> x0 \<and> x0 \<le> x1 \<and> x1 < sf_width (rdr_surface r) \<and>
     rdr_imageScanlineStride r = sf_width (rdr_surface r) \<and> rdr_imagePixelStride r = 1 \<and>
     rdr_currImageOffset r = rdr_currY r * sf_width (rdr_surface r) \<and>
     0 \<le> rdr_currY r \<and> rdr_currY r < sf_height (rdr_surface r) \<and>
     sf_width (rdr_surface r) * sf_height (rdr_surface r) \<le> int (length (rdr_data r)) \<and>
     premult_all (rdr_data r) \<and> source_ok r"

lemma row_fits:
  assumes "0 \<le> y" "y < H" "0 < W" "W * H \<le> (n :: int)"
  shows "0 \<le> y * W" "y * W + W \<le> n"
proof -
  have "(y + 1) * W \<le> H * W" using assms by (intro mult_right_mono) auto
  also have "\<dots> \<le> n" using assms(4) by (simp add: mult.commute)
  finally show "y * W + W \<le> n" by (simp add: distrib_right)
qed (use assms in simp)

lemma one_row_target:
  assumes "one_row x0 x1 r"
  shows "touched_width r = x1 - x0 + 1" "target_ok r (touched_width r) 1"
    "target_base r = nat (rdr_currY r * sf_width (rdr_surface r) + x0)"
proof -
  show t: "touched_width r = x1 - x0 + 1" using assms by (simp add: one_row_def touched_width_def)
  have "0 \<le> rdr_currY r * sf_width (rdr_surface r)"
    "rdr_currY r * sf_width (rdr_surface r) + sf_width (rdr_surface r) \<le> int (length (rdr_data r))"
    using assms row_fits [of "rdr_currY r" "sf_height (rdr_surface r)" "sf_width (rdr_surface r)"]
    by (auto simp: one_row_def)
  then show "target_ok r (touched_width r) 1" using assms unfolding t by (simp add: target_ok_def one_row_def)
  show "target_base r = nat (rdr_currY r * sf_width (rdr_surface r) + x0)"
    using assms by (simp add: target_base_def one_row_def)
qed

lemma one_row_kept:
  assumes "one_row x0 x1 r" "rows_kept (r\<lparr>rdr_paint := p\<rparr>) (touched_width r) 1 d"
  shows "premult_all d" "length d = length (rdr_data r)"
    "kept_box (sf_width (rdr_surface r)) x0 (rdr_currY r) x1 (rdr_currY r) (rdr_data r) d"
proof -
  note t = one_row_target [OF assms(1)]
  have k: "kept_outside (nat (rdr_currY r * sf_width (rdr_surface r) + x0)) (nat (sf_width (rdr_surface r)))
      (nat (x1 - x0 + 1)) 1 (rdr_data r) d"
    using assms t by (simp add: rows_kept_def one_row_def target_base_def)
  show "premult_all d" using assms(2) by (simp add: rows_kept_def)
  show "length d = length (rdr_data r)" using k by (rule kept_outside_length)
  have "kept_box (sf_width (rdr_surface r)) x0 (rdr_currY r) (x0 + int (nat (x1 - x0 + 1)) - 1)
      (rdr_currY r + int 1 - 1) (rdr_data r) d"
    by (rule kept_outside_box [OF _ _ _ k]) (use assms(1) in \<open>auto simp: one_row_def\<close>)
  then show "kept_box (sf_width (rdr_surface r)) x0 (rdr_currY r) x1 (rdr_currY r) (rdr_data r) d"
    using assms(1) by (simp add: one_row_def)
qed

lemma row_paint:
  assumes "one_row x0 x1 r"
  shows "\<exists>p. call_genPaint F g (x1 - x0 + 1) r 1 = Some (r\<lparr>rdr_paint := p\<rparr>) \<and>
    (rdr_genPaint r \<noteq> None \<longrightarrow> paint_ok (touched_width r) p)"
  using call_genPaint_fills [of r 1 F g] assms one_row_target(1) [OF assms] by (simp add: one_row_def)

lemma mask_row_ok:
  assumes "one_row x0 x1 r"
    and "rdr_emitRows r = (if rdr_genPaint r = None then Some BlitSrcOverMask8888_pre
      else Some BlitPTSrcOverMask8888_pre)"
    and "0 \<le> rdr_maskOffset r" "rdr_maskOffset r + (x1 - x0 + 1) \<le> int (length (rdr_mask_byteData r))"
  shows "\<exists>p d. do { r \<leftarrow> call_genPaint F g (x1 - x0 + 1) r 1; call_emitRows r 1 } =
      Some (r\<lparr>rdr_paint := p, rdr_data := d\<rparr>) \<and> premult_all d \<and> length d = length (rdr_data r) \<and>
    kept_box (sf_width (rdr_surface r)) x0 (rdr_currY r) x1 (rdr_currY r) (rdr_data r) d"
proof -
  obtain p where p: "call_genPaint F g (x1 - x0 + 1) r 1 = Some (r\<lparr>rdr_paint := p\<rparr>)"
    "rdr_genPaint r \<noteq> None \<longrightarrow> paint_ok (touched_width r) p"
    using row_paint [OF assms(1), of F g] by blast
  let ?r = "r\<lparr>rdr_paint := p\<rparr>"
  note t = one_row_target [OF assms(1)]
  have tw: "touched_width ?r = touched_width r" by (simp add: touched_width_def)
  have t': "target_ok ?r (touched_width ?r) 1" "premult_all (rdr_data ?r)"
    using t(2) assms(1) tw by (simp_all add: target_ok_def one_row_def)
  have m: "mask_ok ?r (rdr_alphaWidth ?r) 1" "mask_ok ?r 0 1"
    using assms t(1) by (simp_all add: mask_ok_def tw one_row_def)
  have "\<exists>d. call_emitRows ?r 1 = Some (?r\<lparr>rdr_data := d\<rparr>) \<and> rows_kept ?r (touched_width r) 1 d" (is "\<exists>d. ?Q d")
  proof (cases "rdr_genPaint r")
    case None
    then have "color_ok ?r" using assms(1) by (simp add: one_row_def source_ok_def color_ok_def)
    then show ?thesis
      using source_over_rows_kept(1) [OF t' _ m(1)] None assms(2) by (simp add: call_emitRows_def run_rows_def tw)
  next
    case (Some q)
    then show ?thesis
      using source_over_rows_kept(2) [OF t' _ m(2)] p(2) assms(2) by (simp add: call_emitRows_def run_rows_def tw)
  qed
  then obtain d where "?Q d" ..
  then show ?thesis using p(1) one_row_kept [OF assms(1), of p d] by (intro exI [of _ p] exI [of _ d]) simp
qed

lemma aa_row_ok:
  assumes "one_row x0 x1 r"
    and "rdr_emitRows r = (if rdr_genPaint r = None then Some BlitSrcOver8888_pre else Some BlitPTSrcOver8888_pre)"
    and "x1 - x0 + 1 \<le> int (length (rdr_rowAAInt r))"
    and "\<forall>i < nat (x1 - x0 + 1). in_map r (sum_list (take (Suc i) (rdr_rowAAInt r)))"
  shows "\<exists>p d. do { r \<leftarrow> call_genPaint F g (x1 - x0 + 1) r 1; call_emitRows r 1 } =
      Some (r\<lparr>rdr_paint := p, rdr_data := d,
        rdr_rowAAInt := upd_range 0 (nat (x1 - x0 + 1)) (\<lambda>_ _. 0) (rdr_rowAAInt r)\<rparr>) \<and>
    premult_all d \<and> length d = length (rdr_data r) \<and>
    kept_box (sf_width (rdr_surface r)) x0 (rdr_currY r) x1 (rdr_currY r) (rdr_data r) d"
proof -
  obtain p where p: "call_genPaint F g (x1 - x0 + 1) r 1 = Some (r\<lparr>rdr_paint := p\<rparr>)"
    "rdr_genPaint r \<noteq> None \<longrightarrow> paint_ok (touched_width r) p"
    using row_paint [OF assms(1), of F g] by blast
  let ?r = "r\<lparr>rdr_paint := p\<rparr>"
  note t = one_row_target [OF assms(1)]
  have tw: "touched_width ?r = x1 - x0 + 1" using t(1) by (auto simp: touched_width_def split: if_splits)
  have t': "target_ok ?r (touched_width ?r) 1" "premult_all (rdr_data ?r)"
    using t(1,2) assms(1) tw by (simp_all add: target_ok_def one_row_def)
  have a: "touched_width ?r \<le> int (length (rdr_rowAAInt ?r))"
    "\<forall>i < nat (touched_width ?r). in_map ?r (sum_list (take (Suc i) (rdr_rowAAInt ?r)))"
    using assms(3,4) by (simp_all add: tw in_map_def)
  have "\<exists>d. call_emitRows ?r 1 = Some (?r\<lparr>rdr_data := d,
      rdr_rowAAInt := upd_range 0 (nat (x1 - x0 + 1)) (\<lambda>_ _. 0) (rdr_rowAAInt r)\<rparr>) \<and> rows_kept ?r (touched_width r) 1 d" (is "\<exists>d. ?Q d")
  proof (cases "rdr_genPaint r")
    case None
    then have "color_ok ?r" using assms(1) by (simp add: one_row_def source_ok_def color_ok_def)
    then show ?thesis
      using source_over_rows_kept(3) [OF t' _ a] None assms(2) by (simp add: call_emitRows_def run_rows_def tw t(1))
  next
    case (Some q)
    then show ?thesis
      using source_over_rows_kept(4) [OF t' _ a] p(2) assms(2) by (simp add: call_emitRows_def run_rows_def tw t(1))
  qed
  then obtain d where "?Q d" ..
  then show ?thesis using p(1) one_row_kept [OF assms(1), of p d] by (intro exI [of _ p] exI [of _ d]) simp
qed

section \<open>Anti-aliased rows\<close>

lemma validated_rows:
  assumes "coherent r" "rdr_compositeRule r = COMPOSITE_SRC_OVER" "paint_valid r"
    and "v = VALIDATE_BLITTING (INVALIDATE_RENDERER_SURFACE r)"
  shows "source_ok v" "rdr_surface v = rdr_surface r" "rdr_data v = sf_data (rdr_surface r)"
    "rdr_maskType r = NO_MASK \<Longrightarrow> rdr_emitRows v =
      (if rdr_genPaint v = None then Some BlitSrcOver8888_pre else Some BlitPTSrcOver8888_pre)"
    "rdr_maskType r = ALPHA_MASK \<Longrightarrow> rdr_emitRows v =
      (if rdr_genPaint v = None then Some BlitSrcOverMask8888_pre else Some BlitPTSrcOverMask8888_pre)"
    "rdr_mask_byteData v = rdr_mask_byteData r"
    "rdr_clip_bbMinX v = rdr_clip_bbMinX r" "rdr_clip_bbMinY v = rdr_clip_bbMinY r"
    "rdr_clip_bbMaxX v = rdr_clip_bbMaxX r" "rdr_clip_bbMaxY v = rdr_clip_bbMaxY r"
  using validated_over [OF assms]
  by (simp_all add: over_selected_def rows_of_def paint_consts [THEN not_sym] assms(4)
      COMPOSITE_SRC_OVER_def COMPOSITE_CLEAR_def NO_MASK_def ALPHA_MASK_def)
    (simp_all add: INVALIDATE_RENDERER_SURFACE_def mark_def)

text \<open>The columns \<open>emitAndClearAlphaRowImpl\<close> draws have deltas, whose sums index the alpha map.\<close>

definition deltas_ok :: "renderer \<Rightarrow> jint list \<Rightarrow> jint list \<Rightarrow> jint \<Rightarrow> jint \<Rightarrow> bool" where
  "deltas_ok r alphaMap deltas xf xt \<longleftrightarrow>
    (let n = min xt (rdr_clip_bbMaxX r) - max xf (rdr_clip_bbMinX r) + 1
     in n \<le> int (length deltas) \<and>
        (\<forall>i < nat n. 0 \<le> sum_list (take (Suc i) deltas) \<and> sum_list (take (Suc i) deltas) < int (length alphaMap)))"

lemma drawable_acquires:
  assumes "drawable r" "rdr_clip_bbMinX r \<le> rdr_clip_bbMaxX r" "rdr_clip_bbMinY r \<le> rdr_clip_bbMaxY r"
    and "\<And>r d. body (r\<lparr>rdr_data := d\<rparr>) = body r"
  shows "with_surface (rdr_data r) True body r = map_option (Pair None) (body (on_pixels r))"
proof -
  have "surface_acquire (rdr_surface r) (rdr_data r) True = Some (Inr (rdr_data r))"
    using assms by (subst acquired_iff) (auto simp: drawable_def)
  then show ?thesis by (simp add: with_surface_def acquired_on_pixels assms(4))
qed

lemma drawable_on_pixels [simp]: "drawable (on_pixels r) = drawable r" "clip_kept (on_pixels r) r' = clip_kept r r'"
  by (simp_all add: drawable_def clip_kept_def)

lemma paint_valid_on_pixels [simp]: "paint_valid (on_pixels r) = paint_valid r"
  by (rule paint_valid_cong) (simp only: paint_on_pixels, simp_all add: on_pixels_def)

lemma alpha_row_forgets: "alpha_row F g m a y xf xt n (r\<lparr>rdr_data := d\<rparr>) = alpha_row F g m a y xf xt n r"
  by (simp only: alpha_row_def VALIDATE_forgets)

lemma mask_fill_forgets:
  "mask_fill F g x0 y0 x1 y1 t bytes x mw mh off (r\<lparr>rdr_data := d\<rparr>) = mask_fill F g x0 y0 x1 y1 t bytes x mw mh off r"
proof -
  have "renderer_setMask t bytes mw mh (r\<lparr>rdr_data := d\<rparr>) = (renderer_setMask t bytes mw mh r)\<lparr>rdr_data := d\<rparr>"
    by (simp add: renderer_setMask_def mark_def)
  then show ?thesis by (simp only: mask_fill_def VALIDATE_forgets)
qed

lemma drawable_offset:
  assumes "drawable r" "rdr_clip_bbMinY r \<le> y" "y \<le> rdr_clip_bbMaxY r" "0 < sf_width (rdr_surface r)"
  shows "s32 (y * sf_width (rdr_surface r)) = y * sf_width (rdr_surface r)"
proof -
  have "0 \<le> y * sf_width (rdr_surface r)"
    "y * sf_width (rdr_surface r) + sf_width (rdr_surface r) \<le> int (length (rdr_data r))"
    using assms by (auto intro!: row_fits [of y "sf_height (rdr_surface r)"] simp: drawable_def)
  moreover have "int (length (rdr_data r)) < 2147483648" using assms(1) by (simp add: drawable_def)
  ultimately show ?thesis using assms(4) by (intro s32_id) linarith+
qed

lemma alpha_row_drawn:
  assumes "coherent r" "rdr_compositeRule r = COMPOSITE_SRC_OVER" "paint_valid r" "rdr_maskType r = NO_MASK"
    and "drawable r" "deltas_ok r alphaMap deltas xf xt"
    and data: "sf_data (rdr_surface r) = rdr_data r"
  shows "\<exists>r'. alpha_row F g alphaMap deltas y xf xt n r = Some r' \<and> clip_kept r r' \<and>
    length (rdr_rowAAInt r') = length deltas"
proof -
  define v where "v = VALIDATE_BLITTING (INVALIDATE_RENDERER_SURFACE r)"
  note v = validated_rows [OF assms(1-3) v_def, unfolded data]
  let ?x0 = "max xf (rdr_clip_bbMinX r)" and ?x1 = "min xt (rdr_clip_bbMaxX r)"
  let ?W = "sf_width (rdr_surface r)"
  show ?thesis
  proof (cases "?x1 \<ge> ?x0 \<and> y \<ge> rdr_clip_bbMinY r \<and> y \<le> rdr_clip_bbMaxY r")
    case True
    define s where "s = v\<lparr>rdr_minTouched := ?x0, rdr_maxTouched := ?x1, rdr_currX := ?x0, rdr_currY := y,
      rdr_rowNum := n, rdr_alphaMap := alphaMap, rdr_rowAAInt := deltas, rdr_alphaWidth := ?x1 - ?x0 + 1,
      rdr_currImageOffset := s32 (y * ?W), rdr_imageScanlineStride := ?W, rdr_imagePixelStride := 1\<rparr>"
    have e: "alpha_row F g alphaMap deltas y xf xt n r =
        do { s \<leftarrow> call_genPaint F g (?x1 - ?x0 + 1) s 1; call_emitRows s 1 }"
      using True unfolding alpha_row_def Let_def v_def [symmetric] v(2,7-10) s_def by (simp only: if_True simp_thms)
    have W: "0 < ?W" using True assms(5) by (auto simp: drawable_def)
    have "0 \<le> ?x0" "?x1 < ?W" using assms(5) by (auto simp: drawable_def)
    then have "one_row ?x0 ?x1 s"
      using True assms(5) v(1-3) W drawable_offset [OF assms(5) _ _ W, of y]
      by (simp add: one_row_def s_def drawable_def)
    moreover have "rdr_emitRows s = (if rdr_genPaint s = None then Some BlitSrcOver8888_pre else Some BlitPTSrcOver8888_pre)"
      using v(4) [OF assms(4)] by (simp add: s_def)
    moreover have "?x1 - ?x0 + 1 \<le> int (length (rdr_rowAAInt s))"
      "\<forall>i < nat (?x1 - ?x0 + 1). in_map s (sum_list (take (Suc i) (rdr_rowAAInt s)))"
      using assms(6) by (simp_all add: deltas_ok_def Let_def s_def in_map_def)
    ultimately obtain p d where d: "do { s \<leftarrow> call_genPaint F g (?x1 - ?x0 + 1) s 1; call_emitRows s 1 } =
        Some (s\<lparr>rdr_paint := p, rdr_data := d,
          rdr_rowAAInt := upd_range 0 (nat (?x1 - ?x0 + 1)) (\<lambda>_ _. 0) (rdr_rowAAInt s)\<rparr>)"
      "premult_all d" "kept_box (sf_width (rdr_surface s)) ?x0 (rdr_currY s) ?x1 (rdr_currY s) (rdr_data s) d"
      using aa_row_ok [of ?x0 ?x1 s F g] by auto
    have "kept_box ?W ?x0 y ?x1 y (rdr_data r) d" using d(3) v(2,3) by (simp add: s_def)
    then have "kept_box ?W (rdr_clip_bbMinX r) (rdr_clip_bbMinY r) (rdr_clip_bbMaxX r) (rdr_clip_bbMaxY r) (rdr_data r) d"
      by (rule kept_box_mono) (use True in auto)
    then show ?thesis using e d(1,2) by (simp add: clip_kept_def s_def)
  next
    case False
    then show ?thesis
      using assms(5) unfolding alpha_row_def Let_def v_def [symmetric] v(2,7-10)
      by (auto simp: clip_kept_def drawable_def v(3))
  qed
qed



section \<open>Alpha masks\<close>

text \<open>
  The loop over the rows of a mask: row \<open>y\<close> of the surface, at offset \<open>off + k * maskWidth\<close> in the
  mask, for \<open>k\<close> rows done.
\<close>

definition mask_state :: "jint \<Rightarrow> jint \<Rightarrow> jint \<Rightarrow> jint \<Rightarrow> jint list \<Rightarrow> renderer \<Rightarrow> nat \<Rightarrow> renderer \<Rightarrow> bool" where
  "mask_state x0 x1 y0 mw bytes r k s \<longleftrightarrow>
     rdr_minTouched s = x0 \<and> rdr_maxTouched s = x1 \<and> rdr_alphaWidth s = x1 - x0 + 1 \<and>
     rdr_imageScanlineStride s = sf_width (rdr_surface r) \<and> rdr_imagePixelStride s = 1 \<and>
     rdr_surface s = rdr_surface r \<and> rdr_currY s = y0 + int k \<and>
     rdr_mask_byteData s = bytes \<and> source_ok s \<and>
     rdr_emitRows s = (if rdr_genPaint s = None then Some BlitSrcOverMask8888_pre
       else Some BlitPTSrcOverMask8888_pre) \<and>
     premult_all (rdr_data s) \<and>
     kept_box (sf_width (rdr_surface r)) (rdr_clip_bbMinX r) (rdr_clip_bbMinY r)
       (rdr_clip_bbMaxX r) (rdr_clip_bbMaxY r) (rdr_data r) (rdr_data s)"

lemma mask_row_step:
  assumes d: "drawable r" and m: "mask_state x0 x1 y0 mw bytes r k s"
    and x: "rdr_clip_bbMinX r \<le> x0" "x0 \<le> x1" "x1 \<le> rdr_clip_bbMaxX r"
    and y: "rdr_clip_bbMinY r \<le> y0" "y0 + int k \<le> rdr_clip_bbMaxY r"
    and off: "0 \<le> rdr_maskOffset s" "rdr_maskOffset s + (x1 - x0 + 1) \<le> int (length bytes)"
  shows "\<exists>s'. mask_row F g (x1 - x0 + 1) mw x s = Some s' \<and> mask_state x0 x1 y0 mw bytes r (Suc k) s' \<and>
    rdr_maskOffset s' = rdr_maskOffset s + mw"
proof -
  let ?W = "sf_width (rdr_surface r)"
  let ?t = "s\<lparr>rdr_currImageOffset := s32 (rdr_currY s * sf_width (rdr_surface s))\<rparr>"
  have W: "0 < ?W" using d x by (simp add: drawable_def)
  have len: "length (rdr_data s) = length (rdr_data r)" using m by (simp add: mask_state_def kept_box_def)
  have "s32 ((y0 + int k) * ?W) = (y0 + int k) * ?W" using drawable_offset [OF d _ y(2) W] y(1) by simp
  then have "one_row x0 x1 ?t"
    using m d x y len by (simp add: mask_state_def one_row_def drawable_def)
  then obtain p q where pq: "do { t \<leftarrow> call_genPaint F g (x1 - x0 + 1) ?t 1; call_emitRows t 1 } =
      Some (?t\<lparr>rdr_paint := p, rdr_data := q\<rparr>)" "premult_all q"
    "kept_box (sf_width (rdr_surface ?t)) x0 (rdr_currY ?t) x1 (rdr_currY ?t) (rdr_data ?t) q"
    using mask_row_ok [of x0 x1 ?t F g] m off by (auto simp: mask_state_def)
  have "kept_box ?W x0 (y0 + int k) x1 (y0 + int k) (rdr_data s) q" using pq(3) m by (simp add: mask_state_def)
  then have "kept_box ?W (rdr_clip_bbMinX r) (rdr_clip_bbMinY r) (rdr_clip_bbMaxX r) (rdr_clip_bbMaxY r) (rdr_data s) q"
    by (rule kept_box_mono) (use x y in auto)
  then have k: "kept_box ?W (rdr_clip_bbMinX r) (rdr_clip_bbMinY r) (rdr_clip_bbMaxX r) (rdr_clip_bbMaxY r) (rdr_data r) q"
    using m kept_box_trans by (auto simp: mask_state_def)
  have "mask_row F g (x1 - x0 + 1) mw x s = Some (?t\<lparr>rdr_paint := p, rdr_data := q,
      rdr_maskOffset := rdr_maskOffset s + mw, rdr_rowNum := rdr_rowNum s + 1, rdr_currX := x,
      rdr_currY := rdr_currY s + 1\<rparr>)" (is "_ = Some ?s'")
    using pq(1) by (auto simp: mask_row_def Let_def split: bind_splits)
  moreover have "mask_state x0 x1 y0 mw bytes r (Suc k) ?s'"
    using m pq(2) k by (simp add: mask_state_def)
  ultimately show ?thesis by auto
qed

lemma mask_fill_drawn:
  assumes "coherent r" "rdr_compositeRule r = COMPOSITE_SRC_OVER" "paint_valid r" and d: "drawable r"
    and x: "rdr_clip_bbMinX r \<le> x0" "x0 \<le> x1" "x1 \<le> rdr_clip_bbMaxX r"
    and y: "rdr_clip_bbMinY r \<le> y0" "y1 \<le> rdr_clip_bbMaxY r"
    and off: "0 \<le> off" "0 \<le> mw" "off + (y1 - y0) * mw + (x1 - x0 + 1) \<le> int (length bytes)"
    and data: "sf_data (rdr_surface r) = rdr_data r"
  shows "\<exists>r'. mask_fill F g x0 y0 x1 y1 ALPHA_MASK bytes x mw mh off r = Some r' \<and> clip_kept r r'"
proof -
  let ?m = "renderer_setMask ALPHA_MASK bytes mw mh r"
  define v where "v = VALIDATE_BLITTING (INVALIDATE_RENDERER_SURFACE ?m)"
  have m: "coherent ?m" "rdr_compositeRule ?m = COMPOSITE_SRC_OVER" "rdr_maskType ?m = ALPHA_MASK"
    "rdr_mask_byteData ?m = bytes" "rdr_surface ?m = rdr_surface r" "sf_data (rdr_surface ?m) = rdr_data r"
    using coherent_setMask(1) [OF assms(1), of ALPHA_MASK] assms(2) data
    by (simp_all add: renderer_setMask_def) (simp_all add: mark_def)
  have "paint_valid ?m"
    using assms(3) paint_valid_cong [of ?m r] by (simp add: renderer_setMask_def) (simp add: mark_def)
  note v = validated_rows [OF m(1,2) this v_def, unfolded m(6)]
  define s where "s = v\<lparr>rdr_minTouched := x0, rdr_maxTouched := x1, rdr_currX := x0, rdr_currY := y0,
    rdr_alphaWidth := x1 - x0 + 1, rdr_imageScanlineStride := sf_width (rdr_surface r),
    rdr_imagePixelStride := 1, rdr_rowNum := 0, rdr_maskOffset := off\<rparr>"
  let ?I = "\<lambda>k t. mask_state x0 x1 y0 mw bytes r k t \<and> rdr_maskOffset t = off + int k * mw"
  have "?I 0 s"
    using v(1-3) v(5) [OF m(3)] v(6) m(4-6) d by (simp add: mask_state_def s_def drawable_def)
  moreover have "\<exists>t'. mask_row F g (x1 - x0 + 1) mw x t = Some t' \<and> ?I (Suc k) t'"
    if tk: "k < nat (y1 - y0 + 1)" "?I k t" for k t
  proof -
    have "int k * mw \<le> (y1 - y0) * mw" using tk(1) off(2) by (intro mult_right_mono) auto
    then have "0 \<le> rdr_maskOffset t" "rdr_maskOffset t + (x1 - x0 + 1) \<le> int (length bytes)"
      using tk(2) off by (auto simp del: mult_le_cancel_right)
    moreover have "y0 + int k \<le> rdr_clip_bbMaxY r" using tk(1) y(2) by linarith
    ultimately obtain t' where "mask_row F g (x1 - x0 + 1) mw x t = Some t'"
      "mask_state x0 x1 y0 mw bytes r (Suc k) t'" "rdr_maskOffset t' = rdr_maskOffset t + mw"
      using mask_row_step [OF d conjunct1 [OF tk(2)] x y(1), of F g x] by blast
    moreover have "off + int k * mw + mw = off + int (Suc k) * mw" by (simp add: distrib_right)
    ultimately show ?thesis using tk(2) by auto
  qed
  ultimately have "\<exists>t. for_up 0 (nat (y1 - y0 + 1)) (\<lambda>_. mask_row F g (x1 - x0 + 1) mw x) s = Some t \<and>
      ?I (0 + nat (y1 - y0 + 1)) t"
    by (intro for_up_total) auto
  then obtain t where t: "for_up 0 (nat (y1 - y0 + 1)) (\<lambda>_. mask_row F g (x1 - x0 + 1) mw x) s = Some t"
    "mask_state x0 x1 y0 mw bytes r (0 + nat (y1 - y0 + 1)) t" by blast
  have "mask_fill F g x0 y0 x1 y1 ALPHA_MASK bytes x mw mh off r = Some (renderer_removeMask t)"
    unfolding mask_fill_def Let_def v_def [symmetric] v(2) m(5) s_def [symmetric] t(1) by simp
  moreover have "clip_kept r (renderer_removeMask t)"
    using t(2) by (simp add: clip_kept_def mask_state_def renderer_removeMask_def mark_def)
  ultimately show ?thesis by blast
qed



end
