(* ===== verification/Flv_Parser.thy ===== *)
theory Flv_Parser
  imports Prelude
begin

text \<open>
  The FLV block parser (gstreamer/plugins/vp6/flvparser.c): a state machine that reads the file
  header, the block to skip after it, tag prefixes and audio, video and script tag bodies. A buffer is
  a byte list whose length is \<open>buffer_size\<close>; a read outside it is \<open>None\<close>. Sizes and positions are
  naturals with the 64-bit wrap-around of \<open>gsize\<close> and \<open>guint64\<close> written out. The output structure is
  passed in and out, because the readers fill it before the last check.
\<close>

section \<open>Big-endian fields\<close>

definition byte_at :: "byte list \<Rightarrow> nat \<Rightarrow> nat option" where
  "byte_at data i = (if i < length data then Some (unat (data ! i)) else None)"

definition GST_READ_UINT16_BE :: "byte list \<Rightarrow> nat \<Rightarrow> nat option" where
  "GST_READ_UINT16_BE data i =
    do { a \<leftarrow> byte_at data i; b \<leftarrow> byte_at data (i + 1); Some (a * 256 + b) }"

definition GST_READ_UINT32_BE :: "byte list \<Rightarrow> nat \<Rightarrow> nat option" where
  "GST_READ_UINT32_BE data i =
    do { a \<leftarrow> GST_READ_UINT16_BE data i; b \<leftarrow> GST_READ_UINT16_BE data (i + 2); Some (a * 65536 + b) }"

definition FLV_READ_UINT24_BE :: "byte list \<Rightarrow> nat \<Rightarrow> nat option" where
  "FLV_READ_UINT24_BE data i =
    do { a \<leftarrow> GST_READ_UINT16_BE data i; b \<leftarrow> byte_at data (i + 2); Some (push_bit 8 a OR b) }"

text \<open>The fourth byte of a timestamp is its most significant one; the result is a \<open>gint\<close>.\<close>

definition FLV_READ_TS32 :: "byte list \<Rightarrow> nat \<Rightarrow> int option" where
  "FLV_READ_TS32 data i =
    do { a \<leftarrow> FLV_READ_UINT24_BE data i; b \<leftarrow> byte_at data (i + 3); Some (s32 (int (a OR push_bit 24 b))) }"

definition add64 :: "nat \<Rightarrow> nat \<Rightarrow> nat" where
  "add64 a b = (a + b) mod 2 ^ 64"

definition sub64 :: "nat \<Rightarrow> nat \<Rightarrow> nat" where
  "sub64 a b = nat ((int a - int b) mod 2 ^ 64)"

section \<open>State and results\<close>

datatype FlvParserResult = FLV_PARSER_OK | FLV_PARSER_BUFFER_UNDERRUN | FLV_PARSER_BAD_STREAM
  | FLV_PARSER_UNSUPPORTED_STREAM | FLV_PARSER_INVALID_STATE

datatype FlvParserState = FLV_PARSER_EXPECT_HEADER | FLV_PARSER_EXPECT_SKIP_BLOCK
  | FLV_PARSER_EXPECT_TAG_PREFIX | FLV_PARSER_EXPECT_VIDEO_TAG_BODY | FLV_PARSER_EXPECT_AUDIO_TAG_BODY
  | FLV_PARSER_EXPECT_SCRIPT_DATA_TAG_BODY | FLV_PARSER_EOF

record FlvParser =
  parser_state :: FlvParserState
  file_position :: nat
  parsed_block_size :: nat
  next_block_size :: nat

record FlvHeader =
  file_version :: nat
  has_audio_tags :: bool
  has_video_tags :: bool

record FlvTagPrefix =
  tag_type :: nat
  body_size :: nat
  tag_timestamp :: int

record FlvAudioTag =
  sound_format :: nat
  sampling_rate :: nat
  is_16bit :: bool
  is_stereo :: bool
  audio_packet_offset :: nat
  audio_packet_size :: nat

record FlvVideoTag =
  codec_id :: nat
  frame_type :: nat
  video_packet_offset :: nat
  video_packet_size :: nat

text \<open>A script reader walks the bytes of its buffer from \<open>position\<close> to \<open>end\<close>.\<close>

record FlvScriptDataReader =
  rd_position :: nat
  rd_end :: nat

definition FLV_HEADER_SIZE :: nat where "FLV_HEADER_SIZE = 9"
definition FLV_TAG_PREFIX_SIZE :: nat where "FLV_TAG_PREFIX_SIZE = 11"
definition FLV_TAG_SUFFIX_SIZE :: nat where "FLV_TAG_SUFFIX_SIZE = 4"
definition FLV_AUDIO_PREFIX_LENGTH :: nat where "FLV_AUDIO_PREFIX_LENGTH = 1"
definition FLV_VIDEO_PREFIX_LENGTH :: nat where "FLV_VIDEO_PREFIX_LENGTH = 1"
definition FLV_HEADER_FLAG_HAS_VIDEO_TAGS :: nat where "FLV_HEADER_FLAG_HAS_VIDEO_TAGS = 0x01"
definition FLV_HEADER_FLAG_HAS_AUDIO_TAGS :: nat where "FLV_HEADER_FLAG_HAS_AUDIO_TAGS = 0x04"
definition FLV_HEADER_FLAG_RESERVED :: nat where "FLV_HEADER_FLAG_RESERVED = 0xFA"
definition FLV_TAG_TYPE_AUDIO :: nat where "FLV_TAG_TYPE_AUDIO = 8"
definition FLV_TAG_TYPE_VIDEO :: nat where "FLV_TAG_TYPE_VIDEO = 9"
definition FLV_TAG_TYPE_SCRIPT_DATA :: nat where "FLV_TAG_TYPE_SCRIPT_DATA = 18"

definition flv_audio_format_data_size :: "nat list" where
  "flv_audio_format_data_size = [0, 0, 0, 0, 0, 0, 0, 0, 0, 0, 1, 0, 0, 0, 0, 0]"

definition flv_video_codec_data_size :: "nat list" where
  "flv_video_codec_data_size = [0, 0, 0, 0, 1, 1, 0, 6, 0, 0, 0, 0, 0, 0, 0, 0]"

lemmas flv_sizes = FLV_HEADER_SIZE_def FLV_TAG_PREFIX_SIZE_def FLV_TAG_SUFFIX_SIZE_def
  FLV_AUDIO_PREFIX_LENGTH_def FLV_VIDEO_PREFIX_LENGTH_def

lemmas flv_tag_types = FLV_TAG_TYPE_AUDIO_def FLV_TAG_TYPE_VIDEO_def FLV_TAG_TYPE_SCRIPT_DATA_def

section \<open>Operations\<close>

definition flv_parser_init :: FlvParser where
  "flv_parser_init = \<lparr>parser_state = FLV_PARSER_EXPECT_HEADER, file_position = 0, parsed_block_size = 0,
     next_block_size = FLV_HEADER_SIZE\<rparr>"

definition flv_parser_reset :: "FlvParser \<Rightarrow> FlvParser" where
  "flv_parser_reset p = p\<lparr>parser_state := FLV_PARSER_EXPECT_HEADER, parsed_block_size := 0, file_position := 0,
     next_block_size := FLV_HEADER_SIZE\<rparr>"

definition flv_parser_read_header ::
    "byte list \<Rightarrow> FlvParser \<Rightarrow> FlvHeader \<Rightarrow> (FlvParserResult \<times> FlvParser \<times> FlvHeader) option" where
  "flv_parser_read_header data p header =
    (if parser_state p \<noteq> FLV_PARSER_EXPECT_HEADER then Some (FLV_PARSER_INVALID_STATE, p, header)
     else if length data < FLV_HEADER_SIZE then Some (FLV_PARSER_BUFFER_UNDERRUN, p, header)
     else do {
       b0 \<leftarrow> byte_at data 0; b1 \<leftarrow> byte_at data 1; b2 \<leftarrow> byte_at data 2;
       if b0 \<noteq> 70 \<or> b1 \<noteq> 76 \<or> b2 \<noteq> 86 then Some (FLV_PARSER_BAD_STREAM, p, header)
       else do {
         v \<leftarrow> byte_at data 3;
         let header = header\<lparr>file_version := v\<rparr>;
         if v \<noteq> 1 then Some (FLV_PARSER_UNSUPPORTED_STREAM, p, header)
         else do {
           f \<leftarrow> byte_at data 4;
           if f AND FLV_HEADER_FLAG_RESERVED \<noteq> 0 then Some (FLV_PARSER_BAD_STREAM, p, header)
           else do {
             let header = header\<lparr>has_audio_tags := f AND FLV_HEADER_FLAG_HAS_AUDIO_TAGS \<noteq> 0,
                                 has_video_tags := f AND FLV_HEADER_FLAG_HAS_VIDEO_TAGS \<noteq> 0\<rparr>;
             data_offset \<leftarrow> GST_READ_UINT32_BE data 5;
             if data_offset < FLV_HEADER_SIZE then Some (FLV_PARSER_BAD_STREAM, p, header)
             else Some (FLV_PARSER_OK,
               p\<lparr>parsed_block_size := FLV_HEADER_SIZE,
                 file_position := add64 (file_position p) FLV_HEADER_SIZE,
                 next_block_size := (if data_offset = FLV_HEADER_SIZE then FLV_TAG_SUFFIX_SIZE
                                     else data_offset - FLV_HEADER_SIZE + FLV_TAG_SUFFIX_SIZE),
                 parser_state := FLV_PARSER_EXPECT_SKIP_BLOCK\<rparr>, header) } } } })"

text \<open>The update shared by the readers of a whole block.\<close>

definition block_done :: "FlvParser \<Rightarrow> FlvParser" where
  "block_done p = p\<lparr>parsed_block_size := next_block_size p,
     file_position := add64 (file_position p) (next_block_size p),
     next_block_size := FLV_TAG_PREFIX_SIZE, parser_state := FLV_PARSER_EXPECT_TAG_PREFIX\<rparr>"

definition flv_parser_skip :: "byte list \<Rightarrow> FlvParser \<Rightarrow> FlvParserResult \<times> FlvParser" where
  "flv_parser_skip data p =
    (if parser_state p \<noteq> FLV_PARSER_EXPECT_SKIP_BLOCK then (FLV_PARSER_INVALID_STATE, p)
     else if length data < next_block_size p then (FLV_PARSER_BUFFER_UNDERRUN, p)
     else (FLV_PARSER_OK, block_done p))"

definition tag_body_state :: "nat \<Rightarrow> FlvParserState option" where
  "tag_body_state t =
    (if t = FLV_TAG_TYPE_AUDIO then Some FLV_PARSER_EXPECT_AUDIO_TAG_BODY
     else if t = FLV_TAG_TYPE_VIDEO then Some FLV_PARSER_EXPECT_VIDEO_TAG_BODY
     else if t = FLV_TAG_TYPE_SCRIPT_DATA then Some FLV_PARSER_EXPECT_SCRIPT_DATA_TAG_BODY
     else None)"

definition flv_parser_read_tag_prefix ::
    "byte list \<Rightarrow> FlvParser \<Rightarrow> FlvTagPrefix \<Rightarrow> (FlvParserResult \<times> FlvParser \<times> FlvTagPrefix) option" where
  "flv_parser_read_tag_prefix data p tag =
    (if parser_state p \<noteq> FLV_PARSER_EXPECT_TAG_PREFIX then Some (FLV_PARSER_INVALID_STATE, p, tag)
     else if length data < FLV_TAG_PREFIX_SIZE then Some (FLV_PARSER_BUFFER_UNDERRUN, p, tag)
     else do {
       t \<leftarrow> byte_at data 0; n \<leftarrow> FLV_READ_UINT24_BE data 1; ts \<leftarrow> FLV_READ_TS32 data 4;
       let tag = tag\<lparr>tag_type := t, body_size := n, tag_timestamp := ts\<rparr>;
       stream_id \<leftarrow> FLV_READ_UINT24_BE data 8;
       if stream_id \<noteq> 0 then Some (FLV_PARSER_UNSUPPORTED_STREAM, p, tag)
       else let p = p\<lparr>parsed_block_size := FLV_TAG_PREFIX_SIZE,
                      file_position := add64 (file_position p) FLV_TAG_PREFIX_SIZE,
                      next_block_size := n + FLV_TAG_SUFFIX_SIZE\<rparr>
            in case tag_body_state t of
                 Some s \<Rightarrow> Some (FLV_PARSER_OK, p\<lparr>parser_state := s\<rparr>, tag)
               | None \<Rightarrow> Some (FLV_PARSER_UNSUPPORTED_STREAM, p, tag) })"

text \<open>The checks on the packet of an audio or video tag, at \<open>offset\<close> with \<open>len\<close> bytes.\<close>

definition packet_fits :: "nat \<Rightarrow> nat \<Rightarrow> nat \<Rightarrow> bool" where
  "packet_fits buffer_size offset len \<longleftrightarrow>
     \<not> offset > buffer_size \<and> len \<noteq> 0 \<and> \<not> sub64 buffer_size offset < len"

definition flv_parser_read_audio_tag ::
    "byte list \<Rightarrow> FlvParser \<Rightarrow> FlvAudioTag \<Rightarrow> (FlvParserResult \<times> FlvParser \<times> FlvAudioTag) option" where
  "flv_parser_read_audio_tag data p tag =
    (if parser_state p \<noteq> FLV_PARSER_EXPECT_AUDIO_TAG_BODY then Some (FLV_PARSER_INVALID_STATE, p, tag)
     else if length data < next_block_size p then Some (FLV_PARSER_BUFFER_UNDERRUN, p, tag)
     else do {
       b \<leftarrow> byte_at data 0;
       let format = drop_bit 4 (b AND 0xF0);
       extra \<leftarrow> rd flv_audio_format_data_size (int format);
       let offset = FLV_AUDIO_PREFIX_LENGTH + extra;
       let len = sub64 (sub64 (next_block_size p) FLV_TAG_SUFFIX_SIZE) offset;
       let tag = tag\<lparr>sound_format := format, sampling_rate := drop_bit 2 (b AND 0x0C),
                     is_16bit := b AND 0x02 \<noteq> 0, is_stereo := b AND 0x01 \<noteq> 0,
                     audio_packet_offset := offset, audio_packet_size := len\<rparr>;
       if packet_fits (length data) offset len then Some (FLV_PARSER_OK, block_done p, tag)
       else Some (FLV_PARSER_BUFFER_UNDERRUN, p, tag) })"

definition flv_parser_read_video_tag ::
    "byte list \<Rightarrow> FlvParser \<Rightarrow> FlvVideoTag \<Rightarrow> (FlvParserResult \<times> FlvParser \<times> FlvVideoTag) option" where
  "flv_parser_read_video_tag data p tag =
    (if parser_state p \<noteq> FLV_PARSER_EXPECT_VIDEO_TAG_BODY then Some (FLV_PARSER_INVALID_STATE, p, tag)
     else if length data < next_block_size p then Some (FLV_PARSER_BUFFER_UNDERRUN, p, tag)
     else do {
       b \<leftarrow> byte_at data 0;
       let codec = b AND 0x0F;
       extra \<leftarrow> rd flv_video_codec_data_size (int codec);
       let offset = FLV_VIDEO_PREFIX_LENGTH + extra;
       let len = sub64 (sub64 (next_block_size p) FLV_TAG_SUFFIX_SIZE) offset;
       let tag = tag\<lparr>frame_type := drop_bit 4 (b AND 0xF0), codec_id := codec,
                     video_packet_offset := offset, video_packet_size := len\<rparr>;
       if packet_fits (length data) offset len then Some (FLV_PARSER_OK, block_done p, tag)
       else Some (FLV_PARSER_BUFFER_UNDERRUN, p, tag) })"

definition flv_parser_read_script_data_tag ::
    "byte list \<Rightarrow> FlvParser \<Rightarrow> FlvScriptDataReader \<Rightarrow> FlvParserResult \<times> FlvParser \<times> FlvScriptDataReader" where
  "flv_parser_read_script_data_tag data p reader =
    (if parser_state p \<noteq> FLV_PARSER_EXPECT_SCRIPT_DATA_TAG_BODY then (FLV_PARSER_INVALID_STATE, p, reader)
     else if length data < next_block_size p then (FLV_PARSER_BUFFER_UNDERRUN, p, reader)
     else (FLV_PARSER_OK, block_done p,
           reader\<lparr>rd_position := 0, rd_end := next_block_size p - FLV_TAG_SUFFIX_SIZE\<rparr>))"

definition flv_parser_seek :: "nat \<Rightarrow> FlvParser \<Rightarrow> FlvParser" where
  "flv_parser_seek pos p = p\<lparr>parser_state := FLV_PARSER_EXPECT_TAG_PREFIX, file_position := pos,
     parsed_block_size := 0, next_block_size := FLV_TAG_PREFIX_SIZE\<rparr>"

section \<open>Facts on bytes and sizes\<close>

lemma byte_at_in [simp]: "i < length data \<Longrightarrow> byte_at data i = Some (unat (data ! i))"
  by (simp add: byte_at_def)

lemma byte_range: "unat (b :: byte) < 256"
  using unsigned_less [of b, where ?'a = nat] by simp

lemma be16_in [simp]:
  "i + 1 < length data \<Longrightarrow> GST_READ_UINT16_BE data i = Some (unat (data ! i) * 256 + unat (data ! (i + 1)))"
  by (simp add: GST_READ_UINT16_BE_def)

lemma or_shifted:
  assumes "b < 2 ^ n" shows "push_bit n a OR b = a * 2 ^ n + (b :: nat)"
proof -
  have "int (push_bit n a OR b) = shl (int a) n OR int b" by (simp add: shl_def of_nat_or_eq of_nat_push_bit)
  also have "\<dots> = int (a * 2 ^ n + b)" using assms by (subst shl_or_low) (simp_all flip: of_nat_less_iff)
  finally show ?thesis by (simp only: of_nat_eq_iff)
qed

lemma be24_in [simp]:
  "i + 2 < length data \<Longrightarrow> FLV_READ_UINT24_BE data i =
     Some (unat (data ! i) * 65536 + unat (data ! (i + 1)) * 256 + unat (data ! (i + 2)))"
  using byte_range [of "data ! (i + 2)"] by (simp add: FLV_READ_UINT24_BE_def or_shifted)

lemma be24_range:
  "unat (a :: byte) * 65536 + unat (b :: byte) * 256 + unat (c :: byte) < 16777216"
  using byte_range [of a] byte_range [of b] byte_range [of c] by simp

lemma ts32_in [simp]:
  "i + 3 < length data \<Longrightarrow> FLV_READ_TS32 data i = Some (s32 (int (unat (data ! (i + 3)) * 16777216 +
     (unat (data ! i) * 65536 + unat (data ! (i + 1)) * 256 + unat (data ! (i + 2))))))"
  using be24_range [of "data ! i" "data ! (i + 1)" "data ! (i + 2)"]
  by (simp add: FLV_READ_TS32_def or.commute or_shifted)

lemma be32_in [simp]:
  "i + 3 < length data \<Longrightarrow> GST_READ_UINT32_BE data i =
     Some ((unat (data ! i) * 256 + unat (data ! (i + 1))) * 65536 +
       (unat (data ! (i + 2)) * 256 + unat (data ! (i + 3))))"
  by (simp add: GST_READ_UINT32_BE_def numeral_3_eq_3)

lemma be32_range:
  "(unat (a :: byte) * 256 + unat (b :: byte)) * 65536 + (unat (c :: byte) * 256 + unat (d :: byte)) < 4294967296"
  using byte_range [of a] byte_range [of b] byte_range [of c] byte_range [of d] by simp

lemma nibble_range: "drop_bit 4 (unat (b :: byte) AND 0xF0) < 16" "unat (b :: byte) AND 0x0F < 16"
proof -
  have "uint b AND 0xF0 \<le> 0xF0" "uint b AND 0x0F \<le> 0x0F" by (rule AND_upper2; simp)+
  then have "unat b AND 0xF0 \<le> 0xF0" "unat b AND 0x0F \<le> 0x0F" by (simp_all add: and_nat_def nat_le_iff)
  then show "drop_bit 4 (unat b AND 0xF0) < 16" "unat b AND 0x0F < 16" by (simp_all add: drop_bit_eq_div)
qed

lemma tables_in:
  "n < 16 \<Longrightarrow> rd flv_audio_format_data_size (int n) = Some (if n = 10 then 1 else 0)"
  "n < 16 \<Longrightarrow> rd flv_video_codec_data_size (int n) = Some (if n = 4 \<or> n = 5 then 1 else if n = 7 then 6 else 0)"
  by (auto simp: rd_def flv_audio_format_data_size_def flv_video_codec_data_size_def less_Suc_eq numeral_eq_Suc)

lemma sub64_le: "b \<le> a \<Longrightarrow> a < 2 ^ 64 \<Longrightarrow> sub64 a b = a - b"
  by (simp add: sub64_def)

lemma sub64_wrap:
  assumes "a < b" "b \<le> 2 ^ 64" shows "sub64 a b = 2 ^ 64 + a - b"
proof -
  have "(int a - int b) mod 2 ^ 64 = (int a - int b + 2 ^ 64) mod 2 ^ 64" by simp
  also have "\<dots> = int a - int b + 2 ^ 64" using assms by (intro mod_pos_pos_trivial) auto
  finally show ?thesis using assms by (simp add: sub64_def nat_eq_iff)
qed

text \<open>
  The three checks on a packet accept exactly the packets with at least one byte inside the body,
  although the size is computed with wrap-around.
\<close>

lemma packet_fits_iff:
  assumes "4 \<le> n" "n \<le> buf" "buf < 2 ^ 63" "off \<le> 7"
  shows "packet_fits buf off (sub64 (sub64 n FLV_TAG_SUFFIX_SIZE) off) \<longleftrightarrow> off < n - 4"
proof -
  have "sub64 n FLV_TAG_SUFFIX_SIZE = n - 4" using assms by (simp add: sub64_le flv_sizes)
  then show ?thesis
    using assms sub64_le [of off "n - 4"] sub64_wrap [of "n - 4" off] sub64_le [of off buf]
    by (cases "off \<le> n - 4"; cases "off \<le> buf") (auto simp: packet_fits_def)
qed

section \<open>The invariant of the parser\<close>

text \<open>
  \<open>parser_ok\<close> holds in every state the operations can produce. \<open>parser_sync\<close> also says that the
  announced block size is the one the state reads; it fails only after an unsupported tag type.
\<close>

definition parser_ok :: "FlvParser \<Rightarrow> bool" where
  "parser_ok p \<longleftrightarrow> (case parser_state p of
     FLV_PARSER_EXPECT_HEADER \<Rightarrow> next_block_size p = FLV_HEADER_SIZE
   | FLV_PARSER_EXPECT_SKIP_BLOCK \<Rightarrow> 4 \<le> next_block_size p \<and> next_block_size p < 2 ^ 32
   | FLV_PARSER_EOF \<Rightarrow> False
   | _ \<Rightarrow> 4 \<le> next_block_size p \<and> next_block_size p < 2 ^ 24 + 4)"

definition parser_sync :: "FlvParser \<Rightarrow> bool" where
  "parser_sync p \<longleftrightarrow> parser_ok p \<and>
     (parser_state p = FLV_PARSER_EXPECT_TAG_PREFIX \<longrightarrow> next_block_size p = FLV_TAG_PREFIX_SIZE)"

lemma parser_ok_block_done: "parser_sync (block_done p)"
  by (simp add: block_done_def parser_sync_def parser_ok_def flv_sizes)

lemma parser_ok_start: "parser_sync flv_parser_init" "parser_sync (flv_parser_reset p)" "parser_sync (flv_parser_seek pos p)"
  by (simp_all add: parser_sync_def parser_ok_def flv_parser_init_def flv_parser_reset_def flv_parser_seek_def flv_sizes)

section \<open>What every block reader promises\<close>

text \<open>
  The demuxer hands each reader the block announced by the parser. A reader returns on every
  buffer, keeps the invariant, refuses to run in another state, and, when it accepts, has consumed
  exactly the announced block.
\<close>

locale block_reader =
  fixes read :: "byte list \<Rightarrow> FlvParser \<Rightarrow> 'out \<Rightarrow> (FlvParserResult \<times> FlvParser \<times> 'out) option"
    and expected :: FlvParserState
  assumes total: "parser_ok p \<Longrightarrow> length data < 2 ^ 63 \<Longrightarrow>
      \<exists>r p' t. read data p out = Some (r, p', t) \<and> parser_ok p'"
    and wrong_state: "parser_state p \<noteq> expected \<Longrightarrow> read data p out = Some (FLV_PARSER_INVALID_STATE, p, out)"
    and too_short: "parser_sync p \<Longrightarrow> parser_state p = expected \<Longrightarrow> length data < next_block_size p \<Longrightarrow>
      read data p out = Some (FLV_PARSER_BUFFER_UNDERRUN, p, out)"
    and accepted: "parser_sync p \<Longrightarrow> length data < 2 ^ 63 \<Longrightarrow> read data p out = Some (FLV_PARSER_OK, p', t) \<Longrightarrow>
      parser_sync p' \<and> parsed_block_size p' = next_block_size p \<and>
      file_position p' = add64 (file_position p) (next_block_size p)"
begin

lemma accepted_block:
  assumes "parser_sync p" "length data < 2 ^ 63" "read data p out = Some (FLV_PARSER_OK, p', t)"
  shows "parser_state p = expected" "next_block_size p \<le> length data"
proof -
  show e: "parser_state p = expected"
    using wrong_state [of p data out] assms(3) by fastforce
  show "next_block_size p \<le> length data"
    using too_short [OF assms(1) e, of data out] assms(3) by (cases "length data < next_block_size p") auto
qed

lemma reads_block:
  assumes "parser_sync p" "length data < 2 ^ 63"
  obtains r p' t where "read data p out = Some (r, p', t)" "parser_ok p'"
    "r = FLV_PARSER_OK \<Longrightarrow> parser_state p = expected \<and> next_block_size p \<le> length data \<and> parser_sync p' \<and>
      file_position p' = add64 (file_position p) (next_block_size p)"
proof -
  obtain r p' t where "read data p out = Some (r, p', t)" "parser_ok p'"
    using total [of p data out] assms by (auto simp: parser_sync_def)
  then show ?thesis using that accepted_block [OF assms] accepted [OF assms] by blast
qed

end

lemma parser_ok_facts:
  "parser_ok p \<Longrightarrow> parser_state p = FLV_PARSER_EXPECT_AUDIO_TAG_BODY \<Longrightarrow> 4 \<le> next_block_size p \<and> next_block_size p < 2 ^ 24 + 4"
  "parser_ok p \<Longrightarrow> parser_state p = FLV_PARSER_EXPECT_VIDEO_TAG_BODY \<Longrightarrow> 4 \<le> next_block_size p \<and> next_block_size p < 2 ^ 24 + 4"
  "parser_sync p \<Longrightarrow> parser_ok p"
  by (simp_all add: parser_ok_def parser_sync_def)

lemmas parser_state_defs = parser_ok_def parser_sync_def block_done_def flv_sizes

interpretation header: block_reader flv_parser_read_header FLV_PARSER_EXPECT_HEADER
proof
  fix p p' :: FlvParser and data :: "byte list" and out t
  let ?off = "(unat (data ! 5) * 256 + unat (data ! 6)) * 65536 + (unat (data ! 7) * 256 + unat (data ! 8))"
  have "?off < 4294967296" by (rule be32_range)
  moreover have "\<not> length data < FLV_HEADER_SIZE \<Longrightarrow> data \<noteq> []" by (auto simp: flv_sizes)
  ultimately show "parser_ok p \<Longrightarrow> length data < 2 ^ 63 \<Longrightarrow>
      \<exists>r p' t. flv_parser_read_header data p out = Some (r, p', t) \<and> parser_ok p'"
    by (auto simp: flv_parser_read_header_def parser_state_defs Let_def)
  show "flv_parser_read_header data p out = Some (FLV_PARSER_INVALID_STATE, p, out)"
    if "parser_state p \<noteq> FLV_PARSER_EXPECT_HEADER"
    using that by (simp add: flv_parser_read_header_def)
  show "flv_parser_read_header data p out = Some (FLV_PARSER_BUFFER_UNDERRUN, p, out)"
    if "parser_sync p" "parser_state p = FLV_PARSER_EXPECT_HEADER" "length data < next_block_size p"
    using that by (simp add: flv_parser_read_header_def parser_state_defs)
  show "parser_sync p' \<and> parsed_block_size p' = next_block_size p \<and>
      file_position p' = add64 (file_position p) (next_block_size p)"
    if "parser_sync p" "flv_parser_read_header data p out = Some (FLV_PARSER_OK, p', t)"
    using that \<open>?off < 4294967296\<close> \<open>\<not> length data < FLV_HEADER_SIZE \<Longrightarrow> data \<noteq> []\<close>
    by (auto simp: flv_parser_read_header_def parser_state_defs Let_def split: if_splits)
qed

interpretation prefix: block_reader flv_parser_read_tag_prefix FLV_PARSER_EXPECT_TAG_PREFIX
proof
  fix p p' :: FlvParser and data :: "byte list" and out t
  have n: "unat (data ! Suc 0) * 65536 + unat (data ! Suc (Suc 0)) * 256 + unat (data ! Suc (Suc (Suc 0))) < 16777216" by (rule be24_range)
  have ne: "\<not> length data < FLV_TAG_PREFIX_SIZE \<Longrightarrow> data \<noteq> []" by (auto simp: flv_sizes)
  show "parser_ok p \<Longrightarrow> length data < 2 ^ 63 \<Longrightarrow>
      \<exists>r p' t. flv_parser_read_tag_prefix data p out = Some (r, p', t) \<and> parser_ok p'"
    using n ne by (auto simp: flv_parser_read_tag_prefix_def parser_state_defs Let_def tag_body_state_def)
  show "flv_parser_read_tag_prefix data p out = Some (FLV_PARSER_INVALID_STATE, p, out)"
    if "parser_state p \<noteq> FLV_PARSER_EXPECT_TAG_PREFIX"
    using that by (simp add: flv_parser_read_tag_prefix_def)
  show "flv_parser_read_tag_prefix data p out = Some (FLV_PARSER_BUFFER_UNDERRUN, p, out)"
    if "parser_sync p" "parser_state p = FLV_PARSER_EXPECT_TAG_PREFIX" "length data < next_block_size p"
    using that by (simp add: flv_parser_read_tag_prefix_def parser_state_defs)
  show "parser_sync p' \<and> parsed_block_size p' = next_block_size p \<and>
      file_position p' = add64 (file_position p) (next_block_size p)"
    if "parser_sync p" "flv_parser_read_tag_prefix data p out = Some (FLV_PARSER_OK, p', t)"
    using that n ne
    by (auto simp: flv_parser_read_tag_prefix_def parser_state_defs Let_def tag_body_state_def split: if_splits)
qed

text \<open>Audio and video tags have one shape: the prefix byte, codec data and a packet.\<close>

lemma packet_bounds:
  assumes "4 \<le> n" "n \<le> buf" "buf < 2 ^ 63" "extra \<le> 6"
  shows "packet_fits buf (1 + extra) (sub64 (sub64 n 4) (1 + extra)) \<longleftrightarrow> 1 + extra < n - 4"
    "1 + extra < n - 4 \<Longrightarrow> sub64 (sub64 n 4) (1 + extra) = n - 4 - (1 + extra)"
  using packet_fits_iff [OF assms(1-3), of "1 + extra"] assms by (simp_all add: flv_sizes sub64_le)

lemma read_audio_tag_eq:
  assumes "parser_ok p" "parser_state p = FLV_PARSER_EXPECT_AUDIO_TAG_BODY"
    and "next_block_size p \<le> length data" "length data < 2 ^ 63"
  shows "\<exists>t. flv_parser_read_audio_tag data p out =
      Some (if audio_packet_offset t < next_block_size p - 4 then (FLV_PARSER_OK, block_done p, t)
            else (FLV_PARSER_BUFFER_UNDERRUN, p, t)) \<and>
    1 \<le> audio_packet_offset t \<and>
    (audio_packet_offset t < next_block_size p - 4 \<longrightarrow>
       audio_packet_size t = next_block_size p - 4 - audio_packet_offset t)"
proof -
  let ?n = "next_block_size p" and ?k = "drop_bit 4 (unat (data ! 0) AND 0xF0)"
  have n: "4 \<le> ?n" using parser_ok_facts(1) [OF assms(1,2)] by simp
  obtain extra where x: "rd flv_audio_format_data_size (int ?k) = Some extra" "extra \<le> 6"
    using tables_in(1) [OF nibble_range(1)] by simp
  note p = packet_bounds [OF n assms(3,4) x(2)]
  let ?off = "FLV_AUDIO_PREFIX_LENGTH + extra"
  let ?t = "out\<lparr>sound_format := ?k, sampling_rate := drop_bit 2 (unat (data ! 0) AND 0x0C),
    is_16bit := unat (data ! 0) AND 0x02 \<noteq> 0, is_stereo := unat (data ! 0) AND 0x01 \<noteq> 0, audio_packet_offset := ?off,
    audio_packet_size := sub64 (sub64 ?n FLV_TAG_SUFFIX_SIZE) ?off\<rparr>"
  have "data \<noteq> []" using n assms(3) by auto
  then have "flv_parser_read_audio_tag data p out =
      Some (if audio_packet_offset ?t < ?n - 4 then (FLV_PARSER_OK, block_done p, ?t)
            else (FLV_PARSER_BUFFER_UNDERRUN, p, ?t))"
    using assms(2,3) x(1) p(1) by (simp add: flv_parser_read_audio_tag_def Let_def flv_sizes)
  then show ?thesis using p(2) by (intro exI [of _ ?t]) (simp add: flv_sizes)
qed

lemma read_video_tag_eq:
  assumes "parser_ok p" "parser_state p = FLV_PARSER_EXPECT_VIDEO_TAG_BODY"
    and "next_block_size p \<le> length data" "length data < 2 ^ 63"
  shows "\<exists>t. flv_parser_read_video_tag data p out =
      Some (if video_packet_offset t < next_block_size p - 4 then (FLV_PARSER_OK, block_done p, t)
            else (FLV_PARSER_BUFFER_UNDERRUN, p, t)) \<and>
    1 \<le> video_packet_offset t \<and>
    (video_packet_offset t < next_block_size p - 4 \<longrightarrow>
       video_packet_size t = next_block_size p - 4 - video_packet_offset t)"
proof -
  let ?n = "next_block_size p" and ?k = "unat (data ! 0) AND 0x0F"
  have n: "4 \<le> ?n" using parser_ok_facts(2) [OF assms(1,2)] by simp
  obtain extra where x: "rd flv_video_codec_data_size (int ?k) = Some extra" "extra \<le> 6"
    using tables_in(2) [OF nibble_range(2)] by simp
  note p = packet_bounds [OF n assms(3,4) x(2)]
  let ?off = "FLV_VIDEO_PREFIX_LENGTH + extra"
  let ?t = "out\<lparr>frame_type := drop_bit 4 (unat (data ! 0) AND 0xF0), codec_id := ?k, video_packet_offset := ?off,
    video_packet_size := sub64 (sub64 ?n FLV_TAG_SUFFIX_SIZE) ?off\<rparr>"
  have "data \<noteq> []" using n assms(3) by auto
  then have "flv_parser_read_video_tag data p out =
      Some (if video_packet_offset ?t < ?n - 4 then (FLV_PARSER_OK, block_done p, ?t)
            else (FLV_PARSER_BUFFER_UNDERRUN, p, ?t))"
    using assms(2,3) x(1) p(1) by (simp add: flv_parser_read_video_tag_def Let_def flv_sizes)
  then show ?thesis using p(2) by (intro exI [of _ ?t]) (simp add: flv_sizes)
qed

interpretation audio: block_reader flv_parser_read_audio_tag FLV_PARSER_EXPECT_AUDIO_TAG_BODY
proof
  fix p p' :: FlvParser and data :: "byte list" and out t
  show w: "flv_parser_read_audio_tag data p out = Some (FLV_PARSER_INVALID_STATE, p, out)"
    if "parser_state p \<noteq> FLV_PARSER_EXPECT_AUDIO_TAG_BODY"
    using that by (simp add: flv_parser_read_audio_tag_def)
  show s: "flv_parser_read_audio_tag data p out = Some (FLV_PARSER_BUFFER_UNDERRUN, p, out)"
    if "parser_state p = FLV_PARSER_EXPECT_AUDIO_TAG_BODY" "length data < next_block_size p"
    using that by (simp add: flv_parser_read_audio_tag_def)
  note cases = w s read_audio_tag_eq [of p data out] parser_ok_block_done [of p]
  show "\<exists>r p' t. flv_parser_read_audio_tag data p out = Some (r, p', t) \<and> parser_ok p'"
    if "parser_ok p" "length data < 2 ^ 63"
    using that cases parser_ok_facts(3) by (cases "parser_state p = FLV_PARSER_EXPECT_AUDIO_TAG_BODY";
        cases "length data < next_block_size p") (auto split: if_splits)
  show "parser_sync p' \<and> parsed_block_size p' = next_block_size p \<and>
      file_position p' = add64 (file_position p) (next_block_size p)"
    if "parser_sync p" "length data < 2 ^ 63" "flv_parser_read_audio_tag data p out = Some (FLV_PARSER_OK, p', t)"
    using that cases parser_ok_facts(3) by (cases "parser_state p = FLV_PARSER_EXPECT_AUDIO_TAG_BODY";
        cases "length data < next_block_size p") (auto simp: block_done_def split: if_splits)
qed

interpretation video: block_reader flv_parser_read_video_tag FLV_PARSER_EXPECT_VIDEO_TAG_BODY
proof
  fix p p' :: FlvParser and data :: "byte list" and out t
  show w: "flv_parser_read_video_tag data p out = Some (FLV_PARSER_INVALID_STATE, p, out)"
    if "parser_state p \<noteq> FLV_PARSER_EXPECT_VIDEO_TAG_BODY"
    using that by (simp add: flv_parser_read_video_tag_def)
  show s: "flv_parser_read_video_tag data p out = Some (FLV_PARSER_BUFFER_UNDERRUN, p, out)"
    if "parser_state p = FLV_PARSER_EXPECT_VIDEO_TAG_BODY" "length data < next_block_size p"
    using that by (simp add: flv_parser_read_video_tag_def)
  note cases = w s read_video_tag_eq [of p data out] parser_ok_block_done [of p]
  show "\<exists>r p' t. flv_parser_read_video_tag data p out = Some (r, p', t) \<and> parser_ok p'"
    if "parser_ok p" "length data < 2 ^ 63"
    using that cases parser_ok_facts(3) by (cases "parser_state p = FLV_PARSER_EXPECT_VIDEO_TAG_BODY";
        cases "length data < next_block_size p") (auto split: if_splits)
  show "parser_sync p' \<and> parsed_block_size p' = next_block_size p \<and>
      file_position p' = add64 (file_position p) (next_block_size p)"
    if "parser_sync p" "length data < 2 ^ 63" "flv_parser_read_video_tag data p out = Some (FLV_PARSER_OK, p', t)"
    using that cases parser_ok_facts(3) by (cases "parser_state p = FLV_PARSER_EXPECT_VIDEO_TAG_BODY";
        cases "length data < next_block_size p") (auto simp: block_done_def split: if_splits)
qed

interpretation skip: block_reader "\<lambda>data p (out :: unit). Some (fst (flv_parser_skip data p), snd (flv_parser_skip data p), out)"
    FLV_PARSER_EXPECT_SKIP_BLOCK
  by unfold_locales (auto simp: flv_parser_skip_def parser_ok_block_done parser_ok_facts(3), simp_all add: block_done_def)

interpretation script: block_reader "\<lambda>data p out. Some (flv_parser_read_script_data_tag data p out)"
    FLV_PARSER_EXPECT_SCRIPT_DATA_TAG_BODY
  by unfold_locales (auto simp: flv_parser_read_script_data_tag_def parser_ok_block_done parser_ok_facts(3)
      split: if_splits, simp_all add: block_done_def)

section \<open>Reachable parser states\<close>

inductive parser_step :: "FlvParser \<Rightarrow> FlvParser \<Rightarrow> bool" where
  step_reset: "parser_step p (flv_parser_reset p)"
| step_seek: "parser_step p (flv_parser_seek pos p)"
| step_header: "flv_parser_read_header data p h = Some (r, p', h') \<Longrightarrow> length data < 2 ^ 63 \<Longrightarrow> parser_step p p'"
| step_skip: "flv_parser_skip data p = (r, p') \<Longrightarrow> length data < 2 ^ 63 \<Longrightarrow> parser_step p p'"
| step_prefix: "flv_parser_read_tag_prefix data p t = Some (r, p', t') \<Longrightarrow> length data < 2 ^ 63 \<Longrightarrow> parser_step p p'"
| step_audio: "flv_parser_read_audio_tag data p a = Some (r, p', a') \<Longrightarrow> length data < 2 ^ 63 \<Longrightarrow> parser_step p p'"
| step_video: "flv_parser_read_video_tag data p v = Some (r, p', v') \<Longrightarrow> length data < 2 ^ 63 \<Longrightarrow> parser_step p p'"
| step_script: "flv_parser_read_script_data_tag data p s = (r, p', s') \<Longrightarrow> length data < 2 ^ 63 \<Longrightarrow> parser_step p p'"

inductive parser_reach :: "FlvParser \<Rightarrow> bool" where
  reach_init: "parser_reach flv_parser_init"
| reach_step: "parser_reach p \<Longrightarrow> parser_step p p' \<Longrightarrow> parser_reach p'"

lemma parser_ok_step: "parser_step p p' \<Longrightarrow> parser_ok p \<Longrightarrow> parser_ok p'"
proof (induction rule: parser_step.induct)
  case (step_skip data p r p')
  then show ?case using skip.total [of p data "()"] by auto
next
  case (step_header data p h r p' h')
  then show ?case using header.total [of p data h] by auto
next
  case (step_prefix data p t r p' t')
  then show ?case using prefix.total [of p data t] by auto
next
  case (step_audio data p a r p' a')
  then show ?case using audio.total [of p data a] by auto
next
  case (step_video data p v r p' v')
  then show ?case using video.total [of p data v] by auto
next
  case (step_script data p s r p' s')
  then show ?case using script.total [of p data s] by auto
qed (use parser_ok_start parser_ok_facts(3) in blast)+

lemma parser_reach_ok: "parser_reach p \<Longrightarrow> parser_ok p"
  by (induction rule: parser_reach.induct) (use parser_ok_step parser_ok_start parser_ok_facts(3) in blast)+

text \<open>
  C21: the parser is memory safe. In every state the parser operations can reach, whatever bytes
  they were given, each reader returns on any buffer without touching a byte outside it.
\<close>

theorem flv_parser_reads_inside:
  assumes "parser_reach p" "length data < 2 ^ 63"
  shows "(\<exists>r p' h'. flv_parser_read_header data p h = Some (r, p', h') \<and> parser_reach p') \<and>
    (\<exists>r p' t'. flv_parser_read_tag_prefix data p t = Some (r, p', t') \<and> parser_reach p') \<and>
    (\<exists>r p' a'. flv_parser_read_audio_tag data p a = Some (r, p', a') \<and> parser_reach p') \<and>
    (\<exists>r p' v'. flv_parser_read_video_tag data p v = Some (r, p', v') \<and> parser_reach p')"
proof (intro conjI)
  note ok = parser_reach_ok [OF assms(1)] and step = reach_step [OF assms(1)]
  show "\<exists>r p' h'. flv_parser_read_header data p h = Some (r, p', h') \<and> parser_reach p'"
    using header.total [OF ok assms(2), of h] step step_header assms(2) by metis
  show "\<exists>r p' t'. flv_parser_read_tag_prefix data p t = Some (r, p', t') \<and> parser_reach p'"
    using prefix.total [OF ok assms(2), of t] step step_prefix assms(2) by metis
  show "\<exists>r p' a'. flv_parser_read_audio_tag data p a = Some (r, p', a') \<and> parser_reach p'"
    using audio.total [OF ok assms(2), of a] step step_audio assms(2) by metis
  show "\<exists>r p' v'. flv_parser_read_video_tag data p v = Some (r, p', v') \<and> parser_reach p'"
    using video.total [OF ok assms(2), of v] step step_video assms(2) by metis
qed

theorem flv_parser_reads_inside_witness:
  "\<exists>r p' t'. flv_parser_read_tag_prefix (replicate 11 0) (flv_parser_seek 13 flv_parser_init)
     \<lparr>tag_type = 0, body_size = 0, tag_timestamp = 0\<rparr> = Some (r, p', t') \<and> parser_reach p'"
  using flv_parser_reads_inside [OF reach_step [OF reach_init step_seek [of flv_parser_init 13]], of "replicate 11 0"]
  by simp

lemma accepted_audio:
  assumes "parser_ok p" "length data < 2 ^ 63" "flv_parser_read_audio_tag data p a = Some (FLV_PARSER_OK, p', a')"
  shows "1 \<le> audio_packet_offset a' \<and> 1 \<le> audio_packet_size a' \<and>
    audio_packet_offset a' + audio_packet_size a' + FLV_TAG_SUFFIX_SIZE = next_block_size p \<and>
    next_block_size p \<le> length data \<and> p' = block_done p"
proof -
  have "parser_state p = FLV_PARSER_EXPECT_AUDIO_TAG_BODY" "next_block_size p \<le> length data"
    using assms(3) by (auto simp: flv_parser_read_audio_tag_def split: if_splits)
  then show ?thesis
    using read_audio_tag_eq [OF assms(1) _ _ assms(2), of a] assms(3) by (auto simp: flv_sizes split: if_splits)
qed

lemma accepted_video:
  assumes "parser_ok p" "length data < 2 ^ 63" "flv_parser_read_video_tag data p v = Some (FLV_PARSER_OK, p', v')"
  shows "1 \<le> video_packet_offset v' \<and> 1 \<le> video_packet_size v' \<and>
    video_packet_offset v' + video_packet_size v' + FLV_TAG_SUFFIX_SIZE = next_block_size p \<and>
    next_block_size p \<le> length data \<and> p' = block_done p"
proof -
  have "parser_state p = FLV_PARSER_EXPECT_VIDEO_TAG_BODY" "next_block_size p \<le> length data"
    using assms(3) by (auto simp: flv_parser_read_video_tag_def split: if_splits)
  then show ?thesis
    using read_video_tag_eq [OF assms(1) _ _ assms(2), of v] assms(3) by (auto simp: flv_sizes split: if_splits)
qed

text \<open>
  C20: packets lie in their tag. When a reachable parser accepts an audio or video tag, the packet it
  reports is not empty and ends exactly at the end of the tag's body, inside the buffer; the parser
  moves to the next tag prefix and its file position advances by the whole block.
\<close>

theorem flv_packet_in_body:
  assumes "parser_reach p" "length data < 2 ^ 63"
  shows "(\<forall>p' a'. flv_parser_read_audio_tag data p a = Some (FLV_PARSER_OK, p', a') \<longrightarrow>
      1 \<le> audio_packet_offset a' \<and> 1 \<le> audio_packet_size a' \<and>
      audio_packet_offset a' + audio_packet_size a' + FLV_TAG_SUFFIX_SIZE = next_block_size p \<and>
      next_block_size p \<le> length data \<and> p' = block_done p) \<and>
    (\<forall>p' v'. flv_parser_read_video_tag data p v = Some (FLV_PARSER_OK, p', v') \<longrightarrow>
      1 \<le> video_packet_offset v' \<and> 1 \<le> video_packet_size v' \<and>
      video_packet_offset v' + video_packet_size v' + FLV_TAG_SUFFIX_SIZE = next_block_size p \<and>
      next_block_size p \<le> length data \<and> p' = block_done p)"
  using accepted_audio [OF parser_reach_ok [OF assms(1)] assms(2)]
    accepted_video [OF parser_reach_ok [OF assms(1)] assms(2)] by blast

definition video_demo :: FlvParser where
  "video_demo = fst (snd (the (flv_parser_read_tag_prefix [9, 0, 0, 5, 0, 0, 0, 0, 0, 0, 0]
     (flv_parser_seek 13 flv_parser_init) \<lparr>tag_type = 0, body_size = 0, tag_timestamp = 0\<rparr>)))"

lemma video_demo_eq:
  "flv_parser_read_tag_prefix [9, 0, 0, 5, 0, 0, 0, 0, 0, 0, 0] (flv_parser_seek 13 flv_parser_init)
     \<lparr>tag_type = 0, body_size = 0, tag_timestamp = 0\<rparr> =
   Some (FLV_PARSER_OK, video_demo, \<lparr>tag_type = 9, body_size = 5, tag_timestamp = 0\<rparr>)"
  "video_demo = \<lparr>parser_state = FLV_PARSER_EXPECT_VIDEO_TAG_BODY, file_position = 24,
     parsed_block_size = 11, next_block_size = 9\<rparr>"
  by (simp_all add: video_demo_def flv_parser_read_tag_prefix_def flv_parser_seek_def flv_parser_init_def
      tag_body_state_def flv_tag_types flv_sizes add64_def Let_def byte_at_def GST_READ_UINT16_BE_def
      FLV_READ_UINT24_BE_def FLV_READ_TS32_def)

lemma video_demo_reach: "parser_reach video_demo"
  by (rule reach_step [OF reach_step [OF reach_init step_seek] step_prefix [OF video_demo_eq(1)]]) simp

theorem flv_packet_in_body_witness:
  "\<exists>v'. flv_parser_read_video_tag [0x14, 0, 7, 7, 7, 0, 0, 0, 16] video_demo
      \<lparr>codec_id = 0, frame_type = 0, video_packet_offset = 0, video_packet_size = 0\<rparr> =
      Some (FLV_PARSER_OK, block_done video_demo, v') \<and>
    video_packet_offset v' + video_packet_size v' + FLV_TAG_SUFFIX_SIZE = next_block_size video_demo"
proof -
  obtain v' where v: "flv_parser_read_video_tag [0x14, 0, 7, 7, 7, 0, 0, 0, 16] video_demo
      \<lparr>codec_id = 0, frame_type = 0, video_packet_offset = 0, video_packet_size = 0\<rparr> =
      Some (FLV_PARSER_OK, block_done video_demo, v')"
    by (simp add: video_demo_eq(2) flv_parser_read_video_tag_def block_done_def byte_at_def rd_def Let_def
        flv_video_codec_data_size_def flv_sizes packet_fits_def sub64_def)
  moreover have "length [0x14, 0, 7, 7, 7, 0, 0, 0, 16 :: byte] < 2 ^ 63" by simp
  note flv_packet_in_body [OF video_demo_reach this,
      of "\<lparr>sound_format = 0, sampling_rate = 0, is_16bit = False, is_stereo = False,
        audio_packet_offset = 0, audio_packet_size = 0\<rparr>"
      "\<lparr>codec_id = 0, frame_type = 0, video_packet_offset = 0, video_packet_size = 0\<rparr>"]
  ultimately show ?thesis by blast
qed

end
