(* ===== verification/Flv_Script.thy ===== *)
theory Flv_Script
  imports Flv_Parser
begin

text \<open>
  FLV script data (gstreamer/plugins/vp6/flvmetadata.c): the readers of AMF values, the loops over
  objects, ECMA arrays and strict arrays with their callbacks, and the handlers that collect the
  \<open>onMetaData\<close> values and the keyframe tables. A reader is a position and an end in the tag's
  bytes. The outer \<open>None\<close> is a fault: a read outside the buffer, a string comparison with a NULL name,
  or a loop or recursion that used up its fuel. A value that could not be read (\<open>FALSE\<close> in the
  code) is an inner \<open>None\<close>. Doubles are bit patterns; their conversions are parameters. The tag
  list is a map; a value added under a name replaces the earlier one (\<open>GST_TAG_MERGE_REPLACE\<close>).
  A string is passed to gst_tag_list_add under any name the file gives, and is collected there by the
  type the name is registered for: only names registered for strings, or not registered yet, get
  the string.
\<close>

section \<open>Metadata\<close>

text \<open>
  The conversions of a double to \<open>gint\<close>, of its product with \<open>GST_SECOND\<close> to a clock time, to
  \<open>guint64\<close>, and of its product with 100 to \<open>gint\<close>; and the process-wide registry of tags, which the
  core (gsttaglist.c) and the plugins that have run fill: the kind of type a name stands for. A name that
  is not registered is registered for strings at its first use (flvmetadata.c).
\<close>

datatype tag_kind = Kind_String | Kind_Number | Kind_Object

type_synonym gdouble = nat

record double_ops =
  d_gint :: "gdouble \<Rightarrow> int"
  d_clock :: "gdouble \<Rightarrow> nat"
  d_guint64 :: "gdouble \<Rightarrow> nat"
  d_centi :: "gdouble \<Rightarrow> int"
  d_tag_kind :: "string \<Rightarrow> tag_kind"

text \<open>
  A tag's value: a clock time, a string, or the unspecified number that the collection of a string's
  address as a number leaves. The last field of the metadata is not in the code: it records that an
  address of a string has been collected as that of a date, a date and time or a sample, after which
  nothing is promised of the memory.
\<close>

datatype tag_value = Tag_Time nat | Tag_String string | Tag_Address

record FlvKeyframe =
  kf_time :: nat
  kf_fileposition :: nat

record FlvMetadata =
  md_duration :: nat
  md_file_size :: int
  md_can_seek_to_end :: nat
  md_video_codec_id :: int
  md_video_data_rate :: gdouble
  md_width :: int
  md_height :: int
  md_par_x :: int
  md_par_y :: int
  md_framerate :: gdouble
  md_audio_codec_id :: int
  md_audio_data_rate :: int
  md_audio_sample_size :: int
  md_is_stereo :: nat
  md_tag_list :: "(string \<rightharpoonup> tag_value) option"
  md_keyframes :: "FlvKeyframe list option"
  md_misread :: bool

text \<open>
  The registry as the core fills it (_priv_gst_tag_initialize): the names that do not stand for
  strings.
\<close>

definition number_tags :: "string list" where
  "number_tags = [''track-number'', ''track-count'', ''album-disc-number'', ''album-disc-count'',
     ''duration'', ''bitrate'', ''nominal-bitrate'', ''minimum-bitrate'', ''maximum-bitrate'',
     ''encoder-version'', ''serial'', ''replaygain-track-gain'', ''replaygain-track-peak'',
     ''replaygain-album-gain'', ''replaygain-album-peak'', ''replaygain-reference-level'',
     ''beats-per-minute'', ''geo-location-latitude'', ''geo-location-longitude'',
     ''geo-location-elevation'', ''geo-location-horizontal-error'', ''geo-location-movement-speed'',
     ''geo-location-movement-direction'', ''geo-location-capture-direction'', ''show-episode-number'',
     ''show-season-number'', ''user-rating'', ''midi-base-note'']"

definition object_tags :: "string list" where
  "object_tags = [''date'', ''datetime'', ''image'', ''preview-image'', ''attachment'',
     ''application-data'', ''private-data'']"

definition gst_tag_initialize :: "string \<Rightarrow> tag_kind" where
  "gst_tag_initialize name =
    (if name \<in> set object_tags then Kind_Object
     else if name \<in> set number_tags then Kind_Number else Kind_String)"

definition demo_doubles :: double_ops where
  "demo_doubles = \<lparr>d_gint = int, d_clock = id, d_guint64 = id, d_centi = (\<lambda>v. int v * 100),
     d_tag_kind = gst_tag_initialize\<rparr>"

definition GST_CLOCK_TIME_NONE :: nat where "GST_CLOCK_TIME_NONE = 2 ^ 64 - 1"

definition flv_metadata_new :: FlvMetadata where
  "flv_metadata_new = \<lparr>md_duration = GST_CLOCK_TIME_NONE, md_file_size = 0, md_can_seek_to_end = 0,
     md_video_codec_id = 0, md_video_data_rate = 0, md_width = 0, md_height = 0, md_par_x = 0, md_par_y = 0,
     md_framerate = 0, md_audio_codec_id = 0, md_audio_data_rate = 0, md_audio_sample_size = 0,
     md_is_stereo = 0, md_tag_list = None, md_keyframes = None, md_misread = False\<rparr>"

definition FLV_SCRIPT_DATA_TYPE_DOUBLE :: nat where "FLV_SCRIPT_DATA_TYPE_DOUBLE = 0"
definition FLV_SCRIPT_DATA_TYPE_BOOL :: nat where "FLV_SCRIPT_DATA_TYPE_BOOL = 1"
definition FLV_SCRIPT_DATA_TYPE_STRING :: nat where "FLV_SCRIPT_DATA_TYPE_STRING = 2"
definition FLV_SCRIPT_DATA_TYPE_OBJECT :: nat where "FLV_SCRIPT_DATA_TYPE_OBJECT = 3"
definition FLV_SCRIPT_DATA_TYPE_MOVIE_CLIP :: nat where "FLV_SCRIPT_DATA_TYPE_MOVIE_CLIP = 4"
definition FLV_SCRIPT_DATA_TYPE_NULL :: nat where "FLV_SCRIPT_DATA_TYPE_NULL = 5"
definition FLV_SCRIPT_DATA_TYPE_UNDEFINED :: nat where "FLV_SCRIPT_DATA_TYPE_UNDEFINED = 6"
definition FLV_SCRIPT_DATA_TYPE_REFERENCE :: nat where "FLV_SCRIPT_DATA_TYPE_REFERENCE = 7"
definition FLV_SCRIPT_DATA_TYPE_ECMA :: nat where "FLV_SCRIPT_DATA_TYPE_ECMA = 8"
definition FLV_SCRIPT_DATA_TYPE_TERMINATOR :: nat where "FLV_SCRIPT_DATA_TYPE_TERMINATOR = 9"
definition FLV_SCRIPT_DATA_TYPE_STRICT :: nat where "FLV_SCRIPT_DATA_TYPE_STRICT = 10"
definition FLV_SCRIPT_DATA_TYPE_DATE :: nat where "FLV_SCRIPT_DATA_TYPE_DATE = 11"
definition FLV_SCRIPT_DATA_TYPE_LONG_STRING :: nat where "FLV_SCRIPT_DATA_TYPE_LONG_STRING = 12"

lemmas script_types = FLV_SCRIPT_DATA_TYPE_DOUBLE_def FLV_SCRIPT_DATA_TYPE_BOOL_def
  FLV_SCRIPT_DATA_TYPE_STRING_def FLV_SCRIPT_DATA_TYPE_OBJECT_def FLV_SCRIPT_DATA_TYPE_MOVIE_CLIP_def
  FLV_SCRIPT_DATA_TYPE_NULL_def FLV_SCRIPT_DATA_TYPE_UNDEFINED_def FLV_SCRIPT_DATA_TYPE_REFERENCE_def
  FLV_SCRIPT_DATA_TYPE_ECMA_def FLV_SCRIPT_DATA_TYPE_TERMINATOR_def FLV_SCRIPT_DATA_TYPE_STRICT_def
  FLV_SCRIPT_DATA_TYPE_DATE_def FLV_SCRIPT_DATA_TYPE_LONG_STRING_def

section \<open>Reading values\<close>

definition advance :: "nat \<Rightarrow> FlvScriptDataReader \<Rightarrow> FlvScriptDataReader" where
  "advance n r = r\<lparr>rd_position := rd_position r + n\<rparr>"

definition FLV_READ_DOUBLE_BE :: "byte list \<Rightarrow> nat \<Rightarrow> gdouble option" where
  "FLV_READ_DOUBLE_BE data i =
    do { a \<leftarrow> GST_READ_UINT32_BE data i; b \<leftarrow> GST_READ_UINT32_BE data (i + 4); Some (a * 2 ^ 32 + b) }"

definition flv_script_data_read_ui8 ::
    "byte list \<Rightarrow> FlvScriptDataReader \<Rightarrow> (nat option \<times> FlvScriptDataReader) option" where
  "flv_script_data_read_ui8 data r =
    (if rd_position r + 1 > rd_end r then Some (None, r)
     else do { v \<leftarrow> byte_at data (rd_position r); Some (Some v, advance 1 r) })"

definition flv_script_data_read_ui32 ::
    "byte list \<Rightarrow> FlvScriptDataReader \<Rightarrow> (nat option \<times> FlvScriptDataReader) option" where
  "flv_script_data_read_ui32 data r =
    (if rd_position r + 4 > rd_end r then Some (None, r)
     else do { v \<leftarrow> GST_READ_UINT32_BE data (rd_position r); Some (Some v, advance 4 r) })"

definition flv_script_data_read_double ::
    "byte list \<Rightarrow> FlvScriptDataReader \<Rightarrow> (gdouble option \<times> FlvScriptDataReader) option" where
  "flv_script_data_read_double data r =
    (if rd_position r + 8 > rd_end r then Some (None, r)
     else do { v \<leftarrow> FLV_READ_DOUBLE_BE data (rd_position r); Some (Some v, advance 8 r) })"

text \<open>A string is copied with a terminating zero and used as a C string, up to its first zero byte.\<close>

definition c_string :: "byte list \<Rightarrow> string" where
  "c_string bs = map (\<lambda>b. char_of (unat b)) (takeWhile (\<lambda>b. b \<noteq> 0) bs)"

definition copy_bytes :: "byte list \<Rightarrow> nat \<Rightarrow> nat \<Rightarrow> byte list option" where
  "copy_bytes data i n = (if i + n \<le> length data then Some (take n (drop i data)) else None)"

definition flv_script_data_read_string ::
    "byte list \<Rightarrow> FlvScriptDataReader \<Rightarrow> bool \<Rightarrow> (string option \<times> FlvScriptDataReader) option" where
  "flv_script_data_read_string data r longString =
    (if rd_position r + (if longString then 4 else 2) > rd_end r then Some (None, r)
     else do {
       len \<leftarrow> (if longString then GST_READ_UINT32_BE data (rd_position r)
              else GST_READ_UINT16_BE data (rd_position r));
       let r = advance (if longString then 4 else 2) r;
       if rd_position r + len > rd_end r then Some (None, r)
       else if len \<ge> 2 ^ 64 - 2 then Some (None, r)
       else do { bs \<leftarrow> copy_bytes data (rd_position r) len; Some (Some (c_string bs), advance len r) } })"

section \<open>Loops over values\<close>

text \<open>
  A handler gets the reader, the name of a value (NULL inside strict arrays and for terminators),
  its type and its own state; it tells whether it succeeded.
\<close>

type_synonym 's handler =
  "FlvScriptDataReader \<Rightarrow> string option \<Rightarrow> nat \<Rightarrow> 's \<Rightarrow> (bool \<times> FlvScriptDataReader \<times> 's) option"

text \<open>The name and type of the next value: the terminator, or a string and a byte.\<close>

definition read_name_type ::
    "byte list \<Rightarrow> FlvScriptDataReader \<Rightarrow> ((string option \<times> nat) option \<times> FlvScriptDataReader) option" where
  "read_name_type data r =
    do { b0 \<leftarrow> byte_at data (rd_position r); b1 \<leftarrow> byte_at data (rd_position r + 1);
         b2 \<leftarrow> byte_at data (rd_position r + 2);
         if b0 = 0 \<and> b1 = 0 \<and> b2 = 9 then Some (Some (None, FLV_SCRIPT_DATA_TYPE_TERMINATOR), advance 3 r)
         else do {
           (var_name, r) \<leftarrow> flv_script_data_read_string data r False;
           case var_name of None \<Rightarrow> Some (None, r)
           | Some name \<Rightarrow> do {
               (value_type, r) \<leftarrow> flv_script_data_read_ui8 data r;
               Some (map_option (\<lambda>t. (Some name, t)) value_type, r) } } }"

text \<open>
  The loop of objects and ECMA arrays. Each round consumes at least three bytes, so \<open>end - position\<close>
  rounds and the final test are enough fuel.
\<close>

fun script_loop ::
    "nat \<Rightarrow> byte list \<Rightarrow> 's handler \<Rightarrow> FlvScriptDataReader \<Rightarrow> 's \<Rightarrow> (bool \<times> FlvScriptDataReader \<times> 's) option" where
  "script_loop 0 data callback r s = None"
| "script_loop (Suc fuel) data callback r s =
    (if \<not> rd_position r < rd_end r then Some (True, r, s)
     else if rd_position r + 3 > rd_end r then Some (False, r, s)
     else do {
       (entry, r) \<leftarrow> read_name_type data r;
       case entry of None \<Rightarrow> Some (False, r, s)
       | Some (var_name, value_type) \<Rightarrow> do {
           (result, r, s) \<leftarrow> callback r var_name value_type s;
           if value_type = FLV_SCRIPT_DATA_TYPE_TERMINATOR then Some (True, r, s)
           else if \<not> result then Some (False, r, s)
           else script_loop fuel data callback r s } })"

declare script_loop.simps [simp del]

definition flv_script_data_read_object ::
    "byte list \<Rightarrow> 's handler \<Rightarrow> FlvScriptDataReader \<Rightarrow> 's \<Rightarrow> (bool \<times> FlvScriptDataReader \<times> 's) option" where
  "flv_script_data_read_object data callback r s =
     script_loop (Suc (rd_end r - rd_position r)) data callback r s"

definition flv_script_data_read_ecma ::
    "byte list \<Rightarrow> 's handler \<Rightarrow> FlvScriptDataReader \<Rightarrow> 's \<Rightarrow> (bool \<times> FlvScriptDataReader \<times> 's) option" where
  "flv_script_data_read_ecma data callback r s =
    do { (n, r) \<leftarrow> flv_script_data_read_ui32 data r;
         case n of None \<Rightarrow> Some (False, r, s)
         | Some _ \<Rightarrow> script_loop (Suc (rd_end r - rd_position r)) data callback r s }"

primrec strict_loop ::
    "nat \<Rightarrow> byte list \<Rightarrow> 's handler \<Rightarrow> FlvScriptDataReader \<Rightarrow> 's \<Rightarrow> (bool \<times> FlvScriptDataReader \<times> 's) option" where
  "strict_loop 0 data callback r s = Some (True, r, s)"
| "strict_loop (Suc n) data callback r s =
    do { (value_type, r) \<leftarrow> flv_script_data_read_ui8 data r;
         case value_type of None \<Rightarrow> Some (False, r, s)
         | Some t \<Rightarrow> do {
             (result, r, s) \<leftarrow> callback r None t s;
             if \<not> result then Some (False, r, s) else strict_loop n data callback r s } }"

definition flv_script_data_read_strict_array ::
    "byte list \<Rightarrow> 's handler \<Rightarrow> FlvScriptDataReader \<Rightarrow> 's \<Rightarrow> (bool \<times> FlvScriptDataReader \<times> 's) option" where
  "flv_script_data_read_strict_array data callback r s =
    do { (n, r) \<leftarrow> flv_script_data_read_ui32 data r;
         case n of None \<Rightarrow> Some (False, r, s) | Some n \<Rightarrow> strict_loop n data callback r s }"

section \<open>Handlers\<close>

text \<open>A value read for its effect on the reader only.\<close>

definition skipped :: "('v option \<times> FlvScriptDataReader) option \<Rightarrow> 's \<Rightarrow> (bool \<times> FlvScriptDataReader \<times> 's) option" where
  "skipped x s = map_option (\<lambda>(v, r). (v \<noteq> None, r, s)) x"

text \<open>The recursion of the skip handler: the first argument bounds the nesting depth.\<close>

primrec flv_metadata_skip_handler :: "nat \<Rightarrow> byte list \<Rightarrow> 's handler" where
  "flv_metadata_skip_handler 0 data = (\<lambda>r nm t s. None)"
| "flv_metadata_skip_handler (Suc depth) data = (\<lambda>r nm t s.
    if t = FLV_SCRIPT_DATA_TYPE_DOUBLE then skipped (flv_script_data_read_double data r) s
    else if t = FLV_SCRIPT_DATA_TYPE_BOOL then skipped (flv_script_data_read_ui8 data r) s
    else if t = FLV_SCRIPT_DATA_TYPE_STRING then skipped (flv_script_data_read_string data r False) s
    else if t = FLV_SCRIPT_DATA_TYPE_OBJECT
    then flv_script_data_read_object data (flv_metadata_skip_handler depth data) r s
    else if t = FLV_SCRIPT_DATA_TYPE_ECMA
    then flv_script_data_read_ecma data (flv_metadata_skip_handler depth data) r s
    else if t = FLV_SCRIPT_DATA_TYPE_TERMINATOR then Some (True, r, s)
    else if t = FLV_SCRIPT_DATA_TYPE_STRICT
    then flv_script_data_read_strict_array data (flv_metadata_skip_handler depth data) r s
    else Some (False, r, s))"

definition skip_any :: "byte list \<Rightarrow> 's handler" where
  "skip_any data r nm t s = flv_metadata_skip_handler (Suc (rd_end r - rd_position r)) data r nm t s"

text \<open>
  One row of a keyframe table: which of the two tables it is, the entries left to keep (a
  \<open>guint32\<close> that wraps when it goes below zero) and the entries so far.
\<close>

definition keyframe_entry :: "double_ops \<Rightarrow> nat \<Rightarrow> gdouble \<Rightarrow> FlvKeyframe" where
  "keyframe_entry D whichField v =
    (if whichField = 1 then \<lparr>kf_time = d_clock D v, kf_fileposition = 0\<rparr>
     else \<lparr>kf_time = 0, kf_fileposition = d_guint64 D v\<rparr>)"

primrec keyframe_loop ::
    "nat \<Rightarrow> double_ops \<Rightarrow> byte list \<Rightarrow> nat \<Rightarrow> nat \<Rightarrow> FlvScriptDataReader \<Rightarrow> FlvKeyframe list \<Rightarrow>
     (bool \<times> FlvScriptDataReader \<times> FlvKeyframe list) option" where
  "keyframe_loop 0 D data whichField readSize r ks = Some (True, r, ks)"
| "keyframe_loop (Suc n) D data whichField readSize r ks =
    do { (value_type, r) \<leftarrow> flv_script_data_read_ui8 data r;
         case value_type of None \<Rightarrow> Some (False, r, ks)
         | Some t \<Rightarrow>
             if t \<noteq> FLV_SCRIPT_DATA_TYPE_DOUBLE then Some (False, r, ks)
             else do {
               (v, r) \<leftarrow> flv_script_data_read_double data r;
               case v of None \<Rightarrow> Some (False, r, ks)
               | Some v \<Rightarrow>
                   keyframe_loop n D data whichField (nat ((int readSize - 1) mod 2 ^ 32)) r
                     (if readSize > 0 \<and> whichField > 0 then ks @ [keyframe_entry D whichField v] else ks) } }"

definition flv_script_read_keyframe_array ::
    "double_ops \<Rightarrow> byte list \<Rightarrow> FlvScriptDataReader \<Rightarrow> string option \<Rightarrow> FlvKeyframe list \<Rightarrow>
     (bool \<times> FlvScriptDataReader \<times> FlvKeyframe list) option" where
  "flv_script_read_keyframe_array D data r value_name ks =
    do { (n, r) \<leftarrow> flv_script_data_read_ui32 data r;
         case n of None \<Rightarrow> Some (False, r, ks)
         | Some n \<Rightarrow> do {
             name \<leftarrow> value_name;
             let whichField = (if name = ''times'' then 1 else if name = ''filepositions'' then 2 else 0);
             let readSize = (if length ks > 0 \<and> length ks < n then length ks else n);
             let ks = (if length ks > n then take n ks else ks);
             keyframe_loop n D data whichField readSize r ks } }"

definition flv_metadata_keyframe_handler :: "double_ops \<Rightarrow> byte list \<Rightarrow> FlvMetadata handler" where
  "flv_metadata_keyframe_handler D data r nm t m =
    (if t = FLV_SCRIPT_DATA_TYPE_TERMINATOR then Some (True, r, m)
     else if t = FLV_SCRIPT_DATA_TYPE_STRICT
     then do { (result, r, ks) \<leftarrow>
                 flv_script_read_keyframe_array D data r nm
                   (case md_keyframes m of None \<Rightarrow> [] | Some ks \<Rightarrow> ks);
               Some (result, r, m\<lparr>md_keyframes := (if result then Some ks else None)\<rparr>) }
     else Some (False, r, m))"

definition add_tag :: "string \<Rightarrow> tag_value \<Rightarrow> FlvMetadata \<Rightarrow> FlvMetadata" where
  "add_tag name v m = m\<lparr>md_tag_list := map_option (\<lambda>tags. tags(name \<mapsto> v)) (md_tag_list m)\<rparr>"

text \<open>
  The check of a string for UTF-8 (fast_validate in gutf8.c), on its bytes: the second byte of three
  and four is bounded so that no character is overlong, a surrogate or above the last one.
\<close>

definition utf8_tail :: "nat \<Rightarrow> bool" where
  "utf8_tail b \<longleftrightarrow> b div 64 = 2"

fun utf8_valid :: "nat list \<Rightarrow> bool" where
  "utf8_valid [] = True"
| "utf8_valid (a # s) =
    (if a < 0x80 then utf8_valid s
     else if a < 0xE0
     then 0xC2 \<le> a \<and> (case s of b # s \<Rightarrow> utf8_tail b \<and> utf8_valid s | _ \<Rightarrow> False)
     else if a < 0xF0
     then (case s of b # c # s \<Rightarrow>
             utf8_tail b \<and> (a = 0xE0 \<longrightarrow> 0xA0 \<le> b) \<and> (a = 0xED \<longrightarrow> b < 0xA0) \<and> utf8_tail c \<and> utf8_valid s
           | _ \<Rightarrow> False)
     else a < 0xF5 \<and>
       (case s of b # c # d # s \<Rightarrow>
          utf8_tail b \<and> (a = 0xF0 \<longrightarrow> 0x90 \<le> b) \<and> (a = 0xF4 \<longrightarrow> b < 0x90) \<and> utf8_tail c \<and> utf8_tail d \<and>
          utf8_valid s
        | _ \<Rightarrow> False))"

definition g_utf8_validate :: "string \<Rightarrow> bool" where
  "g_utf8_validate v = utf8_valid (map of_char v)"

text \<open>
  gst_tag_list_add with a string (gsttaglist.c): the type of the name says how the argument is
  collected. A string then reaches gst_structure_set_field (gststructure.c), which refuses an empty
  string and one that is not UTF-8 and leaves the earlier value.
\<close>

definition add_string_tag :: "double_ops \<Rightarrow> string \<Rightarrow> string \<Rightarrow> FlvMetadata \<Rightarrow> FlvMetadata" where
  "add_string_tag D name v m =
    (case d_tag_kind D name of
       Kind_String \<Rightarrow> if v = [] \<or> \<not> g_utf8_validate v then m else add_tag name (Tag_String v) m
     | Kind_Number \<Rightarrow> add_tag name Tag_Address m
     | Kind_Object \<Rightarrow> m\<lparr>md_misread := True\<rparr>)"

definition set_double_value :: "double_ops \<Rightarrow> string \<Rightarrow> gdouble \<Rightarrow> FlvMetadata \<Rightarrow> FlvMetadata" where
  "set_double_value D name v m =
    (if name = ''duration'' then add_tag ''duration'' (Tag_Time (d_clock D v)) (m\<lparr>md_duration := d_clock D v\<rparr>)
     else if name = ''filesize'' then m\<lparr>md_file_size := d_gint D v\<rparr>
     else if name = ''videocodecid'' then m\<lparr>md_video_codec_id := d_gint D v\<rparr>
     else if name = ''videodatarate'' then m\<lparr>md_video_data_rate := v\<rparr>
     else if name = ''width'' then m\<lparr>md_width := d_gint D v\<rparr>
     else if name = ''height'' then m\<lparr>md_height := d_gint D v\<rparr>
     else if name = ''AspectRatioX'' then m\<lparr>md_par_x := d_gint D v\<rparr>
     else if name = ''AspectRatioY'' then m\<lparr>md_par_y := d_gint D v\<rparr>
     else if name = ''framerate'' then m\<lparr>md_framerate := v\<rparr>
     else if name = ''audiocodecid'' then m\<lparr>md_audio_codec_id := d_gint D v\<rparr>
     else if name = ''audiosamplesize'' then m\<lparr>md_audio_sample_size := d_gint D v\<rparr>
     else m)"

definition set_bool_value :: "string \<Rightarrow> nat \<Rightarrow> FlvMetadata \<Rightarrow> FlvMetadata" where
  "set_bool_value name v m =
    (if name = ''canSeekToEnd'' then m\<lparr>md_can_seek_to_end := v\<rparr>
     else if name = ''stereo'' then m\<lparr>md_is_stereo := v\<rparr> else m)"

text \<open>A value that is read and stored under its name.\<close>

definition stored ::
    "('v option \<times> FlvScriptDataReader) option \<Rightarrow> string option \<Rightarrow> (string \<Rightarrow> 'v \<Rightarrow> 's \<Rightarrow> 's) \<Rightarrow> 's \<Rightarrow>
     (bool \<times> FlvScriptDataReader \<times> 's) option" where
  "stored x nm f s =
    do { (v, r) \<leftarrow> x;
         case v of None \<Rightarrow> Some (False, r, s) | Some v \<Rightarrow> do { name \<leftarrow> nm; Some (True, r, f name v s) } }"

definition flv_metadata_value_handler :: "double_ops \<Rightarrow> byte list \<Rightarrow> FlvMetadata handler" where
  "flv_metadata_value_handler D data r nm t m =
    (if t = FLV_SCRIPT_DATA_TYPE_DOUBLE
     then stored (flv_script_data_read_double data r) nm (set_double_value D) m
     else if t = FLV_SCRIPT_DATA_TYPE_BOOL then stored (flv_script_data_read_ui8 data r) nm set_bool_value m
     else if t = FLV_SCRIPT_DATA_TYPE_STRING \<or> t = FLV_SCRIPT_DATA_TYPE_LONG_STRING
     then stored (flv_script_data_read_string data r (t = FLV_SCRIPT_DATA_TYPE_LONG_STRING)) nm
            (add_string_tag D) m
     else if t = FLV_SCRIPT_DATA_TYPE_OBJECT
     then do { name \<leftarrow> nm;
               if name = ''keyframes'' \<and> md_keyframes m = None
               then flv_script_data_read_object data (flv_metadata_keyframe_handler D data) r m
               else flv_script_data_read_object data (skip_any data) r m }
     else if t = FLV_SCRIPT_DATA_TYPE_MOVIE_CLIP then Some (False, r, m)
     else if t = FLV_SCRIPT_DATA_TYPE_NULL \<or> t = FLV_SCRIPT_DATA_TYPE_UNDEFINED then Some (True, r, m)
     else if t = FLV_SCRIPT_DATA_TYPE_REFERENCE then Some (True, advance 2 r, m)
     else if t = FLV_SCRIPT_DATA_TYPE_ECMA then flv_script_data_read_ecma data (skip_any data) r m
     else if t = FLV_SCRIPT_DATA_TYPE_TERMINATOR then Some (True, r, m)
     else if t = FLV_SCRIPT_DATA_TYPE_STRICT then flv_script_data_read_strict_array data (skip_any data) r m
     else if t = FLV_SCRIPT_DATA_TYPE_DATE then Some (True, advance 10 r, m)
     else Some (False, r, m))"

definition flv_script_data_read ::
    "double_ops \<Rightarrow> byte list \<Rightarrow> FlvScriptDataReader \<Rightarrow> FlvMetadata \<Rightarrow>
     (bool \<times> FlvScriptDataReader \<times> FlvMetadata) option" where
  "flv_script_data_read D data r m =
    do { (value_type, r) \<leftarrow> flv_script_data_read_ui8 data r;
         if value_type \<noteq> Some FLV_SCRIPT_DATA_TYPE_STRING then Some (True, r, m)
         else do {
           (str, r) \<leftarrow> flv_script_data_read_string data r False;
           if str = None then Some (False, r, m)
           else if str \<noteq> Some ''onMetaData'' then Some (True, r, m)
           else do {
             (value_type, r) \<leftarrow> flv_script_data_read_ui8 data r;
             if value_type \<noteq> Some FLV_SCRIPT_DATA_TYPE_ECMA then Some (False, r, m)
             else do {
               let m = (if md_tag_list m = None then m\<lparr>md_tag_list := Some Map.empty\<rparr> else m);
               (result, r, m) \<leftarrow> flv_script_data_read_ecma data (flv_metadata_value_handler D data) r m;
               Some (result, r, if result then m else m\<lparr>md_tag_list := None\<rparr>) } } } }"

section \<open>Readers stay inside the buffer\<close>

text \<open>
  A value was read from \<open>r\<close>: the end is the same, at least \<open>n\<close> bytes are consumed on success, and the
  reader is left at most ten bytes past its end: a date or a reference at the end of the tag is
  skipped without a test, and the next test then finds nothing left.
\<close>

definition moved :: "FlvScriptDataReader \<Rightarrow> FlvScriptDataReader \<Rightarrow> nat \<Rightarrow> bool" where
  "moved r r' n \<longleftrightarrow> rd_end r' = rd_end r \<and> rd_position r + n \<le> rd_position r' \<and>
    rd_position r' \<le> max (rd_position r) (rd_end r + 10)"

lemma moved_advance [simp]: "moved r (advance n r) k \<longleftrightarrow> k \<le> n \<and> (n = 0 \<or> rd_position r + n \<le> rd_end r + 10)"
  by (auto simp: moved_def advance_def)

lemma moved_refl [simp]: "moved r r 0"
  by (simp add: moved_def)

lemma moved_trans: "moved r r' n \<Longrightarrow> moved r' r'' k \<Longrightarrow> moved r r'' (n + k)"
  by (auto simp: moved_def)

lemma moved_weaken: "moved r r' n \<Longrightarrow> k \<le> n \<Longrightarrow> moved r r' k"
  by (simp add: moved_def)

lemma advance_fields [simp]: "rd_end (advance n r) = rd_end r" "rd_position (advance n r) = rd_position r + n"
  by (simp_all add: advance_def)

lemma read_ui8_total:
  assumes "rd_end r \<le> length data"
  obtains v r' where "flv_script_data_read_ui8 data r = Some (v, r')" "moved r r' 0" "v \<noteq> None \<Longrightarrow> moved r r' 1"
    "v \<noteq> None \<Longrightarrow> rd_end r' - rd_position r' < rd_end r - rd_position r"
    "v \<noteq> None \<Longrightarrow> rd_position r' \<le> rd_end r'"
  using assms that by (cases "rd_position r + 1 > rd_end r") (simp_all add: flv_script_data_read_ui8_def)

lemma read_ui32_total:
  assumes "rd_end r \<le> length data"
  obtains v r' where "flv_script_data_read_ui32 data r = Some (v, r')" "moved r r' 0" "v \<noteq> None \<Longrightarrow> moved r r' 4"
  using assms that by (cases "rd_position r + 4 > rd_end r") (simp_all add: flv_script_data_read_ui32_def)

lemma read_double_total:
  assumes "rd_end r \<le> length data"
  obtains v r' where "flv_script_data_read_double data r = Some (v, r')" "moved r r' 0" "v \<noteq> None \<Longrightarrow> moved r r' 8"
  using assms that
  by (cases "rd_position r + 8 > rd_end r") (simp_all add: flv_script_data_read_double_def FLV_READ_DOUBLE_BE_def)

lemma read_string_total:
  assumes "rd_end r \<le> length data"
  obtains v r' where "flv_script_data_read_string data r long = Some (v, r')" "moved r r' 0" "v \<noteq> None \<Longrightarrow> moved r r' 2"
proof (cases "rd_position r + (if long then 4 else 2) > rd_end r")
  case False
  then obtain len where "(if long then GST_READ_UINT32_BE data (rd_position r)
      else GST_READ_UINT16_BE data (rd_position r)) = Some len" using assms by (cases long) auto
  then have "\<exists>v r'. flv_script_data_read_string data r long = Some (v, r') \<and> moved r r' 2"
    using False assms by (auto simp: flv_script_data_read_string_def Let_def copy_bytes_def moved_def)
  then show ?thesis using that moved_weaken by blast
qed (use that in \<open>simp add: flv_script_data_read_string_def\<close>)

lemma read_name_type_total:
  assumes "rd_end r \<le> length data" "rd_position r + 3 \<le> rd_end r"
  obtains e r' where "read_name_type data r = Some (e, r')" "moved r r' 0"
    "e \<noteq> None \<Longrightarrow> moved r r' 3" "e \<noteq> None \<Longrightarrow> rd_position r' \<le> rd_end r'"
    "\<And>nm t. e = Some (nm, t) \<Longrightarrow> nm = None \<Longrightarrow> t = FLV_SCRIPT_DATA_TYPE_TERMINATOR"
proof -
  obtain v r1 where s: "flv_script_data_read_string data r False = Some (v, r1)" "moved r r1 0" "v \<noteq> None \<Longrightarrow> moved r r1 2"
    using read_string_total [OF assms(1)] by blast
  then have "rd_end r1 \<le> length data" using assms(1) by (simp add: moved_def)
  then obtain t r2 where t: "flv_script_data_read_ui8 data r1 = Some (t, r2)" "moved r1 r2 0" "t \<noteq> None \<Longrightarrow> moved r1 r2 1"
    "t \<noteq> None \<Longrightarrow> rd_position r2 \<le> rd_end r2"
    using read_ui8_total [of r1 data] by metis
  have m: "moved r r2 0" using moved_trans [OF s(2) t(2)] by simp
  have m3: "moved r r2 3" if "v \<noteq> None" "t \<noteq> None" using moved_trans [OF s(3) t(3)] that by simp
  show ?thesis
  proof (cases "unat (data ! rd_position r) = 0 \<and> unat (data ! (rd_position r + 1)) = 0 \<and> unat (data ! (rd_position r + 2)) = 9")
    case True
    then show ?thesis using that assms by (simp add: read_name_type_def)
  next
    case False
    then show ?thesis
      using that [of "None" r1] that [of "map_option (\<lambda>t. (v, t)) t" r2] assms s t(1,4) m m3
      by (cases v; cases t) (auto simp: read_name_type_def)
  qed
qed

section \<open>What a handler promises\<close>

text \<open>
  A handler that is called inside the tag returns on every value with fewer than \<open>bound\<close> bytes
  left, never moves the reader back, keeps its end and does not pass it by more than ten bytes. A handler that looks at names (\<open>named\<close>) may only be given a value
  without one when it is a terminator.
\<close>

locale script_handler =
  fixes data :: "byte list" and callback :: "'s handler" and bound :: nat and named :: bool
  assumes handles: "rd_end r \<le> length data \<Longrightarrow> rd_position r \<le> rd_end r \<Longrightarrow> rd_end r - rd_position r < bound \<Longrightarrow>
      (named \<Longrightarrow> nm = None \<Longrightarrow> t = FLV_SCRIPT_DATA_TYPE_TERMINATOR) \<Longrightarrow>
      \<exists>ok r' s'. callback r nm t s = Some (ok, r', s') \<and> moved r r' 0"
begin

lemma loop_total:
  assumes "rd_end r \<le> length data" "rd_end r - rd_position r < fuel" "rd_end r - rd_position r \<le> bound"
  shows "\<exists>ok r' s'. script_loop fuel data callback r s = Some (ok, r', s') \<and> moved r r' 0"
  using assms
proof (induction fuel arbitrary: r s)
  case (Suc fuel)
  show ?case
  proof (cases "rd_position r < rd_end r \<and> rd_position r + 3 \<le> rd_end r")
    case True
    obtain e r1 where e: "read_name_type data r = Some (e, r1)" "moved r r1 0" "e \<noteq> None \<Longrightarrow> moved r r1 3"
      "e \<noteq> None \<Longrightarrow> rd_position r1 \<le> rd_end r1"
      "\<And>nm t. e = Some (nm, t) \<Longrightarrow> nm = None \<Longrightarrow> t = FLV_SCRIPT_DATA_TYPE_TERMINATOR"
      using read_name_type_total [OF Suc.prems(1)] True by metis
    show ?thesis
    proof (cases e)
      case None
      then show ?thesis using True e by (auto simp: script_loop.simps)
    next
      case (Some nt)
      obtain nm t where nt: "nt = (nm, t)" by fastforce
      have m: "moved r r1 3" using e(3) Some by simp
      obtain ok r2 s2 where cb: "callback r1 nm t s = Some (ok, r2, s2)" "moved r1 r2 0"
        using handles [of r1 nm t s] e(4,5) Some nt m Suc.prems True by (fastforce simp: moved_def)
      have m2: "moved r r2 3" using moved_trans [OF m cb(2)] by simp
      then have "\<exists>ok r' s'. script_loop fuel data callback r2 s2 = Some (ok, r', s') \<and> moved r2 r' 0"
        using Suc.prems True by (intro Suc.IH) (auto simp: moved_def)
      then show ?thesis using True e(1) Some nt cb(1) m2 by (auto simp: moved_def script_loop.simps)
    qed
  qed (auto simp: not_less script_loop.simps)
qed simp

lemma object_total:
  assumes "rd_end r \<le> length data" "rd_end r - rd_position r \<le> bound"
  shows "\<exists>ok r' s'. flv_script_data_read_object data callback r s = Some (ok, r', s') \<and> moved r r' 0"
  using loop_total [OF assms(1) _ assms(2)] by (simp add: flv_script_data_read_object_def)

lemma ecma_total:
  assumes "rd_end r \<le> length data" "rd_end r - rd_position r \<le> bound"
  shows "\<exists>ok r' s'. flv_script_data_read_ecma data callback r s = Some (ok, r', s') \<and> moved r r' 0"
proof -
  obtain n r1 where n: "flv_script_data_read_ui32 data r = Some (n, r1)" "moved r r1 0"
    using read_ui32_total [OF assms(1)] by blast
  then have e: "rd_end r1 = rd_end r" "rd_position r \<le> rd_position r1" by (simp_all add: moved_def)
  then have "rd_end r1 \<le> length data" "rd_end r1 - rd_position r1 \<le> bound" using assms by linarith+
  then obtain ok r' s' where l: "script_loop (Suc (rd_end r1 - rd_position r1)) data callback r1 s = Some (ok, r', s')"
    "moved r1 r' 0"
    using loop_total [of r1 "Suc (rd_end r1 - rd_position r1)" s] by blast
  have "moved r r' 0" using moved_trans [OF n(2) l(2)] by simp
  then show ?thesis using n l(1) by (auto simp: flv_script_data_read_ecma_def split: option.split)
qed

lemma strict_loop_total:
  assumes "\<not> named" "rd_end r \<le> length data" "rd_end r - rd_position r \<le> bound"
  shows "\<exists>ok r' s'. strict_loop n data callback r s = Some (ok, r', s') \<and> moved r r' 0"
  using assms(2,3)
proof (induction n arbitrary: r s)
  case (Suc n)
  obtain v r1 where v: "flv_script_data_read_ui8 data r = Some (v, r1)" "moved r r1 0"
    "v \<noteq> None \<Longrightarrow> rd_end r1 - rd_position r1 < rd_end r - rd_position r" "v \<noteq> None \<Longrightarrow> rd_position r1 \<le> rd_end r1"
    using read_ui8_total [OF Suc.prems(1)] by metis
  show ?case
  proof (cases v)
    case (Some t)
    then have len: "rd_end r1 \<le> length data" "rd_position r1 \<le> rd_end r1" "rd_end r1 - rd_position r1 < bound"
      using v Suc.prems by (auto simp: moved_def)
    then obtain ok r2 s2 where cb: "callback r1 None t s = Some (ok, r2, s2)" "moved r1 r2 0"
      using handles [of r1 None t s] assms(1) by auto
    then obtain ok' r' s' where "strict_loop n data callback r2 s2 = Some (ok', r', s')" "moved r2 r' 0"
      using Suc.IH [of r2 s2] len by (fastforce simp: moved_def)
    then show ?thesis using v Some cb by (auto simp: moved_def)
  qed (use v in auto)
qed auto

lemma strict_array_total:
  assumes "\<not> named" "rd_end r \<le> length data" "rd_end r - rd_position r \<le> bound"
  shows "\<exists>ok r' s'. flv_script_data_read_strict_array data callback r s = Some (ok, r', s') \<and> moved r r' 0"
proof -
  obtain n r1 where n: "flv_script_data_read_ui32 data r = Some (n, r1)" "moved r r1 0"
    using read_ui32_total [OF assms(2)] by blast
  then have "\<exists>ok r' s'. strict_loop k data callback r1 s = Some (ok, r', s') \<and> moved r1 r' 0" for k
    using strict_loop_total [of r1 k s] assms by (auto simp: moved_def)
  then show ?thesis using n by (fastforce simp: flv_script_data_read_strict_array_def moved_def split: option.split)
qed

end

section \<open>The handlers keep the promise\<close>

lemma skipped_total:
  assumes "x = Some (v, r')" "moved r r' 0"
  shows "\<exists>ok r' s'. skipped x s = Some (ok, r', s') \<and> moved r r' 0"
  using assms by (simp add: skipped_def)

lemma skip_handler_ok: "script_handler data (flv_metadata_skip_handler depth data) depth False"
proof (induction depth)
  case (Suc depth)
  show ?case
  proof
    fix r :: FlvScriptDataReader and nm t and s :: 'a
    assume r: "rd_end r \<le> length data" "rd_position r \<le> rd_end r" "rd_end r - rd_position r < Suc depth"
    then have le: "rd_end r - rd_position r \<le> depth" by simp
    have "\<exists>ok r' s'. skipped (flv_script_data_read_double data r) s = Some (ok, r', s') \<and> moved r r' 0"
      "\<exists>ok r' s'. skipped (flv_script_data_read_ui8 data r) s = Some (ok, r', s') \<and> moved r r' 0"
      "\<exists>ok r' s'. skipped (flv_script_data_read_string data r False) s = Some (ok, r', s') \<and> moved r r' 0"
      using read_double_total [OF r(1)] read_ui8_total [OF r(1)] read_string_total [OF r(1)] skipped_total by metis+
    then show "\<exists>ok r' s'. flv_metadata_skip_handler (Suc depth) data r nm t s = Some (ok, r', s') \<and> moved r r' 0"
      using script_handler.object_total [OF Suc.IH r(1) le, of s] script_handler.ecma_total [OF Suc.IH r(1) le, of s]
        script_handler.strict_array_total [OF Suc.IH _ r(1) le, of s]
      by auto
  qed
qed (simp add: script_handler_def)

interpretation skip_depth: script_handler data "flv_metadata_skip_handler depth data" depth False for data depth
  by (rule skip_handler_ok)

interpretation skip_any: script_handler data "skip_any data" bound False for data bound
  by unfold_locales (unfold skip_any_def, rule skip_depth.handles, auto)

lemma keyframe_loop_total:
  assumes "rd_end r \<le> length data"
  shows "\<exists>ok r' ks'. keyframe_loop n D data w k r ks = Some (ok, r', ks') \<and> moved r r' 0"
  using assms
proof (induction n arbitrary: k r ks)
  case (Suc n)
  obtain t r1 where t: "flv_script_data_read_ui8 data r = Some (t, r1)" "moved r r1 0"
    using read_ui8_total [OF Suc.prems] by metis
  then have "rd_end r1 \<le> length data" using Suc.prems by (simp add: moved_def)
  then obtain v r2 where v: "flv_script_data_read_double data r1 = Some (v, r2)" "moved r1 r2 0"
    using read_double_total by metis
  then have "rd_end r2 \<le> length data" using \<open>rd_end r1 \<le> length data\<close> by (simp add: moved_def)
  then have "\<exists>ok r' ks'. keyframe_loop n D data w k' r2 ks'' = Some (ok, r', ks') \<and> moved r2 r' 0" for k' ks''
    by (rule Suc.IH)
  then show ?case using t v by (fastforce simp: moved_def split: option.split)
qed auto

interpretation keyframes: script_handler data "flv_metadata_keyframe_handler D data" bound True for data D bound
proof
  fix r :: FlvScriptDataReader and nm :: "string option" and t and s :: FlvMetadata
  assume r: "rd_end r \<le> length data" and nm: "True \<Longrightarrow> nm = None \<Longrightarrow> t = FLV_SCRIPT_DATA_TYPE_TERMINATOR"
  obtain n r1 where n: "flv_script_data_read_ui32 data r = Some (n, r1)" "moved r r1 0"
    using read_ui32_total [OF r] by blast
  then have "rd_end r1 \<le> length data" using r by (simp add: moved_def)
  then have loop: "\<exists>ok r' ks'. keyframe_loop k D data w i r1 ks = Some (ok, r', ks') \<and> moved r r' 0" for k w i ks
    using n(2) keyframe_loop_total [of r1 data k D w i ks] by (auto simp: moved_def)
  have "\<exists>ok r' ks'. flv_script_read_keyframe_array D data r (Some name) ks = Some (ok, r', ks') \<and> moved r r' 0" for name ks
    using n loop by (cases n) (auto simp: flv_script_read_keyframe_array_def Let_def simp del: keyframe_loop.simps)
  then obtain ok r' ks' where "flv_script_read_keyframe_array D data r (Some (the nm))
      (case md_keyframes s of None \<Rightarrow> [] | Some ks \<Rightarrow> ks) = Some (ok, r', ks')" "moved r r' 0" by blast
  then show "\<exists>ok r' s'. flv_metadata_keyframe_handler D data r nm t s = Some (ok, r', s') \<and> moved r r' 0"
    using nm by (cases nm) (auto simp: flv_metadata_keyframe_handler_def script_types)
qed

lemma stored_total:
  assumes "x = Some (v, r')" "moved r r' 0"
  shows "\<exists>ok r' s'. stored x (Some name) f s = Some (ok, r', s') \<and> moved r r' 0"
  using assms by (cases v) (auto simp: stored_def)

interpretation metadata: script_handler data "flv_metadata_value_handler D data" bound True for data D bound
proof
  fix r :: FlvScriptDataReader and nm :: "string option" and t and m :: FlvMetadata
  assume r: "rd_end r \<le> length data" and inside: "rd_position r \<le> rd_end r"
    and nm: "True \<Longrightarrow> nm = None \<Longrightarrow> t = FLV_SCRIPT_DATA_TYPE_TERMINATOR"
  have st: "\<exists>ok r' m'. stored (flv_script_data_read_double data r) (Some name) f m = Some (ok, r', m') \<and> moved r r' 0"
    "\<exists>ok r' m'. stored (flv_script_data_read_ui8 data r) (Some name) g m = Some (ok, r', m') \<and> moved r r' 0"
    "\<exists>ok r' m'. stored (flv_script_data_read_string data r long) (Some name) h m = Some (ok, r', m') \<and> moved r r' 0"
    for name long and f g :: "string \<Rightarrow> nat \<Rightarrow> FlvMetadata \<Rightarrow> FlvMetadata" and h
    using read_double_total [OF r] read_ui8_total [OF r] read_string_total [OF r] stored_total by metis+
  have le: "rd_end r - rd_position r \<le> rd_end r - rd_position r" ..
  note total = keyframes.object_total [OF r le, of D m] skip_any.object_total [OF r le, of m]
    skip_any.ecma_total [OF r le, of m] skip_any.strict_array_total [OF _ r le, of m]
  show "\<exists>ok r' s'. flv_metadata_value_handler D data r nm t m = Some (ok, r', s') \<and> moved r r' 0"
  proof (cases nm)
    case None
    then show ?thesis using nm by (auto simp: flv_metadata_value_handler_def script_types)
  next
    case (Some name)
    then show ?thesis using st total inside by (auto simp: flv_metadata_value_handler_def script_types)
  qed
qed

lemma script_data_read_moves:
  assumes "rd_end r \<le> length data"
  shows "\<exists>ok r' m'. flv_script_data_read D data r m = Some (ok, r', m') \<and> moved r r' 0"
proof -
  obtain t r1 where t: "flv_script_data_read_ui8 data r = Some (t, r1)" "moved r r1 0"
    using read_ui8_total [OF assms] by metis
  then have "rd_end r1 \<le> length data" using assms by (simp add: moved_def)
  then obtain str r2 where str: "flv_script_data_read_string data r1 False = Some (str, r2)" "moved r1 r2 0"
    using read_string_total by metis
  then have "rd_end r2 \<le> length data" using \<open>rd_end r1 \<le> length data\<close> by (simp add: moved_def)
  then obtain t' r3 where t': "flv_script_data_read_ui8 data r2 = Some (t', r3)" "moved r2 r3 0"
    using read_ui8_total by metis
  then have "rd_end r3 \<le> length data" using \<open>rd_end r2 \<le> length data\<close> by (simp add: moved_def)
  then have "\<exists>ok r' m''. flv_script_data_read_ecma data (flv_metadata_value_handler D data) r3 m' = Some (ok, r', m'') \<and>
      moved r3 r' 0" for m'
    using metadata.ecma_total [of r3 data _ D m'] by blast
  then obtain ok r4 m4 where e: "flv_script_data_read_ecma data (flv_metadata_value_handler D data) r3
      (if md_tag_list m = None then m\<lparr>md_tag_list := Some Map.empty\<rparr> else m) = Some (ok, r4, m4)" "moved r3 r4 0"
    by blast
  have m: "moved r r2 0" "moved r r3 0" "moved r r4 0" using t(2) str(2) t'(2) e(2) by (auto simp: moved_def)
  consider "t \<noteq> Some FLV_SCRIPT_DATA_TYPE_STRING" | "t = Some FLV_SCRIPT_DATA_TYPE_STRING" "str \<noteq> Some ''onMetaData''"
    | "t = Some FLV_SCRIPT_DATA_TYPE_STRING" "str = Some ''onMetaData''" "t' \<noteq> Some FLV_SCRIPT_DATA_TYPE_ECMA"
    | "t = Some FLV_SCRIPT_DATA_TYPE_STRING" "str = Some ''onMetaData''" "t' = Some FLV_SCRIPT_DATA_TYPE_ECMA" by blast
  then show ?thesis
    by cases (use t str(1) t'(1) e(1) m in \<open>auto simp: flv_script_data_read_def Let_def\<close>)
qed

text \<open>
  C19: reading script data is total and stays inside the tag. For every content of a script tag,
  every reader inside it, every registry of tags and every metadata so far, flv_script_data_read
  returns: every access is checked against the buffer, which may end where the tag ends, so no byte
  outside the tag is read, no NULL name is compared, every loop ends, and the recursion of the skip
  handler is bounded by the bytes left. The reader never moves back, keeps its end, and is left at
  most ten bytes past it (a date in the last place is skipped without a test), where nothing more is
  read. The one thing a tag can still break is gst_tag_list_add: a string under a name that is
  registered for objects is marked in \<open>md_misread\<close> (\<open>add_string_tag\<close>).
\<close>

theorem flv_script_data_read_total:
  assumes "rd_end r \<le> length data" "rd_position r \<le> rd_end r"
  shows "\<exists>ok r' m'. flv_script_data_read D data r m = Some (ok, r', m') \<and>
    rd_end r' = rd_end r \<and> rd_position r \<le> rd_position r' \<and> rd_position r' \<le> rd_end r + 10"
  using script_data_read_moves [OF assms(1), of D m] assms(2) by (fastforce simp: moved_def)

theorem flv_script_data_read_total_witness:
  "\<exists>ok r' m'. flv_script_data_read demo_doubles [2, 0, 200, 3]
     \<lparr>rd_position = 0, rd_end = 4\<rparr> flv_metadata_new = Some (ok, r', m') \<and>
     rd_end r' = rd_end \<lparr>rd_position = 0, rd_end = 4\<rparr> \<and> rd_position \<lparr>rd_position = 0, rd_end = 4\<rparr> \<le> rd_position r' \<and>
     rd_position r' \<le> rd_end \<lparr>rd_position = 0, rd_end = 4\<rparr> + 10"
  by (rule flv_script_data_read_total) simp_all

end
