(* ===== verification/Flv_Demux.thy ===== *)
theory Flv_Demux
  imports Flv_Script
begin

text \<open>
  The FLV demuxer (gstreamer/plugins/vp6/flvdemux.c): it feeds the parser block by block from the
  bytes pushed to it (\<open>flv_demux_chain\<close>) or pulled by it (\<open>flv_demux_loop\<close>), creates an audio and a
  video pad, turns tag bodies into timestamped buffers, keeps the sorted keyframe index and seeks
  with it. What the element does to the pipeline is a log of outputs; what the pipeline answers to each
  call is the parameter \<open>gst_env\<close>, a function of the log so far. The bytes held by the \<open>GstAdapter\<close> are
  a list beside the element's record.
\<close>

section \<open>The pipeline around the element\<close>

datatype GstFlowReturn = GST_FLOW_OK | GST_FLOW_NOT_LINKED | GST_FLOW_FLUSHING | GST_FLOW_EOS | GST_FLOW_ERROR

datatype src_pad = Audio_Pad | Video_Pad

datatype caps_value = C_int int | C_bool bool | C_fraction int int

record GstSegment =
  seg_start :: nat
  seg_position :: nat
  seg_report :: bool

record GstBuffer =
  buf_data :: "byte list"
  buf_timestamp :: nat
  buf_duration :: nat
  buf_offset :: nat
  buf_offset_end :: nat
  buf_delta_unit :: bool
  buf_discont :: bool

datatype gst_output =
    Out_Caps src_pad string "(string \<times> caps_value) list"
  | Out_Tags "string \<rightharpoonup> tag_value"
  | Out_Segment src_pad GstSegment
  | Out_Buffer src_pad GstBuffer
  | Out_Add_Pad src_pad
  | Out_No_More_Pads
  | Out_Warning string
  | Out_Error
  | Out_Event src_pad string
  | Out_Upstream string
  | Out_Default_Event string
  | Out_Segment_Start nat
  | Out_Seek_Bytes nat
  | Out_Pause_Task
  | Out_Stop_Task
  | Out_Start_Task

record gst_env =
  e_active :: "gst_output list \<Rightarrow> bool"
  e_event :: "gst_output list \<Rightarrow> bool"
  e_add_pad :: "gst_output list \<Rightarrow> bool"
  e_alloc :: "gst_output list \<Rightarrow> bool"
  e_map :: "gst_output list \<Rightarrow> bool"
  e_push :: "gst_output list \<Rightarrow> GstFlowReturn"
  e_doubles :: double_ops

record FlvDemux =
  dx_parser :: FlvParser
  dx_need_parser_flush :: bool
  dx_is_pulling :: bool
  dx_has_video :: bool
  dx_has_audio :: bool
  dx_metadata :: FlvMetadata
  dx_queued_tags :: "(string \<rightharpoonup> tag_value) option"
  dx_last_file_position :: nat
  dx_current_timestamp :: nat
  dx_keyframes :: "FlvKeyframe list"
  dx_copied_metadata_keyframes :: bool
  dx_segment :: GstSegment
  dx_is_flushing :: bool
  dx_is_eos_received :: bool
  dx_audio_src_pad :: bool
  dx_video_src_pad :: bool
  dx_sound_format :: nat
  dx_audio_linked :: bool
  dx_audio_offset :: nat
  dx_audio_discont :: bool
  dx_audio_prev_timestamp :: nat
  dx_audio_frame_duration :: nat
  dx_video_codec_id :: nat
  dx_video_linked :: bool
  dx_video_offset :: nat
  dx_video_discont :: bool
  dx_video_prev_timestamp :: nat
  dx_video_frame_duration :: nat
  dx_log :: "gst_output list"

definition FLVDEMUX_AUDIO_FORMAT_MP3 :: nat where "FLVDEMUX_AUDIO_FORMAT_MP3 = 2"
definition FLVDEMUX_VIDEO_FORMAT_VP6 :: nat where "FLVDEMUX_VIDEO_FORMAT_VP6 = 4"
definition FLVDEMUX_VIDEO_FORMAT_VP6_ALPHA :: nat where "FLVDEMUX_VIDEO_FORMAT_VP6_ALPHA = 5"
definition FLV_VIDEO_FRAME_KEY :: nat where "FLV_VIDEO_FRAME_KEY = 1"
definition GST_MSECOND :: nat where "GST_MSECOND = 1000000"
definition GST_SECOND :: nat where "GST_SECOND = 1000000000"

definition flv_demux_init :: FlvDemux where
  "flv_demux_init = \<lparr>dx_parser = flv_parser_init, dx_need_parser_flush = False, dx_is_pulling = False,
     dx_has_video = False, dx_has_audio = False, dx_metadata = flv_metadata_new, dx_queued_tags = None,
     dx_last_file_position = 0, dx_current_timestamp = GST_CLOCK_TIME_NONE, dx_keyframes = [],
     dx_copied_metadata_keyframes = False, dx_segment = \<lparr>seg_start = 0, seg_position = 0, seg_report = False\<rparr>,
     dx_is_flushing = False, dx_is_eos_received = False, dx_audio_src_pad = False, dx_video_src_pad = False,
     dx_sound_format = 0, dx_audio_linked = False, dx_audio_offset = 0, dx_audio_discont = True,
     dx_audio_prev_timestamp = GST_CLOCK_TIME_NONE, dx_audio_frame_duration = GST_CLOCK_TIME_NONE,
     dx_video_codec_id = 0, dx_video_linked = False, dx_video_offset = 0, dx_video_discont = True,
     dx_video_prev_timestamp = GST_CLOCK_TIME_NONE, dx_video_frame_duration = GST_CLOCK_TIME_NONE, dx_log = []\<rparr>"

definition emit :: "gst_output \<Rightarrow> FlvDemux \<Rightarrow> FlvDemux" where
  "emit x f = f\<lparr>dx_log := dx_log f @ [x]\<rparr>"

section \<open>The keyframe index\<close>

definition compare_keyframes :: "FlvKeyframe \<Rightarrow> FlvKeyframe \<Rightarrow> int" where
  "compare_keyframes a b = (if kf_time a < kf_time b then -1 else if kf_time a = kf_time b then 0 else 1)"

text \<open>\<open>g_list_find_custom\<close> and \<open>g_list_insert_sorted\<close> of GLib.\<close>

definition g_list_find_custom :: "FlvKeyframe list \<Rightarrow> FlvKeyframe \<Rightarrow> FlvKeyframe option" where
  "g_list_find_custom ks k = find (\<lambda>e. compare_keyframes e k = 0) ks"

fun g_list_insert_sorted :: "FlvKeyframe list \<Rightarrow> FlvKeyframe \<Rightarrow> FlvKeyframe list" where
  "g_list_insert_sorted [] k = [k]"
| "g_list_insert_sorted (e # ks) k =
    (if compare_keyframes k e > 0 then e # g_list_insert_sorted ks k else k # e # ks)"

definition flv_demux_index_add_entry :: "nat \<Rightarrow> nat \<Rightarrow> FlvKeyframe list \<Rightarrow> FlvKeyframe list" where
  "flv_demux_index_add_entry index_time index_pos ks =
    (let frame = \<lparr>kf_time = index_time, kf_fileposition = index_pos\<rparr>
     in if g_list_find_custom ks frame = None then g_list_insert_sorted ks frame else ks)"

text \<open>
  The scan of the index, with the entry before the current one: \<open>Some None\<close> when it ran off the end,
  \<open>None\<close> for a NULL \<open>prev\<close> pointer.
\<close>

fun index_scan :: "nat \<Rightarrow> FlvKeyframe option \<Rightarrow> FlvKeyframe list \<Rightarrow> FlvKeyframe option option" where
  "index_scan t prv [] = Some None"
| "index_scan t prv (e # ks) =
    (if kf_time e = t then Some (Some e)
     else if kf_time e > t then map_option Some prv
     else index_scan t (Some e) ks)"

definition flv_demux_index_lookup :: "nat \<Rightarrow> FlvKeyframe list \<Rightarrow> FlvKeyframe option option" where
  "flv_demux_index_lookup t ks =
    (if ks = [] then Some None
     else if kf_time (hd ks) > t then Some None
     else if kf_time (last ks) < t then Some None
     else index_scan t None ks)"

definition index_add :: "nat \<Rightarrow> nat \<Rightarrow> FlvDemux \<Rightarrow> FlvDemux" where
  "index_add t pos f = f\<lparr>dx_keyframes := flv_demux_index_add_entry t pos (dx_keyframes f)\<rparr>"

section \<open>Audio\<close>

definition audio_rate :: "nat \<Rightarrow> int" where
  "audio_rate r = (if r = 0 then 5500 else if r = 1 then 11025 else if r = 2 then 22050 else if r = 3 then 44100 else 0)"

definition push_event :: "gst_env \<Rightarrow> gst_output \<Rightarrow> FlvDemux \<Rightarrow> bool \<times> FlvDemux" where
  "push_event E x f = (e_event E (dx_log f), emit x f)"

definition queue_tag :: "string \<Rightarrow> string \<Rightarrow> FlvDemux \<Rightarrow> FlvDemux" where
  "queue_tag name v f = f\<lparr>dx_queued_tags :=
     Some ((case dx_queued_tags f of None \<Rightarrow> Map.empty | Some t \<Rightarrow> t)(name \<mapsto> Tag_String v))\<rparr>"

definition push_tags :: "FlvDemux \<Rightarrow> FlvDemux" where
  "push_tags f = (case dx_queued_tags f of None \<Rightarrow> f | Some t \<Rightarrow> (emit (Out_Tags t) f)\<lparr>dx_queued_tags := None\<rparr>)"

definition flv_demux_negotiate_audio_caps ::
    "gst_env \<Rightarrow> nat \<Rightarrow> nat \<Rightarrow> bool \<Rightarrow> FlvDemux \<Rightarrow> bool \<times> FlvDemux" where
  "flv_demux_negotiate_audio_caps E format rate stereo f =
    (let mp3 = format = FLVDEMUX_AUDIO_FORMAT_MP3;
         caps = (if mp3
                 then Out_Caps Audio_Pad ''audio/mpeg'' [(''mpegversion'', C_int 1), (''layer'', C_int 3),
                        (''framed'', C_bool False), (''rate'', C_int (audio_rate rate)),
                        (''channels'', C_int (if stereo then 2 else 1))]
                 else Out_Caps Audio_Pad ''audio/unsupported'' []);
         (result, f) = push_event E caps f
     in if result
        then let f = queue_tag ''audio-codec'' (if mp3 then ''MPEG 1 Audio'' else ''Unsupported'')
                       (f\<lparr>dx_sound_format := format\<rparr>)
             in (True, if \<not> dx_has_video f \<or> dx_video_linked f then push_tags f else f)
        else (False, f))"

text \<open>Creating the audio pad: \<open>Inl\<close> is an early return with an error.\<close>

definition open_audio_pad :: "gst_env \<Rightarrow> FlvAudioTag \<Rightarrow> FlvDemux \<Rightarrow> FlvDemux + FlvDemux" where
  "open_audio_pad E tag f =
    (if dx_audio_src_pad f then Inr f
     else let f = f\<lparr>dx_audio_src_pad := True\<rparr>
          in if \<not> e_active E (dx_log f) then Inl f
             else let (ok, f) = flv_demux_negotiate_audio_caps E (sound_format tag) (sampling_rate tag) (is_stereo tag) f
                  in if \<not> ok then Inl (f\<lparr>dx_audio_src_pad := False\<rparr>)
                     else if \<not> e_add_pad E (dx_log f) then Inl f
                     else let f = emit (Out_Add_Pad Audio_Pad) f
                          in Inr (if dx_video_src_pad f \<or> \<not> dx_has_video f then emit Out_No_More_Pads f else f))"

definition frame_duration :: "nat \<Rightarrow> nat \<Rightarrow> bool \<Rightarrow> nat \<Rightarrow> nat" where
  "frame_duration now prev discont duration =
    (if prev \<noteq> GST_CLOCK_TIME_NONE \<and> \<not> discont \<and>
        (duration = GST_CLOCK_TIME_NONE \<or> duration < sub64 now prev)
     then sub64 now prev else duration)"

definition push_audio :: "gst_env \<Rightarrow> byte list \<Rightarrow> FlvAudioTag \<Rightarrow> FlvDemux \<Rightarrow> (GstFlowReturn \<times> FlvDemux) option" where
  "push_audio E data tag f =
    (if \<not> e_alloc E (dx_log f) then Some (GST_FLOW_ERROR, f)
     else let now = dx_current_timestamp f;
              f = f\<lparr>dx_audio_frame_duration :=
                      frame_duration now (dx_audio_prev_timestamp f) (dx_audio_discont f) (dx_audio_frame_duration f),
                    dx_audio_prev_timestamp := now\<rparr>
          in if \<not> e_map E (dx_log f) then Some (GST_FLOW_ERROR, f)
             else do {
               packet \<leftarrow> copy_bytes data (audio_packet_offset tag) (audio_packet_size tag);
               let offset_end = (dx_audio_offset f + 1) mod 2 ^ 32;
               let out = \<lparr>buf_data = packet, buf_timestamp = now, buf_duration = dx_audio_frame_duration f,
                          buf_offset = dx_audio_offset f, buf_offset_end = offset_end,
                          buf_delta_unit = False, buf_discont = dx_audio_discont f\<rparr>;
               let f = f\<lparr>dx_audio_offset := offset_end, dx_segment := (dx_segment f)\<lparr>seg_position := now\<rparr>\<rparr>;
               let f = (if dx_audio_discont f
                        then (emit (Out_Segment Audio_Pad (dx_segment f)) f)\<lparr>dx_audio_discont := False\<rparr> else f);
               let f = (if \<not> dx_has_video f then index_add now (dx_last_file_position f) f else f);
               let result = e_push E (dx_log f);
               let f = emit (Out_Buffer Audio_Pad out) f;
               Some (result, f\<lparr>dx_audio_linked :=
                 (if result = GST_FLOW_OK then True else if result = GST_FLOW_NOT_LINKED then False
                  else dx_audio_linked f)\<rparr>) })"

definition no_audio_tag :: FlvAudioTag where
  "no_audio_tag = \<lparr>sound_format = 0, sampling_rate = 0, is_16bit = False, is_stereo = False,
     audio_packet_offset = 0, audio_packet_size = 0\<rparr>"

definition flv_demux_parse_audio_tag ::
    "gst_env \<Rightarrow> byte list \<Rightarrow> FlvDemux \<Rightarrow> (GstFlowReturn \<times> FlvDemux) option" where
  "flv_demux_parse_audio_tag E data f =
    do { (res, p, tag) \<leftarrow> flv_parser_read_audio_tag data (dx_parser f) no_audio_tag;
         let f = f\<lparr>dx_parser := p\<rparr>;
         if res \<noteq> FLV_PARSER_OK then Some (GST_FLOW_ERROR, f)
         else case open_audio_pad E tag (f\<lparr>dx_has_audio := True\<rparr>) of
             Inl f \<Rightarrow> Some (GST_FLOW_ERROR, f)
           | Inr f \<Rightarrow>
               if sound_format tag \<noteq> FLVDEMUX_AUDIO_FORMAT_MP3
               then let f = (if dx_audio_prev_timestamp f = GST_CLOCK_TIME_NONE
                             then emit (Out_Warning ''No audio decoder for this encoding'') f else f)
                    in Some (GST_FLOW_OK, f\<lparr>dx_audio_prev_timestamp := dx_current_timestamp f\<rparr>)
               else push_audio E data tag
                      (if dx_sound_format f \<noteq> sound_format tag
                       then snd (flv_demux_negotiate_audio_caps E (sound_format tag) (sampling_rate tag)
                                   (is_stereo tag) f) else f) }"

section \<open>Video\<close>

definition flv_video_mime_type :: "string list" where
  "flv_video_mime_type = replicate 4 ''video/unsupported'' @ [''video/x-vp6-flash'', ''video/x-vp6-alpha''] @
     replicate 10 ''video/unsupported''"

definition flv_video_codec_name :: "string list" where
  "flv_video_codec_name = replicate 4 ''Unsupported'' @ [''On2 VP6 Video'', ''On2 VP6-Alpha Video''] @
     replicate 10 ''Unsupported''"

text \<open>A double is zero when it is the pattern of 0 or of -0.\<close>

definition video_caps :: "double_ops \<Rightarrow> FlvMetadata \<Rightarrow> (string \<times> caps_value) list" where
  "video_caps D m =
     (if md_width m \<noteq> 0 then [(''width'', C_int (md_width m))] else []) @
     (if md_height m \<noteq> 0 then [(''height'', C_int (md_height m))] else []) @
     (if md_framerate m \<noteq> 0 \<and> md_framerate m \<noteq> 2 ^ 63
      then [(''framerate'', C_fraction (d_centi D (md_framerate m)) 100)] else []) @
     (if md_par_x m \<noteq> 0 \<and> md_par_y m \<noteq> 0
      then [(''pixel-aspect-ratio'', C_fraction (md_par_x m) (md_par_y m))] else [])"

definition flv_demux_negotiate_video_caps :: "gst_env \<Rightarrow> nat \<Rightarrow> FlvDemux \<Rightarrow> (bool \<times> FlvDemux) option" where
  "flv_demux_negotiate_video_caps E codec f =
    do { mime \<leftarrow> rd flv_video_mime_type (int codec); codec_name \<leftarrow> rd flv_video_codec_name (int codec);
         let (result, f) = push_event E (Out_Caps Video_Pad mime (video_caps (e_doubles E) (dx_metadata f))) f;
         Some (if result
               then let f = queue_tag ''video-codec'' codec_name (f\<lparr>dx_video_codec_id := codec\<rparr>)
                    in (True, if \<not> dx_has_audio f \<or> dx_audio_linked f then push_tags f else f)
               else (False, f)) }"

definition open_video_pad :: "gst_env \<Rightarrow> FlvVideoTag \<Rightarrow> FlvDemux \<Rightarrow> (FlvDemux + FlvDemux) option" where
  "open_video_pad E tag f =
    (if dx_video_src_pad f then Some (Inr f)
     else let f = f\<lparr>dx_video_src_pad := True\<rparr>
          in if \<not> e_active E (dx_log f) then Some (Inl f)
             else do {
               (ok, f) \<leftarrow> flv_demux_negotiate_video_caps E (codec_id tag) f;
               Some (if \<not> ok then Inl (f\<lparr>dx_video_src_pad := False\<rparr>)
                     else if \<not> e_add_pad E (dx_log f) then Inl f
                     else let f = emit (Out_Add_Pad Video_Pad) f
                          in Inr (if dx_audio_src_pad f \<or> \<not> dx_has_audio f then emit Out_No_More_Pads f else f)) })"

definition push_video :: "gst_env \<Rightarrow> byte list \<Rightarrow> FlvVideoTag \<Rightarrow> FlvDemux \<Rightarrow> (GstFlowReturn \<times> FlvDemux) option" where
  "push_video E data tag f =
    (if \<not> e_alloc E (dx_log f) then Some (GST_FLOW_ERROR, f)
     else let now = dx_current_timestamp f; is_keyframe = frame_type tag = FLV_VIDEO_FRAME_KEY;
              f = f\<lparr>dx_video_frame_duration :=
                      frame_duration now (dx_video_prev_timestamp f) (dx_video_discont f) (dx_video_frame_duration f),
                    dx_video_prev_timestamp := now\<rparr>
          in if \<not> e_map E (dx_log f) then Some (GST_FLOW_ERROR, f)
             else do {
               packet \<leftarrow> copy_bytes data (video_packet_offset tag) (video_packet_size tag);
               let offset_end = (dx_video_offset f + 1) mod 2 ^ 32;
               let out = \<lparr>buf_data = packet, buf_timestamp = now, buf_duration = dx_video_frame_duration f,
                          buf_offset = dx_video_offset f, buf_offset_end = offset_end,
                          buf_delta_unit = (\<not> is_keyframe), buf_discont = dx_video_discont f\<rparr>;
               let f = f\<lparr>dx_video_offset := offset_end, dx_segment := (dx_segment f)\<lparr>seg_position := now\<rparr>\<rparr>;
               let f = (if dx_video_discont f
                        then (emit (Out_Segment Video_Pad (dx_segment f)) f)\<lparr>dx_video_discont := False\<rparr> else f);
               let f = (if is_keyframe then index_add now (dx_last_file_position f) f else f);
               let result = e_push E (dx_log f);
               let f = emit (Out_Buffer Video_Pad out) f;
               Some (result, f\<lparr>dx_video_linked :=
                 (if result = GST_FLOW_OK then True else if result = GST_FLOW_NOT_LINKED then False
                  else dx_video_linked f)\<rparr>) })"

definition no_video_tag :: FlvVideoTag where
  "no_video_tag = \<lparr>codec_id = 0, frame_type = 0, video_packet_offset = 0, video_packet_size = 0\<rparr>"

definition flv_demux_parse_video_tag ::
    "gst_env \<Rightarrow> byte list \<Rightarrow> FlvDemux \<Rightarrow> (GstFlowReturn \<times> FlvDemux) option" where
  "flv_demux_parse_video_tag E data f =
    do { (res, p, tag) \<leftarrow> flv_parser_read_video_tag data (dx_parser f) no_video_tag;
         let f = f\<lparr>dx_parser := p\<rparr>;
         if res \<noteq> FLV_PARSER_OK then Some (GST_FLOW_ERROR, f)
         else do {
           let f = f\<lparr>dx_has_video := True\<rparr>;
           let need_push_tags = (\<not> dx_video_src_pad f);
           opened \<leftarrow> open_video_pad E tag f;
           case opened of
             Inl f \<Rightarrow> Some (GST_FLOW_ERROR, f)
           | Inr f \<Rightarrow>
               if codec_id tag \<noteq> FLVDEMUX_VIDEO_FORMAT_VP6 \<and> codec_id tag \<noteq> FLVDEMUX_VIDEO_FORMAT_VP6_ALPHA
               then let f = (if dx_video_prev_timestamp f = GST_CLOCK_TIME_NONE
                             then emit (Out_Warning ''No video decoder for this encoding'') f else f)
                    in Some (GST_FLOW_OK, f\<lparr>dx_video_prev_timestamp := dx_current_timestamp f\<rparr>)
               else do {
                 f \<leftarrow> (if dx_video_codec_id f \<noteq> codec_id tag
                       then map_option snd (flv_demux_negotiate_video_caps E (codec_id tag) f) else Some f);
                 push_video E data tag (if need_push_tags then push_tags f else f) } } }"

section \<open>Blocks\<close>

definition clock_of_ms :: "int \<Rightarrow> nat" where
  "clock_of_ms ts = nat ((ts * int GST_MSECOND) mod 2 ^ 64)"

definition no_header :: FlvHeader where
  "no_header = \<lparr>file_version = 0, has_audio_tags = False, has_video_tags = False\<rparr>"

definition no_prefix :: FlvTagPrefix where
  "no_prefix = \<lparr>tag_type = 0, body_size = 0, tag_timestamp = 0\<rparr>"

text \<open>The queue after the metadata's tags are added to it.\<close>

definition merge_tags :: "(string \<rightharpoonup> tag_value) option \<Rightarrow> (string \<rightharpoonup> tag_value) \<Rightarrow> (string \<rightharpoonup> tag_value) option" where
  "merge_tags queued tags = Some (case queued of None \<Rightarrow> tags | Some q \<Rightarrow> q ++ tags)"

definition copy_keyframes :: "FlvDemux \<Rightarrow> FlvDemux" where
  "copy_keyframes f =
    (case md_keyframes (dx_metadata f) of
       None \<Rightarrow> f
     | Some ks \<Rightarrow>
         if dx_copied_metadata_keyframes f then f
         else (fold (\<lambda>k. index_add (kf_time k) (kf_fileposition k)) ks f)\<lparr>dx_copied_metadata_keyframes := True\<rparr>)"

definition flv_demux_parse_script_tag ::
    "gst_env \<Rightarrow> byte list \<Rightarrow> FlvDemux \<Rightarrow> (GstFlowReturn \<times> FlvDemux) option" where
  "flv_demux_parse_script_tag E data f =
    (let (res, p, reader) = flv_parser_read_script_data_tag data (dx_parser f) \<lparr>rd_position = 0, rd_end = 0\<rparr>;
         f = f\<lparr>dx_parser := p\<rparr>
     in if res \<noteq> FLV_PARSER_OK then Some (GST_FLOW_ERROR, f)
        else do {
          (ok, reader, m) \<leftarrow> flv_script_data_read (e_doubles E) data reader (dx_metadata f);
          let f = f\<lparr>dx_metadata := m\<rparr>;
          let f = (case md_tag_list m of
                     Some tags \<Rightarrow> if ok then f\<lparr>dx_queued_tags := merge_tags (dx_queued_tags f) tags\<rparr> else f
                   | None \<Rightarrow> f);
          Some (GST_FLOW_OK, copy_keyframes f) })"

definition flv_demux_parse_block ::
    "gst_env \<Rightarrow> byte list \<Rightarrow> FlvDemux \<Rightarrow> (GstFlowReturn \<times> FlvDemux) option" where
  "flv_demux_parse_block E data f =
    (case parser_state (dx_parser f) of
       FLV_PARSER_EXPECT_HEADER \<Rightarrow>
         do { (res, p, header) \<leftarrow> flv_parser_read_header data (dx_parser f) no_header;
              let f = f\<lparr>dx_parser := p\<rparr>;
              Some (if res = FLV_PARSER_OK
                    then (GST_FLOW_OK, f\<lparr>dx_has_audio := has_audio_tags header, dx_has_video := has_video_tags header\<rparr>)
                    else (GST_FLOW_ERROR, f)) }
     | FLV_PARSER_EXPECT_SKIP_BLOCK \<Rightarrow>
         (let (res, p) = flv_parser_skip data (dx_parser f)
          in Some (if res = FLV_PARSER_OK then GST_FLOW_OK else GST_FLOW_ERROR, f\<lparr>dx_parser := p\<rparr>))
     | FLV_PARSER_EXPECT_TAG_PREFIX \<Rightarrow>
         do { (res, p, tag) \<leftarrow> flv_parser_read_tag_prefix data (dx_parser f) no_prefix;
              let pos = file_position (dx_parser f);
              let f = f\<lparr>dx_parser := p\<rparr>;
              Some (if res = FLV_PARSER_OK
                    then (GST_FLOW_OK, f\<lparr>dx_current_timestamp := clock_of_ms (tag_timestamp tag),
                                        dx_last_file_position := pos\<rparr>)
                    else (GST_FLOW_ERROR, f)) }
     | FLV_PARSER_EXPECT_VIDEO_TAG_BODY \<Rightarrow> flv_demux_parse_video_tag E data f
     | FLV_PARSER_EXPECT_AUDIO_TAG_BODY \<Rightarrow> flv_demux_parse_audio_tag E data f
     | FLV_PARSER_EXPECT_SCRIPT_DATA_TAG_BODY \<Rightarrow> flv_demux_parse_script_tag E data f
     | FLV_PARSER_EOF \<Rightarrow> Some (GST_FLOW_ERROR, f))"

definition flv_demux_parse_next_block ::
    "gst_env \<Rightarrow> byte list \<Rightarrow> FlvDemux \<Rightarrow> (GstFlowReturn \<times> FlvDemux) option" where
  "flv_demux_parse_next_block E data f =
    do { (result, f) \<leftarrow> flv_demux_parse_block E data f;
         Some (result, if result = GST_FLOW_ERROR then emit Out_Error f else f) }"

section \<open>Push mode\<close>

text \<open>
  The loop of \<open>flv_demux_chain\<close> over the adapter's bytes. \<open>gst_adapter_map\<close> of zero bytes gives NULL
  and the loop tries again. Otherwise a round consumes a block, so one round per byte and
  the final test are enough fuel.
\<close>

fun chain_loop ::
    "nat \<Rightarrow> gst_env \<Rightarrow> FlvDemux \<Rightarrow> byte list \<Rightarrow> (GstFlowReturn \<times> FlvDemux \<times> byte list) option" where
  "chain_loop 0 E f adapter = None"
| "chain_loop (Suc fuel) E f adapter =
    (if length adapter \<ge> next_block_size (dx_parser f)
     then let n = next_block_size (dx_parser f) mod 2 ^ 32
          in if n = 0 then chain_loop fuel E f adapter
             else do {
               (result, f) \<leftarrow> flv_demux_parse_next_block E (take n adapter) f;
               if result \<noteq> GST_FLOW_OK then Some (result, f, drop n adapter)
               else chain_loop fuel E f (drop n adapter) }
     else Some (GST_FLOW_OK, f, adapter))"

declare chain_loop.simps [simp del]

definition flv_demux_chain ::
    "gst_env \<Rightarrow> nat \<Rightarrow> byte list \<Rightarrow> FlvDemux \<Rightarrow> byte list \<Rightarrow> (GstFlowReturn \<times> FlvDemux \<times> byte list) option" where
  "flv_demux_chain E offset buf f adapter =
    (if dx_is_flushing f \<or> dx_is_eos_received f then Some (GST_FLOW_FLUSHING, f, adapter)
     else let (f, adapter) =
            (if dx_need_parser_flush f
             then (f\<lparr>dx_need_parser_flush := False,
                     dx_parser := (if offset \<noteq> 0 then flv_parser_seek offset (dx_parser f)
                                   else flv_parser_reset (dx_parser f))\<rparr>, [])
             else (f, adapter));
            adapter = adapter @ buf
          in chain_loop (Suc (length adapter)) E f adapter)"

section \<open>Pull mode\<close>

text \<open>\<open>pull pos n\<close> is what \<open>gst_pad_pull_range\<close> answers: at the end of the stream it may return fewer bytes.\<close>

type_synonym pull_range = "nat \<Rightarrow> nat \<Rightarrow> GstFlowReturn \<times> byte list"

definition flv_demux_push_src_event :: "string \<Rightarrow> FlvDemux \<Rightarrow> FlvDemux" where
  "flv_demux_push_src_event name f =
    (let f = (if dx_audio_src_pad f then emit (Out_Event Audio_Pad name) f else f)
     in if dx_video_src_pad f then emit (Out_Event Video_Pad name) f else f)"

definition flv_demux_loop :: "gst_env \<Rightarrow> pull_range \<Rightarrow> FlvDemux \<Rightarrow> FlvDemux option" where
  "flv_demux_loop E pull f =
    do { let (result, block) = pull (file_position (dx_parser f)) (next_block_size (dx_parser f) mod 2 ^ 32);
         (result, f) \<leftarrow>
           (if result = GST_FLOW_OK
            then if e_map E (dx_log f) then flv_demux_parse_next_block E block f else Some (GST_FLOW_EOS, f)
            else Some (result, f));
         if result = GST_FLOW_OK then Some f
         else let f = emit Out_Pause_Task f
              in Some (if result = GST_FLOW_EOS then flv_demux_push_src_event ''eos'' f
                       else if result = GST_FLOW_ERROR then emit Out_Error f else f) }"

text \<open>One tag of the indexing loop; \<open>Inl\<close> is the end of the loop with its result.\<close>

definition index_tag ::
    "gst_env \<Rightarrow> pull_range \<Rightarrow> FlvParser \<Rightarrow> FlvDemux \<Rightarrow> (bool + nat \<times> FlvParser \<times> FlvDemux) option" where
  "index_tag E pull p f =
    (let pos = file_position p; (ret, block) = pull pos ((next_block_size p + 1) mod 2 ^ 32)
     in if ret \<noteq> GST_FLOW_OK \<or> \<not> e_map E (dx_log f) then Some (Inl False)
        else do {
          (res, p, tag) \<leftarrow> flv_parser_read_tag_prefix block p no_prefix;
          if res \<noteq> FLV_PARSER_OK then Some (Inl False)
          else do {
            let time = clock_of_ms (tag_timestamp tag);
            f \<leftarrow> (if tag_type tag = FLV_TAG_TYPE_VIDEO
                  then do { frame_info \<leftarrow> byte_at block (parsed_block_size p);
                            Some (if drop_bit 4 (frame_info AND 0xF0) = 1 then index_add time pos f else f) }
                  else if tag_type tag = FLV_TAG_TYPE_AUDIO \<and> \<not> dx_has_video f
                  then Some (index_add time pos f) else Some f);
            Some (Inr (time, flv_parser_seek (add64 (file_position p) (next_block_size p)) p, f)) } })"

text \<open>The loop pulls one tag per round; the fuel bounds the number of tags.\<close>

fun index_loop ::
    "nat \<Rightarrow> gst_env \<Rightarrow> pull_range \<Rightarrow> nat \<Rightarrow> nat \<Rightarrow> FlvParser \<Rightarrow> FlvDemux \<Rightarrow> (bool \<times> FlvDemux) option" where
  "index_loop 0 E pull time indexTo p f = None"
| "index_loop (Suc fuel) E pull time indexTo p f =
    (if time < indexTo
     then do { r \<leftarrow> index_tag E pull p f;
               case r of Inl ok \<Rightarrow> Some (ok, f) | Inr (time, p, f) \<Rightarrow> index_loop fuel E pull time indexTo p f }
     else Some (True, f))"

text \<open>\<open>junk\<close> is the indeterminate value of the local \<open>time\<close> when the lookup does not set it.\<close>

definition flv_demux_do_indexing_pull ::
    "nat \<Rightarrow> gst_env \<Rightarrow> pull_range \<Rightarrow> nat \<Rightarrow> nat \<Rightarrow> nat \<Rightarrow> FlvDemux \<Rightarrow> (bool \<times> FlvDemux) option" where
  "flv_demux_do_indexing_pull fuel E pull junk indexFrom indexTo f =
    do { found \<leftarrow> flv_demux_index_lookup indexFrom (dx_keyframes f);
         case found of
           Some k \<Rightarrow> index_loop fuel E pull (kf_time k) indexTo (flv_parser_seek (kf_fileposition k) flv_parser_init) f
         | None \<Rightarrow> index_loop fuel E pull junk indexTo flv_parser_init f }"

section \<open>Seeking\<close>

text \<open>A seek event; \<open>sk_do_seek\<close> is the effect of \<open>gst_segment_do_seek\<close> with its arguments.\<close>

record seek_event =
  sk_time_format :: bool
  sk_rate_positive :: bool
  sk_flush :: bool
  sk_key_unit :: bool
  sk_do_seek :: "GstSegment \<Rightarrow> GstSegment"

definition index_floor :: "nat \<Rightarrow> nat \<times> nat \<Rightarrow> FlvDemux \<Rightarrow> (nat \<times> nat) option" where
  "index_floor t dflt f =
    map_option (\<lambda>r. case r of Some k \<Rightarrow> (kf_time k, kf_fileposition k) | None \<Rightarrow> dflt)
      (flv_demux_index_lookup t (dx_keyframes f))"

definition seek_to_keyframe :: "seek_event \<Rightarrow> nat \<Rightarrow> GstSegment \<Rightarrow> GstSegment" where
  "seek_to_keyframe ev time seg =
    (if sk_key_unit ev
     then seg\<lparr>seg_start := (if time < seg_start seg then time else seg_start seg), seg_position := time\<rparr> else seg)"

definition take_segment :: "GstSegment \<Rightarrow> FlvDemux \<Rightarrow> FlvDemux" where
  "take_segment seg f =
    (let f = f\<lparr>dx_segment := seg\<rparr>;
         f = (if seg_report seg then emit (Out_Segment_Start (seg_position seg)) f else f)
     in f\<lparr>dx_audio_discont := True, dx_video_discont := True\<rparr>)"

text \<open>Finding the keyframe of a pull seek, indexing the file up to it when it is more than 5 seconds away.\<close>

definition seek_pull_position ::
    "nat \<Rightarrow> gst_env \<Rightarrow> pull_range \<Rightarrow> nat \<Rightarrow> nat \<Rightarrow> FlvDemux \<Rightarrow> (nat \<times> nat \<times> FlvDemux) option" where
  "seek_pull_position fuel E pull junk start f =
    do { (time, pos) \<leftarrow> index_floor start (0, 0) f;
         if sub64 start time > 5 * GST_SECOND
         then do { (ok, f) \<leftarrow> flv_demux_do_indexing_pull fuel E pull junk time start f;
                   (time, pos) \<leftarrow> index_floor start (time, pos) f;
                   Some (time, pos, f) }
         else Some (time, pos, f) }"

definition flv_demux_seek_pull ::
    "nat \<Rightarrow> gst_env \<Rightarrow> pull_range \<Rightarrow> nat \<Rightarrow> seek_event \<Rightarrow> FlvDemux \<Rightarrow> (bool \<times> FlvDemux) option" where
  "flv_demux_seek_pull fuel E pull junk ev f =
    (if \<not> sk_time_format ev \<or> \<not> sk_rate_positive ev then Some (False, f)
     else do {
       let f = (if sk_flush ev
                then emit (Out_Upstream ''flush-stop'')
                       (flv_demux_push_src_event ''flush-start'' (emit (Out_Upstream ''flush-start'') f)) else f);
       let seg = sk_do_seek ev (dx_segment f);
       (seg, f) \<leftarrow>
         (if sk_flush ev \<or> seg_position seg \<noteq> seg_position (dx_segment f)
          then do {
            (time, pos, f) \<leftarrow> seek_pull_position fuel E pull junk (seg_start seg) f;
            Some (seek_to_keyframe ev time seg,
                  f\<lparr>dx_parser := (if pos \<noteq> 0 then flv_parser_seek pos (dx_parser f)
                                  else flv_parser_reset (dx_parser f))\<rparr>) }
          else Some (seg, f));
       let f = (if sk_flush ev then flv_demux_push_src_event ''flush-stop'' f else f);
       Some (True, emit Out_Start_Task (take_segment seg f)) })"

definition flv_demux_seek_push ::
    "gst_env \<Rightarrow> seek_event \<Rightarrow> FlvDemux \<Rightarrow> (bool \<times> FlvDemux) option" where
  "flv_demux_seek_push E ev f =
    (if \<not> sk_time_format ev \<or> \<not> sk_rate_positive ev then Some (False, f)
     else do {
       let seg = sk_do_seek ev (dx_segment f);
       (res, seg, f) \<leftarrow>
         (if sk_flush ev \<or> seg_position seg \<noteq> seg_position (dx_segment f)
          then do {
            (time, pos) \<leftarrow> index_floor (seg_start seg) (0, 0) f;
            let (res, f) = push_event E (Out_Seek_Bytes pos) f;
            Some (res, seek_to_keyframe ev time seg, f) }
          else Some (True, seg, f));
       Some (res, if res then take_segment seg f else f) })"

section \<open>Events\<close>

datatype sink_event = Ev_Flush_Start | Ev_Flush_Stop | Ev_Eos | Ev_Range_Ready
  | Ev_Segment bool GstSegment | Ev_Other string

definition flv_demux_sink_event :: "sink_event \<Rightarrow> FlvDemux \<Rightarrow> FlvDemux" where
  "flv_demux_sink_event ev f =
    (case ev of
       Ev_Flush_Start \<Rightarrow> emit (Out_Default_Event ''flush-start'') (f\<lparr>dx_is_flushing := True\<rparr>)
     | Ev_Flush_Stop \<Rightarrow>
         emit (Out_Default_Event ''flush-stop'') (f\<lparr>dx_is_flushing := False, dx_need_parser_flush := True\<rparr>)
     | Ev_Eos \<Rightarrow> flv_demux_push_src_event ''eos'' (emit Out_No_More_Pads (f\<lparr>dx_is_eos_received := True\<rparr>))
     | Ev_Range_Ready \<Rightarrow> emit Out_Start_Task f
     | Ev_Segment time_format seg \<Rightarrow>
         (if time_format then f\<lparr>dx_segment := seg\<rparr> else f)
           \<lparr>dx_audio_discont := True, dx_video_discont := True, dx_is_eos_received := False\<rparr>
     | Ev_Other name \<Rightarrow> flv_demux_push_src_event name f)"

datatype src_event = Ev_Seek seek_event | Ev_Upstream string

definition flv_demux_src_event ::
    "nat \<Rightarrow> gst_env \<Rightarrow> pull_range \<Rightarrow> nat \<Rightarrow> src_event \<Rightarrow> FlvDemux \<Rightarrow> (bool \<times> FlvDemux) option" where
  "flv_demux_src_event fuel E pull junk ev f =
    (case ev of
       Ev_Seek seek \<Rightarrow> if dx_is_pulling f then flv_demux_seek_pull fuel E pull junk seek f
                       else flv_demux_seek_push E seek f
     | Ev_Upstream name \<Rightarrow> Some (push_event E (Out_Upstream name) f))"

definition flv_demux_ready_to_paused :: "FlvDemux \<Rightarrow> FlvDemux" where
  "flv_demux_ready_to_paused f =
     f\<lparr>dx_last_file_position := 0, dx_current_timestamp := 0, dx_need_parser_flush := True\<rparr>"

definition flv_demux_activatemode :: "bool \<Rightarrow> bool \<Rightarrow> FlvDemux \<Rightarrow> FlvDemux" where
  "flv_demux_activatemode pull_mode active f =
    (let f = f\<lparr>dx_is_pulling := pull_mode\<rparr>
     in if pull_mode then emit (if active then Out_Start_Task else Out_Stop_Task) f else f)"

definition flv_demux_sink_activate :: "bool \<Rightarrow> FlvDemux \<Rightarrow> FlvDemux" where
  "flv_demux_sink_activate peer_is_seekable f =
    (if peer_is_seekable then flv_demux_activatemode True True f else flv_demux_activatemode False True f)"

text \<open>Queries on a source pad: the demuxer answers, or the default handler or the upstream peer does.\<close>

datatype src_query = Qu_Duration bool | Qu_Other

datatype query_answer = Ans_Duration nat | Ans_Default | Ans_Peer

definition flv_demux_src_query :: "src_query \<Rightarrow> FlvDemux \<Rightarrow> query_answer" where
  "flv_demux_src_query q f =
    (case q of
       Qu_Duration time_format \<Rightarrow> if \<not> time_format then Ans_Default else Ans_Duration (md_duration (dx_metadata f))
     | Qu_Other \<Rightarrow> Ans_Peer)"

end
