(* ===== verification/Flv_Index.thy ===== *)
theory Flv_Index
  imports Flv_Demux
begin

text \<open>
  The keyframe index as a map from times to file positions: the sorted list of the demuxer refines
  it, adding an entry keeps the first position recorded for a time, and the lookup finds the last
  keyframe at or before a time that the index covers.
\<close>

section \<open>The abstract index\<close>

definition index_map :: "FlvKeyframe list \<Rightarrow> nat \<rightharpoonup> nat" where
  "index_map ks = map_of (map (\<lambda>k. (kf_time k, kf_fileposition k)) ks)"

definition index_sorted :: "FlvKeyframe list \<Rightarrow> bool" where
  "index_sorted ks \<longleftrightarrow> sorted_wrt (\<lambda>a b. kf_time a < kf_time b) ks"

definition add_first :: "nat \<Rightarrow> nat \<Rightarrow> (nat \<rightharpoonup> nat) \<Rightarrow> nat \<rightharpoonup> nat" where
  "add_first t pos m = (if m t = None then m(t \<mapsto> pos) else m)"

definition floor_key :: "(nat \<rightharpoonup> nat) \<Rightarrow> nat \<Rightarrow> FlvKeyframe option" where
  "floor_key m t =
    (if (\<exists>k \<in> dom m. k \<le> t) \<and> (\<exists>k \<in> dom m. t \<le> k)
     then let k = Max {k \<in> dom m. k \<le> t} in Some \<lparr>kf_time = k, kf_fileposition = the (m k)\<rparr>
     else None)"

locale keyframe_index =
  fixes add :: "nat \<Rightarrow> nat \<Rightarrow> 'ix \<Rightarrow> 'ix"
    and lookup :: "nat \<Rightarrow> 'ix \<Rightarrow> FlvKeyframe option option"
    and inv :: "'ix \<Rightarrow> bool"
    and abs :: "'ix \<Rightarrow> nat \<rightharpoonup> nat"
  assumes finite_abs: "finite (dom (abs ix))"
    and add_inv: "inv ix \<Longrightarrow> inv (add t pos ix)"
    and add_abs: "inv ix \<Longrightarrow> abs (add t pos ix) = add_first t pos (abs ix)"
    and lookup_abs: "inv ix \<Longrightarrow> lookup t ix = Some (floor_key (abs ix) t)"
begin

lemma lookup_total: "inv ix \<Longrightarrow> lookup t ix \<noteq> None"
  using lookup_abs by simp

lemma found_before:
  assumes "inv ix" "lookup t ix = Some (Some k)"
  shows "abs ix (kf_time k) = Some (kf_fileposition k)" "kf_time k \<le> t"
    "\<And>k'. k' \<in> dom (abs ix) \<Longrightarrow> k' \<le> t \<Longrightarrow> k' \<le> kf_time k"
proof -
  let ?S = "{k \<in> dom (abs ix). k \<le> t}"
  have f: "floor_key (abs ix) t = Some k" using assms lookup_abs by simp
  then have "?S \<noteq> {}" by (auto simp: floor_key_def split: if_splits)
  then have "Max ?S \<in> ?S" using finite_abs [of ix] by (intro Max_in) auto
  then show "abs ix (kf_time k) = Some (kf_fileposition k)" "kf_time k \<le> t"
    using f by (auto simp: floor_key_def Let_def split: if_splits)
  show "k' \<le> kf_time k" if "k' \<in> dom (abs ix)" "k' \<le> t" for k'
  proof -
    have "k' \<le> Max ?S" using that finite_abs [of ix] by (intro Max_ge) auto
    then show ?thesis using f by (auto simp: floor_key_def Let_def split: if_splits)
  qed
qed

lemma added_found:
  assumes "inv ix"
  shows "\<exists>p. lookup t (add t pos ix) = Some (Some \<lparr>kf_time = t, kf_fileposition = p\<rparr>)"
proof -
  let ?m = "abs (add t pos ix)"
  have d: "t \<in> dom ?m" using add_abs [OF assms] by (auto simp: add_first_def)
  have "Max {k \<in> dom ?m. k \<le> t} = t"
    using d finite_abs [of "add t pos ix"] by (intro Max_eqI) auto
  then have "floor_key ?m t = Some \<lparr>kf_time = t, kf_fileposition = the (?m t)\<rparr>"
    using d by (auto simp: floor_key_def)
  then show ?thesis using lookup_abs [OF add_inv [OF assms]] by simp
qed

lemma fold_add_inv: "inv ix \<Longrightarrow> inv (fold (\<lambda>k. add (kf_time k) (kf_fileposition k)) ks ix)"
  by (induction ks arbitrary: ix) (simp_all add: add_inv)

end

section \<open>The sorted list implements it\<close>

lemma index_map_Cons: "index_map (k # ks) = (index_map ks)(kf_time k \<mapsto> kf_fileposition k)"
  by (simp add: index_map_def)

lemma index_map_dom: "dom (index_map ks) = kf_time ` set ks"
  by (simp add: index_map_def dom_map_of_conv_image_fst image_image)

lemma index_sorted_Cons: "index_sorted (k # ks) \<longleftrightarrow> (\<forall>e \<in> set ks. kf_time k < kf_time e) \<and> index_sorted ks"
  by (simp add: index_sorted_def)

lemma find_None: "g_list_find_custom ks k = None \<longleftrightarrow> kf_time k \<notin> kf_time ` set ks"
  by (auto simp: g_list_find_custom_def find_None_iff compare_keyframes_def) (metis imageI)

lemma insert_set: "set (g_list_insert_sorted ks k) = insert k (set ks)"
  by (induction ks) auto

lemma insert_sorted:
  "index_sorted ks \<Longrightarrow> kf_time k \<notin> kf_time ` set ks \<Longrightarrow> index_sorted (g_list_insert_sorted ks k)"
  by (induction ks) (auto simp: index_sorted_Cons insert_set compare_keyframes_def split: if_splits)

lemma insert_map:
  "index_sorted ks \<Longrightarrow> kf_time k \<notin> kf_time ` set ks \<Longrightarrow>
   index_map (g_list_insert_sorted ks k) = (index_map ks)(kf_time k \<mapsto> kf_fileposition k)"
  by (induction ks) (auto simp: index_map_Cons index_sorted_Cons fun_upd_twist)

lemma scan_floor:
  assumes "index_sorted ks" "ks \<noteq> []" "t \<le> kf_time (last ks)"
    and "\<And>e. e \<in> set ks \<Longrightarrow> case prv of None \<Rightarrow> hd ks = e \<longrightarrow> kf_time e \<le> t | Some p \<Rightarrow> kf_time p < kf_time e"
    and "\<And>p. prv = Some p \<Longrightarrow> kf_time p < t"
  shows "\<exists>k. index_scan t prv ks = Some (Some k) \<and> kf_time k \<le> t \<and> (k \<in> set ks \<or> prv = Some k) \<and>
    (\<forall>e \<in> set ks. kf_time e \<le> t \<longrightarrow> kf_time e \<le> kf_time k)"
  using assms
proof (induction ks arbitrary: prv)
  case (Cons e ks)
  show ?case
  proof (cases "kf_time e < t")
    case True
    then have ne: "ks \<noteq> []" using Cons.prems(3) by auto
    then have "\<exists>k. index_scan t (Some e) ks = Some (Some k) \<and> kf_time k \<le> t \<and> (k \<in> set ks \<or> Some e = Some k) \<and>
        (\<forall>e' \<in> set ks. kf_time e' \<le> t \<longrightarrow> kf_time e' \<le> kf_time k)"
      using Cons.prems True by (intro Cons.IH) (auto simp: index_sorted_Cons)
    then obtain k where k: "index_scan t (Some e) ks = Some (Some k)" "kf_time k \<le> t" "k \<in> set ks \<or> e = k"
      "\<forall>e' \<in> set ks. kf_time e' \<le> t \<longrightarrow> kf_time e' \<le> kf_time k" by auto
    moreover have "kf_time e \<le> kf_time k" using k(3) Cons.prems(1) by (auto simp: index_sorted_Cons)
    ultimately show ?thesis using True by auto
  next
    case False
    have after: "\<not> kf_time e' \<le> t" if "e' \<in> set ks" for e'
      using that Cons.prems(1) False by (force simp: index_sorted_Cons)
    show ?thesis
    proof (cases "kf_time e = t")
      case False
      with \<open>\<not> kf_time e < t\<close> have gt: "t < kf_time e" by simp
      then obtain p where p: "prv = Some p" using Cons.prems(4) [of e] by (cases prv) auto
      then show ?thesis using Cons.prems(5) gt after by fastforce
    qed (use after in auto)
  qed
qed simp

lemma lookup_floor:
  assumes "index_sorted ks"
  shows "flv_demux_index_lookup t ks = Some (floor_key (index_map ks) t)"
proof (cases "ks \<noteq> [] \<and> kf_time (hd ks) \<le> t \<and> t \<le> kf_time (last ks)")
  case True
  then have "\<exists>k. index_scan t None ks = Some (Some k) \<and> kf_time k \<le> t \<and> (k \<in> set ks \<or> None = Some k) \<and>
      (\<forall>e \<in> set ks. kf_time e \<le> t \<longrightarrow> kf_time e \<le> kf_time k)"
    using assms by (intro scan_floor) auto
  then obtain k where k: "index_scan t None ks = Some (Some k)" "kf_time k \<le> t" "k \<in> set ks"
    "\<forall>e \<in> set ks. kf_time e \<le> t \<longrightarrow> kf_time e \<le> kf_time k" by auto
  have m: "index_map ks (kf_time k) = Some (kf_fileposition k)"
    using k(3) assms by (induction ks) (auto simp: index_map_Cons index_sorted_Cons)
  have "Max {j \<in> dom (index_map ks). j \<le> t} = kf_time k"
    using k by (intro Max_eqI) (auto simp: index_map_dom)
  moreover have "\<exists>j \<in> dom (index_map ks). t \<le> j" "\<exists>j \<in> dom (index_map ks). j \<le> t"
    using True k by (auto simp: index_map_dom intro: bexI [of _ "last ks"])
  ultimately have "floor_key (index_map ks) t = Some k" using m by (simp add: floor_key_def)
  then show ?thesis using True k(1) by (simp add: flv_demux_index_lookup_def not_less)
next
  case False
  have ends: "\<forall>e \<in> set ks. kf_time (hd ks) \<le> kf_time e \<and> kf_time e \<le> kf_time (last ks)"
    using assms by (induction ks) (auto simp: index_sorted_Cons less_imp_le)
  have "floor_key (index_map ks) t = None"
  proof (rule ccontr)
    assume "floor_key (index_map ks) t \<noteq> None"
    then obtain a b where ab: "a \<in> set ks" "kf_time a \<le> t" "b \<in> set ks" "t \<le> kf_time b"
      by (auto simp: floor_key_def index_map_dom split: if_splits)
    then have "kf_time (hd ks) \<le> t" "t \<le> kf_time (last ks)" using ends order.trans by blast+
    then show False using False ab(1) by auto
  qed
  then show ?thesis using False by (auto simp: flv_demux_index_lookup_def)
qed

lemma add_entry_index:
  assumes "index_sorted ks"
  shows "index_sorted (flv_demux_index_add_entry t pos ks)"
    "index_map (flv_demux_index_add_entry t pos ks) = add_first t pos (index_map ks)"
proof -
  have "index_map ks t = None \<longleftrightarrow> t \<notin> kf_time ` set ks" using index_map_dom [of ks] by (auto simp: domIff)
  then show "index_sorted (flv_demux_index_add_entry t pos ks)"
    "index_map (flv_demux_index_add_entry t pos ks) = add_first t pos (index_map ks)"
    using assms by (auto simp: flv_demux_index_add_entry_def Let_def find_None insert_sorted insert_map add_first_def)
qed

interpretation index: keyframe_index flv_demux_index_add_entry flv_demux_index_lookup index_sorted index_map
  by unfold_locales (simp_all add: index_map_dom add_entry_index lookup_floor)

text \<open>
  C17: the keyframe index refines a map. Adding an entry to a sorted index keeps it sorted and acts on the map of
  times to file positions as an insertion that keeps the first position of a time; a lookup never follows a NULL
  pointer and returns exactly the last keyframe at or before the given time, provided that some keyframe is at or
  after it.
\<close>

theorem keyframe_index_refines_map:
  assumes "index_sorted ks"
  shows "index_sorted (flv_demux_index_add_entry t pos ks) \<and>
    index_map (flv_demux_index_add_entry t pos ks) = add_first t pos (index_map ks) \<and>
    flv_demux_index_lookup t ks = Some (floor_key (index_map ks) t)"
  using index.add_inv [OF assms] index.add_abs [OF assms] index.lookup_abs [OF assms] by simp

theorem keyframe_index_refines_map_witness:
  "flv_demux_index_lookup 7 [\<lparr>kf_time = 0, kf_fileposition = 13\<rparr>, \<lparr>kf_time = 5, kf_fileposition = 90\<rparr>,
      \<lparr>kf_time = 9, kf_fileposition = 200\<rparr>] =
    Some (floor_key (index_map [\<lparr>kf_time = 0, kf_fileposition = 13\<rparr>, \<lparr>kf_time = 5, kf_fileposition = 90\<rparr>,
      \<lparr>kf_time = 9, kf_fileposition = 200\<rparr>]) 7)"
proof -
  have "index_sorted [\<lparr>kf_time = 0, kf_fileposition = 13\<rparr>, \<lparr>kf_time = 5, kf_fileposition = 90\<rparr>,
      \<lparr>kf_time = 9, kf_fileposition = 200\<rparr>]" by (simp add: index_sorted_def)
  from keyframe_index_refines_map [OF this] show ?thesis by blast
qed

text \<open>
  Seeking beyond the last keyframe. The seek functions describe the lookup as finding the nearest keyframe, and
  the start of the file as the answer when there are no entries yet. When every keyframe of the index is
  earlier than the time the lookup also reports that there is none.
\<close>

theorem lookup_after_last_keyframe_fails:
  assumes "index_sorted ks" "\<forall>k \<in> set ks. kf_time k < t"
  shows "flv_demux_index_lookup t ks = Some None"
  using index.lookup_abs [OF assms(1), of t] assms(2) by (force simp: floor_key_def index_map_dom)

theorem lookup_after_last_keyframe_fails_witness:
  "flv_demux_index_lookup 7 [\<lparr>kf_time = 0, kf_fileposition = 13\<rparr>, \<lparr>kf_time = 5, kf_fileposition = 90\<rparr>] = Some None"
  by (rule lookup_after_last_keyframe_fails) (simp_all add: index_sorted_def)

end
