(* ===== verification/Flv_Stream.thy ===== *)
theory Flv_Stream
  imports Flv_Index
begin

text \<open>
  Running the demuxer: every block is handled whatever its bytes are, the push loop ends, and the
  outcome does not depend on how the stream is cut into buffers.
\<close>

section \<open>What handling a block keeps\<close>

definition control :: "FlvDemux \<Rightarrow> FlvParser \<times> bool \<times> bool \<times> bool" where
  "control f = (dx_parser f, dx_is_flushing f, dx_is_eos_received f, dx_need_parser_flush f)"

definition keeps :: "FlvDemux \<Rightarrow> FlvDemux \<Rightarrow> bool" where
  "keeps f f' \<longleftrightarrow> control f' = control f \<and> (index_sorted (dx_keyframes f) \<longrightarrow> index_sorted (dx_keyframes f'))"

lemma keeps_refl [simp]: "keeps f f"
  by (simp add: keeps_def)

lemma keeps_trans: "keeps f g \<Longrightarrow> keeps g h \<Longrightarrow> keeps f h"
  by (simp add: keeps_def)

lemma keeps_frame: "control f' = control f \<Longrightarrow> dx_keyframes f' = dx_keyframes f \<Longrightarrow> keeps f f'"
  by (simp add: keeps_def)

lemma keeps_emit [simp]: "keeps f (emit x f)"
  by (rule keeps_frame) (simp_all add: emit_def control_def)

lemma keeps_index_add [simp]: "keeps f (index_add t pos f)"
  by (simp add: keeps_def index_add_def control_def index.add_inv)

lemma keeps_queue [simp]: "keeps f (queue_tag n v f)" "keeps f (push_tags f)"
  by (auto intro!: keeps_frame simp: queue_tag_def push_tags_def emit_def control_def split: option.split)

lemma keeps_audio_caps: "keeps f (snd (flv_demux_negotiate_audio_caps E a b c f))"
proof (cases "e_event E (dx_log f)")
  case True
  have k: "keeps f (queue_tag n v (emit x f\<lparr>dx_sound_format := a\<rparr>))" for n v x
    by (rule keeps_trans [OF keeps_frame keeps_queue(1)]) (simp_all add: emit_def control_def)
  then show ?thesis
    using True keeps_trans [OF k keeps_queue(2)]
    by (auto simp: flv_demux_negotiate_audio_caps_def push_event_def Let_def)
qed (simp add: flv_demux_negotiate_audio_caps_def push_event_def Let_def)

lemma video_tables: "c < 16 \<Longrightarrow> \<exists>m n. rd flv_video_mime_type (int c) = Some m \<and> rd flv_video_codec_name (int c) = Some n"
  by (simp add: rd_def flv_video_mime_type_def flv_video_codec_name_def)

lemma keeps_video_caps:
  assumes "c < 16"
  shows "\<exists>ok f'. flv_demux_negotiate_video_caps E c f = Some (ok, f') \<and> keeps f f'"
proof -
  obtain m n where mn: "rd flv_video_mime_type (int c) = Some m" "rd flv_video_codec_name (int c) = Some n"
    using video_tables [OF assms] by blast
  have k: "keeps f (queue_tag n v (emit x f\<lparr>dx_video_codec_id := c\<rparr>))" for n v x
    by (rule keeps_trans [OF keeps_frame keeps_queue(1)]) (simp_all add: emit_def control_def)
  then show ?thesis
    using mn keeps_trans [OF k keeps_queue(2)]
    by (auto simp: flv_demux_negotiate_video_caps_def push_event_def Let_def)
qed

lemma open_audio_pad_keeps: "case open_audio_pad E tag f of Inl f' \<Rightarrow> keeps f f' | Inr f' \<Rightarrow> keeps f f'"
proof -
  let ?f1 = "f\<lparr>dx_audio_src_pad := True\<rparr>"
  obtain ok f2 where n: "flv_demux_negotiate_audio_caps E (sound_format tag) (sampling_rate tag) (is_stereo tag) ?f1 = (ok, f2)"
    by fastforce
  have k1: "keeps f ?f1" by (rule keeps_frame) (simp_all add: control_def)
  then have k2: "keeps f f2" using keeps_audio_caps [of ?f1 E] n keeps_trans by (metis snd_conv)
  have k3: "keeps f (f2\<lparr>dx_audio_src_pad := False\<rparr>)"
    using k2 by (simp add: keeps_def control_def)
  have k4: "keeps f (emit y f2)" "keeps f (emit x (emit y f2))" for x y using k2 keeps_trans keeps_emit by blast+
  show ?thesis using k1 k2 k3 k4 n by (simp add: open_audio_pad_def Let_def)
qed

lemma open_video_pad_keeps:
  assumes "codec_id tag < 16"
  shows "\<exists>r. open_video_pad E tag f = Some r \<and> (case r of Inl f' \<Rightarrow> keeps f f' | Inr f' \<Rightarrow> keeps f f')"
proof -
  let ?f1 = "f\<lparr>dx_video_src_pad := True\<rparr>"
  obtain ok f2 where n: "flv_demux_negotiate_video_caps E (codec_id tag) ?f1 = Some (ok, f2)" "keeps ?f1 f2"
    using keeps_video_caps [OF assms] by blast
  have k1: "keeps f ?f1" by (rule keeps_frame) (simp_all add: control_def)
  then have k2: "keeps f f2" using n(2) keeps_trans by blast
  have k3: "keeps f (f2\<lparr>dx_video_src_pad := False\<rparr>)"
    using k2 by (simp add: keeps_def control_def)
  have k4: "keeps f (emit y f2)" "keeps f (emit x (emit y f2))" for x y using k2 keeps_trans keeps_emit by blast+
  show ?thesis using k1 k2 k3 k4 n(1) by (simp add: open_video_pad_def Let_def)
qed

lemma push_audio_keeps:
  assumes "audio_packet_offset tag + audio_packet_size tag \<le> length data"
  shows "\<exists>r f'. push_audio E data tag f = Some (r, f') \<and> keeps f f'"
  using assms
  by (simp add: push_audio_def copy_bytes_def Let_def)
    (auto simp: keeps_def control_def emit_def index_add_def index.add_inv)

lemma push_video_keeps:
  assumes "video_packet_offset tag + video_packet_size tag \<le> length data"
  shows "\<exists>r f'. push_video E data tag f = Some (r, f') \<and> keeps f f'"
  using assms
  by (simp add: push_video_def copy_bytes_def Let_def)
    (auto simp: keeps_def control_def emit_def index_add_def index.add_inv)

section \<open>Every block is handled\<close>

text \<open>The invariant of the demuxer, and a step that keeps it and the flags that stop the flow.\<close>

definition demux_ok :: "FlvDemux \<Rightarrow> bool" where
  "demux_ok f \<longleftrightarrow> parser_ok (dx_parser f) \<and> index_sorted (dx_keyframes f)"

definition same_flags :: "FlvDemux \<Rightarrow> FlvDemux \<Rightarrow> bool" where
  "same_flags f f' \<longleftrightarrow> snd (control f') = snd (control f)"

definition handled :: "FlvDemux \<Rightarrow> (GstFlowReturn \<times> FlvDemux) option \<Rightarrow> bool" where
  "handled f x \<longleftrightarrow> (\<exists>r f'. x = Some (r, f') \<and> demux_ok f' \<and> same_flags f f')"

lemma handled_keeps:
  assumes "parser_ok p" "index_sorted (dx_keyframes f)" "keeps (f\<lparr>dx_parser := p\<rparr>) f'"
  shows "demux_ok f' \<and> same_flags f f'"
  using assms by (simp add: keeps_def demux_ok_def same_flags_def control_def)

lemma handled_audio:
  assumes "demux_ok f" "length data < 2 ^ 63"
  shows "handled f (flv_demux_parse_audio_tag E data f)"
proof -
  obtain r p tag where read: "flv_parser_read_audio_tag data (dx_parser f) no_audio_tag = Some (r, p, tag)" "parser_ok p"
    using audio.total [of "dx_parser f" data no_audio_tag] assms by (auto simp: demux_ok_def)
  note fin = handled_keeps [OF read(2) conjunct2 [OF assms(1) [unfolded demux_ok_def]]]
  let ?f = "f\<lparr>dx_parser := p\<rparr>"
  show ?thesis
  proof (cases "r = FLV_PARSER_OK")
    case False
    then show ?thesis using read(1) fin [of ?f] by (simp add: flv_demux_parse_audio_tag_def handled_def)
  next
    case True
    have st: "parser_state (dx_parser f) = FLV_PARSER_EXPECT_AUDIO_TAG_BODY" "next_block_size (dx_parser f) \<le> length data"
      using read(1) True by (auto simp: flv_parser_read_audio_tag_def split: if_splits)
    then have fits: "audio_packet_offset tag + audio_packet_size tag \<le> length data"
      using read_audio_tag_eq [OF _ st assms(2), of no_audio_tag] read(1) True assms(1)
      by (auto simp: demux_ok_def split: if_splits)
    have k0: "keeps ?f (?f\<lparr>dx_has_audio := True\<rparr>)" by (rule keeps_frame) (simp_all add: control_def)
    show ?thesis
    proof (cases "open_audio_pad E tag (?f\<lparr>dx_has_audio := True\<rparr>)")
      case (Inl f')
      then show ?thesis
        using read(1) True fin [of f'] open_audio_pad_keeps [of "?f\<lparr>dx_has_audio := True\<rparr>" E tag] keeps_trans [OF k0]
        by (simp add: flv_demux_parse_audio_tag_def handled_def)
    next
      case (Inr f')
      then have k: "keeps ?f f'" using open_audio_pad_keeps [of "?f\<lparr>dx_has_audio := True\<rparr>" E tag] keeps_trans [OF k0] by simp
      have k1: "keeps ?f (f'\<lparr>dx_audio_prev_timestamp := ts\<rparr>)" "keeps ?f ((emit x f')\<lparr>dx_audio_prev_timestamp := ts\<rparr>)" for ts x
        using k by (simp_all add: keeps_def control_def emit_def)
      let ?g = "if dx_sound_format f' \<noteq> sound_format tag
        then snd (flv_demux_negotiate_audio_caps E (sound_format tag) (sampling_rate tag) (is_stereo tag) f') else f'"
      have "keeps ?f ?g" using k keeps_trans keeps_audio_caps by simp
      then obtain r' g where g: "push_audio E data tag ?g = Some (r', g)" "keeps ?f g"
        using push_audio_keeps [OF fits, of E ?g] keeps_trans by blast
      show ?thesis
        using read(1) True Inr fin [OF g(2)] g(1) fin [OF k1(1)] fin [OF k1(2)]
        by (cases "sound_format tag = FLVDEMUX_AUDIO_FORMAT_MP3")
          (simp_all add: flv_demux_parse_audio_tag_def handled_def Let_def emit_def)
    qed
  qed
qed

lemma handled_video:
  assumes "demux_ok f" "length data < 2 ^ 63"
  shows "handled f (flv_demux_parse_video_tag E data f)"
proof -
  obtain r p tag where read: "flv_parser_read_video_tag data (dx_parser f) no_video_tag = Some (r, p, tag)" "parser_ok p"
    using video.total [of "dx_parser f" data no_video_tag] assms by (auto simp: demux_ok_def)
  note fin = handled_keeps [OF read(2) conjunct2 [OF assms(1) [unfolded demux_ok_def]]]
  let ?f = "f\<lparr>dx_parser := p\<rparr>"
  show ?thesis
  proof (cases "r = FLV_PARSER_OK")
    case False
    then show ?thesis using read(1) fin [of ?f] by (simp add: flv_demux_parse_video_tag_def handled_def)
  next
    case True
    have st: "parser_state (dx_parser f) = FLV_PARSER_EXPECT_VIDEO_TAG_BODY" "next_block_size (dx_parser f) \<le> length data"
      using read(1) True by (auto simp: flv_parser_read_video_tag_def split: if_splits)
    then have fits: "video_packet_offset tag + video_packet_size tag \<le> length data"
      using read_video_tag_eq [OF _ st assms(2), of no_video_tag] read(1) True assms(1)
      by (auto simp: demux_ok_def split: if_splits)
    have c: "codec_id tag < 16"
      using read(1) True nibble_range(2)
      by (auto simp: flv_parser_read_video_tag_def byte_at_def Let_def split: if_splits bind_splits)
    let ?h = "?f\<lparr>dx_has_video := True\<rparr>"
    have k0: "keeps ?f ?h" by (rule keeps_frame) (simp_all add: control_def)
    obtain x where x: "open_video_pad E tag ?h = Some x" "case x of Inl f' \<Rightarrow> keeps ?h f' | Inr f' \<Rightarrow> keeps ?h f'"
      using open_video_pad_keeps [OF c] by blast
    show ?thesis
    proof (cases x)
      case (Inl f')
      then show ?thesis
        using read(1) True x fin [of f'] keeps_trans [OF k0]
        by (simp add: flv_demux_parse_video_tag_def handled_def)
    next
      case (Inr f')
      then have k: "keeps ?f f'" using x(2) keeps_trans [OF k0] by simp
      have k1: "keeps ?f (f'\<lparr>dx_video_prev_timestamp := ts\<rparr>)" "keeps ?f ((emit y f')\<lparr>dx_video_prev_timestamp := ts\<rparr>)" for ts y
        using k by (simp_all add: keeps_def control_def emit_def)
      have "\<exists>g. (if dx_video_codec_id f' \<noteq> codec_id tag
          then map_option snd (flv_demux_negotiate_video_caps E (codec_id tag) f') else Some f') = Some g \<and> keeps f' g"
        using keeps_video_caps [OF c, of E f'] by auto
      then obtain g where g: "(if dx_video_codec_id f' \<noteq> codec_id tag
          then map_option snd (flv_demux_negotiate_video_caps E (codec_id tag) f') else Some f') = Some g" "keeps f' g" by blast
      let ?g = "if \<not> dx_video_src_pad ?h then push_tags g else g"
      have "keeps ?f ?g" using keeps_trans [OF k g(2)] keeps_trans keeps_queue(2) by simp
      then obtain r' g' where g': "push_video E data tag ?g = Some (r', g')" "keeps ?f g'"
        using push_video_keeps [OF fits, of E ?g] keeps_trans by blast
      have e: "flv_demux_parse_video_tag E data f =
          (if codec_id tag \<noteq> FLVDEMUX_VIDEO_FORMAT_VP6 \<and> codec_id tag \<noteq> FLVDEMUX_VIDEO_FORMAT_VP6_ALPHA
           then let f = (if dx_video_prev_timestamp f' = GST_CLOCK_TIME_NONE
                         then emit (Out_Warning ''No video decoder for this encoding'') f' else f')
                in Some (GST_FLOW_OK, f\<lparr>dx_video_prev_timestamp := dx_current_timestamp f\<rparr>)
           else Some (r', g'))"
        by (unfold flv_demux_parse_video_tag_def Let_def read(1) bind.simps prod.case True x(1) Inr sum.case g(1) g'(1)) simp
      show ?thesis using e fin [OF g'(2)] fin [OF k1(1)] fin [OF k1(2)] by (simp add: handled_def Let_def)
    qed
  qed
qed

lemma keeps_copy_keyframes: "keeps f (copy_keyframes f)"
proof -
  have "keeps f (fold (\<lambda>k. index_add (kf_time k) (kf_fileposition k)) ks f)" for ks
    by (induction ks arbitrary: f) (simp_all, metis keeps_trans keeps_index_add)
  then have "keeps f ((fold (\<lambda>k. index_add (kf_time k) (kf_fileposition k)) ks f)\<lparr>dx_copied_metadata_keyframes := True\<rparr>)" for ks
    by (simp add: keeps_def control_def)
  then show ?thesis by (auto simp: copy_keyframes_def split: option.split)
qed

lemma handled_script:
  assumes "demux_ok f" "length data < 2 ^ 63"
  shows "handled f (flv_demux_parse_script_tag E data f)"
proof -
  let ?r0 = "\<lparr>rd_position = 0, rd_end = 0\<rparr>"
  obtain r p rdr where read: "flv_parser_read_script_data_tag data (dx_parser f) ?r0 = (r, p, rdr)" "parser_ok p"
    using script.total [of "dx_parser f" data ?r0] assms by (auto simp: demux_ok_def)
  note fin = handled_keeps [OF read(2) conjunct2 [OF assms(1) [unfolded demux_ok_def]]]
  let ?f = "f\<lparr>dx_parser := p\<rparr>"
  show ?thesis
  proof (cases "r = FLV_PARSER_OK")
    case True
    then have "rd_end rdr \<le> length data"
      using read(1) by (auto simp: flv_parser_read_script_data_tag_def split: if_splits)
    then obtain ok r' m where m: "flv_script_data_read (e_doubles E) data rdr (dx_metadata ?f) = Some (ok, r', m)"
      using script_data_read_moves by blast
    let ?g = "?f\<lparr>dx_metadata := m\<rparr>"
    define h where "h = (case md_tag_list m of
        Some tags \<Rightarrow> if ok then ?g\<lparr>dx_queued_tags := merge_tags (dx_queued_tags ?g) tags\<rparr> else ?g | None \<Rightarrow> ?g)"
    have "keeps ?f h" by (auto intro!: keeps_frame simp: h_def control_def split: option.split)
    then have "keeps ?f (copy_keyframes h)" using keeps_copy_keyframes keeps_trans by blast
    then show ?thesis
      using read(1) True m fin [of "copy_keyframes h"]
      by (simp add: flv_demux_parse_script_tag_def handled_def h_def Let_def)
  qed (use read(1) fin [of ?f] in \<open>simp add: flv_demux_parse_script_tag_def handled_def\<close>)
qed

lemma handled_block:
  assumes "demux_ok f" "length data < 2 ^ 63"
  shows "handled f (flv_demux_parse_next_block E data f)"
proof -
  have ok: "parser_ok (dx_parser f)" and ix: "index_sorted (dx_keyframes f)" using assms(1) by (simp_all add: demux_ok_def)
  have "handled f (flv_demux_parse_block E data f)"
  proof (cases "parser_state (dx_parser f)")
    case FLV_PARSER_EXPECT_HEADER
    then show ?thesis
      using header.total [OF ok assms(2), of no_header] ix
      by (auto simp: flv_demux_parse_block_def Let_def handled_def demux_ok_def same_flags_def control_def)
  next
    case FLV_PARSER_EXPECT_SKIP_BLOCK
    then show ?thesis
      using skip.total [OF ok assms(2), of "()"] ix
      by (auto simp: flv_demux_parse_block_def Let_def handled_def demux_ok_def same_flags_def control_def case_prod_beta)
  next
    case FLV_PARSER_EXPECT_TAG_PREFIX
    then show ?thesis
      using prefix.total [OF ok assms(2), of no_prefix] ix
      by (auto simp: flv_demux_parse_block_def Let_def handled_def demux_ok_def same_flags_def control_def)
  next
    case FLV_PARSER_EOF
    then show ?thesis using ok by (simp add: parser_ok_def)
  qed (use handled_audio [OF assms] handled_video [OF assms] handled_script [OF assms] in
      \<open>simp_all add: flv_demux_parse_block_def\<close>)
  then show ?thesis
    by (auto simp: flv_demux_parse_next_block_def handled_def demux_ok_def same_flags_def control_def emit_def)
qed

section \<open>The push loop\<close>

lemma block_size_bounds:
  assumes "demux_ok f"
  shows "4 \<le> next_block_size (dx_parser f)" "next_block_size (dx_parser f) < 2 ^ 32"
    "next_block_size (dx_parser f) mod 2 ^ 32 = next_block_size (dx_parser f)"
proof -
  show "4 \<le> next_block_size (dx_parser f)" and lt: "next_block_size (dx_parser f) < 2 ^ 32"
    using assms by (auto simp: demux_ok_def parser_ok_def flv_sizes split: FlvParserState.splits)
  then show "next_block_size (dx_parser f) mod 2 ^ 32 = next_block_size (dx_parser f)" by simp
qed

lemma chain_loop_unfold:
  assumes "demux_ok f" "length a < fuel"
  shows "chain_loop fuel E f a =
    (if length a \<ge> next_block_size (dx_parser f)
     then case flv_demux_parse_next_block E (take (next_block_size (dx_parser f)) a) f of
         None \<Rightarrow> None
       | Some (r, f') \<Rightarrow>
           if r \<noteq> GST_FLOW_OK then Some (r, f', drop (next_block_size (dx_parser f)) a)
           else chain_loop (fuel - 1) E f' (drop (next_block_size (dx_parser f)) a)
     else Some (GST_FLOW_OK, f, a))"
proof -
  obtain k where "fuel = Suc k" using assms(2) by (cases fuel) auto
  then show ?thesis
    using block_size_bounds [OF assms(1)] by (simp add: chain_loop.simps Let_def split: bind_split option.split)
qed

text \<open>One round on the bytes: the block is taken off and the demuxer stays in its invariant.\<close>

lemma chain_round:
  assumes "demux_ok f" "length a < 2 ^ 63" "next_block_size (dx_parser f) \<le> length a"
  obtains r f' where "flv_demux_parse_next_block E (take (next_block_size (dx_parser f)) a) f = Some (r, f')"
    "demux_ok f'" "same_flags f f'"
proof -
  have "length (take (next_block_size (dx_parser f)) a) < 2 ^ 63" by (rule le_less_trans [OF _ assms(2)]) simp
  then show ?thesis using handled_block [OF assms(1)] that by (fastforce simp: handled_def)
qed

lemma drop_short: "length a < m \<Longrightarrow> length (drop n a) < (m :: nat)"
  by simp

lemma chain_loop_total:
  assumes "demux_ok f" "length a < 2 ^ 63" "length a < fuel"
  shows "\<exists>r f' a'. chain_loop fuel E f a = Some (r, f', a') \<and> demux_ok f' \<and> same_flags f f' \<and> length a' \<le> length a"
  using assms
proof (induction fuel arbitrary: f a)
  case (Suc fuel)
  let ?n = "next_block_size (dx_parser f)"
  show ?case
  proof (cases "?n \<le> length a")
    case True
    obtain r f' where b: "flv_demux_parse_next_block E (take ?n a) f = Some (r, f')" "demux_ok f'" "same_flags f f'"
      using chain_round [OF Suc.prems(1,2) True] by blast
    have "length (drop ?n a) < fuel" using Suc.prems(3) block_size_bounds(1) [OF Suc.prems(1)] True by simp
    then obtain r2 f2 a2 where "chain_loop fuel E f' (drop ?n a) = Some (r2, f2, a2)" "demux_ok f2" "same_flags f' f2"
      "length a2 \<le> length (drop ?n a)"
      using Suc.IH [OF b(2) drop_short [OF Suc.prems(2)]] by blast
    then show ?thesis
      using chain_loop_unfold [OF Suc.prems(1,3), of E] True b by (auto simp: same_flags_def)
  qed (use chain_loop_unfold [OF Suc.prems(1,3), of E] Suc.prems(1) in \<open>simp add: same_flags_def\<close>)
qed simp

lemma chain_loop_fuel:
  assumes "demux_ok f" "length a < 2 ^ 63" "length a < k" "length a < k'"
  shows "chain_loop k E f a = chain_loop k' E f a"
  using assms
proof (induction k arbitrary: k' f a)
  case (Suc k)
  let ?n = "next_block_size (dx_parser f)"
  show ?case
  proof (cases "?n \<le> length a")
    case True
    obtain r f' where b: "flv_demux_parse_next_block E (take ?n a) f = Some (r, f')" "demux_ok f'"
      using chain_round [OF Suc.prems(1,2) True] by blast
    have "length (drop ?n a) < k" "length (drop ?n a) < k' - 1"
      using Suc.prems(3,4) block_size_bounds(1) [OF Suc.prems(1)] True by simp_all
    then have "chain_loop k E f' (drop ?n a) = chain_loop (k' - 1) E f' (drop ?n a)"
      by (rule Suc.IH [OF b(2) drop_short [OF Suc.prems(2)]])
    then show ?thesis
      using chain_loop_unfold [OF Suc.prems(1,3), of E] chain_loop_unfold [OF Suc.prems(1,4), of E] True b by simp
  qed (use chain_loop_unfold [OF Suc.prems(1,3), of E] chain_loop_unfold [OF Suc.prems(1,4), of E] in simp)
qed simp

lemma chain_loop_append:
  assumes "demux_ok f" "length (a @ b) < 2 ^ 63" "length a < k" "length (a @ b) < k'"
    and "chain_loop k E f a = Some (GST_FLOW_OK, f', a')"
  shows "chain_loop k' E f (a @ b) = chain_loop (Suc (length (a' @ b))) E f' (a' @ b)"
  using assms
proof (induction k arbitrary: k' f a)
  case (Suc k)
  let ?n = "next_block_size (dx_parser f)"
  show ?case
  proof (cases "?n \<le> length a")
    case True
    have "length a < 2 ^ 63" using Suc.prems(2) by simp
    then obtain r g where g: "flv_demux_parse_next_block E (take ?n a) f = Some (r, g)" "demux_ok g"
      using chain_round [OF Suc.prems(1) _ True] by blast
    have u: "chain_loop (Suc k) E f a = (if r \<noteq> GST_FLOW_OK then Some (r, g, drop ?n a) else chain_loop k E g (drop ?n a))"
      using chain_loop_unfold [OF Suc.prems(1,3), of E] True g by simp
    then have r: "r = GST_FLOW_OK" "chain_loop k E g (drop ?n a) = Some (GST_FLOW_OK, f', a')"
      using Suc.prems(5) by (auto split: if_splits)
    have "chain_loop (k' - 1) E g (drop ?n a @ b) = chain_loop (Suc (length (a' @ b))) E f' (a' @ b)"
    proof (rule Suc.IH [OF g(2) _ _ _ r(2)])
      show "length (drop ?n a @ b) < 2 ^ 63" using Suc.prems(2) by simp
      show "length (drop ?n a) < k" using Suc.prems(3) block_size_bounds(1) [OF Suc.prems(1)] True by simp
      show "length (drop ?n a @ b) < k' - 1" using Suc.prems(4) block_size_bounds(1) [OF Suc.prems(1)] True by simp
    qed
    then show ?thesis
      using chain_loop_unfold [OF Suc.prems(1,4), of E] True g(1) r(1) by simp
  next
    case False
    then have "f' = f" "a' = a" using chain_loop_unfold [OF Suc.prems(1,3), of E] Suc.prems(5) by simp_all
    then show ?thesis using chain_loop_fuel [OF Suc.prems(1,2,4), of "Suc (length (a @ b))" E] by simp
  qed
qed simp

text \<open>The state in which the loop starts: after a flush the parser starts over and the adapter is empty.\<close>

lemma chain_starts:
  assumes "demux_ok f" "\<not> dx_is_flushing f" "\<not> dx_is_eos_received f"
  obtains g c where "\<And>off' buf. off' = off \<or> \<not> dx_need_parser_flush f \<Longrightarrow>
      flv_demux_chain E off' buf f a = chain_loop (Suc (length (c @ buf))) E g (c @ buf)"
    "demux_ok g" "length c \<le> length a" "\<not> dx_is_flushing g" "\<not> dx_is_eos_received g" "\<not> dx_need_parser_flush g"
proof (cases "dx_need_parser_flush f")
  case True
  show ?thesis
    by (rule that [of "[]" "f\<lparr>dx_need_parser_flush := False,
          dx_parser := (if off \<noteq> 0 then flv_parser_seek off (dx_parser f) else flv_parser_reset (dx_parser f))\<rparr>"])
      (use assms True parser_ok_start(2,3) parser_ok_facts(3) in \<open>auto simp: flv_demux_chain_def demux_ok_def\<close>)
next
  case False
  show ?thesis by (rule that [of a f]) (use assms False in \<open>auto simp: flv_demux_chain_def\<close>)
qed

lemma chain_total:
  assumes "demux_ok f" "length (a @ buf) < 2 ^ 63"
  shows "\<exists>r f' a'. flv_demux_chain E off buf f a = Some (r, f', a') \<and> demux_ok f' \<and> length a' \<le> length (a @ buf)"
proof (cases "dx_is_flushing f \<or> dx_is_eos_received f")
  case False
  then obtain g c where g: "flv_demux_chain E off buf f a = chain_loop (Suc (length (c @ buf))) E g (c @ buf)"
    "demux_ok g" "length c \<le> length a" using chain_starts [OF assms(1)] by metis
  then show ?thesis
    using chain_loop_total [OF g(2), of "c @ buf" "Suc (length (c @ buf))" E] assms(2) by fastforce
qed (use assms(1) in \<open>auto simp: flv_demux_chain_def\<close>)

lemma chain_append:
  assumes "demux_ok f" "length (a @ b1 @ b2) < 2 ^ 63" "flv_demux_chain E off b1 f a = Some (GST_FLOW_OK, f', a')"
  shows "flv_demux_chain E off (b1 @ b2) f a = flv_demux_chain E off' b2 f' a'"
proof -
  have fl: "\<not> dx_is_flushing f" "\<not> dx_is_eos_received f"
    using assms(3) by (auto simp: flv_demux_chain_def split: if_splits)
  obtain g c where g: "\<And>buf. flv_demux_chain E off buf f a = chain_loop (Suc (length (c @ buf))) E g (c @ buf)"
    "demux_ok g" "length c \<le> length a" "\<not> dx_is_flushing g" "\<not> dx_is_eos_received g" "\<not> dx_need_parser_flush g"
    using chain_starts [OF assms(1) fl] by metis
  have l: "length ((c @ b1) @ b2) < 2 ^ 63" "length (c @ b1) < 2 ^ 63" using assms(2) g(3) by auto
  have r: "chain_loop (Suc (length (c @ b1))) E g (c @ b1) = Some (GST_FLOW_OK, f', a')" using assms(3) g(1) by simp
  then have "same_flags g f'" using chain_loop_total [OF g(2) l(2), of "Suc (length (c @ b1))" E] by auto
  then have "flv_demux_chain E off' b2 f' a' = chain_loop (Suc (length (a' @ b2))) E f' (a' @ b2)"
    using g(4-6) by (simp add: flv_demux_chain_def same_flags_def control_def)
  moreover have "flv_demux_chain E off (b1 @ b2) f a = chain_loop (Suc (length (a' @ b2))) E f' (a' @ b2)"
    using chain_loop_append [OF g(2) l(1) _ _ r, of "Suc (length ((c @ b1) @ b2))"] g(1) by simp
  ultimately show ?thesis by simp
qed

section \<open>Runs of the demuxer\<close>

text \<open>
  The states an element reaches by the calls of the pipeline: buffers, events, state changes,
  pulled blocks and seeks. A pulled block is shorter than \<open>2 ^ 63\<close> bytes.
\<close>

inductive demux_run :: "gst_env \<Rightarrow> pull_range \<Rightarrow> FlvDemux \<Rightarrow> byte list \<Rightarrow> bool" for E pull where
  run_init: "demux_run E pull flv_demux_init []"
| run_chain: "demux_run E pull f a \<Longrightarrow> length (a @ buf) < 2 ^ 63 \<Longrightarrow>
    flv_demux_chain E off buf f a = Some (r, f', a') \<Longrightarrow> demux_run E pull f' a'"
| run_event: "demux_run E pull f a \<Longrightarrow> demux_run E pull (flv_demux_sink_event ev f) a"
| run_paused: "demux_run E pull f a \<Longrightarrow> demux_run E pull (flv_demux_ready_to_paused f) a"
| run_activate: "demux_run E pull f a \<Longrightarrow> demux_run E pull (flv_demux_activatemode m on f) a"
| run_loop: "demux_run E pull f a \<Longrightarrow> (\<And>pos n. length (snd (pull pos n)) < 2 ^ 63) \<Longrightarrow>
    flv_demux_loop E pull f = Some f' \<Longrightarrow> demux_run E pull f' a"
| run_src_event: "demux_run E pull f a \<Longrightarrow> flv_demux_src_event fuel E pull junk ev f = Some (r, f') \<Longrightarrow>
    demux_run E pull f' a"

lemma demux_ok_emit [simp]: "demux_ok (emit x f) = demux_ok f" "demux_ok (flv_demux_push_src_event n f) = demux_ok f"
  by (auto simp: demux_ok_def emit_def flv_demux_push_src_event_def Let_def)

lemma demux_ok_loop:
  assumes "demux_ok f" "\<And>pos n. length (snd (pull pos n)) < 2 ^ 63" "flv_demux_loop E pull f = Some f'"
  shows "demux_ok f'"
proof -
  obtain ret block where p: "pull (file_position (dx_parser f)) (next_block_size (dx_parser f) mod 2 ^ 32) = (ret, block)"
    by fastforce
  then have "length block < 2 ^ 63" using assms(2) by (metis snd_conv)
  then show ?thesis
    using assms(1,3) p handled_block [OF assms(1), of block E]
    by (auto simp: flv_demux_loop_def handled_def Let_def split: if_splits)
qed

lemma demux_ok_index_tag:
  assumes "demux_ok f" "index_tag E pull p f = Some (Inr (t, p', f'))"
  shows "demux_ok f'"
  using assms
  by (auto simp: index_tag_def Let_def demux_ok_def index_add_def index.add_inv split: if_splits bind_splits prod.splits)

lemma demux_ok_index_loop:
  "demux_ok f \<Longrightarrow> index_loop fuel E pull t to p f = Some (r, f') \<Longrightarrow> demux_ok f'"
  by (induction fuel arbitrary: t p f)
    (auto split: if_splits bind_splits sum.splits dest: demux_ok_index_tag)

lemma demux_ok_indexing:
  "demux_ok f \<Longrightarrow> flv_demux_do_indexing_pull fuel E pull junk a b f = Some (r, f') \<Longrightarrow> demux_ok f'"
  by (auto simp: flv_demux_do_indexing_pull_def split: bind_splits option.splits dest: demux_ok_index_loop)

lemma demux_ok_segment [simp]: "demux_ok (take_segment seg f) = demux_ok f"
  by (simp add: take_segment_def demux_ok_def Let_def emit_def)

lemma demux_ok_restart:
  "demux_ok f \<Longrightarrow> demux_ok (f\<lparr>dx_parser := flv_parser_seek pos p\<rparr>)" "demux_ok f \<Longrightarrow> demux_ok (f\<lparr>dx_parser := flv_parser_reset p\<rparr>)"
  using parser_ok_start(2,3) parser_ok_facts(3) by (simp_all add: demux_ok_def)

lemma demux_ok_seek_position:
  "demux_ok f \<Longrightarrow> seek_pull_position fuel E pull junk t f = Some (x, y, f') \<Longrightarrow> demux_ok f'"
  by (auto simp: seek_pull_position_def split: if_splits bind_splits prod.splits dest: demux_ok_indexing)

lemma demux_ok_seek_push: "demux_ok f \<Longrightarrow> flv_demux_seek_push E ev f = Some (r, f') \<Longrightarrow> demux_ok f'"
  by (auto simp: flv_demux_seek_push_def Let_def push_event_def split: if_splits bind_splits prod.splits)

lemma demux_ok_seek_pull:
  assumes "demux_ok f" "flv_demux_seek_pull fuel E pull junk ev f = Some (r, f')"
  shows "demux_ok f'"
proof -
  define g where "g = (if sk_flush ev then emit (Out_Upstream ''flush-stop'')
    (flv_demux_push_src_event ''flush-start'' (emit (Out_Upstream ''flush-start'') f)) else f)"
  have "demux_ok g" using assms(1) by (simp add: g_def)
  then show ?thesis
    using assms unfolding flv_demux_seek_pull_def g_def [symmetric]
    by (auto simp: Let_def split: if_splits bind_splits prod.splits intro!: demux_ok_restart
        intro: demux_ok_seek_position)
qed

lemma demux_run_ok: "demux_run E pull f a \<Longrightarrow> demux_ok f"
proof (induction rule: demux_run.induct)
  case run_init
  then show ?case
    using parser_ok_start(1) by (simp add: demux_ok_def flv_demux_init_def parser_sync_def index_sorted_def)
next
  case (run_chain f a buf off r f' a')
  then show ?case using chain_total [of f a buf E off] by auto
next
  case (run_event f a ev)
  then show ?case by (cases ev) (auto simp: flv_demux_sink_event_def demux_ok_def emit_def flv_demux_push_src_event_def Let_def)
next
  case (run_loop f a f')
  then show ?case using demux_ok_loop by blast
next
  case (run_src_event f a fuel junk ev r f')
  show ?case
  proof (cases ev)
    case (Ev_Seek s)
    then show ?thesis
      using run_src_event(2,3) demux_ok_seek_pull [of f fuel E pull junk s r f'] demux_ok_seek_push [of f E s r f']
      by (cases "dx_is_pulling f") (simp_all add: flv_demux_src_event_def)
  next
    case (Ev_Upstream n)
    then have "f' = emit (Out_Upstream n) f" using run_src_event(2) by (simp add: flv_demux_src_event_def push_event_def)
    then show ?thesis using run_src_event(3) by simp
  qed
qed (simp_all add: flv_demux_ready_to_paused_def flv_demux_activatemode_def Let_def demux_ok_def emit_def)

text \<open>
  C4: the push loop always ends. After any sequence of buffers, events, state changes, pulls and seeks, and for
  any bytes, pushing a buffer returns: the loop of flv_demux_chain terminates, every block is parsed
  inside its bytes, and the bytes left over are at most those that were available.
\<close>

theorem flv_demux_chain_total:
  assumes "demux_run E pull f a" "length (a @ buf) < 2 ^ 63"
  shows "\<exists>r f' a'. flv_demux_chain E off buf f a = Some (r, f', a') \<and> length a' \<le> length (a @ buf)"
  using chain_total [OF demux_run_ok [OF assms(1)] assms(2)] by blast

definition demo_env :: gst_env where
  "demo_env = \<lparr>e_active = (\<lambda>_. True), e_event = (\<lambda>_. True), e_add_pad = (\<lambda>_. True), e_alloc = (\<lambda>_. True),
     e_map = (\<lambda>_. True), e_push = (\<lambda>_. GST_FLOW_OK), e_doubles = demo_doubles\<rparr>"

theorem flv_demux_chain_total_witness:
  "\<exists>r f' a'. flv_demux_chain demo_env 0 [70, 76, 86, 1, 5, 0, 0, 0, 9, 0, 0] flv_demux_init [] = Some (r, f', a') \<and>
     length a' \<le> length ([] @ [70, 76, 86, 1, 5, 0, 0, 0, 9, 0, 0 :: byte])"
  by (rule flv_demux_chain_total [OF run_init]) simp

text \<open>
  C16: cutting the stream does not matter. If the demuxer accepts a first part of the stream, then pushing the
  second part gives the same result, state, outputs and left-over bytes as pushing both parts in one buffer.
\<close>

theorem flv_demux_chain_chunks:
  assumes "demux_run E pull f a" "length (a @ b1 @ b2) < 2 ^ 63"
    and "flv_demux_chain E off b1 f a = Some (GST_FLOW_OK, f', a')"
  shows "flv_demux_chain E off' b2 f' a' = flv_demux_chain E off (b1 @ b2) f a"
  using chain_append [OF demux_run_ok [OF assms(1)] assms(2,3)] by simp

theorem flv_demux_chain_chunks_witness:
  "flv_demux_chain demo_env 4 [1, 5, 0, 0, 0, 9, 0, 0] flv_demux_init [70, 76, 86] =
   flv_demux_chain demo_env 0 ([70, 76, 86] @ [1, 5, 0, 0, 0, 9, 0, 0]) flv_demux_init []"
  by (rule flv_demux_chain_chunks [OF run_init])
    (simp_all add: flv_demux_chain_def flv_demux_init_def chain_loop.simps flv_parser_init_def flv_sizes)

end
