(* ===== verification/Flv_Metadata.thy ===== *)
theory Flv_Metadata
  imports Flv_Script
begin

text \<open>
  What the script reader makes of well-formed data. A reader is abstracted to the bytes ahead of it;
  every primitive reader then is a function on byte lists, and encoded values are read back.
\<close>

section \<open>The bytes ahead of a reader\<close>

definition ahead :: "byte list \<Rightarrow> FlvScriptDataReader \<Rightarrow> byte list" where
  "ahead data r = take (rd_end r - rd_position r) (drop (rd_position r) data)"

definition inside :: "byte list \<Rightarrow> FlvScriptDataReader \<Rightarrow> bool" where
  "inside data r \<longleftrightarrow> rd_position r \<le> rd_end r \<and> rd_end r \<le> length data"

lemma ahead_length: "inside data r \<Longrightarrow> length (ahead data r) = rd_end r - rd_position r"
  by (auto simp: ahead_def inside_def)

lemma ahead_advance: "ahead data (advance n r) = drop n (ahead data r)"
  by (simp add: ahead_def drop_take add.commute)

lemma inside_advance: "inside data r \<Longrightarrow> n \<le> length (ahead data r) \<Longrightarrow> inside data (advance n r)"
  using ahead_length [of data r] by (auto simp: inside_def)

lemma byte_ahead:
  assumes "inside data r" "i < length (ahead data r)"
  shows "byte_at data (rd_position r + i) = Some (unat (ahead data r ! i))"
  using assms by (auto simp: ahead_def inside_def byte_at_def)

lemma ahead_prefix:
  assumes "inside data r" "ahead data r = xs @ ys"
  shows "ahead data (advance (length xs) r) = ys" "inside data (advance (length xs) r)"
    "rd_position r + length xs \<le> rd_end r"
  using assms ahead_advance [of data "length xs" r] inside_advance [OF assms(1), of "length xs"]
    ahead_length [OF assms(1)] assms(1) by (auto simp: inside_def)

section \<open>Encodings\<close>

definition be16 :: "nat \<Rightarrow> byte list" where
  "be16 n = [word_of_nat (n div 256), word_of_nat (n mod 256)]"

definition be32 :: "nat \<Rightarrow> byte list" where
  "be32 n = be16 (n div 65536) @ be16 (n mod 65536)"

definition be64 :: "nat \<Rightarrow> byte list" where
  "be64 n = be32 (n div 2 ^ 32) @ be32 (n mod 2 ^ 32)"

definition enc_string :: "string \<Rightarrow> byte list" where
  "enc_string s = be16 (length s) @ map of_char s"

lemma enc_lengths [simp]: "length (be16 n) = 2" "length (be32 n) = 4" "length (be64 n) = 8"
  "length (enc_string s) = 2 + length s"
  by (simp_all add: be16_def be32_def be64_def enc_string_def)

lemma unat_byte [simp]: "n < 256 \<Longrightarrow> unat (word_of_nat n :: byte) = n"
  by (simp add: unat_of_nat)

lemma read_be16:
  assumes "inside data r" "ahead data r = xs @ be16 n @ ys" "n < 65536"
  shows "GST_READ_UINT16_BE data (rd_position r + length xs) = Some n"
proof -
  have "n div 256 < 256" using assms(3) by auto
  then show ?thesis
    using byte_ahead [OF assms(1), of "length xs"] byte_ahead [OF assms(1), of "length xs + 1"] assms(2)
    by (simp add: GST_READ_UINT16_BE_def be16_def nth_append add.assoc)
qed

lemma read_be32:
  assumes "inside data r" "ahead data r = xs @ be32 n @ ys" "n < 2 ^ 32"
  shows "GST_READ_UINT32_BE data (rd_position r + length xs) = Some n"
proof -
  have "n div 65536 < 65536" using assms(3) by auto
  then show ?thesis
    using read_be16 [OF assms(1), of xs "n div 65536"] read_be16 [OF assms(1), of "xs @ be16 (n div 65536)" "n mod 65536"]
      assms(2) by (simp add: GST_READ_UINT32_BE_def be32_def add.assoc)
qed

lemma read_be64:
  assumes "inside data r" "ahead data r = xs @ be64 n @ ys" "n < 2 ^ 64"
  shows "FLV_READ_DOUBLE_BE data (rd_position r + length xs) = Some n"
proof -
  have "n div 2 ^ 32 < 2 ^ 32" using assms(3) by auto
  then show ?thesis
    using read_be32 [OF assms(1), of xs "n div 2 ^ 32"] read_be32 [OF assms(1), of "xs @ be32 (n div 2 ^ 32)" "n mod 2 ^ 32"]
      assms(2) by (simp add: FLV_READ_DOUBLE_BE_def be64_def add.assoc)
qed

text \<open>Strings without a zero character survive the copy.\<close>

lemma unat_of_char: "unat (of_char c :: byte) = of_char c"
proof -
  have "(of_char c :: byte) = word_of_nat (of_char c)" by (simp add: of_nat_of_char)
  then show ?thesis using nat_of_char_less_256 [of c] by (simp only: unat_byte)
qed

lemma c_string_enc: "CHR 0x00 \<notin> set s \<Longrightarrow> c_string (map of_char s) = s"
proof (induction s)
  case (Cons c s)
  have "(of_char c :: byte) \<noteq> 0"
  proof
    assume "(of_char c :: byte) = 0"
    then have "of_char c = (0 :: nat)" using unat_of_char [of c] by simp
    then have "c = char_of (0 :: nat)" by (metis char_of_char)
    then show False using Cons.prems by (simp add: char_of_def)
  qed
  then show ?case using Cons unat_of_char [of c] by (simp add: c_string_def)
qed (simp add: c_string_def)

section \<open>Readers on encoded values\<close>

lemma copy_ahead:
  assumes "inside data r" "ahead data r = xs @ ys"
  shows "copy_bytes data (rd_position r) (length xs) = Some xs"
proof -
  have "rd_position r + length xs \<le> length data" using ahead_prefix(3) [OF assms] assms(1) by (simp add: inside_def)
  moreover have "xs = take (length xs) (ahead data r)" using assms(2) by simp
  then have "xs = take (length xs) (drop (rd_position r) data)"
    using ahead_prefix(3) [OF assms] by (metis ahead_def add_le_imp_le_diff min.absorb1 take_take add.commute)
  ultimately show ?thesis by (simp add: copy_bytes_def)
qed

lemma read_ui8_enc:
  assumes "inside data r" "ahead data r = b # ys"
  shows "flv_script_data_read_ui8 data r = Some (Some (unat b), advance 1 r)"
  using byte_ahead [OF assms(1), of 0] ahead_prefix(3) [OF assms(1), of "[b]" ys] assms(2)
  by (simp add: flv_script_data_read_ui8_def)

lemma read_ui32_enc:
  assumes "inside data r" "ahead data r = be32 n @ ys" "n < 2 ^ 32"
  shows "flv_script_data_read_ui32 data r = Some (Some n, advance 4 r)"
  using read_be32 [OF assms(1), of "[]" n ys] ahead_prefix(3) [OF assms(1,2)] assms(2,3)
  by (simp add: flv_script_data_read_ui32_def)

lemma read_double_enc:
  assumes "inside data r" "ahead data r = be64 n @ ys" "n < 2 ^ 64"
  shows "flv_script_data_read_double data r = Some (Some n, advance 8 r)"
  using read_be64 [OF assms(1), of "[]" n ys] ahead_prefix(3) [OF assms(1,2)] assms(2,3)
  by (simp add: flv_script_data_read_double_def)

lemma advance_advance [simp]: "advance n (advance k r) = advance (k + n) r"
  by (simp add: advance_def add.assoc)

definition plain_name :: "string \<Rightarrow> bool" where
  "plain_name s \<longleftrightarrow> CHR 0x00 \<notin> set s \<and> length s < 65536"

lemma read_string_enc:
  assumes "inside data r" "ahead data r = enc_string s @ ys" "plain_name s"
  shows "flv_script_data_read_string data r False = Some (Some s, advance (2 + length s) r)"
proof -
  have a: "ahead data r = be16 (length s) @ map of_char s @ ys" using assms(2) by (simp add: enc_string_def)
  note r2 = ahead_prefix(1,2) [OF assms(1) a]
  have "copy_bytes data (rd_position r + 2) (length s) = Some (map of_char s)"
    using copy_ahead [OF r2(2,1)] by simp
  moreover have "GST_READ_UINT16_BE data (rd_position r) = Some (length s)"
    using read_be16 [OF assms(1), of "[]"] a assms(3) by (simp add: plain_name_def)
  moreover have "rd_position r + 2 + length s \<le> rd_end r" using ahead_prefix(3) [OF assms(1,2)] by simp
  ultimately show ?thesis
    using assms(3) c_string_enc [of s] by (simp add: flv_script_data_read_string_def plain_name_def Let_def)
qed

section \<open>An onMetaData tag is read back\<close>

datatype amf_value = AMF_Double gdouble | AMF_Bool nat | AMF_String string

fun amf_type :: "amf_value \<Rightarrow> nat" where
  "amf_type (AMF_Double v) = FLV_SCRIPT_DATA_TYPE_DOUBLE"
| "amf_type (AMF_Bool v) = FLV_SCRIPT_DATA_TYPE_BOOL"
| "amf_type (AMF_String v) = FLV_SCRIPT_DATA_TYPE_STRING"

fun enc_value :: "amf_value \<Rightarrow> byte list" where
  "enc_value (AMF_Double v) = be64 v"
| "enc_value (AMF_Bool v) = [word_of_nat v]"
| "enc_value (AMF_String v) = enc_string v"

fun value_ok :: "amf_value \<Rightarrow> bool" where
  "value_ok (AMF_Double v) \<longleftrightarrow> v < 2 ^ 64"
| "value_ok (AMF_Bool v) \<longleftrightarrow> v < 256"
| "value_ok (AMF_String v) \<longleftrightarrow> plain_name v"

text \<open>The specification: what one named value does to the metadata.\<close>

fun set_value :: "double_ops \<Rightarrow> string \<times> amf_value \<Rightarrow> FlvMetadata \<Rightarrow> FlvMetadata" where
  "set_value D (name, AMF_Double v) m = set_double_value D name v m"
| "set_value D (name, AMF_Bool v) m = set_bool_value name v m"
| "set_value D (name, AMF_String v) m = add_string_tag D name v m"

definition enc_entry :: "string \<times> amf_value \<Rightarrow> byte list" where
  "enc_entry e = enc_string (fst e) @ word_of_nat (amf_type (snd e)) # enc_value (snd e)"

definition enc_metadata :: "(string \<times> amf_value) list \<Rightarrow> byte list" where
  "enc_metadata es = [2] @ enc_string ''onMetaData'' @ [8] @ be32 (length es) @ concat (map enc_entry es) @ [0, 0, 9]"

definition entries_ok :: "(string \<times> amf_value) list \<Rightarrow> bool" where
  "entries_ok es \<longleftrightarrow> (\<forall>(name, v) \<in> set es. plain_name name \<and> value_ok v)"

lemma value_handler_enc:
  assumes "inside data r" "ahead data r = enc_value v @ ys" "value_ok v"
  shows "flv_metadata_value_handler D data r (Some name) (amf_type v) m =
    Some (True, advance (length (enc_value v)) r, set_value D (name, v) m)"
  using assms read_double_enc [OF assms(1)] read_string_enc [OF assms(1)] read_ui8_enc [OF assms(1)]
  by (cases v) (simp_all add: flv_metadata_value_handler_def stored_def script_types)

lemma name_type_at:
  assumes "inside data r" and a: "ahead data r = enc_string name @ word_of_nat t # ys" and "plain_name name" "t < 256" "t \<noteq> 9"
  shows "read_name_type data r = Some (Some (Some name, t), advance (3 + length name) r)"
proof -
  have s: "flv_script_data_read_string data r False = Some (Some name, advance (2 + length name) r)"
    by (rule read_string_enc [OF assms(1-3)])
  have u: "flv_script_data_read_ui8 data (advance (2 + length name) r) = Some (Some t, advance (3 + length name) r)"
    using read_ui8_enc [OF ahead_prefix(2,1) [OF assms(1) a]] assms(4) by simp
  have len: "3 \<le> length (ahead data r)" "ahead data r \<noteq> []" using a by (simp_all add: enc_string_def be16_def)
  have "unat (ahead data r ! 2) \<noteq> 9" if z: "unat (ahead data r ! 0) = 0" "unat (ahead data r ! 1) = 0"
  proof -
    have "length name < 65536" using assms(3) by (simp add: plain_name_def)
    then have "length name div 256 < 256" by auto
    then have "length name = 0" using z a by (simp add: enc_string_def be16_def)
    then show ?thesis using a assms(4,5) by (simp add: enc_string_def be16_def)
  qed
  then show ?thesis
    using s u byte_ahead [OF assms(1), of 0] byte_ahead [OF assms(1), of 1] byte_ahead [OF assms(1), of 2] len
    by (auto simp: read_name_type_def)
qed

lemma terminator_at:
  assumes "inside data r" "ahead data r = [0, 0, 9] @ ys"
  shows "read_name_type data r = Some (Some (None, FLV_SCRIPT_DATA_TYPE_TERMINATOR), advance 3 r)"
  using byte_ahead [OF assms(1), of 0] byte_ahead [OF assms(1), of 1] byte_ahead [OF assms(1), of 2] assms(2)
  by (simp add: read_name_type_def)

lemma enc_entry_length: "length (enc_entry (name, v)) = 3 + length name + length (enc_value v)"
  by (simp add: enc_entry_def)

lemma loop_enc:
  assumes "inside data r" "ahead data r = concat (map enc_entry es) @ [0, 0, 9]" "entries_ok es"
    and "rd_end r - rd_position r < fuel"
  shows "script_loop fuel data (flv_metadata_value_handler D data) r m =
    Some (True, advance (rd_end r - rd_position r) r, fold (set_value D) es m)"
  using assms
proof (induction es arbitrary: r m fuel)
  case Nil
  have len: "rd_end r = rd_position r + 3" using ahead_length [OF Nil(1)] Nil(1,2) by (simp add: inside_def)
  moreover have "read_name_type data r = Some (Some (None, FLV_SCRIPT_DATA_TYPE_TERMINATOR), advance 3 r)"
    using terminator_at [OF Nil(1), of "[]"] Nil(2) by simp
  ultimately show ?case
    using Nil(4) by (cases fuel) (simp_all add: script_loop.simps flv_metadata_value_handler_def script_types)
next
  case (Cons e es)
  obtain name v where e: "e = (name, v)" by fastforce
  have ok: "plain_name name" "value_ok v" "entries_ok es" using Cons.prems(3) e by (auto simp: entries_ok_def)
  let ?ys = "concat (map enc_entry es) @ [0, 0, 9]"
  let ?xs = "enc_string name @ [word_of_nat (amf_type v)]"
  have a: "ahead data r = enc_entry (name, v) @ ?ys" using Cons.prems(2) e by simp
  have nt: "read_name_type data r = Some (Some (Some name, amf_type v), advance (3 + length name) r)"
    using name_type_at [OF Cons.prems(1) _ ok(1)] a
    by (cases v) (simp_all add: enc_entry_def script_types)
  have "ahead data r = ?xs @ enc_value v @ ?ys" using a by (simp add: enc_entry_def)
  note r1 = ahead_prefix [OF Cons.prems(1) this]
  have v: "flv_metadata_value_handler D data (advance (3 + length name) r) (Some name) (amf_type v) m =
      Some (True, advance (length (enc_entry e)) r, set_value D e m)"
    using value_handler_enc [OF r1(2) r1(1) ok(2), of D name m] e by (simp add: enc_entry_length numeral_3_eq_3)
  note r2 = ahead_prefix [OF Cons.prems(1) a]
  obtain fuel' where f: "fuel = Suc fuel'" using Cons.prems(4) by (cases fuel) auto
  have pos: "rd_position r + length (enc_entry e) \<le> rd_end r" "3 \<le> length (enc_entry e)" using r2(3) e by (simp_all add: enc_entry_length)
  have "script_loop fuel' data (flv_metadata_value_handler D data) (advance (length (enc_entry e)) r) (set_value D e m) =
      Some (True, advance (rd_end r - rd_position r) r, fold (set_value D) es (set_value D e m))"
    using Cons.IH [of "advance (length (enc_entry e)) r" fuel' "set_value D e m"] r2(1,2) ok(3) e pos Cons.prems(4) f by simp
  moreover have "amf_type v \<noteq> FLV_SCRIPT_DATA_TYPE_TERMINATOR" by (cases v) (simp_all add: script_types)
  ultimately show ?case using nt v pos f by (simp add: script_loop.simps)
qed

text \<open>
  A string under a name that is registered for objects has no meaning to read back: such entries are
  excluded. Every other list of entries leaves the mark of a misread address as it was.
\<close>

definition no_objects :: "double_ops \<Rightarrow> (string \<times> amf_value) list \<Rightarrow> bool" where
  "no_objects D es \<longleftrightarrow> (\<forall>(name, v) \<in> set es. case v of AMF_String s \<Rightarrow> d_tag_kind D name \<noteq> Kind_Object | _ \<Rightarrow> True)"

lemma set_value_misread:
  assumes "no_objects D [(name, v)]"
  shows "md_misread (set_value D (name, v) m) = md_misread m"
  using assms
  by (cases v) (auto simp: no_objects_def add_string_tag_def add_tag_def set_double_value_def set_bool_value_def
      split: tag_kind.split)

lemma set_values_misread: "no_objects D es \<Longrightarrow> md_misread (fold (set_value D) es m) = md_misread m"
proof (induction es arbitrary: m)
  case (Cons e es)
  then have "no_objects D [(fst e, snd e)]" "no_objects D es" by (simp_all add: no_objects_def)
  then show ?case using Cons.IH set_value_misread [of D "fst e" "snd e" m] by simp
qed simp

text \<open>
  C18: metadata round trip. An onMetaData tag that encodes a list of named doubles, booleans and strings,
  no string among them under a name registered for objects, is accepted and read to its last byte, the
  metadata afterwards is the result of setting the values one by one in order, and no address has been
  misread. A string that is empty or not UTF-8 sets nothing; one under a name registered for numbers
  leaves an unspecified number there (the setting of one value is \<open>set_value\<close>).
\<close>

theorem onMetaData_roundtrip:
  assumes "entries_ok es" "length es < 2 ^ 32" "md_tag_list m = Some tags" "no_objects D es"
  shows "\<exists>r'. flv_script_data_read D (enc_metadata es @ rest)
      \<lparr>rd_position = 0, rd_end = length (enc_metadata es)\<rparr> m = Some (True, r', fold (set_value D) es m) \<and>
    rd_position r' = length (enc_metadata es) \<and> md_misread (fold (set_value D) es m) = md_misread m"
proof -
  let ?data = "enc_metadata es @ rest" and ?r = "\<lparr>rd_position = 0, rd_end = length (enc_metadata es)\<rparr>"
  let ?body = "concat (map enc_entry es) @ [0, 0, 9]"
  have i: "inside ?data ?r" by (simp add: inside_def)
  have a: "ahead ?data ?r = [2] @ enc_string ''onMetaData'' @ [8] @ be32 (length es) @ ?body"
    by (simp add: ahead_def) (simp add: enc_metadata_def)
  have p: "plain_name ''onMetaData''" by (simp add: plain_name_def)
  note r1 = ahead_prefix(1,2) [OF i a]
  note r2 = ahead_prefix(1,2) [OF r1(2,1)]
  note r3 = ahead_prefix(1,2) [OF r2(2,1)]
  note r4 = ahead_prefix(1,2) [OF r3(2,1)]
  have reads: "flv_script_data_read_ui8 ?data ?r = Some (Some FLV_SCRIPT_DATA_TYPE_STRING, advance 1 ?r)"
    "flv_script_data_read_string ?data (advance 1 ?r) False = Some (Some ''onMetaData'', advance 13 ?r)"
    "flv_script_data_read_ui8 ?data (advance 13 ?r) = Some (Some FLV_SCRIPT_DATA_TYPE_ECMA, advance 14 ?r)"
    "flv_script_data_read_ui32 ?data (advance 14 ?r) = Some (Some (length es), advance 18 ?r)"
    using read_ui8_enc [OF i, of 2] a read_string_enc [OF r1(2,1) p] read_ui8_enc [OF r2(2), of 8] r2(1)
      read_ui32_enc [OF r3(2,1) assms(2)] by (simp_all add: script_types)
  have "script_loop (Suc (rd_end ?r - 18)) ?data (flv_metadata_value_handler D ?data) (advance 18 ?r) m =
      Some (True, advance (rd_end ?r - 18) (advance 18 ?r), fold (set_value D) es m)"
    using loop_enc [OF r4(2,1) assms(1), of "Suc (rd_end ?r - 18)" D m] by simp
  moreover have "18 \<le> rd_end ?r" by (simp add: enc_metadata_def)
  ultimately show ?thesis
    using reads assms(3) set_values_misread [OF assms(4)]
    by (simp add: flv_script_data_read_def flv_script_data_read_ecma_def Let_def)
qed

definition metadata_demo :: "(string \<times> amf_value) list" where
  "metadata_demo = [(''width'', AMF_Double 5), (''stereo'', AMF_Bool 1), (''creator'', AMF_String ''ab''),
     (''creator'', AMF_String []), (''title'', AMF_String [CHR 0xC3, CHR 0x28]), (''bitrate'', AMF_String ''x'')]"

theorem onMetaData_roundtrip_witness:
  "\<exists>r'. flv_script_data_read demo_doubles (enc_metadata metadata_demo @ [])
      \<lparr>rd_position = 0, rd_end = length (enc_metadata metadata_demo)\<rparr>
      (flv_metadata_new\<lparr>md_tag_list := Some Map.empty\<rparr>) =
      Some (True, r', flv_metadata_new\<lparr>md_tag_list := Some [''creator'' \<mapsto> Tag_String ''ab'', ''bitrate'' \<mapsto> Tag_Address],
        md_width := 5, md_is_stereo := 1\<rparr>)"
  using onMetaData_roundtrip [of metadata_demo "flv_metadata_new\<lparr>md_tag_list := Some Map.empty\<rparr>" Map.empty demo_doubles "[]"]
  by (auto simp: metadata_demo_def entries_ok_def plain_name_def no_objects_def set_double_value_def set_bool_value_def
      add_string_tag_def g_utf8_validate_def utf8_tail_def gst_tag_initialize_def object_tags_def number_tags_def
      add_tag_def flv_metadata_new_def demo_doubles_def)

section \<open>Keyframe tables\<close>

definition enc_strict :: "gdouble list \<Rightarrow> byte list" where
  "enc_strict vs = be32 (length vs) @ concat (map (\<lambda>v. 0 # be64 v) vs)"

lemma enc_strict_length: "length (enc_strict vs) = 4 + 9 * length vs"
  by (induction vs) (simp_all add: enc_strict_def)

lemma keyframe_loop_enc:
  assumes "inside data r" "ahead data r = concat (map (\<lambda>v. 0 # be64 v) vs) @ ys" "\<forall>v \<in> set vs. v < 2 ^ 64"
    and "0 < w" "length vs \<le> k" "k < 2 ^ 32"
  shows "keyframe_loop (length vs) D data w k r ks = Some (True, advance (9 * length vs) r, ks @ map (keyframe_entry D w) vs)"
  using assms
proof (induction vs arbitrary: r k ks)
  case (Cons v vs)
  have a: "ahead data r = [0] @ be64 v @ concat (map (\<lambda>v. 0 # be64 v) vs) @ ys" using Cons.prems(2) by simp
  note r1 = ahead_prefix(1,2) [OF Cons.prems(1) a]
  note r2 = ahead_prefix(1,2) [OF r1(2,1)]
  have t: "flv_script_data_read_ui8 data r = Some (Some 0, advance 1 r)"
    using read_ui8_enc [OF Cons.prems(1), of 0] a by simp
  have d: "flv_script_data_read_double data (advance 1 r) = Some (Some v, advance 9 r)"
    using read_double_enc [OF r1(2,1)] Cons.prems(3) by simp
  have k: "nat ((int k - 1) mod 2 ^ 32) = k - 1" "nat (int k - 1) = k - 1"
    using Cons.prems(5,6) by (simp_all add: nat_diff_distrib)
  have "keyframe_loop (length vs) D data w (k - 1) (advance 9 r) (ks @ [keyframe_entry D w v]) =
      Some (True, advance (9 * length vs) (advance 9 r), (ks @ [keyframe_entry D w v]) @ map (keyframe_entry D w) vs)"
    using Cons.prems r2 by (intro Cons.IH) auto
  then show ?case using t d k Cons.prems(4,5) by (simp add: script_types)
qed (simp add: advance_def)

lemma keyframe_handler_enc:
  assumes "inside data r" "ahead data r = enc_strict vs @ ys" "\<forall>v \<in> set vs. v < 2 ^ 64" "length vs < 2 ^ 32"
    and "md_keyframes m = None \<or> (\<exists>ks. md_keyframes m = Some ks \<and> length ks = length vs)"
    and "name = ''times'' \<and> w = 1 \<or> name = ''filepositions'' \<and> w = 2"
  shows "flv_metadata_keyframe_handler D data r (Some name) FLV_SCRIPT_DATA_TYPE_STRICT m =
    Some (True, advance (length (enc_strict vs)) r,
      m\<lparr>md_keyframes := Some ((case md_keyframes m of None \<Rightarrow> [] | Some ks \<Rightarrow> ks) @ map (keyframe_entry D w) vs)\<rparr>)"
proof -
  define ks where "ks = (case md_keyframes m of None \<Rightarrow> [] | Some ks \<Rightarrow> ks)"
  have a: "ahead data r = be32 (length vs) @ concat (map (\<lambda>v. 0 # be64 v) vs) @ ys" using assms(2) by (simp add: enc_strict_def)
  note r1 = ahead_prefix(1,2) [OF assms(1) a]
  have u: "flv_script_data_read_ui32 data r = Some (Some (length vs), advance 4 r)"
    by (rule read_ui32_enc [OF assms(1) a assms(4)])
  have w: "(if name = ''times'' then 1 else if name = ''filepositions'' then 2 else 0) = w" "0 < w" using assms(6) by auto
  have l: "keyframe_loop (length vs) D data w (length vs) (advance 4 r) ks =
      Some (True, advance (9 * length vs) (advance 4 r), ks @ map (keyframe_entry D w) vs)"
    using keyframe_loop_enc [OF r1(2,1) assms(3) w(2) order.refl assms(4)] by simp
  have "length ks = 0 \<or> length ks = length vs" using assms(5) by (auto simp: ks_def)
  then have k: "(if length ks > 0 \<and> length ks < length vs then length ks else length vs) = length vs"
    "(if length ks > length vs then take (length vs) ks else ks) = ks" by auto
  have "flv_script_read_keyframe_array D data r (Some name) ks =
      Some (True, advance (length (enc_strict vs)) r, ks @ map (keyframe_entry D w) vs)"
    unfolding flv_script_read_keyframe_array_def u bind.simps prod.case option.case Let_def k w(1) l
    by (simp add: enc_strict_length)
  then show ?thesis by (simp add: flv_metadata_keyframe_handler_def script_types ks_def)
qed

text \<open>
  The two keyframe tables are not joined. Reading a keyframes object with a table of times and a table of
  file positions of the same length appends the second table to the first: every time is stored with file
  position 0 and every file position with time 0.
\<close>

theorem keyframe_tables_not_joined:
  assumes "inside data r" "length ps = length ts" "length ts < 2 ^ 32" "\<forall>v \<in> set ts \<union> set ps. v < 2 ^ 64"
    and "ahead data r = enc_string ''times'' @ [10] @ enc_strict ts @ enc_string ''filepositions'' @ [10] @
      enc_strict ps @ [0, 0, 9]" "md_keyframes m = None"
  shows "\<exists>r'. flv_script_data_read_object data (flv_metadata_keyframe_handler D data) r m =
    Some (True, r', m\<lparr>md_keyframes := Some (map (\<lambda>v. \<lparr>kf_time = d_clock D v, kf_fileposition = 0\<rparr>) ts @
      map (\<lambda>v. \<lparr>kf_time = 0, kf_fileposition = d_guint64 D v\<rparr>) ps)\<rparr>)"
proof -
  let ?h = "flv_metadata_keyframe_handler D data"
  have p: "plain_name ''times''" "plain_name ''filepositions''" by (simp_all add: plain_name_def)
  let ?r1 = "advance (length (enc_string ''times'' @ [10 :: byte])) r"
  let ?r2 = "advance (length (enc_strict ts)) ?r1"
  let ?r3 = "advance (length (enc_string ''filepositions'' @ [10 :: byte])) ?r2"
  let ?r4 = "advance (length (enc_strict ps)) ?r3"
  have a0: "ahead data r = (enc_string ''times'' @ [10]) @ enc_strict ts @ enc_string ''filepositions'' @ [10] @
      enc_strict ps @ [0, 0, 9]" using assms(5) by simp
  note r1 = ahead_prefix [OF assms(1) a0]
  note r2 = ahead_prefix [OF r1(2,1)]
  have "ahead data ?r2 = (enc_string ''filepositions'' @ [10]) @ enc_strict ps @ [0, 0, 9]" using r2(1) by simp
  note r3 = ahead_prefix [OF r2(2) this]
  note r4 = ahead_prefix [OF r3(2,1)]
  let ?m1 = "m\<lparr>md_keyframes := Some (map (keyframe_entry D 1) ts)\<rparr>"
  have n1: "read_name_type data r = Some (Some (Some ''times'', FLV_SCRIPT_DATA_TYPE_STRICT), ?r1)"
    using name_type_at [OF assms(1) _ p(1), of 10] assms(5) by (simp add: script_types)
  have h1: "?h ?r1 (Some ''times'') FLV_SCRIPT_DATA_TYPE_STRICT m = Some (True, ?r2, ?m1)"
    using keyframe_handler_enc [OF r1(2,1) _ assms(3), of m "''times''" 1 D] assms(4,6) by simp
  have n2: "read_name_type data ?r2 = Some (Some (Some ''filepositions'', FLV_SCRIPT_DATA_TYPE_STRICT), ?r3)"
    using name_type_at [OF r2(2) _ p(2), of 10] r2(1) by (simp add: script_types)
  have h2: "?h ?r3 (Some ''filepositions'') FLV_SCRIPT_DATA_TYPE_STRICT ?m1 =
      Some (True, ?r4, m\<lparr>md_keyframes := Some (map (keyframe_entry D 1) ts @ map (keyframe_entry D 2) ps)\<rparr>)"
    using keyframe_handler_enc [OF r3(2,1), of ?m1 "''filepositions''" 2 D] assms(2-4) by simp
  have n3: "read_name_type data ?r4 = Some (Some (None, FLV_SCRIPT_DATA_TYPE_TERMINATOR), advance 3 ?r4)"
    using terminator_at [OF r4(2), of "[]"] r4(1) by simp
  have pos: "rd_position r + 3 \<le> rd_end r" "rd_position ?r2 + 3 \<le> rd_end ?r2" "rd_position ?r4 + 3 \<le> rd_end ?r4"
    using r1(3) r3(3) ahead_length [OF r4(2)] r4(1) by simp_all
  obtain f where f: "rd_end r - rd_position r = Suc (Suc (Suc f))"
    using pos(1) by (metis add_le_imp_le_diff add.commute le_Suc_ex numeral_3_eq_3 plus_nat.simps(2) add_0)
  have e: "keyframe_entry D 1 = (\<lambda>v. \<lparr>kf_time = d_clock D v, kf_fileposition = 0\<rparr>)"
    "keyframe_entry D 2 = (\<lambda>v. \<lparr>kf_time = 0, kf_fileposition = d_guint64 D v\<rparr>)"
    by (simp_all add: fun_eq_iff keyframe_entry_def)
  have h3: "?h (advance 3 ?r4) None FLV_SCRIPT_DATA_TYPE_TERMINATOR x = Some (True, advance 3 ?r4, x)" for x
    by (simp add: flv_metadata_keyframe_handler_def)
  show ?thesis
    unfolding flv_script_data_read_object_def f e [symmetric]
    using pos n1 h1 n2 h2 n3 h3
    by (simp add: script_loop.simps script_types del: enc_lengths advance_advance advance_fields length_append)
qed

definition keyframes_demo :: "byte list" where
  "keyframes_demo = enc_string ''times'' @ [10] @ enc_strict [3] @ enc_string ''filepositions'' @ [10] @
     enc_strict [400] @ [0, 0, 9]"

theorem keyframe_tables_not_joined_witness:
  "\<exists>r'. flv_script_data_read_object keyframes_demo
      (flv_metadata_keyframe_handler demo_doubles keyframes_demo)
      \<lparr>rd_position = 0, rd_end = length keyframes_demo\<rparr> flv_metadata_new =
    Some (True, r', flv_metadata_new\<lparr>md_keyframes :=
      Some [\<lparr>kf_time = 3, kf_fileposition = 0\<rparr>, \<lparr>kf_time = 0, kf_fileposition = 400\<rparr>]\<rparr>)"
  using keyframe_tables_not_joined [of keyframes_demo "\<lparr>rd_position = 0, rd_end = length keyframes_demo\<rparr>"
      "[400]" "[3]" flv_metadata_new demo_doubles]
  by (simp add: inside_def ahead_def keyframes_demo_def flv_metadata_new_def demo_doubles_def)

end
