(* ===== verification/Flv_File.thy ===== *)
theory Flv_File
  imports Flv_Stream Flv_Metadata
begin

text \<open>
  Whole files: an FLV file of MP3 and VP6 packets pushed through the demuxer is delivered packet by
  packet, in order and with its timestamps, when the pipeline accepts everything.
\<close>

section \<open>The format\<close>

definition be24 :: "nat \<Rightarrow> byte list" where
  "be24 n = word_of_nat (n div 65536) # be16 (n mod 65536)"

datatype flv_tag = Tag_Audio nat byte "byte list" | Tag_Video nat bool byte "byte list"

text \<open>An audio tag has its time, its format byte, whose high half is 2 for MP3, and a packet; a video tag its time, whether
  it is a keyframe, the codec byte of VP6 and a packet.\<close>

fun tag_body :: "flv_tag \<Rightarrow> byte list" where
  "tag_body (Tag_Audio ts fmt packet) = fmt # packet"
| "tag_body (Tag_Video ts key extra packet) = (if key then 0x14 else 0x24) # extra # packet"

fun tag_code :: "flv_tag \<Rightarrow> nat" where
  "tag_code (Tag_Audio ts fmt packet) = 8"
| "tag_code (Tag_Video ts key extra packet) = 9"

fun tag_time :: "flv_tag \<Rightarrow> nat" where
  "tag_time (Tag_Audio ts fmt packet) = ts"
| "tag_time (Tag_Video ts key extra packet) = ts"

fun tag_ok :: "flv_tag \<Rightarrow> bool" where
  "tag_ok (Tag_Audio ts fmt packet) \<longleftrightarrow> ts < 2 ^ 31 \<and> drop_bit 4 (unat fmt AND 0xF0) = 2 \<and> packet \<noteq> [] \<and> length packet < 2 ^ 24 - 2"
| "tag_ok (Tag_Video ts key extra packet) \<longleftrightarrow> ts < 2 ^ 31 \<and> packet \<noteq> [] \<and> length packet < 2 ^ 24 - 2"

definition enc_prefix :: "flv_tag \<Rightarrow> byte list" where
  "enc_prefix t = word_of_nat (tag_code t) # be24 (length (tag_body t)) @ be24 (tag_time t mod 2 ^ 24) @
     [word_of_nat (tag_time t div 2 ^ 24), 0, 0, 0]"

definition enc_body :: "flv_tag \<Rightarrow> byte list" where
  "enc_body t = tag_body t @ be32 (length (tag_body t) + 11)"

definition enc_file :: "flv_tag list \<Rightarrow> byte list" where
  "enc_file tags = [70, 76, 86, 1, 5, 0, 0, 0, 9] @ [0, 0, 0, 0] @ concat (map (\<lambda>t. enc_prefix t @ enc_body t) tags)"

section \<open>What is delivered\<close>

type_synonym packet = "src_pad \<times> byte list \<times> nat"

fun packet_of :: "gst_output \<Rightarrow> packet list" where
  "packet_of (Out_Buffer pad b) = [(pad, buf_data b, buf_timestamp b)]"
| "packet_of _ = []"

definition delivered :: "FlvDemux \<Rightarrow> packet list" where
  "delivered f = concat (map packet_of (dx_log f))"

fun expected :: "flv_tag \<Rightarrow> packet" where
  "expected (Tag_Audio ts fmt packet) = (Audio_Pad, packet, ts * GST_MSECOND)"
| "expected (Tag_Video ts key extra packet) = (Video_Pad, packet, ts * GST_MSECOND)"

text \<open>A pipeline in which every call succeeds.\<close>

definition willing :: "gst_env \<Rightarrow> bool" where
  "willing E \<longleftrightarrow> (\<forall>l. e_active E l \<and> e_event E l \<and> e_add_pad E l \<and> e_alloc E l \<and> e_map E l \<and> e_push E l = GST_FLOW_OK)"

definition quiet :: "FlvDemux \<Rightarrow> FlvDemux \<Rightarrow> bool" where
  "quiet f f' \<longleftrightarrow> delivered f' = delivered f \<and> dx_parser f' = dx_parser f \<and>
     dx_current_timestamp f' = dx_current_timestamp f"

lemma quiet_refl [simp]: "quiet f f"
  by (simp add: quiet_def)

lemma quiet_trans: "quiet f g \<Longrightarrow> quiet g h \<Longrightarrow> quiet f h"
  by (simp add: quiet_def)

lemma delivered_emit: "delivered (emit x f) = delivered f @ packet_of x"
  by (simp add: delivered_def emit_def)

lemma emit_fields [simp]: "dx_parser (emit x f) = dx_parser f" "dx_current_timestamp (emit x f) = dx_current_timestamp f"
  by (simp_all add: emit_def)

lemma quiet_emit: "packet_of x = [] \<Longrightarrow> quiet f (emit x f)"
  by (simp add: quiet_def delivered_emit)

lemma quiet_push_tags: "quiet f (push_tags f)"
  by (auto simp: push_tags_def quiet_def delivered_def emit_def split: option.split)

lemma quiet_audio_caps:
  assumes "willing E"
  shows "\<exists>f'. flv_demux_negotiate_audio_caps E a b c f = (True, f') \<and> quiet f f'"
proof -
  have "quiet f (queue_tag n v (emit (Out_Caps p s cs) f\<lparr>dx_sound_format := a\<rparr>))" for n v p s cs
    by (simp add: quiet_def delivered_def queue_tag_def emit_def)
  then show ?thesis
    using assms quiet_push_tags quiet_trans
    by (fastforce simp: flv_demux_negotiate_audio_caps_def push_event_def willing_def Let_def)
qed

lemma quiet_video_caps:
  assumes "willing E" "c < 16"
  shows "\<exists>f'. flv_demux_negotiate_video_caps E c f = Some (True, f') \<and> quiet f f'"
proof -
  obtain m n where "rd flv_video_mime_type (int c) = Some m" "rd flv_video_codec_name (int c) = Some n"
    using video_tables [OF assms(2)] by blast
  moreover have "quiet f (queue_tag n v (emit (Out_Caps p s cs) f\<lparr>dx_video_codec_id := c\<rparr>))" for n v p s cs
    by (simp add: quiet_def delivered_def queue_tag_def emit_def)
  ultimately show ?thesis
    using assms(1) quiet_push_tags quiet_trans
    by (fastforce simp: flv_demux_negotiate_video_caps_def push_event_def willing_def Let_def)
qed

lemma quiet_open_audio:
  assumes "willing E" shows "\<exists>f'. open_audio_pad E tag f = Inr f' \<and> quiet f f'"
proof -
  let ?f = "f\<lparr>dx_audio_src_pad := True\<rparr>"
  obtain g where g: "flv_demux_negotiate_audio_caps E (sound_format tag) (sampling_rate tag) (is_stereo tag) ?f = (True, g)"
    "quiet ?f g" using quiet_audio_caps [OF assms] by blast
  have "quiet f ?f" by (simp add: quiet_def delivered_def)
  then have "quiet f (emit (Out_Add_Pad Audio_Pad) g)" "quiet f (emit Out_No_More_Pads (emit (Out_Add_Pad Audio_Pad) g))"
    using g(2) quiet_trans quiet_emit by (metis packet_of.simps)+
  then show ?thesis using assms g(1) by (simp add: open_audio_pad_def willing_def Let_def)
qed

lemma quiet_open_video:
  assumes "willing E" "codec_id tag < 16" shows "\<exists>f'. open_video_pad E tag f = Some (Inr f') \<and> quiet f f'"
proof -
  let ?f = "f\<lparr>dx_video_src_pad := True\<rparr>"
  obtain g where g: "flv_demux_negotiate_video_caps E (codec_id tag) ?f = Some (True, g)"
    "quiet ?f g" using quiet_video_caps [OF assms] by blast
  have "quiet f ?f" by (simp add: quiet_def delivered_def)
  then have "quiet f (emit (Out_Add_Pad Video_Pad) g)" "quiet f (emit Out_No_More_Pads (emit (Out_Add_Pad Video_Pad) g))"
    using g(2) quiet_trans quiet_emit by (metis packet_of.simps)+
  then show ?thesis using assms(1) g(1) by (simp add: open_video_pad_def willing_def Let_def)
qed

definition sends :: "packet \<Rightarrow> FlvDemux \<Rightarrow> FlvDemux \<Rightarrow> bool" where
  "sends p f f' \<longleftrightarrow> delivered f' = delivered f @ [p] \<and> dx_parser f' = dx_parser f"

lemma push_audio_sends:
  assumes "willing E" "copy_bytes data (audio_packet_offset tag) (audio_packet_size tag) = Some bs"
  shows "\<exists>f'. push_audio E data tag f = Some (GST_FLOW_OK, f') \<and> sends (Audio_Pad, bs, dx_current_timestamp f) f f'"
  using assms by (simp add: push_audio_def willing_def Let_def) (simp add: sends_def delivered_def emit_def index_add_def)

lemma push_video_sends:
  assumes "willing E" "copy_bytes data (video_packet_offset tag) (video_packet_size tag) = Some bs"
  shows "\<exists>f'. push_video E data tag f = Some (GST_FLOW_OK, f') \<and> sends (Video_Pad, bs, dx_current_timestamp f) f f'"
  using assms by (simp add: push_video_def willing_def Let_def) (simp add: sends_def delivered_def emit_def index_add_def)

section \<open>One tag\<close>

lemma nat_and_15: "(n :: nat) AND 15 = n mod 16"
  using take_bit_eq_mask [of 4 n] by (simp add: take_bit_eq_mod mask_eq_exp_minus_1)

lemma read_mp3:
  assumes "parser_state p = FLV_PARSER_EXPECT_AUDIO_TAG_BODY" "next_block_size p = length packet + 5"
    and "drop_bit 4 (unat fmt AND 0xF0) = 2" "packet \<noteq> []" "length packet < 2 ^ 24" "length sfx = 4"
  shows "\<exists>tag. flv_parser_read_audio_tag (fmt # packet @ sfx) p out =
      Some (FLV_PARSER_OK, block_done p, tag) \<and> sound_format tag = FLVDEMUX_AUDIO_FORMAT_MP3 \<and>
      audio_packet_offset tag = 1 \<and> audio_packet_size tag = length packet"
proof -
  have t: "rd flv_audio_format_data_size (int 2) = Some 0" using tables_in(1) [of 2] by simp
  show ?thesis
    unfolding flv_parser_read_audio_tag_def byte_at_def
    using assms t by (simp add: packet_fits_def FLVDEMUX_AUDIO_FORMAT_MP3_def flv_sizes Let_def sub64_le)
qed

lemma read_vp6:
  assumes "parser_state p = FLV_PARSER_EXPECT_VIDEO_TAG_BODY" "next_block_size p = length packet + 6"
    and "packet \<noteq> []" "length packet < 2 ^ 24" "length sfx = 4"
  shows "\<exists>tag. flv_parser_read_video_tag ((if key then 0x14 else 0x24) # extra # packet @ sfx) p out =
      Some (FLV_PARSER_OK, block_done p, tag) \<and> codec_id tag = FLVDEMUX_VIDEO_FORMAT_VP6 \<and>
      video_packet_offset tag = 2 \<and> video_packet_size tag = length packet"
proof -
  have t: "rd flv_video_codec_data_size (int 4) = Some 1" using tables_in(2) [of 4] by simp
  have u: "unat (if key then 0x14 else 0x24 :: byte) AND 15 = 4" by (simp add: nat_and_15)
  show ?thesis
    unfolding flv_parser_read_video_tag_def byte_at_def
    using assms t u by (simp add: packet_fits_def FLVDEMUX_VIDEO_FORMAT_VP6_def flv_sizes Let_def sub64_le)
qed

lemma copy_packet: "copy_bytes (xs @ packet @ sfx) (length xs) (length packet) = Some packet"
  by (simp add: copy_bytes_def)

text \<open>The state between two tags: the parser waits for a tag prefix.\<close>

definition at_prefix :: "FlvDemux \<Rightarrow> bool" where
  "at_prefix f \<longleftrightarrow> parser_state (dx_parser f) = FLV_PARSER_EXPECT_TAG_PREFIX \<and>
     next_block_size (dx_parser f) = FLV_TAG_PREFIX_SIZE"

definition in_body :: "flv_tag \<Rightarrow> FlvDemux \<Rightarrow> bool" where
  "in_body t f \<longleftrightarrow> tag_body_state (tag_code t) = Some (parser_state (dx_parser f)) \<and>
     next_block_size (dx_parser f) = length (enc_body t) \<and> dx_current_timestamp f = tag_time t * GST_MSECOND"

lemma body_delivered:
  assumes "willing E" "tag_ok t" "in_body t f"
  shows "\<exists>f'. flv_demux_parse_next_block E (enc_body t) f = Some (GST_FLOW_OK, f') \<and>
    delivered f' = delivered f @ [expected t] \<and> at_prefix f'"
proof (cases t)
  case (Tag_Audio ts fmt packet)
  let ?data = "fmt # packet @ be32 (length (tag_body t) + 11)"
  have st: "parser_state (dx_parser f) = FLV_PARSER_EXPECT_AUDIO_TAG_BODY" "next_block_size (dx_parser f) = length packet + 5"
    using assms(3) Tag_Audio by (simp_all add: in_body_def tag_body_state_def flv_tag_types enc_body_def)
  obtain tag where tag: "flv_parser_read_audio_tag ?data (dx_parser f) no_audio_tag = Some (FLV_PARSER_OK, block_done (dx_parser f), tag)"
    "sound_format tag = FLVDEMUX_AUDIO_FORMAT_MP3" "audio_packet_offset tag = 1" "audio_packet_size tag = length packet"
    using read_mp3 [OF st, of fmt "be32 (length (tag_body t) + 11)" no_audio_tag] assms(2) Tag_Audio by auto
  let ?f = "f\<lparr>dx_parser := block_done (dx_parser f), dx_has_audio := True\<rparr>"
  obtain g where g: "open_audio_pad E tag ?f = Inr g" "quiet ?f g" using quiet_open_audio [OF assms(1)] by blast
  define h where "h = (if dx_sound_format g \<noteq> sound_format tag
    then snd (flv_demux_negotiate_audio_caps E (sound_format tag) (sampling_rate tag) (is_stereo tag) g) else g)"
  have h: "quiet ?f h"
    using quiet_audio_caps [OF assms(1), of "sound_format tag" "sampling_rate tag" "is_stereo tag" g] g(2) quiet_trans
    by (auto simp: h_def)
  have "copy_bytes ?data (audio_packet_offset tag) (audio_packet_size tag) = Some packet"
    using copy_packet [of "[fmt]" packet] tag(3,4) by simp
  then obtain k where k: "push_audio E ?data tag h = Some (GST_FLOW_OK, k)"
    "sends (Audio_Pad, packet, dx_current_timestamp h) h k" using push_audio_sends [OF assms(1)] by blast
  have "flv_demux_parse_next_block E (enc_body t) f = Some (GST_FLOW_OK, k)"
    using tag(1,2) g(1) k(1) st(1) Tag_Audio
    by (simp add: flv_demux_parse_next_block_def flv_demux_parse_block_def flv_demux_parse_audio_tag_def enc_body_def h_def)
  moreover have "delivered f = delivered ?f" by (simp add: delivered_def)
  ultimately show ?thesis
    using k(2) h Tag_Audio assms(3)
    by (simp add: sends_def quiet_def at_prefix_def block_done_def in_body_def)
next
  case (Tag_Video ts key extra packet)
  let ?data = "(if key then 0x14 else 0x24) # extra # packet @ be32 (length (tag_body t) + 11)"
  have st: "parser_state (dx_parser f) = FLV_PARSER_EXPECT_VIDEO_TAG_BODY" "next_block_size (dx_parser f) = length packet + 6"
    using assms(3) Tag_Video by (simp_all add: in_body_def tag_body_state_def flv_tag_types enc_body_def)
  obtain tag where tag: "flv_parser_read_video_tag ?data (dx_parser f) no_video_tag = Some (FLV_PARSER_OK, block_done (dx_parser f), tag)"
    "codec_id tag = FLVDEMUX_VIDEO_FORMAT_VP6" "video_packet_offset tag = 2" "video_packet_size tag = length packet"
    using read_vp6 [OF st, of "be32 (length (tag_body t) + 11)" key extra no_video_tag] assms(2) Tag_Video by auto
  let ?f = "f\<lparr>dx_parser := block_done (dx_parser f), dx_has_video := True\<rparr>"
  have c: "codec_id tag < 16" using tag(2) by (simp add: FLVDEMUX_VIDEO_FORMAT_VP6_def)
  obtain g where g: "open_video_pad E tag ?f = Some (Inr g)" "quiet ?f g" using quiet_open_video [OF assms(1) c] by blast
  obtain h0 where h0: "(if dx_video_codec_id g \<noteq> codec_id tag
      then map_option snd (flv_demux_negotiate_video_caps E (codec_id tag) g) else Some g) = Some h0" "quiet ?f h0"
    using quiet_video_caps [OF assms(1) c, of g] g(2) quiet_trans
    by (cases "dx_video_codec_id g = codec_id tag") auto
  define h where "h = (if \<not> dx_video_src_pad ?f then push_tags h0 else h0)"
  have h: "quiet ?f h" using h0(2) quiet_push_tags [of h0] quiet_trans by (auto simp: h_def)
  have "copy_bytes ?data (video_packet_offset tag) (video_packet_size tag) = Some packet"
    using copy_packet [of "[if key then 0x14 else 0x24, extra]" packet] tag(3,4) by (simp add: numeral_2_eq_2)
  then obtain k where k: "push_video E ?data tag h = Some (GST_FLOW_OK, k)"
    "sends (Video_Pad, packet, dx_current_timestamp h) h k" using push_video_sends [OF assms(1)] by blast
  have "flv_demux_parse_video_tag E ?data f = Some (GST_FLOW_OK, k)"
    using tag(2) k(1) by (unfold flv_demux_parse_video_tag_def Let_def tag(1) bind.simps prod.case g(1) sum.case h0(1))
      (simp add: h_def)
  then have "flv_demux_parse_next_block E (enc_body t) f = Some (GST_FLOW_OK, k)"
    using st(1) Tag_Video by (simp add: flv_demux_parse_next_block_def flv_demux_parse_block_def enc_body_def)
  moreover have "delivered f = delivered ?f" by (simp add: delivered_def)
  ultimately show ?thesis
    using k(2) h Tag_Video assms(3)
    by (simp add: sends_def quiet_def at_prefix_def block_done_def in_body_def)
qed

lemma be24_value:
  assumes "n < 2 ^ 24"
  shows "unat (word_of_nat (n div 65536) :: byte) * 65536 + unat (word_of_nat (n mod 65536 div 256) :: byte) * 256 +
    unat (word_of_nat (n mod 65536 mod 256) :: byte) = n"
proof -
  have "n div 65536 < 256" "n mod 65536 div 256 < 256" using assms by auto
  moreover have "n = n div 65536 * 65536 + (n mod 65536 div 256 * 256 + n mod 65536 mod 256)" by presburger
  ultimately show ?thesis by simp
qed

lemma prefix_read:
  assumes "at_prefix f" "tag_ok t"
  shows "\<exists>f'. flv_demux_parse_next_block E (enc_prefix t) f = Some (GST_FLOW_OK, f') \<and> in_body t f' \<and> delivered f' = delivered f"
proof -
  let ?n = "length (tag_body t)" and ?ts = "tag_time t"
  have n: "?n < 2 ^ 24" and ts: "?ts < 2 ^ 31" using assms(2) by (cases t; simp)+
  have hi: "unat (word_of_nat (?ts div 2 ^ 24) :: byte) = ?ts div 2 ^ 24" by (rule unat_byte) (use ts in auto)
  have lo: "?ts mod 2 ^ 24 < 2 ^ 24" by simp
  have ts_eq: "?ts div 2 ^ 24 * 16777216 + ?ts mod 2 ^ 24 = ?ts" by simp
  have code: "unat (word_of_nat (tag_code t) :: byte) = tag_code t" by (cases t) simp_all
  obtain s where s: "tag_body_state (tag_code t) = Some s" by (cases t) (simp_all add: tag_body_state_def flv_tag_types)
  have st: "parser_state (dx_parser f) = FLV_PARSER_EXPECT_TAG_PREFIX" using assms(1) by (simp add: at_prefix_def)
  define p where "p = (dx_parser f)\<lparr>parsed_block_size := FLV_TAG_PREFIX_SIZE,
    file_position := add64 (file_position (dx_parser f)) FLV_TAG_PREFIX_SIZE, next_block_size := ?n + FLV_TAG_SUFFIX_SIZE,
    parser_state := s\<rparr>"
  have "flv_parser_read_tag_prefix (enc_prefix t) (dx_parser f) no_prefix =
      Some (FLV_PARSER_OK, p, \<lparr>tag_type = tag_code t, body_size = ?n, tag_timestamp = s32 (int ?ts)\<rparr>)"
    using st s be24_value [OF n] be24_value [OF lo] hi code ts_eq
    unfolding flv_parser_read_tag_prefix_def byte_at_def enc_prefix_def be24_def be16_def p_def
    by (simp add: flv_sizes no_prefix_def Let_def be24_in ts32_in)
  moreover have "s32 (int ?ts) = int ?ts" using ts by (intro s32_id) auto
  moreover have "clock_of_ms (int ?ts) = ?ts * GST_MSECOND"
    using ts by (simp add: clock_of_ms_def GST_MSECOND_def nat_mult_distrib)
  ultimately have "flv_demux_parse_next_block E (enc_prefix t) f = Some (GST_FLOW_OK,
      f\<lparr>dx_parser := p, dx_current_timestamp := ?ts * GST_MSECOND, dx_last_file_position := file_position (dx_parser f)\<rparr>)"
    using st by (simp add: flv_demux_parse_next_block_def flv_demux_parse_block_def Let_def)
  then show ?thesis using s by (simp add: in_body_def p_def enc_body_def flv_sizes delivered_def)
qed

section \<open>The whole file\<close>

lemma chain_block:
  assumes "flv_demux_parse_next_block E b f = Some (GST_FLOW_OK, f')" "next_block_size (dx_parser f) = length b"
    and "b \<noteq> []" "length b < 2 ^ 32"
  shows "chain_loop (Suc k) E f (b @ rest) = chain_loop k E f' rest"
  using assms by (simp add: chain_loop.simps Let_def)

lemma enc_prefix_length: "length (enc_prefix t) = 11"
  by (simp add: enc_prefix_def be24_def)

lemma tags_delivered:
  assumes "willing E" "\<forall>t \<in> set tags. tag_ok t" "at_prefix f" "2 * length tags < fuel"
  shows "\<exists>f'. chain_loop fuel E f (concat (map (\<lambda>t. enc_prefix t @ enc_body t) tags)) = Some (GST_FLOW_OK, f', []) \<and>
    delivered f' = delivered f @ map expected tags"
  using assms(2-4)
proof (induction tags arbitrary: f fuel)
  case Nil
  then obtain k where "fuel = Suc k" by (cases fuel) auto
  then show ?case using Nil(2) by (simp add: chain_loop.simps at_prefix_def flv_sizes)
next
  case (Cons t tags)
  let ?rest = "concat (map (\<lambda>t. enc_prefix t @ enc_body t) tags)"
  have ok: "tag_ok t" "\<forall>t \<in> set tags. tag_ok t" using Cons.prems(1) by simp_all
  obtain g where g: "flv_demux_parse_next_block E (enc_prefix t) f = Some (GST_FLOW_OK, g)" "in_body t g" "delivered g = delivered f"
    using prefix_read [OF Cons.prems(2) ok(1)] by blast
  obtain h where h: "flv_demux_parse_next_block E (enc_body t) g = Some (GST_FLOW_OK, h)"
    "delivered h = delivered g @ [expected t]" "at_prefix h"
    using body_delivered [OF assms(1) ok(1) g(2)] by blast
  obtain k where k: "fuel = Suc (Suc k)" "2 * length tags < k" using Cons.prems(3) by (cases fuel; cases "fuel - 1") auto
  have "length (enc_body t) < 2 ^ 32" "enc_body t \<noteq> []" using ok(1) by (cases t; simp add: enc_body_def)+
  then have body: "chain_loop (Suc k) E g (enc_body t @ ?rest) = chain_loop k E h ?rest"
    using chain_block [OF h(1)] g(2) by (simp add: in_body_def)
  have "enc_prefix t \<noteq> []" using enc_prefix_length [of t] by auto
  then have "chain_loop fuel E f (enc_prefix t @ enc_body t @ ?rest) = chain_loop (Suc k) E g (enc_body t @ ?rest)"
    using chain_block [OF g(1)] Cons.prems(2) k(1) enc_prefix_length [of t] by (simp add: at_prefix_def flv_sizes)
  then show ?case using Cons.IH [OF ok(2) h(3) k(2)] body g(3) h(2) by simp
qed

lemma file_header:
  assumes "f = flv_demux_init"
  shows "\<exists>g. flv_demux_parse_next_block E [70, 76, 86, 1, 5, 0, 0, 0, 9] f = Some (GST_FLOW_OK, g) \<and>
    parser_state (dx_parser g) = FLV_PARSER_EXPECT_SKIP_BLOCK \<and> next_block_size (dx_parser g) = 4 \<and> delivered g = []"
  using assms
  by (simp add: flv_demux_parse_next_block_def flv_demux_parse_block_def flv_demux_init_def flv_parser_init_def
      flv_parser_read_header_def byte_at_def GST_READ_UINT32_BE_def GST_READ_UINT16_BE_def flv_sizes
      FLV_HEADER_FLAG_RESERVED_def Let_def delivered_def)

text \<open>
  C3: a file is played back. Pushing a whole FLV file of MP3 and VP6 tags into a fresh demuxer, in a pipeline that
  accepts everything, returns OK, consumes every byte, and delivers exactly the packets of the tags, in the order of
  the file, each on the pad of its kind and with the timestamp of its tag.
\<close>

theorem flv_file_delivered:
  assumes "willing E" "\<forall>t \<in> set tags. tag_ok t"
  shows "\<exists>f'. flv_demux_chain E 0 (enc_file tags) flv_demux_init [] = Some (GST_FLOW_OK, f', []) \<and>
    delivered f' = map expected tags"
proof -
  let ?rest = "concat (map (\<lambda>t. enc_prefix t @ enc_body t) tags)"
  obtain g where g: "flv_demux_parse_next_block E [70, 76, 86, 1, 5, 0, 0, 0, 9] flv_demux_init = Some (GST_FLOW_OK, g)"
    "parser_state (dx_parser g) = FLV_PARSER_EXPECT_SKIP_BLOCK" "next_block_size (dx_parser g) = 4" "delivered g = []"
    using file_header [OF refl] by blast
  define h where "h = g\<lparr>dx_parser := block_done (dx_parser g)\<rparr>"
  have h: "flv_demux_parse_next_block E [0, 0, 0, 0] g = Some (GST_FLOW_OK, h)" "at_prefix h" "delivered h = []"
    using g(2-4) by (simp_all add: flv_demux_parse_next_block_def flv_demux_parse_block_def flv_parser_skip_def h_def
        at_prefix_def block_done_def delivered_def)
  have len: "2 * length tags < length (enc_file tags) - 1"
    by (induction tags) (simp_all add: enc_file_def enc_prefix_length)
  then obtain k where k: "Suc (length (enc_file tags)) = Suc (Suc k)" "2 * length tags < k"
    by (metis Suc_pred diff_Suc_1 less_nat_zero_code neq0_conv zero_diff)
  obtain f' where f': "chain_loop k E h ?rest = Some (GST_FLOW_OK, f', [])" "delivered f' = map expected tags"
    using tags_delivered [OF assms h(2) k(2)] h(3) by auto
  have "flv_demux_chain E 0 (enc_file tags) flv_demux_init [] =
      chain_loop (Suc (Suc k)) E flv_demux_init ([70, 76, 86, 1, 5, 0, 0, 0, 9] @ [0, 0, 0, 0] @ ?rest)"
    using k(1) by (simp add: flv_demux_chain_def enc_file_def) (simp add: flv_demux_init_def)
  also have "\<dots> = chain_loop (Suc k) E g ([0, 0, 0, 0] @ ?rest)"
    by (rule chain_block [OF g(1)]) (simp_all add: flv_demux_init_def flv_parser_init_def flv_sizes)
  also have "\<dots> = chain_loop k E h ?rest"
    by (rule chain_block [OF h(1)]) (simp_all add: g(3))
  finally show ?thesis using f' by simp
qed

theorem flv_file_delivered_witness:
  "\<exists>f'. flv_demux_chain demo_env 0 (enc_file [Tag_Video 0 True 0 [1, 2], Tag_Audio 40 0x2F [3]]) flv_demux_init [] =
      Some (GST_FLOW_OK, f', []) \<and>
    delivered f' = map expected [Tag_Video 0 True 0 [1, 2], Tag_Audio 40 0x2F [3]]"
  by (rule flv_file_delivered) (simp_all add: willing_def demo_env_def)

section \<open>Seek indexes\<close>

lemma add_entry_set: "set (flv_demux_index_add_entry t pos ks) \<subseteq> insert \<lparr>kf_time = t, kf_fileposition = pos\<rparr> (set ks)"
  by (auto simp: flv_demux_index_add_entry_def Let_def insert_set)

lemma fold_index_add_set:
  "set (dx_keyframes (fold (\<lambda>k. index_add (kf_time k) (kf_fileposition k)) ks f)) \<subseteq> set ks \<union> set (dx_keyframes f)"
proof (induction ks arbitrary: f)
  case (Cons k ks)
  have "set (dx_keyframes (index_add (kf_time k) (kf_fileposition k) f)) \<subseteq> insert k (set (dx_keyframes f))"
    using add_entry_set [of "kf_time k" "kf_fileposition k" "dx_keyframes f"] by (cases k) (simp add: index_add_def)
  then show ?case using Cons.IH [of "index_add (kf_time k) (kf_fileposition k) f"] by auto
qed simp

text \<open>
  A seek index built from metadata points to the start of the file. When the metadata holds the table of times
  followed by the table of file positions, as the script reader leaves them, every entry of the demuxer's index
  with a time after zero has file position 0, so a lookup that finds such an entry sends the parser to the
  start.
\<close>

theorem metadata_index_seeks_to_start:
  assumes "dx_keyframes f = []" "\<not> dx_copied_metadata_keyframes f"
    and "md_keyframes (dx_metadata f) = Some (map (\<lambda>v. \<lparr>kf_time = d_clock D v, kf_fileposition = 0\<rparr>) ts @
      map (\<lambda>v. \<lparr>kf_time = 0, kf_fileposition = d_guint64 D v\<rparr>) ps)"
    and "flv_demux_index_lookup t (dx_keyframes (copy_keyframes f)) = Some (Some k)" "0 < kf_time k"
  shows "kf_fileposition k = 0"
proof -
  let ?tables = "map (\<lambda>v. \<lparr>kf_time = d_clock D v, kf_fileposition = 0\<rparr>) ts @
    map (\<lambda>v. \<lparr>kf_time = 0, kf_fileposition = d_guint64 D v\<rparr>) ps"
  have e: "dx_keyframes (copy_keyframes f) =
      dx_keyframes (fold (\<lambda>k. index_add (kf_time k) (kf_fileposition k)) ?tables f)"
    using assms(2,3) by (simp add: copy_keyframes_def)
  have "index_sorted (dx_keyframes (copy_keyframes f))"
    using keeps_copy_keyframes [of f] assms(1) by (simp add: keeps_def index_sorted_def)
  then have "index_map (dx_keyframes (copy_keyframes f)) (kf_time k) = Some (kf_fileposition k)"
    using index.found_before(1) assms(4) by blast
  then have "(kf_time k, kf_fileposition k) \<in> (\<lambda>k. (kf_time k, kf_fileposition k)) ` set (dx_keyframes (copy_keyframes f))"
    by (auto simp: index_map_def dest: map_of_SomeD)
  then obtain k' where k': "k' \<in> set (dx_keyframes (copy_keyframes f))" "kf_time k' = kf_time k"
    "kf_fileposition k' = kf_fileposition k" by auto
  then have "k' \<in> set ?tables" using fold_index_add_set [of ?tables f] assms(1) unfolding e by (auto simp del: fold_append)
  with k'(2,3) have "k' \<in> set ?tables \<and> kf_time k' = kf_time k \<and> kf_fileposition k' = kf_fileposition k" by simp
  then show ?thesis using assms(5) by auto
qed

definition seek_demo :: FlvDemux where
  "seek_demo = flv_demux_init\<lparr>dx_metadata := flv_metadata_new\<lparr>md_keyframes :=
     Some [\<lparr>kf_time = 0, kf_fileposition = 0\<rparr>, \<lparr>kf_time = 5, kf_fileposition = 0\<rparr>,
       \<lparr>kf_time = 0, kf_fileposition = 13\<rparr>, \<lparr>kf_time = 0, kf_fileposition = 400\<rparr>]\<rparr>\<rparr>"

theorem metadata_index_seeks_to_start_witness:
  "kf_fileposition (the (the (flv_demux_index_lookup 5 (dx_keyframes (copy_keyframes seek_demo))))) = 0"
  by (rule metadata_index_seeks_to_start [of seek_demo demo_doubles "[0, 5]" "[13, 400]" 5])
    (simp_all add: seek_demo_def flv_demux_init_def flv_metadata_new_def demo_doubles_def copy_keyframes_def
      index_add_def flv_demux_index_add_entry_def g_list_find_custom_def compare_keyframes_def
      flv_demux_index_lookup_def)

lemma index_prefix:
  assumes "11 \<le> length block"
  shows "\<exists>r q t. flv_parser_read_tag_prefix block (flv_parser_seek pos p) tag = Some (r, q, t) \<and>
    tag_type t = unat (block ! 0) \<and> (r = FLV_PARSER_OK \<longrightarrow> parsed_block_size q = 11) \<and>
    (r = FLV_PARSER_OK \<longleftrightarrow> drop 8 block = [0, 0, 0] @ drop 11 block \<and> unat (block ! 0) \<in> {8, 9, 18})"
proof -
  have type: "byte_at block 0 = Some (unat (block ! 0))" using assms by (intro byte_at_in) linarith
  obtain n ts where reads: "FLV_READ_UINT24_BE block 1 = Some n" "FLV_READ_TS32 block 4 = Some ts"
    using assms by (simp add: FLV_READ_UINT24_BE_def FLV_READ_TS32_def GST_READ_UINT16_BE_def)
  have drop: "drop 8 block = block ! 8 # block ! 9 # block ! 10 # drop 11 block"
    using assms Cons_nth_drop_Suc [of 8 block] Cons_nth_drop_Suc [of 9 block] Cons_nth_drop_Suc [of 10 block] by simp
  define v where "v = push_bit 8 (unat (block ! 8) * 256 + unat (block ! 9)) OR unat (block ! 10)"
  have "v = 0 \<longleftrightarrow> block ! 8 = 0 \<and> block ! 9 = 0 \<and> block ! 10 = 0"
    by (auto simp: v_def or_eq_0_iff push_bit_eq_mult unat_eq_zero)
  then have id: "FLV_READ_UINT24_BE block 8 = Some v" "v = 0 \<longleftrightarrow> drop 8 block = [0, 0, 0] @ drop 11 block"
    using assms by (auto simp: drop v_def FLV_READ_UINT24_BE_def GST_READ_UINT16_BE_def)
  show ?thesis
  proof (cases "v = 0 \<and> unat (block ! 0) \<in> {8, 9, 18}")
    case True
    then show ?thesis using assms type reads id
      by (auto simp: flv_parser_read_tag_prefix_def flv_parser_seek_def flv_sizes flv_tag_types tag_body_state_def Let_def)
  next
    case False
    then show ?thesis using assms type reads id
      by (auto simp: flv_parser_read_tag_prefix_def flv_parser_seek_def flv_sizes flv_tag_types tag_body_state_def Let_def)
  qed
qed

text \<open>
  C39: when indexing reads past a block. While it indexes a file in pull mode the demuxer asks for one byte more
  than a tag prefix and looks at that byte without checking how much it got. Whatever the source answers
  and whatever the state of the demuxer, the tag is indexed without a fault unless the block has exactly
  the eleven bytes of a prefix that announces a video tag of stream 0, as at a file cut off after the
  prefix; then, and only then, the byte after the block is read.
\<close>

theorem indexing_reads_past_block:
  assumes "pull pos 12 = (ret, block)"
  shows "index_tag E pull (flv_parser_seek pos p) f = None \<longleftrightarrow>
    ret = GST_FLOW_OK \<and> e_map E (dx_log f) \<and> length block = 11 \<and> block ! 0 = 9 \<and> drop 8 block = [0, 0, 0]"
proof -
  let ?s = "flv_parser_seek pos p"
  have s: "file_position ?s = pos" "(next_block_size ?s + 1) mod 2 ^ 32 = 12"
    by (simp_all add: flv_parser_seek_def flv_sizes)
  consider "\<not> (ret = GST_FLOW_OK \<and> e_map E (dx_log f))" | "ret = GST_FLOW_OK" "e_map E (dx_log f)" "length block < 11"
    | "ret = GST_FLOW_OK" "e_map E (dx_log f)" "11 \<le> length block" by linarith
  then show ?thesis
  proof cases
    case 1
    then show ?thesis unfolding index_tag_def Let_def s assms by auto
  next
    case 2
    then have "flv_parser_read_tag_prefix block ?s no_prefix = Some (FLV_PARSER_BUFFER_UNDERRUN, ?s, no_prefix)"
      by (simp add: flv_parser_read_tag_prefix_def flv_parser_seek_def flv_sizes)
    then show ?thesis using 2 unfolding index_tag_def Let_def s assms by auto
  next
    case 3
    obtain r q t where q: "flv_parser_read_tag_prefix block ?s no_prefix = Some (r, q, t)"
      "tag_type t = unat (block ! 0)" "r = FLV_PARSER_OK \<longrightarrow> parsed_block_size q = 11"
      "r = FLV_PARSER_OK \<longleftrightarrow> drop 8 block = [0, 0, 0] @ drop 11 block \<and> unat (block ! 0) \<in> {8, 9, 18}"
      using index_prefix [OF 3(3)] by blast
    have byte: "byte_at block 11 = None \<longleftrightarrow> length block = 11" using 3(3) by (auto simp: byte_at_def)
    have nine: "unat (block ! 0) = 9 \<longleftrightarrow> block ! 0 = 9"
      using word_unat_eq_iff [of "block ! 0" 9] by simp
    show ?thesis
    proof (cases "r = FLV_PARSER_OK")
      case True
      then show ?thesis using 3 q byte nine unfolding index_tag_def Let_def s assms
        by (cases "byte_at block 11") (auto simp: flv_tag_types)
    next
      case False
      then show ?thesis using 3 q byte nine unfolding index_tag_def Let_def s assms by auto
    qed
  qed
qed

definition short_prefix :: "byte list" where
  "short_prefix = [9, 0, 0, 5, 0, 0, 0, 0, 0, 0, 0]"

theorem indexing_reads_past_block_witness:
  "index_tag demo_env (\<lambda>pos n. (GST_FLOW_OK, take n (drop pos short_prefix)))
     (flv_parser_seek 0 flv_parser_init) flv_demux_init = None"
  using indexing_reads_past_block [of "\<lambda>pos n. (GST_FLOW_OK, take n (drop pos short_prefix))" 0 GST_FLOW_OK
      short_prefix demo_env flv_parser_init flv_demux_init]
  by (simp add: short_prefix_def demo_env_def)

end
