(* ===== verification/File_Cache.thy ===== *)
theory File_Cache
  imports Flv_Demux
begin

text \<open>
  The cache of the progress buffers (gstreamer/plugins/progressbuffer/posix/filecache.c): an unlinked
  temporary file with a handle for writing and one for reading, each with the position the
  code believes it has. The answers of the system calls and of the allocator are the parameter
  \<open>file_io\<close> of each call: a write or a read may be short or fail.
\<close>

section \<open>Files\<close>

record file_io =
  io_map :: bool
  io_alloc :: bool
  io_wrap :: bool
  io_write :: "nat \<Rightarrow> int"
  io_read :: "nat \<Rightarrow> int"

record Cache =
  cc_file :: "byte list"
  cc_read_handle :: nat
  cc_write_handle :: nat
  read_position :: int
  write_position :: int

record cache_buffer =
  cb_data :: "byte list"
  cb_offset :: nat

text \<open>Bytes written at an offset: a gap before it is filled with zeros.\<close>

definition file_put :: "nat \<Rightarrow> byte list \<Rightarrow> byte list \<Rightarrow> byte list" where
  "file_put pos bs f = take pos (f @ replicate (pos - length f) 0) @ bs @ drop (pos + length bs) f"

text \<open>\<open>write\<close> and \<open>read\<close> transfer at most what they are asked for; a negative result is an error.\<close>

definition posix_write :: "file_io \<Rightarrow> byte list \<Rightarrow> Cache \<Rightarrow> int \<times> Cache" where
  "posix_write io bs c =
    (let n = min (io_write io (length bs)) (int (length bs))
     in (n, c\<lparr>cc_file := (if n > 0 then file_put (cc_write_handle c) (take (nat n) bs) (cc_file c) else cc_file c),
              cc_write_handle := cc_write_handle c + nat n\<rparr>))"

definition posix_read :: "file_io \<Rightarrow> nat \<Rightarrow> Cache \<Rightarrow> int \<times> byte list \<times> Cache" where
  "posix_read io count c =
    (let rest = drop (cc_read_handle c) (cc_file c); available = min count (length rest);
         n = min (io_read io available) (int available)
     in (n, take (nat n) rest, c\<lparr>cc_read_handle := cc_read_handle c + nat n\<rparr>))"

section \<open>Operations\<close>

definition DEFAULT_BUFFER_SIZE :: nat where "DEFAULT_BUFFER_SIZE = 4096"

definition create_cache :: Cache where
  "create_cache = \<lparr>cc_file = [], cc_read_handle = 0, cc_write_handle = 0, read_position = 0, write_position = 0\<rparr>"

definition cache_write_buffer :: "file_io \<Rightarrow> byte list \<Rightarrow> Cache \<Rightarrow> Cache" where
  "cache_write_buffer io data c =
    (if io_map io
     then let (written, c) = posix_write io data c
          in if written > 0 then c\<lparr>write_position := write_position c + written\<rparr> else c
     else c)"

definition cache_read_buffer :: "file_io \<Rightarrow> Cache \<Rightarrow> int \<times> cache_buffer option \<times> Cache" where
  "cache_read_buffer io c =
    (if io_alloc io
     then let left = write_position c - read_position c;
              count = (if left > 0 \<and> left < int DEFAULT_BUFFER_SIZE then nat left else DEFAULT_BUFFER_SIZE);
              (read_bytes, data, c) = posix_read io count c
          in if read_bytes > 0
             then (read_position c + read_bytes,
                   if io_wrap io then Some \<lparr>cb_data = data, cb_offset = nat (read_position c)\<rparr> else None,
                   c\<lparr>read_position := read_position c + read_bytes\<rparr>)
             else (0, None, c)
     else (0, None, c))"

text \<open>\<open>lseek\<close> fails for a negative position.\<close>

definition cache_set_handler_position :: "int \<Rightarrow> nat option" where
  "cache_set_handler_position position = (if position \<ge> 0 then Some (nat position) else None)"

definition cache_set_write_position :: "int \<Rightarrow> Cache \<Rightarrow> bool \<times> Cache" where
  "cache_set_write_position position c =
    (if position = write_position c then (True, c)
     else case cache_set_handler_position position of
         Some h \<Rightarrow> (True, c\<lparr>cc_write_handle := h, write_position := position\<rparr>)
       | None \<Rightarrow> (False, c))"

definition cache_set_read_position :: "int \<Rightarrow> Cache \<Rightarrow> bool \<times> Cache" where
  "cache_set_read_position position c =
    (if position = read_position c then (True, c)
     else case cache_set_handler_position position of
         Some h \<Rightarrow> (True, c\<lparr>cc_read_handle := h, read_position := position\<rparr>)
       | None \<Rightarrow> (False, c))"

definition cache_read_buffer_from_position ::
    "file_io \<Rightarrow> int \<Rightarrow> nat \<Rightarrow> Cache \<Rightarrow> GstFlowReturn \<times> cache_buffer option \<times> Cache" where
  "cache_read_buffer_from_position io start_position count c =
    (let (ok, c) = cache_set_read_position start_position c
     in if ok \<and> io_alloc io
        then let (read_bytes, data, c) = posix_read io count c;
                 buffer = (if read_bytes = int count \<and> io_wrap io
                           then Some \<lparr>cb_data = data, cb_offset = nat (read_position c)\<rparr> else None)
             in (if buffer = None then GST_FLOW_ERROR else GST_FLOW_OK, buffer,
                 c\<lparr>read_position := read_position c + read_bytes\<rparr>)
        else (GST_FLOW_ERROR, None, c))"

definition cache_has_enough_data :: "Cache \<Rightarrow> bool" where
  "cache_has_enough_data c \<longleftrightarrow> read_position c < write_position c"

section \<open>A cache is a byte sequence with a cursor\<close>

text \<open>A system that has memory, writes everything and reads something; short reads remain possible.\<close>

definition reliable :: "file_io \<Rightarrow> bool" where
  "reliable io \<longleftrightarrow> io_map io \<and> io_alloc io \<and> io_wrap io \<and> (\<forall>n. int n \<le> io_write io n) \<and> (\<forall>n > 0. 0 < io_read io n)"

text \<open>A system on which nothing fails.\<close>

definition calm_io :: file_io where
  "calm_io = \<lparr>io_map = True, io_alloc = True, io_wrap = True, io_write = int, io_read = int\<rparr>"

definition cache_ok :: "Cache \<Rightarrow> bool" where
  "cache_ok c \<longleftrightarrow> read_position c = int (cc_read_handle c) \<and> write_position c = int (cc_write_handle c) \<and>
     cc_write_handle c \<le> length (cc_file c)"

definition cache_content :: "Cache \<Rightarrow> byte list" where
  "cache_content c = take (cc_write_handle c) (cc_file c)"

text \<open>What the elements that use a cache rely on.\<close>

locale byte_cache =
  fixes good :: "'i \<Rightarrow> bool"
    and write_bytes :: "'i \<Rightarrow> byte list \<Rightarrow> 'c \<Rightarrow> 'c"
    and read_some :: "'i \<Rightarrow> 'c \<Rightarrow> int \<times> cache_buffer option \<times> 'c"
    and set_cursor set_end :: "int \<Rightarrow> 'c \<Rightarrow> bool \<times> 'c"
    and ready :: "'c \<Rightarrow> bool"
    and inv :: "'c \<Rightarrow> bool" and content :: "'c \<Rightarrow> byte list" and cursor :: "'c \<Rightarrow> nat"
  assumes write_law: "good io \<Longrightarrow> inv c \<Longrightarrow> inv (write_bytes io bs c) \<and>
      content (write_bytes io bs c) = content c @ bs \<and> cursor (write_bytes io bs c) = cursor c"
    and ready_law: "inv c \<Longrightarrow> ready c \<longleftrightarrow> cursor c < length (content c)"
    and read_law: "good io \<Longrightarrow> inv c \<Longrightarrow> ready c \<Longrightarrow>
      \<exists>n c'. 0 < n \<and> cursor c + n \<le> length (content c) \<and>
        read_some io c = (int (cursor c + n),
          Some \<lparr>cb_data = take n (drop (cursor c) (content c)), cb_offset = cursor c\<rparr>, c') \<and>
        inv c' \<and> content c' = content c \<and> cursor c' = cursor c + n"
    and cursor_law: "inv c \<Longrightarrow> \<exists>c'. set_cursor (int p) c = (True, c') \<and> inv c' \<and> content c' = content c \<and> cursor c' = p"
    and end_law: "inv c \<Longrightarrow> \<exists>c'. set_end 0 c = (True, c') \<and> inv c' \<and> content c' = [] \<and> cursor c' = cursor c"

text \<open>Reading until nothing is left, with at most \<open>fuel\<close> reads.\<close>

fun drain :: "nat \<Rightarrow> ('c \<Rightarrow> bool) \<Rightarrow> ('c \<Rightarrow> int \<times> cache_buffer option \<times> 'c) \<Rightarrow> 'c \<Rightarrow> byte list \<times> 'c" where
  "drain 0 ready rd_next c = ([], c)"
| "drain (Suc fuel) ready rd_next c =
    (if ready c
     then case rd_next c of (_, Some b, c') \<Rightarrow> let (bs, c'') = drain fuel ready rd_next c' in (cb_data b @ bs, c'')
                          | (_, None, c') \<Rightarrow> ([], c')
     else ([], c))"

context byte_cache
begin

lemma drain_all:
  assumes "good io" "inv c" "length (content c) - cursor c \<le> fuel"
  shows "\<exists>c'. drain fuel ready (read_some io) c = (drop (cursor c) (content c), c') \<and> inv c' \<and>
    content c' = content c \<and> \<not> ready c'"
  using assms(2,3)
proof (induction fuel arbitrary: c)
  case 0
  then show ?case by (simp add: ready_law)
next
  case (Suc fuel)
  show ?case
  proof (cases "ready c")
    case True
    then obtain n c' where r: "0 < n" "cursor c + n \<le> length (content c)" "inv c'" "content c' = content c"
        "cursor c' = cursor c + n"
        "read_some io c = (int (cursor c + n), Some \<lparr>cb_data = take n (drop (cursor c) (content c)), cb_offset = cursor c\<rparr>, c')"
      using read_law [OF assms(1) Suc.prems(1)] by blast
    have "length (content c') - cursor c' \<le> fuel" using r Suc.prems(2) by simp
    then obtain d where d: "drain fuel ready (read_some io) c' = (drop (cursor c') (content c'), d)" "inv d"
        "content d = content c'" "\<not> ready d"
      using Suc.IH [OF r(3)] by blast
    have "take n (drop (cursor c) (content c)) @ drop (cursor c + n) (content c) = drop (cursor c) (content c)"
      by (metis append_take_drop_id drop_drop add.commute)
    then show ?thesis using r d True by simp
  next
    case False
    then show ?thesis using Suc.prems by (simp add: ready_law)
  qed
qed

end

lemma cache_write_ok:
  assumes "reliable io" "cache_ok c"
  shows "cache_ok (cache_write_buffer io bs c)" "cache_content (cache_write_buffer io bs c) = cache_content c @ bs"
    "cc_read_handle (cache_write_buffer io bs c) = cc_read_handle c"
proof -
  have "min (io_write io (length bs)) (int (length bs)) = int (length bs)" using assms(1) by (simp add: reliable_def min_absorb2)
  then have w: "cache_write_buffer io bs c = c\<lparr>cc_file := (if bs \<noteq> [] then file_put (cc_write_handle c) bs (cc_file c) else cc_file c),
      cc_write_handle := cc_write_handle c + length bs, write_position := write_position c + int (length bs)\<rparr>"
    using assms(1) by (auto simp: cache_write_buffer_def posix_write_def reliable_def Let_def)
  show "cache_ok (cache_write_buffer io bs c)" "cache_content (cache_write_buffer io bs c) = cache_content c @ bs"
    "cc_read_handle (cache_write_buffer io bs c) = cc_read_handle c"
    using assms(2) by (auto simp: w cache_ok_def cache_content_def file_put_def min_absorb1 min_absorb2)
qed

lemma cache_read_ok:
  assumes "reliable io" "cache_ok c" "cache_has_enough_data c"
  shows "\<exists>n c'. 0 < n \<and> cc_read_handle c + n \<le> length (cache_content c) \<and>
    cache_read_buffer io c = (int (cc_read_handle c + n),
      Some \<lparr>cb_data = take n (drop (cc_read_handle c) (cache_content c)), cb_offset = cc_read_handle c\<rparr>, c') \<and>
    cache_ok c' \<and> cache_content c' = cache_content c \<and> cc_read_handle c' = cc_read_handle c + n"
proof -
  define left where "left = cc_write_handle c - cc_read_handle c"
  have l: "0 < left" "write_position c - read_position c = int left" "cc_read_handle c + left = cc_write_handle c"
    "cc_write_handle c \<le> length (cc_file c)"
    using assms(2,3) by (auto simp: left_def cache_ok_def cache_has_enough_data_def)
  define count where "count = (if left < DEFAULT_BUFFER_SIZE then left else DEFAULT_BUFFER_SIZE)"
  have c: "0 < count" "count \<le> left" using l(1) by (auto simp: count_def DEFAULT_BUFFER_SIZE_def)
  have r: "0 < io_read io count" using assms(1) c(1) by (simp add: reliable_def)
  define n where "n = nat (min (io_read io count) (int count))"
  have n: "0 < n" "n \<le> count" "min (io_read io count) (int count) = int n"
    using r c(1) by (auto simp: n_def)
  have "min count (length (drop (cc_read_handle c) (cc_file c))) = count" using l c by simp
  then have "posix_read io count c = (int n, take n (drop (cc_read_handle c) (cc_file c)),
      c\<lparr>cc_read_handle := cc_read_handle c + n\<rparr>)"
    by (simp add: posix_read_def Let_def n(3))
  moreover have "take n (drop (cc_read_handle c) (cache_content c)) = take n (drop (cc_read_handle c) (cc_file c))"
    using l c n by (simp add: cache_content_def drop_take min_absorb1)
  moreover have "(if int left > 0 \<and> int left < int DEFAULT_BUFFER_SIZE then nat (int left) else DEFAULT_BUFFER_SIZE) = count"
    using l(1) by (simp add: count_def)
  ultimately show ?thesis
    using assms(1,2) l c n(1,2) unfolding cache_read_buffer_def l(2)
    by (intro exI [of _ n]) (auto simp: reliable_def Let_def cache_ok_def cache_content_def)
qed

interpretation cache: byte_cache reliable cache_write_buffer cache_read_buffer cache_set_read_position
  cache_set_write_position cache_has_enough_data cache_ok cache_content cc_read_handle
proof
  fix io bs c
  assume "reliable io" "cache_ok c"
  then show "cache_ok (cache_write_buffer io bs c) \<and> cache_content (cache_write_buffer io bs c) = cache_content c @ bs \<and>
      cc_read_handle (cache_write_buffer io bs c) = cc_read_handle c"
    using cache_write_ok by simp
next
  fix c
  assume "cache_ok c"
  then show "cache_has_enough_data c \<longleftrightarrow> cc_read_handle c < length (cache_content c)"
    by (auto simp: cache_ok_def cache_has_enough_data_def cache_content_def)
qed (use cache_read_ok in blast, auto simp: cache_set_read_position_def cache_set_write_position_def cache_set_handler_position_def
      cache_ok_def cache_content_def)

lemma fold_write_ok:
  assumes "reliable io" "cache_ok c"
  shows "cache_ok (fold (cache_write_buffer io) bss c) \<and> cc_read_handle (fold (cache_write_buffer io) bss c) = cc_read_handle c \<and>
    cache_content (fold (cache_write_buffer io) bss c) = cache_content c @ concat bss"
  using assms(2)
proof (induction bss arbitrary: c)
  case (Cons bs bss)
  then show ?case using cache_write_ok [OF assms(1) Cons.prems, of bs] by simp
qed simp

text \<open>
  C33: the cache is a queue of bytes. On a system that completes its writes and never fails, whatever buffers are written to a
  new cache and however short the reads are, reading until nothing is left returns the bytes of the buffers in order, after at
  most one read for each byte.
\<close>

theorem file_cache_fifo:
  assumes "reliable io"
  shows "\<exists>c. drain (length (concat bss)) cache_has_enough_data (cache_read_buffer io)
      (fold (cache_write_buffer io) bss create_cache) = (concat bss, c) \<and> \<not> cache_has_enough_data c"
proof -
  have "cache_ok create_cache" "cache_content create_cache = []" "cc_read_handle create_cache = 0"
    by (simp_all add: create_cache_def cache_ok_def cache_content_def)
  then show ?thesis
    using fold_write_ok [OF assms, of create_cache bss]
      cache.drain_all [OF assms, of "fold (cache_write_buffer io) bss create_cache" "length (concat bss)"] by auto
qed

theorem file_cache_fifo_witness:
  "\<exists>c. drain 3 cache_has_enough_data (cache_read_buffer \<lparr>io_map = True, io_alloc = True, io_wrap = True, io_write = int, io_read = \<lambda>_. 1\<rparr>)
      (fold (cache_write_buffer \<lparr>io_map = True, io_alloc = True, io_wrap = True, io_write = int, io_read = \<lambda>_. 1\<rparr>)
        [[1, 2], [3]] create_cache) = ([1, 2, 3], c) \<and> \<not> cache_has_enough_data c"
  using file_cache_fifo [of "\<lparr>io_map = True, io_alloc = True, io_wrap = True, io_write = int, io_read = \<lambda>_. 1\<rparr>" "[[1, 2], [3]]"]
  by (simp add: reliable_def numeral_3_eq_3 del: drain.simps fold_simps)

end
