(* ===== verification/Progress_Buffer.thy ===== *)
theory Progress_Buffer
  imports File_Cache
begin

text \<open>
  The progress buffer (gstreamer/plugins/progressbuffer/progressbuffer.c): an element that stores what
  the source sends in a cache and hands it on, in push mode from a task of its own
  (\<open>progress_buffer_loop\<close>) and in pull mode on request (\<open>progress_buffer_getrange\<close>). Each function is
  the code between taking and releasing the element's lock; where a thread waits or calls out without
  the lock, its control state is explicit. What GStreamer and the clock answer during a call is the
  parameter \<open>pb_env\<close> of that call, and floating-point arithmetic is the record \<open>pb_ops\<close>. The build flags
  \<open>ENABLE_PULL_MODE\<close> and \<open>ENABLE_SOURCE_SEEKING\<close> are set, as in the project's makefiles.
\<close>

section \<open>State\<close>

record bytes_segment =
  bs_rate :: gdouble
  bs_start :: nat
  bs_stop :: nat
  bs_position :: nat

datatype src_item = Src_Segment bytes_segment | Src_Eos

datatype pb_output =
    Po_Message nat nat nat bool
  | Po_Underrun
  | Po_Error string
  | Po_Warning
  | Po_Item src_item
  | Po_Buffer "byte list" nat
  | Po_Event string
  | Po_Upstream string
  | Po_Signal
  | Po_Add_Pad
  | Po_No_More_Pads
  | Po_Start_Task
  | Po_Stop_Task
  | Po_Pause_Task
  | Po_Start_Monitor
  | Po_Range_Ready
  | Po_Seek gdouble bool nat

record pb_ops =
  op_percent :: "nat \<Rightarrow> nat \<Rightarrow> gdouble"
  op_beyond :: "gdouble \<Rightarrow> gdouble \<Rightarrow> gdouble \<Rightarrow> bool"
  op_over_second :: "gdouble \<Rightarrow> bool"
  op_bandwidth :: "nat \<Rightarrow> gdouble \<Rightarrow> gdouble"
  op_tolerable :: "int \<Rightarrow> gdouble \<Rightarrow> gdouble \<Rightarrow> bool"
  op_too_far :: "nat \<Rightarrow> gdouble \<Rightarrow> gdouble \<Rightarrow> bool"
  op_prebuffer :: "gdouble \<Rightarrow> gdouble \<Rightarrow> int"

record pb_env =
  pe_io :: file_io
  pe_ops :: pb_ops
  pe_elapsed :: gdouble
  pe_cache :: bool
  pe_event :: bool
  pe_push :: GstFlowReturn
  pe_linked :: bool
  pe_pull :: bool

definition NO_RANGE_REQUEST :: int where "NO_RANGE_REQUEST = -1"

definition EOS_SIGNAL_LIMIT :: int where "EOS_SIGNAL_LIMIT = 1"

record ProgressBuffer =
  pb_srcpad :: bool
  pb_cache :: "Cache option"
  pb_pending_src_event :: "src_item option"
  pb_cache_read_offset :: int
  pb_sink_segment :: bytes_segment
  pb_last_update :: gdouble
  pb_threshold :: gdouble
  pb_subtotal :: nat
  pb_bandwidth :: gdouble
  pb_prebuffer_time :: gdouble
  pb_wait_tolerance :: gdouble
  pb_unexpected :: bool
  pb_srcresult :: GstFlowReturn
  pb_eos :: bool
  pb_signal_limit :: int
  pb_instant_seek :: bool
  pb_is_source_seeking :: bool
  pb_range_start :: int
  pb_range_stop :: int
  pb_monitor_thread :: bool
  pb_log :: "pb_output list"
  pb_lost :: nat

definition post :: "pb_output \<Rightarrow> ProgressBuffer \<Rightarrow> ProgressBuffer" where
  "post x e = e\<lparr>pb_log := pb_log e @ [x]\<rparr>"

text \<open>\<open>gst_segment_init\<close>: rate 1.0, no end.\<close>

definition init_segment :: bytes_segment where
  "init_segment = \<lparr>bs_rate = 0x3FF0000000000000, bs_start = 0, bs_stop = 2 ^ 64 - 1, bs_position = 0\<rparr>"

definition progress_buffer_flush_data :: "ProgressBuffer \<Rightarrow> ProgressBuffer" where
  "progress_buffer_flush_data e = e\<lparr>pb_last_update := 0, pb_bandwidth := 0, pb_subtotal := 0,
     pb_pending_src_event := None, pb_sink_segment := init_segment, pb_range_start := NO_RANGE_REQUEST,
     pb_range_stop := NO_RANGE_REQUEST\<rparr>"

text \<open>A new element: zeroed memory, the default values of the properties, then \<open>progress_buffer_init\<close>.\<close>

definition progress_buffer_init :: ProgressBuffer where
  "progress_buffer_init = progress_buffer_flush_data
    \<lparr>pb_srcpad = False, pb_cache = None, pb_pending_src_event = None, pb_cache_read_offset = 0,
     pb_sink_segment = init_segment, pb_last_update = 0, pb_threshold = 0x3FF0000000000000, pb_subtotal = 0,
     pb_bandwidth = 0, pb_prebuffer_time = 0x4000000000000000, pb_wait_tolerance = 0x4000000000000000,
     pb_unexpected = False, pb_srcresult = GST_FLOW_OK, pb_eos = False, pb_signal_limit = 0,
     pb_instant_seek = False, pb_is_source_seeking = False, pb_range_start = 0, pb_range_stop = 0,
     pb_monitor_thread = False, pb_log = [], pb_lost = 0\<rparr>"

datatype pb_property = Prop_Threshold | Prop_Prebuffer_Time | Prop_Wait_Tolerance

definition progress_buffer_set_property :: "pb_property \<Rightarrow> gdouble \<Rightarrow> ProgressBuffer \<Rightarrow> ProgressBuffer" where
  "progress_buffer_set_property p v e =
    (case p of
       Prop_Threshold \<Rightarrow> e\<lparr>pb_threshold := v\<rparr>
     | Prop_Prebuffer_Time \<Rightarrow> e\<lparr>pb_prebuffer_time := v\<rparr>
     | Prop_Wait_Tolerance \<Rightarrow> e\<lparr>pb_wait_tolerance := v\<rparr>)"

definition progress_buffer_set_pending_event :: "src_item option \<Rightarrow> ProgressBuffer \<Rightarrow> ProgressBuffer" where
  "progress_buffer_set_pending_event ev e = e\<lparr>pb_pending_src_event := ev\<rparr>"

definition reset_eos :: "bool \<Rightarrow> ProgressBuffer \<Rightarrow> ProgressBuffer" where
  "reset_eos clear_pending_event e =
    (let e = e\<lparr>pb_eos := False, pb_signal_limit := EOS_SIGNAL_LIMIT\<rparr>
     in if clear_pending_event then progress_buffer_set_pending_event None e else e)"

definition pending_eos :: "ProgressBuffer \<Rightarrow> bool \<times> ProgressBuffer" where
  "pending_eos e =
    (let result = pb_eos e \<and> pb_signal_limit e > 0
     in (result, if result then e\<lparr>pb_signal_limit := pb_signal_limit e - 1\<rparr> else e))"

section \<open>Activation\<close>

definition progress_buffer_activatepull_src :: "bool \<Rightarrow> ProgressBuffer \<Rightarrow> ProgressBuffer" where
  "progress_buffer_activatepull_src active e =
    (if active
     then let e = (reset_eos False (e\<lparr>pb_srcresult := GST_FLOW_OK\<rparr>))\<lparr>pb_unexpected := False\<rparr>
          in if \<not> pb_monitor_thread e then post Po_Start_Monitor (e\<lparr>pb_monitor_thread := True\<rparr>) else e
     else if pb_monitor_thread e
     then post Po_Signal (e\<lparr>pb_srcresult := GST_FLOW_FLUSHING, pb_monitor_thread := False\<rparr>)
     else e)"

definition progress_buffer_activatepush_src :: "pb_env \<Rightarrow> bool \<Rightarrow> ProgressBuffer \<Rightarrow> ProgressBuffer" where
  "progress_buffer_activatepush_src E active e =
    (if active
     then let e = (reset_eos False (e\<lparr>pb_srcresult := GST_FLOW_OK\<rparr>))\<lparr>pb_unexpected := False\<rparr>
          in if pe_linked E then post Po_Start_Task e else e
     else post Po_Stop_Task (post Po_Signal (e\<lparr>pb_srcresult := GST_FLOW_FLUSHING\<rparr>)))"

definition progress_buffer_activatemode :: "pb_env \<Rightarrow> bool \<Rightarrow> bool \<Rightarrow> ProgressBuffer \<Rightarrow> ProgressBuffer" where
  "progress_buffer_activatemode E pull_mode active e =
    (if pull_mode then progress_buffer_activatepull_src active e else progress_buffer_activatepush_src E active e)"

text \<open>Adding and activating the source pad: GStreamer picks the mode of the activation.\<close>

definition progress_buffer_create_sourcepad :: "pb_env \<Rightarrow> ProgressBuffer \<Rightarrow> ProgressBuffer" where
  "progress_buffer_create_sourcepad E e =
     post Po_No_More_Pads (progress_buffer_activatemode E (pe_pull E) True (post Po_Add_Pad (e\<lparr>pb_srcpad := True\<rparr>)))"

section \<open>Data and events from the source\<close>

definition send_position_message :: "pb_env \<Rightarrow> bool \<Rightarrow> ProgressBuffer \<Rightarrow> bool \<times> ProgressBuffer" where
  "send_position_message E mandatory e =
    (let s = pb_sink_segment e; percent = op_percent (pe_ops E) (bs_position s) (bs_stop s);
         mandatory = (mandatory \<or> op_beyond (pe_ops E) percent (pb_last_update e) (pb_threshold e))
     in (mandatory,
         if mandatory
         then (post (Po_Message (bs_start s) (bs_position s) (bs_stop s) (pb_eos e)) e)\<lparr>pb_last_update := percent\<rparr>
         else e))"

definition signal_if :: "bool \<times> ProgressBuffer \<Rightarrow> ProgressBuffer" where
  "signal_if r = (if fst r then post Po_Signal (snd r) else snd r)"

definition measure_bandwidth :: "pb_env \<Rightarrow> nat \<Rightarrow> ProgressBuffer \<Rightarrow> ProgressBuffer" where
  "measure_bandwidth E n e =
    (let e = e\<lparr>pb_subtotal := add64 (pb_subtotal e) n\<rparr>
     in if op_over_second (pe_ops E) (pe_elapsed E)
        then e\<lparr>pb_bandwidth := op_bandwidth (pe_ops E) (pb_subtotal e) (pe_elapsed E), pb_subtotal := 0\<rparr>
        else e)"

definition enqueue_buffer ::
    "pb_env \<Rightarrow> byte list \<Rightarrow> nat \<Rightarrow> ProgressBuffer \<Rightarrow> (GstFlowReturn \<times> ProgressBuffer) option" where
  "enqueue_buffer E data offset e =
    (let e = e\<lparr>pb_sink_segment := (pb_sink_segment e)\<lparr>bs_position := add64 offset (length data)\<rparr>\<rparr>
     in if bs_stop (pb_sink_segment e) < bs_position (pb_sink_segment e) then Some (GST_FLOW_ERROR, e)
        else do {
          c \<leftarrow> pb_cache e;
          let e = e\<lparr>pb_cache := Some (cache_write_buffer (pe_io E) data c)\<rparr>;
          Some (GST_FLOW_OK,
            signal_if (send_position_message E False (measure_bandwidth E (length data) e))) })"

text \<open>
  The end of the stream clears the pending event. \<open>pb_lost\<close> counts the segments that were pending then and that nobody sends
  any more; the code has no such counter.
\<close>

definition segment_pending :: "ProgressBuffer \<Rightarrow> bool" where
  "segment_pending e \<longleftrightarrow> (case pb_pending_src_event e of Some (Src_Segment seg) \<Rightarrow> True | _ \<Rightarrow> False)"

definition enqueue_eos :: "pb_env \<Rightarrow> ProgressBuffer \<Rightarrow> ProgressBuffer" where
  "enqueue_eos E e =
    (let s = pb_sink_segment e;
         e = e\<lparr>pb_eos := True, pb_lost := pb_lost e + (if segment_pending e then 1 else 0),
               pb_sink_segment := (if bs_position s < bs_stop s then s\<lparr>bs_stop := bs_position s\<rparr> else s)\<rparr>
     in signal_if (send_position_message E True (progress_buffer_set_pending_event None e)))"

text \<open>The sizes are unsigned, so \<open>stop - start <= 0\<close> is \<open>stop = start\<close>.\<close>

definition enqueue_segment ::
    "pb_env \<Rightarrow> bool \<Rightarrow> bool \<Rightarrow> bytes_segment \<Rightarrow> ProgressBuffer \<Rightarrow> (GstFlowReturn \<times> ProgressBuffer) option" where
  "enqueue_segment E bytes_format update seg e =
    (let e = e\<lparr>pb_unexpected := False\<rparr>
     in if \<not> bytes_format then Some (GST_FLOW_ERROR, post (Po_Error ''GST_FORMAT_BYTES buffers expected.'') e)
        else if sub64 (bs_stop seg) (bs_start seg) = 0
        then Some (GST_FLOW_ERROR, post (Po_Error ''Only limited content is supported by progressbuffer.'') e)
        else if update \<and> \<not> pe_cache E
        then Some (GST_FLOW_ERROR, post (Po_Error ''Couldn't create backing cache'') (e\<lparr>pb_cache := None\<rparr>))
        else do {
          e \<leftarrow> (if update then Some (e\<lparr>pb_cache := Some create_cache\<rparr>)
                else do {
                  c \<leftarrow> pb_cache e;
                  let c = snd (cache_set_read_position 0 (snd (cache_set_write_position 0 c)));
                  Some (e\<lparr>pb_cache := Some c, pb_cache_read_offset := s64 (int (bs_start seg))\<rparr>) });
          let e = progress_buffer_set_pending_event (Some (Src_Segment seg)) (e\<lparr>pb_sink_segment := seg\<rparr>);
          Some (GST_FLOW_OK, signal_if (send_position_message E True (e\<lparr>pb_instant_seek := True\<rparr>))) })"

datatype sink_item =
    Sink_Eos
  | Sink_Segment bool bool bytes_segment
  | Sink_Serialized string
  | Sink_Flush_Start
  | Sink_Flush_Stop
  | Sink_Immediate string

datatype pb_item = Item_Buffer "byte list" nat | Item_Event sink_item

definition progress_buffer_enqueue_item ::
    "pb_env \<Rightarrow> pb_item \<Rightarrow> ProgressBuffer \<Rightarrow> (GstFlowReturn \<times> ProgressBuffer) option" where
  "progress_buffer_enqueue_item E item e =
    (case item of
       Item_Buffer data offset \<Rightarrow> enqueue_buffer E data offset e
     | Item_Event Sink_Eos \<Rightarrow> Some (GST_FLOW_OK, enqueue_eos E e)
     | Item_Event (Sink_Segment bytes_format update seg) \<Rightarrow> enqueue_segment E bytes_format update seg e
     | Item_Event _ \<Rightarrow> Some (GST_FLOW_OK, e))"

definition progress_buffer_chain ::
    "pb_env \<Rightarrow> byte list \<Rightarrow> nat \<Rightarrow> ProgressBuffer \<Rightarrow> (GstFlowReturn \<times> ProgressBuffer) option" where
  "progress_buffer_chain E data offset e =
    do { (result, e) \<leftarrow>
           (if pb_eos e \<or> pb_unexpected e then Some (GST_FLOW_EOS, e)
            else progress_buffer_enqueue_item E (Item_Buffer data offset) e);
         Some (result, if result \<noteq> GST_FLOW_ERROR \<and> \<not> pb_srcpad e then progress_buffer_create_sourcepad E e else e) }"

text \<open>Events: flush events during a source seek are dropped, serialized ones go to the cache, the others downstream.\<close>

definition item_name :: "sink_item \<Rightarrow> string" where
  "item_name ev = (case ev of Sink_Flush_Start \<Rightarrow> ''flush-start'' | Sink_Flush_Stop \<Rightarrow> ''flush-stop''
     | Sink_Immediate n \<Rightarrow> n | Sink_Serialized n \<Rightarrow> n | Sink_Eos \<Rightarrow> ''eos'' | Sink_Segment _ _ _ \<Rightarrow> ''segment'')"

definition serialized :: "sink_item \<Rightarrow> bool" where
  "serialized ev \<longleftrightarrow> (case ev of Sink_Flush_Start \<Rightarrow> False | Sink_Immediate _ \<Rightarrow> False | _ \<Rightarrow> True)"

definition progress_buffer_sink_event ::
    "pb_env \<Rightarrow> sink_item \<Rightarrow> ProgressBuffer \<Rightarrow> (bool \<times> ProgressBuffer) option" where
  "progress_buffer_sink_event E ev e =
    (if pb_is_source_seeking e \<and> (ev = Sink_Flush_Start \<or> ev = Sink_Flush_Stop) then Some (True, e)
     else if serialized ev \<and> ev \<noteq> Sink_Flush_Stop
     then if pb_eos e then Some (False, e)
          else do { (result, e) \<leftarrow> progress_buffer_enqueue_item E (Item_Event ev) e; Some (True, e) }
     else if pb_srcpad e then Some (pe_event E, post (Po_Event (item_name ev)) e) else Some (False, e))"

section \<open>The task of push mode\<close>

text \<open>
  Where the thread of \<open>progress_buffer_loop\<close> is: between two calls of the function, at the label
  \<open>next_item\<close> with its local \<open>skip\<close>, in \<open>g_cond_wait\<close>, or in \<open>gst_pad_push\<close> without the lock.
\<close>

datatype loop_pc = Loop_Stopped | Loop_Ready | Loop_At bool | Loop_Waiting bool | Loop_Pushing

definition loop_end :: "GstFlowReturn \<Rightarrow> ProgressBuffer \<Rightarrow> loop_pc \<times> ProgressBuffer" where
  "loop_end result e = (if result \<noteq> GST_FLOW_OK then (Loop_Stopped, post Po_Pause_Task e) else (Loop_Ready, e))"

definition loop_event :: "src_item \<Rightarrow> ProgressBuffer \<Rightarrow> loop_pc \<times> ProgressBuffer" where
  "loop_event ev e =
    (let result = (case ev of Src_Eos \<Rightarrow> GST_FLOW_EOS | Src_Segment _ \<Rightarrow> GST_FLOW_OK)
     in loop_end result (post (Po_Item ev) ((progress_buffer_set_pending_event None e)\<lparr>pb_srcresult := result\<rparr>)))"

text \<open>A NULL buffer from the cache is dereferenced at once.\<close>

definition loop_buffer :: "pb_env \<Rightarrow> bool \<Rightarrow> ProgressBuffer \<Rightarrow> (loop_pc \<times> ProgressBuffer) option" where
  "loop_buffer E skip e =
    do { c \<leftarrow> pb_cache e;
         let (pos, buffer, c) = cache_read_buffer (pe_io E) c;
         let read_position = nat ((pos + pb_cache_read_offset e) mod 2 ^ 64);
         buffer \<leftarrow> buffer;
         let offset = sub64 read_position (length (cb_data buffer));
         let e = e\<lparr>pb_cache := Some c\<rparr>;
         let e = (if read_position = bs_stop (pb_sink_segment e)
                  then progress_buffer_set_pending_event (Some Src_Eos) e else e);
         Some (if skip then (Loop_At True, e) else (Loop_Pushing, post (Po_Buffer (cb_data buffer) offset) e)) }"

definition progress_buffer_loop_item :: "pb_env \<Rightarrow> bool \<Rightarrow> ProgressBuffer \<Rightarrow> (loop_pc \<times> ProgressBuffer) option" where
  "progress_buffer_loop_item E skip e =
    (if pb_srcresult e = GST_FLOW_OK
     then case pb_pending_src_event e of
         Some ev \<Rightarrow> Some (loop_event ev e)
       | None \<Rightarrow> do {
           c \<leftarrow> pb_cache e;
           if \<not> cache_has_enough_data c \<or> \<not> pb_instant_seek e
           then Some (Loop_Waiting skip, if pb_instant_seek e then post Po_Underrun e else e)
           else loop_buffer E skip e }
     else if skip then Some (Loop_Ready, e\<lparr>pb_unexpected := True\<rparr>)
     else Some (loop_end (pb_srcresult e) e))"

text \<open>When \<open>gst_pad_push\<close> has returned.\<close>

definition progress_buffer_loop_pushed :: "pb_env \<Rightarrow> ProgressBuffer \<Rightarrow> loop_pc \<times> ProgressBuffer" where
  "progress_buffer_loop_pushed E e =
    (if pe_push E = GST_FLOW_EOS then (Loop_At True, e)
     else loop_end (pe_push E) (e\<lparr>pb_srcresult := pe_push E\<rparr>))"

section \<open>Seeking in push mode\<close>

record push_seek =
  ps_bytes :: bool
  ps_start_set :: bool
  ps_stop_none :: bool
  ps_flush :: bool
  ps_rate :: gdouble
  ps_position :: int

text \<open>Up to the wait for the task's stream lock; \<open>False\<close> is an early return.\<close>

definition seek_begin :: "push_seek \<Rightarrow> ProgressBuffer \<Rightarrow> bool \<times> ProgressBuffer" where
  "seek_begin s e =
    (if \<not> ps_bytes s \<or> \<not> ps_start_set s then (False, e)
     else if \<not> ps_stop_none s then (False, post Po_Warning e)
     else (True, post Po_Signal ((if ps_flush s then post (Po_Event ''flush-start'') e else e)
                   \<lparr>pb_srcresult := GST_FLOW_FLUSHING\<rparr>)))"

definition seek_in_cache :: "push_seek \<Rightarrow> ProgressBuffer \<Rightarrow> ProgressBuffer option" where
  "seek_in_cache s e =
    do { c \<leftarrow> pb_cache e;
         let c = snd (cache_set_read_position (ps_position s - pb_cache_read_offset e) c);
         let position = nat (ps_position s mod 2 ^ 64);
         Some (progress_buffer_set_pending_event
           (Some (Src_Segment \<lparr>bs_rate = ps_rate s, bs_start = position, bs_stop = bs_stop (pb_sink_segment e),
                              bs_position = position\<rparr>)) (e\<lparr>pb_cache := Some c\<rparr>)) }"

definition seek_is_instant :: "pb_env \<Rightarrow> push_seek \<Rightarrow> ProgressBuffer \<Rightarrow> bool" where
  "seek_is_instant E s e \<longleftrightarrow>
     nat (ps_position s mod 2 ^ 64) \<ge> bs_start (pb_sink_segment e) \<and>
     op_tolerable (pe_ops E) (ps_position s - s64 (int (bs_position (pb_sink_segment e)))) (pb_bandwidth e)
       (pb_wait_tolerance e)"

definition seek_end :: "pb_env \<Rightarrow> push_seek \<Rightarrow> ProgressBuffer \<Rightarrow> ProgressBuffer option" where
  "seek_end E s e =
    do { let instant = seek_is_instant E s e;
         let e = e\<lparr>pb_srcresult := GST_FLOW_OK, pb_instant_seek := instant\<rparr>;
         e \<leftarrow> (if instant then seek_in_cache s e
               else let e = post (Po_Seek (ps_rate s) (ps_flush s) (nat (ps_position s mod 2 ^ 64)))
                              ((reset_eos True e)\<lparr>pb_is_source_seeking := True\<rparr>)
                    in map_option (\<lambda>e. e\<lparr>pb_is_source_seeking := False\<rparr>)
                         (if pe_event E then Some e else seek_in_cache s (e\<lparr>pb_instant_seek := True\<rparr>)));
         Some (post Po_Start_Task (if ps_flush s then post (Po_Event ''flush-stop'') e else e)) }"

text \<open>
  \<open>seek_end\<close> asks the source to seek without holding the element's lock, and the source's task may run meanwhile. Here it
  is the locked part, which tells whether the seek is served from the cache, and what follows the source's answer.
\<close>

definition seek_locked :: "pb_env \<Rightarrow> push_seek \<Rightarrow> ProgressBuffer \<Rightarrow> (bool \<times> ProgressBuffer) option" where
  "seek_locked E k e =
    (let instant = seek_is_instant E k e; e = e\<lparr>pb_srcresult := GST_FLOW_OK, pb_instant_seek := instant\<rparr>
     in if instant then map_option (Pair True) (seek_in_cache k e)
        else Some (False, post (Po_Seek (ps_rate k) (ps_flush k) (nat (ps_position k mod 2 ^ 64)))
                            ((reset_eos True e)\<lparr>pb_is_source_seeking := True\<rparr>)))"

definition seek_answered :: "push_seek \<Rightarrow> bool \<Rightarrow> ProgressBuffer \<Rightarrow> ProgressBuffer option" where
  "seek_answered k ok e =
     map_option (\<lambda>e. e\<lparr>pb_is_source_seeking := False\<rparr>) (if ok then Some e else seek_in_cache k (e\<lparr>pb_instant_seek := True\<rparr>))"

definition seek_restart :: "push_seek \<Rightarrow> ProgressBuffer \<Rightarrow> ProgressBuffer" where
  "seek_restart k e = post Po_Start_Task (if ps_flush k then post (Po_Event ''flush-stop'') e else e)"

lemma seek_end_parts:
  "seek_end E k e =
    do { (instant, e) \<leftarrow> seek_locked E k e;
         e \<leftarrow> (if instant then Some e else seek_answered k (pe_event E) e);
         Some (seek_restart k e) }"
  by (cases "seek_in_cache k (e\<lparr>pb_srcresult := GST_FLOW_OK, pb_instant_seek := True\<rparr>)")
    (simp_all add: seek_end_def seek_locked_def seek_answered_def seek_restart_def Let_def)

definition progress_buffer_perform_push_seek ::
    "pb_env \<Rightarrow> push_seek \<Rightarrow> ProgressBuffer \<Rightarrow> (bool \<times> ProgressBuffer) option" where
  "progress_buffer_perform_push_seek E s e =
    (let (go, e) = seek_begin s e in if go then map_option (Pair True) (seek_end E s e) else Some (False, e))"

section \<open>Pull mode\<close>

definition VALID_RANGE :: "int \<Rightarrow> bool" where
  "VALID_RANGE v \<longleftrightarrow> v \<noteq> NO_RANGE_REQUEST"

text \<open>Mixed comparisons convert the signed side to \<open>guint64\<close>.\<close>

definition pending_range_start :: "ProgressBuffer \<Rightarrow> bool" where
  "pending_range_start e \<longleftrightarrow> VALID_RANGE (pb_range_start e) \<and>
     bs_start (pb_sink_segment e) > nat (pb_range_start e mod 2 ^ 64)"

definition pending_range_stop :: "ProgressBuffer \<Rightarrow> bool" where
  "pending_range_stop e \<longleftrightarrow> VALID_RANGE (pb_range_stop e) \<and>
     bs_position (pb_sink_segment e) < nat (pb_range_stop e mod 2 ^ 64)"

datatype monitor_pc = Monitor_Waiting | Monitor_Check | Monitor_Exit

text \<open>One pass of the range monitor from \<open>check_loop\<close>.\<close>

definition progress_buffer_range_monitor :: "ProgressBuffer \<Rightarrow> monitor_pc \<times> ProgressBuffer" where
  "progress_buffer_range_monitor e =
    (if pb_srcresult e \<noteq> GST_FLOW_OK then (Monitor_Exit, e)
     else let (eos, e) = pending_eos e
          in if \<not> eos \<and> (pending_range_start e \<or> pending_range_stop e \<or>
                 \<not> VALID_RANGE (pb_range_start e) \<and> \<not> VALID_RANGE (pb_range_stop e))
             then (Monitor_Waiting, e)
             else if VALID_RANGE (pb_range_start e) \<or> VALID_RANGE (pb_range_stop e)
             then (Monitor_Check,
                   post Po_Range_Ready (e\<lparr>pb_range_stop := NO_RANGE_REQUEST, pb_range_start := NO_RANGE_REQUEST\<rparr>))
             else (Monitor_Exit, e))"

text \<open>The range the request waits for, and whether it asks the source to seek.\<close>

definition request_range :: "pb_env \<Rightarrow> nat \<Rightarrow> nat \<Rightarrow> ProgressBuffer \<Rightarrow> bool \<times> ProgressBuffer" where
  "request_range E start_position end_position e =
    (let needs_seeking = bs_start (pb_sink_segment e) > start_position;
         e = (if needs_seeking then reset_eos True (e\<lparr>pb_range_start := s64 (int start_position)\<rparr>) else e);
         s = pb_sink_segment e
     in if bs_position s < end_position
        then let stop = s64 (int end_position + op_prebuffer (pe_ops E) (pb_bandwidth e) (pb_prebuffer_time e));
                 stop = (if bs_stop s < nat (stop mod 2 ^ 64) then s64 (int (bs_stop s)) else stop)
             in (op_too_far (pe_ops E) (sub64 end_position (bs_position s)) (pb_bandwidth e) (pb_wait_tolerance e),
                 e\<lparr>pb_range_stop := stop\<rparr>)
        else (needs_seeking, e))"

definition progress_buffer_getrange ::
    "pb_env \<Rightarrow> nat \<Rightarrow> nat \<Rightarrow> ProgressBuffer \<Rightarrow> (GstFlowReturn \<times> cache_buffer option \<times> ProgressBuffer) option" where
  "progress_buffer_getrange E start_position count e =
    (let end_position = add64 start_position count; s = pb_sink_segment e
     in if bs_stop s < end_position then Some (GST_FLOW_EOS, None, e)
        else if bs_start s \<le> start_position \<and> bs_position s \<ge> end_position
        then do { c \<leftarrow> pb_cache e;
                  let (result, buffer, c) =
                    cache_read_buffer_from_position (pe_io E) (s64 (int start_position)) count c;
                  Some (result, buffer, e\<lparr>pb_cache := Some c\<rparr>) }
        else let (needs_seeking, e) = request_range E start_position end_position e;
                 e = post Po_Underrun e
             in Some (GST_FLOW_FLUSHING, None,
                  if needs_seeking then post (Po_Seek (bs_rate (pb_sink_segment e)) False start_position) e else e))"

section \<open>Events from downstream and state changes\<close>

datatype src_pad_event = Down_Seek push_seek | Down_Other string

definition progress_buffer_src_event ::
    "pb_env \<Rightarrow> bool \<Rightarrow> src_pad_event \<Rightarrow> ProgressBuffer \<Rightarrow> (bool \<times> ProgressBuffer) option" where
  "progress_buffer_src_event E pull_mode ev e =
    (if pull_mode then Some (True, e)
     else case ev of
         Down_Seek s \<Rightarrow> progress_buffer_perform_push_seek E s e
       | Down_Other name \<Rightarrow> Some (pe_event E, post (Po_Upstream name) e))"

definition progress_buffer_paused_to_ready :: "ProgressBuffer \<Rightarrow> ProgressBuffer" where
  "progress_buffer_paused_to_ready e =
     post Po_Signal (progress_buffer_flush_data (e\<lparr>pb_srcresult := GST_FLOW_FLUSHING\<rparr>))"

end
