(* ===== verification/Progress_Stream.thy ===== *)
theory Progress_Stream
  imports Progress_Buffer
begin

text \<open>
  What the progress buffer hands on in push mode, for every interleaving of the source's thread, the
  element's task and the application's seeks: every buffer holds the bytes of the stream at its
  offset, and after a segment event the buffers follow each other without gap or overlap
  from the start of the segment, except that the buffers jump once for each segment that an end of the
  stream made the element forget.
\<close>

section \<open>What is sent downstream\<close>

fun follow :: "nat option \<Rightarrow> pb_output \<Rightarrow> nat option" where
  "follow x (Po_Item (Src_Segment seg)) = Some (bs_start seg)"
| "follow x (Po_Buffer data offset) = Some (offset + length data)"
| "follow x _ = x"

text \<open>The offset at which the next buffer has to start.\<close>

definition track :: "pb_output list \<Rightarrow> nat option" where
  "track log = foldl follow None log"

primrec ordered :: "nat option \<Rightarrow> pb_output list \<Rightarrow> bool" where
  "ordered x [] = True"
| "ordered x (y # ys) = ((case y of Po_Buffer _ offset \<Rightarrow> x = Some offset | _ \<Rightarrow> True) \<and> ordered (follow x y) ys)"

text \<open>How often a buffer does not start where it has to.\<close>

primrec gaps :: "nat option \<Rightarrow> pb_output list \<Rightarrow> nat" where
  "gaps x [] = 0"
| "gaps x (y # ys) = (case y of Po_Buffer _ offset \<Rightarrow> (if x = Some offset then 0 else 1) | _ \<Rightarrow> 0) + gaps (follow x y) ys"

definition faithful :: "(nat \<Rightarrow> byte) \<Rightarrow> pb_output list \<Rightarrow> bool" where
  "faithful src log \<longleftrightarrow> (\<forall>data offset. Po_Buffer data offset \<in> set log \<longrightarrow> data = map src [offset..<offset + length data])"

definition silent :: "pb_output \<Rightarrow> bool" where
  "silent y \<longleftrightarrow> (case y of Po_Item (Src_Segment _) \<Rightarrow> False | Po_Buffer _ _ \<Rightarrow> False | _ \<Rightarrow> True)"

lemma gaps_append: "gaps x (ys @ zs) = gaps x ys + gaps (foldl follow x ys) zs"
  by (induction ys arbitrary: x) auto

lemma no_gaps: "gaps x ys = 0 \<longleftrightarrow> ordered x ys"
  by (induction ys arbitrary: x) (auto split: pb_output.split)

lemma silent_follow: "silent y \<Longrightarrow> follow x y = x"
  by (cases "(x, y)" rule: follow.cases) (auto simp: silent_def)

lemma silent_gaps: "list_all silent ys \<Longrightarrow> gaps x ys = 0 \<and> foldl follow x ys = x"
  by (induction ys) (auto simp: silent_follow silent_def split: pb_output.splits)

definition good_log :: "(nat \<Rightarrow> byte) \<Rightarrow> nat \<Rightarrow> pb_output list \<Rightarrow> bool" where
  "good_log src lost log \<longleftrightarrow> gaps None log \<le> lost \<and> faithful src log"

text \<open>The next buffer may start at \<open>x\<close>.\<close>

definition expects :: "nat \<Rightarrow> pb_output list \<Rightarrow> nat \<Rightarrow> bool" where
  "expects lost log x \<longleftrightarrow> track log = Some x \<or> gaps None log < lost"

lemma good_log_silent:
  assumes "list_all silent ys"
  shows "good_log src lost (log @ ys) = good_log src lost log" "track (log @ ys) = track log"
    "expects lost (log @ ys) x = expects lost log x"
  using silent_gaps [OF assms] assms
  by (auto simp: good_log_def expects_def gaps_append track_def faithful_def list_all_iff silent_def)

lemma good_log_segment:
  "good_log src lost (log @ [Po_Item (Src_Segment seg)]) = good_log src lost log"
  "expects lost (log @ [Po_Item (Src_Segment seg)]) (bs_start seg)"
  by (auto simp: good_log_def expects_def gaps_append track_def faithful_def)

lemma good_log_buffer:
  assumes "good_log src lost log" "expects lost log offset" "data = map src [offset..<offset + length data]"
  shows "good_log src lost (log @ [Po_Buffer data offset])"
    "expects lost (log @ [Po_Buffer data offset]) (offset + length data)"
  using assms by (auto simp: good_log_def expects_def gaps_append track_def faithful_def)

lemma good_log_lost: "good_log src lost log \<Longrightarrow> good_log src (Suc lost) log \<and> expects (Suc lost) log x"
  by (auto simp: good_log_def expects_def)

section \<open>The steps of the threads\<close>

text \<open>
  A seek in its parts: until the task has stopped, and while the source is asked without the element's lock. The
  lock of the task is held from the first part to the end.
\<close>

datatype pb_seek = Pb_Idle | Pb_Begun push_seek | Pb_Asked push_seek

definition pb_seek_of :: "pb_seek \<Rightarrow> push_seek option" where
  "pb_seek_of q = (case q of Pb_Idle \<Rightarrow> None | Pb_Begun k \<Rightarrow> Some k | Pb_Asked k \<Rightarrow> Some k)"

definition pb_lock_free :: "pb_seek \<Rightarrow> bool" where
  "pb_lock_free q \<longleftrightarrow> (case q of Pb_Asked _ \<Rightarrow> False | _ \<Rightarrow> True)"

text \<open>
  The element, where its task is, a seek under way, and the position up to which the
  source has sent the stream \<open>src\<close>.
\<close>

record pb_sys =
  sy_pb :: ProgressBuffer
  sy_pc :: loop_pc
  sy_seek :: pb_seek
  sy_next :: nat

definition sys_init :: pb_sys where
  "sys_init = \<lparr>sy_pb = progress_buffer_init, sy_pc = Loop_Stopped, sy_seek = Pb_Idle, sy_next = 0\<rparr>"

text \<open>
  The source sends well-formed segments, then the bytes of the stream from the start of the last accepted segment on,
  and ends the stream whenever it likes; a new cache starts where the offset of the element stands. It accepts seeks to
  before the cached part.
\<close>

inductive pb_step :: "(nat \<Rightarrow> byte) \<Rightarrow> pb_sys \<Rightarrow> pb_sys \<Rightarrow> bool" for src where
  step_buffer: "progress_buffer_chain E (map src [sy_next s..<sy_next s + n]) (sy_next s) (sy_pb s) = Some (r, e) \<Longrightarrow>
    reliable (pe_io E) \<Longrightarrow> \<not> pe_pull E \<Longrightarrow> sy_next s + n < 2 ^ 63 \<Longrightarrow>
    pb_step src s (s\<lparr>sy_pb := e, sy_next := (if r = GST_FLOW_OK then sy_next s + n else sy_next s)\<rparr>)"
| step_segment: "progress_buffer_sink_event E (Sink_Segment True update seg) (sy_pb s) = Some (r, e) \<Longrightarrow>
    pe_cache E \<Longrightarrow> bs_start seg < bs_stop seg \<Longrightarrow> bs_stop seg < 2 ^ 63 \<Longrightarrow>
    bs_position seg = bs_start seg \<Longrightarrow> (update \<Longrightarrow> int (bs_start seg) = pb_cache_read_offset (sy_pb s)) \<Longrightarrow>
    pb_step src s (s\<lparr>sy_pb := e, sy_next := (if r then bs_start seg else sy_next s)\<rparr>)"
| step_eos: "progress_buffer_sink_event E Sink_Eos (sy_pb s) = Some (r, e) \<Longrightarrow> pb_step src s (s\<lparr>sy_pb := e\<rparr>)"
| step_event: "progress_buffer_sink_event E ev (sy_pb s) = Some (r, e) \<Longrightarrow>
    ev \<noteq> Sink_Eos \<Longrightarrow> (\<And>b u seg. ev \<noteq> Sink_Segment b u seg) \<Longrightarrow> pb_step src s (s\<lparr>sy_pb := e\<rparr>)"
| step_start: "pb_srcpad (sy_pb s) \<Longrightarrow> sy_pc s = Loop_Stopped \<Longrightarrow> pb_step src s (s\<lparr>sy_pc := Loop_Ready\<rparr>)"
| step_call: "sy_pc s = Loop_Ready \<Longrightarrow> pb_lock_free (sy_seek s) \<Longrightarrow> pb_step src s (s\<lparr>sy_pc := Loop_At False\<rparr>)"
| step_wake: "sy_pc s = Loop_Waiting skip \<Longrightarrow> pb_step src s (s\<lparr>sy_pc := Loop_At skip\<rparr>)"
| step_item: "sy_pc s = Loop_At skip \<Longrightarrow> progress_buffer_loop_item E skip (sy_pb s) = Some (pc, e) \<Longrightarrow>
    reliable (pe_io E) \<Longrightarrow> pb_step src s (s\<lparr>sy_pb := e, sy_pc := pc\<rparr>)"
| step_pushed: "sy_pc s = Loop_Pushing \<Longrightarrow> progress_buffer_loop_pushed E (sy_pb s) = (pc, e) \<Longrightarrow>
    pb_step src s (s\<lparr>sy_pb := e, sy_pc := pc\<rparr>)"
| step_seek_begin: "pb_srcpad (sy_pb s) \<Longrightarrow> sy_seek s = Pb_Idle \<Longrightarrow> 0 \<le> ps_position k \<Longrightarrow> ps_position k < 2 ^ 63 \<Longrightarrow>
    seek_begin k (sy_pb s) = (go, e) \<Longrightarrow> pb_step src s (s\<lparr>sy_pb := e, sy_seek := (if go then Pb_Begun k else Pb_Idle)\<rparr>)"
| step_seek_locked: "sy_seek s = Pb_Begun k \<Longrightarrow> sy_pc s \<in> {Loop_Stopped, Loop_Ready} \<Longrightarrow>
    seek_locked E k (sy_pb s) = Some (instant, e) \<Longrightarrow>
    pb_step src s (if instant then s\<lparr>sy_pb := seek_restart k e, sy_seek := Pb_Idle, sy_pc := Loop_Ready\<rparr>
                   else s\<lparr>sy_pb := e, sy_seek := Pb_Asked k\<rparr>)"
| step_seek_answered: "sy_seek s = Pb_Asked k \<Longrightarrow> seek_answered k ok (sy_pb s) = Some e \<Longrightarrow>
    (ok \<or> pb_cache_read_offset (sy_pb s) \<le> ps_position k) \<Longrightarrow>
    pb_step src s (s\<lparr>sy_pb := seek_restart k e, sy_seek := Pb_Idle, sy_pc := Loop_Ready\<rparr>)"

inductive pb_run :: "(nat \<Rightarrow> byte) \<Rightarrow> pb_sys \<Rightarrow> bool" for src where
  run_start: "pb_run src sys_init"
| run_step: "pb_run src s \<Longrightarrow> pb_step src s s' \<Longrightarrow> pb_run src s'"

section \<open>The invariant\<close>

text \<open>The cache holds the stream from the start of the segment to what the source has sent.\<close>

definition holds_stream :: "(nat \<Rightarrow> byte) \<Rightarrow> nat \<Rightarrow> ProgressBuffer \<Rightarrow> bool" where
  "holds_stream src next e \<longleftrightarrow> next < 2 ^ 63 \<and> (\<forall>c. pb_cache e = Some c \<longrightarrow>
     cache_ok c \<and> (\<exists>b \<le> next. pb_cache_read_offset e = int b \<and> bs_start (pb_sink_segment e) = b \<and>
       cache_content c = map src [b..<next]))"

definition at_cursor :: "nat \<Rightarrow> ProgressBuffer \<Rightarrow> bool" where
  "at_cursor x e \<longleftrightarrow> (\<exists>c. pb_cache e = Some c \<and> int x = pb_cache_read_offset e + int (cc_read_handle c))"

definition next_segment :: "ProgressBuffer \<Rightarrow> nat option" where
  "next_segment e = (case pb_pending_src_event e of Some (Src_Segment seg) \<Rightarrow> Some (bs_start seg) | _ \<Rightarrow> None)"

definition skipping :: "loop_pc \<Rightarrow> bool" where
  "skipping pc \<longleftrightarrow> pc = Loop_At True \<or> pc = Loop_Waiting True"

definition sending :: "loop_pc \<Rightarrow> ProgressBuffer \<Rightarrow> bool" where
  "sending pc e \<longleftrightarrow> \<not> skipping pc \<and> pb_instant_seek e \<and> (pb_srcresult e = GST_FLOW_OK \<or> pc = Loop_Pushing \<or> \<not> pb_srcpad e)"

definition in_step :: "loop_pc \<Rightarrow> ProgressBuffer \<Rightarrow> bool" where
  "in_step pc e \<longleftrightarrow>
     (case next_segment e of
        Some x \<Rightarrow> at_cursor x e
      | None \<Rightarrow> sending pc e \<longrightarrow> (\<exists>x. expects (pb_lost e) (pb_log e) x \<and> at_cursor x e))"

definition pb_ok :: "(nat \<Rightarrow> byte) \<Rightarrow> nat \<Rightarrow> push_seek option \<Rightarrow> loop_pc \<Rightarrow> ProgressBuffer \<Rightarrow> bool" where
  "pb_ok src next seek pc e \<longleftrightarrow> holds_stream src next e \<and> good_log src (pb_lost e) (pb_log e) \<and> in_step pc e \<and>
     (pc \<noteq> Loop_Stopped \<longrightarrow> pb_srcpad e) \<and>
     (\<forall>k. seek = Some k \<longrightarrow> 0 \<le> ps_position k \<and> ps_position k < 2 ^ 63 \<and> pb_srcpad e)"

section \<open>Preservation\<close>

lemma post_fields [simp]:
  "pb_cache (post x e) = pb_cache e" "pb_cache_read_offset (post x e) = pb_cache_read_offset e"
  "pb_sink_segment (post x e) = pb_sink_segment e" "pb_pending_src_event (post x e) = pb_pending_src_event e"
  "pb_instant_seek (post x e) = pb_instant_seek e" "pb_srcpad (post x e) = pb_srcpad e"
  "pb_srcresult (post x e) = pb_srcresult e" "pb_log (post x e) = pb_log e @ [x]"
  "pb_eos (post x e) = pb_eos e" "pb_lost (post x e) = pb_lost e"
  by (simp_all add: post_def)

text \<open>The fields the invariant speaks about, and a log that grows by silent outputs.\<close>

definition same_view :: "ProgressBuffer \<Rightarrow> ProgressBuffer \<Rightarrow> bool" where
  "same_view e e' \<longleftrightarrow> pb_cache e' = pb_cache e \<and> pb_cache_read_offset e' = pb_cache_read_offset e \<and>
     bs_start (pb_sink_segment e') = bs_start (pb_sink_segment e) \<and> pb_instant_seek e' = pb_instant_seek e \<and>
     pb_srcpad e' = pb_srcpad e \<and> pb_srcresult e' = pb_srcresult e \<and>
     pb_pending_src_event e' = pb_pending_src_event e \<and> pb_lost e' = pb_lost e \<and>
     (\<exists>ys. list_all silent ys \<and> pb_log e' = pb_log e @ ys)"

lemma same_view_refl [simp]: "same_view e e"
  by (auto simp: same_view_def intro: exI [of _ "[]"])

lemma same_view_trans: "same_view e f \<Longrightarrow> same_view f g \<Longrightarrow> same_view e g"
  by (auto simp: same_view_def)

lemma same_view_post: "silent x \<Longrightarrow> same_view e (post x e)"
  by (auto simp: same_view_def)

lemma silent_outputs [simp]:
  "silent (Po_Message a b c d)" "silent Po_Underrun" "silent (Po_Error m)" "silent Po_Warning" "silent (Po_Event n)"
  "silent Po_Signal" "silent Po_Add_Pad" "silent Po_No_More_Pads" "silent Po_Start_Task" "silent Po_Pause_Task"
  "silent (Po_Item Src_Eos)" "silent (Po_Seek rate fl pos)"
  by (simp_all add: silent_def)

lemma same_view_message: "same_view e (signal_if (send_position_message E m e))"
  by (auto simp: signal_if_def send_position_message_def Let_def same_view_def)

lemma same_view_bandwidth: "same_view e (measure_bandwidth E n e)"
  by (auto simp: measure_bandwidth_def Let_def same_view_def)

lemma same_view_holds: "same_view e e' \<Longrightarrow> holds_stream src next e' = holds_stream src next e"
  by (simp add: same_view_def holds_stream_def)

lemma same_view_log:
  assumes "same_view e e'"
  shows "good_log src lost (pb_log e') = good_log src lost (pb_log e)" "expects lost (pb_log e') x = expects lost (pb_log e) x"
  using assms good_log_silent by (auto simp: same_view_def)

lemma same_view_in_step: "same_view e e' \<Longrightarrow> in_step pc e' = in_step pc e"
  using same_view_log(2) [of e e' "pb_lost e"]
  by (simp add: same_view_def in_step_def next_segment_def at_cursor_def sending_def split: option.split)

lemma pb_ok_view:
  assumes "pb_ok src next seek pc e" "same_view e e'"
  shows "pb_ok src next seek pc e'"
  using assms(1) same_view_holds [OF assms(2)] same_view_log(1) [OF assms(2), of src "pb_lost e"] same_view_in_step [OF assms(2)] assms(2)
  by (auto simp: pb_ok_def same_view_def)

lemma enqueue_buffer_cases:
  "enqueue_buffer E data offset e =
    (let f = e\<lparr>pb_sink_segment := (pb_sink_segment e)\<lparr>bs_position := add64 offset (length data)\<rparr>\<rparr>
     in if bs_stop (pb_sink_segment e) < add64 offset (length data) then Some (GST_FLOW_ERROR, f)
        else map_option (\<lambda>c. (GST_FLOW_OK, signal_if (send_position_message E False (measure_bandwidth E (length data)
               (f\<lparr>pb_cache := Some (cache_write_buffer (pe_io E) data c)\<rparr>))))) (pb_cache e))"
  by (cases "pb_cache e") (simp_all add: enqueue_buffer_def Let_def)

lemma enqueue_buffer_ok:
  assumes "pb_ok src next seek pc e" "reliable (pe_io E)" "next + n < 2 ^ 63"
    and "enqueue_buffer E (map src [next..<next + n]) next e = Some (r, e')"
  shows "pb_ok src (if r = GST_FLOW_OK then next + n else next) seek pc e'"
proof -
  let ?data = "map src [next..<next + n]"
  let ?f = "e\<lparr>pb_sink_segment := (pb_sink_segment e)\<lparr>bs_position := add64 next (length ?data)\<rparr>\<rparr>"
  show ?thesis
  proof (cases "bs_stop (pb_sink_segment e) < add64 next (length ?data)")
    case True
    then have "r = GST_FLOW_ERROR" "e' = ?f" using assms(4) unfolding enqueue_buffer_cases Let_def by simp_all
    moreover have "same_view e ?f" by (simp add: same_view_def)
    ultimately show ?thesis using pb_ok_view [OF assms(1)] by simp
  next
    case False
    then obtain c where ok: "r = GST_FLOW_OK" "pb_cache e = Some c"
      "e' = signal_if (send_position_message E False (measure_bandwidth E (length ?data)
            (?f\<lparr>pb_cache := Some (cache_write_buffer (pe_io E) ?data c)\<rparr>)))"
      using assms(4) unfolding enqueue_buffer_cases Let_def by (cases "pb_cache e") simp_all
    define g where "g = ?f\<lparr>pb_cache := Some (cache_write_buffer (pe_io E) ?data c)\<rparr>"
    have e: "same_view g e'"
      unfolding ok(3) g_def by (rule same_view_trans [OF same_view_bandwidth same_view_message])
    have c: "cache_ok c" "holds_stream src next e" using assms(1) ok(2) by (auto simp: pb_ok_def holds_stream_def)
    note w = cache_write_ok [OF assms(2) c(1), of ?data]
    obtain b where "b \<le> next" "pb_cache_read_offset e = int b" "bs_start (pb_sink_segment e) = b"
      "cache_content c = map src [b..<next]" using c(2) ok(2) by (auto simp: holds_stream_def)
    then have "holds_stream src (next + n) g"
      using w assms(3) upt_add_eq_append [of b "next" n] by (auto simp: holds_stream_def g_def)
    moreover have "in_step pc g"
      using assms(1) ok(2) w(3)
      by (auto simp: pb_ok_def in_step_def next_segment_def at_cursor_def sending_def g_def split: option.splits)
    ultimately have "pb_ok src (next + n) seek pc g"
      using assms(1) by (auto simp: pb_ok_def g_def)
    from pb_ok_view [OF this e] show ?thesis using ok(1) by simp
  qed
qed

lemma create_sourcepad_ok:
  assumes "pb_ok src next seek pc e" "\<not> pe_pull E" "\<not> pb_srcpad e"
  shows "pb_ok src next seek pc (progress_buffer_create_sourcepad E e)"
proof -
  define g where "g = e\<lparr>pb_srcpad := True, pb_srcresult := GST_FLOW_OK\<rparr>"
  have "same_view g (progress_buffer_create_sourcepad E e)"
    using assms(2)
    by (auto simp: progress_buffer_create_sourcepad_def progress_buffer_activatemode_def progress_buffer_activatepush_src_def
        reset_eos_def same_view_def g_def Let_def)
  moreover have "pb_ok src next seek pc g"
    using assms(1,3)
    by (auto simp: pb_ok_def g_def holds_stream_def in_step_def next_segment_def at_cursor_def sending_def split: option.splits)
  ultimately show ?thesis using pb_ok_view by blast
qed

lemma chain_ok:
  assumes "pb_ok src next seek pc e" "reliable (pe_io E)" "\<not> pe_pull E" "next + n < 2 ^ 63"
    and "progress_buffer_chain E (map src [next..<next + n]) next e = Some (r, e')"
  shows "pb_ok src (if r = GST_FLOW_OK then next + n else next) seek pc e'"
proof -
  obtain f where f: "(if pb_eos e \<or> pb_unexpected e then Some (GST_FLOW_EOS, e)
       else enqueue_buffer E (map src [next..<next + n]) next e) = Some (r, f)"
    "e' = (if r \<noteq> GST_FLOW_ERROR \<and> \<not> pb_srcpad f then progress_buffer_create_sourcepad E f else f)"
    using assms(5) by (auto simp: progress_buffer_chain_def progress_buffer_enqueue_item_def split: bind_splits if_splits)
  have "pb_ok src (if r = GST_FLOW_OK then next + n else next) seek pc f"
    using enqueue_buffer_ok [OF assms(1,2,4)] f(1) assms(1) by (auto split: if_splits)
  then show ?thesis using create_sourcepad_ok [OF _ assms(3)] f(2) by auto
qed

lemma rewind_ok:
  assumes "cache_ok c"
  shows "cache_ok (snd (cache_set_read_position 0 (snd (cache_set_write_position 0 c))))"
    "cache_content (snd (cache_set_read_position 0 (snd (cache_set_write_position 0 c)))) = []"
    "cc_read_handle (snd (cache_set_read_position 0 (snd (cache_set_write_position 0 c)))) = 0"
  using assms by (auto simp: cache_set_read_position_def cache_set_write_position_def cache_set_handler_position_def
      cache_ok_def cache_content_def)

lemma create_cache_ok: "cache_ok create_cache" "cache_content create_cache = []" "cc_read_handle create_cache = 0"
  by (simp_all add: create_cache_def cache_ok_def cache_content_def)

text \<open>A cache that starts anew at the start of the segment.\<close>

definition with_segment :: "bytes_segment \<Rightarrow> Cache \<Rightarrow> ProgressBuffer \<Rightarrow> ProgressBuffer" where
  "with_segment seg c e = e\<lparr>pb_unexpected := False, pb_cache := Some c, pb_cache_read_offset := int (bs_start seg),
     pb_sink_segment := seg, pb_pending_src_event := Some (Src_Segment seg), pb_instant_seek := True\<rparr>"

lemma segment_result:
  assumes "holds_stream src next e" "\<not> pb_eos e" "pe_cache E" "bs_start seg < bs_stop seg" "bs_stop seg < 2 ^ 63"
    and "update \<Longrightarrow> int (bs_start seg) = pb_cache_read_offset e"
    and "progress_buffer_sink_event E (Sink_Segment True update seg) e = Some (r, e')"
  shows "\<exists>c. e' = signal_if (send_position_message E True (with_segment seg c e)) \<and>
    cache_ok c \<and> cache_content c = [] \<and> cc_read_handle c = 0"
proof -
  let ?c = "if update then create_cache
    else snd (cache_set_read_position 0 (snd (cache_set_write_position 0 (the (pb_cache e)))))"
  have sub: "sub64 (bs_stop seg) (bs_start seg) \<noteq> 0" using assms(4,5) by (simp add: sub64_le)
  have s: "s64 (int (bs_start seg)) = int (bs_start seg)" using assms(4,5) by (intro s64_id) auto
  have e: "e' = signal_if (send_position_message E True (with_segment seg ?c e))" and c: "update \<or> (\<exists>c. pb_cache e = Some c)"
    using assms(2,3,6,7) sub s
    by (cases "pb_cache e"; cases update; simp add: progress_buffer_sink_event_def serialized_def
        progress_buffer_enqueue_item_def enqueue_segment_def progress_buffer_set_pending_event_def Let_def with_segment_def)+
  have "cache_ok ?c \<and> cache_content ?c = [] \<and> cc_read_handle ?c = 0"
    using c assms(1) create_cache_ok rewind_ok by (auto simp: holds_stream_def)
  then show ?thesis using e by blast
qed

lemma segment_ok:
  assumes "pb_ok src next seek pc e" "\<not> pb_eos e" "pe_cache E" "bs_start seg < bs_stop seg" "bs_stop seg < 2 ^ 63"
    and "update \<Longrightarrow> int (bs_start seg) = pb_cache_read_offset e"
    and "progress_buffer_sink_event E (Sink_Segment True update seg) e = Some (r, e')"
  shows "pb_ok src (bs_start seg) seek pc e'"
proof -
  have h: "holds_stream src next e" using assms(1) by (simp add: pb_ok_def)
  obtain c where c: "e' = signal_if (send_position_message E True (with_segment seg c e))"
      "cache_ok c" "cache_content c = []" "cc_read_handle c = 0"
    using segment_result [OF h assms(2-7)] by blast
  then have "pb_ok src (bs_start seg) seek pc (with_segment seg c e)"
    using assms(1,4,5) by (auto simp: with_segment_def pb_ok_def holds_stream_def in_step_def next_segment_def at_cursor_def)
  then show ?thesis unfolding c(1) using pb_ok_view same_view_message by blast
qed

lemma segment_pending_iff: "segment_pending e \<longleftrightarrow> next_segment e \<noteq> None"
  by (simp add: segment_pending_def next_segment_def split: option.split src_item.split)

definition with_eos :: "ProgressBuffer \<Rightarrow> ProgressBuffer" where
  "with_eos e = (let s = pb_sink_segment e in e\<lparr>pb_eos := True, pb_lost := pb_lost e + (if segment_pending e then 1 else 0),
     pb_sink_segment := (if bs_position s < bs_stop s then s\<lparr>bs_stop := bs_position s\<rparr> else s), pb_pending_src_event := None\<rparr>)"

lemma eos_result:
  "progress_buffer_sink_event E Sink_Eos e =
    (if pb_eos e then Some (False, e) else Some (True, signal_if (send_position_message E True (with_eos e))))"
  by (simp add: progress_buffer_sink_event_def serialized_def progress_buffer_enqueue_item_def enqueue_eos_def with_eos_def
      progress_buffer_set_pending_event_def Let_def)

lemma eos_ok:
  assumes "pb_ok src next seek pc e" "progress_buffer_sink_event E Sink_Eos e = Some (r, e')"
  shows "pb_ok src next seek pc e'"
proof (cases "pb_eos e")
  case False
  then have e: "e' = signal_if (send_position_message E True (with_eos e))" using assms(2) by (simp add: eos_result)
  have "pb_ok src next seek pc (with_eos e)"
  proof (cases "next_segment e")
    case None
    then show ?thesis
      using assms(1) segment_pending_iff [of e]
      by (simp add: with_eos_def Let_def pb_ok_def holds_stream_def in_step_def next_segment_def at_cursor_def sending_def)
  next
    case (Some x)
    then have "at_cursor x e" "segment_pending e" using assms(1) by (simp_all add: pb_ok_def in_step_def segment_pending_iff)
    then show ?thesis
      using assms(1) good_log_lost [of src "pb_lost e" "pb_log e"]
      by (auto simp: with_eos_def Let_def pb_ok_def holds_stream_def in_step_def next_segment_def at_cursor_def sending_def)
  qed
  then show ?thesis unfolding e using pb_ok_view same_view_message by blast
qed (use assms in \<open>simp add: eos_result\<close>)

lemma event_ok:
  assumes "pb_ok src next seek pc e" "progress_buffer_sink_event E ev e = Some (r, e')"
    and "ev \<noteq> Sink_Eos" "\<And>b u seg. ev \<noteq> Sink_Segment b u seg"
  shows "pb_ok src next seek pc e'"
proof -
  have "same_view e e'"
    using assms(2-4) same_view_post [of "Po_Event (item_name ev)" e]
    by (cases ev) (auto simp: progress_buffer_sink_event_def serialized_def progress_buffer_enqueue_item_def split: if_splits)
  then show ?thesis using pb_ok_view assms(1) by blast
qed

text \<open>Reading a buffer: its bytes, its offset, and what is left of the element.\<close>

definition after_read :: "nat \<Rightarrow> Cache \<Rightarrow> ProgressBuffer \<Rightarrow> ProgressBuffer" where
  "after_read pos c e = e\<lparr>pb_cache := Some c, pb_pending_src_event :=
     (if pos = bs_stop (pb_sink_segment e) then Some Src_Eos else pb_pending_src_event e)\<rparr>"

definition handed_on :: "bool \<Rightarrow> byte list \<Rightarrow> nat \<Rightarrow> ProgressBuffer \<Rightarrow> loop_pc \<times> ProgressBuffer" where
  "handed_on skip data x e = (if skip then (Loop_At True, e) else (Loop_Pushing, post (Po_Buffer data x) e))"

lemma loop_buffer_eq:
  assumes "pb_cache e = Some c" "cache_read_buffer (pe_io E) c = (pos, Some b, c')"
    and "nat ((pos + pb_cache_read_offset e) mod 2 ^ 64) = p" "sub64 p (length (cb_data b)) = x"
  shows "loop_buffer E skip e = Some (handed_on skip (cb_data b) x (after_read p c' e))"
  using assms by (cases "p = bs_stop (pb_sink_segment e)")
    (simp_all add: loop_buffer_def handed_on_def after_read_def progress_buffer_set_pending_event_def Let_def)

lemma loop_buffer_reads:
  assumes "holds_stream src next e" "pb_cache e = Some c" "cache_has_enough_data c" "reliable (pe_io E)"
  shows "\<exists>b n c'. pb_cache_read_offset e = int b \<and> 0 < n \<and> b + cc_read_handle c + n \<le> next \<and>
    loop_buffer E skip e = Some (handed_on skip (map src [b + cc_read_handle c..<b + cc_read_handle c + n])
      (b + cc_read_handle c) (after_read (b + cc_read_handle c + n) c' e)) \<and>
    cache_ok c' \<and> cache_content c' = cache_content c \<and> cc_read_handle c' = cc_read_handle c + n"
proof -
  obtain b where b: "b \<le> next" "pb_cache_read_offset e = int b" "cache_content c = map src [b..<next]" "cache_ok c"
      "next < 2 ^ 63" using assms(1,2) by (auto simp: holds_stream_def)
  obtain n c' where r: "0 < n" "cc_read_handle c + n \<le> length (cache_content c)"
      "cache_read_buffer (pe_io E) c = (int (cc_read_handle c + n),
        Some \<lparr>cb_data = take n (drop (cc_read_handle c) (cache_content c)), cb_offset = cc_read_handle c\<rparr>, c')"
      "cache_ok c'" "cache_content c' = cache_content c" "cc_read_handle c' = cc_read_handle c + n"
    using cache_read_ok [OF assms(4) b(4) assms(3)] by blast
  let ?x = "b + cc_read_handle c"
  have le: "?x + n \<le> next" using r(2) b(1,3) by simp
  then have d: "take n (drop (cc_read_handle c) (cache_content c)) = map src [?x..<?x + n]"
    by (simp add: b(3) drop_map take_map take_upt)
  have p: "nat ((int (cc_read_handle c + n) + pb_cache_read_offset e) mod 2 ^ 64) = ?x + n" using le b(2,5) by simp
  have x: "sub64 (?x + n) (length (cb_data \<lparr>cb_data = map src [?x..<?x + n], cb_offset = cc_read_handle c\<rparr>)) = ?x"
    using le b(5) by (simp add: sub64_le)
  note l = loop_buffer_eq [OF assms(2) r(3) [unfolded d] p x, of skip]
  show ?thesis using b(2) r(1,4-6) le l by auto
qed

lemma buffer_ok:
  assumes "pb_ok src next seek (Loop_At skip) e" "pb_srcresult e = GST_FLOW_OK" "pb_pending_src_event e = None"
    and "pb_cache e = Some c" "cache_has_enough_data c" "pb_instant_seek e" "reliable (pe_io E)"
    and "loop_buffer E skip e = Some (pc, e')"
  shows "pb_ok src next seek pc e'"
proof -
  have h: "holds_stream src next e" using assms(1) by (simp add: pb_ok_def)
  obtain b n c' where r: "pb_cache_read_offset e = int b" "0 < n" "b + cc_read_handle c + n \<le> next"
      "loop_buffer E skip e = Some (handed_on skip (map src [b + cc_read_handle c..<b + cc_read_handle c + n])
        (b + cc_read_handle c) (after_read (b + cc_read_handle c + n) c' e))"
      "cache_ok c'" "cache_content c' = cache_content c" "cc_read_handle c' = cc_read_handle c + n"
    using loop_buffer_reads [OF h assms(4,5,7)] by blast
  define x where "x = b + cc_read_handle c"
  define f where "f = after_read (x + n) c' e"
  have pc: "(pc, e') = handed_on skip (map src [x..<x + n]) x f" using assms(8) r(4) by (simp add: f_def x_def)
  have f: "holds_stream src next f" "next_segment f = None" "pb_log f = pb_log e" "pb_lost f = pb_lost e" "pb_srcpad f = pb_srcpad e"
    "pb_instant_seek f = pb_instant_seek e" "at_cursor (x + n) f"
    using h r assms(3,4) by (auto simp: f_def x_def after_read_def holds_stream_def next_segment_def at_cursor_def)
  show ?thesis
  proof (cases skip)
    case True
    then show ?thesis
      using pc f assms(1) by (simp add: handed_on_def pb_ok_def in_step_def sending_def skipping_def)
  next
    case False
    let ?data = "map src [x..<x + n]"
    obtain y where "expects (pb_lost e) (pb_log e) y" "at_cursor y e"
      using assms(1-4,6) False by (auto simp: pb_ok_def in_step_def next_segment_def sending_def skipping_def)
    moreover have "y = x" using calculation(2) assms(4) r(1) by (simp add: at_cursor_def x_def)
    ultimately have "expects (pb_lost e) (pb_log e) x" by simp
    then have g: "good_log src (pb_lost e) (pb_log e @ [Po_Buffer ?data x])"
        "expects (pb_lost e) (pb_log e @ [Po_Buffer ?data x]) (x + n)"
      using good_log_buffer [of src "pb_lost e" "pb_log e" x ?data] assms(1) by (simp_all add: pb_ok_def)
    have e: "pc = Loop_Pushing" "e' = post (Po_Buffer ?data x) f" using pc False by (simp_all add: handed_on_def)
    have "holds_stream src next e'" "next_segment e' = None" "at_cursor (x + n) e'"
      using f by (simp_all add: e holds_stream_def next_segment_def at_cursor_def)
    then show ?thesis using g e f assms(1) by (auto simp: pb_ok_def in_step_def intro!: exI [of _ "x + n"])
  qed
qed

lemma item_ok:
  assumes "pb_ok src next seek (Loop_At skip) e" "reliable (pe_io E)"
    and "progress_buffer_loop_item E skip e = Some (pc, e')"
  shows "pb_ok src next seek pc e'"
proof (cases "pb_srcresult e = GST_FLOW_OK")
  case False
  then have "(pc, e') = (if skip then (Loop_Ready, e\<lparr>pb_unexpected := True\<rparr>) else (Loop_Stopped, post Po_Pause_Task e))"
    using assms(3) by (simp add: progress_buffer_loop_item_def loop_end_def split: if_splits)
  moreover have "same_view e (e\<lparr>pb_unexpected := True\<rparr>)" "same_view e (post Po_Pause_Task e)"
    by (simp_all add: same_view_def)
  moreover have "pb_ok src next seek Loop_Ready e" "pb_ok src next seek Loop_Stopped e"
    using assms(1) False by (auto simp: pb_ok_def in_step_def sending_def split: option.split)
  ultimately show ?thesis using pb_ok_view by (auto split: if_splits)
next
  case ok: True
  show ?thesis
  proof (cases "pb_pending_src_event e")
    case None
    then obtain c where c: "pb_cache e = Some c"
      using assms(3) ok by (cases "pb_cache e") (simp_all add: progress_buffer_loop_item_def)
    show ?thesis
    proof (cases "cache_has_enough_data c \<and> pb_instant_seek e")
      case True
      then show ?thesis using buffer_ok [OF assms(1) ok None c _ _ assms(2)] assms(3) ok None c
        by (simp add: progress_buffer_loop_item_def)
    next
      case False
      then have "pc = Loop_Waiting skip" "same_view e e'"
        using assms(3) ok None c by (auto simp: progress_buffer_loop_item_def intro!: same_view_post)
      moreover have "pb_ok src next seek (Loop_Waiting skip) e"
        using assms(1) by (auto simp: pb_ok_def in_step_def sending_def skipping_def split: option.split)
      ultimately show ?thesis using pb_ok_view by blast
    qed
  next
    case (Some ev)
    then have e: "(pc, e') = loop_event ev e" using assms(3) ok by (simp add: progress_buffer_loop_item_def)
    show ?thesis
    proof (cases ev)
      case Src_Eos
      then show ?thesis
        using e assms(1) good_log_silent(1) [of "[Po_Item Src_Eos, Po_Pause_Task]" src "pb_lost e" "pb_log e"]
        by (simp add: loop_event_def loop_end_def progress_buffer_set_pending_event_def pb_ok_def holds_stream_def
            in_step_def next_segment_def sending_def)
    next
      case (Src_Segment seg)
      then show ?thesis
        using e Some assms(1)
        by (auto simp: loop_event_def loop_end_def progress_buffer_set_pending_event_def pb_ok_def holds_stream_def
            in_step_def next_segment_def at_cursor_def good_log_segment intro!: exI [of _ "bs_start seg"])
    qed
  qed
qed

lemma pb_ok_post: "silent x \<Longrightarrow> pb_ok src next seek pc e \<Longrightarrow> pb_ok src next seek pc (post x e)"
  using pb_ok_view same_view_post by blast

lemma srcresult_irrelevant:
  "holds_stream src next (e\<lparr>pb_srcresult := r\<rparr>) = holds_stream src next e"
  "next_segment (e\<lparr>pb_srcresult := r\<rparr>) = next_segment e" "at_cursor x (e\<lparr>pb_srcresult := r\<rparr>) = at_cursor x e"
  by (simp_all add: holds_stream_def next_segment_def at_cursor_def)

lemma stopped_ok:
  assumes "pb_ok src next seek pc e" "pb_srcpad e" "r \<noteq> GST_FLOW_OK"
  shows "pb_ok src next seek pc (e\<lparr>pb_srcresult := r\<rparr>)"
  using assms by (auto simp: pb_ok_def in_step_def sending_def srcresult_irrelevant split: option.splits)

lemma pushed_ok:
  assumes "pb_ok src next seek Loop_Pushing e" "progress_buffer_loop_pushed E e = (pc, e')"
  shows "pb_ok src next seek pc e'"
proof -
  have "pb_ok src next seek (Loop_At True) e" "pb_ok src next seek Loop_Ready (e\<lparr>pb_srcresult := GST_FLOW_OK\<rparr>)"
    "r \<noteq> GST_FLOW_OK \<Longrightarrow> pb_ok src next seek Loop_Stopped (e\<lparr>pb_srcresult := r\<rparr>)" for r
    using assms(1) by (auto simp: pb_ok_def in_step_def sending_def skipping_def srcresult_irrelevant split: option.splits)
  then show ?thesis
    using assms(2) by (auto simp: progress_buffer_loop_pushed_def loop_end_def intro!: pb_ok_post split: if_splits)
qed

lemma seek_begin_ok:
  assumes "pb_ok src next None pc e" "0 \<le> ps_position k" "ps_position k < 2 ^ 63" "pb_srcpad e"
    and "seek_begin k e = (go, e')"
  shows "pb_ok src next (if go then Some k else None) pc e'"
proof -
  have "pb_ok src next (Some k) pc e" using assms(1-4) by (simp add: pb_ok_def)
  then show ?thesis
    using assms(1,4,5) by (auto simp: seek_begin_def intro!: pb_ok_post stopped_ok split: if_splits)
qed

text \<open>Moving the cursor inside the cache and announcing the segment.\<close>

lemma seek_in_cache_ok:
  assumes "holds_stream src next e" "good_log src (pb_lost e) (pb_log e)" "pb_srcpad e" "0 \<le> ps_position k" "ps_position k < 2 ^ 63"
    "pb_cache_read_offset e \<le> ps_position k" and "seek_in_cache k e = Some e'"
  shows "pb_ok src next None pc e'"
proof -
  obtain c where c: "pb_cache e = Some c" using assms(7) by (cases "pb_cache e") (simp_all add: seek_in_cache_def)
  obtain b where b: "b \<le> next" "pb_cache_read_offset e = int b" "cache_ok c" "cache_content c = map src [b..<next]"
      "bs_start (pb_sink_segment e) = b" "next < 2 ^ 63"
    using assms(1) c by (auto simp: holds_stream_def)
  define p where "p = nat (ps_position k)"
  have p: "ps_position k = int p" "b \<le> p" "p < 2 ^ 63" using assms(4-6) b(2) by (auto simp: p_def)
  then have "ps_position k - pb_cache_read_offset e = int (p - b)" "nat (ps_position k mod 2 ^ 64) = p" using b(2) by auto
  moreover obtain d where d: "cache_set_read_position (int (p - b)) c = (True, d)" "cache_ok d"
      "cache_content d = cache_content c" "cc_read_handle d = p - b"
    using cache.cursor_law [OF b(3)] by blast
  ultimately have "e' = e\<lparr>pb_cache := Some d, pb_pending_src_event := Some (Src_Segment \<lparr>bs_rate = ps_rate k,
      bs_start = p, bs_stop = bs_stop (pb_sink_segment e), bs_position = p\<rparr>)\<rparr>"
    using assms(7) c by (simp add: seek_in_cache_def progress_buffer_set_pending_event_def)
  then show ?thesis
    using assms(2,3) b d p(2) by (simp add: pb_ok_def holds_stream_def in_step_def next_segment_def at_cursor_def)
qed

lemma instant_offset:
  assumes "holds_stream src next e" "pb_cache e = Some c" "seek_is_instant E k e" "0 \<le> ps_position k" "ps_position k < 2 ^ 63"
  shows "pb_cache_read_offset e \<le> ps_position k"
  using assms by (auto simp: holds_stream_def seek_is_instant_def)

text \<open>The parts of a seek keep the buffer's invariant.\<close>

lemma source_seeking_irrelevant [simp]: "pb_ok src x q pc (e\<lparr>pb_is_source_seeking := b\<rparr>) = pb_ok src x q pc e"
  by (simp add: pb_ok_def holds_stream_def in_step_def next_segment_def at_cursor_def sending_def split: option.split)

lemma pb_ok_forget: "pb_ok src x q pc e \<Longrightarrow> pb_ok src x None pc e"
  by (simp add: pb_ok_def)

lemma seek_restart_ok: "pb_ok src x q pc e \<Longrightarrow> pb_ok src x q pc (seek_restart k e)"
  by (simp add: seek_restart_def pb_ok_post)

lemma seek_locked_ok:
  assumes "pb_ok src x (Some k) pc e" "seek_locked E k e = Some (instant, e')" "pc \<in> {Loop_Stopped, Loop_Ready}"
  shows "pb_ok src x (Some k) (if instant then Loop_Ready else pc) e'"
proof -
  have k: "0 \<le> ps_position k" "ps_position k < 2 ^ 63" "pb_srcpad e" "holds_stream src x e" "good_log src (pb_lost e) (pb_log e)"
    using assms(1) by (simp_all add: pb_ok_def)
  let ?e = "e\<lparr>pb_srcresult := GST_FLOW_OK, pb_instant_seek := seek_is_instant E k e\<rparr>"
  have h: "holds_stream src x ?e" using k(4) by (simp add: holds_stream_def)
  show ?thesis
  proof (cases "seek_is_instant E k e")
    case True
    obtain c where "pb_cache e = Some c" using assms(2) True
      by (cases "pb_cache e") (auto simp: seek_locked_def seek_in_cache_def)
    then have "pb_ok src x None Loop_Ready e'"
      using seek_in_cache_ok [OF h] instant_offset [OF k(4)] assms(2) True k by (auto simp: seek_locked_def)
    then show ?thesis using assms(2) True k(1-3) by (auto simp: seek_locked_def pb_ok_def seek_in_cache_def
        progress_buffer_set_pending_event_def split: bind_splits)
  next
    case False
    define g where "g = post (Po_Seek (ps_rate k) (ps_flush k) (nat (ps_position k mod 2 ^ 64)))
      ((reset_eos True ?e)\<lparr>pb_is_source_seeking := True\<rparr>)"
    have "holds_stream src x g" "good_log src (pb_lost g) (pb_log g)" "pb_srcpad g" "pb_pending_src_event g = None" "\<not> pb_instant_seek g"
      using k False good_log_silent(1) [of "[Po_Seek (ps_rate k) (ps_flush k) (nat (ps_position k mod 2 ^ 64))]" src "pb_lost e" "pb_log e"]
      by (simp_all add: g_def reset_eos_def progress_buffer_set_pending_event_def holds_stream_def)
    then have "pb_ok src x (Some k) pc g" using k by (simp add: pb_ok_def in_step_def next_segment_def sending_def)
    then show ?thesis using assms(2) False by (auto simp: seek_locked_def g_def)
  qed
qed

lemma seek_answered_ok:
  assumes "pb_ok src x (Some k) pc e" "seek_answered k ok e = Some e'" "pc \<in> {Loop_Stopped, Loop_Ready}"
    and "ok \<or> pb_cache_read_offset e \<le> ps_position k"
  shows "pb_ok src x None Loop_Ready e'"
proof (cases ok)
  case True
  have "pb_ok src x None Loop_Ready e"
    using assms(1,3) by (auto simp: pb_ok_def in_step_def sending_def skipping_def split: option.splits)
  then show ?thesis using assms(2) True by (auto simp: seek_answered_def)
next
  case False
  obtain f where "seek_in_cache k (e\<lparr>pb_instant_seek := True\<rparr>) = Some f" and e': "e' = f\<lparr>pb_is_source_seeking := False\<rparr>"
    using assms(2) False by (auto simp: seek_answered_def)
  moreover have "holds_stream src x (e\<lparr>pb_instant_seek := True\<rparr>)" using assms(1) by (simp add: pb_ok_def holds_stream_def)
  ultimately have "pb_ok src x None Loop_Ready f"
    using seek_in_cache_ok [of src x "e\<lparr>pb_instant_seek := True\<rparr>" k f Loop_Ready] assms(1,4) False by (simp add: pb_ok_def)
  then show ?thesis unfolding e' by simp
qed

lemma segment_refused:
  "pb_eos e \<Longrightarrow> progress_buffer_sink_event E (Sink_Segment True update seg) e = Some (False, e)"
  by (simp add: progress_buffer_sink_event_def serialized_def)

lemma segment_accepted:
  assumes "holds_stream src next e" "\<not> pb_eos e" "pe_cache E" "bs_start seg < bs_stop seg" "bs_stop seg < 2 ^ 63"
    and "progress_buffer_sink_event E (Sink_Segment True update seg) e = Some (r, e')"
  shows r
proof -
  have "sub64 (bs_stop seg) (bs_start seg) \<noteq> 0" using assms(4,5) by (simp add: sub64_le)
  then show ?thesis
    using assms(2,3,6)
    by (cases "pb_cache e"; cases update; simp add: progress_buffer_sink_event_def serialized_def
        progress_buffer_enqueue_item_def enqueue_segment_def progress_buffer_set_pending_event_def Let_def)
qed

lemma task_moves:
  "pb_ok src x q Loop_Stopped e \<Longrightarrow> pb_srcpad e \<Longrightarrow> pb_ok src x q Loop_Ready e"
  "pb_ok src x q Loop_Ready e \<Longrightarrow> pb_ok src x q (Loop_At False) e"
  "pb_ok src x q (Loop_Waiting skip) e \<Longrightarrow> pb_ok src x q (Loop_At skip) e"
  by (auto simp: pb_ok_def in_step_def sending_def skipping_def split: option.splits)

definition sys_ok :: "(nat \<Rightarrow> byte) \<Rightarrow> pb_sys \<Rightarrow> bool" where
  "sys_ok src s \<longleftrightarrow> pb_ok src (sy_next s) (pb_seek_of (sy_seek s)) (sy_pc s) (sy_pb s) \<and>
     (pb_lock_free (sy_seek s) \<or> sy_pc s \<in> {Loop_Stopped, Loop_Ready})"

lemma pb_step_ok:
  assumes "pb_step src s s'" "sys_ok src s"
  shows "sys_ok src s'"
proof -
  let ?q = "pb_seek_of (sy_seek s)"
  have ok: "pb_ok src (sy_next s) ?q (sy_pc s) (sy_pb s)"
    and lock: "pb_lock_free (sy_seek s) \<or> sy_pc s \<in> {Loop_Stopped, Loop_Ready}" using assms(2) by (simp_all add: sys_ok_def)
  show ?thesis
    using assms(1)
  proof (cases rule: pb_step.cases)
    case (step_buffer E n r e)
    then show ?thesis using chain_ok [OF ok] lock by (simp add: sys_ok_def)
  next
    case (step_segment E update seg r e)
    show ?thesis
    proof (cases "pb_eos (sy_pb s)")
      case True
      then have "\<not> r" "e = sy_pb s" using step_segment(2) segment_refused by simp_all
      then show ?thesis using step_segment(1) ok lock by (simp add: sys_ok_def)
    next
      case False
      have "holds_stream src (sy_next s) (sy_pb s)" using ok by (simp add: pb_ok_def)
      from segment_accepted [OF this False step_segment(3-5,2)] have r .
      moreover have "pb_ok src (bs_start seg) ?q (sy_pc s) e"
        by (rule segment_ok [OF ok False step_segment(3-5) step_segment(7,2)]) simp
      ultimately show ?thesis using step_segment(1) lock by (simp add: sys_ok_def)
    qed
  next
    case (step_eos E r e)
    then show ?thesis using eos_ok [OF ok] lock by (simp add: sys_ok_def)
  next
    case (step_event E ev r e)
    then show ?thesis using event_ok [OF ok] lock by (simp add: sys_ok_def)
  next
    case (step_item skip E pc e)
    then show ?thesis using item_ok [of src "sy_next s" ?q skip "sy_pb s"] ok lock by (simp add: sys_ok_def)
  next
    case (step_pushed E pc e)
    then show ?thesis using pushed_ok [of src "sy_next s" ?q "sy_pb s"] ok lock by (simp add: sys_ok_def)
  next
    case (step_seek_begin k go e)
    then show ?thesis using seek_begin_ok [of src "sy_next s" "sy_pc s" "sy_pb s" k go e] ok
      by (cases go) (simp_all add: sys_ok_def pb_seek_of_def pb_lock_free_def)
  next
    case (step_seek_locked k E instant e)
    then have "pb_ok src (sy_next s) (Some k) (if instant then Loop_Ready else sy_pc s) e"
      using ok seek_locked_ok [of src "sy_next s" k "sy_pc s" "sy_pb s" E instant e] by (simp add: pb_seek_of_def)
    then show ?thesis
      using step_seek_locked seek_restart_ok [OF pb_ok_forget, of src "sy_next s" "Some k" Loop_Ready e k]
      by (auto simp: sys_ok_def pb_seek_of_def pb_lock_free_def)
  next
    case (step_seek_answered k ok' e)
    then have "pb_ok src (sy_next s) None Loop_Ready e"
      using ok lock seek_answered_ok [of src "sy_next s" k "sy_pc s" "sy_pb s" ok' e] by (simp add: pb_seek_of_def pb_lock_free_def)
    then show ?thesis using step_seek_answered(1) by (simp add: sys_ok_def pb_seek_of_def pb_lock_free_def seek_restart_ok)
  next
    case (step_wake skip)
    then show ?thesis using task_moves(3) ok lock by (auto simp: sys_ok_def)
  qed (use task_moves ok in \<open>auto simp: sys_ok_def\<close>)
qed

lemma pb_run_ok: "pb_run src s \<Longrightarrow> pb_ok src (sy_next s) (pb_seek_of (sy_seek s)) (sy_pc s) (sy_pb s)"
proof -
  assume "pb_run src s"
  then have "sys_ok src s"
  proof (induction rule: pb_run.induct)
    case run_start
    show ?case
      by (simp add: sys_ok_def sys_init_def pb_seek_of_def pb_lock_free_def progress_buffer_init_def progress_buffer_flush_data_def
          pb_ok_def holds_stream_def good_log_def faithful_def in_step_def next_segment_def sending_def)
  qed (rule pb_step_ok)
  then show ?thesis by (simp add: sys_ok_def)
qed

section \<open>A small run\<close>

text \<open>A source that announces three bytes and sends them, on a system where nothing fails.\<close>

definition calm_env :: pb_env where
  "calm_env = \<lparr>pe_io = calm_io,
     pe_ops = \<lparr>op_percent = \<lambda>_ _. 0, op_beyond = \<lambda>_ _ _. False, op_over_second = \<lambda>_. False, op_bandwidth = \<lambda>_ _. 0,
       op_tolerable = \<lambda>_ _ _. True, op_too_far = \<lambda>_ _ _. False, op_prebuffer = \<lambda>_ _. 0\<rparr>,
     pe_elapsed = 0, pe_cache = True, pe_event = True, pe_push = GST_FLOW_OK, pe_linked = True, pe_pull = False\<rparr>"

definition short_segment :: bytes_segment where
  "short_segment = \<lparr>bs_rate = 0, bs_start = 0, bs_stop = 3, bs_position = 0\<rparr>"

lemma calm_reliable [simp]: "reliable (pe_io calm_env)"
  by (simp add: reliable_def calm_env_def calm_io_def)

definition opened :: ProgressBuffer where
  "opened = progress_buffer_init\<lparr>pb_cache := Some create_cache, pb_sink_segment := short_segment, pb_instant_seek := True,
     pb_pending_src_event := Some (Src_Segment short_segment), pb_log := [Po_Message 0 0 3 False, Po_Signal]\<rparr>"

definition loaded :: ProgressBuffer where
  "loaded = opened\<lparr>pb_srcpad := True, pb_cache := Some \<lparr>cc_file = [7, 8, 9], cc_read_handle = 0, cc_write_handle = 3,
       read_position = 0, write_position = 3\<rparr>,
     pb_sink_segment := short_segment\<lparr>bs_position := 3\<rparr>, pb_subtotal := 3, pb_signal_limit := 1,
     pb_log := pb_log opened @ [Po_Add_Pad, Po_Start_Task, Po_No_More_Pads]\<rparr>"

lemma opened_step: "progress_buffer_sink_event calm_env (Sink_Segment True True short_segment) progress_buffer_init = Some (True, opened)"
  by (simp add: opened_def progress_buffer_sink_event_def serialized_def short_segment_def progress_buffer_enqueue_item_def
    enqueue_segment_def sub64_def calm_env_def progress_buffer_init_def progress_buffer_flush_data_def
   progress_buffer_set_pending_event_def signal_if_def send_position_message_def post_def Let_def)

lemma loaded_step: "progress_buffer_chain calm_env (map ((!) [7, 8, 9]) [0..<3]) 0 opened = Some (GST_FLOW_OK, loaded)"
  by (simp add: loaded_def opened_def progress_buffer_chain_def progress_buffer_enqueue_item_def enqueue_buffer_def
   short_segment_def calm_env_def calm_io_def progress_buffer_init_def progress_buffer_flush_data_def signal_if_def send_position_message_def
   post_def progress_buffer_create_sourcepad_def progress_buffer_activatemode_def progress_buffer_activatepush_src_def add64_def
   measure_bandwidth_def cache_write_buffer_def posix_write_def file_put_def create_cache_def upt_rec reset_eos_def EOS_SIGNAL_LIMIT_def)
text \<open>The task has announced the segment; then it has read the bytes and is sending them.\<close>

definition announced :: ProgressBuffer where
  "announced = loaded\<lparr>pb_pending_src_event := None, pb_log := pb_log loaded @ [Po_Item (Src_Segment short_segment)]\<rparr>"

definition handed :: ProgressBuffer where
  "handed = announced\<lparr>pb_pending_src_event := Some Src_Eos,
     pb_cache := Some \<lparr>cc_file = [7, 8, 9], cc_read_handle = 3, cc_write_handle = 3, read_position = 3, write_position = 3\<rparr>,
     pb_log := pb_log announced @ [Po_Buffer [7, 8, 9] 0]\<rparr>"

lemma announced_step: "progress_buffer_loop_item calm_env False loaded = Some (Loop_Ready, announced)"
  by (simp add: announced_def loaded_def opened_def progress_buffer_loop_item_def loop_event_def loop_end_def
      progress_buffer_set_pending_event_def progress_buffer_init_def progress_buffer_flush_data_def post_def)

lemma handed_step: "progress_buffer_loop_item calm_env False announced = Some (Loop_Pushing, handed)"
  by (simp add: handed_def announced_def loaded_def opened_def short_segment_def progress_buffer_loop_item_def loop_buffer_def
      cache_has_enough_data_def cache_read_buffer_def posix_read_def calm_env_def calm_io_def DEFAULT_BUFFER_SIZE_def sub64_def
      progress_buffer_set_pending_event_def progress_buffer_init_def progress_buffer_flush_data_def post_def)

definition bytes3 :: "nat \<Rightarrow> byte" where
  "bytes3 = (!) [7, 8, 9]"

definition sys_at :: "loop_pc \<Rightarrow> ProgressBuffer \<Rightarrow> pb_sys" where
  "sys_at pc e = \<lparr>sy_pb = e, sy_pc = pc, sy_seek = Pb_Idle, sy_next = 3\<rparr>"

lemma loaded_run: "pb_run bytes3 (sys_at Loop_Ready loaded)"
proof -
  have "pb_step bytes3 sys_init (sys_init\<lparr>sy_pb := opened, sy_next := bs_start short_segment\<rparr>)"
    using opened_step pb_step.step_segment [of calm_env True short_segment sys_init True opened bytes3]
    by (auto simp: sys_init_def short_segment_def progress_buffer_init_def
        progress_buffer_flush_data_def calm_env_def)
  then have "pb_run bytes3 \<lparr>sy_pb = opened, sy_pc = Loop_Stopped, sy_seek = Pb_Idle, sy_next = 0\<rparr>"
    using pb_run.run_step [OF pb_run.run_start] by (simp add: sys_init_def short_segment_def)
  then have "pb_run bytes3 (sys_at Loop_Stopped loaded)"
    using pb_run.run_step [OF _ pb_step.step_buffer [of calm_env bytes3 _ 3 GST_FLOW_OK loaded]] loaded_step
    by (fastforce simp: bytes3_def sys_at_def calm_env_def calm_io_def reliable_def)
  moreover have "pb_step bytes3 (sys_at Loop_Stopped loaded) (sys_at Loop_Ready loaded)"
    using pb_step.step_start [of "sys_at Loop_Stopped loaded" bytes3] by (simp add: sys_at_def loaded_def)
  ultimately show ?thesis by (rule pb_run.run_step)
qed

lemma task_run:
  assumes "pb_run bytes3 (sys_at Loop_Ready e)" "progress_buffer_loop_item calm_env False e = Some (pc, e')"
  shows "pb_run bytes3 (sys_at pc e')"
proof -
  have "pb_step bytes3 (sys_at Loop_Ready e) (sys_at (Loop_At False) e)"
    using pb_step.step_call [of "sys_at Loop_Ready e" bytes3] by (simp add: sys_at_def pb_lock_free_def)
  moreover have "pb_step bytes3 (sys_at (Loop_At False) e) (sys_at pc e')"
    using pb_step.step_item [of "sys_at (Loop_At False) e" False calm_env pc e' bytes3] assms(2) by (simp add: sys_at_def)
  ultimately show ?thesis using assms(1) pb_run.run_step by blast
qed

lemma handed_run: "pb_run bytes3 (sys_at Loop_Pushing handed)"
  by (rule task_run [OF task_run [OF loaded_run announced_step] handed_step])

text \<open>
  C5: the progress buffer passes the stream on unchanged. In push mode, for every interleaving of data, segments and
  ends of the stream from the source, the element's task and seeks, every buffer sent downstream holds the bytes of
  the stream at the offset written on it; the buffers jump at most once for each segment that was still waiting
  to be announced when an end of the stream cleared the pending event; and as long as no segment was lost in this way, no
  buffer precedes the first segment, and after a segment the buffers follow each other without gap or overlap from its start.
\<close>

theorem progress_buffer_stream:
  assumes "pb_run src s"
  shows "faithful src (pb_log (sy_pb s)) \<and> gaps None (pb_log (sy_pb s)) \<le> pb_lost (sy_pb s) \<and>
    (pb_lost (sy_pb s) = 0 \<longrightarrow> ordered None (pb_log (sy_pb s)))"
  using pb_run_ok [OF assms] no_gaps by (auto simp: pb_ok_def good_log_def)

theorem progress_buffer_stream_witness:
  "Po_Buffer [7, 8, 9] 0 \<in> set (pb_log handed) \<and> pb_lost handed = 0 \<and> faithful bytes3 (pb_log handed) \<and> ordered None (pb_log handed)"
proof -
  have "pb_lost handed = 0"
    by (simp add: handed_def announced_def loaded_def opened_def progress_buffer_init_def progress_buffer_flush_data_def)
  then show ?thesis using progress_buffer_stream [OF handed_run] by (simp add: sys_at_def) (simp add: handed_def)
qed

text \<open>
  The bound is reached: when the source ends the stream before the task has announced the segment, the first buffer goes out
  with no segment before it.
\<close>

definition cut_short :: ProgressBuffer where
  "cut_short = loaded\<lparr>pb_eos := True, pb_lost := 1, pb_pending_src_event := None,
     pb_log := pb_log loaded @ [Po_Message 0 3 3 True, Po_Signal]\<rparr>"

definition unannounced :: ProgressBuffer where
  "unannounced = cut_short\<lparr>pb_pending_src_event := Some Src_Eos,
     pb_cache := Some \<lparr>cc_file = [7, 8, 9], cc_read_handle = 3, cc_write_handle = 3, read_position = 3, write_position = 3\<rparr>,
     pb_log := pb_log cut_short @ [Po_Buffer [7, 8, 9] 0]\<rparr>"

lemma cut_short_step: "progress_buffer_sink_event calm_env Sink_Eos loaded = Some (True, cut_short)"
  by (simp add: eos_result with_eos_def segment_pending_def cut_short_def loaded_def opened_def short_segment_def signal_if_def
      send_position_message_def calm_env_def post_def progress_buffer_init_def progress_buffer_flush_data_def)

lemma unannounced_step: "progress_buffer_loop_item calm_env False cut_short = Some (Loop_Pushing, unannounced)"
  by (simp add: unannounced_def cut_short_def loaded_def opened_def short_segment_def progress_buffer_loop_item_def loop_buffer_def
      cache_has_enough_data_def cache_read_buffer_def posix_read_def calm_env_def calm_io_def DEFAULT_BUFFER_SIZE_def sub64_def
      progress_buffer_set_pending_event_def progress_buffer_init_def progress_buffer_flush_data_def post_def)

lemma segment_overtaken:
  "pb_run bytes3 (sys_at Loop_Pushing unannounced) \<and> gaps None (pb_log unannounced) = 1 \<and> pb_lost unannounced = 1"
proof -
  have "pb_step bytes3 (sys_at Loop_Ready loaded) (sys_at Loop_Ready cut_short)"
    using pb_step.step_eos [of calm_env "sys_at Loop_Ready loaded" True cut_short bytes3] cut_short_step by (simp add: sys_at_def)
  from task_run [OF run_step [OF loaded_run this] unannounced_step] show ?thesis
    by (simp add: unannounced_def cut_short_def loaded_def opened_def progress_buffer_init_def progress_buffer_flush_data_def)
qed

end
