(* ===== verification/Progress_Live.thy ===== *)
theory Progress_Live
  imports Progress_Stream
begin

text \<open>
  The end of the stream in push mode: when the whole segment is in the cache, the task sends
  what is left of it, then the end of the stream, and pauses. An end-of-stream event of the source that
  arrives when the cache has been read discards that pending end, and the task waits for ever.
\<close>

section \<open>The task on its own\<close>

text \<open>At most \<open>fuel\<close> steps of the task; it stops when it waits and when GStreamer has paused it.\<close>

fun run_task :: "nat \<Rightarrow> (nat \<Rightarrow> pb_env) \<Rightarrow> loop_pc \<Rightarrow> ProgressBuffer \<Rightarrow> (loop_pc \<times> ProgressBuffer) option" where
  "run_task 0 E pc e = Some (pc, e)"
| "run_task (Suc fuel) E pc e =
    (case pc of
       Loop_Stopped \<Rightarrow> Some (pc, e)
     | Loop_Waiting _ \<Rightarrow> Some (pc, e)
     | Loop_Ready \<Rightarrow> run_task fuel E (Loop_At False) e
     | Loop_At skip \<Rightarrow> do { (pc, e) \<leftarrow> progress_buffer_loop_item (E fuel) skip e; run_task fuel E pc e }
     | Loop_Pushing \<Rightarrow> (let (pc, e) = progress_buffer_loop_pushed (E fuel) e in run_task fuel E pc e))"

definition sent :: "pb_output list \<Rightarrow> byte list" where
  "sent log = concat (map (\<lambda>y. case y of Po_Buffer data _ \<Rightarrow> data | _ \<Rightarrow> []) log)"

lemma sent_simps [simp]:
  "sent [] = []" "sent (Po_Buffer data x # ys) = data @ sent ys" "sent (Po_Item i # ys) = sent ys"
  by (simp_all add: sent_def)

text \<open>The state in which the task has data to send and nothing to announce.\<close>

definition flowing :: "(nat \<Rightarrow> byte) \<Rightarrow> nat \<Rightarrow> ProgressBuffer \<Rightarrow> bool" where
  "flowing src next e \<longleftrightarrow> holds_stream src next e \<and> pb_srcresult e = GST_FLOW_OK \<and> pb_instant_seek e \<and>
     bs_stop (pb_sink_segment e) = next"

definition accepting :: "(nat \<Rightarrow> pb_env) \<Rightarrow> bool" where
  "accepting E \<longleftrightarrow> (\<forall>i. reliable (pe_io (E i)) \<and> pe_push (E i) = GST_FLOW_OK)"

lemma run_task_stopped [simp]: "run_task fuel E Loop_Stopped e = Some (Loop_Stopped, e)"
  by (cases fuel) simp_all

lemma run_task_eos:
  assumes "pb_srcresult e = GST_FLOW_OK" "pb_pending_src_event e = Some Src_Eos"
  shows "\<exists>e'. run_task (Suc (Suc fuel)) E Loop_Ready e = Some (Loop_Stopped, e') \<and>
    pb_log e' = pb_log e @ [Po_Item Src_Eos, Po_Pause_Task]"
  using assms
  by (simp add: progress_buffer_loop_item_def loop_event_def loop_end_def progress_buffer_set_pending_event_def)

lemma handed_on_pushed:
  assumes "pe_push E = GST_FLOW_OK" "pb_srcresult e = GST_FLOW_OK"
  shows "handed_on False data x e = (Loop_Pushing, post (Po_Buffer data x) e)"
    "progress_buffer_loop_pushed E (post (Po_Buffer data x) e) = (Loop_Ready, post (Po_Buffer data x) e)"
  using assms by (simp_all add: handed_on_def progress_buffer_loop_pushed_def loop_end_def post_def)

lemma run_task_buffer:
  assumes "flowing src next e" "pb_pending_src_event e = None" "pb_cache e = Some c" "cache_has_enough_data c" "accepting E"
  shows "\<exists>b n c' e'. pb_cache_read_offset e = int b \<and> 0 < n \<and> b + cc_read_handle c + n \<le> next \<and>
    run_task (Suc (Suc (Suc fuel))) E Loop_Ready e = run_task fuel E Loop_Ready e' \<and> flowing src next e' \<and>
    pb_log e' = pb_log e @ [Po_Buffer (map src [b + cc_read_handle c..<b + cc_read_handle c + n]) (b + cc_read_handle c)] \<and>
    pb_cache e' = Some c' \<and> cc_read_handle c' = cc_read_handle c + n \<and> cache_ok c' \<and>
    cache_content c' = cache_content c \<and> pb_cache_read_offset e' = int b \<and>
    pb_pending_src_event e' = (if b + cc_read_handle c + n = next then Some Src_Eos else None)"
proof -
  have h: "holds_stream src next e" "reliable (pe_io (E i))" "pe_push (E i) = GST_FLOW_OK" for i
    using assms(1,5) by (simp_all add: flowing_def accepting_def)
  obtain b n c' where r: "pb_cache_read_offset e = int b" "0 < n" "b + cc_read_handle c + n \<le> next"
      "loop_buffer (E (Suc fuel)) False e = Some (handed_on False (map src [b + cc_read_handle c..<b + cc_read_handle c + n])
        (b + cc_read_handle c) (after_read (b + cc_read_handle c + n) c' e))"
      "cache_ok c'" "cache_content c' = cache_content c" "cc_read_handle c' = cc_read_handle c + n"
    using loop_buffer_reads [OF h(1) assms(3,4) h(2)] by blast
  let ?f = "after_read (b + cc_read_handle c + n) c' e"
  let ?e = "post (Po_Buffer (map src [b + cc_read_handle c..<b + cc_read_handle c + n]) (b + cc_read_handle c)) ?f"
  have f: "pb_srcresult ?f = GST_FLOW_OK" using assms(1) by (simp add: after_read_def flowing_def)
  note pushed = handed_on_pushed [OF h(3) f]
  have "run_task (Suc (Suc (Suc fuel))) E Loop_Ready e = run_task fuel E Loop_Ready ?e"
    using assms(1-4) r(4) pushed by (simp add: progress_buffer_loop_item_def flowing_def)
  moreover have "flowing src next ?e"
    using assms(1,3) r(5,6) by (auto simp: flowing_def holds_stream_def after_read_def)
  moreover have "pb_pending_src_event ?e = (if b + cc_read_handle c + n = next then Some Src_Eos else None)"
    using assms(1,2) by (simp add: after_read_def flowing_def)
  ultimately show ?thesis
    using r by (intro exI [of _ b] exI [of _ n] exI [of _ c'] exI [of _ ?e]) (simp add: after_read_def)
qed

lemma run_task_sends_rest:
  assumes "flowing src next e" "pb_pending_src_event e = None" "pb_cache e = Some c" "cache_has_enough_data c" "accepting E"
    and "pb_cache_read_offset e = int b" "3 * (next - (b + cc_read_handle c)) + 2 \<le> fuel"
  shows "\<exists>e' ys. run_task fuel E Loop_Ready e = Some (Loop_Stopped, e') \<and>
    pb_log e' = pb_log e @ ys @ [Po_Item Src_Eos, Po_Pause_Task] \<and> sent ys = map src [b + cc_read_handle c..<next]"
  using assms
proof (induction "next - (b + cc_read_handle c)" arbitrary: e c fuel rule: less_induct)
  case less
  let ?x = "b + cc_read_handle c"
  have "cc_read_handle c < length (cache_content c)" "holds_stream src next e"
    using less.prems(1,3,4) cache.ready_law by (auto simp: flowing_def holds_stream_def)
  then have "?x < next" using less.prems(3,6) by (auto simp: holds_stream_def)
  then obtain k where k: "fuel = Suc (Suc (Suc k))" using less.prems(7) by (intro that [of "fuel - 3"]) simp
  obtain n c' e' where r: "0 < n" "?x + n \<le> next" "run_task fuel E Loop_Ready e = run_task k E Loop_Ready e'"
      "flowing src next e'" "pb_log e' = pb_log e @ [Po_Buffer (map src [?x..<?x + n]) ?x]" "pb_cache e' = Some c'"
      "cc_read_handle c' = cc_read_handle c + n" "cache_ok c'" "cache_content c' = cache_content c"
      "pb_cache_read_offset e' = int b" "pb_pending_src_event e' = (if ?x + n = next then Some Src_Eos else None)"
    using run_task_buffer [OF less.prems(1-5), of k] less.prems(6) unfolding k by auto
  have upt: "[?x..<next] = [?x..<?x + n] @ [?x + n..<next]"
    using upt_add_eq_append [of ?x "?x + n" "next - (?x + n)"] r(2) by simp
  have fuel: "3 * (next - (?x + n)) + 2 \<le> k" using less.prems(7) r(1) \<open>?x < next\<close> k by linarith
  show ?case
  proof (cases "?x + n = next")
    case True
    obtain m where "k = Suc (Suc m)" using fuel by (intro that [of "k - 2"]) simp
    then obtain e'' where "run_task k E Loop_Ready e' = Some (Loop_Stopped, e'')"
        "pb_log e'' = pb_log e' @ [Po_Item Src_Eos, Po_Pause_Task]"
      using run_task_eos [of e' m E] r(4,11) True by (auto simp: flowing_def)
    then show ?thesis
      using r(3,5) True by (intro exI [of _ e''] exI [of _ "[Po_Buffer (map src [?x..<?x + n]) ?x]"]) simp
  next
    case False
    have "cache_has_enough_data c'"
      using cache.ready_law [OF r(8)] r(2,7,9) False \<open>holds_stream src next e\<close> less.prems(3,6)
      by (auto simp: holds_stream_def)
    moreover have "next - (b + cc_read_handle c') < next - ?x" "3 * (next - (b + cc_read_handle c')) + 2 \<le> k"
      using r(1,7) fuel \<open>?x < next\<close> by (simp_all add: add.assoc)
    moreover have "pb_pending_src_event e' = None" using r(11) False by simp
    ultimately obtain e'' ys where "run_task k E Loop_Ready e' = Some (Loop_Stopped, e'')"
        "pb_log e'' = pb_log e' @ ys @ [Po_Item Src_Eos, Po_Pause_Task]" "sent ys = map src [b + cc_read_handle c'..<next]"
      using less.hyps [OF _ r(4) _ r(6) _ less.prems(5) r(10)] by blast
    then show ?thesis
      using r(3,5,7) upt
      by (intro exI [of _ e''] exI [of _ "Po_Buffer (map src [?x..<?x + n]) ?x # ys"]) (simp add: add.assoc)
  qed
qed

lemma run_task_segment:
  assumes "pb_srcresult e = GST_FLOW_OK" "pb_pending_src_event e = Some (Src_Segment seg)"
  shows "run_task (Suc (Suc fuel)) E Loop_Ready e = run_task fuel E Loop_Ready (post (Po_Item (Src_Segment seg))
    (e\<lparr>pb_pending_src_event := None, pb_srcresult := GST_FLOW_OK\<rparr>))"
  using assms
  by (simp add: progress_buffer_loop_item_def loop_event_def loop_end_def progress_buffer_set_pending_event_def)

text \<open>
  C14: the task finishes the stream. In every reachable state in which the task is between two calls, the cache holds the
  segment up to its end, some of it has not been read, no end of stream is pending and downstream accepts
  buffers, the task alone sends exactly the bytes from its read position to the end of the segment, then the end
  of the stream, and pauses: three steps for each remaining byte are enough, however short the reads are.
\<close>

theorem task_sends_rest:
  assumes "pb_run src s" "sy_pc s = Loop_Ready" "pb_srcresult (sy_pb s) = GST_FLOW_OK" "pb_instant_seek (sy_pb s)"
    and "pb_pending_src_event (sy_pb s) \<noteq> Some Src_Eos" "bs_stop (pb_sink_segment (sy_pb s)) = sy_next s"
    and "pb_cache (sy_pb s) = Some c" "cache_has_enough_data c" "accepting E"
  shows "\<exists>b e ys. pb_cache_read_offset (sy_pb s) = int b \<and>
    run_task (3 * (sy_next s - (b + cc_read_handle c)) + 4) E (sy_pc s) (sy_pb s) = Some (Loop_Stopped, e) \<and>
    pb_log e = pb_log (sy_pb s) @ ys @ [Po_Item Src_Eos, Po_Pause_Task] \<and>
    sent ys = map src [b + cc_read_handle c..<sy_next s]"
proof -
  have h: "holds_stream src (sy_next s) (sy_pb s)" using pb_run_ok [OF assms(1)] by (simp add: pb_ok_def)
  then obtain b where b: "pb_cache_read_offset (sy_pb s) = int b" using assms(7) by (auto simp: holds_stream_def)
  let ?f = "3 * (sy_next s - (b + cc_read_handle c)) + 2"
  have f: "3 * (sy_next s - (b + cc_read_handle c)) + 4 = Suc (Suc ?f)" by simp
  have flow: "flowing src (sy_next s) (sy_pb s)" using h assms(3,4,6) by (simp add: flowing_def)
  consider "pb_pending_src_event (sy_pb s) = None" | seg where "pb_pending_src_event (sy_pb s) = Some (Src_Segment seg)"
    using assms(5) by (metis option.exhaust src_item.exhaust)
  then show ?thesis
  proof cases
    case 1
    then show ?thesis
      using run_task_sends_rest [OF flow 1 assms(7,8,9) b, of "3 * (sy_next s - (b + cc_read_handle c)) + 4"] b assms(2) by simp
  next
    case 2
    let ?e = "post (Po_Item (Src_Segment seg)) ((sy_pb s)\<lparr>pb_pending_src_event := None, pb_srcresult := GST_FLOW_OK\<rparr>)"
    have "flowing src (sy_next s) ?e" using flow by (simp add: flowing_def holds_stream_def)
    then obtain e ys where "run_task ?f E Loop_Ready ?e = Some (Loop_Stopped, e)"
        "pb_log e = pb_log ?e @ ys @ [Po_Item Src_Eos, Po_Pause_Task]" "sent ys = map src [b + cc_read_handle c..<sy_next s]"
      using run_task_sends_rest [of src "sy_next s" ?e c E b ?f] assms(7-9) b by auto
    then show ?thesis
      using b run_task_segment [OF assms(3) 2, of ?f E, folded f] assms(2)
      by (intro exI [of _ b] exI [of _ e] exI [of _ "Po_Item (Src_Segment seg) # ys"]) (simp del: run_task.simps)
  qed
qed


theorem task_sends_rest_witness:
  "\<exists>b e ys. pb_cache_read_offset loaded = int b \<and> run_task (3 * (3 - b) + 4) (\<lambda>_. calm_env) Loop_Ready loaded = Some (Loop_Stopped, e) \<and>
    pb_log e = pb_log loaded @ ys @ [Po_Item Src_Eos, Po_Pause_Task] \<and> sent ys = map bytes3 [b..<3]"
  using task_sends_rest [OF loaded_run, of "\<lparr>cc_file = [7, 8, 9], cc_read_handle = 0, cc_write_handle = 3, read_position = 0,
      write_position = 3\<rparr>" "\<lambda>_. calm_env"]
  by (simp add: sys_at_def loaded_def opened_def progress_buffer_init_def progress_buffer_flush_data_def short_segment_def
      cache_has_enough_data_def accepting_def) (simp add: calm_env_def)

section \<open>A lost end of stream\<close>

text \<open>The element accepts nothing after an end of stream until a seek, and its task only reports underruns.\<close>

definition stuck :: "ProgressBuffer \<Rightarrow> bool" where
  "stuck e \<longleftrightarrow> pb_eos e \<and> pb_srcresult e = GST_FLOW_OK \<and> pb_pending_src_event e = None \<and>
     (\<exists>c. pb_cache e = Some c \<and> \<not> cache_has_enough_data c)"

lemma enqueue_eos_fields:
  "pb_eos (enqueue_eos E e)" "pb_srcresult (enqueue_eos E e) = pb_srcresult e"
  "pb_pending_src_event (enqueue_eos E e) = None" "pb_cache (enqueue_eos E e) = pb_cache e"
  "pb_srcpad (enqueue_eos E e) = pb_srcpad e"
  by (simp_all add: enqueue_eos_def Let_def signal_if_def send_position_message_def progress_buffer_set_pending_event_def)

text \<open>An end of stream discards the segment or the end that the task has not announced yet.\<close>

lemma eos_drops_pending_segment:
  "\<not> pb_eos e \<Longrightarrow> \<exists>e'. progress_buffer_sink_event E Sink_Eos e = Some (True, e') \<and> pb_pending_src_event e' = None"
  by (simp add: progress_buffer_sink_event_def serialized_def progress_buffer_enqueue_item_def enqueue_eos_fields)

lemma stuck_loop:
  "stuck e \<Longrightarrow> \<exists>e'. progress_buffer_loop_item E skip e = Some (Loop_Waiting skip, e') \<and> stuck e' \<and>
     (e' = e \<or> e' = post Po_Underrun e)"
  by (auto simp: stuck_def progress_buffer_loop_item_def)

text \<open>Waking the task again and again, with new buffers from the source in between.\<close>

fun wake_task :: "(pb_env \<times> byte list \<times> nat) list \<Rightarrow> bool \<Rightarrow> ProgressBuffer \<Rightarrow> (loop_pc \<times> ProgressBuffer) option" where
  "wake_task [] skip e = Some (Loop_Waiting skip, e)"
| "wake_task ((E, data, offset) # Es) skip e =
    do { (r, e) \<leftarrow> progress_buffer_chain E data offset e;
         (pc, e) \<leftarrow> progress_buffer_loop_item E skip e;
         case pc of Loop_Waiting skip \<Rightarrow> wake_task Es skip e | _ \<Rightarrow> Some (pc, e) }"

lemma stuck_wake:
  assumes "stuck e" "pb_srcpad e"
  shows "\<exists>e' k. wake_task Es skip e = Some (Loop_Waiting skip, e') \<and> pb_log e' = pb_log e @ replicate k Po_Underrun"
  using assms
proof (induction Es arbitrary: e)
  case (Cons a Es)
  obtain E data offset where a: "a = (E, data, offset)" by (cases a)
  have "progress_buffer_chain E data offset e = Some (GST_FLOW_EOS, e)"
    using Cons.prems by (simp add: progress_buffer_chain_def stuck_def)
  moreover obtain f where f: "progress_buffer_loop_item E skip e = Some (Loop_Waiting skip, f)" "stuck f"
      "f = e \<or> f = post Po_Underrun e" using stuck_loop [OF Cons.prems(1)] by blast
  moreover from f Cons.prems(2) obtain e' k where w: "wake_task Es skip f = Some (Loop_Waiting skip, e')"
      "pb_log e' = pb_log f @ replicate k Po_Underrun"
    using Cons.IH [of f] by auto
  have "\<exists>j. pb_log e' = pb_log e @ replicate j Po_Underrun"
    using f(3) w(2) by (auto intro: exI [of _ "Suc k"])
  ultimately show ?case using w(1) a by simp
qed (auto intro: exI [of _ 0])

text \<open>
  C34: an end of stream that comes too late is lost. If the task has read everything in the cache when the source's
  end-of-stream event arrives, the event discards the pending end of the stream; from then on, however often the
  task is woken and whatever the source sends, the task sends nothing more and only reports underruns.
\<close>

theorem late_end_of_stream_lost:
  assumes "pb_srcpad e" "\<not> pb_eos e" "pb_srcresult e = GST_FLOW_OK" "pb_cache e = Some c" "\<not> cache_has_enough_data c"
  shows "\<exists>e'. progress_buffer_sink_event E Sink_Eos e = Some (True, e') \<and>
    (\<forall>Es skip. \<exists>e'' k. wake_task Es skip e' = Some (Loop_Waiting skip, e'') \<and>
      pb_log e'' = pb_log e' @ replicate k Po_Underrun)"
proof -
  have "stuck (enqueue_eos E e)" "pb_srcpad (enqueue_eos E e)"
    using assms by (simp_all add: stuck_def enqueue_eos_fields)
  then show ?thesis
    using stuck_wake assms(2)
    by (simp add: progress_buffer_sink_event_def serialized_def progress_buffer_enqueue_item_def)
qed


text \<open>It happens when the source's event arrives while the task is sending the last buffer.\<close>

theorem late_end_of_stream_lost_witness:
  "pb_run bytes3 (sys_at Loop_Pushing handed) \<and> pb_pending_src_event handed = Some Src_Eos \<and>
   (\<exists>e'. progress_buffer_sink_event calm_env Sink_Eos handed = Some (True, e') \<and>
    (\<forall>Es skip. \<exists>e'' k. wake_task Es skip e' = Some (Loop_Waiting skip, e'') \<and>
      pb_log e'' = pb_log e' @ replicate k Po_Underrun))"
proof -
  have "pb_srcpad handed" "\<not> pb_eos handed" "pb_srcresult handed = GST_FLOW_OK"
    by (simp_all add: handed_def announced_def loaded_def opened_def progress_buffer_init_def progress_buffer_flush_data_def)
  moreover have "pb_cache handed = Some \<lparr>cc_file = [7, 8, 9], cc_read_handle = 3, cc_write_handle = 3, read_position = 3, write_position = 3\<rparr>"
    "pb_pending_src_event handed = Some Src_Eos" by (simp_all add: handed_def)
  ultimately show ?thesis
    using handed_run late_end_of_stream_lost [of handed _ calm_env] by (simp add: cache_has_enough_data_def)
qed

end
