(* ===== verification/Progress_Pull.thy ===== *)
theory Progress_Pull
  imports Progress_Live
begin

text \<open>
  Pull mode of the progress buffer: what \<open>progress_buffer_getrange\<close> answers in the states that segments and
  data from the source, other requests and the range monitor lead to.
\<close>

section \<open>Steps\<close>

text \<open>Reads of a regular file that return all there is.\<close>

definition complete :: "file_io \<Rightarrow> bool" where
  "complete io \<longleftrightarrow> reliable io \<and> (\<forall>n. int n \<le> io_read io n)"

text \<open>The element and the position up to which the source has sent the stream; the source stays inside its segment.\<close>

inductive pull_run :: "(nat \<Rightarrow> byte) \<Rightarrow> nat \<Rightarrow> ProgressBuffer \<Rightarrow> bool" for src where
  pull_start: "pull_run src 0 progress_buffer_init"
| pull_segment: "pull_run src next e \<Longrightarrow> progress_buffer_sink_event E (Sink_Segment True update seg) e = Some (r, e') \<Longrightarrow>
    \<not> pb_eos e \<Longrightarrow> pe_cache E \<Longrightarrow> bs_start seg < bs_stop seg \<Longrightarrow> bs_stop seg < 2 ^ 63 \<Longrightarrow> bs_position seg = bs_start seg \<Longrightarrow>
    (update \<Longrightarrow> int (bs_start seg) = pb_cache_read_offset e) \<Longrightarrow> pull_run src (bs_start seg) e'"
| pull_buffer: "pull_run src next e \<Longrightarrow> progress_buffer_chain E (map src [next..<next + n]) next e = Some (r, e') \<Longrightarrow>
    reliable (pe_io E) \<Longrightarrow> next + n \<le> bs_stop (pb_sink_segment e) \<Longrightarrow> next + n < 2 ^ 63 \<Longrightarrow>
    pull_run src (if r = GST_FLOW_OK then next + n else next) e'"
| pull_eos: "pull_run src next e \<Longrightarrow> progress_buffer_sink_event E Sink_Eos e = Some (r, e') \<Longrightarrow> pull_run src next e'"
| pull_monitor: "pull_run src next e \<Longrightarrow> progress_buffer_range_monitor e = (pc, e') \<Longrightarrow> pull_run src next e'"
| pull_range: "pull_run src next e \<Longrightarrow> progress_buffer_getrange E start count e = Some (r, b, e') \<Longrightarrow>
    complete (pe_io E) \<Longrightarrow> start < 2 ^ 63 \<Longrightarrow> pull_run src next e'"

definition pull_ok :: "(nat \<Rightarrow> byte) \<Rightarrow> nat \<Rightarrow> ProgressBuffer \<Rightarrow> bool" where
  "pull_ok src next e \<longleftrightarrow> holds_stream src next e \<and> bs_position (pb_sink_segment e) = next"

section \<open>The invariant\<close>

lemma pull_ok_view:
  "same_view e e' \<Longrightarrow> pb_sink_segment e' = pb_sink_segment e \<Longrightarrow> pull_ok src next e' = pull_ok src next e"
  by (simp add: pull_ok_def same_view_holds)

lemma message_segment [simp]: "pb_sink_segment (signal_if (send_position_message E m e)) = pb_sink_segment e"
  by (simp add: signal_if_def send_position_message_def Let_def)

lemma pull_ok_message [simp]: "pull_ok src next (signal_if (send_position_message E m e)) = pull_ok src next e"
  by (rule pull_ok_view [OF same_view_message message_segment])

lemma pull_ok_fields:
  assumes "pb_cache e' = pb_cache e" "pb_cache_read_offset e' = pb_cache_read_offset e"
    "bs_start (pb_sink_segment e') = bs_start (pb_sink_segment e)" "bs_position (pb_sink_segment e') = bs_position (pb_sink_segment e)"
  shows "pull_ok src next e' = pull_ok src next e"
  using assms by (simp add: pull_ok_def holds_stream_def)

lemma sourcepad_pull_ok: "pull_ok src next (progress_buffer_create_sourcepad E e) = pull_ok src next e"
  by (rule pull_ok_fields) (simp_all add: progress_buffer_create_sourcepad_def progress_buffer_activatemode_def
    progress_buffer_activatepull_src_def progress_buffer_activatepush_src_def reset_eos_def Let_def)

lemma chain_pull_ok:
  assumes "pull_ok src next e" "reliable (pe_io E)" "next + n \<le> bs_stop (pb_sink_segment e)" "next + n < 2 ^ 63"
    and "progress_buffer_chain E (map src [next..<next + n]) next e = Some (r, e')"
  shows "pull_ok src (if r = GST_FLOW_OK then next + n else next) e'"
proof -
  obtain f where f: "(if pb_eos e \<or> pb_unexpected e then Some (GST_FLOW_EOS, e)
       else enqueue_buffer E (map src [next..<next + n]) next e) = Some (r, f)"
    "e' = (if r \<noteq> GST_FLOW_ERROR \<and> \<not> pb_srcpad f then progress_buffer_create_sourcepad E f else f)"
    using assms(5) by (auto simp: progress_buffer_chain_def progress_buffer_enqueue_item_def split: bind_splits if_splits)
  have "pull_ok src (if r = GST_FLOW_OK then next + n else next) f"
  proof (cases "pb_eos e \<or> pb_unexpected e")
    case False
    have add: "add64 next n = next + n" using assms(4) by (simp add: add64_def)
    obtain c where c: "r = GST_FLOW_OK" "pb_cache e = Some c"
      "f = signal_if (send_position_message E False (measure_bandwidth E n
        (e\<lparr>pb_sink_segment := (pb_sink_segment e)\<lparr>bs_position := next + n\<rparr>, pb_cache := Some (cache_write_buffer (pe_io E)
          (map src [next..<next + n]) c)\<rparr>)))"
      using f(1) False assms(3) add unfolding enqueue_buffer_cases by (cases "pb_cache e") (auto simp: Let_def)
    then have ok: "cache_ok c" using assms(1) by (simp add: pull_ok_def holds_stream_def)
    let ?g = "e\<lparr>pb_sink_segment := (pb_sink_segment e)\<lparr>bs_position := next + n\<rparr>, pb_cache := Some (cache_write_buffer (pe_io E)
          (map src [next..<next + n]) c)\<rparr>"
    obtain b where "b \<le> next" "pb_cache_read_offset e = int b" "bs_start (pb_sink_segment e) = b"
      "cache_content c = map src [b..<next]" using assms(1) c(2) by (auto simp: pull_ok_def holds_stream_def)
    then have "pull_ok src (next + n) ?g"
      using assms(4) cache_write_ok [OF assms(2) ok, of "map src [next..<next + n]"] upt_add_eq_append [of b "next" n]
      by (simp add: pull_ok_def holds_stream_def)
    then show ?thesis
      using c(1,3) pull_ok_view [OF same_view_bandwidth, of E n ?g] by (simp add: measure_bandwidth_def Let_def)
  qed (use f assms(1) in auto)
  then show ?thesis using f(2) sourcepad_pull_ok by simp
qed

lemma posix_read_complete:
  assumes "complete io"
  shows "posix_read io count c = (let rest = drop (cc_read_handle c) (cc_file c)
    in (int (min count (length rest)), take count rest, c\<lparr>cc_read_handle := cc_read_handle c + min count (length rest)\<rparr>))"
proof -
  have "min (io_read io k) (int k) = int k" for k using assms by (simp add: complete_def min_absorb2)
  then show ?thesis by (simp add: posix_read_def Let_def del: of_nat_min) (simp add: min_def)
qed

lemma read_from_position:
  assumes "complete io" "cache_ok c"
  shows "\<exists>c'. cache_read_buffer_from_position io (int start) count c =
      (let data = take count (drop start (cc_file c))
       in if length data = count then (GST_FLOW_OK, Some \<lparr>cb_data = data, cb_offset = start\<rparr>, c') else (GST_FLOW_ERROR, None, c')) \<and>
    cache_ok c' \<and> cache_content c' = cache_content c"
proof -
  let ?c = "c\<lparr>cc_read_handle := start, read_position := int start\<rparr>"
  have "cache_set_read_position (int start) c = (True, ?c)"
    using assms(2) by (auto simp: cache_set_read_position_def cache_set_handler_position_def cache_ok_def)
  then show ?thesis
    using assms by (auto simp: cache_read_buffer_from_position_def posix_read_complete complete_def reliable_def Let_def
        cache_ok_def cache_content_def min_def)
qed

lemma getrange_cases:
  "progress_buffer_getrange E start count e =
    (if bs_stop (pb_sink_segment e) < add64 start count then Some (GST_FLOW_EOS, None, e)
     else if bs_start (pb_sink_segment e) \<le> start \<and> add64 start count \<le> bs_position (pb_sink_segment e)
     then map_option (\<lambda>c. case cache_read_buffer_from_position (pe_io E) (s64 (int start)) count c of
            (r, b, c') \<Rightarrow> (r, b, e\<lparr>pb_cache := Some c'\<rparr>)) (pb_cache e)
     else Some (GST_FLOW_FLUSHING, None,
       let e' = post Po_Underrun (snd (request_range E start (add64 start count) e))
       in if fst (request_range E start (add64 start count) e) then post (Po_Seek (bs_rate (pb_sink_segment e')) False start) e' else e'))"
  by (cases "pb_cache e") (simp_all add: progress_buffer_getrange_def Let_def split: prod.split)

lemma request_range_fields [simp]:
  "pb_cache (snd (request_range E a b e)) = pb_cache e"
  "pb_cache_read_offset (snd (request_range E a b e)) = pb_cache_read_offset e"
  "pb_sink_segment (snd (request_range E a b e)) = pb_sink_segment e"
  by (simp_all add: request_range_def Let_def reset_eos_def progress_buffer_set_pending_event_def)

lemma getrange_pull_ok:
  assumes "pull_ok src next e" "complete (pe_io E)" "start < 2 ^ 63" "progress_buffer_getrange E start count e = Some (r, b, e')"
  shows "pull_ok src next e'"
proof (cases "bs_start (pb_sink_segment e) \<le> start \<and> add64 start count \<le> bs_position (pb_sink_segment e) \<and>
    add64 start count \<le> bs_stop (pb_sink_segment e)")
  case True
  then obtain c where c: "pb_cache e = Some c" using assms(4) by (cases "pb_cache e") (simp_all add: getrange_cases)
  then have ok: "cache_ok c" using assms(1) by (simp add: pull_ok_def holds_stream_def)
  have s: "s64 (int start) = int start" using assms(3) by (intro s64_id) auto
  obtain c' where "pb_cache e' = Some c'" "e' = e\<lparr>pb_cache := Some c'\<rparr>" "cache_ok c'" "cache_content c' = cache_content c"
    using read_from_position [OF assms(2) ok, of start count] assms(4) True c
    by (auto simp: getrange_cases s Let_def split: if_splits)
  then show ?thesis using assms(1) c by (simp add: pull_ok_def holds_stream_def)
next
  case False
  then have "pb_cache e' = pb_cache e" "pb_cache_read_offset e' = pb_cache_read_offset e" "pb_sink_segment e' = pb_sink_segment e"
    using assms(4) by (auto simp: getrange_cases Let_def split: if_splits)
  then show ?thesis using assms(1) by (simp add: pull_ok_def holds_stream_def)
qed

lemma pull_run_ok: "pull_run src next e \<Longrightarrow> pull_ok src next e"
proof (induction rule: pull_run.induct)
  case pull_start
  show ?case
    by (simp add: pull_ok_def holds_stream_def progress_buffer_init_def progress_buffer_flush_data_def init_segment_def)
next
  case (pull_segment "next" e E update seg r e')
  then obtain c where "e' = signal_if (send_position_message E True (with_segment seg c e))" "cache_ok c" "cache_content c = []"
    using segment_result [of src "next" e E seg update r e'] by (auto simp: pull_ok_def)
  moreover from this have "pull_ok src (bs_start seg) (with_segment seg c e)"
    using pull_segment.hyps by (simp add: pull_ok_def holds_stream_def with_segment_def)
  ultimately show ?case by simp
next
  case (pull_eos "next" e E r e')
  have "pull_ok src next (with_eos e) = pull_ok src next e" by (rule pull_ok_fields) (simp_all add: with_eos_def Let_def)
  then show ?case using pull_eos by (auto simp: eos_result split: if_splits)
next
  case (pull_monitor "next" e pc e')
  have "pull_ok src next e' = pull_ok src next e"
    using pull_monitor.hyps(2)
    by (intro pull_ok_fields) (auto simp: progress_buffer_range_monitor_def pending_eos_def Let_def split: if_splits)
  then show ?case using pull_monitor.IH by simp
qed (use chain_pull_ok getrange_pull_ok in blast)+

lemma content_in_file:
  assumes "a + n \<le> length (cache_content c)"
  shows "take n (drop a (cc_file c)) = take n (drop a (cache_content c))"
proof -
  have "n \<le> cc_write_handle c - a" using assms by (auto simp: cache_content_def)
  then show ?thesis by (simp add: cache_content_def drop_take min_absorb1)
qed

section \<open>Requests\<close>

text \<open>What a request for received bytes reads: the bytes of the file at the position in the stream.\<close>

lemma getrange_received:
  assumes "pull_ok src next e" "complete (pe_io E)" "pb_cache e \<noteq> None" "pb_cache_read_offset e = int b"
    and "bs_start (pb_sink_segment e) \<le> start" "b + start + count \<le> next" "start + count \<le> bs_stop (pb_sink_segment e)"
  shows "\<exists>e'. progress_buffer_getrange E start count e =
    Some (GST_FLOW_OK, Some \<lparr>cb_data = map src [b + start..<b + start + count], cb_offset = start\<rparr>, e')"
proof -
  obtain c where c: "pb_cache e = Some c" using assms(3) by blast
  have h: "cache_ok c" "cache_content c = map src [b..<next]" "next < 2 ^ 63" "bs_position (pb_sink_segment e) = next" "b \<le> next"
    using assms(1,4) c by (auto simp: pull_ok_def holds_stream_def)
  have "add64 start count = start + count" using assms(6) h(3) by (simp add: add64_def)
  moreover have "s64 (int start) = int start" using assms(6) h(3) by (intro s64_id) auto
  moreover have "take count (drop start (cc_file c)) = map src [b + start..<b + start + count]"
    using content_in_file [of start count c] assms(6) h(2,5) by (simp add: drop_map take_map take_upt)
  ultimately show ?thesis
    using read_from_position [OF assms(2) h(1), of start count] assms(5-7) c h(4)
    by (auto simp: getrange_cases Let_def)
qed

text \<open>
  C15: in pull mode a request is answered with the bytes of the stream. In every state that segments, data and an end of stream
  from the source, earlier requests and the range monitor lead to, as long as the source has not been asked to seek, a request
  past the end of the segment returns the end of the stream, one for bytes that have arrived returns exactly these bytes
  with their offset, and any other returns \<open>GST_FLOW_FLUSHING\<close>.
\<close>

theorem getrange_exact:
  assumes "pull_run src next e" "pb_cache e \<noteq> None" "pb_cache_read_offset e = 0" "complete (pe_io E)" "start + count < 2 ^ 63"
  shows "\<exists>e'. progress_buffer_getrange E start count e =
    (if bs_stop (pb_sink_segment e) < start + count then Some (GST_FLOW_EOS, None, e)
     else if start + count \<le> next
     then Some (GST_FLOW_OK, Some \<lparr>cb_data = map src [start..<start + count], cb_offset = start\<rparr>, e')
     else Some (GST_FLOW_FLUSHING, None, e'))"
proof -
  have ok: "pull_ok src next e" by (rule pull_run_ok [OF assms(1)])
  then have h: "bs_position (pb_sink_segment e) = next" "bs_start (pb_sink_segment e) = 0"
    using assms(2,3) by (auto simp: pull_ok_def holds_stream_def)
  have "add64 start count = start + count" using assms(5) by (simp add: add64_def)
  then show ?thesis
    using getrange_received [OF ok assms(4,2), of 0 start count] assms(3) h by (simp add: getrange_cases)
qed

lemma loaded_pull_run: "pull_run bytes3 0 opened" "pull_run bytes3 3 loaded"
proof -
  show o: "pull_run bytes3 0 opened"
    using pull_run.pull_segment [OF pull_run.pull_start opened_step]
    by (simp add: short_segment_def progress_buffer_init_def progress_buffer_flush_data_def calm_env_def)
  show "pull_run bytes3 3 loaded"
    using pull_run.pull_buffer [OF o, of calm_env 3 GST_FLOW_OK loaded] loaded_step
    by (simp add: bytes3_def opened_def short_segment_def)
qed

lemma calm_complete: "complete (pe_io calm_env)"
  unfolding complete_def by (simp add: calm_env_def calm_io_def reliable_def)

theorem getrange_exact_witness:
  "\<exists>e'. progress_buffer_getrange calm_env 1 2 loaded = Some (GST_FLOW_OK, Some \<lparr>cb_data = [8, 9], cb_offset = 1\<rparr>, e')"
proof -
  have "pb_cache loaded \<noteq> None" "pb_cache_read_offset loaded = 0" "bs_stop (pb_sink_segment loaded) = 3"
    by (simp_all add: loaded_def opened_def short_segment_def progress_buffer_init_def progress_buffer_flush_data_def)
  then show ?thesis
    using getrange_exact [OF loaded_pull_run(2) _ _ calm_complete, of 1 2] by (simp add: bytes3_def)
qed

text \<open>
  C35: after the source has been asked to seek, a request returns other bytes. The cache then starts at the position of
  the seek, but requests are still read at their position in the stream: the data handed out comes from as many bytes further on
  as the seek skipped, under the offset that was asked for.
\<close>

theorem getrange_after_seek_misplaced:
  assumes "pull_run src next e" "pb_cache e \<noteq> None" "pb_cache_read_offset e = int b" "complete (pe_io E)"
    and "bs_start (pb_sink_segment e) \<le> start" "b + start + count \<le> next" "start + count \<le> bs_stop (pb_sink_segment e)"
  shows "\<exists>e'. progress_buffer_getrange E start count e =
    Some (GST_FLOW_OK, Some \<lparr>cb_data = map src [b + start..<b + start + count], cb_offset = start\<rparr>, e')"
  using getrange_received [OF pull_run_ok [OF assms(1)] assms(4,2,3,5-7)] .


text \<open>The source has been asked for the second byte and has sent what follows.\<close>

definition resumed_segment :: bytes_segment where
  "resumed_segment = \<lparr>bs_rate = 0, bs_start = 1, bs_stop = 3, bs_position = 1\<rparr>"

definition resumed :: ProgressBuffer where
  "resumed = opened\<lparr>pb_sink_segment := resumed_segment, pb_cache_read_offset := 1,
     pb_pending_src_event := Some (Src_Segment resumed_segment), pb_log := pb_log opened @ [Po_Message 1 1 3 False, Po_Signal]\<rparr>"

lemma resumed_step: "progress_buffer_sink_event calm_env (Sink_Segment True False resumed_segment) opened = Some (True, resumed)"
  by (simp add: resumed_def opened_def progress_buffer_sink_event_def serialized_def resumed_segment_def
      progress_buffer_enqueue_item_def enqueue_segment_def sub64_def calm_env_def progress_buffer_init_def
      progress_buffer_flush_data_def progress_buffer_set_pending_event_def signal_if_def send_position_message_def post_def
      cache_set_read_position_def cache_set_write_position_def create_cache_def Let_def)

lemma refilled:
  "\<exists>e. pull_run bytes3 3 e \<and> pb_cache e \<noteq> None \<and> pb_cache_read_offset e = 1 \<and> pb_sink_segment e = resumed_segment\<lparr>bs_position := 3\<rparr>"
proof -
  have r: "pull_run bytes3 1 resumed"
    using pull_run.pull_segment [OF loaded_pull_run(1) resumed_step]
    by (simp add: resumed_segment_def opened_def progress_buffer_init_def progress_buffer_flush_data_def calm_env_def)
  have "\<exists>e. progress_buffer_chain calm_env (map bytes3 [1..<1 + 2]) 1 resumed = Some (GST_FLOW_OK, e) \<and> pb_cache e \<noteq> None \<and>
      pb_cache_read_offset e = 1 \<and> pb_sink_segment e = resumed_segment\<lparr>bs_position := 3\<rparr>"
    by (simp add: resumed_def opened_def progress_buffer_chain_def progress_buffer_enqueue_item_def enqueue_buffer_def
        resumed_segment_def calm_env_def progress_buffer_init_def progress_buffer_flush_data_def
        send_position_message_def progress_buffer_create_sourcepad_def progress_buffer_activatemode_def
        progress_buffer_activatepush_src_def add64_def measure_bandwidth_def reset_eos_def signal_if_def Let_def)
  then show ?thesis
    using pull_run.pull_buffer [OF r, of calm_env 2 GST_FLOW_OK]
    by (auto simp: resumed_def resumed_segment_def numeral_3_eq_3)
qed

theorem getrange_after_seek_misplaced_witness:
  "\<exists>e e'. pull_run bytes3 3 e \<and> progress_buffer_getrange calm_env 1 1 e =
    Some (GST_FLOW_OK, Some \<lparr>cb_data = [9], cb_offset = 1\<rparr>, e')"
proof -
  obtain e where e: "pull_run bytes3 3 e" "pb_cache e \<noteq> None" "pb_cache_read_offset e = int 1"
      "pb_sink_segment e = resumed_segment\<lparr>bs_position := 3\<rparr>" using refilled by auto
  then show ?thesis
    using getrange_after_seek_misplaced [OF e(1-3) calm_complete, of 1 1] by (auto simp: resumed_segment_def bytes3_def)
qed

end
