(* ===== verification/HLS_Buffer.thy ===== *)
theory HLS_Buffer
  imports Progress_Buffer
begin

text \<open>
  The progress buffer of HTTP live streaming (gstreamer/plugins/progressbuffer/hlsprogressbuffer.c): a ring
  of three caches, one for each media segment, filled by the source's thread and emptied by the element's task. The
  functions are the code between taking and releasing the lock, as in \<open>Progress_Buffer\<close>; the index of the
  cache that is written is -1 before the first segment, and an access there or to a missing cache is \<open>None\<close>.
\<close>

section \<open>State\<close>

definition NUM_OF_CACHED_SEGMENTS :: nat where "NUM_OF_CACHED_SEGMENTS = 3"

datatype hls_output =
    Ho_Message string
  | Ho_Error string
  | Ho_Segment gdouble nat
  | Ho_Event string
  | Ho_Eos
  | Ho_Buffer "cache_buffer option"
  | Ho_Signal_Add
  | Ho_Signal_Del
  | Ho_Flush
  | Ho_Start_Task
  | Ho_Stop_Task
  | Ho_Pause_Task

record HLSProgressBuffer =
  hb_cache :: "Cache option list"
  hb_cache_size :: "nat list"
  hb_cache_write_ready :: "bool list"
  hb_cache_write_index :: int
  hb_cache_read_index :: nat
  hb_send_new_segment :: bool
  hb_set_src_caps :: bool
  hb_is_flushing :: bool
  hb_is_eos :: bool
  hb_srcresult :: GstFlowReturn
  hb_log :: "hls_output list"

definition hls_post :: "hls_output \<Rightarrow> HLSProgressBuffer \<Rightarrow> HLSProgressBuffer" where
  "hls_post x e = e\<lparr>hb_log := hb_log e @ [x]\<rparr>"

text \<open>\<open>created i\<close> tells whether the file of cache \<open>i\<close> could be opened.\<close>

definition hls_progress_buffer_init :: "(nat \<Rightarrow> bool) \<Rightarrow> HLSProgressBuffer" where
  "hls_progress_buffer_init created =
    \<lparr>hb_cache = map (\<lambda>i. if created i then Some create_cache else None) [0..<NUM_OF_CACHED_SEGMENTS],
     hb_cache_size = replicate NUM_OF_CACHED_SEGMENTS 0, hb_cache_write_ready = replicate NUM_OF_CACHED_SEGMENTS True,
     hb_cache_write_index = -1, hb_cache_read_index = 0, hb_send_new_segment = True, hb_set_src_caps = True,
     hb_is_flushing = False, hb_is_eos = False, hb_srcresult = GST_FLOW_OK, hb_log = []\<rparr>"

definition hls_progress_buffer_activatepush_src :: "bool \<Rightarrow> bool \<Rightarrow> HLSProgressBuffer \<Rightarrow> HLSProgressBuffer" where
  "hls_progress_buffer_activatepush_src linked active e =
    (if active
     then let e = e\<lparr>hb_srcresult := GST_FLOW_OK\<rparr> in if linked then hls_post Ho_Start_Task e else e
     else hls_post Ho_Stop_Task (hls_post Ho_Signal_Del (hls_post Ho_Signal_Add (e\<lparr>hb_srcresult := GST_FLOW_FLUSHING\<rparr>))))"

definition hls_progress_buffer_activatemode ::
    "bool \<Rightarrow> bool \<Rightarrow> bool \<Rightarrow> HLSProgressBuffer \<Rightarrow> bool \<times> HLSProgressBuffer" where
  "hls_progress_buffer_activatemode linked push_mode active e =
    (if push_mode then (True, hls_progress_buffer_activatepush_src linked active e) else (False, e))"

text \<open>One iteration of the loop of \<open>hls_progress_buffer_flush_data\<close>.\<close>

definition rewind_cache :: "Cache \<Rightarrow> Cache" where
  "rewind_cache c = snd (cache_set_read_position 0 (snd (cache_set_write_position 0 c)))"

definition flush_slot :: "nat \<Rightarrow> HLSProgressBuffer \<Rightarrow> HLSProgressBuffer" where
  "flush_slot i e =
    (case hb_cache e ! i of
       Some c \<Rightarrow> e\<lparr>hb_cache := (hb_cache e)[i := Some (rewind_cache c)], hb_cache_size := (hb_cache_size e)[i := 0],
                  hb_cache_write_ready := (hb_cache_write_ready e)[i := True]\<rparr>
     | None \<Rightarrow> e)"

text \<open>\<open>Ho_Flush\<close> stands for the two signals of this function.\<close>

definition hls_progress_buffer_flush_data :: "HLSProgressBuffer \<Rightarrow> HLSProgressBuffer" where
  "hls_progress_buffer_flush_data e =
    fold flush_slot [0..<NUM_OF_CACHED_SEGMENTS]
      ((hls_post Ho_Flush (e\<lparr>hb_srcresult := GST_FLOW_FLUSHING\<rparr>))\<lparr>hb_cache_write_index := -1, hb_cache_read_index := 0\<rparr>)"

section \<open>Data from the source\<close>

text \<open>The cache at an index of the ring.\<close>

definition ring_cache :: "int \<Rightarrow> HLSProgressBuffer \<Rightarrow> Cache option" where
  "ring_cache i e = (if 0 \<le> i \<and> nat i < length (hb_cache e) then hb_cache e ! nat i else None)"

definition hls_progress_buffer_chain ::
    "file_io \<Rightarrow> byte list \<Rightarrow> HLSProgressBuffer \<Rightarrow> (GstFlowReturn \<times> HLSProgressBuffer) option" where
  "hls_progress_buffer_chain io data e =
    (if hb_is_flushing e \<or> hb_is_eos e then Some (GST_FLOW_FLUSHING, e)
     else if hb_srcresult e \<noteq> GST_FLOW_FLUSHING
     then do { c \<leftarrow> ring_cache (hb_cache_write_index e) e;
               Some (GST_FLOW_OK, hls_post Ho_Signal_Add
                 (e\<lparr>hb_cache := (hb_cache e)[nat (hb_cache_write_index e) := Some (cache_write_buffer io data c)]\<rparr>)) }
     else Some (GST_FLOW_OK, e))"

definition send_hls_resume_message :: "HLSProgressBuffer \<Rightarrow> HLSProgressBuffer" where
  "send_hls_resume_message = hls_post (Ho_Message ''hls_pb_resume'')"

definition send_hls_eos_message :: "HLSProgressBuffer \<Rightarrow> HLSProgressBuffer" where
  "send_hls_eos_message = hls_post (Ho_Message ''hls_pb_eos'')"

definition send_hls_full_message :: "HLSProgressBuffer \<Rightarrow> HLSProgressBuffer" where
  "send_hls_full_message = hls_post (Ho_Message ''hls_pb_full'')"

definition send_hls_not_full_message :: "HLSProgressBuffer \<Rightarrow> HLSProgressBuffer" where
  "send_hls_not_full_message = hls_post (Ho_Message ''hls_pb_not_full'')"

section \<open>The task\<close>

text \<open>Between two calls, in \<open>g_cond_wait\<close>, or in \<open>gst_pad_push\<close>.\<close>

datatype hls_pc = Hls_Stopped | Hls_Ready | Hls_Waiting | Hls_Pushing

definition hls_loop_end :: "GstFlowReturn \<Rightarrow> HLSProgressBuffer \<Rightarrow> hls_pc \<times> HLSProgressBuffer" where
  "hls_loop_end result e =
    (if result \<noteq> GST_FLOW_OK \<and> \<not> hb_is_flushing e then (Hls_Stopped, hls_post Ho_Pause_Task e) else (Hls_Ready, e))"

definition hls_loop_read :: "file_io \<Rightarrow> Cache \<Rightarrow> HLSProgressBuffer \<Rightarrow> HLSProgressBuffer" where
  "hls_loop_read io c e =
    (let r = hb_cache_read_index e; (read_position, buffer, c) = cache_read_buffer io c;
         e = e\<lparr>hb_cache := (hb_cache e)[r := Some c]\<rparr>;
         e = (if read_position = int (hb_cache_size e ! r)
              then hls_post Ho_Signal_Del (send_hls_not_full_message
                (e\<lparr>hb_cache_write_ready := (hb_cache_write_ready e)[r := True],
                   hb_cache_read_index := (r + 1) mod NUM_OF_CACHED_SEGMENTS\<rparr>))
              else e)
     in hls_post (Ho_Buffer buffer) e)"

text \<open>From the test of the waiting loop, when the lock has been taken or the thread has been woken.\<close>

definition hls_progress_buffer_loop :: "file_io \<Rightarrow> HLSProgressBuffer \<Rightarrow> (hls_pc \<times> HLSProgressBuffer) option" where
  "hls_progress_buffer_loop io e =
    (if hb_srcresult e \<noteq> GST_FLOW_OK then Some (hls_loop_end (hb_srcresult e) e)
     else do {
       c \<leftarrow> ring_cache (int (hb_cache_read_index e)) e;
       Some (if cache_has_enough_data c then (Hls_Pushing, hls_loop_read io c e)
             else if hb_is_eos e
             then hls_loop_end GST_FLOW_FLUSHING ((hls_post Ho_Eos e)\<lparr>hb_srcresult := GST_FLOW_FLUSHING\<rparr>)
             else (Hls_Waiting, e)) })"

text \<open>When \<open>gst_pad_push\<close> has returned \<open>result\<close>.\<close>

definition hls_progress_buffer_loop_pushed :: "GstFlowReturn \<Rightarrow> HLSProgressBuffer \<Rightarrow> hls_pc \<times> HLSProgressBuffer" where
  "hls_progress_buffer_loop_pushed result e =
    (if hb_srcresult e = GST_FLOW_OK \<or> result \<noteq> GST_FLOW_OK
     then hls_loop_end result (e\<lparr>hb_srcresult := result\<rparr>)
     else hls_loop_end (hb_srcresult e) e)"

section \<open>Events from the source\<close>

text \<open>
  The handler of a segment event in its three parts: the test under the lock, the part without the lock, and the
  choice of a cache; \<open>Inl\<close> is a return. In the last part the thread waits until the cache is free.
\<close>

definition hls_segment_check :: "HLSProgressBuffer \<Rightarrow> bool" where
  "hls_segment_check e \<longleftrightarrow> hb_srcresult e = GST_FLOW_OK"

definition hls_segment_open ::
    "bool \<Rightarrow> bytes_segment \<Rightarrow> HLSProgressBuffer \<Rightarrow> HLSProgressBuffer + HLSProgressBuffer" where
  "hls_segment_open linked seg e =
    (let e = (if hb_is_eos e
              then (if linked then hls_post Ho_Start_Task else id) (e\<lparr>hb_is_eos := False, hb_srcresult := GST_FLOW_OK\<rparr>)
              else e)
     in if sub64 (bs_stop seg) (bs_start seg) = 0
        then Inl (hls_post (Ho_Error ''Only limited content is supported by hlsprogressbuffer.'') e)
        else Inr (if hb_send_new_segment e
                  then hls_post (Ho_Segment (bs_rate seg) (bs_position seg)) (e\<lparr>hb_send_new_segment := False\<rparr>) else e))"

definition hls_segment_next :: "HLSProgressBuffer \<Rightarrow> HLSProgressBuffer" where
  "hls_segment_next e = e\<lparr>hb_cache_write_index := (hb_cache_write_index e + 1) mod int NUM_OF_CACHED_SEGMENTS\<rparr>"

definition hls_segment_store :: "bytes_segment \<Rightarrow> HLSProgressBuffer \<Rightarrow> HLSProgressBuffer option" where
  "hls_segment_store seg e =
    (let w = nat (hb_cache_write_index e)
     in do { c \<leftarrow> ring_cache (hb_cache_write_index e) e;
             Some (send_hls_resume_message
               (e\<lparr>hb_cache_size := (hb_cache_size e)[w := bs_stop seg mod 2 ^ 32],
                  hb_cache_write_ready := (hb_cache_write_ready e)[w := False],
                  hb_cache := (hb_cache e)[w := Some (rewind_cache c)]\<rparr>)) })"

text \<open>The test of the waiting loop; \<open>woken\<close> after \<open>g_cond_wait\<close>. \<open>Some (False, _)\<close> is a wait, \<open>Some (True, _)\<close> a return.\<close>

definition hls_segment_slot :: "bool \<Rightarrow> bytes_segment \<Rightarrow> HLSProgressBuffer \<Rightarrow> (bool \<times> HLSProgressBuffer) option" where
  "hls_segment_slot woken seg e =
    (if hb_srcresult e \<noteq> GST_FLOW_OK \<and> woken then Some (True, e)
     else if hb_srcresult e = GST_FLOW_OK \<and> \<not> hb_cache_write_ready e ! nat (hb_cache_write_index e)
     then Some (False, send_hls_full_message e)
     else map_option (Pair True) (hls_segment_store seg e))"

definition hls_flush_start :: "HLSProgressBuffer \<Rightarrow> HLSProgressBuffer" where
  "hls_flush_start e = hls_post (Ho_Event ''flush-start'') (e\<lparr>hb_is_flushing := True\<rparr>)"

definition hls_flush_pause :: "bool \<Rightarrow> HLSProgressBuffer \<Rightarrow> HLSProgressBuffer" where
  "hls_flush_pause linked e = (if linked then hls_post Ho_Pause_Task e else e)"

definition hls_flush_stop :: "bool \<Rightarrow> HLSProgressBuffer \<Rightarrow> HLSProgressBuffer" where
  "hls_flush_stop linked e =
    (let e = (hls_post (Ho_Event ''flush-stop'') e)
               \<lparr>hb_send_new_segment := True, hb_is_flushing := False, hb_srcresult := GST_FLOW_OK\<rparr>
     in if \<not> hb_is_eos e \<and> linked then hls_post Ho_Start_Task e else e)"

definition hls_eos :: "HLSProgressBuffer \<Rightarrow> HLSProgressBuffer" where
  "hls_eos e = hls_post Ho_Signal_Add ((send_hls_eos_message e)\<lparr>hb_is_eos := True\<rparr>)"

text \<open>The handler without interruption: \<open>None\<close> where it waits for a cache.\<close>

definition hls_progress_buffer_sink_event :: "bool \<Rightarrow> sink_item \<Rightarrow> HLSProgressBuffer \<Rightarrow> HLSProgressBuffer option" where
  "hls_progress_buffer_sink_event linked ev e =
    (case ev of
       Sink_Segment _ _ seg \<Rightarrow>
         if hls_segment_check e
         then case hls_segment_open linked seg e of
             Inl e \<Rightarrow> Some e
           | Inr e \<Rightarrow> do { (done, e) \<leftarrow> hls_segment_slot False seg (hls_segment_next e); if done then Some e else None }
         else Some e
     | Sink_Flush_Start \<Rightarrow> Some (hls_flush_pause linked (hls_progress_buffer_flush_data (hls_flush_start e)))
     | Sink_Flush_Stop \<Rightarrow> Some (hls_flush_stop linked e)
     | Sink_Eos \<Rightarrow> Some (hls_eos e)
     | _ \<Rightarrow> Some (hls_post (Ho_Event (item_name ev)) e))"

definition hls_progress_buffer_change_state :: "bool \<Rightarrow> HLSProgressBuffer \<Rightarrow> HLSProgressBuffer" where
  "hls_progress_buffer_change_state paused_to_ready e = (if paused_to_ready then hls_progress_buffer_flush_data e else e)"

end
