(* ===== verification/HLS_Ring.thy ===== *)
theory HLS_Ring
  imports HLS_Buffer
begin

text \<open>
  The ring of caches as a queue: for every interleaving of the source's thread, the task and flushes, what is sent
  downstream since the last flush is a prefix of what the source has delivered since then, the rest is in
  the ring, and the end of the stream follows all of it.
\<close>

section \<open>Steps\<close>

text \<open>Where the source's thread is: outside, in the handler of a segment before it has chosen a cache, or waiting for the cache.\<close>

datatype src_pc = Src_Idle | Src_Checked bytes_segment | Src_Opened bytes_segment | Src_Waiting bytes_segment

datatype flush_pc = No_Flush | Flush_Started | Flush_Cleared | Flush_Done

text \<open>
  Beside the element and its threads: the bytes accepted since the last flush, those that the current segment still owes,
  and whether the source has ended the stream since then.
\<close>

record hls_sys =
  hs_pb :: HLSProgressBuffer
  hs_pc :: hls_pc
  hs_src :: src_pc
  hs_flush :: flush_pc
  hs_in :: "byte list"
  hs_left :: nat
  hs_ended :: bool

text \<open>A new element, activated with a linked pad.\<close>

definition hls_sys_init :: hls_sys where
  "hls_sys_init = \<lparr>hs_pb = hls_progress_buffer_activatepush_src True True (hls_progress_buffer_init (\<lambda>_. True)), hs_pc = Hls_Ready, hs_src = Src_Idle, hs_flush = No_Flush,
     hs_in = [], hs_left = 0, hs_ended = False\<rparr>"

text \<open>
  The source sends segments that start at 0, are not empty and have a size of 32 bits, and all the bytes of a segment before the
  next one or the end of the stream; after the end it sends nothing until a flush. The pad is linked.
\<close>

inductive hls_step :: "hls_sys \<Rightarrow> hls_sys \<Rightarrow> bool" where
  step_chain: "hls_progress_buffer_chain io data (hs_pb s) = Some (r, e) \<Longrightarrow> reliable io \<Longrightarrow>
    hs_src s = Src_Idle \<Longrightarrow> hb_is_flushing (hs_pb s) \<or> length data \<le> hs_left s \<Longrightarrow>
    acc = (\<not> hb_is_flushing (hs_pb s) \<and> \<not> hb_is_eos (hs_pb s) \<and> hb_srcresult (hs_pb s) \<noteq> GST_FLOW_FLUSHING) \<Longrightarrow>
    hls_step s (s\<lparr>hs_pb := e, hs_in := (if acc then hs_in s @ data else hs_in s),
      hs_left := (if acc then hs_left s - length data else hs_left s)\<rparr>)"
| step_check: "hs_src s = Src_Idle \<Longrightarrow> hs_left s = 0 \<Longrightarrow> \<not> hs_ended s \<Longrightarrow> hs_flush s = No_Flush \<Longrightarrow>
    bs_start seg = 0 \<Longrightarrow> 0 < bs_stop seg \<Longrightarrow> bs_stop seg < 2 ^ 32 \<Longrightarrow>
    hls_step s (s\<lparr>hs_src := (if hls_segment_check (hs_pb s) then Src_Checked seg else Src_Idle)\<rparr>)"
| step_open: "hs_src s = Src_Checked seg \<Longrightarrow> hls_segment_open True seg (hs_pb s) = Inr e \<Longrightarrow>
    hls_step s (s\<lparr>hs_pb := e, hs_src := Src_Opened seg, hs_pc := (if hb_is_eos (hs_pb s) then Hls_Ready else hs_pc s)\<rparr>)"
| step_slot: "hs_src s = Src_Opened seg \<Longrightarrow> hls_segment_slot False seg (hls_segment_next (hs_pb s)) = Some (done, e) \<Longrightarrow>
    hls_step s (s\<lparr>hs_pb := e, hs_src := (if done then Src_Idle else Src_Waiting seg), hs_left := (if done then bs_stop seg else 0)\<rparr>)"
| step_woken: "hs_src s = Src_Waiting seg \<Longrightarrow> hls_segment_slot True seg (hs_pb s) = Some (done, e) \<Longrightarrow>
    hls_step s (s\<lparr>hs_pb := e, hs_src := (if done then Src_Idle else Src_Waiting seg),
      hs_left := (if done \<and> hb_srcresult (hs_pb s) = GST_FLOW_OK then bs_stop seg else 0)\<rparr>)"
| step_eos: "hs_src s = Src_Idle \<Longrightarrow> hs_left s = 0 \<Longrightarrow> hls_step s (s\<lparr>hs_pb := hls_eos (hs_pb s), hs_ended := True\<rparr>)"
| step_loop: "hs_pc s \<in> {Hls_Ready, Hls_Waiting} \<Longrightarrow> hls_progress_buffer_loop io (hs_pb s) = Some (pc, e) \<Longrightarrow> reliable io \<Longrightarrow>
    hls_step s (s\<lparr>hs_pb := e, hs_pc := pc\<rparr>)"
| step_pushed: "hs_pc s = Hls_Pushing \<Longrightarrow> hls_progress_buffer_loop_pushed r (hs_pb s) = (pc, e) \<Longrightarrow>
    hls_step s (s\<lparr>hs_pb := e, hs_pc := pc\<rparr>)"
| step_flush_start: "hs_flush s = No_Flush \<Longrightarrow> hls_step s (s\<lparr>hs_pb := hls_flush_start (hs_pb s), hs_flush := Flush_Started\<rparr>)"
| step_flush_data: "hs_flush s = Flush_Started \<Longrightarrow> hls_step s (s\<lparr>hs_pb := hls_progress_buffer_flush_data (hs_pb s),
    hs_flush := Flush_Cleared, hs_in := [], hs_left := 0, hs_ended := False\<rparr>)"
| step_flush_pause: "hs_flush s = Flush_Cleared \<Longrightarrow> hs_pc s \<in> {Hls_Stopped, Hls_Ready} \<Longrightarrow>
    hls_step s (s\<lparr>hs_pb := hls_flush_pause True (hs_pb s), hs_flush := Flush_Done, hs_pc := Hls_Stopped\<rparr>)"
| step_flush_stop: "hs_flush s = Flush_Done \<Longrightarrow> hs_src s = Src_Idle \<Longrightarrow>
    hls_step s (s\<lparr>hs_pb := hls_flush_stop True (hs_pb s), hs_flush := No_Flush,
      hs_pc := (if hb_is_eos (hs_pb s) then Hls_Stopped else Hls_Ready)\<rparr>)"

inductive hls_run :: "hls_sys \<Rightarrow> bool" where
  hls_start: "hls_run hls_sys_init"
| hls_next: "hls_run s \<Longrightarrow> hls_step s s' \<Longrightarrow> hls_run s'"

section \<open>The ring\<close>

text \<open>The slots of the ring, counted from the one that is read.\<close>

definition slot_cache :: "HLSProgressBuffer \<Rightarrow> nat \<Rightarrow> Cache option" where
  "slot_cache e j = hb_cache e ! ((hb_cache_read_index e + j) mod 3)"

definition slot_size :: "HLSProgressBuffer \<Rightarrow> nat \<Rightarrow> nat" where
  "slot_size e j = hb_cache_size e ! ((hb_cache_read_index e + j) mod 3)"

definition slot_free :: "HLSProgressBuffer \<Rightarrow> nat \<Rightarrow> bool" where
  "slot_free e j = hb_cache_write_ready e ! ((hb_cache_read_index e + j) mod 3)"

text \<open>
  The first \<open>k\<close> slots are in use, complete up to the last one, which still lacks \<open>left\<close> bytes; only the first one has been
  read from, and not to its end. The others have been read to their end.
\<close>

definition slot_ok :: "nat \<Rightarrow> nat \<Rightarrow> nat \<Rightarrow> Cache \<Rightarrow> nat \<Rightarrow> bool \<Rightarrow> bool" where
  "slot_ok left k j c sz free \<longleftrightarrow> cache_ok c \<and> free = (k \<le> j) \<and>
     (if j < k
      then length (cache_content c) + (if Suc j = k then left else 0) = sz \<and> cc_read_handle c < sz \<and>
           cc_read_handle c \<le> length (cache_content c) \<and> (0 < j \<longrightarrow> cc_read_handle c = 0)
      else cc_read_handle c = length (cache_content c))"

definition ring_ok :: "nat \<Rightarrow> nat \<Rightarrow> HLSProgressBuffer \<Rightarrow> bool" where
  "ring_ok k left e \<longleftrightarrow> hb_cache_read_index e < 3 \<and> k \<le> 3 \<and> (k = 0 \<longrightarrow> left = 0) \<and> length (hb_cache e) = 3 \<and>
     length (hb_cache_size e) = 3 \<and> length (hb_cache_write_ready e) = 3 \<and>
     (\<forall>j < 3. \<exists>c. slot_cache e j = Some c \<and> slot_ok left k j c (slot_size e j) (slot_free e j))"

definition unread :: "Cache option \<Rightarrow> byte list" where
  "unread x = (case x of Some c \<Rightarrow> drop (cc_read_handle c) (cache_content c) | None \<Rightarrow> [])"

definition ring_bytes :: "nat \<Rightarrow> HLSProgressBuffer \<Rightarrow> byte list" where
  "ring_bytes k e = concat (map (\<lambda>j. unread (slot_cache e j)) [0..<k])"

lemma ring_index:
  assumes "i < 3" "j < 3"
  shows "(r + i) mod 3 = (r + j) mod 3 \<longleftrightarrow> i = (j::nat)"
proof -
  have "i = 0 \<or> i = 1 \<or> i = 2" "j = 0 \<or> j = 1 \<or> j = 2" using assms by auto
  then show ?thesis by (elim disjE) (simp_all add: numeral_2_eq_2 mod_Suc)
qed

lemma ring_update:
  assumes "length xs = 3" "i < 3" "j < 3"
  shows "xs[(r + i) mod 3 := x] ! ((r + j) mod 3) = (if j = i then x else xs ! ((r + j) mod 3))"
  using assms ring_index [OF assms(2,3), of r] by (auto simp: nth_list_update)

lemma ring_bytes_cong: "(\<And>j. j < k \<Longrightarrow> unread (slot_cache e j) = unread (slot_cache e' j)) \<Longrightarrow> ring_bytes k e = ring_bytes k e'"
  unfolding ring_bytes_def by (intro arg_cong [where f = concat] map_cong) auto

lemma ring_bytes_Suc: "ring_bytes (Suc k) e = ring_bytes k e @ unread (slot_cache e k)"
  by (simp add: ring_bytes_def)

lemma ring_bytes_first: "ring_bytes (Suc k) e = unread (slot_cache e 0) @ concat (map (\<lambda>j. unread (slot_cache e (Suc j))) [0..<k])"
proof -
  have "[0..<Suc k] = 0 # map Suc [0..<k]" by (simp add: map_Suc_upt upt_conv_Cons del: upt_Suc)
  then show ?thesis by (simp add: ring_bytes_def comp_def del: upt_Suc)
qed

lemma ring_slot:
  assumes "ring_ok k left e" "j < 3" "slot_cache e j = Some c"
  shows "slot_ok left k j c (slot_size e j) (slot_free e j)"
  using assms by (auto simp: ring_ok_def)

lemma ring_write_ok:
  assumes "ring_ok (Suc k) left e" "reliable io" "length data \<le> left" "slot_cache e k = Some c"
    and "e' = e\<lparr>hb_cache := (hb_cache e)[(hb_cache_read_index e + k) mod 3 := Some (cache_write_buffer io data c)]\<rparr>"
  shows "ring_ok (Suc k) (left - length data) e' \<and> ring_bytes (Suc k) e' = ring_bytes (Suc k) e @ data"
proof -
  have k: "k < 3" "length (hb_cache e) = 3" using assms(1) by (auto simp: ring_ok_def)
  have slot: "j < 3 \<Longrightarrow> slot_cache e' j = (if j = k then Some (cache_write_buffer io data c) else slot_cache e j)"
    "slot_size e' j = slot_size e j" "slot_free e' j = slot_free e j" for j
    using ring_update [OF k(2,1)] by (simp_all add: slot_cache_def slot_size_def slot_free_def assms(5))
  have c: "slot_ok left (Suc k) k c (slot_size e k) (slot_free e k)" by (rule ring_slot [OF assms(1) k(1) assms(4)])
  then have ok: "cache_ok c" "cc_read_handle c \<le> length (cache_content c)" by (simp_all add: slot_ok_def)
  note w = cache_write_ok [OF assms(2) ok(1), of data]
  have "slot_ok (left - length data) (Suc k) k (cache_write_buffer io data c) (slot_size e k) (slot_free e k)"
    using c w assms(3) by (auto simp: slot_ok_def)
  moreover have "slot_ok left (Suc k) j d sz fr \<Longrightarrow> j \<noteq> k \<Longrightarrow> slot_ok (left - length data) (Suc k) j d sz fr" for j d sz fr
    by (auto simp: slot_ok_def)
  ultimately have "ring_ok (Suc k) (left - length data) e'"
    using assms(1) slot k by (auto simp: ring_ok_def assms(5))
  moreover have "ring_bytes k e' = ring_bytes k e" using slot(1) k(1) by (intro ring_bytes_cong) simp
  ultimately show ?thesis using slot(1) [OF k(1)] w ok assms(4) by (simp add: ring_bytes_Suc unread_def)
qed

lemma rewind_cache_ok:
  assumes "cache_ok c"
  shows "cache_ok (rewind_cache c)" "cache_content (rewind_cache c) = []" "cc_read_handle (rewind_cache c) = 0"
  using assms by (auto simp: rewind_cache_def cache_set_read_position_def cache_set_write_position_def
      cache_set_handler_position_def cache_ok_def cache_content_def)

lemma ring_store_ok:
  assumes "ring_ok k 0 e" "k < 3" "0 < sz" "slot_cache e k = Some c"
    and "w = (hb_cache_read_index e + k) mod 3"
    and "e' = e\<lparr>hb_cache_size := (hb_cache_size e)[w := sz], hb_cache_write_ready := (hb_cache_write_ready e)[w := False],
      hb_cache := (hb_cache e)[w := Some (rewind_cache c)]\<rparr>"
  shows "ring_ok (Suc k) sz e' \<and> ring_bytes (Suc k) e' = ring_bytes k e"
proof -
  have l: "length (hb_cache e) = 3" "length (hb_cache_size e) = 3" "length (hb_cache_write_ready e) = 3"
    using assms(1) by (auto simp: ring_ok_def)
  have slot: "j < 3 \<Longrightarrow> slot_cache e' j = (if j = k then Some (rewind_cache c) else slot_cache e j)"
    "j < 3 \<Longrightarrow> slot_size e' j = (if j = k then sz else slot_size e j)"
    "j < 3 \<Longrightarrow> slot_free e' j = (j \<noteq> k \<and> slot_free e j)" for j
    using ring_update [OF l(1) assms(2)] ring_update [OF l(2) assms(2)] ring_update [OF l(3) assms(2)]
    by (simp_all add: slot_cache_def slot_size_def slot_free_def assms(5,6))
  have ok: "cache_ok c" using assms(1,2,4) by (auto simp: ring_ok_def slot_ok_def)
  note r = rewind_cache_ok [OF ok]
  have "slot_ok sz (Suc k) k (rewind_cache c) sz False" using r assms(3) by (simp add: slot_ok_def)
  moreover have "slot_ok 0 k j d s fr \<Longrightarrow> j \<noteq> k \<Longrightarrow> slot_ok sz (Suc k) j d s fr" for j d s fr
    by (auto simp: slot_ok_def split: if_splits)
  ultimately have "ring_ok (Suc k) sz e'" using assms(1,2) slot by (auto simp: ring_ok_def assms(6))
  moreover have "ring_bytes k e' = ring_bytes k e" using slot(1) assms(2) by (intro ring_bytes_cong) simp
  ultimately show ?thesis using slot(1) [OF assms(2)] r by (simp add: ring_bytes_Suc unread_def)
qed

text \<open>What is sent, and whether the end has been sent, since the last flush.\<close>

fun out_step :: "byte list \<Rightarrow> hls_output \<Rightarrow> byte list" where
  "out_step out (Ho_Buffer (Some b)) = out @ cb_data b"
| "out_step out Ho_Flush = []"
| "out_step out _ = out"

definition hls_out :: "hls_output list \<Rightarrow> byte list" where
  "hls_out log = foldl out_step [] log"

fun end_step :: "bool \<Rightarrow> hls_output \<Rightarrow> bool" where
  "end_step b Ho_Eos = True"
| "end_step b Ho_Flush = False"
| "end_step b _ = b"

definition hls_end :: "hls_output list \<Rightarrow> bool" where
  "hls_end log = foldl end_step False log"

lemma hls_log_append [simp]:
  "hls_out (log @ ys) = foldl out_step (hls_out log) ys" "hls_end (log @ ys) = foldl end_step (hls_end log) ys"
  by (simp_all add: hls_out_def hls_end_def)

lemma hls_log_simps [simp]:
  "hls_out [] = []" "\<not> hls_end []"
  by (simp_all add: hls_out_def hls_end_def)

lemma hls_post_fields [simp]:
  "hb_cache (hls_post x e) = hb_cache e" "hb_cache_size (hls_post x e) = hb_cache_size e"
  "hb_cache_write_ready (hls_post x e) = hb_cache_write_ready e" "hb_cache_write_index (hls_post x e) = hb_cache_write_index e"
  "hb_cache_read_index (hls_post x e) = hb_cache_read_index e" "hb_is_flushing (hls_post x e) = hb_is_flushing e"
  "hb_is_eos (hls_post x e) = hb_is_eos e" "hb_srcresult (hls_post x e) = hb_srcresult e"
  "hb_log (hls_post x e) = hb_log e @ [x]" "hb_send_new_segment (hls_post x e) = hb_send_new_segment e"
  by (simp_all add: hls_post_def)

lemma ring_fields:
  assumes "hb_cache e' = hb_cache e" "hb_cache_size e' = hb_cache_size e" "hb_cache_write_ready e' = hb_cache_write_ready e"
    "hb_cache_read_index e' = hb_cache_read_index e"
  shows "ring_ok k left e' = ring_ok k left e" "ring_bytes k e' = ring_bytes k e"
  using assms by (simp_all add: ring_ok_def ring_bytes_def slot_cache_def slot_size_def slot_free_def)

lemma ring_post [simp]: "ring_ok k left (hls_post x e) = ring_ok k left e" "ring_bytes k (hls_post x e) = ring_bytes k e"
  by (rule ring_fields; simp)+

lemma slot_advance:
  assumes "hb_cache_read_index e < 3" "hb_cache_read_index e' = (hb_cache_read_index e + 1) mod 3"
    "hb_cache e' = hb_cache e" "hb_cache_size e' = hb_cache_size e" "hb_cache_write_ready e' = hb_cache_write_ready e" "j < 3"
  shows "slot_cache e' j = slot_cache e (if j = 2 then 0 else Suc j)" "slot_size e' j = slot_size e (if j = 2 then 0 else Suc j)"
    "slot_free e' j = slot_free e (if j = 2 then 0 else Suc j)"
proof -
  have "((hb_cache_read_index e + 1) mod 3 + j) mod 3 = (hb_cache_read_index e + (if j = 2 then 0 else Suc j)) mod 3"
    using assms(6) by (auto simp: mod_simps)
  then show "slot_cache e' j = slot_cache e (if j = 2 then 0 else Suc j)" "slot_size e' j = slot_size e (if j = 2 then 0 else Suc j)"
    "slot_free e' j = slot_free e (if j = 2 then 0 else Suc j)"
    using assms(2-5) by (simp_all only: slot_cache_def slot_size_def slot_free_def)
qed

text \<open>Reading part of the first slot, and reading it to its end.\<close>

lemma ring_read_part:
  assumes "ring_ok (Suc k) left e" "slot_cache e 0 = Some c" "cache_ok c'" "cache_content c' = cache_content c"
    and "cc_read_handle c' = cc_read_handle c + n" "cc_read_handle c + n \<le> length (cache_content c)" "cc_read_handle c + n < slot_size e 0"
    and "e' = e\<lparr>hb_cache := (hb_cache e)[hb_cache_read_index e := Some c']\<rparr>"
  shows "ring_ok (Suc k) left e' \<and> ring_bytes (Suc k) e = take n (drop (cc_read_handle c) (cache_content c)) @ ring_bytes (Suc k) e'"
proof -
  have l: "length (hb_cache e) = 3" "hb_cache_read_index e < 3" "k < 3" using assms(1) by (auto simp: ring_ok_def)
  have slot: "j < 3 \<Longrightarrow> slot_cache e' j = (if j = 0 then Some c' else slot_cache e j)"
    "slot_size e' j = slot_size e j" "slot_free e' j = slot_free e j" for j
    using ring_update [OF l(1), of 0 j "hb_cache_read_index e" "Some c'"] l(2)
    by (auto simp: slot_cache_def slot_size_def slot_free_def assms(8))
  have "slot_ok left (Suc k) 0 c (slot_size e 0) (slot_free e 0)" using ring_slot [OF assms(1) _ assms(2)] by simp
  then have "slot_ok left (Suc k) 0 c' (slot_size e 0) (slot_free e 0)" using assms(3-7) by (auto simp: slot_ok_def)
  then have "ring_ok (Suc k) left e'" using assms(1) slot by (auto simp: ring_ok_def assms(8))
  moreover have "unread (Some c) = take n (drop (cc_read_handle c) (cache_content c)) @ unread (Some c')"
    using assms(4,5) append_take_drop_id [of n "drop (cc_read_handle c) (cache_content c)"] by (simp add: unread_def add.commute)
  moreover have "map (\<lambda>j. unread (slot_cache e (Suc j))) [0..<k] = map (\<lambda>j. unread (slot_cache e' (Suc j))) [0..<k]"
    using slot(1) l(3) by simp
  ultimately show ?thesis using slot(1) [of 0] assms(2) unfolding ring_bytes_first by (simp del: map_eq_conv)
qed

lemma ring_read_end:
  assumes "ring_ok (Suc k) left e" "slot_cache e 0 = Some c" "cache_ok c'" "cache_content c' = cache_content c"
    and "cc_read_handle c' = slot_size e 0" "slot_size e 0 \<le> length (cache_content c)"
    and "e' = e\<lparr>hb_cache := (hb_cache e)[hb_cache_read_index e := Some c'],
      hb_cache_write_ready := (hb_cache_write_ready e)[hb_cache_read_index e := True],
      hb_cache_read_index := (hb_cache_read_index e + 1) mod 3\<rparr>"
  shows "ring_ok k left e' \<and> ring_bytes (Suc k) e = drop (cc_read_handle c) (cache_content c) @ ring_bytes k e'"
proof -
  define f where "f = e\<lparr>hb_cache := (hb_cache e)[hb_cache_read_index e := Some c'],
      hb_cache_write_ready := (hb_cache_write_ready e)[hb_cache_read_index e := True]\<rparr>"
  have l: "length (hb_cache e) = 3" "length (hb_cache_write_ready e) = 3" "hb_cache_read_index e < 3" "k < 3"
    using assms(1) by (auto simp: ring_ok_def)
  have slot: "j < 3 \<Longrightarrow> slot_cache f j = (if j = 0 then Some c' else slot_cache e j)"
    "slot_size f j = slot_size e j" "j < 3 \<Longrightarrow> slot_free f j = (j = 0 \<or> slot_free e j)" for j
    using ring_update [OF l(1), of 0 j "hb_cache_read_index e" "Some c'"] l(3)
      ring_update [OF l(2), of 0 j "hb_cache_read_index e" True]
    by (auto simp: slot_cache_def slot_size_def slot_free_def f_def)
  have adv: "j < 3 \<Longrightarrow> slot_cache e' j = slot_cache f (if j = 2 then 0 else Suc j)"
    "j < 3 \<Longrightarrow> slot_size e' j = slot_size f (if j = 2 then 0 else Suc j)"
    "j < 3 \<Longrightarrow> slot_free e' j = slot_free f (if j = 2 then 0 else Suc j)" for j
    using slot_advance [of f e' j] l(3) by (simp_all add: f_def assms(7))
  have c: "slot_ok left (Suc k) 0 c (slot_size e 0) (slot_free e 0)" using ring_slot [OF assms(1) _ assms(2)] by simp
  then have len: "length (cache_content c) = slot_size e 0" "k = 0 \<Longrightarrow> left = 0"
    using assms(6) by (auto simp: slot_ok_def split: if_splits)
  have last: "slot_ok left k 2 c' sz True" for sz using assms(3-5) len l(4) by (auto simp: slot_ok_def)
  have step: "slot_ok left (Suc k) (Suc j) d sz fr \<Longrightarrow> slot_ok left k j d sz fr" for j d sz fr
    by (auto simp: slot_ok_def split: if_splits)
  have "\<exists>d. slot_cache e' j = Some d \<and> slot_ok left k j d (slot_size e' j) (slot_free e' j)" if j: "j < 3" for j
  proof (cases "j = 2")
    case True
    then show ?thesis using adv [of 2] slot [of 0] last by simp
  next
    case False
    then have s: "Suc j < 3" using j by simp
    then obtain d where "slot_cache e (Suc j) = Some d" "slot_ok left (Suc k) (Suc j) d (slot_size e (Suc j)) (slot_free e (Suc j))"
      using assms(1) unfolding ring_ok_def by blast
    then show ?thesis using adv [OF j] slot [of "Suc j"] s False step by simp
  qed
  then have "ring_ok k left e'" using assms(1) len(2) l by (simp add: ring_ok_def assms(7))
  moreover have "unread (slot_cache e (Suc j)) = unread (slot_cache e' j)" if "j < k" for j
    using adv(1) [of j] slot(1) [of "Suc j"] that l(4) by auto
  then have "map (\<lambda>j. unread (slot_cache e (Suc j))) [0..<k] = map (\<lambda>j. unread (slot_cache e' j)) [0..<k]" by simp
  ultimately show ?thesis
    using assms(2) unfolding ring_bytes_first ring_bytes_def [of k] by (simp add: unread_def del: map_eq_conv)
qed

lemma ring_read_ok:
  assumes "ring_ok k left e" "reliable io" "slot_cache e 0 = Some c" "cache_has_enough_data c"
  shows "0 < k \<and> (\<exists>k' data. ring_ok k' left (hls_loop_read io c e) \<and>
    ring_bytes k e = data @ ring_bytes k' (hls_loop_read io c e) \<and>
    hls_out (hb_log (hls_loop_read io c e)) = hls_out (hb_log e) @ data \<and>
    hls_end (hb_log (hls_loop_read io c e)) = hls_end (hb_log e) \<and>
    (\<forall>j. hb_cache_write_index e = int ((hb_cache_read_index e + (k + j)) mod 3) \<longrightarrow>
      hb_cache_write_index (hls_loop_read io c e) = int ((hb_cache_read_index (hls_loop_read io c e) + (k' + j)) mod 3)))"
proof -
  have c: "slot_ok left k 0 c (slot_size e 0) (slot_free e 0)" by (rule ring_slot [OF assms(1) _ assms(3)]) simp
  then have ok: "cache_ok c" by (simp add: slot_ok_def)
  have r: "hb_cache_read_index e < 3" "(hb_cache_read_index e + 0) mod 3 = hb_cache_read_index e"
    using assms(1) by (auto simp: ring_ok_def)
  have "cc_read_handle c < length (cache_content c)" using cache.ready_law [OF ok] assms(4) by simp
  then obtain k0 where k: "k = Suc k0" using c by (cases k) (auto simp: slot_ok_def)
  obtain n c' where n: "0 < n" "cc_read_handle c + n \<le> length (cache_content c)" "cache_ok c'" "cache_content c' = cache_content c"
      "cc_read_handle c' = cc_read_handle c + n" "cache_read_buffer io c = (int (cc_read_handle c + n),
        Some \<lparr>cb_data = take n (drop (cc_read_handle c) (cache_content c)), cb_offset = cc_read_handle c\<rparr>, c')"
    using cache_read_ok [OF assms(2) ok assms(4)] by blast
  let ?b = "\<lparr>cb_data = take n (drop (cc_read_handle c) (cache_content c)), cb_offset = cc_read_handle c\<rparr>"
  have size: "slot_size e 0 = hb_cache_size e ! hb_cache_read_index e" using r by (simp add: slot_size_def)
  show ?thesis
  proof (cases "cc_read_handle c + n = slot_size e 0")
    case True
    define f where "f = e\<lparr>hb_cache := (hb_cache e)[hb_cache_read_index e := Some c'],
      hb_cache_write_ready := (hb_cache_write_ready e)[hb_cache_read_index e := True],
      hb_cache_read_index := (hb_cache_read_index e + 1) mod 3\<rparr>"
    have "slot_size e 0 = length (cache_content c)" using c n(2) True k by (auto simp: slot_ok_def split: if_splits)
    then have d: "take n (drop (cc_read_handle c) (cache_content c)) = drop (cc_read_handle c) (cache_content c)" using True by simp
    have ring: "ring_ok k0 left f" "ring_bytes (Suc k0) e = cb_data ?b @ ring_bytes k0 f"
      using ring_read_end [OF assms(1) [unfolded k] assms(3) n(3,4) _ _ f_def] n(2,5) True d by simp_all
    have idx: "(hb_cache_read_index e + (Suc k0 + j)) mod 3 = (hb_cache_read_index f + (k0 + j)) mod 3" for j
      by (simp add: f_def mod_simps)
    have g: "hls_loop_read io c e = hls_post (Ho_Buffer (Some ?b)) (hls_post Ho_Signal_Del (send_hls_not_full_message f))"
      using n(6) True size by (simp add: hls_loop_read_def Let_def NUM_OF_CACHED_SEGMENTS_def f_def)
    have f: "hb_log f = hb_log e" "hb_cache_write_index f = hb_cache_write_index e" by (simp_all add: f_def)
    show ?thesis
      unfolding g k send_hls_not_full_message_def
      by (rule conjI, simp, rule exI [of _ k0], rule exI [of _ "cb_data ?b"]) (simp add: ring f idx del: add_Suc add_Suc_right)
  next
    case False
    define f where "f = e\<lparr>hb_cache := (hb_cache e)[hb_cache_read_index e := Some c']\<rparr>"
    have g: "hls_loop_read io c e = hls_post (Ho_Buffer (Some ?b)) f"
      using n(6) False size by (simp add: hls_loop_read_def Let_def f_def)
    have "cc_read_handle c + n < slot_size e 0" using c n(2) False k by (auto simp: slot_ok_def split: if_splits)
    then have ring: "ring_ok (Suc k0) left f" "ring_bytes (Suc k0) e = cb_data ?b @ ring_bytes (Suc k0) f"
      using ring_read_part [OF assms(1) [unfolded k] assms(3) n(3,4,5,2) _ f_def] by simp_all
    have f: "hb_log f = hb_log e" "hb_cache_write_index f = hb_cache_write_index e" "hb_cache_read_index f = hb_cache_read_index e"
      by (simp_all add: f_def)
    show ?thesis
      unfolding g k by (rule conjI, simp, rule exI [of _ "Suc k0"], rule exI [of _ "cb_data ?b"]) (simp add: ring f del: add_Suc add_Suc_right)
  qed
qed

definition caches_ok :: "HLSProgressBuffer \<Rightarrow> bool" where
  "caches_ok e \<longleftrightarrow> length (hb_cache e) = 3 \<and> length (hb_cache_size e) = 3 \<and> length (hb_cache_write_ready e) = 3 \<and>
     (\<forall>i < 3. \<exists>c. hb_cache e ! i = Some c \<and> cache_ok c)"

lemma ring_caches_ok: "ring_ok k left e \<Longrightarrow> caches_ok e"
  unfolding caches_ok_def
proof (intro conjI allI impI)
  fix i :: nat
  assume r: "ring_ok k left e" and i: "i < 3"
  define j where "j = (i + 3 - hb_cache_read_index e) mod 3"
  have "hb_cache_read_index e < 3" using r by (simp add: ring_ok_def)
  then have "(hb_cache_read_index e + j) mod 3 = i" "j < 3" using i by (auto simp: j_def mod_simps)
  then show "\<exists>c. hb_cache e ! i = Some c \<and> cache_ok c" using r by (auto simp: ring_ok_def slot_cache_def slot_ok_def)
qed (auto simp: ring_ok_def)

text \<open>The element after a flush whose caches are \<open>a\<close>, \<open>b\<close> and \<open>c\<close>.\<close>

lemma flush_data_eq:
  assumes "caches_ok e"
  shows "\<exists>a b c. cache_ok a \<and> cache_ok b \<and> cache_ok c \<and>
    cache_content a = [] \<and> cache_content b = [] \<and> cache_content c = [] \<and> cc_read_handle a = 0 \<and> cc_read_handle b = 0 \<and> cc_read_handle c = 0 \<and>
    hls_progress_buffer_flush_data e = e\<lparr>hb_srcresult := GST_FLOW_FLUSHING, hb_log := hb_log e @ [Ho_Flush],
      hb_cache_write_index := -1, hb_cache_read_index := 0, hb_cache := [Some a, Some b, Some c],
      hb_cache_size := [0, 0, 0], hb_cache_write_ready := [True, True, True]\<rparr>"
proof -
  obtain a b c where l: "hb_cache e = [Some a, Some b, Some c]" and ok: "cache_ok a" "cache_ok b" "cache_ok c"
    using assms by (auto simp: caches_ok_def length_Suc_conv numeral_3_eq_3 All_less_Suc)
  obtain x y z where s: "hb_cache_size e = [x, y, z]" using assms by (auto simp: caches_ok_def length_Suc_conv numeral_3_eq_3)
  obtain u v w where rd: "hb_cache_write_ready e = [u, v, w]" using assms by (auto simp: caches_ok_def length_Suc_conv numeral_3_eq_3)
  have "[0..<3] = [0, 1, 2::nat]" by (simp add: upt_rec)
  then have "hls_progress_buffer_flush_data e = e\<lparr>hb_srcresult := GST_FLOW_FLUSHING, hb_log := hb_log e @ [Ho_Flush],
      hb_cache_write_index := -1, hb_cache_read_index := 0, hb_cache := [Some (rewind_cache a), Some (rewind_cache b), Some (rewind_cache c)],
      hb_cache_size := [0, 0, 0], hb_cache_write_ready := [True, True, True]\<rparr>"
    by (simp add: hls_progress_buffer_flush_data_def NUM_OF_CACHED_SEGMENTS_def flush_slot_def hls_post_def l s rd)
  then show ?thesis using rewind_cache_ok [OF ok(1)] rewind_cache_ok [OF ok(2)] rewind_cache_ok [OF ok(3)] by blast
qed

lemma flush_data_ok:
  assumes "caches_ok e"
  shows "ring_ok 0 0 (hls_progress_buffer_flush_data e)" "hb_cache_read_index (hls_progress_buffer_flush_data e) = 0"
    "hb_cache_write_index (hls_progress_buffer_flush_data e) = -1" "hb_srcresult (hls_progress_buffer_flush_data e) = GST_FLOW_FLUSHING"
    "hb_log (hls_progress_buffer_flush_data e) = hb_log e @ [Ho_Flush]"
    "hb_is_flushing (hls_progress_buffer_flush_data e) = hb_is_flushing e" "hb_is_eos (hls_progress_buffer_flush_data e) = hb_is_eos e"
proof -
  obtain a b c where ok: "cache_ok a" "cache_ok b" "cache_ok c" "cache_content a = []" "cache_content b = []" "cache_content c = []"
      "cc_read_handle a = 0" "cc_read_handle b = 0" "cc_read_handle c = 0"
    and f: "hls_progress_buffer_flush_data e = e\<lparr>hb_srcresult := GST_FLOW_FLUSHING, hb_log := hb_log e @ [Ho_Flush],
      hb_cache_write_index := -1, hb_cache_read_index := 0, hb_cache := [Some a, Some b, Some c],
      hb_cache_size := [0, 0, 0], hb_cache_write_ready := [True, True, True]\<rparr>"
    using flush_data_eq [OF assms] by blast
  have three: "j < 3 \<longleftrightarrow> j = 0 \<or> j = 1 \<or> j = 2" for j :: nat by auto
  show "ring_ok 0 0 (hls_progress_buffer_flush_data e)"
    using ok by (simp add: f ring_ok_def slot_ok_def slot_cache_def slot_size_def slot_free_def three disj_imp) auto
qed (use flush_data_eq [OF assms] in auto)

end
