(* ===== verification/HLS_Fifo.thy ===== *)
theory HLS_Fifo
  imports HLS_Ring
begin

text \<open>
  The invariant of the ring over all interleavings, the theorem that the element is a queue, and the race of a flush with
  a segment event.
\<close>

section \<open>The invariant\<close>

definition write_at :: "HLSProgressBuffer \<Rightarrow> nat \<Rightarrow> bool" where
  "write_at e j \<longleftrightarrow> hb_cache_write_index e = int ((hb_cache_read_index e + j) mod 3)"

text \<open>The write index is that of the last slot in use, or nothing has been stored since the last flush.\<close>

definition aligned :: "nat \<Rightarrow> HLSProgressBuffer \<Rightarrow> bool" where
  "aligned k e \<longleftrightarrow> k = 0 \<and> hb_cache_read_index e = 0 \<and> hb_cache_write_index e = -1 \<or> write_at e (k + 2)"

definition clearing :: "hls_sys \<Rightarrow> bool" where
  "clearing s \<longleftrightarrow> hs_flush s = Flush_Cleared \<or> hs_flush s = Flush_Done"

definition segment_fits :: "bytes_segment \<Rightarrow> bool" where
  "segment_fits seg \<longleftrightarrow> bs_start seg = 0 \<and> 0 < bs_stop seg \<and> bs_stop seg < 2 ^ 32"

definition src_ok :: "nat \<Rightarrow> hls_sys \<Rightarrow> bool" where
  "src_ok k s \<longleftrightarrow>
     (case hs_src s of
        Src_Idle \<Rightarrow> aligned k (hs_pb s)
      | Src_Checked seg \<Rightarrow> aligned k (hs_pb s) \<and> hs_left s = 0 \<and> segment_fits seg \<and> (clearing s \<longrightarrow> k = 0) \<and>
          (hb_is_eos (hs_pb s) \<longrightarrow> hs_pc s = Hls_Stopped) \<and> \<not> hls_end (hb_log (hs_pb s))
      | Src_Opened seg \<Rightarrow> aligned k (hs_pb s) \<and> hs_left s = 0 \<and> segment_fits seg \<and> (clearing s \<longrightarrow> k = 0) \<and>
          \<not> hb_is_eos (hs_pb s)
      | Src_Waiting seg \<Rightarrow> hs_left s = 0 \<and> segment_fits seg \<and> \<not> hb_is_eos (hs_pb s) \<and>
          (if clearing s then k = 0 \<and> aligned 0 (hs_pb s) \<and> hb_srcresult (hs_pb s) \<noteq> GST_FLOW_OK else write_at (hs_pb s) k))"

text \<open>While the ring is in order, and after an error, when nothing is sent until the next flush.\<close>

definition live :: "hls_sys \<Rightarrow> bool" where
  "live s \<longleftrightarrow> (\<exists>k. ring_ok k (hs_left s) (hs_pb s) \<and> src_ok k s \<and>
     hs_in s = hls_out (hb_log (hs_pb s)) @ ring_bytes k (hs_pb s) \<and> (hb_is_eos (hs_pb s) \<longrightarrow> hs_left s = 0) \<and>
     (hls_end (hb_log (hs_pb s)) \<longrightarrow> hs_in s = hls_out (hb_log (hs_pb s)) \<and> hb_is_eos (hs_pb s) \<and> hb_srcresult (hs_pb s) \<noteq> GST_FLOW_OK))"

definition dead :: "hls_sys \<Rightarrow> bool" where
  "dead s \<longleftrightarrow> caches_ok (hs_pb s) \<and> hs_src s = Src_Idle \<and> hb_srcresult (hs_pb s) \<noteq> GST_FLOW_OK \<and> \<not> clearing s \<and>
     \<not> hls_end (hb_log (hs_pb s)) \<and> (\<exists>rest. hs_in s = hls_out (hb_log (hs_pb s)) @ rest)"

definition hls_ok :: "hls_sys \<Rightarrow> bool" where
  "hls_ok s \<longleftrightarrow> hb_is_flushing (hs_pb s) = (hs_flush s \<noteq> No_Flush) \<and>
     (hb_is_eos (hs_pb s) \<and> \<not> hs_ended s \<and> hs_flush s = No_Flush \<longrightarrow> hs_pc s = Hls_Stopped) \<and>
     (clearing s \<longrightarrow> \<not> hls_end (hb_log (hs_pb s)) \<and>
       (hb_srcresult (hs_pb s) = GST_FLOW_OK \<longrightarrow> \<not> hb_is_eos (hs_pb s) \<and> (hs_left s = 0 \<longrightarrow> hs_src s \<noteq> Src_Idle))) \<and>
     (live s \<or> dead s)"

lemma write_empty: "reliable io \<Longrightarrow> cache_write_buffer io [] c = c"
  by (simp add: reliable_def cache_write_buffer_def posix_write_def Let_def)

lemma hls_chain_result:
  assumes "hls_progress_buffer_chain io data e = Some (r, e')"
  shows "if \<not> hb_is_flushing e \<and> \<not> hb_is_eos e \<and> hb_srcresult e \<noteq> GST_FLOW_FLUSHING
    then \<exists>c. 0 \<le> hb_cache_write_index e \<and> nat (hb_cache_write_index e) < length (hb_cache e) \<and>
      hb_cache e ! nat (hb_cache_write_index e) = Some c \<and>
      e' = hls_post Ho_Signal_Add (e\<lparr>hb_cache := (hb_cache e)[nat (hb_cache_write_index e) := Some (cache_write_buffer io data c)]\<rparr>)
    else e' = e"
  using assms by (auto simp: hls_progress_buffer_chain_def ring_cache_def split: bind_splits if_splits)

lemma aligned_last:
  assumes "aligned (Suc k) e" "ring_ok (Suc k) left e"
  shows "hb_cache_write_index e = int ((hb_cache_read_index e + k) mod 3)"
  using assms by (auto simp: aligned_def write_at_def)

text \<open>A step that leaves the ring and the log's data alone.\<close>

definition live_at :: "nat \<Rightarrow> hls_sys \<Rightarrow> bool" where
  "live_at k s \<longleftrightarrow> ring_ok k (hs_left s) (hs_pb s) \<and> src_ok k s \<and>
     hs_in s = hls_out (hb_log (hs_pb s)) @ ring_bytes k (hs_pb s) \<and> (hb_is_eos (hs_pb s) \<longrightarrow> hs_left s = 0) \<and>
     (hls_end (hb_log (hs_pb s)) \<longrightarrow> hs_in s = hls_out (hb_log (hs_pb s)) \<and> hb_is_eos (hs_pb s) \<and> hb_srcresult (hs_pb s) \<noteq> GST_FLOW_OK)"

lemma live_cong:
  assumes "live s" "hb_cache (hs_pb s') = hb_cache (hs_pb s)" "hb_cache_size (hs_pb s') = hb_cache_size (hs_pb s)"
    "hb_cache_write_ready (hs_pb s') = hb_cache_write_ready (hs_pb s)" "hb_cache_read_index (hs_pb s') = hb_cache_read_index (hs_pb s)"
    "hs_in s' = hs_in s" "hs_left s' = hs_left s" "hls_out (hb_log (hs_pb s')) = hls_out (hb_log (hs_pb s))"
    and "\<And>k. live_at k s \<Longrightarrow> src_ok k s'"
    and "\<And>k. live_at k s \<Longrightarrow> hb_is_eos (hs_pb s') \<Longrightarrow> hs_left s = 0"
    and "\<And>k. live_at k s \<Longrightarrow> hls_end (hb_log (hs_pb s')) \<Longrightarrow>
      hs_in s = hls_out (hb_log (hs_pb s)) \<and> hb_is_eos (hs_pb s') \<and> hb_srcresult (hs_pb s') \<noteq> GST_FLOW_OK"
  shows "live s'"
proof -
  obtain k where k: "live_at k s" using assms(1) by (auto simp: live_def live_at_def)
  note r = ring_fields [OF assms(2-5)]
  show ?thesis
    unfolding live_def
    using k [unfolded live_at_def] r assms(6-8) assms(9) [OF k] assms(10) [OF k] assms(11) [OF k] by (intro exI [of _ k]) auto
qed

lemma hls_chain_ok:
  assumes "hls_ok s" "hls_progress_buffer_chain io data (hs_pb s) = Some (r, e)" "reliable io" "hs_src s = Src_Idle"
    and "hb_is_flushing (hs_pb s) \<or> length data \<le> hs_left s"
    and "acc = (\<not> hb_is_flushing (hs_pb s) \<and> \<not> hb_is_eos (hs_pb s) \<and> hb_srcresult (hs_pb s) \<noteq> GST_FLOW_FLUSHING)"
  shows "hls_ok (s\<lparr>hs_pb := e, hs_in := (if acc then hs_in s @ data else hs_in s),
      hs_left := (if acc then hs_left s - length data else hs_left s)\<rparr>)"
proof (cases acc)
  case False
  then have "e = hs_pb s" using hls_chain_result [OF assms(2)] unfolding assms(6) [symmetric] by simp
  then show ?thesis using assms(1) False by simp
next
  case True
  let ?e = "hs_pb s"
  let ?w = "nat (hb_cache_write_index ?e)"
  obtain c where c: "0 \<le> hb_cache_write_index ?e" "?w < length (hb_cache ?e)" "hb_cache ?e ! ?w = Some c"
      "e = hls_post Ho_Signal_Add (?e\<lparr>hb_cache := (hb_cache ?e)[?w := Some (cache_write_buffer io data c)]\<rparr>)"
    using hls_chain_result [OF assms(2)] assms(6) True by auto
  have len: "length data \<le> hs_left s" using assms(5,6) True by simp
  let ?s = "s\<lparr>hs_pb := e, hs_in := hs_in s @ data, hs_left := hs_left s - length data\<rparr>"
  have "live ?s \<or> dead ?s"
  proof (cases "live s")
    case False
    then have d: "dead s" using assms(1) by (simp add: hls_ok_def)
    then have "cache_ok c" using c(2,3) by (auto simp: dead_def caches_ok_def)
    then have "caches_ok e" using d cache_write_ok(1) [OF assms(3)] c(2)
      by (auto simp: dead_def caches_ok_def c(4) nth_list_update)
    then show ?thesis using d c(4) by (auto simp: dead_def clearing_def)
  next
    case live: True
    then obtain k where k: "ring_ok k (hs_left s) ?e" "aligned k ?e" "hs_in s = hls_out (hb_log ?e) @ ring_bytes k ?e"
        "hls_end (hb_log ?e) \<longrightarrow> hb_is_eos ?e"
      using assms(4) by (auto simp: live_def src_ok_def)
    show ?thesis
    proof (cases data)
      case Nil
      then have "(hb_cache ?e)[?w := Some (cache_write_buffer io data c)] = hb_cache ?e"
        using c(2,3) write_empty [OF assms(3)] by (simp add: list_update_same_conv)
      then have "live ?s"
        using Nil assms(4,6) True k(4) by (intro live_cong [OF live]) (auto simp: c(4) live_at_def src_ok_def aligned_def write_at_def)
      then show ?thesis ..
    next
      case (Cons a as)
      then obtain k0 where k0: "k = Suc k0" using k(1) len by (cases k) (auto simp: ring_ok_def)
      note w = aligned_last [OF k(2,1) [unfolded k0]]
      have "slot_cache ?e k0 = Some c" using c(3) w by (simp add: slot_cache_def)
      moreover define f where "f = ?e\<lparr>hb_cache := (hb_cache ?e)[(hb_cache_read_index ?e + k0) mod 3 := Some (cache_write_buffer io data c)]\<rparr>"
      ultimately have f: "ring_ok k (hs_left s - length data) f" "ring_bytes k f = ring_bytes k ?e @ data"
        using ring_write_ok [OF k(1) [unfolded k0] assms(3) len _ f_def] k0 by simp_all
      have e: "e = hls_post Ho_Signal_Add f" using c(4) w by (simp add: f_def)
      have "aligned k e" using k(2) by (simp add: e f_def aligned_def write_at_def)
      then have "live ?s"
        using f k True assms(4,6) unfolding live_def by (intro exI [of _ k]) (auto simp: e src_ok_def f_def)
      then show ?thesis ..
    qed
  qed
  moreover have "hb_is_flushing e = hb_is_flushing ?e" "hb_is_eos e = hb_is_eos ?e" by (simp_all add: c(4))
  ultimately show ?thesis using assms(1,6) True by (auto simp: hls_ok_def clearing_def)
qed

lemma hls_check_ok:
  assumes "hls_ok s" "hs_src s = Src_Idle" "hs_left s = 0" "\<not> hs_ended s" "hs_flush s = No_Flush" "segment_fits seg"
  shows "hls_ok (s\<lparr>hs_src := (if hls_segment_check (hs_pb s) then Src_Checked seg else Src_Idle)\<rparr>)"
proof (cases "hls_segment_check (hs_pb s)")
  case True
  then have "live s" using assms(1) by (auto simp: hls_ok_def dead_def hls_segment_check_def)
  moreover from this have "\<not> hls_end (hb_log (hs_pb s))" using True by (auto simp: live_def hls_segment_check_def)
  ultimately have "live (s\<lparr>hs_src := Src_Checked seg\<rparr>)"
    using assms True by (elim live_cong) (auto simp: src_ok_def clearing_def hls_ok_def hls_segment_check_def live_at_def)
  then show ?thesis using assms True by (simp add: hls_ok_def clearing_def)
next
  case False
  moreover have "s\<lparr>hs_src := Src_Idle\<rparr> = s" using assms(2) by (cases s) simp
  ultimately show ?thesis using assms(1) by simp
qed

lemma hls_open_ok:
  assumes "hls_ok s" "hs_src s = Src_Checked seg" "hls_segment_open True seg (hs_pb s) = Inr e"
  shows "hls_ok (s\<lparr>hs_pb := e, hs_src := Src_Opened seg, hs_pc := (if hb_is_eos (hs_pb s) then Hls_Ready else hs_pc s)\<rparr>)"
proof -
  let ?e = "hs_pb s"
  have l: "live s" using assms(1,2) by (auto simp: hls_ok_def dead_def)
  then have ne: "\<not> hls_end (hb_log ?e)" using assms(2) by (auto simp: live_def src_ok_def)
  have e: "hb_cache e = hb_cache ?e" "hb_cache_size e = hb_cache_size ?e" "hb_cache_write_ready e = hb_cache_write_ready ?e"
    "hb_cache_read_index e = hb_cache_read_index ?e" "hb_cache_write_index e = hb_cache_write_index ?e"
    "hls_out (hb_log e) = hls_out (hb_log ?e)" "hls_end (hb_log e) = hls_end (hb_log ?e)" "\<not> hb_is_eos e"
    "hb_is_flushing e = hb_is_flushing ?e" "\<not> hb_is_eos ?e \<Longrightarrow> hb_srcresult e = hb_srcresult ?e"
    using assms(3) by (auto simp: hls_segment_open_def Let_def split: if_splits)
  have "live (s\<lparr>hs_pb := e, hs_src := Src_Opened seg, hs_pc := (if hb_is_eos ?e then Hls_Ready else hs_pc s)\<rparr>)"
    using l by (rule live_cong) (use e ne assms(2) in \<open>auto simp: live_at_def src_ok_def clearing_def aligned_def write_at_def\<close>)
  then show ?thesis using assms(1) e ne by (auto simp: hls_ok_def clearing_def)
qed

lemma write_at_next: "aligned k e \<Longrightarrow> write_at (hls_segment_next e) k"
  by (auto simp: aligned_def write_at_def hls_segment_next_def NUM_OF_CACHED_SEGMENTS_def of_nat_mod mod_simps)

text \<open>Choosing a free cache keeps the bytes in the ring; choosing one in use is possible only after an error.\<close>

lemma hls_store_ok:
  assumes "ring_ok k 0 e" "write_at e k" "segment_fits seg" "hls_segment_store seg e = Some e'" "k < 3"
  shows "ring_ok (Suc k) (bs_stop seg) e' \<and> ring_bytes (Suc k) e' = ring_bytes k e \<and> aligned (Suc k) e' \<and>
    hb_log e' = hb_log e @ [Ho_Message ''hls_pb_resume''] \<and> hb_is_eos e' = hb_is_eos e \<and> hb_srcresult e' = hb_srcresult e \<and>
    hb_is_flushing e' = hb_is_flushing e"
proof -
  define w where "w = (hb_cache_read_index e + k) mod 3"
  have w: "hb_cache_write_index e = int w" using assms(2) by (simp add: write_at_def w_def)
  obtain c where c: "slot_cache e k = Some c"
      "e' = send_hls_resume_message (e\<lparr>hb_cache_size := (hb_cache_size e)[w := bs_stop seg mod 2 ^ 32],
        hb_cache_write_ready := (hb_cache_write_ready e)[w := False], hb_cache := (hb_cache e)[w := Some (rewind_cache c)]\<rparr>)"
    using assms(4) by (auto simp: hls_segment_store_def ring_cache_def w slot_cache_def w_def [symmetric] Let_def split: bind_splits if_splits)
  define f where "f = e\<lparr>hb_cache_size := (hb_cache_size e)[w := bs_stop seg], hb_cache_write_ready := (hb_cache_write_ready e)[w := False],
    hb_cache := (hb_cache e)[w := Some (rewind_cache c)]\<rparr>"
  have f: "ring_ok (Suc k) (bs_stop seg) f \<and> ring_bytes (Suc k) f = ring_bytes k e"
    using ring_store_ok [OF assms(1,5) _ c(1) w_def f_def] assms(3) by (simp add: segment_fits_def)
  have e: "e' = hls_post (Ho_Message ''hls_pb_resume'') f"
    using c(2) assms(3) by (simp add: send_hls_resume_message_def f_def segment_fits_def)
  have "aligned (Suc k) e'" using w by (simp add: e f_def aligned_def write_at_def w_def)
  then show ?thesis using f by (simp add: e f_def)
qed

lemma hls_slot_result:
  assumes "hls_segment_slot woken seg e = Some (done, e')"
  shows "(done \<and> woken \<and> hb_srcresult e \<noteq> GST_FLOW_OK \<and> e' = e) \<or>
    (\<not> done \<and> hb_srcresult e = GST_FLOW_OK \<and> \<not> hb_cache_write_ready e ! nat (hb_cache_write_index e) \<and>
       e' = hls_post (Ho_Message ''hls_pb_full'') e) \<or>
    (done \<and> (hb_srcresult e \<noteq> GST_FLOW_OK \<and> \<not> woken \<or> hb_srcresult e = GST_FLOW_OK \<and> hb_cache_write_ready e ! nat (hb_cache_write_index e)) \<and>
       hls_segment_store seg e = Some e')"
  using assms by (auto simp: hls_segment_slot_def send_hls_full_message_def split: if_splits)

lemma write_at_free:
  assumes "ring_ok k left e" "write_at e k"
  shows "hb_cache_write_ready e ! nat (hb_cache_write_index e) \<longleftrightarrow> k < 3"
proof -
  have k: "k \<le> 3" using assms(1) by (simp add: ring_ok_def)
  define j where "j = (if k = 3 then 0 else k)"
  have j: "j < 3" "(hb_cache_read_index e + k) mod 3 = (hb_cache_read_index e + j) mod 3" using k by (auto simp: j_def)
  obtain c where "slot_cache e j = Some c" using assms(1) j(1) by (auto simp: ring_ok_def)
  then have "slot_free e j = (k \<le> j)" using ring_slot [OF assms(1) j(1)] by (simp add: slot_ok_def)
  then show ?thesis using assms(2) j k by (auto simp: slot_free_def write_at_def j_def split: if_splits)
qed

lemma hls_store_caches_ok:
  assumes "caches_ok e" "hls_segment_store seg e = Some e'"
  shows "caches_ok e' \<and> hb_log e' = hb_log e @ [Ho_Message ''hls_pb_resume''] \<and> hb_is_eos e' = hb_is_eos e \<and>
    hb_srcresult e' = hb_srcresult e \<and> hb_is_flushing e' = hb_is_flushing e"
proof -
  define w where "w = nat (hb_cache_write_index e)"
  obtain c where c: "hb_cache e ! w = Some c" "w < 3"
      "e' = send_hls_resume_message (e\<lparr>hb_cache_size := (hb_cache_size e)[w := bs_stop seg mod 2 ^ 32],
        hb_cache_write_ready := (hb_cache_write_ready e)[w := False], hb_cache := (hb_cache e)[w := Some (rewind_cache c)]\<rparr>)"
    using assms by (auto simp: hls_segment_store_def ring_cache_def caches_ok_def w_def Let_def split: bind_splits if_splits)
  then have "cache_ok c" using assms(1) by (auto simp: caches_ok_def)
  then show ?thesis
    using assms(1) rewind_cache_ok(1) [of c] c(2) by (auto simp: c(3) send_hls_resume_message_def caches_ok_def nth_list_update)
qed

lemma hls_slot_ok_step:
  assumes "hls_ok s" "hs_src s = Src_Opened seg" "hls_segment_slot False seg (hls_segment_next (hs_pb s)) = Some (done, e)"
  shows "hls_ok (s\<lparr>hs_pb := e, hs_src := (if done then Src_Idle else Src_Waiting seg), hs_left := (if done then bs_stop seg else 0)\<rparr>)"
proof -
  let ?f = "hls_segment_next (hs_pb s)"
  have l: "live s" using assms(1,2) by (auto simp: hls_ok_def dead_def)
  then obtain k where k: "ring_ok k 0 (hs_pb s)" "aligned k (hs_pb s)" "segment_fits seg" "clearing s \<Longrightarrow> k = 0"
      "\<not> hb_is_eos (hs_pb s)" "hs_left s = 0" "hs_in s = hls_out (hb_log (hs_pb s)) @ ring_bytes k (hs_pb s)" "\<not> hls_end (hb_log (hs_pb s))"
    using assms(2) by (auto simp: live_def src_ok_def)
  have f: "ring_ok k 0 ?f" "ring_bytes k ?f = ring_bytes k (hs_pb s)" "write_at ?f k" "hb_log ?f = hb_log (hs_pb s)"
    "hb_is_eos ?f = hb_is_eos (hs_pb s)" "hb_srcresult ?f = hb_srcresult (hs_pb s)" "hb_is_flushing ?f = hb_is_flushing (hs_pb s)"
    using ring_fields [of ?f "hs_pb s"] k(1) write_at_next [OF k(2)] by (simp_all add: hls_segment_next_def)
  note free = write_at_free [OF f(1,3)]
  have stop: "0 < bs_stop seg" using k(3) by (simp add: segment_fits_def)
  consider "\<not> done" "e = hls_post (Ho_Message ''hls_pb_full'') ?f" "\<not> k < 3"
    | "done" "hls_segment_store seg ?f = Some e" "k < 3"
    | "done" "hls_segment_store seg ?f = Some e" "\<not> k < 3" "hb_srcresult ?f \<noteq> GST_FLOW_OK"
    using hls_slot_result [OF assms(3)] free by auto
  then show ?thesis
  proof cases
    case 1
    let ?s = "s\<lparr>hs_pb := e, hs_src := Src_Waiting seg, hs_left := 0\<rparr>"
    have "\<not> clearing s" using k(4) 1(3) by auto
    moreover have "write_at e k" using f(3) by (simp add: 1(2) write_at_def)
    ultimately have "live ?s"
      using f k unfolding live_def by (intro exI [of _ k]) (simp add: 1(2) src_ok_def clearing_def)
    then show ?thesis using assms(1) f 1 \<open>\<not> clearing s\<close> by (auto simp: hls_ok_def clearing_def)
  next
    case 2
    note st = hls_store_ok [OF f(1,3) k(3) 2(2,3)]
    have "live (s\<lparr>hs_pb := e, hs_src := Src_Idle, hs_left := bs_stop seg\<rparr>)"
      using st f k unfolding live_def by (intro exI [of _ "Suc k"]) (simp add: src_ok_def)
    then show ?thesis using assms(1) st f k 2(1) stop by (simp add: hls_ok_def clearing_def)
  next
    case 3
    note st = hls_store_caches_ok [OF ring_caches_ok [OF f(1)] 3(2)]
    have "\<not> clearing s" using k(4) 3(3) by auto
    then have "dead (s\<lparr>hs_pb := e, hs_src := Src_Idle, hs_left := bs_stop seg\<rparr>)"
      using st f k 3(4) by (simp add: dead_def clearing_def)
    then show ?thesis using assms(1) st f k 3(1) stop by (simp add: hls_ok_def clearing_def)
  qed
qed

lemma hls_woken_ok:
  assumes "hls_ok s" "hs_src s = Src_Waiting seg" "hls_segment_slot True seg (hs_pb s) = Some (done, e)"
  shows "hls_ok (s\<lparr>hs_pb := e, hs_src := (if done then Src_Idle else Src_Waiting seg),
      hs_left := (if done \<and> hb_srcresult (hs_pb s) = GST_FLOW_OK then bs_stop seg else 0)\<rparr>)"
proof -
  let ?f = "hs_pb s"
  have l: "live s" using assms(1,2) by (auto simp: hls_ok_def dead_def)
  then obtain k where k: "ring_ok k 0 ?f" "segment_fits seg" "\<not> hb_is_eos ?f" "hs_left s = 0"
      "hs_in s = hls_out (hb_log ?f) @ ring_bytes k ?f" "\<not> hls_end (hb_log ?f)"
      "if clearing s then k = 0 \<and> aligned 0 ?f \<and> hb_srcresult ?f \<noteq> GST_FLOW_OK else write_at ?f k"
    using assms(2) by (auto simp: live_def src_ok_def split: if_splits)
  have stop: "0 < bs_stop seg" using k(2) by (simp add: segment_fits_def)
  show ?thesis
  proof (cases "hb_srcresult ?f = GST_FLOW_OK")
    case False
    then have d: "done" "e = ?f" using hls_slot_result [OF assms(3)] by auto
    show ?thesis
    proof (cases "clearing s")
      case True
      then have "live (s\<lparr>hs_src := Src_Idle, hs_left := 0\<rparr>)"
        using k unfolding live_def by (intro exI [of _ k]) (simp add: src_ok_def)
      then show ?thesis using assms(1) d False k by (simp add: hls_ok_def clearing_def)
    next
      case nc: False
      have "dead (s\<lparr>hs_src := Src_Idle, hs_left := 0\<rparr>)"
        using ring_caches_ok [OF k(1)] k False nc by (simp add: dead_def clearing_def)
      then show ?thesis using assms(1) d False k nc by (simp add: hls_ok_def clearing_def)
    qed
  next
    case True
    then have nc: "\<not> clearing s" and w: "write_at ?f k" using k(7) by (auto split: if_splits)
    note free = write_at_free [OF k(1) w]
    consider "\<not> done" "e = hls_post (Ho_Message ''hls_pb_full'') ?f" "\<not> k < 3" | "done" "hls_segment_store seg ?f = Some e" "k < 3"
      using hls_slot_result [OF assms(3)] free True by auto
    then show ?thesis
    proof cases
      case 1
      have "live (s\<lparr>hs_pb := e, hs_src := Src_Waiting seg, hs_left := 0\<rparr>)"
        using k nc w unfolding live_def by (intro exI [of _ k]) (simp add: 1(2) src_ok_def clearing_def write_at_def)
      then show ?thesis using assms(1) k 1 nc by (simp add: hls_ok_def clearing_def)
    next
      case 2
      note st = hls_store_ok [OF k(1) w k(2) 2(2,3)]
      have "live (s\<lparr>hs_pb := e, hs_src := Src_Idle, hs_left := bs_stop seg\<rparr>)"
        using st k unfolding live_def by (intro exI [of _ "Suc k"]) (simp add: src_ok_def)
      then show ?thesis using assms(1) st k 2(1) stop True nc by (simp add: hls_ok_def clearing_def)
    qed
  qed
qed

lemma hls_eos_ok:
  assumes "hls_ok s" "hs_src s = Src_Idle" "hs_left s = 0"
  shows "hls_ok (s\<lparr>hs_pb := hls_eos (hs_pb s), hs_ended := True\<rparr>)"
proof -
  let ?s = "s\<lparr>hs_pb := hls_eos (hs_pb s), hs_ended := True\<rparr>"
  have e: "hb_cache (hls_eos e) = hb_cache e" "hb_cache_size (hls_eos e) = hb_cache_size e"
    "hb_cache_write_ready (hls_eos e) = hb_cache_write_ready e" "hb_cache_read_index (hls_eos e) = hb_cache_read_index e"
    "hb_cache_write_index (hls_eos e) = hb_cache_write_index e" "hb_is_flushing (hls_eos e) = hb_is_flushing e"
    "hb_srcresult (hls_eos e) = hb_srcresult e" "hb_is_eos (hls_eos e)"
    "hls_out (hb_log (hls_eos e)) = hls_out (hb_log e)" "hls_end (hb_log (hls_eos e)) = hls_end (hb_log e)" for e
    by (simp_all add: hls_eos_def send_hls_eos_message_def)
  have "live s \<Longrightarrow> live ?s"
    by (erule live_cong) (use e assms(2,3) in \<open>auto simp: src_ok_def aligned_def write_at_def live_at_def\<close>)
  moreover have "dead s \<Longrightarrow> dead ?s" using e by (auto simp: dead_def caches_ok_def clearing_def)
  moreover have "clearing s \<Longrightarrow> hb_srcresult (hs_pb s) \<noteq> GST_FLOW_OK" using assms by (auto simp: hls_ok_def)
  ultimately show ?thesis using assms(1) e by (auto simp: hls_ok_def clearing_def)
qed

lemma loop_end_fields:
  assumes "hls_loop_end r e = (pc, e')"
  shows "hb_cache e' = hb_cache e" "hb_cache_size e' = hb_cache_size e" "hb_cache_write_ready e' = hb_cache_write_ready e"
    "hb_cache_read_index e' = hb_cache_read_index e" "hb_cache_write_index e' = hb_cache_write_index e"
    "hb_is_flushing e' = hb_is_flushing e" "hb_srcresult e' = hb_srcresult e" "hb_is_eos e' = hb_is_eos e"
    "hls_out (hb_log e') = hls_out (hb_log e)" "hls_end (hb_log e') = hls_end (hb_log e)"
    "r \<noteq> GST_FLOW_OK \<Longrightarrow> \<not> hb_is_flushing e \<Longrightarrow> pc = Hls_Stopped"
  using assms by (auto simp: hls_loop_end_def split: if_splits)

lemma loop_read_fields:
  "hb_is_flushing (hls_loop_read io c e) = hb_is_flushing e" "hb_is_eos (hls_loop_read io c e) = hb_is_eos e"
  "hb_srcresult (hls_loop_read io c e) = hb_srcresult e"
  by (simp_all add: hls_loop_read_def Let_def send_hls_not_full_message_def split: prod.split)

lemma hls_loop_result:
  assumes "hls_progress_buffer_loop io e = Some (pc, e')"
  shows "(hb_srcresult e \<noteq> GST_FLOW_OK \<and> (pc, e') = hls_loop_end (hb_srcresult e) e) \<or>
    (\<exists>c. hb_srcresult e = GST_FLOW_OK \<and> ring_cache (int (hb_cache_read_index e)) e = Some c \<and>
      (cache_has_enough_data c \<and> pc = Hls_Pushing \<and> e' = hls_loop_read io c e \<or>
       \<not> cache_has_enough_data c \<and> hb_is_eos e \<and>
         (pc, e') = hls_loop_end GST_FLOW_FLUSHING ((hls_post Ho_Eos e)\<lparr>hb_srcresult := GST_FLOW_FLUSHING\<rparr>) \<or>
       \<not> cache_has_enough_data c \<and> \<not> hb_is_eos e \<and> pc = Hls_Waiting \<and> e' = e))"
  using assms by (auto simp: hls_progress_buffer_loop_def split: bind_splits if_splits)

lemma ring_first: "ring_ok k left e \<Longrightarrow> ring_cache (int (hb_cache_read_index e)) e = slot_cache e 0"
  by (simp add: ring_ok_def ring_cache_def slot_cache_def)

lemma hls_pc_ok:
  assumes "hls_ok s" "hs_pc s \<noteq> Hls_Stopped"
  shows "hls_ok (s\<lparr>hs_pc := pc\<rparr>)"
proof -
  have "live s \<Longrightarrow> live (s\<lparr>hs_pc := pc\<rparr>)"
    by (erule live_cong) (use assms(2) in \<open>auto simp: src_ok_def clearing_def live_at_def split: src_pc.splits\<close>)
  moreover have "dead s \<Longrightarrow> dead (s\<lparr>hs_pc := pc\<rparr>)" by (simp add: dead_def clearing_def)
  ultimately show ?thesis using assms by (auto simp: hls_ok_def clearing_def)
qed

text \<open>Changes that only lower the result of the source pad or add to the log.\<close>

lemma hls_quiet_ok:
  assumes "hls_ok s" "hb_cache e = hb_cache (hs_pb s)" "hb_cache_size e = hb_cache_size (hs_pb s)"
    "hb_cache_write_ready e = hb_cache_write_ready (hs_pb s)" "hb_cache_read_index e = hb_cache_read_index (hs_pb s)"
    "hb_cache_write_index e = hb_cache_write_index (hs_pb s)" "hb_is_flushing e = hb_is_flushing (hs_pb s)"
    "hb_is_eos e = hb_is_eos (hs_pb s)" "hls_out (hb_log e) = hls_out (hb_log (hs_pb s))"
    "hls_end (hb_log e) = hls_end (hb_log (hs_pb s))"
    "hb_srcresult e = GST_FLOW_OK \<longrightarrow> hb_srcresult (hs_pb s) = GST_FLOW_OK"
  shows "hls_ok (s\<lparr>hs_pb := e\<rparr>)"
proof -
  have f: "aligned j e = aligned j (hs_pb s)" "write_at e j = write_at (hs_pb s) j" "clearing (s\<lparr>hs_pb := e\<rparr>) = clearing s" for j
    using assms(5,6) by (simp_all add: aligned_def write_at_def clearing_def)
  have src: "src_ok k s \<Longrightarrow> src_ok k (s\<lparr>hs_pb := e\<rparr>)" for k
    using assms(8,10,11) unfolding src_ok_def f by (cases "hs_src s") (auto simp: f split: if_splits)
  have "live s \<Longrightarrow> live (s\<lparr>hs_pb := e\<rparr>)"
    by (erule live_cong) (use src assms(2-6,8-11) in \<open>simp_all add: live_at_def, force\<close>)
  moreover have "caches_ok e = caches_ok (hs_pb s)" using assms(2-4) by (simp add: caches_ok_def)
  then have "dead s \<Longrightarrow> dead (s\<lparr>hs_pb := e\<rparr>)" using assms(9-11) by (auto simp: dead_def clearing_def)
  ultimately show ?thesis
    using assms(1,7,8,10,11) f(3) unfolding hls_ok_def by simp metis
qed

lemma hls_loop_end_ok:
  assumes "hls_ok s" "hs_pc s \<noteq> Hls_Stopped" "hls_loop_end r e = (pc, e')" "hls_ok (s\<lparr>hs_pb := e\<rparr>)"
  shows "hls_ok (s\<lparr>hs_pb := e', hs_pc := pc\<rparr>)"
proof -
  note f = loop_end_fields [OF assms(3)]
  have "hls_ok ((s\<lparr>hs_pb := e\<rparr>)\<lparr>hs_pb := e'\<rparr>)" by (rule hls_quiet_ok [OF assms(4)]) (use f in simp_all)
  then show ?thesis using hls_pc_ok [of "s\<lparr>hs_pb := e'\<rparr>" pc] assms(2) by simp
qed

lemma live_read:
  assumes "hls_ok s" "hs_pc s \<noteq> Hls_Stopped" "hb_srcresult (hs_pb s) = GST_FLOW_OK" "live s" "reliable io"
    and "slot_cache (hs_pb s) 0 = Some c" "cache_has_enough_data c"
  shows "hls_ok (s\<lparr>hs_pb := hls_loop_read io c (hs_pb s), hs_pc := Hls_Pushing\<rparr>)"
proof -
  let ?e = "hs_pb s" and ?f = "hls_loop_read io c (hs_pb s)"
  obtain k where k: "ring_ok k (hs_left s) ?e" "src_ok k s" "hs_in s = hls_out (hb_log ?e) @ ring_bytes k ?e"
      "hb_is_eos ?e \<longrightarrow> hs_left s = 0" "\<not> hls_end (hb_log ?e)" using assms(3,4) by (auto simp: live_def)
  obtain k' data where r: "0 < k" "ring_ok k' (hs_left s) ?f" "ring_bytes k ?e = data @ ring_bytes k' ?f"
      "hls_out (hb_log ?f) = hls_out (hb_log ?e) @ data" "hls_end (hb_log ?f) = hls_end (hb_log ?e)"
      "\<And>j. write_at ?e (k + j) \<Longrightarrow> write_at ?f (k' + j)"
    using ring_read_ok [OF k(1) assms(5-7)] unfolding write_at_def by blast
  have "aligned k ?e \<Longrightarrow> aligned k' ?f" using r(1) r(6) [of 2] by (auto simp: aligned_def)
  moreover have "write_at ?e k \<Longrightarrow> write_at ?f k'" using r(6) [of 0] by simp
  ultimately have "src_ok k' (s\<lparr>hs_pb := ?f, hs_pc := Hls_Pushing\<rparr>)"
    using k(2,5) r(1,5) assms(2,3) by (auto simp: src_ok_def clearing_def loop_read_fields split: src_pc.splits if_splits)
  then have "live (s\<lparr>hs_pb := ?f, hs_pc := Hls_Pushing\<rparr>)"
    using k r unfolding live_def by (intro exI [of _ k']) (simp add: loop_read_fields)
  then show ?thesis using assms(1,2) r(5) by (auto simp: hls_ok_def clearing_def loop_read_fields)
qed

lemma live_end:
  assumes "hls_ok s" "hs_pc s \<noteq> Hls_Stopped" "hb_srcresult (hs_pb s) = GST_FLOW_OK" "live s"
    and "slot_cache (hs_pb s) 0 = Some c" "\<not> cache_has_enough_data c" "hb_is_eos (hs_pb s)"
  shows "hls_ok (s\<lparr>hs_pb := (hls_post Ho_Eos (hs_pb s))\<lparr>hb_srcresult := GST_FLOW_FLUSHING\<rparr>\<rparr>)"
proof -
  let ?e = "hs_pb s"
  let ?f = "(hls_post Ho_Eos ?e)\<lparr>hb_srcresult := GST_FLOW_FLUSHING\<rparr>"
  obtain k where k: "ring_ok k 0 ?e" "src_ok k s" "hs_in s = hls_out (hb_log ?e) @ ring_bytes k ?e" "hs_left s = 0"
    using assms(4,7) by (auto simp: live_def)
  have slot: "slot_ok 0 k 0 c (slot_size ?e 0) (slot_free ?e 0)" by (rule ring_slot [OF k(1) _ assms(5)]) simp
  then have "\<not> cc_read_handle c < length (cache_content c)" using cache.ready_law [of c] assms(6) by (simp add: slot_ok_def)
  then have "k = 0" using slot by (auto simp: slot_ok_def split: if_splits)
  then have b: "hs_in s = hls_out (hb_log ?e)" using k(3) by (simp add: ring_bytes_def)
  have idle: "hs_src s = Src_Idle" using k(2) assms(2,7) by (auto simp: src_ok_def split: src_pc.splits)
  have "src_ok k (s\<lparr>hs_pb := ?f\<rparr>)" using k(2) idle by (simp add: src_ok_def aligned_def write_at_def)
  moreover have "ring_ok k 0 ?f" "ring_bytes k ?f = ring_bytes k ?e" using ring_fields [of ?f ?e] k(1) by simp_all
  ultimately have "live (s\<lparr>hs_pb := ?f\<rparr>)"
    using k b assms(7) unfolding live_def by (intro exI [of _ k]) simp
  moreover have "\<not> clearing s" using assms(1,3,7) by (auto simp: hls_ok_def)
  ultimately show ?thesis using assms(1,2) by (auto simp: hls_ok_def clearing_def)
qed

lemma hls_loop_ok:
  assumes "hls_ok s" "hs_pc s \<in> {Hls_Ready, Hls_Waiting}" "hls_progress_buffer_loop io (hs_pb s) = Some (pc, e)" "reliable io"
  shows "hls_ok (s\<lparr>hs_pb := e, hs_pc := pc\<rparr>)"
proof -
  let ?e = "hs_pb s"
  have np: "hs_pc s \<noteq> Hls_Stopped" using assms(2) by auto
  have id: "s\<lparr>hs_pb := ?e\<rparr> = s" by (cases s) simp
  show ?thesis
  proof (cases "hb_srcresult ?e = GST_FLOW_OK")
    case False
    then have "hls_loop_end (hb_srcresult ?e) ?e = (pc, e)" using hls_loop_result [OF assms(3)] by auto
    then show ?thesis using hls_loop_end_ok [OF assms(1) np] assms(1) id by simp
  next
    case True
    then have l: "live s" using assms(1) by (auto simp: hls_ok_def dead_def)
    then obtain k where k: "ring_ok k (hs_left s) ?e" by (auto simp: live_def)
    obtain c where c: "slot_cache ?e 0 = Some c"
      "cache_has_enough_data c \<and> pc = Hls_Pushing \<and> e = hls_loop_read io c ?e \<or>
       \<not> cache_has_enough_data c \<and> hb_is_eos ?e \<and>
         (pc, e) = hls_loop_end GST_FLOW_FLUSHING ((hls_post Ho_Eos ?e)\<lparr>hb_srcresult := GST_FLOW_FLUSHING\<rparr>) \<or>
       \<not> cache_has_enough_data c \<and> \<not> hb_is_eos ?e \<and> pc = Hls_Waiting \<and> e = ?e"
      using hls_loop_result [OF assms(3)] True ring_first [OF k(1)] by auto
    from c(2) show ?thesis
    proof (elim disjE conjE)
      assume "cache_has_enough_data c" "pc = Hls_Pushing" "e = hls_loop_read io c ?e"
      then show ?thesis using live_read [OF assms(1) np True l assms(4) c(1)] by simp
    next
      assume "\<not> cache_has_enough_data c" "hb_is_eos ?e"
        "(pc, e) = hls_loop_end GST_FLOW_FLUSHING ((hls_post Ho_Eos ?e)\<lparr>hb_srcresult := GST_FLOW_FLUSHING\<rparr>)"
      then show ?thesis using hls_loop_end_ok [OF assms(1) np _ live_end [OF assms(1) np True l c(1)]] by simp
    next
      assume "pc = Hls_Waiting" "e = ?e"
      then show ?thesis using hls_pc_ok [OF assms(1) np] id by simp
    qed
  qed
qed

lemma hls_pushed_ok:
  assumes "hls_ok s" "hs_pc s = Hls_Pushing" "hls_progress_buffer_loop_pushed r (hs_pb s) = (pc, e)"
  shows "hls_ok (s\<lparr>hs_pb := e, hs_pc := pc\<rparr>)"
proof -
  let ?e = "hs_pb s"
  have "hb_srcresult ?e = GST_FLOW_OK \<or> r \<noteq> GST_FLOW_OK \<Longrightarrow> hls_ok (s\<lparr>hs_pb := ?e\<lparr>hb_srcresult := r\<rparr>\<rparr>)"
    by (rule hls_quiet_ok [OF assms(1)]) auto
  moreover have "hls_ok (s\<lparr>hs_pb := ?e\<rparr>)" by (rule hls_quiet_ok [OF assms(1)]) simp_all
  ultimately show ?thesis
    using hls_loop_end_ok [OF assms(1)] assms(2,3) by (auto simp: hls_progress_buffer_loop_pushed_def split: if_splits)
qed

lemma hls_flush_start_ok:
  assumes "hls_ok s" "hs_flush s = No_Flush"
  shows "hls_ok (s\<lparr>hs_pb := hls_flush_start (hs_pb s), hs_flush := Flush_Started\<rparr>)"
proof -
  have "live s \<Longrightarrow> live (s\<lparr>hs_pb := hls_flush_start (hs_pb s), hs_flush := Flush_Started\<rparr>)"
    by (erule live_cong) (use assms(2) in \<open>auto simp: hls_flush_start_def src_ok_def clearing_def live_at_def aligned_def write_at_def
      split: src_pc.splits\<close>)
  moreover have "dead s \<Longrightarrow> dead (s\<lparr>hs_pb := hls_flush_start (hs_pb s), hs_flush := Flush_Started\<rparr>)"
    by (simp add: hls_flush_start_def dead_def clearing_def caches_ok_def)
  ultimately show ?thesis using assms by (auto simp: hls_ok_def clearing_def hls_flush_start_def)
qed

lemma hls_flush_data_ok:
  assumes "hls_ok s" "hs_flush s = Flush_Started"
  shows "hls_ok (s\<lparr>hs_pb := hls_progress_buffer_flush_data (hs_pb s), hs_flush := Flush_Cleared, hs_in := [], hs_left := 0,
    hs_ended := False\<rparr>)"
proof -
  let ?f = "hls_progress_buffer_flush_data (hs_pb s)"
  let ?s = "s\<lparr>hs_pb := ?f, hs_flush := Flush_Cleared, hs_in := [], hs_left := 0, hs_ended := False\<rparr>"
  have "caches_ok (hs_pb s)" using assms(1) ring_caches_ok by (auto simp: hls_ok_def live_def dead_def)
  note f = flush_data_ok [OF this]
  have "src_ok 0 ?s"
  proof (cases "hs_src s")
    case Src_Idle
    then show ?thesis using f by (simp add: src_ok_def aligned_def)
  next
    case (Src_Checked seg)
    then have "live s" using assms(1) by (auto simp: hls_ok_def dead_def)
    then show ?thesis using f Src_Checked by (auto simp: live_def src_ok_def aligned_def)
  next
    case (Src_Opened seg)
    then have "live s" using assms(1) by (auto simp: hls_ok_def dead_def)
    then show ?thesis using f Src_Opened by (auto simp: live_def src_ok_def aligned_def)
  next
    case (Src_Waiting seg)
    then have "live s" using assms(1) by (auto simp: hls_ok_def dead_def)
    then show ?thesis using f Src_Waiting by (auto simp: live_def src_ok_def aligned_def clearing_def)
  qed
  then have "live ?s" using f unfolding live_def by (intro exI [of _ 0]) (simp add: ring_bytes_def)
  then show ?thesis using assms f by (simp add: hls_ok_def clearing_def)
qed

lemma hls_flush_pause_ok:
  assumes "hls_ok s" "hs_flush s = Flush_Cleared"
  shows "hls_ok (s\<lparr>hs_pb := hls_flush_pause True (hs_pb s), hs_flush := Flush_Done, hs_pc := Hls_Stopped\<rparr>)"
proof -
  have "live s" using assms by (auto simp: hls_ok_def dead_def clearing_def)
  then have "live (s\<lparr>hs_pb := hls_flush_pause True (hs_pb s), hs_flush := Flush_Done, hs_pc := Hls_Stopped\<rparr>)"
    by (rule live_cong) (use assms(2) in \<open>auto simp: hls_flush_pause_def src_ok_def clearing_def live_at_def aligned_def write_at_def
      split: src_pc.splits\<close>)
  then show ?thesis using assms by (auto simp: hls_ok_def clearing_def hls_flush_pause_def)
qed

lemma hls_flush_stop_ok:
  assumes "hls_ok s" "hs_flush s = Flush_Done" "hs_src s = Src_Idle"
  shows "hls_ok (s\<lparr>hs_pb := hls_flush_stop True (hs_pb s), hs_flush := No_Flush,
      hs_pc := (if hb_is_eos (hs_pb s) then Hls_Stopped else Hls_Ready)\<rparr>)"
proof -
  have l: "live s" "\<not> hls_end (hb_log (hs_pb s))" using assms(1,2) by (auto simp: hls_ok_def dead_def clearing_def)
  have e: "hb_cache (hls_flush_stop True e) = hb_cache e" "hb_cache_size (hls_flush_stop True e) = hb_cache_size e"
    "hb_cache_write_ready (hls_flush_stop True e) = hb_cache_write_ready e" "\<not> hb_is_flushing (hls_flush_stop True e)"
    "hb_cache_read_index (hls_flush_stop True e) = hb_cache_read_index e" "hb_is_eos (hls_flush_stop True e) = hb_is_eos e"
    "hb_cache_write_index (hls_flush_stop True e) = hb_cache_write_index e"
    "hls_out (hb_log (hls_flush_stop True e)) = hls_out (hb_log e)" "hls_end (hb_log (hls_flush_stop True e)) = hls_end (hb_log e)" for e
    by (simp_all add: hls_flush_stop_def Let_def)
  have "live (s\<lparr>hs_pb := hls_flush_stop True (hs_pb s), hs_flush := No_Flush,
      hs_pc := (if hb_is_eos (hs_pb s) then Hls_Stopped else Hls_Ready)\<rparr>)"
    using l(1) by (rule live_cong) (use e l assms(2,3) in \<open>auto simp: src_ok_def clearing_def live_at_def aligned_def write_at_def\<close>)
  then show ?thesis using assms e by (auto simp: hls_ok_def clearing_def)
qed

lemma hls_init_ok: "hls_ok hls_sys_init"
proof -
  have u: "[0..<3] = [0, 1, 2::nat]" by (simp add: upt_rec)
  have e: "hb_cache (hs_pb hls_sys_init) = [Some create_cache, Some create_cache, Some create_cache]"
    "hb_cache_size (hs_pb hls_sys_init) = [0, 0, 0]" "hb_cache_write_ready (hs_pb hls_sys_init) = [True, True, True]"
    "hb_cache_write_index (hs_pb hls_sys_init) = -1" "hb_cache_read_index (hs_pb hls_sys_init) = 0"
    "\<not> hb_is_flushing (hs_pb hls_sys_init)" "\<not> hb_is_eos (hs_pb hls_sys_init)" "hb_log (hs_pb hls_sys_init) = [Ho_Start_Task]"
    "hs_src hls_sys_init = Src_Idle" "hs_in hls_sys_init = []" "hs_left hls_sys_init = 0" "hs_flush hls_sys_init = No_Flush"
    by (simp_all add: hls_sys_init_def hls_progress_buffer_activatepush_src_def hls_progress_buffer_init_def
        NUM_OF_CACHED_SEGMENTS_def numeral_3_eq_3 u [unfolded numeral_3_eq_3])
  have three: "j < 3 \<longleftrightarrow> j = 0 \<or> j = 1 \<or> j = 2" for j :: nat by auto
  have c: "slot_ok 0 0 j create_cache 0 True" for j by (simp add: slot_ok_def create_cache_def cache_ok_def cache_content_def)
  have "ring_ok 0 0 (hs_pb hls_sys_init)"
    using e c by (auto simp: ring_ok_def slot_cache_def slot_size_def slot_free_def three)
  then have "live hls_sys_init"
    unfolding live_def using e by (intro exI [of _ 0]) (simp add: src_ok_def aligned_def ring_bytes_def hls_out_def hls_end_def)
  then show ?thesis using e by (simp add: hls_ok_def clearing_def hls_end_def)
qed

lemma hls_step_ok:
  assumes "hls_step s s'" "hls_ok s"
  shows "hls_ok s'"
  using assms(1)
proof (cases rule: hls_step.cases)
  case (step_chain io data r e acc)
  show ?thesis unfolding step_chain(1) by (rule hls_chain_ok [OF assms(2) step_chain(2-6)])
next
  case (step_check seg)
  then show ?thesis using hls_check_ok [OF assms(2), of seg] by (simp add: segment_fits_def)
next
  case (step_open seg e)
  then show ?thesis using hls_open_ok [OF assms(2)] by simp
next
  case (step_slot seg "done" e)
  then show ?thesis using hls_slot_ok_step [OF assms(2)] by simp
next
  case (step_woken seg "done" e)
  then show ?thesis using hls_woken_ok [OF assms(2)] by simp
next
  case step_eos
  then show ?thesis using hls_eos_ok [OF assms(2)] by simp
next
  case (step_loop io pc e)
  then show ?thesis using hls_loop_ok [OF assms(2)] by simp
next
  case (step_pushed r pc e)
  then show ?thesis using hls_pushed_ok [OF assms(2)] by simp
next
  case step_flush_start
  then show ?thesis using hls_flush_start_ok [OF assms(2)] by simp
next
  case step_flush_data
  then show ?thesis using hls_flush_data_ok [OF assms(2)] by simp
next
  case step_flush_pause
  then show ?thesis using hls_flush_pause_ok [OF assms(2)] by simp
next
  case step_flush_stop
  then show ?thesis using hls_flush_stop_ok [OF assms(2)] by simp
qed

lemma hls_run_ok: "hls_run s \<Longrightarrow> hls_ok s"
proof (induction rule: hls_run.induct)
  case hls_start
  show ?case by (rule hls_init_ok)
next
  case (hls_next s s')
  then show ?case using hls_step_ok by blast
qed

text \<open>
  C6: the three caches of live streaming form a queue. For every interleaving of the source, which sends segments of the
  announced size, the task and flushes, what has been sent downstream since the last flush is a prefix of what was
  accepted since then; while nothing has failed the rest is exactly the unread part of at most three caches in ring
  order; and the end of the stream is sent only after everything else.
\<close>

theorem hls_ring_fifo:
  assumes "hls_run s"
  shows "(\<exists>rest. hs_in s = hls_out (hb_log (hs_pb s)) @ rest) \<and>
    (hb_srcresult (hs_pb s) = GST_FLOW_OK \<longrightarrow> (\<exists>k \<le> 3. hs_in s = hls_out (hb_log (hs_pb s)) @ ring_bytes k (hs_pb s))) \<and>
    (hls_end (hb_log (hs_pb s)) \<longrightarrow> hs_in s = hls_out (hb_log (hs_pb s)))"
proof -
  have "live s \<or> dead s" using hls_run_ok [OF assms] by (simp add: hls_ok_def)
  then show ?thesis
  proof
    assume "live s"
    then show ?thesis by (auto simp: live_def ring_ok_def)
  next
    assume "dead s"
    then show ?thesis by (simp add: dead_def)
  qed
qed

section \<open>A small run\<close>

definition three_bytes :: bytes_segment where
  "three_bytes = \<lparr>bs_rate = 0, bs_start = 0, bs_stop = 3, bs_position = 0\<rparr>"

text \<open>The element after the segment, its data, and the first read.\<close>

definition hls_opened :: HLSProgressBuffer where
  "hls_opened = \<lparr>hb_cache = [Some create_cache, Some create_cache, Some create_cache], hb_cache_size = [3, 0, 0],
     hb_cache_write_ready = [False, True, True], hb_cache_write_index = 0, hb_cache_read_index = 0, hb_send_new_segment = False,
     hb_set_src_caps = True, hb_is_flushing = False, hb_is_eos = False, hb_srcresult = GST_FLOW_OK,
     hb_log = [Ho_Start_Task, Ho_Segment 0 0, Ho_Message ''hls_pb_resume'']\<rparr>"

definition hls_filled :: HLSProgressBuffer where
  "hls_filled = hls_post Ho_Signal_Add (hls_opened\<lparr>hb_cache := [Some \<lparr>cc_file = [7, 8, 9], cc_read_handle = 0, cc_write_handle = 3,
     read_position = 0, write_position = 3\<rparr>, Some create_cache, Some create_cache]\<rparr>)"

definition hls_sent :: HLSProgressBuffer where
  "hls_sent = hls_post (Ho_Buffer (Some \<lparr>cb_data = [7, 8, 9], cb_offset = 0\<rparr>)) (hls_post Ho_Signal_Del
     (send_hls_not_full_message (hls_filled\<lparr>hb_cache := [Some \<lparr>cc_file = [7, 8, 9], cc_read_handle = 3, cc_write_handle = 3,
       read_position = 3, write_position = 3\<rparr>, Some create_cache, Some create_cache],
       hb_cache_write_ready := [True, True, True], hb_cache_read_index := 1\<rparr>)))"

definition hls_announced :: HLSProgressBuffer where
  "hls_announced = (hs_pb hls_sys_init)\<lparr>hb_send_new_segment := False, hb_log := [Ho_Start_Task, Ho_Segment 0 0]\<rparr>"

lemma hls_init_eq:
  "hs_pb hls_sys_init = \<lparr>hb_cache = [Some create_cache, Some create_cache, Some create_cache], hb_cache_size = [0, 0, 0],
     hb_cache_write_ready = [True, True, True], hb_cache_write_index = -1, hb_cache_read_index = 0, hb_send_new_segment = True,
     hb_set_src_caps = True, hb_is_flushing = False, hb_is_eos = False, hb_srcresult = GST_FLOW_OK, hb_log = [Ho_Start_Task]\<rparr>"
proof -
  have "[0..<3] = [0, 1, 2::nat]" by (simp add: upt_rec)
  then show ?thesis
    by (simp add: hls_sys_init_def hls_progress_buffer_activatepush_src_def hls_progress_buffer_init_def NUM_OF_CACHED_SEGMENTS_def
        numeral_3_eq_3 hls_post_def)
qed

lemma hls_announced_step: "hls_segment_open True three_bytes (hs_pb hls_sys_init) = Inr hls_announced"
  by (simp add: hls_announced_def hls_init_eq hls_segment_open_def three_bytes_def sub64_def hls_post_def)

lemma hls_opened_step: "hls_segment_slot False three_bytes (hls_segment_next hls_announced) = Some (True, hls_opened)"
proof -
  have n: "hls_segment_next hls_announced = hls_announced\<lparr>hb_cache_write_index := 0\<rparr>"
    by (simp add: hls_segment_next_def hls_announced_def hls_init_eq)
  have c: "rewind_cache create_cache = create_cache"
    by (simp add: rewind_cache_def create_cache_def cache_set_read_position_def cache_set_write_position_def)
  show ?thesis
    unfolding n by (simp add: hls_segment_slot_def hls_segment_store_def ring_cache_def hls_announced_def hls_init_eq c three_bytes_def
        send_hls_resume_message_def hls_post_def hls_opened_def)
qed

lemma hls_filled_step: "hls_progress_buffer_chain calm_io [7, 8, 9] hls_opened = Some (GST_FLOW_OK, hls_filled)"
  by (simp add: hls_opened_def hls_filled_def hls_progress_buffer_chain_def ring_cache_def cache_write_buffer_def
      posix_write_def calm_io_def create_cache_def file_put_def hls_post_def)

lemma hls_sent_step: "hls_progress_buffer_loop calm_io hls_filled = Some (Hls_Pushing, hls_sent)"
proof -
  let ?c = "\<lparr>cc_file = [7, 8, 9], cc_read_handle = 0, cc_write_handle = 3, read_position = 0, write_position = 3\<rparr>"
  have r: "cache_read_buffer calm_io ?c = (3, Some \<lparr>cb_data = [7, 8, 9], cb_offset = 0\<rparr>, ?c\<lparr>cc_read_handle := 3, read_position := 3\<rparr>)"
    by (simp add: cache_read_buffer_def posix_read_def calm_io_def DEFAULT_BUFFER_SIZE_def Let_def numeral_3_eq_3)
  have "hls_loop_read calm_io ?c hls_filled = hls_sent"
    unfolding hls_loop_read_def r
    by (simp add: hls_filled_def hls_opened_def hls_sent_def hls_post_def send_hls_not_full_message_def NUM_OF_CACHED_SEGMENTS_def Let_def)
  then show ?thesis
    by (simp add: hls_progress_buffer_loop_def ring_cache_def hls_filled_def hls_opened_def hls_post_def cache_has_enough_data_def)
qed

definition hls_at :: "HLSProgressBuffer \<Rightarrow> hls_pc \<Rightarrow> src_pc \<Rightarrow> byte list \<Rightarrow> nat \<Rightarrow> hls_sys" where
  "hls_at e pc src received left = \<lparr>hs_pb = e, hs_pc = pc, hs_src = src, hs_flush = No_Flush, hs_in = received, hs_left = left,
     hs_ended = False\<rparr>"

lemma hls_sent_run: "hls_run (hls_at hls_sent Hls_Pushing Src_Idle [7, 8, 9] 0)"
proof -
  have calm: "reliable calm_io" by (simp add: reliable_def calm_io_def)
  have f: "hs_src hls_sys_init = Src_Idle" "hs_left hls_sys_init = 0" "\<not> hs_ended hls_sys_init" "hs_flush hls_sys_init = No_Flush"
    by (simp_all add: hls_sys_init_def)
  have chk: "hls_segment_check (hs_pb hls_sys_init)" by (simp add: hls_segment_check_def hls_init_eq)
  have "hls_step hls_sys_init (hls_sys_init\<lparr>hs_src := (if hls_segment_check (hs_pb hls_sys_init) then Src_Checked three_bytes else Src_Idle)\<rparr>)"
    by (rule hls_step.step_check [OF f]) (simp_all add: three_bytes_def)
  moreover have "hls_sys_init\<lparr>hs_src := (if hls_segment_check (hs_pb hls_sys_init) then Src_Checked three_bytes else Src_Idle)\<rparr> =
      hls_at (hs_pb hls_sys_init) Hls_Ready (Src_Checked three_bytes) [] 0"
    using chk by (simp add: hls_at_def) (simp add: hls_sys_init_def)
  ultimately have "hls_step hls_sys_init (hls_at (hs_pb hls_sys_init) Hls_Ready (Src_Checked three_bytes) [] 0)" by simp
  moreover have "hls_step (hls_at (hs_pb hls_sys_init) Hls_Ready (Src_Checked three_bytes) [] 0)
      (hls_at hls_announced Hls_Ready (Src_Opened three_bytes) [] 0)"
    using hls_step.step_open [of "hls_at (hs_pb hls_sys_init) Hls_Ready (Src_Checked three_bytes) [] 0" three_bytes hls_announced]
      hls_announced_step by (simp add: hls_at_def hls_init_eq)
  moreover have "hls_step (hls_at hls_announced Hls_Ready (Src_Opened three_bytes) [] 0) (hls_at hls_opened Hls_Ready Src_Idle [] 3)"
    using hls_step.step_slot [of "hls_at hls_announced Hls_Ready (Src_Opened three_bytes) [] 0" three_bytes True hls_opened]
      hls_opened_step by (simp add: hls_at_def three_bytes_def)
  moreover have "hls_step (hls_at hls_opened Hls_Ready Src_Idle [] 3) (hls_at hls_filled Hls_Ready Src_Idle [7, 8, 9] 0)"
    using hls_step.step_chain [of calm_io "[7, 8, 9]" "hls_at hls_opened Hls_Ready Src_Idle [] 3" GST_FLOW_OK hls_filled True]
      hls_filled_step calm by (simp add: hls_at_def) (simp add: hls_opened_def)
  moreover have "hls_step (hls_at hls_filled Hls_Ready Src_Idle [7, 8, 9] 0) (hls_at hls_sent Hls_Pushing Src_Idle [7, 8, 9] 0)"
    using hls_step.step_loop [of "hls_at hls_filled Hls_Ready Src_Idle [7, 8, 9] 0" calm_io Hls_Pushing hls_sent]
      hls_sent_step calm by (simp add: hls_at_def)
  ultimately show ?thesis using hls_run.hls_start hls_run.hls_next by blast
qed

theorem hls_ring_fifo_witness:
  "hls_out (hb_log hls_sent) = [7, 8, 9] \<and> (\<exists>rest. [7, 8, 9] = hls_out (hb_log hls_sent) @ rest)"
  using hls_ring_fifo [OF hls_sent_run]
  by (simp add: hls_at_def) (simp add: hls_sent_def hls_filled_def hls_opened_def send_hls_not_full_message_def hls_out_def)

section \<open>A flush in the middle of a segment event\<close>

text \<open>
  C36: a flush can leave the ring blocked. When the flush comes between the two locked parts of a segment event, the source's
  thread goes on and reserves the first cache for the segment that was flushed away. After the flush the next segment goes
  to the second cache; it arrives whole, but the task waits for the first cache, which nobody fills.
\<close>

theorem flush_in_segment_blocks:
  assumes "caches_ok e" "\<not> hb_is_eos e" "bs_start seg = 0" "0 < bs_stop seg" "bs_stop seg < 2 ^ 32"
    and "length data = bs_stop seg" "reliable io"
  shows "\<exists>e1 e2 e3. hls_segment_slot False old (hls_segment_next (hls_progress_buffer_flush_data (hls_flush_start e))) = Some (True, e1) \<and>
    hls_progress_buffer_sink_event True (Sink_Segment True False seg) (hls_flush_stop True (hls_flush_pause True e1)) = Some e2 \<and>
    hls_progress_buffer_chain io data e2 = Some (GST_FLOW_OK, e3) \<and>
    hls_progress_buffer_loop io e3 = Some (Hls_Waiting, e3) \<and> cache_content (the (ring_cache 1 e3)) = data"
proof -
  have "caches_ok (hls_flush_start e)" using assms(1) by (simp add: hls_flush_start_def caches_ok_def)
  then obtain a b c where ok: "cache_ok a" "cache_ok b" "cache_ok c" and f: "hls_progress_buffer_flush_data (hls_flush_start e) =
      (hls_flush_start e)\<lparr>hb_srcresult := GST_FLOW_FLUSHING, hb_log := hb_log (hls_flush_start e) @ [Ho_Flush],
      hb_cache_write_index := -1, hb_cache_read_index := 0, hb_cache := [Some a, Some b, Some c],
      hb_cache_size := [0, 0, 0], hb_cache_write_ready := [True, True, True]\<rparr>"
    using flush_data_eq by blast
  obtain e1 where e1: "hls_segment_slot False old (hls_segment_next (hls_progress_buffer_flush_data (hls_flush_start e))) = Some (True, e1)"
      "hb_cache e1 = [Some (rewind_cache a), Some b, Some c]" "hb_cache_write_ready e1 = [False, True, True]"
      "hb_cache_write_index e1 = 0" "hb_cache_read_index e1 = 0" "\<not> hb_is_eos e1" "length (hb_cache_size e1) = 3"
    unfolding f using assms(2)
    by (simp add: hls_segment_slot_def hls_segment_next_def hls_segment_store_def ring_cache_def send_hls_resume_message_def
        NUM_OF_CACHED_SEGMENTS_def hls_flush_start_def)
  define g where "g = hls_flush_stop True (hls_flush_pause True e1)"
  have g: "hb_cache g = [Some (rewind_cache a), Some b, Some c]" "hb_cache_write_ready g = [False, True, True]"
      "hb_cache_write_index g = 0" "hb_cache_read_index g = 0" "\<not> hb_is_eos g" "hb_srcresult g = GST_FLOW_OK" "\<not> hb_is_flushing g"
    using e1 by (simp_all add: g_def hls_flush_stop_def hls_flush_pause_def Let_def)
  have sub: "sub64 (bs_stop seg) (bs_start seg) \<noteq> 0" using assms(3-5) by (simp add: sub64_def)
  obtain h where h: "hls_segment_open True seg g = Inr h" "hb_cache h = hb_cache g" "hb_cache_write_ready h = hb_cache_write_ready g"
      "hb_cache_write_index h = 0" "hb_cache_read_index h = 0" "\<not> hb_is_eos h" "hb_srcresult h = GST_FLOW_OK" "\<not> hb_is_flushing h"
    using g sub by (cases "hb_send_new_segment g") (simp_all add: hls_segment_open_def)
  obtain e2 where e2: "hls_segment_slot False seg (hls_segment_next h) = Some (True, e2)"
      "hb_cache e2 = [Some (rewind_cache a), Some (rewind_cache b), Some c]" "hb_cache_write_index e2 = 1" "hb_cache_read_index e2 = 0"
      "\<not> hb_is_eos e2" "hb_srcresult e2 = GST_FLOW_OK" "\<not> hb_is_flushing e2"
    using g h by (simp add: hls_segment_slot_def hls_segment_next_def hls_segment_store_def ring_cache_def send_hls_resume_message_def
        NUM_OF_CACHED_SEGMENTS_def)
  have s: "hls_progress_buffer_sink_event True (Sink_Segment True False seg) g = Some e2"
    using g h e2 by (simp add: hls_progress_buffer_sink_event_def hls_segment_check_def)
  let ?d = "cache_write_buffer io data (rewind_cache b)"
  define e3 where "e3 = hls_post Ho_Signal_Add (e2\<lparr>hb_cache := [Some (rewind_cache a), Some ?d, Some c]\<rparr>)"
  have c3: "hls_progress_buffer_chain io data e2 = Some (GST_FLOW_OK, e3)"
    using e2 by (simp add: hls_progress_buffer_chain_def ring_cache_def e3_def)
  have "\<not> cache_has_enough_data (rewind_cache a)"
    using rewind_cache_ok [OF ok(1)] cache.ready_law by simp
  then have "hls_progress_buffer_loop io e3 = Some (Hls_Waiting, e3)"
    using e2 by (simp add: hls_progress_buffer_loop_def ring_cache_def e3_def)
  moreover have "cache_content (the (ring_cache 1 e3)) = data"
    using cache_write_ok(2) [OF assms(7) rewind_cache_ok(1) [OF ok(2)], of data] rewind_cache_ok(2) [OF ok(2)]
    by (simp add: ring_cache_def e3_def)
  ultimately show ?thesis using e1(1) s c3 unfolding g_def by blast
qed

theorem flush_in_segment_blocks_witness:
  "\<exists>e1 e2 e3. hls_segment_slot False three_bytes (hls_segment_next (hls_progress_buffer_flush_data (hls_flush_start hls_announced))) =
      Some (True, e1) \<and>
    hls_progress_buffer_sink_event True (Sink_Segment True False three_bytes) (hls_flush_stop True (hls_flush_pause True e1)) = Some e2 \<and>
    hls_progress_buffer_chain calm_io [7, 8, 9] e2 = Some (GST_FLOW_OK, e3) \<and>
    hls_progress_buffer_loop calm_io e3 = Some (Hls_Waiting, e3) \<and> cache_content (the (ring_cache 1 e3)) = [7, 8, 9]"
proof (rule flush_in_segment_blocks)
  have three: "i < 3 \<longleftrightarrow> i = 0 \<or> i = 1 \<or> i = 2" for i :: nat by auto
  show "caches_ok hls_announced"
    by (auto simp: hls_announced_def hls_init_eq caches_ok_def three create_cache_def cache_ok_def)
qed (simp_all add: hls_announced_def hls_init_eq three_bytes_def reliable_def calm_io_def)

end
