(* ===== verification/Java_Source.thy ===== *)
theory Java_Source
  imports Progress_Stream
begin

text \<open>
  The source element of a media pipeline (gstreamer/plugins/javasource/javasource.c): its task asks the
  Java connection for blocks and pushes them to the progress buffer, a seek repositions the connection, and in pull mode
  \<open>java_source_getrange\<close> reads a range. The answers of the Java side (the signals of the element), of the allocator and of
  the elements downstream during one call are the parameter \<open>java_env\<close>.
\<close>

section \<open>State\<close>

definition MAX_READ_SIZE :: nat where "MAX_READ_SIZE = 65536"
definition HLS_VALUE_FLOAT_MULTIPLIER :: int where "HLS_VALUE_FLOAT_MULTIPLIER = 1000"
definition EOS_CODE :: int where "EOS_CODE = -1"
definition OTHER_ERROR_CODE :: int where "OTHER_ERROR_CODE = -2"

text \<open>\<open>GST_SECOND\<close> of GStreamer.\<close>

definition NS_PER_SECOND :: int where "NS_PER_SECOND = 1000000000"

definition MODE_DEFAULT :: int where "MODE_DEFAULT = 1"
definition MODE_HLS :: int where "MODE_HLS = 2"
definition MODE_HLS_LIVE :: int where "MODE_HLS_LIVE = 4"

datatype js_event = Ev_Unknown | Ev_Stream_Start | Ev_Segment | Ev_Eos

datatype js_output =
    Jo_Stream_Start
  | Jo_Segment bool bytes_segment int
  | Jo_Eos
  | Jo_Caps string
  | Jo_Buffer "byte list" nat bool
  | Jo_Flush_Start
  | Jo_Flush_Stop
  | Jo_Seek_Data int
  | Jo_Start_Task
  | Jo_Stop_Task
  | Jo_Pause_Task
  | Jo_Close_Connection

record JavaSource =
  js_srcresult :: GstFlowReturn
  js_pending_event :: js_event
  js_position :: int
  js_position_time :: int
  js_size :: int
  js_is_seekable :: bool
  js_is_random_access :: bool
  js_update :: bool
  js_discont :: bool
  js_mode :: int
  js_stop_on_pause :: bool
  js_location :: "string option"
  js_mimetype :: "string option"
  js_rate :: gdouble
  js_log :: "js_output list"

text \<open>
  \<open>je_read_next\<close> is the answer to \<open>read-next-block\<close> and \<open>je_copy\<close> what \<open>copy-block\<close> puts into a buffer of that size;
  \<open>je_flushing\<close> tells whether another thread has set the result to \<open>GST_FLOW_FLUSHING\<close> in the meantime.
\<close>

record java_env =
  je_seek :: int
  je_stream_size :: int
  je_read_next :: int
  je_copy :: "byte list"
  je_duration :: int
  je_alloc :: bool
  je_map :: bool
  je_push_event :: bool
  je_push :: GstFlowReturn
  je_flushing :: bool
  je_linked :: bool
  je_default :: bool

definition js_post :: "js_output \<Rightarrow> JavaSource \<Rightarrow> JavaSource" where
  "js_post x e = e\<lparr>js_log := js_log e @ [x]\<rparr>"

definition has_mode :: "int \<Rightarrow> JavaSource \<Rightarrow> bool" where
  "has_mode m e \<longleftrightarrow> js_mode e AND m = m"

text \<open>A new element: zeroed memory, the default values of the properties, then \<open>java_source_init\<close>.\<close>

definition java_source_init :: JavaSource where
  "java_source_init = \<lparr>js_srcresult = GST_FLOW_OK, js_pending_event = Ev_Unknown, js_position = 0, js_position_time = 0,
     js_size = -1, js_is_seekable = False, js_is_random_access = False, js_update = False, js_discont = False,
     js_mode = MODE_DEFAULT, js_stop_on_pause = True, js_location = None, js_mimetype = None,
     js_rate = 0x3FF0000000000000, js_log = []\<rparr>"

datatype js_property =
    JP_Size int | JP_Is_Seekable bool | JP_Is_Random_Access bool | JP_Stop_On_Pause bool | JP_Location "string option"
  | JP_Hls_Mode bool | JP_Mimetype "string option"

definition java_source_set_property :: "js_property \<Rightarrow> JavaSource \<Rightarrow> JavaSource" where
  "java_source_set_property p e =
    (case p of
       JP_Size v \<Rightarrow> e\<lparr>js_size := v\<rparr>
     | JP_Is_Seekable b \<Rightarrow> e\<lparr>js_is_seekable := b\<rparr>
     | JP_Is_Random_Access b \<Rightarrow> e\<lparr>js_is_random_access := b\<rparr>
     | JP_Stop_On_Pause b \<Rightarrow> e\<lparr>js_stop_on_pause := b\<rparr>
     | JP_Location s \<Rightarrow> e\<lparr>js_location := s\<rparr>
     | JP_Hls_Mode b \<Rightarrow> e\<lparr>js_mode := (if b then MODE_HLS else MODE_DEFAULT)\<rparr>
     | JP_Mimetype s \<Rightarrow> e\<lparr>js_mimetype := s\<rparr>)"

definition java_source_get_property :: "JavaSource \<Rightarrow> string option" where
  "java_source_get_property e = js_location e"

datatype pad_mode = Pad_Push | Pad_Pull | Pad_None

definition java_source_activatemode :: "java_env \<Rightarrow> pad_mode \<Rightarrow> bool \<Rightarrow> JavaSource \<Rightarrow> bool \<times> JavaSource" where
  "java_source_activatemode E m active e =
    (case m of
       Pad_Push \<Rightarrow>
         if active
         then let e = e\<lparr>js_srcresult := GST_FLOW_OK\<rparr> in (True, if je_linked E then js_post Jo_Start_Task e else e)
         else (True, js_post Jo_Stop_Task (e\<lparr>js_srcresult := GST_FLOW_FLUSHING\<rparr>))
     | Pad_Pull \<Rightarrow> (True, e)
     | Pad_None \<Rightarrow> (False, e))"

section \<open>Seeking\<close>

record java_seek =
  jk_rate :: gdouble
  jk_bytes :: bool
  jk_time :: bool
  jk_flush :: bool
  jk_start :: int

text \<open>Up to the wait for the task's stream lock; \<open>False\<close> is an early return.\<close>

definition java_seek_begin :: "java_seek \<Rightarrow> JavaSource \<Rightarrow> bool \<times> JavaSource" where
  "java_seek_begin k e =
    (if \<not> jk_bytes k \<and> has_mode MODE_DEFAULT e then (False, e)
     else if \<not> jk_time k \<and> has_mode MODE_HLS e then (False, e)
     else (True, (if jk_flush k then js_post Jo_Flush_Start e else e)\<lparr>js_srcresult := GST_FLOW_FLUSHING\<rparr>))"

definition java_seek_end :: "java_env \<Rightarrow> java_seek \<Rightarrow> JavaSource \<Rightarrow> bool \<times> JavaSource" where
  "java_seek_end E k e =
    (let position = (if has_mode MODE_HLS e then cdiv (jk_start k) NS_PER_SECOND else jk_start k);
         e = js_post (Jo_Seek_Data position) e;
         new_position = je_seek E;
         e = (if new_position \<ge> 0
              then (if has_mode MODE_HLS e
                    then e\<lparr>js_rate := jk_rate k, js_pending_event := Ev_Segment, js_position := 0,
                           js_position_time := cdiv (s64 (new_position * NS_PER_SECOND)) HLS_VALUE_FLOAT_MULTIPLIER,
                           js_discont := True, js_update := False\<rparr>
                    else e\<lparr>js_rate := jk_rate k, js_pending_event := Ev_Segment, js_position := position,
                           js_position_time := 0, js_discont := True, js_update := False\<rparr>)
              else e);
         e = e\<lparr>js_srcresult := GST_FLOW_OK\<rparr>;
         e = (if jk_flush k then js_post Jo_Flush_Stop e else e)
     in (new_position \<ge> 0, js_post Jo_Start_Task e))"

definition java_source_perform_seek :: "java_env \<Rightarrow> java_seek \<Rightarrow> JavaSource \<Rightarrow> bool \<times> JavaSource" where
  "java_source_perform_seek E k e =
    (let (go, e) = java_seek_begin k e in if go then java_seek_end E k e else (False, e))"

definition java_source_event :: "java_env \<Rightarrow> java_seek option \<Rightarrow> JavaSource \<Rightarrow> bool \<times> JavaSource" where
  "java_source_event E ev e =
    (case ev of
       Some k \<Rightarrow> if js_is_seekable e then java_source_perform_seek E k e else (je_default E, e)
     | None \<Rightarrow> (je_default E, e))"

section \<open>The task\<close>

definition flow_of :: "bool \<Rightarrow> GstFlowReturn" where
  "flow_of ok = (if ok then GST_FLOW_OK else GST_FLOW_FLUSHING)"

text \<open>The cases of the switch; \<open>goto next_event\<close> enters one of the earlier ones.\<close>

definition js_send_stream_start :: "java_env \<Rightarrow> JavaSource \<Rightarrow> GstFlowReturn \<times> JavaSource" where
  "js_send_stream_start E e = (flow_of (je_push_event E), (js_post Jo_Stream_Start e)\<lparr>js_pending_event := Ev_Segment\<rparr>)"

definition js_send_eos :: "JavaSource \<Rightarrow> GstFlowReturn \<times> JavaSource" where
  "js_send_eos e = (GST_FLOW_EOS, js_post Jo_Eos e)"

definition js_send_segment :: "java_env \<Rightarrow> JavaSource \<Rightarrow> GstFlowReturn \<times> JavaSource" where
  "js_send_segment E e =
    (if has_mode MODE_HLS e
     then let result = je_stream_size E
          in if je_flushing E then (GST_FLOW_OK, e)
             else if result = -1 then js_send_eos (e\<lparr>js_pending_event := Ev_Eos\<rparr>)
             else let (result, e) = (if result < 0 then (s32 (- result), e\<lparr>js_discont := True\<rparr>) else (result, e));
                      seg = \<lparr>bs_rate = js_rate e, bs_start = 0, bs_stop = nat (result mod 2 ^ 64),
                             bs_position = nat (js_position_time e mod 2 ^ 64)\<rparr>
                  in (flow_of (je_push_event E),
                      (js_post (Jo_Segment (js_update e) seg (js_position_time e)) e)\<lparr>js_pending_event := Ev_Unknown\<rparr>)
     else let seg = \<lparr>bs_rate = js_rate e, bs_start = nat (js_position e mod 2 ^ 64), bs_stop = nat (js_size e mod 2 ^ 64),
                     bs_position = nat (js_position e mod 2 ^ 64)\<rparr>
          in (flow_of (je_push_event E), (js_post (Jo_Segment (js_update e) seg 0) e)\<lparr>js_pending_event := Ev_Unknown\<rparr>))"

definition js_send_buffer :: "java_env \<Rightarrow> int \<Rightarrow> JavaSource \<Rightarrow> GstFlowReturn \<times> JavaSource" where
  "js_send_buffer E n e =
    (let offset = nat (js_position e mod 2 ^ 64); discont = js_discont e;
         e = e\<lparr>js_discont := False\<rparr>;
         e = (case js_mimetype e of Some m \<Rightarrow> (js_post (Jo_Caps m) e)\<lparr>js_mimetype := None\<rparr> | None \<Rightarrow> e);
         e = js_post (Jo_Buffer (je_copy E) offset discont) e;
         e = (if js_pending_event e \<noteq> Ev_Segment then e\<lparr>js_position := s64 (js_position e + n)\<rparr> else e)
     in if je_push E = GST_FLOW_EOS then js_send_eos (e\<lparr>js_pending_event := Ev_Eos\<rparr>) else (je_push E, e))"

definition js_send_data :: "java_env \<Rightarrow> JavaSource \<Rightarrow> GstFlowReturn \<times> JavaSource" where
  "js_send_data E e =
    (let n = je_read_next E
     in if n > 0
        then if \<not> je_alloc E then (GST_FLOW_OK, e)
             else if \<not> je_map E then (GST_FLOW_ERROR, e)
             else js_send_buffer E n e
        else if has_mode MODE_DEFAULT e \<and> n = EOS_CODE then js_send_eos (e\<lparr>js_pending_event := Ev_Eos\<rparr>)
        else if has_mode MODE_HLS e \<and> n = EOS_CODE then js_send_segment E (e\<lparr>js_pending_event := Ev_Segment\<rparr>)
        else if n = OTHER_ERROR_CODE then (GST_FLOW_FLUSHING, e)
        else (GST_FLOW_OK, e))"

text \<open>One call of the task's function up to its last locked part, and that part.\<close>

definition java_source_loop_body :: "java_env \<Rightarrow> JavaSource \<Rightarrow> GstFlowReturn \<times> JavaSource" where
  "java_source_loop_body E e =
    (if js_srcresult e = GST_FLOW_OK
     then case js_pending_event e of
         Ev_Stream_Start \<Rightarrow> js_send_stream_start E e
       | Ev_Segment \<Rightarrow> js_send_segment E e
       | Ev_Eos \<Rightarrow> js_send_eos e
       | Ev_Unknown \<Rightarrow> js_send_data E e
     else (js_srcresult e, e))"

definition java_source_loop_end :: "GstFlowReturn \<Rightarrow> JavaSource \<Rightarrow> bool \<times> JavaSource" where
  "java_source_loop_end result e =
    (let (result, e) = (if js_srcresult e = GST_FLOW_OK \<or> result \<noteq> GST_FLOW_OK
                        then (result, e\<lparr>js_srcresult := result\<rparr>) else (js_srcresult e, e))
     in if result \<noteq> GST_FLOW_OK then (False, js_post Jo_Pause_Task e) else (True, e))"

definition java_source_loop :: "java_env \<Rightarrow> JavaSource \<Rightarrow> bool \<times> JavaSource" where
  "java_source_loop E e = (let (result, e) = java_source_loop_body E e in java_source_loop_end result e)"

section \<open>Queries and state changes\<close>

datatype js_query = JQ_Duration bool bool | JQ_Scheduling | JQ_Seeking bool | JQ_Other
datatype js_answer = JA_Duration_Time int | JA_Duration_Bytes int | JA_Pull | JA_Push | JA_Seekable int | JA_Default

definition java_source_query :: "java_env \<Rightarrow> js_query \<Rightarrow> JavaSource \<Rightarrow> js_answer option \<times> JavaSource" where
  "java_source_query E q e =
    (case q of
       JQ_Duration is_time is_bytes \<Rightarrow>
         if has_mode MODE_HLS e
         then if \<not> is_time then (None, e)
              else (Some (JA_Duration_Time (cdiv (je_duration E * NS_PER_SECOND) HLS_VALUE_FLOAT_MULTIPLIER)),
                    if je_duration E < 0 then e\<lparr>js_mode := js_mode e OR MODE_HLS_LIVE\<rparr> else e)
         else if \<not> is_bytes then (None, e)
         else (Some (JA_Duration_Bytes (js_size e)), e)
     | JQ_Scheduling \<Rightarrow> (Some (if js_is_random_access e then JA_Pull else JA_Push), e)
     | JQ_Seeking is_bytes \<Rightarrow>
         if \<not> is_bytes \<or> \<not> js_is_seekable e then (None, e) else (Some (JA_Seekable (js_size e)), e)
     | JQ_Other \<Rightarrow> (if je_default E then Some JA_Default else None, e))"

datatype state_change = Ready_To_Paused | Paused_To_Playing | Playing_To_Paused | Ready_To_Null | Other_Change

text \<open>\<open>parent\<close> tells whether the parent class has accepted the change.\<close>

definition java_source_change_state :: "state_change \<Rightarrow> bool \<Rightarrow> JavaSource \<Rightarrow> bool \<times> JavaSource" where
  "java_source_change_state tr parent e =
    (let e = (case tr of
           Ready_To_Paused \<Rightarrow> e\<lparr>js_pending_event := Ev_Stream_Start, js_position := 0, js_position_time := 0, js_discont := False,
             js_update := \<not> has_mode MODE_HLS e, js_srcresult := GST_FLOW_OK\<rparr>
         | Paused_To_Playing \<Rightarrow> if js_stop_on_pause e then e\<lparr>js_srcresult := GST_FLOW_OK\<rparr> else e
         | _ \<Rightarrow> e)
     in if \<not> parent then (False, e)
        else (True, case tr of
           Playing_To_Paused \<Rightarrow> if js_stop_on_pause e then e\<lparr>js_srcresult := GST_FLOW_FLUSHING\<rparr> else e
         | Ready_To_Null \<Rightarrow> js_post Jo_Close_Connection
             ((if \<not> js_stop_on_pause e then e\<lparr>js_srcresult := GST_FLOW_FLUSHING\<rparr> else e)\<lparr>js_size := -1\<rparr>)
         | _ \<Rightarrow> e))"

section \<open>Pull mode\<close>

text \<open>
  \<open>read\<close> is the answer to \<open>read-block\<close> for a position and a size, with what \<open>copy-block\<close> then copies. An answer that is
  neither valid data nor the end of the stream is asked for again: fuel bounds the number of requests, and \<open>None\<close> is running
  out of it.
\<close>

type_synonym read_block = "nat \<Rightarrow> nat \<Rightarrow> int \<times> byte list"

fun getrange_loop :: "nat \<Rightarrow> read_block \<Rightarrow> nat \<Rightarrow> nat \<Rightarrow> byte list \<Rightarrow> (GstFlowReturn \<times> byte list) option" where
  "getrange_loop 0 read offset len buf = None"
| "getrange_loop (Suc fuel) read offset len buf =
    (if length buf < len
     then let toRead = (if len - length buf \<ge> MAX_READ_SIZE then MAX_READ_SIZE else len - length buf);
              (n, data) = read (add64 offset (length buf)) toRead
          in if n > 0 \<and> n \<le> int toRead
             then if n < int toRead then Some (GST_FLOW_OK, buf @ data) else getrange_loop fuel read offset len (buf @ data)
             else if n = EOS_CODE \<or> n = 0 then Some (GST_FLOW_EOS, [])
             else getrange_loop fuel read offset len buf
     else Some (GST_FLOW_OK, buf))"

definition java_source_getrange ::
    "nat \<Rightarrow> java_env \<Rightarrow> read_block \<Rightarrow> nat \<Rightarrow> nat \<Rightarrow> (GstFlowReturn \<times> byte list) option" where
  "java_source_getrange fuel E read offset len =
    (if \<not> je_alloc E \<or> \<not> je_map E then Some (GST_FLOW_ERROR, []) else getrange_loop fuel read offset len [])"

section \<open>Reading a file in pull mode\<close>

text \<open>A connection to a file, and one to a file that cannot be read from position \<open>x\<close> on.\<close>

definition file_reader :: "byte list \<Rightarrow> read_block" where
  "file_reader f pos n =
    (let data = take n (drop pos f) in if data = [] then (EOS_CODE, []) else (int (length data), data))"

definition broken_reader :: "nat \<Rightarrow> byte list \<Rightarrow> read_block" where
  "broken_reader x f pos n = (if pos + n > x then (OTHER_ERROR_CODE, []) else file_reader f pos n)"

text \<open>
  What the element answers for a range of a file: the part of it that the file has, unless the file ends in the range and a
  multiple of \<open>MAX_READ_SIZE\<close> bytes after its start.
\<close>

definition file_range :: "byte list \<Rightarrow> nat \<Rightarrow> nat \<Rightarrow> GstFlowReturn \<times> byte list" where
  "file_range f offset len =
    (if length f - offset < len \<and> MAX_READ_SIZE dvd length f - offset then (GST_FLOW_EOS, [])
     else (GST_FLOW_OK, take len (drop offset f)))"

lemma take_upto:
  assumes "done \<le> length xs"
  shows "take done xs @ take n (drop done xs) = take (done + n) xs"
  by (simp add: take_add)

text \<open>One request for the next \<open>n\<close> bytes, by its answer.\<close>

lemma getrange_request:
  assumes "length buf < len" "n = min MAX_READ_SIZE (len - length buf)" "read (add64 offset (length buf)) n = (m, data)"
  shows "getrange_loop (Suc fuel) read offset len buf =
    (if 0 < m \<and> m \<le> int n
     then if m < int n then Some (GST_FLOW_OK, buf @ data) else getrange_loop fuel read offset len (buf @ data)
     else if m = EOS_CODE \<or> m = 0 then Some (GST_FLOW_EOS, []) else getrange_loop fuel read offset len buf)"
proof -
  have "n = (if len - length buf \<ge> MAX_READ_SIZE then MAX_READ_SIZE else len - length buf)"
    using assms(2) by auto
  then show ?thesis using assms(1,3) by (simp add: Let_def)
qed

lemma getrange_done: "length buf \<ge> len \<Longrightarrow> getrange_loop (Suc fuel) read offset len buf = Some (GST_FLOW_OK, buf)"
  by simp

declare getrange_loop.simps(2) [simp del]

lemma getrange_loop_file:
  assumes "offset + len < 2 ^ 64" "length buf = k * MAX_READ_SIZE" "length buf \<le> len" "length buf \<le> length g"
    and "g = drop offset f" "buf = take (length buf) g" "len \<le> (k + fuel) * MAX_READ_SIZE"
  shows "getrange_loop (Suc fuel) (file_reader f) offset len buf = Some (file_range f offset len)"
  using assms
proof (induction fuel arbitrary: k buf)
  case 0
  then have "length buf = len" by simp
  then show ?case using 0 by (auto simp: file_range_def getrange_done)
next
  case (Suc fuel)
  let ?d = "length buf"
  define n where "n = min MAX_READ_SIZE (len - ?d)"
  define data where "data = take n (drop ?d g)"
  have len_g: "length g = length f - offset" using Suc.prems(5) by simp
  show ?case
  proof (cases "?d < len")
    case False
    then have "?d = len" using Suc.prems(3) by simp
    then show ?thesis using Suc.prems by (auto simp: file_range_def getrange_done)
  next
    case True
    have n: "0 < n" "n \<le> MAX_READ_SIZE" "n \<le> len - ?d" using True by (auto simp: n_def MAX_READ_SIZE_def)
    have app: "buf @ data = take (?d + n) g"
      using Suc.prems(6) take_add [of ?d n g] by (simp add: data_def)
    have "add64 offset ?d = ?d + offset" using Suc.prems(1) True by (simp add: add64_def)
    moreover have "drop (?d + offset) f = drop ?d g" by (simp add: Suc.prems(5))
    ultimately have r: "file_reader f (add64 offset ?d) n = (if data = [] then (EOS_CODE, []) else (int (length data), data))"
      by (simp only: file_reader_def Let_def data_def)
    have l: "length data = min n (length g - ?d)" by (simp add: data_def)
    consider "length g = ?d" | "?d < length g" "length g - ?d < n" | "n \<le> length g - ?d" using Suc.prems(4) by linarith
    then show ?thesis
    proof cases
      case 1
      then have "data = []" using l by simp
      moreover have "file_range f offset len = (GST_FLOW_EOS, [])"
        using 1 True Suc.prems(2) len_g by (simp add: file_range_def)
      ultimately show ?thesis
        using getrange_request [OF True n_def, of "file_reader f" offset EOS_CODE "[]" "Suc fuel"] r
        by (simp add: EOS_CODE_def)
    next
      case 2
      have "\<not> MAX_READ_SIZE dvd length g"
      proof
        assume "MAX_READ_SIZE dvd length g"
        then have "MAX_READ_SIZE dvd length g - ?d" using Suc.prems(2) by (simp add: dvd_diff_nat)
        then show False using 2 n(2) by (auto dest: dvd_imp_le)
      qed
      then have "file_range f offset len = (GST_FLOW_OK, buf @ data)"
        using 2 n(3) app len_g Suc.prems(5) by (simp add: file_range_def)
      moreover have "data \<noteq> []" "int (length data) < int n" using 2 l by auto
      ultimately show ?thesis
        using getrange_request [OF True n_def, of "file_reader f" offset "int (length data)" data "Suc fuel"] r by simp
    next
      case 3
      then have m: "data \<noteq> []" "length data = n" using n l by auto
      have step: "getrange_loop (Suc (Suc fuel)) (file_reader f) offset len buf =
          getrange_loop (Suc fuel) (file_reader f) offset len (buf @ data)"
        using getrange_request [OF True n_def, of "file_reader f" offset "int n" data "Suc fuel"] r m n(1) by simp
      show ?thesis
      proof (cases "MAX_READ_SIZE \<le> len - ?d")
        case big: True
        then have "n = MAX_READ_SIZE" by (simp add: n_def)
        then have "length (buf @ data) = Suc k * MAX_READ_SIZE" "length (buf @ data) \<le> len"
            "length (buf @ data) \<le> length g" "len \<le> (Suc k + fuel) * MAX_READ_SIZE"
          using Suc.prems(2,4,7) m(2) 3 n(3) True by simp_all
        moreover have "buf @ data = take (length (buf @ data)) g" using app m(2) by (metis length_append)
        ultimately show ?thesis unfolding step by (intro Suc.IH [OF Suc.prems(1) _ _ _ Suc.prems(5)])
      next
        case False
        then have d: "?d + n = len" using True by (simp add: n_def)
        have "length (buf @ data) = len" "len \<le> length f - offset" using d m(2) 3 Suc.prems(4) len_g by auto
        then show ?thesis using step app d Suc.prems(5) by (simp add: file_range_def getrange_done)
      qed
    qed
  qed
qed

text \<open>
  C22: in pull mode a range of a file is answered with the bytes the file has in it, after at most one request per
  \<open>MAX_READ_SIZE\<close> bytes and one more. When the file ends inside the range a multiple of \<open>MAX_READ_SIZE\<close> bytes after its
  start, the answer is the end of the stream, without the bytes before it.
\<close>

theorem getrange_file:
  assumes "offset + len < 2 ^ 64" "je_alloc E" "je_map E" "len div MAX_READ_SIZE + 2 \<le> fuel"
  shows "java_source_getrange fuel E (file_reader f) offset len = Some (file_range f offset len)"
proof -
  have "len \<le> (fuel - 1) * MAX_READ_SIZE"
  proof -
    have "len < Suc (len div MAX_READ_SIZE) * MAX_READ_SIZE"
      by (simp add: MAX_READ_SIZE_def dividend_less_div_times)
    also have "\<dots> \<le> (fuel - 1) * MAX_READ_SIZE" using assms(4) by (intro mult_le_mono1) simp
    finally show ?thesis by simp
  qed
  then show ?thesis
    using getrange_loop_file [of offset len "[]" 0 "drop offset f" f "fuel - 1"] assms by (simp add: java_source_getrange_def)
qed

definition java_calm :: java_env where
  "java_calm = \<lparr>je_seek = 0, je_stream_size = 0, je_read_next = 0, je_copy = [], je_duration = 0, je_alloc = True, je_map = True,
     je_push_event = True, je_push = GST_FLOW_OK, je_flushing = False, je_linked = True, je_default = True\<rparr>"

theorem getrange_file_witness:
  "java_source_getrange 2 java_calm (file_reader [1, 2, 3]) 1 5 = Some (GST_FLOW_OK, [2, 3])"
  using getrange_file [of 1 5 java_calm 2 "[1, 2, 3]"] by (simp add: java_calm_def file_range_def MAX_READ_SIZE_def nat_dvd_not_less)

lemma broken_loop:
  assumes "offset + len < 2 ^ 64" "length buf < len" "x < offset + len" "offset + len \<le> length f"
  shows "getrange_loop fuel (broken_reader x f) offset len buf = None"
  using assms
proof (induction fuel arbitrary: buf)
  case 0
  show ?case by simp
next
  case (Suc fuel)
  define n where "n = min MAX_READ_SIZE (len - length buf)"
  define data where "data = take n (drop (offset + length buf) f)"
  note request = getrange_request [OF Suc.prems(2) n_def, of "broken_reader x f" offset]
  have a: "add64 offset (length buf) = offset + length buf" using Suc.prems by (simp add: add64_def)
  show ?case
  proof (cases "x < offset + length buf + n")
    case True
    then have "broken_reader x f (add64 offset (length buf)) n = (OTHER_ERROR_CODE, [])"
      by (simp add: a broken_reader_def)
    then show ?thesis using request [of OTHER_ERROR_CODE "[]" fuel] Suc.IH [OF Suc.prems]
      by (simp add: OTHER_ERROR_CODE_def EOS_CODE_def)
  next
    case False
    have l: "length data = n" "0 < n" using Suc.prems by (auto simp: n_def data_def MAX_READ_SIZE_def)
    then have "broken_reader x f (add64 offset (length buf)) n = (int n, data)"
      using False by (auto simp: a broken_reader_def file_reader_def Let_def data_def [symmetric])
    moreover have "length (buf @ data) < len" using False Suc.prems(3) l(1) by simp
    ultimately show ?thesis
      using request [of "int n" data fuel] Suc.IH [of "buf @ data"] Suc.prems l(2) by simp
  qed
qed

text \<open>
  C38: an error of the connection is never answered in pull mode: when the file cannot be read from a position inside the
  range on, the element asks again for ever, whatever the fuel.
\<close>

theorem getrange_retries_errors:
  assumes "offset + len < 2 ^ 64" "offset + len \<le> length f" "offset \<le> x" "x < offset + len" "je_alloc E" "je_map E"
  shows "java_source_getrange fuel E (broken_reader x f) offset len = None"
  using broken_loop [of offset len "[]" x f fuel] assms by (simp add: java_source_getrange_def)

theorem getrange_retries_errors_witness:
  "java_source_getrange 100 java_calm (broken_reader 1 [1, 2]) 0 2 = None"
  using getrange_retries_errors [of 0 2 "[1, 2]" 1 java_calm 100] by (simp add: java_calm_def)

end
