(* ===== verification/Java_Pipe.thy ===== *)
theory Java_Pipe
  imports Java_Source
begin

text \<open>
  The source element and the progress buffer together, as \<open>GstPipelineFactory\<close> links them for a stream that is
  downloaded: what \<open>javasource\<close> pushes is handed to \<open>progressbuffer\<close>, and a seek that
  \<open>progressbuffer\<close> cannot serve from its cache goes up to \<open>javasource\<close>. The threads are the task of each element and the
  application's thread that seeks.
\<close>

section \<open>What the buffer receives\<close>

text \<open>
  The pad's peer gets the outputs of the source in order; its answers are those that the source's function went on with.
\<close>

definition sent_item :: "js_output \<Rightarrow> sink_item option" where
  "sent_item x =
    (case x of
       Jo_Stream_Start \<Rightarrow> Some (Sink_Serialized ''stream-start'')
     | Jo_Segment update seg _ \<Rightarrow> Some (Sink_Segment True update seg)
     | Jo_Eos \<Rightarrow> Some Sink_Eos
     | Jo_Caps _ \<Rightarrow> Some (Sink_Serialized ''caps'')
     | Jo_Flush_Start \<Rightarrow> Some Sink_Flush_Start
     | Jo_Flush_Stop \<Rightarrow> Some Sink_Flush_Stop
     | _ \<Rightarrow> None)"

definition asked :: "js_output \<Rightarrow> bool" where
  "asked x \<longleftrightarrow> (case x of Jo_Stream_Start \<Rightarrow> True | Jo_Segment _ _ _ \<Rightarrow> True | _ \<Rightarrow> False)"

definition receive :: "java_env \<Rightarrow> pb_env \<Rightarrow> js_output \<Rightarrow> ProgressBuffer \<Rightarrow> ProgressBuffer option" where
  "receive J E x e =
    (case x of
       Jo_Buffer data offset _ \<Rightarrow>
         do { (r, e) \<leftarrow> progress_buffer_chain E data offset e; if r = je_push J then Some e else None }
     | _ \<Rightarrow>
         (case sent_item x of
            None \<Rightarrow> Some e
          | Some ev \<Rightarrow> do { (r, e) \<leftarrow> progress_buffer_sink_event E ev e;
                            if asked x \<and> r \<noteq> je_push_event J then None else Some e }))"

primrec deliver :: "java_env \<Rightarrow> pb_env \<Rightarrow> js_output list \<Rightarrow> ProgressBuffer \<Rightarrow> ProgressBuffer option" where
  "deliver J E [] e = Some e"
| "deliver J E (x # xs) e = do { e \<leftarrow> receive J E x e; deliver J E xs e }"

definition new_outputs :: "JavaSource \<Rightarrow> JavaSource \<Rightarrow> js_output list" where
  "new_outputs e e' = drop (length (js_log e)) (js_log e')"

section \<open>The steps of the threads\<close>

datatype js_pc = Js_Stopped | Js_Ready | Js_Done GstFlowReturn

text \<open>
  A seek: until the buffer's task has stopped, while the event is on its way to the source, until the source's task has
  stopped, and after the source's answer.
\<close>

datatype pipe_seek =
    No_Seek
  | Seek_Begun push_seek
  | Seek_Sent push_seek
  | Seek_Upstream push_seek
  | Seek_Answered push_seek bool

definition seek_of :: "pipe_seek \<Rightarrow> push_seek option" where
  "seek_of q = (case q of No_Seek \<Rightarrow> None | Seek_Begun k \<Rightarrow> Some k | Seek_Sent k \<Rightarrow> Some k | Seek_Upstream k \<Rightarrow> Some k
     | Seek_Answered k _ \<Rightarrow> Some k)"

definition lock_free :: "pipe_seek \<Rightarrow> bool" where
  "lock_free q \<longleftrightarrow> (case q of No_Seek \<Rightarrow> True | Seek_Begun _ \<Rightarrow> True | _ \<Rightarrow> False)"

definition upstream :: "push_seek \<Rightarrow> java_seek" where
  "upstream k = \<lparr>jk_rate = ps_rate k, jk_bytes = True, jk_time = False, jk_flush = ps_flush k, jk_start = ps_position k\<rparr>"

record pipe =
  pi_js :: JavaSource
  pi_jpc :: js_pc
  pi_cursor :: nat
  pi_pb :: ProgressBuffer
  pi_pc :: loop_pc
  pi_seek :: pipe_seek

text \<open>The elements set up for a stream of \<open>len\<close> bytes, after \<open>READY_TO_PAUSED\<close>.\<close>

definition pipe_source :: "nat \<Rightarrow> bool \<Rightarrow> string option \<Rightarrow> JavaSource" where
  "pipe_source len seekable mime = snd (java_source_change_state Ready_To_Paused True
     (foldr java_source_set_property
       [JP_Stop_On_Pause False, JP_Is_Seekable seekable, JP_Size (int len), JP_Mimetype mime] java_source_init))"

definition pipe_init :: "nat \<Rightarrow> bool \<Rightarrow> string option \<Rightarrow> pipe" where
  "pipe_init len seekable mime = \<lparr>pi_js = pipe_source len seekable mime, pi_jpc = Js_Ready, pi_cursor = 0,
     pi_pb = progress_buffer_init, pi_pc = Loop_Stopped, pi_seek = No_Seek\<rparr>"

text \<open>
  The connection answers with the next bytes of the stream, with its end or with an error; its cursor moves by what it
  has given out. Allocation and mapping succeed.
\<close>

definition java_answers :: "(nat \<Rightarrow> byte) \<Rightarrow> nat \<Rightarrow> nat \<Rightarrow> java_env \<Rightarrow> bool" where
  "java_answers src len c J \<longleftrightarrow> je_alloc J \<and> je_map J \<and>
     (je_read_next J \<le> 0 \<or> (\<exists>n. je_read_next J = int n \<and> c + n \<le> len \<and> je_copy J = map src [c..<c + n]))"

definition cursor_after :: "java_env \<Rightarrow> JavaSource \<Rightarrow> nat \<Rightarrow> nat" where
  "cursor_after J e c =
    (if js_srcresult e = GST_FLOW_OK \<and> js_pending_event e = Ev_Unknown then c + nat (je_read_next J) else c)"

text \<open>
  \<open>pipe_source_body\<close> is the task of the source up to its last locked part: between the locks it shares no
  field with a seek that waits for it. The source accepts every seek to inside the stream when it is seekable.
\<close>

inductive pipe_step :: "(nat \<Rightarrow> byte) \<Rightarrow> nat \<Rightarrow> pipe \<Rightarrow> pipe \<Rightarrow> bool" for src len where
  pipe_source_body: "pi_jpc s = Js_Ready \<Longrightarrow> java_source_loop_body J (pi_js s) = (r, js) \<Longrightarrow>
    java_answers src len (pi_cursor s) J \<Longrightarrow> deliver J E (new_outputs (pi_js s) js) (pi_pb s) = Some e \<Longrightarrow>
    reliable (pe_io E) \<Longrightarrow> pe_cache E \<Longrightarrow> \<not> pe_pull E \<Longrightarrow>
    pipe_step src len s (s\<lparr>pi_js := js, pi_jpc := Js_Done r, pi_cursor := cursor_after J (pi_js s) (pi_cursor s), pi_pb := e\<rparr>)"
| pipe_source_end: "pi_jpc s = Js_Done r \<Longrightarrow> java_source_loop_end r (pi_js s) = (go, js) \<Longrightarrow>
    pipe_step src len s (s\<lparr>pi_js := js, pi_jpc := (if go then Js_Ready else Js_Stopped)\<rparr>)"
| pipe_start: "pb_srcpad (pi_pb s) \<Longrightarrow> pi_pc s = Loop_Stopped \<Longrightarrow> pipe_step src len s (s\<lparr>pi_pc := Loop_Ready\<rparr>)"
| pipe_call: "pi_pc s = Loop_Ready \<Longrightarrow> lock_free (pi_seek s) \<Longrightarrow> pipe_step src len s (s\<lparr>pi_pc := Loop_At False\<rparr>)"
| pipe_wake: "pi_pc s = Loop_Waiting skip \<Longrightarrow> pipe_step src len s (s\<lparr>pi_pc := Loop_At skip\<rparr>)"
| pipe_item: "pi_pc s = Loop_At skip \<Longrightarrow> progress_buffer_loop_item E skip (pi_pb s) = Some (pc, e) \<Longrightarrow>
    reliable (pe_io E) \<Longrightarrow> pipe_step src len s (s\<lparr>pi_pb := e, pi_pc := pc\<rparr>)"
| pipe_pushed: "pi_pc s = Loop_Pushing \<Longrightarrow> progress_buffer_loop_pushed E (pi_pb s) = (pc, e) \<Longrightarrow>
    pipe_step src len s (s\<lparr>pi_pb := e, pi_pc := pc\<rparr>)"
| pipe_seek_begin: "pb_srcpad (pi_pb s) \<Longrightarrow> pi_seek s = No_Seek \<Longrightarrow> 0 \<le> ps_position k \<Longrightarrow> ps_position k < int len \<Longrightarrow>
    seek_begin k (pi_pb s) = (go, e) \<Longrightarrow>
    pipe_step src len s (s\<lparr>pi_pb := e, pi_seek := (if go then Seek_Begun k else No_Seek)\<rparr>)"
| pipe_seek_locked: "pi_seek s = Seek_Begun k \<Longrightarrow> pi_pc s \<in> {Loop_Stopped, Loop_Ready} \<Longrightarrow>
    seek_locked E k (pi_pb s) = Some (instant, e) \<Longrightarrow>
    pipe_step src len s (if instant then s\<lparr>pi_pb := seek_restart k e, pi_seek := No_Seek, pi_pc := Loop_Ready\<rparr>
                         else s\<lparr>pi_pb := e, pi_seek := Seek_Sent k\<rparr>)"
| pipe_seek_refused: "pi_seek s = Seek_Sent k \<Longrightarrow> \<not> js_is_seekable (pi_js s) \<Longrightarrow>
    pipe_step src len s (s\<lparr>pi_seek := Seek_Answered k False\<rparr>)"
| pipe_seek_upstream: "pi_seek s = Seek_Sent k \<Longrightarrow> js_is_seekable (pi_js s) \<Longrightarrow>
    java_seek_begin (upstream k) (pi_js s) = (True, js) \<Longrightarrow> deliver J E (new_outputs (pi_js s) js) (pi_pb s) = Some e \<Longrightarrow>
    pipe_step src len s (s\<lparr>pi_js := js, pi_pb := e, pi_seek := Seek_Upstream k\<rparr>)"
| pipe_seek_source: "pi_seek s = Seek_Upstream k \<Longrightarrow> pi_jpc s \<in> {Js_Stopped, Js_Ready} \<Longrightarrow>
    java_seek_end J (upstream k) (pi_js s) = (True, js) \<Longrightarrow> deliver J E (new_outputs (pi_js s) js) (pi_pb s) = Some e \<Longrightarrow>
    pipe_step src len s (s\<lparr>pi_js := js, pi_jpc := Js_Ready, pi_cursor := nat (ps_position k), pi_pb := e,
                           pi_seek := Seek_Answered k True\<rparr>)"
| pipe_seek_answered: "pi_seek s = Seek_Answered k ok \<Longrightarrow> seek_answered k ok (pi_pb s) = Some e \<Longrightarrow>
    pipe_step src len s (s\<lparr>pi_pb := seek_restart k e, pi_seek := No_Seek, pi_pc := Loop_Ready\<rparr>)"

inductive pipe_run :: "(nat \<Rightarrow> byte) \<Rightarrow> nat \<Rightarrow> pipe \<Rightarrow> bool" for src len where
  pipe_run_start: "pipe_run src len (pipe_init len seekable mime)"
| pipe_run_step: "pipe_run src len s \<Longrightarrow> pipe_step src len s s' \<Longrightarrow> pipe_run src len s'"

section \<open>The invariant\<close>

text \<open>The source's task will run again, or is about to finish a call that went well.\<close>

definition running :: "js_pc \<Rightarrow> JavaSource \<Rightarrow> bool" where
  "running pc e \<longleftrightarrow> (case pc of Js_Stopped \<Rightarrow> False | Js_Ready \<Rightarrow> js_srcresult e = GST_FLOW_OK | Js_Done r \<Rightarrow> r = GST_FLOW_OK)"

definition js_ok :: "nat \<Rightarrow> nat \<Rightarrow> nat \<Rightarrow> js_pc \<Rightarrow> JavaSource \<Rightarrow> bool" where
  "js_ok len next c pc e \<longleftrightarrow> js_mode e = MODE_DEFAULT \<and> js_size e = int len \<and> (\<not> js_is_seekable e \<longrightarrow> js_update e) \<and>
     (js_pending_event e \<in> {Ev_Stream_Start, Ev_Segment} \<longrightarrow> js_position e = int c \<and> c < len \<and> (js_update e \<longrightarrow> c = 0)) \<and>
     (js_pending_event e = Ev_Unknown \<and> running pc e \<longrightarrow> next = c \<and> js_position e = int c)"

definition seek_ok :: "nat \<Rightarrow> pipe_seek \<Rightarrow> JavaSource \<Rightarrow> bool" where
  "seek_ok len q e \<longleftrightarrow> (\<forall>k. seek_of q = Some k \<longrightarrow> 0 \<le> ps_position k \<and> ps_position k < int len) \<and>
     (case q of Seek_Upstream _ \<Rightarrow> js_is_seekable e | Seek_Answered _ ok \<Rightarrow> js_is_seekable e = ok | _ \<Rightarrow> True)"

text \<open>\<open>x\<close> is the position up to which the buffer has taken the stream.\<close>

definition pipe_ok :: "(nat \<Rightarrow> byte) \<Rightarrow> nat \<Rightarrow> nat \<Rightarrow> pipe \<Rightarrow> bool" where
  "pipe_ok src len x s \<longleftrightarrow> pb_ok src x (seek_of (pi_seek s)) (pi_pc s) (pi_pb s) \<and> x \<le> len \<and> pi_cursor s \<le> len \<and>
     js_ok len x (pi_cursor s) (pi_jpc s) (pi_js s) \<and> (js_update (pi_js s) \<longrightarrow> pb_cache_read_offset (pi_pb s) = 0) \<and>
     seek_ok len (pi_seek s) (pi_js s) \<and> (lock_free (pi_seek s) \<or> pi_pc s \<in> {Loop_Stopped, Loop_Ready})"

lemma seek_ok_cong: "js_is_seekable e' = js_is_seekable e \<Longrightarrow> seek_ok len q e' = seek_ok len q e"
  by (cases q) (simp_all add: seek_ok_def)

lemma plain_mode [simp]: "js_mode e = MODE_DEFAULT \<Longrightarrow> has_mode MODE_DEFAULT e" "js_mode e = MODE_DEFAULT \<Longrightarrow> \<not> has_mode MODE_HLS e"
  by (simp_all add: has_mode_def MODE_DEFAULT_def MODE_HLS_def)

lemma js_post_fields [simp]:
  "js_srcresult (js_post x e) = js_srcresult e" "js_pending_event (js_post x e) = js_pending_event e"
  "js_position (js_post x e) = js_position e" "js_size (js_post x e) = js_size e"
  "js_is_seekable (js_post x e) = js_is_seekable e" "js_update (js_post x e) = js_update e"
  "js_mode (js_post x e) = js_mode e" "js_log (js_post x e) = js_log e @ [x]" "js_mimetype (js_post x e) = js_mimetype e"
  "js_discont (js_post x e) = js_discont e" "js_rate (js_post x e) = js_rate e"
  by (simp_all add: js_post_def)

section \<open>The buffer's part\<close>

named_theorems offset_kept \<open>what leaves the start of the cache in place\<close>

lemma same_view_offset: "same_view e e' \<Longrightarrow> pb_cache_read_offset e' = pb_cache_read_offset e"
  by (simp add: same_view_def)

lemma signal_offset [simp]:
  "pb_cache_read_offset (signal_if (send_position_message E m e)) = pb_cache_read_offset e"
  "pb_cache_read_offset (measure_bandwidth E n e) = pb_cache_read_offset e"
  using same_view_offset same_view_message same_view_bandwidth by blast+

lemma sourcepad_offset [simp]: "pb_cache_read_offset (progress_buffer_create_sourcepad E e) = pb_cache_read_offset e"
  by (simp add: progress_buffer_create_sourcepad_def progress_buffer_activatemode_def progress_buffer_activatepush_src_def
      progress_buffer_activatepull_src_def reset_eos_def Let_def)

lemma chain_offset [offset_kept]:
  assumes "progress_buffer_chain E data offset e = Some (r, e')"
  shows "pb_cache_read_offset e' = pb_cache_read_offset e"
proof -
  have "pb_cache_read_offset f = pb_cache_read_offset e" if "enqueue_buffer E data offset e = Some (r, f)" for f
    using that by (auto simp: enqueue_buffer_cases Let_def split: if_splits)
  then show ?thesis
    using assms by (auto simp: progress_buffer_chain_def progress_buffer_enqueue_item_def split: bind_splits if_splits)
qed

lemma loop_end_offset [simp]: "pb_cache_read_offset (snd (loop_end r e)) = pb_cache_read_offset e"
  by (simp add: loop_end_def)

lemma loop_end_result: "loop_end r e = (pc, e') \<Longrightarrow> pb_cache_read_offset e' = pb_cache_read_offset e"
  by (auto simp: loop_end_def split: if_splits)

lemma item_offset [offset_kept]:
  assumes "progress_buffer_loop_item E skip e = Some (pc, e')"
  shows "pb_cache_read_offset e' = pb_cache_read_offset e"
proof -
  have ev: "pb_cache_read_offset e' = pb_cache_read_offset e" if "loop_event ev e = (pc, e')" for ev
    using loop_end_result that by (fastforce simp: loop_event_def progress_buffer_set_pending_event_def Let_def)
  have buf: "pb_cache_read_offset e' = pb_cache_read_offset e" if "loop_buffer E skip e = Some (pc, e')"
    using that by (auto simp: loop_buffer_def progress_buffer_set_pending_event_def Let_def split: bind_splits prod.splits if_splits)
  have fin: "pb_cache_read_offset e' = pb_cache_read_offset e" if "loop_end (pb_srcresult e) e = (pc, e')"
    by (rule loop_end_result [OF that])
  show ?thesis
  proof (cases "pb_srcresult e = GST_FLOW_OK")
    case False
    then show ?thesis using assms fin by (auto simp: progress_buffer_loop_item_def split: if_splits)
  next
    case True
    then show ?thesis
    proof (cases "pb_pending_src_event e")
      case None
      obtain c where "pb_cache e = Some c" using assms True None by (cases "pb_cache e") (simp_all add: progress_buffer_loop_item_def)
      then show ?thesis using assms True None buf by (auto simp: progress_buffer_loop_item_def split: if_splits)
    next
      case (Some x)
      then show ?thesis using assms True ev by (simp add: progress_buffer_loop_item_def)
    qed
  qed
qed

lemma pushed_offset [offset_kept]:
  "progress_buffer_loop_pushed E e = (pc, e') \<Longrightarrow> pb_cache_read_offset e' = pb_cache_read_offset e"
  by (auto simp: progress_buffer_loop_pushed_def split: if_splits dest: loop_end_result)

lemma seek_in_cache_offset [offset_kept]:
  "seek_in_cache k e = Some e' \<Longrightarrow> pb_cache_read_offset e' = pb_cache_read_offset e"
  by (auto simp: seek_in_cache_def progress_buffer_set_pending_event_def Let_def split: bind_splits)

lemma seek_begin_offset [offset_kept]:
  "seek_begin k e = (go, e') \<Longrightarrow> pb_cache_read_offset e' = pb_cache_read_offset e"
  by (auto simp: seek_begin_def split: if_splits)

lemma seek_locked_offset [offset_kept]:
  "seek_locked E k e = Some (i, e') \<Longrightarrow> pb_cache_read_offset e' = pb_cache_read_offset e"
  by (auto simp: seek_locked_def Let_def reset_eos_def progress_buffer_set_pending_event_def split: if_splits dest: seek_in_cache_offset)

lemma seek_answered_offset [offset_kept]:
  "seek_answered k ok e = Some e' \<Longrightarrow> pb_cache_read_offset e' = pb_cache_read_offset e"
  by (auto simp: seek_answered_def split: if_splits dest: seek_in_cache_offset)

lemma seek_restart_offset [simp]: "pb_cache_read_offset (seek_restart k e) = pb_cache_read_offset e"
  by (simp add: seek_restart_def)

section \<open>The source's part\<close>

lemma deliver_append:
  "deliver J E (xs @ ys) e = do { e \<leftarrow> deliver J E xs e; deliver J E ys e }"
  by (induction xs arbitrary: e) (simp_all split: Option.bind_split)

definition quiet_output :: "js_output \<Rightarrow> bool" where
  "quiet_output x \<longleftrightarrow> (case x of Jo_Segment _ _ _ \<Rightarrow> False | Jo_Buffer _ _ _ \<Rightarrow> False | Jo_Eos \<Rightarrow> False | _ \<Rightarrow> True)"

lemma quiet_outputs [simp]:
  "quiet_output Jo_Stream_Start" "quiet_output (Jo_Caps m)" "quiet_output Jo_Flush_Start" "quiet_output Jo_Flush_Stop"
  "quiet_output (Jo_Seek_Data p)" "quiet_output Jo_Start_Task" "\<not> quiet_output Jo_Eos"
  by (simp_all add: quiet_output_def)

lemma event_same_view:
  assumes "progress_buffer_sink_event E ev e = Some (r, e')" "ev \<noteq> Sink_Eos" "\<And>b u seg. ev \<noteq> Sink_Segment b u seg"
  shows "same_view e e'"
  using assms same_view_post [of "Po_Event (item_name ev)" e]
  by (cases ev) (auto simp: progress_buffer_sink_event_def serialized_def progress_buffer_enqueue_item_def split: if_splits)

lemma quiet_event: "quiet_output x \<Longrightarrow> sent_item x = Some ev \<Longrightarrow> ev \<noteq> Sink_Eos \<and> (\<forall>b u seg. ev \<noteq> Sink_Segment b u seg)"
  by (auto simp: quiet_output_def sent_item_def split: js_output.splits)

lemma receive_item:
  assumes "sent_item x = Some ev" "receive J E x e = Some e'"
  shows "\<exists>r. progress_buffer_sink_event E ev e = Some (r, e') \<and> (asked x \<longrightarrow> r = je_push_event J)"
proof -
  have "receive J E x e = do { (r, e) \<leftarrow> progress_buffer_sink_event E ev e;
        if asked x \<and> r \<noteq> je_push_event J then None else Some e }"
    using assms(1) by (cases x) (simp_all add: receive_def sent_item_def)
  moreover obtain r f where "progress_buffer_sink_event E ev e = Some (r, f)"
    using assms(2) calculation by (cases "progress_buffer_sink_event E ev e") auto
  ultimately have "progress_buffer_sink_event E ev e = Some (r, f)"
    "(if asked x \<and> r \<noteq> je_push_event J then None else Some f) = Some e'"
    using assms(2) by simp_all
  then show ?thesis by (simp split: if_splits)
qed

lemma receive_quiet:
  assumes "quiet_output x" "receive J E x e = Some e'"
  shows "same_view e e'"
proof (cases "sent_item x")
  case None
  then have "e' = e" using assms by (cases x) (simp_all add: receive_def quiet_output_def sent_item_def)
  then show ?thesis by simp
next
  case (Some ev)
  then show ?thesis using event_same_view quiet_event [OF assms(1) Some] receive_item [OF Some assms(2)] by blast
qed

lemma deliver_quiet: "list_all quiet_output xs \<Longrightarrow> deliver J E xs e = Some e' \<Longrightarrow> same_view e e'"
proof (induction xs arbitrary: e)
  case (Cons x xs)
  then obtain f where "receive J E x e = Some f" "deliver J E xs f = Some e'" by (auto split: bind_splits)
  then show ?case using Cons receive_quiet same_view_trans by simp blast
qed simp

lemma receive_eos:
  assumes "receive J E Jo_Eos e = Some e'" "pb_ok src x q pc e"
  shows "pb_ok src x q pc e' \<and> pb_cache_read_offset e' = pb_cache_read_offset e"
proof -
  obtain r where r: "progress_buffer_sink_event E Sink_Eos e = Some (r, e')"
    using receive_item [OF _ assms(1)] by (auto simp: sent_item_def)
  have "pb_ok src x q pc e'" using eos_ok [OF assms(2) r] .
  moreover have "pb_cache_read_offset e' = pb_cache_read_offset e"
    using r by (auto simp: eos_result with_eos_def Let_def split: if_splits)
  ultimately show ?thesis by simp
qed

text \<open>A segment of the source that starts where the cursor stands.\<close>

definition plain_segment :: "gdouble \<Rightarrow> nat \<Rightarrow> nat \<Rightarrow> bytes_segment" where
  "plain_segment rate c len = \<lparr>bs_rate = rate, bs_start = c, bs_stop = len, bs_position = c\<rparr>"

lemma receive_segment:
  assumes "receive J E (Jo_Segment update (plain_segment rate c len) t) e = Some e'" "pb_ok src x q pc e" "c < len" "len < 2 ^ 63"
    and "pe_cache E" "update \<Longrightarrow> c = 0 \<and> pb_cache_read_offset e = 0"
  shows "\<exists>y. pb_ok src y q pc e' \<and> y \<in> {x, c} \<and> (je_push_event J \<longrightarrow> y = c) \<and> (update \<longrightarrow> pb_cache_read_offset e' = 0)"
proof -
  let ?seg = "plain_segment rate c len"
  have r: "progress_buffer_sink_event E (Sink_Segment True update ?seg) e = Some (je_push_event J, e')"
    using receive_item [OF _ assms(1)] by (auto simp: sent_item_def asked_def)
  show ?thesis
  proof (cases "pb_eos e")
    case True
    then have "e' = e \<and> \<not> je_push_event J" using r by (simp add: progress_buffer_sink_event_def serialized_def)
    then show ?thesis using assms(2,6) by blast
  next
    case False
    have seg: "bs_start ?seg < bs_stop ?seg" "bs_stop ?seg < 2 ^ 63" "bs_position ?seg = bs_start ?seg"
        "update \<Longrightarrow> int (bs_start ?seg) = pb_cache_read_offset e"
      using assms(3,4,6) by (simp_all add: plain_segment_def)
    have h: "holds_stream src x e" using assms(2) by (simp add: pb_ok_def)
    obtain d where "e' = signal_if (send_position_message E True (with_segment ?seg d e))"
      using segment_result [OF h False assms(5) seg(1,2,4) r] by blast
    then have "pb_cache_read_offset e' = int c" by (simp add: with_segment_def plain_segment_def)
    moreover have "pb_ok src c q pc e'"
      using segment_ok [OF assms(2) False assms(5) seg(1,2,4) r] by (simp add: plain_segment_def)
    ultimately show ?thesis using assms(6) by auto
  qed
qed

lemma receive_buffer:
  assumes "receive J E (Jo_Buffer (map src [c..<c + n]) c d) e = Some e'" "pb_ok src c q pc e" "c + n < 2 ^ 63"
    and "reliable (pe_io E)" "\<not> pe_pull E"
  shows "pb_ok src (if je_push J = GST_FLOW_OK then c + n else c) q pc e' \<and> pb_cache_read_offset e' = pb_cache_read_offset e"
proof -
  obtain r f where rf: "progress_buffer_chain E (map src [c..<c + n]) c e = Some (r, f)"
    using assms(1) by (cases "progress_buffer_chain E (map src [c..<c + n]) c e") (auto simp: receive_def)
  then have "(if r = je_push J then Some f else None) = Some e'" using assms(1) by (simp add: receive_def)
  then have "progress_buffer_chain E (map src [c..<c + n]) c e = Some (je_push J, e')"
    using rf by (simp split: if_splits)
  then show ?thesis using chain_ok [OF assms(2,4,5,3)] chain_offset by blast
qed

text \<open>What a call of the source's task must keep of the source and the buffer.\<close>

definition body_kept :: "(nat \<Rightarrow> byte) \<Rightarrow> nat \<Rightarrow> push_seek option \<Rightarrow> loop_pc \<Rightarrow> nat \<Rightarrow> GstFlowReturn \<Rightarrow>
    JavaSource \<Rightarrow> ProgressBuffer \<Rightarrow> JavaSource \<Rightarrow> bool" where
  "body_kept src len q pc c r js e old \<longleftrightarrow> (\<exists>y \<le> len. pb_ok src y q pc e \<and> js_ok len y c (Js_Done r) js) \<and> c \<le> len \<and>
     (js_update js \<longrightarrow> pb_cache_read_offset e = 0) \<and> js_is_seekable js = js_is_seekable old"

lemma body_keptI:
  "pb_ok src y q pc e \<Longrightarrow> js_ok len y c (Js_Done r) js \<Longrightarrow> y \<le> len \<Longrightarrow> c \<le> len \<Longrightarrow>
   (js_update js \<Longrightarrow> pb_cache_read_offset e = 0) \<Longrightarrow> js_is_seekable js = js_is_seekable old \<Longrightarrow>
   body_kept src len q pc c r js e old"
  by (auto simp: body_kept_def)

lemma start_kept:
  assumes "js_ok len x c Js_Ready js" "js_pending_event js = Ev_Stream_Start" "js_send_stream_start J js = (r, js')"
    and "deliver J E (new_outputs js js') e = Some e'" "pb_ok src x q pc e" "x \<le> len" "c \<le> len"
    and "js_update js \<Longrightarrow> pb_cache_read_offset e = 0"
  shows "body_kept src len q pc c r js' e' js"
proof -
  have js': "js' = (js_post Jo_Stream_Start js)\<lparr>js_pending_event := Ev_Segment\<rparr>" "new_outputs js js' = [Jo_Stream_Start]"
    using assms(3) by (auto simp: js_send_stream_start_def new_outputs_def)
  then have v: "same_view e e'" using assms(4) deliver_quiet [of "[Jo_Stream_Start]"] by simp
  show ?thesis
    using assms(1,2,8) js' same_view_offset [OF v]
    by (intro body_keptI [OF pb_ok_view [OF assms(5) v] _ assms(6,7)]) (simp_all add: js_ok_def)
qed

lemma segment_kept:
  assumes "js_ok len x c Js_Ready js" "js_pending_event js = Ev_Segment" "js_send_segment J js = (r, js')"
    and "deliver J E (new_outputs js js') e = Some e'" "pb_ok src x q pc e" "x \<le> len" "c \<le> len"
    and "js_update js \<Longrightarrow> pb_cache_read_offset e = 0" "len < 2 ^ 63" "pe_cache E"
  shows "body_kept src len q pc c r js' e' js"
proof -
  have js: "js_mode js = MODE_DEFAULT" "js_position js = int c" "js_size js = int len" "c < len"
      "js_update js \<Longrightarrow> c = 0"
    using assms(1,2) by (auto simp: js_ok_def)
  let ?x = "Jo_Segment (js_update js) (plain_segment (js_rate js) c len) 0"
  have "nat (js_position js mod 2 ^ 64) = c" "nat (js_size js mod 2 ^ 64) = len" using js(2-4) assms(9) by simp_all
  then have js': "js' = (js_post ?x js)\<lparr>js_pending_event := Ev_Unknown\<rparr>" "r = flow_of (je_push_event J)"
      "new_outputs js js' = [?x]"
    using assms(3) js(1) by (auto simp: js_send_segment_def new_outputs_def plain_segment_def)
  have "receive J E ?x e = Some e'" using assms(4) js'(3) by (simp split: bind_splits)
  then obtain y where y: "pb_ok src y q pc e'" "y \<in> {x, c}" "je_push_event J \<longrightarrow> y = c"
      "js_update js \<longrightarrow> pb_cache_read_offset e' = 0"
    using receive_segment [OF _ assms(5) js(4) assms(9,10)] js(5) assms(8) by blast
  have "js_ok len y c (Js_Done r) js'"
    using assms(1) js js'(1,2) y(3) by (simp add: js_ok_def running_def flow_of_def)
  then show ?thesis
    using js'(1) y assms(6,7) by (intro body_keptI [OF y(1)]) auto
qed

lemma eos_kept:
  assumes "js_ok len x c' Js_Ready js" "js_send_eos (js\<lparr>js_pending_event := Ev_Eos\<rparr>) = (r, js')"
    and "deliver J E (new_outputs js js') e = Some e'" "pb_ok src x q pc e" "x \<le> len" "c \<le> len"
    and "js_update js \<Longrightarrow> pb_cache_read_offset e = 0"
  shows "body_kept src len q pc c r js' e' js"
proof -
  have js': "js' = js_post Jo_Eos (js\<lparr>js_pending_event := Ev_Eos\<rparr>)" "new_outputs js js' = [Jo_Eos]"
    using assms(2) by (auto simp: js_send_eos_def new_outputs_def)
  then have "receive J E Jo_Eos e = Some e'" using assms(3) by (simp split: bind_splits)
  from receive_eos [OF this assms(4)] show ?thesis
    using assms(1,5-7) js' by (intro body_keptI [of _ x]) (simp_all add: js_ok_def)
qed

text \<open>The source after it has pushed a block.\<close>

definition caps_of :: "JavaSource \<Rightarrow> js_output list" where
  "caps_of e = (case js_mimetype e of Some m \<Rightarrow> [Jo_Caps m] | None \<Rightarrow> [])"

lemma caps_quiet: "list_all quiet_output (caps_of e)"
  by (simp add: caps_of_def split: option.split)

lemma js_send_buffer_result:
  assumes "js_pending_event js = Ev_Unknown" "js_position js = int c" "c + n < 2 ^ 63"
  shows "\<exists>e1. js_send_buffer J (int n) js = (if je_push J = GST_FLOW_EOS then js_send_eos (e1\<lparr>js_pending_event := Ev_Eos\<rparr>) else (je_push J, e1)) \<and>
    js_log e1 = js_log js @ caps_of js @ [Jo_Buffer (je_copy J) c (js_discont js)] \<and> js_pending_event e1 = Ev_Unknown \<and>
    js_position e1 = int (c + n) \<and> js_mode e1 = js_mode js \<and> js_size e1 = js_size js \<and> js_update e1 = js_update js \<and>
    js_is_seekable e1 = js_is_seekable js"
proof -
  have "nat (int c mod 2 ^ 64) = c" "s64 (int c + int n) = int (c + n)" using assms(3) by simp_all
  then show ?thesis
    using assms(1,2) by (auto simp: js_send_buffer_def caps_of_def Let_def split: option.split)
qed

lemma buffer_kept:
  assumes "js_ok len x c Js_Ready js" "js_pending_event js = Ev_Unknown" "running Js_Ready js"
    and "js_send_buffer J (int n) js = (r, js')" "je_copy J = map src [c..<c + n]" "c + n \<le> len"
    and "deliver J E (new_outputs js js') e = Some e'" "pb_ok src x q pc e" "len < 2 ^ 63"
    and "js_update js \<Longrightarrow> pb_cache_read_offset e = 0" "reliable (pe_io E)" "\<not> pe_pull E"
  shows "body_kept src len q pc (c + n) r js' e' js"
proof -
  have js: "js_mode js = MODE_DEFAULT" "js_position js = int c" "js_size js = int len" "x = c"
      "\<not> js_is_seekable js \<longrightarrow> js_update js"
    using assms(1-3) by (auto simp: js_ok_def)
  let ?b = "Jo_Buffer (je_copy J) c (js_discont js)"
  have cn: "c + n < 2 ^ 63" using assms(6,9) by simp
  obtain e1 where e1: "js_send_buffer J (int n) js =
      (if je_push J = GST_FLOW_EOS then js_send_eos (e1\<lparr>js_pending_event := Ev_Eos\<rparr>) else (je_push J, e1))"
      "js_log e1 = js_log js @ caps_of js @ [?b]" "js_pending_event e1 = Ev_Unknown" "js_position e1 = int (c + n)"
      "js_mode e1 = js_mode js" "js_size e1 = js_size js" "js_update e1 = js_update js" "js_is_seekable e1 = js_is_seekable js"
    using js_send_buffer_result [OF assms(2) js(2) cn, of J] by blast
  define rest where "rest = (if je_push J = GST_FLOW_EOS then [Jo_Eos] else [])"
  have outs: "new_outputs js js' = (caps_of js @ [?b]) @ rest"
    using assms(4) e1 by (auto simp: new_outputs_def rest_def js_send_eos_def split: if_splits)
  obtain f g where f: "deliver J E (caps_of js) e = Some f" "receive J E ?b f = Some g" "deliver J E rest g = Some e'"
    using assms(7) unfolding outs deliver_append by (auto split: bind_splits)
  have v: "same_view e f" using deliver_quiet [OF caps_quiet f(1)] .
  then have "pb_ok src c q pc f" using pb_ok_view [OF assms(8)] js(4) by simp
  then have g: "pb_ok src (if je_push J = GST_FLOW_OK then c + n else c) q pc g"
      "pb_cache_read_offset g = pb_cache_read_offset e"
    using receive_buffer [OF _ _ cn assms(11,12)] f(2) assms(5) same_view_offset [OF v] by auto
  show ?thesis
  proof (cases "je_push J = GST_FLOW_EOS")
    case False
    then have "js' = e1" "r = je_push J" "e' = g" using assms(4) e1(1) f(3) by (simp_all add: rest_def)
    moreover have "js_ok len (if r = GST_FLOW_OK then c + n else c) (c + n) (Js_Done r) e1"
      using e1 js by (auto simp: js_ok_def running_def)
    ultimately show ?thesis
      using g assms(6,10) e1(7,8) by (intro body_keptI [of _ "if r = GST_FLOW_OK then c + n else c"]) auto
  next
    case True
    have "js_send_eos (e1\<lparr>js_pending_event := Ev_Eos\<rparr>) = (r, js')" using assms(4) e1(1) True by simp
    moreover have "new_outputs e1 js' = [Jo_Eos]"
      using calculation by (auto simp: js_send_eos_def new_outputs_def)
    moreover have "deliver J E [Jo_Eos] g = Some e'" using f(3) True by (simp add: rest_def)
    moreover have "js_ok len c (c + n) Js_Ready (e1\<lparr>js_pending_event := Ev_Eos\<rparr>)" using e1 js by (simp add: js_ok_def)
    ultimately show ?thesis
      using eos_kept [of len c "c + n" "e1\<lparr>js_pending_event := Ev_Eos\<rparr>" r js' J E g e' src q pc "c + n"] g True assms(6,10) e1(7,8)
      by (simp add: new_outputs_def body_kept_def)
  qed
qed

lemma data_kept:
  assumes "js_ok len x c Js_Ready js" "js_pending_event js = Ev_Unknown" "running Js_Ready js"
    and "js_send_data J js = (r, js')" "java_answers src len c J" "c \<le> len"
    and "deliver J E (new_outputs js js') e = Some e'" "pb_ok src x q pc e" "x \<le> len" "len < 2 ^ 63"
    and "js_update js \<Longrightarrow> pb_cache_read_offset e = 0" "reliable (pe_io E)" "\<not> pe_pull E"
  shows "body_kept src len q pc (c + nat (je_read_next J)) r js' e' js"
proof (cases "0 < je_read_next J")
  case True
  then obtain n where n: "je_read_next J = int n" "c + n \<le> len" "je_copy J = map src [c..<c + n]"
    using assms(5) by (auto simp: java_answers_def)
  have "js_send_buffer J (int n) js = (r, js')"
    using assms(4,5) True n(1) by (simp add: js_send_data_def java_answers_def)
  from buffer_kept [OF assms(1-3) this n(3,2) assms(7,8,10-13)] show ?thesis using n(1) by simp
next
  case False
  then have c: "c + nat (je_read_next J) = c" by simp
  have mode: "js_mode js = MODE_DEFAULT" using assms(1) by (simp add: js_ok_def)
  show ?thesis
  proof (cases "je_read_next J = EOS_CODE")
    case True
    then have eos: "js_send_eos (js\<lparr>js_pending_event := Ev_Eos\<rparr>) = (r, js')"
      using assms(4) mode by (simp add: js_send_data_def EOS_CODE_def)
    from eos_kept [OF assms(1) eos assms(7-9,6,11)] show ?thesis unfolding c .
  next
    case no_eos: False
    then have "js' = js" using assms(4) False by (auto simp: js_send_data_def split: if_splits)
    moreover have "e' = e" using assms(7) calculation by (simp add: new_outputs_def)
    moreover have "js_ok len x c (Js_Done r) js" using assms(1-3) by (simp add: js_ok_def)
    ultimately show ?thesis unfolding c using assms(6,8,9,11) by (intro body_keptI [of _ x]) simp_all
  qed
qed

lemma source_body_kept:
  assumes "js_ok len x c Js_Ready js" "java_source_loop_body J js = (r, js')" "java_answers src len c J" "c \<le> len"
    and "deliver J E (new_outputs js js') e = Some e'" "pb_ok src x q pc e" "x \<le> len" "len < 2 ^ 63"
    and "js_update js \<Longrightarrow> pb_cache_read_offset e = 0" "reliable (pe_io E)" "pe_cache E" "\<not> pe_pull E"
  shows "body_kept src len q pc (cursor_after J js c) r js' e' js"
proof (cases "js_srcresult js = GST_FLOW_OK")
  case False
  then have r: "r = js_srcresult js" "js' = js" using assms(2) unfolding java_source_loop_body_def by auto
  then have "e' = e" using assms(5) by (simp add: new_outputs_def)
  moreover have "js_ok len x c (Js_Done r) js" using assms(1) False r by (simp add: js_ok_def running_def)
  ultimately show ?thesis
    using assms(4,6,7,9) r(2) False by (intro body_keptI [of _ x]) (simp_all add: cursor_after_def)
next
  case True
  have body: "java_source_loop_body J js = (case js_pending_event js of Ev_Stream_Start \<Rightarrow> js_send_stream_start J js
      | Ev_Segment \<Rightarrow> js_send_segment J js | Ev_Eos \<Rightarrow> js_send_eos js | Ev_Unknown \<Rightarrow> js_send_data J js)"
    using True by (simp add: java_source_loop_body_def)
  show ?thesis
  proof (cases "js_pending_event js")
    case Ev_Unknown
    have "body_kept src len q pc (c + nat (je_read_next J)) r js' e' js"
      by (rule data_kept [OF assms(1) Ev_Unknown _ _ assms(3-10,12)])
        (use assms(2) body True Ev_Unknown in \<open>simp_all add: running_def\<close>)
    then show ?thesis using True Ev_Unknown by (simp add: cursor_after_def)
  next
    case Ev_Stream_Start
    have "body_kept src len q pc c r js' e' js"
      by (rule start_kept [OF assms(1) Ev_Stream_Start _ assms(5-7,4,9)]) (use assms(2) body Ev_Stream_Start in simp_all)
    then show ?thesis using Ev_Stream_Start by (simp add: cursor_after_def)
  next
    case Ev_Segment
    have "body_kept src len q pc c r js' e' js"
      by (rule segment_kept [OF assms(1) Ev_Segment _ assms(5-7,4,9,8,11)]) (use assms(2) body Ev_Segment in simp_all)
    then show ?thesis using Ev_Segment by (simp add: cursor_after_def)
  next
    case Ev_Eos
    have same: "js\<lparr>js_pending_event := Ev_Eos\<rparr> = js" using Ev_Eos by (cases js) simp
    have "js_send_eos js = (r, js')" using assms(2) body Ev_Eos by simp
    then have eos: "js_send_eos (js\<lparr>js_pending_event := Ev_Eos\<rparr>) = (r, js')" by (simp only: same)
    then have "body_kept src len q pc c r js' e' js"
      by (intro eos_kept [OF assms(1) eos assms(5-7,4)]) (rule assms(9))
    then show ?thesis using Ev_Eos by (simp add: cursor_after_def)
  qed
qed

section \<open>All steps\<close>

lemma js_ok_mono:
  assumes "js_ok len x c pc e" "js_mode e' = js_mode e" "js_size e' = js_size e" "js_is_seekable e' = js_is_seekable e"
    "js_update e' = js_update e" "js_pending_event e' = js_pending_event e" "js_position e' = js_position e"
    and "running pc' e' \<Longrightarrow> running pc e"
  shows "js_ok len x c pc' e'"
  using assms(1,8) unfolding js_ok_def assms(2-7) by blast

lemma source_end_ok:
  assumes "js_ok len x c (Js_Done r) e" "java_source_loop_end r e = (go, e')"
  shows "js_ok len x c (if go then Js_Ready else Js_Stopped) e'" "js_update e' = js_update e" "js_is_seekable e' = js_is_seekable e"
proof -
  have "(go \<longrightarrow> r = GST_FLOW_OK) \<and> js_mode e' = js_mode e \<and> js_size e' = js_size e \<and> js_is_seekable e' = js_is_seekable e \<and>
      js_update e' = js_update e \<and> js_pending_event e' = js_pending_event e \<and> js_position e' = js_position e"
    using assms(2) by (auto simp: java_source_loop_end_def split: if_splits)
  then show "js_ok len x c (if go then Js_Ready else Js_Stopped) e'" "js_update e' = js_update e" "js_is_seekable e' = js_is_seekable e"
    using js_ok_mono [OF assms(1), of e' "if go then Js_Ready else Js_Stopped"] by (auto simp: running_def split: if_splits)
qed

lemma seek_upstream_ok:
  assumes "js_ok len x c pc e" "java_seek_begin (upstream k) e = (True, e')"
  shows "js_ok len x c pc e'" "js_update e' = js_update e" "js_is_seekable e' = js_is_seekable e"
    "list_all quiet_output (new_outputs e e')"
proof -
  have mode: "js_mode e = MODE_DEFAULT" using assms(1) by (simp add: js_ok_def)
  have "js_ok len x c pc (f\<lparr>js_srcresult := GST_FLOW_FLUSHING\<rparr>)" if "js_ok len x c pc f" for f
    by (rule js_ok_mono [OF that]) (auto simp: running_def split: js_pc.splits)
  moreover have "js_ok len x c pc (js_post y e)" for y
    by (rule js_ok_mono [OF assms(1)]) (auto simp: running_def split: js_pc.splits)
  ultimately show "js_ok len x c pc e'"
    using assms mode by (auto simp: java_seek_begin_def upstream_def split: if_splits)
  show "js_update e' = js_update e" "js_is_seekable e' = js_is_seekable e" "list_all quiet_output (new_outputs e e')"
    using assms(2) mode by (auto simp: java_seek_begin_def upstream_def new_outputs_def split: if_splits)
qed

lemma seek_source_ok:
  assumes "js_ok len x c pc e" "js_is_seekable e" "java_seek_end J (upstream k) e = (True, e')"
    and "0 \<le> ps_position k" "ps_position k < int len"
  shows "js_ok len x (nat (ps_position k)) Js_Ready e'" "\<not> js_update e'" "js_is_seekable e'"
    "list_all quiet_output (new_outputs e e')"
proof -
  define g where "g = (js_post (Jo_Seek_Data (ps_position k)) e)\<lparr>js_rate := ps_rate k, js_pending_event := Ev_Segment,
      js_position := ps_position k, js_position_time := 0, js_discont := True, js_update := False, js_srcresult := GST_FLOW_OK\<rparr>"
  have mode: "js_mode e = MODE_DEFAULT" using assms(1) by (simp add: js_ok_def)
  have "java_seek_end J (upstream k) e =
      (if 0 \<le> je_seek J then (True, js_post Jo_Start_Task (if ps_flush k then js_post Jo_Flush_Stop g else g))
       else (False, snd (java_seek_end J (upstream k) e)))"
    using mode by (simp add: java_seek_end_def upstream_def g_def Let_def)
  then have e': "e' = js_post Jo_Start_Task (if ps_flush k then js_post Jo_Flush_Stop g else g)"
    using assms(3) by (cases "0 \<le> je_seek J") simp_all
  have g: "js_mode g = MODE_DEFAULT" "js_size g = js_size e" "js_is_seekable g" "\<not> js_update g" "js_pending_event g = Ev_Segment"
      "js_position g = ps_position k" "js_log g = js_log e @ [Jo_Seek_Data (ps_position k)]"
    using mode assms(2) by (simp_all add: g_def)
  then show "js_ok len x (nat (ps_position k)) Js_Ready e'" "\<not> js_update e'" "js_is_seekable e'"
    "list_all quiet_output (new_outputs e e')"
    unfolding e' using assms(1,4,5) by (simp_all add: js_ok_def new_outputs_def nat_less_iff)
qed

lemma pipe_step_ok:
  assumes "pipe_step src len s s'" "pipe_ok src len x s" "len < 2 ^ 63"
  shows "\<exists>y. pipe_ok src len y s'"
  using assms(1)
proof (cases rule: pipe_step.cases)
  case (pipe_source_body J r js E e)
  have b: "body_kept src len (seek_of (pi_seek s)) (pi_pc s) (cursor_after J (pi_js s) (pi_cursor s)) r js e (pi_js s)"
    by (rule source_body_kept [where x = x and e = "pi_pb s"]) (use pipe_source_body assms(2,3) in \<open>simp_all add: pipe_ok_def\<close>)
  then obtain y where y: "y \<le> len" "pb_ok src y (seek_of (pi_seek s)) (pi_pc s) e"
      "js_ok len y (cursor_after J (pi_js s) (pi_cursor s)) (Js_Done r) js"
    unfolding body_kept_def by blast
  have "seek_ok len (pi_seek s) js = seek_ok len (pi_seek s) (pi_js s)"
    using b by (intro seek_ok_cong) (simp add: body_kept_def)
  then show ?thesis
    using assms(2) b y pipe_source_body(1) by (intro exI [of _ y]) (simp add: body_kept_def pipe_ok_def)
next
  case (pipe_source_end r go js)
  then show ?thesis
    using assms(2) source_end_ok [of len x "pi_cursor s" r "pi_js s" go js] seek_ok_cong [of js "pi_js s" len]
    by (intro exI [of _ x]) (simp add: pipe_ok_def)
next
  case (pipe_item skip E pc e)
  then show ?thesis
    using assms(2) item_ok [of src x "seek_of (pi_seek s)" skip "pi_pb s" E pc e] item_offset [of E skip "pi_pb s" pc e]
    by (intro exI [of _ x]) (simp add: pipe_ok_def)
next
  case (pipe_pushed E pc e)
  then show ?thesis
    using assms(2) pushed_ok [of src x "seek_of (pi_seek s)" "pi_pb s" E pc e] pushed_offset [of E "pi_pb s" pc e]
    by (intro exI [of _ x]) (simp add: pipe_ok_def)
next
  case (pipe_seek_begin k go e)
  have "pb_ok src x (if go then Some k else None) (pi_pc s) e"
    by (rule seek_begin_ok [OF _ pipe_seek_begin(4) _ pipe_seek_begin(2,6)])
      (use pipe_seek_begin assms(2,3) in \<open>simp_all add: pipe_ok_def seek_of_def\<close>)
  then show ?thesis
    using assms(2) pipe_seek_begin seek_begin_offset [of k "pi_pb s" go e]
    by (intro exI [of _ x]) (cases go; simp add: pipe_ok_def seek_ok_def seek_of_def lock_free_def)
next
  case (pipe_seek_locked k E instant e)
  then have "pb_ok src x (Some k) (if instant then Loop_Ready else pi_pc s) e"
    using assms(2) seek_locked_ok [of src x k "pi_pc s" "pi_pb s" E instant e] by (simp add: pipe_ok_def seek_of_def)
  then show ?thesis
    using assms(2) pipe_seek_locked seek_locked_offset [of E k "pi_pb s" instant e]
      seek_restart_ok [OF pb_ok_forget, of src x "Some k" Loop_Ready e k]
    by (intro exI [of _ x]) (auto simp: pipe_ok_def seek_ok_def seek_of_def lock_free_def)
next
  case (pipe_seek_refused k)
  then show ?thesis
    using assms(2) by (intro exI [of _ x]) (simp add: pipe_ok_def seek_ok_def seek_of_def lock_free_def)
next
  case (pipe_seek_upstream k js J E e)
  have j: "js_ok len x (pi_cursor s) (pi_jpc s) (pi_js s)" using assms(2) by (simp add: pipe_ok_def)
  note up = seek_upstream_ok [OF j pipe_seek_upstream(4)]
  have v: "same_view (pi_pb s) e" using deliver_quiet [OF up(4) pipe_seek_upstream(5)] .
  show ?thesis
    using assms(2) pipe_seek_upstream(1-3) up(1-3) same_view_offset [OF v] pb_ok_view [OF _ v]
    by (intro exI [of _ x]) (simp add: pipe_ok_def seek_ok_def seek_of_def lock_free_def)
next
  case (pipe_seek_source k J js E e)
  have j: "js_ok len x (pi_cursor s) (pi_jpc s) (pi_js s)" "js_is_seekable (pi_js s)" "0 \<le> ps_position k" "ps_position k < int len"
    using assms(2) pipe_seek_source(2) by (simp_all add: pipe_ok_def seek_ok_def seek_of_def)
  note so = seek_source_ok [OF j(1,2) pipe_seek_source(4) j(3,4)]
  have v: "same_view (pi_pb s) e" using deliver_quiet [OF so(4) pipe_seek_source(5)] .
  show ?thesis
    using assms(2) pipe_seek_source(1,2) so(1-3) pb_ok_view [OF _ v] j(3,4)
    by (intro exI [of _ x]) (simp add: pipe_ok_def seek_ok_def seek_of_def lock_free_def)
next
  case (pipe_seek_answered k ok e)
  have "pb_cache_read_offset (pi_pb s) \<le> ps_position k" if "\<not> ok"
    using assms(2) pipe_seek_answered(2) that by (simp add: pipe_ok_def js_ok_def seek_ok_def seek_of_def)
  then have "pb_ok src x None Loop_Ready e"
    using assms(2) pipe_seek_answered(2) seek_answered_ok [OF _ pipe_seek_answered(3), of src x "pi_pc s"]
    by (auto simp: pipe_ok_def seek_of_def lock_free_def)
  then show ?thesis
    using assms(2) pipe_seek_answered(1) seek_answered_offset [OF pipe_seek_answered(3)]
    by (intro exI [of _ x]) (simp add: pipe_ok_def seek_ok_def seek_of_def seek_restart_ok lock_free_def)
next
  case pipe_start
  then show ?thesis
    using assms(2) task_moves(1) by (intro exI [of _ x]) (simp add: pipe_ok_def)
next
  case pipe_call
  then show ?thesis
    using assms(2) task_moves(2) by (intro exI [of _ x]) (simp add: pipe_ok_def)
next
  case (pipe_wake skip)
  then show ?thesis
    using assms(2) task_moves(3) by (intro exI [of _ x]) (simp add: pipe_ok_def)
qed

lemma pipe_init_ok: "0 < len \<Longrightarrow> pipe_ok src len 0 (pipe_init len seekable mime)"
  by (simp add: pipe_ok_def pipe_init_def pipe_source_def java_source_change_state_def java_source_set_property_def
      java_source_init_def js_ok_def seek_ok_def seek_of_def lock_free_def running_def has_mode_def MODE_DEFAULT_def MODE_HLS_def
      progress_buffer_init_def progress_buffer_flush_data_def pb_ok_def holds_stream_def good_log_def faithful_def
      in_step_def next_segment_def sending_def)

lemma pipe_run_ok:
  assumes "pipe_run src len s" "0 < len" "len < 2 ^ 63"
  shows "\<exists>x. pipe_ok src len x s"
  using assms(1)
proof (induction rule: pipe_run.induct)
  case (pipe_run_start seekable mime)
  show ?case using pipe_init_ok [OF assms(2)] by blast
next
  case (pipe_run_step s s')
  then show ?case using pipe_step_ok [OF _ _ assms(3)] by blast
qed

text \<open>A run does not depend on what the stream would hold after its end.\<close>

lemma pipe_run_bounded:
  assumes "pipe_run src len s" "\<And>i. i < len \<Longrightarrow> src i = src' i"
  shows "pipe_run src' len s"
  using assms(1)
proof (induction rule: pipe_run.induct)
  case (pipe_run_start seekable mime)
  show ?case by (rule pipe_run.pipe_run_start)
next
  case (pipe_run_step s s')
  have "map src [c..<c + n] = map src' [c..<c + n]" if "c + n \<le> len" for c n
    using assms(2) that by simp
  then have "java_answers src len c J = java_answers src' len c J" for c J
    by (auto simp: java_answers_def)
  then have "pipe_step src len s s' = pipe_step src' len s s'"
    by (subst (1 2) pipe_step.simps) simp
  then show ?case using pipe_run_step pipe_run.pipe_run_step by blast
qed

lemma pipe_buffer_inside:
  assumes "pipe_run src len s" "0 < len" "len < 2 ^ 63" "Po_Buffer data offset \<in> set (pb_log (pi_pb s))" "data \<noteq> []"
  shows "offset + length data \<le> len"
proof (rule ccontr)
  assume beyond: "\<not> offset + length data \<le> len"
  define last where "last = offset + length data - 1"
  define src' where "src' = (\<lambda>i. if i < len then src i else src i + 1)"
  have "faithful f (pb_log (pi_pb s))" if "f \<in> {src, src'}" for f
  proof -
    have "pipe_run f len s" using pipe_run_bounded [OF assms(1), of f] that assms(1) by (auto simp: src'_def)
    then show ?thesis using pipe_run_ok [OF _ assms(2,3)] by (auto simp: pipe_ok_def pb_ok_def good_log_def)
  qed
  then have "map src [offset..<offset + length data] = map src' [offset..<offset + length data]"
    using assms(4) by (simp add: faithful_def)
  moreover have "last \<in> set [offset..<offset + length data]" using assms(5) by (cases data) (simp_all add: last_def)
  ultimately have "src last = src' last" by (simp del: set_upt)
  moreover have "\<not> last < len" using beyond by (simp add: last_def)
  ultimately show False by (simp add: src'_def)
qed

text \<open>
  C7: the source and the buffer together deliver the stream. For every interleaving of the two tasks and the seeks of the
  application, whether served from the cache or by the connection, each block that is sent downstream holds the bytes of the
  file at its offset; the blocks jump at most once for each segment that an end of the stream made the buffer forget before
  it was announced, and as long as none was, the blocks are in order from the last announced segment on.
\<close>

theorem pipe_delivers_file:
  assumes "pipe_run ((!) file) (length file) s" "file \<noteq> []" "length file < 2 ^ 63"
  shows "(\<forall>data offset. Po_Buffer data offset \<in> set (pb_log (pi_pb s)) \<longrightarrow> data = take (length data) (drop offset file)) \<and>
    gaps None (pb_log (pi_pb s)) \<le> pb_lost (pi_pb s) \<and> (pb_lost (pi_pb s) = 0 \<longrightarrow> ordered None (pb_log (pi_pb s)))"
proof -
  have len: "0 < length file" using assms(2) by simp
  then have good: "good_log ((!) file) (pb_lost (pi_pb s)) (pb_log (pi_pb s))"
    using pipe_run_ok [OF assms(1) _ assms(3)] by (auto simp: pipe_ok_def pb_ok_def)
  have "data = take (length data) (drop offset file)" if b: "Po_Buffer data offset \<in> set (pb_log (pi_pb s))" for data offset
  proof (cases "data = []")
    case False
    have "offset + length data \<le> length file" by (rule pipe_buffer_inside [OF assms(1) len assms(3) b False])
    then have "map ((!) file) [offset..<offset + length data] = take (length data) (drop offset file)"
      by (intro nth_equalityI) simp_all
    then show ?thesis using good b by (simp add: good_log_def faithful_def)
  qed simp
  then show ?thesis using good no_gaps by (auto simp: good_log_def)
qed

section \<open>A small run\<close>

text \<open>A file of three bytes on a seekable connection that gives it out in one block; nothing fails.\<close>

definition file_of_three :: "byte list" where "file_of_three = [7, 8, 9]"

definition one_block :: java_env where
  "one_block = java_calm\<lparr>je_read_next := 3, je_copy := file_of_three\<rparr>"

definition at_end :: java_env where
  "at_end = java_calm\<lparr>je_read_next := EOS_CODE\<rparr>"

text \<open>No position is close enough to wait for it.\<close>

definition far_env :: pb_env where
  "far_env = calm_env\<lparr>pe_ops := (pe_ops calm_env)\<lparr>op_tolerable := \<lambda>_ _ _. False\<rparr>\<rparr>"

definition small_segment :: bytes_segment where
  "small_segment = plain_segment 0x3FF0000000000000 0 3"

definition small_source :: "js_event \<Rightarrow> int \<Rightarrow> js_output list \<Rightarrow> JavaSource" where
  "small_source ev position log = \<lparr>js_srcresult = GST_FLOW_OK, js_pending_event = ev, js_position = position, js_position_time = 0,
     js_size = 3, js_is_seekable = True, js_is_random_access = False, js_update = True, js_discont = False,
     js_mode = MODE_DEFAULT, js_stop_on_pause = False, js_location = None, js_mimetype = None,
     js_rate = 0x3FF0000000000000, js_log = log\<rparr>"

definition small_open :: ProgressBuffer where
  "small_open = progress_buffer_init\<lparr>pb_cache := Some create_cache, pb_sink_segment := small_segment, pb_instant_seek := True,
     pb_pending_src_event := Some (Src_Segment small_segment), pb_log := [Po_Message 0 0 3 False, Po_Signal]\<rparr>"

definition small_loaded :: ProgressBuffer where
  "small_loaded = small_open\<lparr>pb_srcpad := True, pb_cache := Some \<lparr>cc_file = [7, 8, 9], cc_read_handle = 0, cc_write_handle = 3,
       read_position = 0, write_position = 3\<rparr>,
     pb_sink_segment := small_segment\<lparr>bs_position := 3\<rparr>, pb_subtotal := 3, pb_signal_limit := 1,
     pb_log := pb_log small_open @ [Po_Add_Pad, Po_Start_Task, Po_No_More_Pads]\<rparr>"

lemma far_env_fields [simp]:
  "pe_io far_env = calm_io" "pe_cache far_env" "\<not> pe_pull far_env" "pe_linked far_env" "pe_event far_env" "pe_push far_env = GST_FLOW_OK"
  "op_percent (pe_ops far_env) a b = 0" "\<not> op_beyond (pe_ops far_env) x y z" "\<not> op_over_second (pe_ops far_env) x"
  "\<not> op_tolerable (pe_ops far_env) i x y" "reliable calm_io"
  using calm_reliable by (simp_all add: far_env_def calm_env_def)

lemma small_open_step:
  "progress_buffer_sink_event far_env (Sink_Segment True True small_segment) progress_buffer_init = Some (True, small_open)"
  by (simp add: small_open_def progress_buffer_sink_event_def serialized_def small_segment_def plain_segment_def
    progress_buffer_enqueue_item_def enqueue_segment_def sub64_def progress_buffer_init_def progress_buffer_flush_data_def
    progress_buffer_set_pending_event_def signal_if_def send_position_message_def post_def Let_def)

lemma small_loaded_step: "progress_buffer_chain far_env file_of_three 0 small_open = Some (GST_FLOW_OK, small_loaded)"
  by (simp add: small_loaded_def small_open_def progress_buffer_chain_def progress_buffer_enqueue_item_def enqueue_buffer_def
    small_segment_def plain_segment_def file_of_three_def calm_io_def progress_buffer_init_def progress_buffer_flush_data_def signal_if_def
    send_position_message_def post_def progress_buffer_create_sourcepad_def progress_buffer_activatemode_def
    progress_buffer_activatepush_src_def add64_def measure_bandwidth_def cache_write_buffer_def posix_write_def file_put_def
    create_cache_def upt_rec reset_eos_def EOS_SIGNAL_LIMIT_def)

definition small_pipe :: "JavaSource \<Rightarrow> nat \<Rightarrow> ProgressBuffer \<Rightarrow> loop_pc \<Rightarrow> pipe_seek \<Rightarrow> pipe" where
  "small_pipe js c e pc q = \<lparr>pi_js = js, pi_jpc = Js_Ready, pi_cursor = c, pi_pb = e, pi_pc = pc, pi_seek = q\<rparr>"

text \<open>One whole call of the source's task that goes well.\<close>

lemma source_call:
  assumes "pipe_run ((!) file_of_three) 3 (small_pipe js c e pc q)" "java_source_loop_body J js = (GST_FLOW_OK, js')"
    "java_answers ((!) file_of_three) 3 c J" "deliver J far_env (new_outputs js js') e = Some e'"
    "js_srcresult js' = GST_FLOW_OK"
  shows "pipe_run ((!) file_of_three) 3 (small_pipe js' (cursor_after J js c) e' pc q)"
proof -
  let ?s = "small_pipe js c e pc q"
  let ?t = "?s\<lparr>pi_js := js', pi_jpc := Js_Done GST_FLOW_OK, pi_cursor := cursor_after J js c, pi_pb := e'\<rparr>"
  have "pipe_step ((!) file_of_three) 3 ?s (?s\<lparr>pi_js := js', pi_jpc := Js_Done GST_FLOW_OK,
      pi_cursor := cursor_after J (pi_js ?s) (pi_cursor ?s), pi_pb := e'\<rparr>)"
    by (rule pipe_step.pipe_source_body [where E = far_env]) (use assms(2-4) in \<open>simp_all add: small_pipe_def\<close>)
  then have "pipe_run ((!) file_of_three) 3 ?t"
    using pipe_run.pipe_run_step [OF assms(1)] by (simp add: small_pipe_def)
  moreover have "java_source_loop_end GST_FLOW_OK js' = (True, js')"
    using assms(5) by (simp add: java_source_loop_end_def)
  then have "pipe_step ((!) file_of_three) 3 ?t (?t\<lparr>pi_js := js', pi_jpc := Js_Ready\<rparr>)"
    using pipe_step.pipe_source_end [of ?t GST_FLOW_OK True js' "(!) file_of_three" 3] by (simp add: small_pipe_def)
  ultimately show ?thesis using pipe_run.pipe_run_step by (fastforce simp: small_pipe_def)
qed

definition small_log :: "js_output list" where
  "small_log = [Jo_Stream_Start, Jo_Segment True small_segment 0, Jo_Buffer file_of_three 0 False]"

lemma small_outputs:
  "new_outputs (small_source Ev_Stream_Start 0 []) (small_source Ev_Segment 0 [Jo_Stream_Start]) = [Jo_Stream_Start]"
  "new_outputs (small_source Ev_Segment 0 [Jo_Stream_Start]) (small_source Ev_Unknown 0 [Jo_Stream_Start, Jo_Segment True small_segment 0]) =
     [Jo_Segment True small_segment 0]"
  "new_outputs (small_source Ev_Unknown 0 [Jo_Stream_Start, Jo_Segment True small_segment 0]) (small_source Ev_Unknown 3 small_log) =
     [Jo_Buffer file_of_three 0 False]"
  "new_outputs (small_source Ev_Unknown 3 small_log) (small_source Ev_Eos 3 (small_log @ [Jo_Eos])) = [Jo_Eos]"
  by (simp_all add: new_outputs_def small_source_def small_log_def)

lemma small_bodies:
  "java_source_loop_body java_calm (small_source Ev_Stream_Start 0 []) = (GST_FLOW_OK, small_source Ev_Segment 0 [Jo_Stream_Start])"
  "java_source_loop_body java_calm (small_source Ev_Segment 0 [Jo_Stream_Start]) =
     (GST_FLOW_OK, small_source Ev_Unknown 0 [Jo_Stream_Start, Jo_Segment True small_segment 0])"
  "java_source_loop_body one_block (small_source Ev_Unknown 0 [Jo_Stream_Start, Jo_Segment True small_segment 0]) =
     (GST_FLOW_OK, small_source Ev_Unknown 3 small_log)"
  "java_source_loop_body at_end (small_source Ev_Unknown 3 small_log) = (GST_FLOW_EOS, small_source Ev_Eos 3 (small_log @ [Jo_Eos]))"
  by (simp_all add: java_source_loop_body_def js_send_stream_start_def js_send_segment_def js_send_data_def js_send_buffer_def
      js_send_eos_def small_source_def js_post_def flow_of_def has_mode_def MODE_DEFAULT_def MODE_HLS_def small_segment_def plain_segment_def
      small_log_def one_block_def at_end_def java_calm_def EOS_CODE_def)

lemma small_deliveries:
  "deliver java_calm far_env [Jo_Stream_Start] progress_buffer_init = Some progress_buffer_init"
  "deliver java_calm far_env [Jo_Segment True small_segment 0] progress_buffer_init = Some small_open"
  "deliver one_block far_env [Jo_Buffer file_of_three 0 False] small_open = Some small_loaded"
  using small_open_step small_loaded_step
  by (simp_all add: receive_def sent_item_def asked_def progress_buffer_sink_event_def serialized_def progress_buffer_enqueue_item_def
      one_block_def java_calm_def progress_buffer_init_def progress_buffer_flush_data_def)

lemma small_answers:
  "java_answers ((!) file_of_three) 3 c java_calm" "java_answers ((!) file_of_three) 3 0 one_block" "java_answers ((!) file_of_three) 3 c at_end"
  by (auto simp: java_answers_def one_block_def at_end_def java_calm_def file_of_three_def upt_rec EOS_CODE_def intro: exI [of _ "3::nat"])

lemma small_fields [simp]: "js_srcresult (small_source ev p l) = GST_FLOW_OK" "js_pending_event (small_source ev p l) = ev"
  "js_is_seekable (small_source ev p l)" "je_read_next one_block = 3"
  by (simp_all add: small_source_def one_block_def)

lemma small_loaded_run:
  "pipe_run ((!) file_of_three) 3 (small_pipe (small_source Ev_Unknown 3 small_log) 3 small_loaded Loop_Stopped No_Seek)"
proof -
  let ?run = "\<lambda>js c e. pipe_run ((!) file_of_three) 3 (small_pipe js c e Loop_Stopped No_Seek)"
  have "pipe_init 3 True None = small_pipe (small_source Ev_Stream_Start 0 []) 0 progress_buffer_init Loop_Stopped No_Seek"
    by (simp add: pipe_init_def small_pipe_def small_source_def pipe_source_def java_source_change_state_def
        java_source_set_property_def java_source_init_def has_mode_def MODE_DEFAULT_def MODE_HLS_def)
  then have "?run (small_source Ev_Stream_Start 0 []) 0 progress_buffer_init"
    using pipe_run.pipe_run_start [of "(!) file_of_three" 3 True None] by simp
  from source_call [OF this small_bodies(1) small_answers(1), unfolded small_outputs, OF small_deliveries(1)]
  have "?run (small_source Ev_Segment 0 [Jo_Stream_Start]) 0 progress_buffer_init"
    by (simp add: cursor_after_def)
  from source_call [OF this small_bodies(2) small_answers(1), unfolded small_outputs, OF small_deliveries(2)]
  have "?run (small_source Ev_Unknown 0 [Jo_Stream_Start, Jo_Segment True small_segment 0]) 0 small_open"
    by (simp add: cursor_after_def)
  from source_call [OF this small_bodies(3) small_answers(2), unfolded small_outputs, OF small_deliveries(3)] show ?thesis
    by (simp add: cursor_after_def)
qed

text \<open>The buffer's task announces the segment and sends the bytes.\<close>

definition small_announced :: ProgressBuffer where
  "small_announced = small_loaded\<lparr>pb_pending_src_event := None, pb_log := pb_log small_loaded @ [Po_Item (Src_Segment small_segment)]\<rparr>"

definition small_handed :: ProgressBuffer where
  "small_handed = small_announced\<lparr>pb_pending_src_event := Some Src_Eos,
     pb_cache := Some \<lparr>cc_file = [7, 8, 9], cc_read_handle = 3, cc_write_handle = 3, read_position = 3, write_position = 3\<rparr>,
     pb_log := pb_log small_announced @ [Po_Buffer [7, 8, 9] 0]\<rparr>"

lemma small_task_steps:
  "progress_buffer_loop_item far_env False small_loaded = Some (Loop_Ready, small_announced)"
  "progress_buffer_loop_item far_env False small_announced = Some (Loop_Pushing, small_handed)"
  by (simp_all add: small_handed_def small_announced_def small_loaded_def small_open_def small_segment_def plain_segment_def
      progress_buffer_loop_item_def loop_event_def loop_end_def loop_buffer_def
      cache_has_enough_data_def cache_read_buffer_def posix_read_def calm_io_def DEFAULT_BUFFER_SIZE_def sub64_def
      progress_buffer_set_pending_event_def progress_buffer_init_def progress_buffer_flush_data_def post_def)

lemma task_call:
  assumes "pipe_run ((!) file_of_three) 3 (small_pipe js c e Loop_Ready No_Seek)"
    "progress_buffer_loop_item far_env False e = Some (pc, e')"
  shows "pipe_run ((!) file_of_three) 3 (small_pipe js c e' pc No_Seek)"
proof -
  have "pipe_step ((!) file_of_three) 3 (small_pipe js c e Loop_Ready No_Seek) (small_pipe js c e (Loop_At False) No_Seek)"
    using pipe_step.pipe_call [of "small_pipe js c e Loop_Ready No_Seek"] by (simp add: small_pipe_def lock_free_def)
  moreover have "pipe_step ((!) file_of_three) 3 (small_pipe js c e (Loop_At False) No_Seek) (small_pipe js c e' pc No_Seek)"
    using pipe_step.pipe_item [of "small_pipe js c e (Loop_At False) No_Seek" False far_env pc e'] assms(2)
    by (simp add: small_pipe_def)
  ultimately show ?thesis using assms(1) pipe_run.pipe_run_step by blast
qed

lemma small_handed_run:
  "pipe_run ((!) file_of_three) 3 (small_pipe (small_source Ev_Unknown 3 small_log) 3 small_handed Loop_Pushing No_Seek)"
proof -
  have "pipe_step ((!) file_of_three) 3 (small_pipe (small_source Ev_Unknown 3 small_log) 3 small_loaded Loop_Stopped No_Seek)
      (small_pipe (small_source Ev_Unknown 3 small_log) 3 small_loaded Loop_Ready No_Seek)"
    using pipe_step.pipe_start [of "small_pipe (small_source Ev_Unknown 3 small_log) 3 small_loaded Loop_Stopped No_Seek"]
    by (simp add: small_pipe_def small_loaded_def)
  from task_call [OF task_call [OF pipe_run.pipe_run_step [OF small_loaded_run this] small_task_steps(1)] small_task_steps(2)]
  show ?thesis .
qed

theorem pipe_delivers_file_witness:
  "Po_Buffer [7, 8, 9] 0 \<in> set (pb_log small_handed) \<and> pb_lost small_handed = 0 \<and> ordered None (pb_log small_handed)"
proof -
  have "length file_of_three = 3" "file_of_three \<noteq> []" by (simp_all add: file_of_three_def)
  moreover have "pb_lost small_handed = 0"
    by (simp add: small_handed_def small_announced_def small_loaded_def small_open_def progress_buffer_init_def progress_buffer_flush_data_def)
  ultimately have "ordered None (pb_log small_handed) \<and> pb_lost small_handed = 0"
    using pipe_delivers_file [of file_of_three "small_pipe (small_source Ev_Unknown 3 small_log) 3 small_handed Loop_Pushing No_Seek"]
      small_handed_run by (simp add: small_pipe_def)
  then show ?thesis by (simp add: small_handed_def)
qed

text \<open>
  The connection may be faster than the buffer's task: when it ends the stream before the task has announced the segment, the
  block goes out with no segment before it.
\<close>

definition small_cut :: ProgressBuffer where
  "small_cut = small_loaded\<lparr>pb_eos := True, pb_lost := 1, pb_pending_src_event := None,
     pb_log := pb_log small_loaded @ [Po_Message 0 3 3 True, Po_Signal]\<rparr>"

definition small_unannounced :: ProgressBuffer where
  "small_unannounced = small_cut\<lparr>pb_pending_src_event := Some Src_Eos,
     pb_cache := Some \<lparr>cc_file = [7, 8, 9], cc_read_handle = 3, cc_write_handle = 3, read_position = 3, write_position = 3\<rparr>,
     pb_log := pb_log small_cut @ [Po_Buffer [7, 8, 9] 0]\<rparr>"

lemma small_cut_steps:
  "deliver at_end far_env [Jo_Eos] small_loaded = Some small_cut"
  "progress_buffer_loop_item far_env False small_cut = Some (Loop_Pushing, small_unannounced)"
  by (simp_all add: receive_def sent_item_def asked_def eos_result with_eos_def segment_pending_def small_cut_def small_unannounced_def
      small_loaded_def small_open_def small_segment_def plain_segment_def signal_if_def send_position_message_def
      progress_buffer_loop_item_def loop_buffer_def cache_has_enough_data_def cache_read_buffer_def posix_read_def calm_io_def
      DEFAULT_BUFFER_SIZE_def sub64_def progress_buffer_set_pending_event_def progress_buffer_init_def progress_buffer_flush_data_def post_def)

lemma block_unannounced:
  "\<exists>s. pipe_run ((!) file_of_three) 3 s \<and> gaps None (pb_log (pi_pb s)) = 1 \<and> pb_lost (pi_pb s) = 1"
proof -
  let ?js = "small_source Ev_Unknown 3 small_log" and ?js' = "small_source Ev_Eos 3 (small_log @ [Jo_Eos])"
  let ?at = "\<lambda>e pc. (small_pipe ?js' 3 e pc No_Seek)\<lparr>pi_jpc := Js_Done GST_FLOW_EOS\<rparr>"
  have "pipe_step ((!) file_of_three) 3 (small_pipe ?js 3 small_loaded Loop_Stopped No_Seek) (?at small_cut Loop_Stopped)"
    using pipe_step.pipe_source_body [of "small_pipe ?js 3 small_loaded Loop_Stopped No_Seek" at_end GST_FLOW_EOS
        ?js' "(!) file_of_three" 3 far_env small_cut]
      small_bodies(4) small_answers(3) small_outputs(4) small_cut_steps(1)
    by (simp add: small_pipe_def cursor_after_def at_end_def EOS_CODE_def)
  moreover have "pipe_step ((!) file_of_three) 3 (?at small_cut Loop_Stopped) (?at small_cut Loop_Ready)"
    using pipe_step.pipe_start [of "?at small_cut Loop_Stopped"] by (simp add: small_pipe_def small_cut_def small_loaded_def)
  moreover have "pipe_step ((!) file_of_three) 3 (?at small_cut Loop_Ready) (?at small_cut (Loop_At False))"
    using pipe_step.pipe_call [of "?at small_cut Loop_Ready"] by (simp add: small_pipe_def lock_free_def)
  moreover have "pipe_step ((!) file_of_three) 3 (?at small_cut (Loop_At False)) (?at small_unannounced Loop_Pushing)"
    using pipe_step.pipe_item [of "?at small_cut (Loop_At False)" False far_env Loop_Pushing small_unannounced] small_cut_steps(2)
    by (simp add: small_pipe_def)
  ultimately have "pipe_run ((!) file_of_three) 3 (?at small_unannounced Loop_Pushing)"
    using small_loaded_run pipe_run.pipe_run_step by blast
  moreover have "gaps None (pb_log small_unannounced) = 1" "pb_lost small_unannounced = 1"
    by (simp_all add: small_unannounced_def small_cut_def small_loaded_def small_open_def progress_buffer_init_def progress_buffer_flush_data_def)
  ultimately show ?thesis by (intro exI [of _ "?at small_unannounced Loop_Pushing"]) (simp add: small_pipe_def)
qed

end
