(* ===== verification/Java_Race.thy ===== *)
theory Java_Race
  imports Java_Pipe
begin

text \<open>
  A race in the pipeline of \<open>Java_Pipe\<close>: the source's task reaches the end of the stream while a seek is on its way to
  the source. The buffer then refuses the segment of the seek, and nothing is sent any more.
\<close>

section \<open>A seek that races with the end of the stream\<close>

definition sent_downstream :: "pb_output list \<Rightarrow> pb_output list" where
  "sent_downstream log = filter (\<lambda>x. case x of Po_Buffer _ _ \<Rightarrow> True | Po_Item _ \<Rightarrow> True | _ \<Rightarrow> False) log"

text \<open>Steps without a new seek of the application.\<close>

inductive later :: "(nat \<Rightarrow> byte) \<Rightarrow> nat \<Rightarrow> pipe \<Rightarrow> pipe \<Rightarrow> bool" for src len s where
  later_now: "later src len s s"
| later_step: "later src len s t \<Longrightarrow> pipe_step src len t t' \<Longrightarrow> (pi_seek t = No_Seek \<longrightarrow> pi_seek t' = No_Seek) \<Longrightarrow> later src len s t'"

text \<open>The buffer waits for a segment of the source and refuses it because it has seen the end of the stream.\<close>

definition deaf :: "ProgressBuffer \<Rightarrow> bool" where
  "deaf e \<longleftrightarrow> pb_eos e \<and> pb_srcpad e \<and> pb_pending_src_event e = None \<and> \<not> pb_instant_seek e"

definition lost :: "pb_output list \<Rightarrow> pipe \<Rightarrow> bool" where
  "lost log s \<longleftrightarrow> deaf (pi_pb s) \<and> sent_downstream (pb_log (pi_pb s)) = log \<and> js_is_seekable (pi_js s) \<and>
     pi_pc s \<in> {Loop_Stopped, Loop_Ready, Loop_At False, Loop_Waiting False} \<and>
     (case pi_seek s of Seek_Begun _ \<Rightarrow> False | Seek_Answered _ ok \<Rightarrow> ok | _ \<Rightarrow> True)"

text \<open>Outputs that are neither data nor events of the stream.\<close>

definition side_output :: "pb_output \<Rightarrow> bool" where
  "side_output x \<longleftrightarrow> sent_downstream [x] = []"

lemma side_outputs [simp]:
  "side_output (Po_Event n)" "side_output Po_Pause_Task" "side_output Po_Warning" "side_output Po_Start_Task" "side_output Po_Signal"
  by (simp_all add: side_output_def sent_downstream_def)

lemma deaf_post [simp]: "deaf (post x e) = deaf e" "side_output x \<Longrightarrow> sent_downstream (l @ [x]) = sent_downstream l"
  by (simp_all add: deaf_def side_output_def sent_downstream_def)

lemma deaf_receive:
  assumes "deaf e" "receive J E x e = Some e'"
  shows "deaf e' \<and> sent_downstream (pb_log e') = sent_downstream (pb_log e)"
proof -
  have e: "pb_eos e" "pb_srcpad e" using assms(1) by (simp_all add: deaf_def)
  have "e' = e \<or> (\<exists>n. e' = post (Po_Event n) e)"
  proof (cases "\<exists>data offset d. x = Jo_Buffer data offset d")
    case True
    then show ?thesis using assms(2) e by (auto simp: receive_def progress_buffer_chain_def split: if_splits)
  next
    case False
    show ?thesis
    proof (cases "sent_item x")
      case None
      then show ?thesis using assms(2) False by (cases x) (simp_all add: receive_def sent_item_def)
    next
      case (Some ev)
      obtain r where "progress_buffer_sink_event E ev e = Some (r, e')" using receive_item [OF Some assms(2)] by blast
      then show ?thesis using e by (auto simp: progress_buffer_sink_event_def split: if_splits)
    qed
  qed
  then show ?thesis using assms(1) by auto
qed

lemma deaf_deliver:
  "deliver J E xs e = Some e' \<Longrightarrow> deaf e \<Longrightarrow> deaf e' \<and> sent_downstream (pb_log e') = sent_downstream (pb_log e)"
proof (induction xs arbitrary: e)
  case (Cons x xs)
  obtain f where "receive J E x e = Some f" "deliver J E xs f = Some e'"
    using Cons.prems(1) by (cases "receive J E x e") simp_all
  then show ?case using Cons deaf_receive by metis
qed simp

lemma deaf_item:
  assumes "deaf e" "progress_buffer_loop_item E False e = Some (pc, e')"
  shows "deaf e' \<and> sent_downstream (pb_log e') = sent_downstream (pb_log e) \<and> pc \<in> {Loop_Stopped, Loop_Ready, Loop_At False, Loop_Waiting False}"
  using assms by (cases "pb_cache e") (auto simp: deaf_def progress_buffer_loop_item_def loop_end_def split: if_splits)

lemma seekable_kept:
  assumes "pipe_step src len s s'" "pipe_ok src len x s" "len < 2 ^ 63"
  shows "js_is_seekable (pi_js s') = js_is_seekable (pi_js s)"
  using assms(1)
proof (cases rule: pipe_step.cases)
  case (pipe_source_body J r js E e)
  have "body_kept src len (seek_of (pi_seek s)) (pi_pc s) (cursor_after J (pi_js s) (pi_cursor s)) r js e (pi_js s)"
    by (rule source_body_kept [where x = x and e = "pi_pb s"]) (use pipe_source_body assms(2,3) in \<open>simp_all add: pipe_ok_def\<close>)
  then show ?thesis using pipe_source_body(1) by (simp add: body_kept_def)
next
  case (pipe_source_end r go js)
  then show ?thesis using assms(2) source_end_ok(3) by (fastforce simp: pipe_ok_def)
next
  case (pipe_seek_upstream k js J E e)
  then show ?thesis using assms(2) seek_upstream_ok(3) by (fastforce simp: pipe_ok_def)
next
  case (pipe_seek_source k J js E e)
  have "js_ok len x (pi_cursor s) (pi_jpc s) (pi_js s)" "js_is_seekable (pi_js s)" "0 \<le> ps_position k" "ps_position k < int len"
    using assms(2) pipe_seek_source(2) by (simp_all add: pipe_ok_def seek_ok_def seek_of_def)
  then show ?thesis using seek_source_ok(3) [OF _ _ pipe_seek_source(4)] pipe_seek_source(1) by simp
qed simp_all

lemma lost_step:
  assumes "lost log s" "pipe_step src len s s'" "pipe_ok src len x s" "len < 2 ^ 63"
    and "pi_seek s = No_Seek \<longrightarrow> pi_seek s' = No_Seek"
  shows "lost log s'"
proof -
  have seekable: "js_is_seekable (pi_js s')" using seekable_kept [OF assms(2-4)] assms(1) by (simp add: lost_def)
  show ?thesis
    using assms(2)
  proof (cases rule: pipe_step.cases)
    case (pipe_source_body J r js E e)
    then show ?thesis using assms(1) seekable deaf_deliver [OF pipe_source_body(5)] by (simp add: lost_def)
  next
    case (pipe_item skip E pc e)
    then show ?thesis using assms(1) seekable deaf_item [of "pi_pb s" E pc e] by (auto simp: lost_def)
  next
    case (pipe_seek_begin k go e)
    then have "\<not> go" using assms(5) by (auto split: if_splits)
    then have "e = pi_pb s \<or> e = post Po_Warning (pi_pb s)" using pipe_seek_begin(6) by (auto simp: seek_begin_def split: if_splits)
    then show ?thesis using assms(1) pipe_seek_begin(1) \<open>\<not> go\<close> seekable by (auto simp: lost_def)
  next
    case (pipe_seek_upstream k js J E e)
    then show ?thesis using assms(1) seekable deaf_deliver [OF pipe_seek_upstream(5)] by (simp add: lost_def)
  next
    case (pipe_seek_source k J js E e)
    then show ?thesis using assms(1) seekable deaf_deliver [OF pipe_seek_source(5)] by (simp add: lost_def)
  next
    case (pipe_seek_answered k ok e)
    then have "e = (pi_pb s)\<lparr>pb_is_source_seeking := False\<rparr>" using assms(1) by (auto simp: lost_def seek_answered_def)
    then have "deaf e" "sent_downstream (pb_log e) = log" using assms(1) by (simp_all add: lost_def deaf_def)
    then show ?thesis using assms(1) seekable pipe_seek_answered(1) by (simp add: lost_def seek_restart_def)
  qed (use assms(1) seekable in \<open>auto simp: lost_def\<close>)
qed

text \<open>
  C37: a seek that the buffer has passed to the source is lost when the source's task reaches the end of the stream before it
  handles the seek: the end-of-stream event makes the buffer refuse the segment of the seek, and until the application
  seeks again nothing is sent downstream any more.
\<close>

theorem seek_at_end_lost:
  assumes "pipe_run src len s" "0 < len" "len < 2 ^ 63" "later src len s s'"
    and "pi_seek s = Seek_Sent k" "js_is_seekable (pi_js s)"
    and "pb_eos (pi_pb s)" "pb_pending_src_event (pi_pb s) = None" "\<not> pb_instant_seek (pi_pb s)"
  shows "sent_downstream (pb_log (pi_pb s')) = sent_downstream (pb_log (pi_pb s))"
proof -
  have "pipe_run src len s' \<and> lost (sent_downstream (pb_log (pi_pb s))) s'"
    using assms(4)
  proof (induction rule: later.induct)
    case later_now
    show ?case
      using assms(1,5-9) pipe_run_ok [OF assms(1-3)]
      by (auto simp: lost_def deaf_def pipe_ok_def pb_ok_def seek_of_def lock_free_def)
  next
    case (later_step t t')
    then show ?case using lost_step pipe_run_ok [OF _ assms(2,3)] assms(3) pipe_run.pipe_run_step by blast
  qed
  then show ?thesis by (simp add: lost_def)
qed

text \<open>The application seeks to the second byte when the source has sent everything but not yet the end.\<close>

definition small_seek :: push_seek where
  "small_seek = \<lparr>ps_bytes = True, ps_start_set = True, ps_stop_none = True, ps_flush = False, ps_rate = 0, ps_position = 1\<rparr>"

definition small_sent :: ProgressBuffer where
  "small_sent = small_loaded\<lparr>pb_pending_src_event := None, pb_instant_seek := False, pb_is_source_seeking := True,
     pb_log := pb_log small_loaded @ [Po_Signal, Po_Seek 0 False 1]\<rparr>"

definition small_ended :: ProgressBuffer where
  "small_ended = small_sent\<lparr>pb_eos := True, pb_log := pb_log small_sent @ [Po_Message 0 3 3 True, Po_Signal]\<rparr>"

definition small_stuck :: pipe where
  "small_stuck = (small_pipe (small_source Ev_Eos 3 (small_log @ [Jo_Eos])) 3 small_ended Loop_Stopped (Seek_Sent small_seek))
     \<lparr>pi_jpc := Js_Done GST_FLOW_EOS\<rparr>"

lemma small_stuck_run: "pipe_run ((!) file_of_three) 3 small_stuck"
proof -
  let ?js = "small_source Ev_Unknown 3 small_log"
  have begun: "seek_begin small_seek small_loaded = (True, post Po_Signal (small_loaded\<lparr>pb_srcresult := GST_FLOW_FLUSHING\<rparr>))"
    by (simp add: seek_begin_def small_seek_def)
  have sent: "seek_locked far_env small_seek (post Po_Signal (small_loaded\<lparr>pb_srcresult := GST_FLOW_FLUSHING\<rparr>)) = Some (False, small_sent)"
    by (simp add: seek_locked_def seek_is_instant_def small_seek_def small_sent_def small_loaded_def small_open_def reset_eos_def
        progress_buffer_set_pending_event_def EOS_SIGNAL_LIMIT_def post_def progress_buffer_init_def progress_buffer_flush_data_def)
  have ended: "deliver at_end far_env [Jo_Eos] small_sent = Some small_ended"
    by (simp add: receive_def sent_item_def asked_def eos_result with_eos_def segment_pending_def small_ended_def small_sent_def small_loaded_def small_open_def
        small_segment_def plain_segment_def signal_if_def send_position_message_def post_def progress_buffer_init_def
        progress_buffer_flush_data_def)
  have "pipe_step ((!) file_of_three) 3 (small_pipe ?js 3 small_loaded Loop_Stopped No_Seek)
      (small_pipe ?js 3 (post Po_Signal (small_loaded\<lparr>pb_srcresult := GST_FLOW_FLUSHING\<rparr>)) Loop_Stopped (Seek_Begun small_seek))"
    using pipe_step.pipe_seek_begin [of "small_pipe ?js 3 small_loaded Loop_Stopped No_Seek" small_seek 3 True] begun
    by (simp add: small_pipe_def small_loaded_def small_seek_def)
  moreover have "pipe_step ((!) file_of_three) 3
      (small_pipe ?js 3 (post Po_Signal (small_loaded\<lparr>pb_srcresult := GST_FLOW_FLUSHING\<rparr>)) Loop_Stopped (Seek_Begun small_seek))
      (small_pipe ?js 3 small_sent Loop_Stopped (Seek_Sent small_seek))"
    using pipe_step.pipe_seek_locked [of "small_pipe ?js 3 _ Loop_Stopped (Seek_Begun small_seek)" small_seek far_env False] sent
    by (fastforce simp: small_pipe_def)
  moreover have "pipe_step ((!) file_of_three) 3 (small_pipe ?js 3 small_sent Loop_Stopped (Seek_Sent small_seek)) small_stuck"
    using pipe_step.pipe_source_body [of "small_pipe ?js 3 small_sent Loop_Stopped (Seek_Sent small_seek)" at_end GST_FLOW_EOS
        "small_source Ev_Eos 3 (small_log @ [Jo_Eos])" "(!) file_of_three" 3 far_env small_ended]
      small_bodies(4) small_answers(3) small_outputs(4) ended
    by (simp add: small_pipe_def small_stuck_def next_segment_def small_sent_def cursor_after_def at_end_def EOS_CODE_def)
  ultimately show ?thesis using small_loaded_run pipe_run.pipe_run_step by blast
qed

text \<open>The source then handles the seek and offers a segment that starts at the second byte, which the buffer refuses.\<close>

definition small_again :: "js_event \<Rightarrow> GstFlowReturn \<Rightarrow> js_output list \<Rightarrow> JavaSource" where
  "small_again ev r log = (small_source ev 1 (small_log @ [Jo_Eos, Jo_Pause_Task] @ log))
     \<lparr>js_srcresult := r, js_rate := 0, js_discont := True, js_update := False\<rparr>"

definition small_paused :: "GstFlowReturn \<Rightarrow> JavaSource" where
  "small_paused r = (small_source Ev_Eos 3 (small_log @ [Jo_Eos, Jo_Pause_Task]))\<lparr>js_srcresult := r\<rparr>"

definition second_segment :: bytes_segment where "second_segment = plain_segment 0 1 3"

definition small_refused :: pipe where
  "small_refused = small_stuck
     \<lparr>pi_js := small_again Ev_Unknown GST_FLOW_OK [Jo_Seek_Data 1, Jo_Start_Task, Jo_Segment False second_segment 0],
      pi_jpc := Js_Done GST_FLOW_FLUSHING, pi_cursor := 1, pi_seek := Seek_Answered small_seek True\<rparr>"

lemma small_seek_calls:
  "java_source_loop_end GST_FLOW_EOS (small_source Ev_Eos 3 (small_log @ [Jo_Eos])) = (False, small_paused GST_FLOW_EOS)"
  "java_seek_begin (upstream small_seek) (small_paused GST_FLOW_EOS) = (True, small_paused GST_FLOW_FLUSHING)"
  "java_seek_end java_calm (upstream small_seek) (small_paused GST_FLOW_FLUSHING) =
     (True, small_again Ev_Segment GST_FLOW_OK [Jo_Seek_Data 1, Jo_Start_Task])"
  "java_source_loop_body (java_calm\<lparr>je_push_event := False\<rparr>) (small_again Ev_Segment GST_FLOW_OK [Jo_Seek_Data 1, Jo_Start_Task]) =
     (GST_FLOW_FLUSHING, small_again Ev_Unknown GST_FLOW_OK [Jo_Seek_Data 1, Jo_Start_Task, Jo_Segment False second_segment 0])"
  by (simp_all add: java_source_loop_end_def java_seek_begin_def java_seek_end_def java_source_loop_body_def js_send_segment_def
      small_paused_def small_again_def small_source_def small_seek_def upstream_def js_post_def flow_of_def has_mode_def
      MODE_DEFAULT_def MODE_HLS_def plain_segment_def second_segment_def java_calm_def)

lemma deaf_refuses_segment: "pb_eos e \<Longrightarrow> receive J E (Jo_Segment u seg t) e = (if je_push_event J then None else Some e)"
  by (simp add: receive_def sent_item_def asked_def progress_buffer_sink_event_def serialized_def)

lemma small_segment_refused:
  "deliver (java_calm\<lparr>je_push_event := False\<rparr>) far_env [Jo_Segment False second_segment 0] small_ended = Some small_ended"
proof -
  have "pb_eos small_ended" by (simp add: small_ended_def)
  then show ?thesis by (simp add: deaf_refuses_segment)
qed

lemma small_seek_outputs:
  "new_outputs (small_paused GST_FLOW_EOS) (small_paused GST_FLOW_FLUSHING) = []"
  "new_outputs (small_paused GST_FLOW_FLUSHING) (small_again Ev_Segment GST_FLOW_OK [Jo_Seek_Data 1, Jo_Start_Task]) =
     [Jo_Seek_Data 1, Jo_Start_Task]"
  "new_outputs (small_again Ev_Segment GST_FLOW_OK [Jo_Seek_Data 1, Jo_Start_Task])
     (small_again Ev_Unknown GST_FLOW_OK [Jo_Seek_Data 1, Jo_Start_Task, Jo_Segment False second_segment 0]) =
     [Jo_Segment False second_segment 0]"
  "deliver java_calm far_env [Jo_Seek_Data 1, Jo_Start_Task] e = Some e"
  by (simp_all add: new_outputs_def small_paused_def small_again_def small_source_def receive_def sent_item_def)

lemma refusing_answers: "java_answers src len c (java_calm\<lparr>je_push_event := False\<rparr>)"
  by (simp add: java_answers_def java_calm_def)

lemma small_again_fields [simp]: "js_is_seekable (small_paused r)" "js_pending_event (small_again ev r log) = ev"
  by (simp_all add: small_paused_def small_again_def)

lemma small_refused_later: "later ((!) file_of_three) 3 small_stuck small_refused"
proof -
  let ?step = "pipe_step ((!) file_of_three) 3"
  let ?a = "small_stuck\<lparr>pi_js := small_paused GST_FLOW_EOS, pi_jpc := Js_Stopped\<rparr>"
  let ?b = "?a\<lparr>pi_js := small_paused GST_FLOW_FLUSHING, pi_seek := Seek_Upstream small_seek\<rparr>"
  let ?c = "?b\<lparr>pi_js := small_again Ev_Segment GST_FLOW_OK [Jo_Seek_Data 1, Jo_Start_Task], pi_jpc := Js_Ready, pi_cursor := 1,
      pi_seek := Seek_Answered small_seek True\<rparr>"
  have a: "?step small_stuck ?a"
    using pipe_step.pipe_source_end [of small_stuck GST_FLOW_EOS False "small_paused GST_FLOW_EOS" "(!) file_of_three" 3] small_seek_calls(1)
    by (simp add: small_stuck_def small_pipe_def)
  have b: "?step ?a ?b"
    using pipe_step.pipe_seek_upstream [of ?a small_seek "small_paused GST_FLOW_FLUSHING" java_calm far_env small_ended "(!) file_of_three" 3]
      small_seek_calls(2)
    by (simp add: small_stuck_def small_pipe_def small_seek_outputs)
  have c: "?step ?b ?c"
    using pipe_step.pipe_seek_source [of ?b small_seek java_calm "small_again Ev_Segment GST_FLOW_OK [Jo_Seek_Data 1, Jo_Start_Task]" far_env
        small_ended "(!) file_of_three" 3] small_seek_calls(3)
    by (simp add: small_stuck_def small_pipe_def small_seek_outputs del: deliver.simps) (simp add: small_seek_def)
  have d: "?step ?c small_refused"
    using pipe_step.pipe_source_body [of ?c "java_calm\<lparr>je_push_event := False\<rparr>" GST_FLOW_FLUSHING
        "small_again Ev_Unknown GST_FLOW_OK [Jo_Seek_Data 1, Jo_Start_Task, Jo_Segment False second_segment 0]"
        "(!) file_of_three" 3 far_env small_ended] small_seek_calls(4) small_segment_refused
      refusing_answers
    by (simp add: small_stuck_def small_refused_def small_pipe_def small_seek_outputs cursor_after_def del: deliver.simps)
  have seeking: "pi_seek small_stuck \<noteq> No_Seek" by (simp add: small_stuck_def small_pipe_def)
  have "later ((!) file_of_three) 3 small_stuck ?b"
    by (rule later_step [OF later_step [OF later_now a] b]) (simp_all add: seeking)
  then have "later ((!) file_of_three) 3 small_stuck ?c"
    by (rule later_step [OF _ c]) simp
  then show ?thesis
    by (rule later_step [OF _ d]) simp
qed

theorem seek_at_end_lost_witness:
  "later ((!) file_of_three) 3 small_stuck small_refused \<and> sent_downstream (pb_log (pi_pb small_refused)) = []"
proof -
  have "sent_downstream (pb_log (pi_pb small_refused)) = sent_downstream (pb_log (pi_pb small_stuck))"
    using seek_at_end_lost [OF small_stuck_run _ _ small_refused_later, of small_seek]
    by (simp add: small_stuck_def small_pipe_def small_ended_def small_sent_def)
  then show ?thesis using small_refused_later
    by (simp add: small_stuck_def small_pipe_def small_ended_def small_sent_def small_loaded_def small_open_def sent_downstream_def)
qed

end
