(* ===== verification/Decora_Box.thy ===== *)
theory Decora_Box
  imports Pisces_Pixel
begin

text \<open>
  The box blur of the effects library (native-decora/SSEBoxBlurPeer.cc) and the loops that the box filters share. A filter makes
  one pass over an image in one direction: it keeps the sums of the channels over a window of pixels, adds the pixel that
  enters the window and subtracts the one that leaves it. Accesses to the two pixel arrays are checked.
\<close>

section \<open>The sums\<close>

record box_sums =
  suma :: jint
  sumr :: jint
  sumg :: jint
  sumb :: jint

definition no_sums :: box_sums where
  "no_sums = \<lparr>suma = 0, sumr = 0, sumg = 0, sumb = 0\<rparr>"

definition unaccumulate :: "jint \<Rightarrow> box_sums \<Rightarrow> box_sums" where
  "unaccumulate rgb s = \<lparr>suma = suma s - (shr rgb 24 AND 255), sumr = sumr s - (shr rgb 16 AND 255),
     sumg = sumg s - (shr rgb 8 AND 255), sumb = sumb s - (rgb AND 255)\<rparr>"

definition accumulate :: "jint \<Rightarrow> box_sums \<Rightarrow> box_sums" where
  "accumulate rgb s = \<lparr>suma = suma s + (shr rgb 24 AND 255), sumr = sumr s + (shr rgb 16 AND 255),
     sumg = sumg s + (shr rgb 8 AND 255), sumb = sumb s + (rgb AND 255)\<rparr>"

section \<open>What is stored\<close>

definition scaled :: "jint \<Rightarrow> jint \<Rightarrow> jint" where
  "scaled k s = shr (s32 (s * k)) 23"

definition box_pixel :: "jint \<Rightarrow> box_sums \<Rightarrow> jint" where
  "box_pixel kscale s = s32 (shl (scaled kscale (suma s)) 24 + shl (scaled kscale (sumr s)) 16 +
     shl (scaled kscale (sumg s)) 8 + scaled kscale (sumb s))"

section \<open>One pass\<close>

text \<open>
  The two loops, for any state of the sums: \<open>hsize\<close> is the width of the window. The state of the rows is the pair of
  offsets, which are \<open>jint\<close> and wrap around.
\<close>

definition box_col ::
    "(jint \<Rightarrow> 's \<Rightarrow> 's) \<Rightarrow> (jint \<Rightarrow> 's \<Rightarrow> 's) \<Rightarrow> ('s \<Rightarrow> jint) \<Rightarrow> jint list \<Rightarrow> jint \<Rightarrow> jint \<Rightarrow> jint \<Rightarrow> jint \<Rightarrow>
     nat \<Rightarrow> 's \<times> jint list \<Rightarrow> ('s \<times> jint list) option" where
  "box_col sub add store src srcw hsize srcoff dstoff x st =
    (let (sums, dst) = st in do {
       rgb \<leftarrow> (if int x \<ge> hsize then rd src (s32 (srcoff + int x - hsize)) else Some 0);
       let sums = sub rgb sums;
       rgb \<leftarrow> (if int x < srcw then rd src (s32 (srcoff + int x)) else Some 0);
       let sums = add rgb sums;
       dst \<leftarrow> wr dst (s32 (dstoff + int x)) (store sums);
       Some (sums, dst) })"

definition box_rows ::
    "'s \<Rightarrow> (jint \<Rightarrow> 's \<Rightarrow> 's) \<Rightarrow> (jint \<Rightarrow> 's \<Rightarrow> 's) \<Rightarrow> ('s \<Rightarrow> jint) \<Rightarrow> jint \<Rightarrow>
     jint list \<Rightarrow> jint \<Rightarrow> jint \<Rightarrow> jint \<Rightarrow> jint list \<Rightarrow> jint \<Rightarrow> jint \<Rightarrow> jint list option" where
  "box_rows none sub add store hsize dst dstw dsth dstscan src srcw srcscan =
     map_option snd (for_up 0 (nat dsth) (\<lambda>y ((srcoff, dstoff), dst). do {
       (sums, dst) \<leftarrow> for_up 0 (nat dstw) (box_col sub add store src srcw hsize srcoff dstoff) (none, dst);
       Some ((s32 (srcoff + srcscan), s32 (dstoff + dstscan)), dst) }) ((0, 0), dst))"

text \<open>Down a column; the state of the inner loop holds the two offsets and the sums.\<close>

definition box_row ::
    "(jint \<Rightarrow> 's \<Rightarrow> 's) \<Rightarrow> (jint \<Rightarrow> 's \<Rightarrow> 's) \<Rightarrow> ('s \<Rightarrow> jint) \<Rightarrow> jint list \<Rightarrow> jint \<Rightarrow> jint \<Rightarrow> jint \<Rightarrow> jint \<Rightarrow>
     nat \<Rightarrow> (jint \<times> jint \<times> 's) \<times> jint list \<Rightarrow> ((jint \<times> jint \<times> 's) \<times> jint list) option" where
  "box_row sub add store src srch voff srcscan dstscan y st =
    (let ((srcoff, dstoff, sums), dst) = st in do {
       rgb \<leftarrow> (if srcoff \<ge> voff then rd src (s32 (srcoff - voff)) else Some 0);
       let sums = sub rgb sums;
       rgb \<leftarrow> (if int y < srch then rd src srcoff else Some 0);
       let sums = add rgb sums;
       dst \<leftarrow> wr dst dstoff (store sums);
       Some ((s32 (srcoff + srcscan), s32 (dstoff + dstscan), sums), dst) })"

definition box_columns ::
    "'s \<Rightarrow> (jint \<Rightarrow> 's \<Rightarrow> 's) \<Rightarrow> (jint \<Rightarrow> 's \<Rightarrow> 's) \<Rightarrow> ('s \<Rightarrow> jint) \<Rightarrow> jint \<Rightarrow>
     jint list \<Rightarrow> jint \<Rightarrow> jint \<Rightarrow> jint \<Rightarrow> jint list \<Rightarrow> jint \<Rightarrow> jint \<Rightarrow> jint list option" where
  "box_columns none sub add store vsize dst dstw dsth dstscan src srch srcscan =
     (let voff = s32 (vsize * srcscan) in
      for_up 0 (nat dstw) (\<lambda>x dst.
        map_option snd (for_up 0 (nat dsth) (box_row sub add store src srch voff srcscan dstscan)
          ((int x, int x, none), dst))) dst)"

section \<open>The entry points\<close>

text \<open>A division by zero is a fault. \<open>srch\<close> is not used across rows, nor \<open>srcw\<close> down columns.\<close>

definition cdiv_checked :: "jint \<Rightarrow> jint \<Rightarrow> jint option" where
  "cdiv_checked a b = (if b = 0 then None else Some (cdiv a b))"

definition blur_filterHorizontal ::
    "jint list \<Rightarrow> jint \<Rightarrow> jint \<Rightarrow> jint \<Rightarrow> jint list \<Rightarrow> jint \<Rightarrow> jint \<Rightarrow> jint \<Rightarrow> jint list option" where
  "blur_filterHorizontal dst dstw dsth dstscan src srcw srch srcscan =
    (let hsize = s32 (dstw - srcw + 1) in do {
       kscale \<leftarrow> cdiv_checked 0x7fffffff (s32 (hsize * 255));
       box_rows no_sums unaccumulate accumulate (box_pixel kscale) hsize dst dstw dsth dstscan src srcw srcscan })"

definition blur_filterVertical ::
    "jint list \<Rightarrow> jint \<Rightarrow> jint \<Rightarrow> jint \<Rightarrow> jint list \<Rightarrow> jint \<Rightarrow> jint \<Rightarrow> jint \<Rightarrow> jint list option" where
  "blur_filterVertical dst dstw dsth dstscan src srcw srch srcscan =
    (let vsize = s32 (dsth - srch + 1) in do {
       kscale \<leftarrow> cdiv_checked 0x7fffffff (s32 (vsize * 255));
       box_columns no_sums unaccumulate accumulate (box_pixel kscale) vsize dst dstw dsth dstscan src srch srcscan })"

section \<open>Writing column by column\<close>

lemma for_up_snoc: "for_up i (Suc n) body s = do { s \<leftarrow> for_up i n body s; body (i + n) s }"
proof (induction n arbitrary: i s)
  case 0
  show ?case by (cases "body i s") simp_all
next
  case (Suc n)
  show ?case
  proof (cases "body i s")
    case (Some t)
    then show ?thesis using Suc [of "Suc i" t] by simp
  qed simp
qed

lemma column_cell:
  fixes x s i h :: nat
  assumes "x < s"
  shows "x \<le> i \<and> (i - x) div s < h \<and> (i - x) mod s < 1 \<longleftrightarrow> i mod s = x \<and> i div s < h"
    "i mod s = x \<Longrightarrow> (i - x) div s = i div s"
proof -
  have cell: "i - x = i div s * s" if "i mod s = x" using minus_mod_eq_div_mult [of i s] that by simp
  show div: "(i - x) div s = i div s" if "i mod s = x" using cell [OF that] assms by simp
  have "i mod s = x" if "x \<le> i" "(i - x) mod s = 0"
  proof -
    obtain q where "i - x = s * q" using \<open>(i - x) mod s = 0\<close> by (metis mod_0_imp_dvd dvdE)
    then have "i = x + s * q" using that(1) by simp
    then show ?thesis using assms by simp
  qed
  moreover have "x \<le> i \<and> (i - x) mod s = 0" if "i mod s = x"
    using cell [OF that] mod_less_eq_dividend [of i s] that by simp
  ultimately show "x \<le> i \<and> (i - x) div s < h \<and> (i - x) mod s < 1 \<longleftrightarrow> i mod s = x \<and> i div s < h"
    using div by (auto simp: less_Suc_eq)
qed

lemma upd_rect_column:
  assumes "x < s"
  shows "upd_rect x s 1 h (\<lambda>y _. f y x) (upd_rect 0 s x h f d) = upd_rect 0 s (Suc x) h f d"
proof (rule nth_equalityI)
  fix i assume "i < length (upd_rect x s 1 h (\<lambda>y _. f y x) (upd_rect 0 s x h f d))"
  then have "i < length d" by simp
  then show "upd_rect x s 1 h (\<lambda>y _. f y x) (upd_rect 0 s x h f d) ! i = upd_rect 0 s (Suc x) h f d ! i"
    using column_cell(1) [OF assms, of i h] column_cell(2) [OF assms, of i]
    by (simp only: nth_upd_rect length_upd_rect) (auto simp: less_Suc_eq)
qed simp

lemma for_up_columns:
  assumes "w \<le> s"
    and "\<And>x d'. x < w \<Longrightarrow> length d' = length d \<Longrightarrow> body x (st x d') = Some (st (Suc x) (upd_rect x s 1 h (\<lambda>y _. f y x) d'))"
  shows "for_up 0 w body (st 0 d) = Some (st w (upd_rect 0 s w h f d))"
  using assms
proof (induction w)
  case 0
  have "upd_rect 0 s 0 h f d = d" by (rule nth_equalityI) (simp_all add: nth_upd_rect)
  then show ?case by simp
next
  case (Suc w)
  have "for_up 0 w body (st 0 d) = Some (st w (upd_rect 0 s w h f d))" using Suc by simp
  then have "for_up 0 (Suc w) body (st 0 d) = body w (st w (upd_rect 0 s w h f d))"
    by (simp only: for_up_snoc add_0 Option.bind.simps)
  also have "\<dots> = Some (st (Suc w) (upd_rect w s 1 h (\<lambda>y _. f y w) (upd_rect 0 s w h f d)))" by (rule Suc.prems(2)) simp_all
  also have "\<dots> = Some (st (Suc w) (upd_rect 0 s (Suc w) h f d))" using Suc.prems(1) by (subst upd_rect_column) simp_all
  finally show ?case .
qed

section \<open>Offsets in 32 bits\<close>

text \<open>The arrays are pinned Java arrays, whose lengths are \<open>jint\<close>: an offset inside one does not wrap.\<close>

definition java_array :: "'a list \<Rightarrow> bool" where
  "java_array xs \<longleftrightarrow> length xs \<le> 2147483647"

lemma java_offset: "java_array xs \<Longrightarrow> i \<le> length xs \<Longrightarrow> s32 (int i) = int i"
  by (simp add: java_array_def)

lemma rd_int: "i < length xs \<Longrightarrow> rd xs (int i) = Some (xs ! i)"
  by (simp add: rd_def)

lemma wr_int: "i < length xs \<Longrightarrow> wr xs (int i) v = Some (xs[i := v])"
  by (simp add: wr_def)

lemma s32_add: "s32 (s32 a + b) = s32 (a + b)"
  by (simp add: s32_eq_mod mod_simps algebra_simps)

section \<open>The window\<close>

text \<open>The pixels in a window of size \<open>n\<close> before the column \<open>k\<close> of a line of \<open>m\<close> pixels is reached.\<close>

definition window :: "(nat \<Rightarrow> jint) \<Rightarrow> nat \<Rightarrow> nat \<Rightarrow> nat \<Rightarrow> jint list" where
  "window px n m k = map px [k - n..<min k m]"

text \<open>
  The law of the sums: \<open>total\<close> is their value for the pixels of a window, and adding at one end and subtracting at the
  other follows it.
\<close>

locale box_sum =
  fixes none :: 's and sub :: "jint \<Rightarrow> 's \<Rightarrow> 's" and add :: "jint \<Rightarrow> 's \<Rightarrow> 's" and total :: "jint list \<Rightarrow> 's"
  assumes total_none: "total [] = none"
    and total_add: "total (ps @ [p]) = add p (total ps)"
    and total_sub: "sub p (total (p # ps)) = total ps"
    and sub_zero: "sub 0 s = s"
    and add_zero: "add 0 s = s"
begin

lemma slide:
  assumes "0 < n" "k < m + n"
  shows "add (if k < m then px k else 0) (sub (if n \<le> k then px (k - n) else 0) (total (window px n m k))) =
    total (window px n m (Suc k))"
proof -
  have sub: "sub (if n \<le> k then px (k - n) else 0) (total (window px n m k)) = total (map px [Suc k - n..<min k m])"
  proof (cases "n \<le> k")
    case True
    then have "[k - n..<min k m] = (k - n) # [Suc k - n..<min k m]"
      using assms by (simp add: upt_conv_Cons Suc_diff_le)
    then show ?thesis using True total_sub by (simp add: window_def)
  next
    case False
    then show ?thesis by (simp add: window_def sub_zero)
  qed
  show ?thesis
  proof (cases "k < m")
    case True
    then have "[Suc k - n..<min (Suc k) m] = [Suc k - n..<min k m] @ [k]" using assms(1) by (simp add: min_def)
    then show ?thesis unfolding sub using True by (simp add: window_def total_add)
  next
    case False
    then show ?thesis unfolding sub by (simp add: window_def add_zero min_def)
  qed
qed

lemma window_start: "total (window px n m 0) = none"
  by (simp add: window_def total_none)

lemma line:
  assumes "0 < n" "w < srcw + n" "so + srcw \<le> length src" "b + w \<le> length dst" "java_array src" "java_array dst"
  shows "for_up 0 w (box_col sub add store src (int srcw) (int n) (int so) (int b)) (none, dst) =
    Some (total (window (\<lambda>i. src ! (so + i)) n srcw w),
      upd_range b w (\<lambda>x _. store (total (window (\<lambda>i. src ! (so + i)) n srcw (Suc x)))) dst)"
proof -
  let ?px = "\<lambda>i. src ! (so + i)"
  let ?st = "\<lambda>k d. (total (window ?px n srcw k), d)"
  have "for_up 0 w (box_col sub add store src (int srcw) (int n) (int so) (int b)) (?st 0 dst) =
      Some (?st (0 + w) (upd_range b w (\<lambda>x _. store (total (window ?px n srcw (Suc x)))) dst))"
  proof (rule for_up_range [OF assms(4)])
    fix j and d :: "jint list" assume j: "j < w" "length d = length dst"
    have out: "(if int j \<ge> int n then rd src (s32 (int so + int j - int n)) else Some 0) = Some (if n \<le> j then ?px (j - n) else 0)"
    proof (cases "n \<le> j")
      case True
      then have i: "so + (j - n) < length src" using assms(1-3) j(1) by linarith
      have "s32 (int so + int j - int n) = int (so + (j - n))"
        using java_offset [OF assms(5), of "so + (j - n)"] i True by (simp add: of_nat_diff add_diff_eq)
      then show ?thesis using rd_int [OF i] True by simp
    qed simp
    have inn: "(if int j < int srcw then rd src (s32 (int so + int j)) else Some 0) = Some (if j < srcw then ?px j else 0)"
    proof (cases "j < srcw")
      case True
      then have i: "so + j < length src" using assms(3) by linarith
      show ?thesis using java_offset [OF assms(5), of "so + j"] i rd_int [OF i] True by simp
    qed simp
    have b: "b + j < length dst" using j(1) assms(4) by linarith
    have w: "wr d (s32 (int b + int j)) v = Some (d[b + j := v])" for v
      using java_offset [OF assms(6), of "b + j"] b wr_int [of "b + j" d] b j(2) by simp
    have "j < srcw + n" using j(1) assms(2) by simp
    from slide [OF assms(1) this, of ?px]
    show "box_col sub add store src (int srcw) (int n) (int so) (int b) (0 + j) (?st (0 + j) d) =
        Some (?st (0 + Suc j) (d[b + j := store (total (window ?px n srcw (Suc j)))]))"
      by (simp only: box_col_def Let_def case_prod_conv add_0 out inn w Option.bind.simps)
  qed
  then show ?thesis by (simp add: window_start)
qed

lemma rows:
  assumes "0 < n" "w < srcw + n" "w \<le> dstscan" "0 < h \<Longrightarrow> (h - 1) * srcscan + srcw \<le> length src"
    "0 < h \<Longrightarrow> (h - 1) * dstscan + w \<le> length dst" "java_array src" "java_array dst"
  shows "box_rows none sub add store (int n) dst (int w) (int h) (int dstscan) src (int srcw) (int srcscan) =
    Some (upd_rect 0 dstscan w h (\<lambda>y x _. store (total (window (\<lambda>i. src ! (y * srcscan + i)) n srcw (Suc x)))) dst)"
proof -
  let ?st = "\<lambda>k d. ((s32 (int (k * srcscan)), s32 (int (k * dstscan))), d)"
  let ?f = "\<lambda>y x _. store (total (window (\<lambda>i. src ! (y * srcscan + i)) n srcw (Suc x)))"
  have "for_up 0 h (\<lambda>y ((srcoff, dstoff), dst). do {
       (sums, dst) \<leftarrow> for_up 0 (nat (int w)) (box_col sub add store src (int srcw) (int n) srcoff dstoff) (none, dst);
       Some ((s32 (srcoff + int srcscan), s32 (dstoff + int dstscan)), dst) }) (?st 0 dst) = Some (?st (0 + h) (upd_rect 0 dstscan w h ?f dst))"
  proof (rule for_up_rect [OF assms(3)])
    show "0 < h \<Longrightarrow> 0 + (h - 1) * dstscan + w \<le> length dst" using assms(5) by simp
    fix j and d :: "jint list" assume j: "j < h" "length d = length dst" "0 + j * dstscan + w \<le> length dst"
    have "j * srcscan \<le> (h - 1) * srcscan" using j(1) by (intro mult_le_mono1) simp
    then have src: "j * srcscan + srcw \<le> length src" using assms(4) j(1) by linarith
    have l: "j * dstscan + w \<le> length d" "java_array d" using j(2,3) assms(7) by (simp_all add: java_array_def)
    have id: "s32 (int (j * srcscan)) = int (j * srcscan)" "s32 (int (j * dstscan)) = int (j * dstscan)"
      using java_offset [OF assms(6), of "j * srcscan"] java_offset [OF l(2), of "j * dstscan"] src l(1) by linarith+
    show "(\<lambda>((srcoff, dstoff), dst). do {
       (sums, dst) \<leftarrow> for_up 0 (nat (int w)) (box_col sub add store src (int srcw) (int n) srcoff dstoff) (none, dst);
       Some ((s32 (srcoff + int srcscan), s32 (dstoff + int dstscan)), dst) }) (?st (0 + j) d) =
      Some (?st (0 + Suc j) (upd_range (0 + j * dstscan) w (?f j) d))"
      by (simp only: case_prod_conv add_0 nat_int id line [OF assms(1,2) src l(1) assms(6) l(2)] Option.bind.simps) (simp add: add.commute)
  qed
  then show ?thesis by (simp add: box_rows_def)
qed

lemma column:
  assumes "0 < n" "h < srch + n" "x < srcscan" "0 < srch \<Longrightarrow> (srch - 1) * srcscan + x < length src"
    "0 < h \<Longrightarrow> (h - 1) * dstscan + x < length d" "0 < dstscan"
    and "x \<le> 2147483647" "h * srcscan \<le> 2147483647" "n * srcscan \<le> 2147483647" "java_array d"
  shows "map_option snd (for_up 0 h (box_row sub add store src (int srch) (int n * int srcscan) (int srcscan) (int dstscan))
      ((int x, int x, none), d)) =
    Some (upd_rect x dstscan 1 h (\<lambda>y _ _. store (total (window (\<lambda>i. src ! (i * srcscan + x)) n srch (Suc y)))) d)"
proof -
  let ?px = "\<lambda>i. src ! (i * srcscan + x)"
  let ?st = "\<lambda>k d. ((s32 (int (k * srcscan + x)), s32 (int (k * dstscan + x)), total (window ?px n srch k)), d)"
  have inside: "i * srcscan + x < length src" if "i < srch" for i
  proof -
    have "i * srcscan \<le> (srch - 1) * srcscan" using that by (intro mult_le_mono1) simp
    then show ?thesis using assms(4) that by linarith
  qed
  have "for_up 0 h (box_row sub add store src (int srch) (int n * int srcscan) (int srcscan) (int dstscan)) (?st 0 d) =
    Some (?st (0 + h) (upd_rect x dstscan 1 h (\<lambda>y _ _. store (total (window ?px n srch (Suc y)))) d))"
  proof (rule for_up_rect)
    show "1 \<le> dstscan" using assms(6) by simp
    show "0 < h \<Longrightarrow> x + (h - 1) * dstscan + 1 \<le> length d" using assms(5) by simp
    fix j and d' :: "jint list" assume j: "j < h" "length d' = length d" "x + j * dstscan + 1 \<le> length d"
    have cmp: "int (j * srcscan + x) \<ge> int n * int srcscan \<longleftrightarrow> n \<le> j"
    proof
      assume "int (j * srcscan + x) \<ge> int n * int srcscan"
      then have "n * srcscan \<le> j * srcscan + x" by (metis of_nat_le_iff of_nat_mult)
      then have "n * srcscan < Suc j * srcscan" using assms(3) by simp
      then have "n < Suc j" by (metis mult_less_cancel2)
      then show "n \<le> j" by simp
    next
      assume "n \<le> j"
      then have "n * srcscan \<le> j * srcscan" by simp
      then show "int (j * srcscan + x) \<ge> int n * int srcscan" by (metis of_nat_le_iff of_nat_mult trans_le_add1)
    qed
    have "Suc j * srcscan \<le> h * srcscan" using j(1) by (intro mult_le_mono1) simp
    then have "j * srcscan + x \<le> 2147483647" using assms(3,8) by simp
    then have soff: "s32 (int (j * srcscan + x)) = int (j * srcscan + x)" by (intro s32_id) linarith+
    have doff: "s32 (int (j * dstscan + x)) = int (j * dstscan + x)"
      using java_offset [OF assms(10), of "j * dstscan + x"] j(3) by simp
    have out: "(if int (j * srcscan + x) \<ge> int n * int srcscan then rd src (s32 (int (j * srcscan + x) - int n * int srcscan)) else Some 0) =
        Some (if n \<le> j then ?px (j - n) else 0)"
    proof (cases "n \<le> j")
      case True
      then have eq: "int (j * srcscan + x) - int n * int srcscan = int ((j - n) * srcscan + x)"
        by (simp add: of_nat_diff left_diff_distrib)
      have "(j - n) * srcscan + x < length src" using inside [of "j - n"] True assms(1,2) j(1) by simp
      then have "rd src (int ((j - n) * srcscan + x)) = Some (?px (j - n))"
        by (rule rd_int)
      moreover have "(j - n) * srcscan + x \<le> j * srcscan + x" by simp
      then have "s32 (int ((j - n) * srcscan + x)) = int ((j - n) * srcscan + x)"
        using \<open>j * srcscan + x \<le> 2147483647\<close> by (intro s32_id) linarith+
      ultimately show ?thesis using True by (simp only: cmp eq if_True)
    qed (use cmp in simp)
    have inn: "(if int j < int srch then rd src (int (j * srcscan + x)) else Some 0) = Some (if j < srch then ?px j else 0)"
      using inside [of j] by (simp only: rd_def of_nat_less_iff of_nat_0_le_iff nat_int simp_thms if_True split: if_split) blast
    have w: "wr d' (int (j * dstscan + x)) v = Some (d'[x + j * dstscan := v])" for v
      using j(2,3) by (simp only: wr_def of_nat_less_iff of_nat_0_le_iff nat_int) (simp add: add.commute)
    have one: "upd_range (x + j * dstscan) 1 (\<lambda>_ _. v) d' = d'[x + j * dstscan := v]" for v
      using j(2,3) by (intro upd_range_one) simp
    have off: "int (j * srcscan + x) + int srcscan = int (Suc j * srcscan + x)" "int (j * dstscan + x) + int dstscan = int (Suc j * dstscan + x)"
      by simp_all
    have "j < srch + n" using j(1) assms(2) by simp
    from slide [OF assms(1) this, of ?px]
    show "box_row sub add store src (int srch) (int n * int srcscan) (int srcscan) (int dstscan) (0 + j) (?st (0 + j) d') =
        Some (?st (0 + Suc j) (upd_range (x + j * dstscan) 1 (\<lambda>_ _. store (total (window ?px n srch (Suc j)))) d'))"
      by (simp only: box_row_def Let_def case_prod_conv add_0 soff doff out inn w one off Option.bind.simps)
  qed
  moreover have "s32 (int x) = int x" using assms(7) by (intro s32_id) linarith+
  ultimately show ?thesis by (simp add: window_start)
qed

lemma columns:
  assumes "0 < n" "h < srch + n" "w \<le> srcscan" "w \<le> dstscan" "0 < srch \<Longrightarrow> (srch - 1) * srcscan + w \<le> length src"
    "0 < h \<Longrightarrow> (h - 1) * dstscan + w \<le> length dst"
    and "w \<le> 2147483647" "h * srcscan \<le> 2147483647" "n * srcscan \<le> 2147483647" "java_array dst"
  shows "box_columns none sub add store (int n) dst (int w) (int h) (int dstscan) src (int srch) (int srcscan) =
    Some (upd_rect 0 dstscan w h (\<lambda>y x _. store (total (window (\<lambda>i. src ! (i * srcscan + x)) n srch (Suc y)))) dst)"
proof -
  have "int (n * srcscan) \<le> 2147483647" using assms(9) by linarith
  then have "s32 (int (n * srcscan)) = int (n * srcscan)" by (intro s32_id) linarith+
  then have voff: "s32 (int n * int srcscan) = int n * int srcscan" by (simp only: of_nat_mult)
  show ?thesis
    unfolding box_columns_def Let_def nat_int voff
  proof (rule for_up_columns [OF assms(4), where st = "\<lambda>_ d. d"])
    fix x and d :: "jint list" assume x: "x < w" "length d = length dst"
    have 1: "0 < srch \<Longrightarrow> (srch - 1) * srcscan + x < length src" using assms(5) x(1) by linarith
    have 2: "0 < h \<Longrightarrow> (h - 1) * dstscan + x < length d" using assms(6) x by linarith
    have 3: "x < srcscan" "0 < dstscan" "x \<le> 2147483647" using x(1) assms(3,4,7) by linarith+
    have 4: "java_array d" using assms(10) x(2) by (simp add: java_array_def)
    show "map_option snd (for_up 0 h (box_row sub add store src (int srch) (int n * int srcscan) (int srcscan) (int dstscan))
        ((int x, int x, none), d)) =
      Some (upd_rect x dstscan 1 h (\<lambda>y _ _. store (total (window (\<lambda>i. src ! (i * srcscan + x)) n srch (Suc y)))) d)"
      by (rule column [OF assms(1,2) 3(1) 1 2 3(2,3) assms(8,9) 4])
  qed
qed

end

section \<open>The sums obey the law\<close>

definition total_argb :: "jint list \<Rightarrow> box_sums" where
  "total_argb ps = \<lparr>suma = sum_list (map pixA ps), sumr = sum_list (map pixR ps), sumg = sum_list (map pixG ps),
     sumb = sum_list (map pixB ps)\<rparr>"

interpretation argb: box_sum no_sums unaccumulate accumulate total_argb
  by unfold_locales
    (simp_all add: no_sums_def unaccumulate_def accumulate_def total_argb_def pixA_def pixR_def pixG_def pixB_def shr_def)

lemma length_window: "length (window px n m (Suc k)) \<le> n"
  by (simp add: window_def)

lemma channel_sum:
  assumes "\<And>p. chan (f p)"
  shows "0 \<le> sum_list (map f ps)" "sum_list (map f ps) \<le> 255 * int (length ps)"
proof -
  have "0 \<le> f p \<and> f p \<le> 255" for p using assms [of p] by (simp add: chan_def)
  then show "0 \<le> sum_list (map f ps)" "sum_list (map f ps) \<le> 255 * int (length ps)"
    by (induction ps) (simp_all add: add_mono)
qed

text \<open>Scaling a sum of at most \<open>amax\<close> stays inside 32 bits and gives a channel.\<close>

lemma scaled_sum:
  assumes "0 \<le> a" "a \<le> amax" "0 \<le> k" "k \<le> 2147483647 div amax" "0 < amax"
  shows "scaled k a = a * k div 8388608" "chan (a * k div 8388608)"
proof -
  have "a * k \<le> amax * (2147483647 div amax)" using assms by (intro mult_mono) simp_all
  also have "\<dots> \<le> 2147483647" using mult_div_mod_eq [of amax 2147483647] pos_mod_sign [OF assms(5), of 2147483647] by linarith
  finally have le: "a * k \<le> 2147483647" .
  moreover have "0 \<le> a * k" using assms by simp
  ultimately show "scaled k a = a * k div 8388608" by (simp add: scaled_def shr_div)
  show "chan (a * k div 8388608)" using le \<open>0 \<le> a * k\<close> by (auto simp: chan_def)
qed

section \<open>Box blur\<close>

definition box_channel :: "nat \<Rightarrow> (jint \<Rightarrow> jint) \<Rightarrow> jint list \<Rightarrow> jint" where
  "box_channel n f ps = sum_list (map f ps) * (2147483647 div (int n * 255)) div 8388608"

definition box_reference :: "nat \<Rightarrow> jint list \<Rightarrow> jint" where
  "box_reference n ps = pack (box_channel n pixA ps) (box_channel n pixR ps) (box_channel n pixG ps) (box_channel n pixB ps)"

lemma cdiv_pos: "0 \<le> a \<Longrightarrow> 0 < b \<Longrightarrow> cdiv a b = a div b"
  by (cases "a = 0") (simp_all add: cdiv_def)

lemma box_channel_chan:
  assumes "\<And>p. chan (f p)" "length ps \<le> n" "0 < n"
  shows "scaled (2147483647 div (int n * 255)) (sum_list (map f ps)) = box_channel n f ps" "chan (box_channel n f ps)"
proof -
  have "sum_list (map f ps) \<le> int n * 255" using channel_sum(2) [of f ps, OF assms(1)] assms(2) by linarith
  then show "scaled (2147483647 div (int n * 255)) (sum_list (map f ps)) = box_channel n f ps" "chan (box_channel n f ps)"
    using scaled_sum [of "sum_list (map f ps)" "int n * 255" "2147483647 div (int n * 255)"] channel_sum(1) [of f ps, OF assms(1)] assms(3)
    by (simp_all add: box_channel_def pos_imp_zdiv_nonneg_iff)
qed

lemma box_pixel_reference:
  assumes "length ps \<le> n" "0 < n"
  shows "box_pixel (2147483647 div (int n * 255)) (total_argb ps) = box_reference n ps"
  using box_channel_chan [OF _ assms, of pixA] box_channel_chan [OF _ assms, of pixR] box_channel_chan [OF _ assms, of pixG]
    box_channel_chan [OF _ assms, of pixB]
  by (simp add: box_pixel_def total_argb_def box_reference_def pack_arith shl_mult)

lemma box_reference_premult:
  assumes "length ps \<le> n" "0 < n" "\<forall>p \<in> set ps. premult p"
  shows "premult (box_reference n ps)"
proof -
  have "box_channel n f ps \<le> box_channel n pixA ps" if "\<And>p. premult p \<Longrightarrow> f p \<le> pixA p" for f
  proof -
    have "sum_list (map f ps) \<le> sum_list (map pixA ps)" using assms(3) that by (intro sum_list_mono) simp
    moreover have "0 \<le> 2147483647 div (int n * 255)" using assms(2) by (simp add: pos_imp_zdiv_nonneg_iff)
    ultimately show ?thesis unfolding box_channel_def by (intro zdiv_mono1 mult_right_mono) simp_all
  qed
  then show ?thesis
    using box_channel_chan(2) [OF _ assms(1,2)] unfolding box_reference_def by (intro pack_premult) (simp_all add: premult_def)
qed

text \<open>An image of \<open>w\<close> times \<open>h\<close> pixels whose rows start \<open>scan\<close> elements apart fits into an array.\<close>

definition image_fits :: "nat \<Rightarrow> nat \<Rightarrow> nat \<Rightarrow> 'a list \<Rightarrow> bool" where
  "image_fits w h scan px \<longleftrightarrow> w \<le> scan \<and> (0 < h \<longrightarrow> (h - 1) * scan + w \<le> length px)"

lemma image_cell:
  assumes "image_fits w h scan px" "y < h" "x < w"
  shows "y * scan + x < length px" "x < scan"
proof -
  have "y * scan \<le> (h - 1) * scan" using assms(2) by (intro mult_le_mono1) simp
  moreover have "(h - 1) * scan + w \<le> length px" "w \<le> scan" using assms by (simp_all add: image_fits_def)
  ultimately show "y * scan + x < length px" "x < scan" using assms(3) by linarith+
qed

text \<open>The window at a pixel, across and down.\<close>

definition row_window :: "jint list \<Rightarrow> nat \<Rightarrow> nat \<Rightarrow> nat \<Rightarrow> nat \<Rightarrow> nat \<Rightarrow> jint list" where
  "row_window px scan n w y x = window (\<lambda>i. px ! (y * scan + i)) n w (Suc x)"

definition column_window :: "jint list \<Rightarrow> nat \<Rightarrow> nat \<Rightarrow> nat \<Rightarrow> nat \<Rightarrow> nat \<Rightarrow> jint list" where
  "column_window px scan n h x y = window (\<lambda>i. px ! (i * scan + x)) n h (Suc y)"

text \<open>The offsets that go down a column of \<open>h\<close> rows, beyond the \<open>k\<close> rows of the source, do not wrap.\<close>

definition column_offsets_fit :: "nat \<Rightarrow> nat \<Rightarrow> nat \<Rightarrow> nat \<Rightarrow> bool" where
  "column_offsets_fit w k h scan \<longleftrightarrow> w \<le> 2147483647 \<and> h * scan \<le> 2147483647 \<and> (h - k + 1) * scan \<le> 2147483647"

lemma window_size:
  assumes "m \<le> k" "(k - m + 1) * 255 \<le> 2147483647"
  shows "s32 (int k - int m + 1) = int (k - m + 1)" "s32 (int (k - m + 1) * 255) = int (k - m + 1) * 255"
proof -
  have "int k - int m + 1 = int (k - m + 1)" using assms(1) by simp
  moreover have "int (k - m + 1) * 255 \<le> 2147483647" using assms(2) by linarith
  ultimately show "s32 (int k - int m + 1) = int (k - m + 1)" "s32 (int (k - m + 1) * 255) = int (k - m + 1) * 255"
    by (simp_all del: of_nat_add of_nat_diff)
qed

lemma blur_horizontal:
  assumes "m \<le> w" "(w - m + 1) * 255 \<le> 2147483647" "image_fits m h srcscan src" "image_fits w h dstscan dst"
    and "java_array src" "java_array dst"
  shows "blur_filterHorizontal dst (int w) (int h) (int dstscan) src (int m) srch (int srcscan) =
    Some (upd_rect 0 dstscan w h (\<lambda>y x _. box_reference (w - m + 1) (row_window src srcscan (w - m + 1) m y x)) dst)"
proof -
  let ?n = "w - m + 1"
  have n: "0 < ?n" "w < m + ?n" using assms(1) by simp_all
  have "cdiv_checked 0x7fffffff (int ?n * 255) = Some (2147483647 div (int ?n * 255))"
    by (simp add: cdiv_checked_def cdiv_pos)
  then have "blur_filterHorizontal dst (int w) (int h) (int dstscan) src (int m) srch (int srcscan) =
      box_rows no_sums unaccumulate accumulate (box_pixel (2147483647 div (int ?n * 255))) (int ?n) dst (int w) (int h)
        (int dstscan) src (int m) (int srcscan)"
    by (simp only: blur_filterHorizontal_def Let_def window_size [OF assms(1,2)] Option.bind.simps)
  also have "\<dots> = Some (upd_rect 0 dstscan w h (\<lambda>y x _. box_pixel (2147483647 div (int ?n * 255))
      (total_argb (row_window src srcscan ?n m y x))) dst)"
    unfolding row_window_def using assms(3-6) by (intro argb.rows [OF n]) (simp_all add: image_fits_def)
  also have "(\<lambda>y x (_ :: jint). box_pixel (2147483647 div (int ?n * 255)) (total_argb (row_window src srcscan ?n m y x))) =
      (\<lambda>y x _. box_reference ?n (row_window src srcscan ?n m y x))"
    using box_pixel_reference [OF _ n(1)] length_window by (simp only: row_window_def)
  finally show ?thesis .
qed

lemma blur_vertical:
  assumes "k \<le> h" "(h - k + 1) * 255 \<le> 2147483647" "image_fits w k srcscan src" "image_fits w h dstscan dst"
    and "column_offsets_fit w k h srcscan" "java_array dst"
  shows "blur_filterVertical dst (int w) (int h) (int dstscan) src srcw (int k) (int srcscan) =
    Some (upd_rect 0 dstscan w h (\<lambda>y x _. box_reference (h - k + 1) (column_window src srcscan (h - k + 1) k x y)) dst)"
proof -
  let ?n = "h - k + 1"
  have n: "0 < ?n" "h < k + ?n" using assms(1) by simp_all
  have "cdiv_checked 0x7fffffff (int ?n * 255) = Some (2147483647 div (int ?n * 255))"
    by (simp add: cdiv_checked_def cdiv_pos)
  then have "blur_filterVertical dst (int w) (int h) (int dstscan) src srcw (int k) (int srcscan) =
      box_columns no_sums unaccumulate accumulate (box_pixel (2147483647 div (int ?n * 255))) (int ?n) dst (int w) (int h)
        (int dstscan) src (int k) (int srcscan)"
    by (simp only: blur_filterVertical_def Let_def window_size [OF assms(1,2)] Option.bind.simps)
  also have "\<dots> = Some (upd_rect 0 dstscan w h (\<lambda>y x _. box_pixel (2147483647 div (int ?n * 255))
      (total_argb (column_window src srcscan ?n k x y))) dst)"
    unfolding column_window_def using assms(3-6) by (intro argb.columns [OF n]) (simp_all add: image_fits_def column_offsets_fit_def)
  also have "(\<lambda>y x (_ :: jint). box_pixel (2147483647 div (int ?n * 255)) (total_argb (column_window src srcscan ?n k x y))) =
      (\<lambda>y x _. box_reference ?n (column_window src srcscan ?n k x y))"
    using box_pixel_reference [OF _ n(1)] length_window by (simp only: column_window_def)
  finally show ?thesis .
qed

section \<open>Both passes\<close>

text \<open>
  An image of \<open>m\<close> times \<open>k\<close> pixels grows to \<open>w\<close> times \<open>k\<close> in an intermediate image and then to \<open>w\<close> times \<open>h\<close>; the windows
  are small enough for the sums of \<open>jint\<close>, and so are the offsets of the second pass, which go on through the intermediate
  image as if it had \<open>h\<close> rows.
\<close>

record pixels =
  px_data :: "jint list"
  px_scan :: nat

definition two_pass_sizes :: "nat \<Rightarrow> nat \<Rightarrow> nat \<Rightarrow> nat \<Rightarrow> pixels \<Rightarrow> pixels \<Rightarrow> pixels \<Rightarrow> bool" where
  "two_pass_sizes m k w h src tmp dst \<longleftrightarrow> m \<le> w \<and> k \<le> h \<and> (w - m + 1) * 255 \<le> 2147483647 \<and> (h - k + 1) * 255 \<le> 2147483647 \<and>
     image_fits m k (px_scan src) (px_data src) \<and> image_fits w k (px_scan tmp) (px_data tmp) \<and>
     image_fits w h (px_scan dst) (px_data dst) \<and> column_offsets_fit w k h (px_scan tmp) \<and>
     java_array (px_data src) \<and> java_array (px_data tmp) \<and> java_array (px_data dst)"

definition box_blur ::
    "nat \<Rightarrow> nat \<Rightarrow> nat \<Rightarrow> nat \<Rightarrow> pixels \<Rightarrow> pixels \<Rightarrow> pixels \<Rightarrow> jint list option" where
  "box_blur m k w h src tmp dst =
    do { t \<leftarrow> blur_filterHorizontal (px_data tmp) (int w) (int k) (int (px_scan tmp)) (px_data src) (int m) (int k) (int (px_scan src));
         blur_filterVertical (px_data dst) (int w) (int h) (int (px_scan dst)) t (int w) (int k) (int (px_scan tmp)) }"

text \<open>The pixel at row \<open>y\<close> and column \<open>x\<close> by its windows.\<close>

definition box_blurred :: "nat \<Rightarrow> nat \<Rightarrow> nat \<Rightarrow> nat \<Rightarrow> pixels \<Rightarrow> nat \<Rightarrow> nat \<Rightarrow> jint" where
  "box_blurred m k w h src y x = box_reference (h - k + 1)
     (window (\<lambda>i. box_reference (w - m + 1) (row_window (px_data src) (px_scan src) (w - m + 1) m i x)) (h - k + 1) k (Suc y))"

lemma window_cong: "(\<And>i. i < m \<Longrightarrow> px i = px' i) \<Longrightarrow> window px n m k = window px' n m k"
  by (simp add: window_def)

lemma rect_column_window:
  assumes "x < w" "image_fits w k scan d"
  shows "column_window (upd_rect 0 scan w k f d) scan n k x y = window (\<lambda>i. f i x (d ! (i * scan + x))) n k (Suc y)"
  unfolding column_window_def
proof (rule window_cong)
  fix i assume i: "i < k"
  have l: "i * scan + x < length d" "x < scan" using image_cell [OF assms(2) i assms(1)] .
  then have "(i * scan + x) div scan = i" "(i * scan + x) mod scan = x" by simp_all
  then show "upd_rect 0 scan w k f d ! (i * scan + x) = f i x (d ! (i * scan + x))"
    using l(1) i assms(1) by (simp add: nth_upd_rect)
qed

text \<open>
  C12: the two passes of the box blur give the weighted sum over the window of each pixel. The sliding sums, with one
  addition and one subtraction per pixel, agree with summing every window anew, no access is outside the
  three images, no product overflows, and what is outside the destination rectangle is unchanged.
\<close>

theorem box_blur_windows:
  assumes "two_pass_sizes m k w h src tmp dst"
  shows "box_blur m k w h src tmp dst =
    Some (upd_rect 0 (px_scan dst) w h (\<lambda>y x _. box_blurred m k w h src y x) (px_data dst))"
proof -
  note g = assms [unfolded two_pass_sizes_def]
  let ?f = "\<lambda>y x _. box_reference (w - m + 1) (row_window (px_data src) (px_scan src) (w - m + 1) m y x)"
  let ?t = "upd_rect 0 (px_scan tmp) w k ?f (px_data tmp)"
  have t: "image_fits w k (px_scan tmp) ?t" using g by (simp add: image_fits_def)
  have "box_blur m k w h src tmp dst = Some (upd_rect 0 (px_scan dst) w h
      (\<lambda>y x _. box_reference (h - k + 1) (column_window ?t (px_scan tmp) (h - k + 1) k x y)) (px_data dst))"
    using g blur_horizontal [of m w k "px_scan src" "px_data src" "px_scan tmp" "px_data tmp" "int k"]
      blur_vertical [of k h w "px_scan tmp" ?t "px_scan dst" "px_data dst" "int w", OF _ _ t] by (simp add: box_blur_def)
  also have "\<dots> = Some (upd_rect 0 (px_scan dst) w h (\<lambda>y x _. box_blurred m k w h src y x) (px_data dst))"
    using rect_column_window [of _ w k "px_scan tmp" "px_data tmp" ?f] g
    by (auto simp: box_blurred_def intro!: upd_rect_cong)
  finally show ?thesis .
qed

text \<open>
  C24: a blurred image is well formed again: from premultiplied pixels both passes return, and every pixel of the
  destination is a premultiplied 32-bit pixel.
\<close>

theorem box_blur_premultiplied:
  assumes "two_pass_sizes m k w h src tmp dst" "list_all premult (px_data src)"
    "list_all (\<lambda>p. premult p \<and> in_s32 p) (px_data dst)"
  shows "\<exists>d. box_blur m k w h src tmp dst = Some d \<and> list_all (\<lambda>p. premult p \<and> in_s32 p) d"
proof -
  have src: "premult (box_reference (w - m + 1) (row_window (px_data src) (px_scan src) (w - m + 1) m i x))" if "i < k" for i x
  proof (rule box_reference_premult)
    show "length (row_window (px_data src) (px_scan src) (w - m + 1) m i x) \<le> w - m + 1"
      by (simp only: row_window_def length_window)
    have "i * px_scan src + j < length (px_data src)" if "j < m" for j
      using assms(1) that \<open>i < k\<close> by (intro image_cell(1)) (simp_all add: two_pass_sizes_def)
    then show "\<forall>p\<in>set (row_window (px_data src) (px_scan src) (w - m + 1) m i x). premult p"
      using assms(2) by (auto simp: row_window_def window_def list_all_length)
  qed simp
  have "premult (box_blurred m k w h src y x) \<and> in_s32 (box_blurred m k w h src y x)" for y x
  proof
    show "premult (box_blurred m k w h src y x)"
      unfolding box_blurred_def
      by (rule box_reference_premult) (use src length_window in \<open>auto simp: window_def\<close>)
    show "in_s32 (box_blurred m k w h src y x)" by (simp add: box_blurred_def box_reference_def pack_def)
  qed
  then have "list_all (\<lambda>p. premult p \<and> in_s32 p) (upd_rect 0 (px_scan dst) w h (\<lambda>y x _. box_blurred m k w h src y x) (px_data dst))"
    unfolding list_all_iff by (intro upd_rect_all) (use assms(3) in \<open>simp_all add: list_all_iff\<close>)
  then show ?thesis using box_blur_windows [OF assms(1)] by blast
qed

definition white_pixel :: pixels where "white_pixel = \<lparr>px_data = [-1], px_scan = 1\<rparr>"
definition blank :: "nat \<Rightarrow> pixels" where "blank n = \<lparr>px_data = replicate n 0, px_scan = 2\<rparr>"

lemma white_sizes: "two_pass_sizes 1 1 2 2 white_pixel (blank 2) (blank 4)"
  by (simp add: two_pass_sizes_def image_fits_def white_pixel_def blank_def column_offsets_fit_def java_array_def)

theorem box_blur_windows_witness:
  "box_blur 1 1 2 2 white_pixel (blank 2) (blank 4) = Some [1061109567, 1061109567, 1061109567, 1061109567]"
proof -
  have "upd_rect 0 (px_scan (blank 4)) 2 2 (\<lambda>y x _. box_blurred 1 1 2 2 white_pixel y x) (px_data (blank 4)) =
      [1061109567, 1061109567, 1061109567, 1061109567]"
    by code_simp
  then show ?thesis using box_blur_windows [OF white_sizes] by simp
qed

theorem box_blur_premultiplied_witness:
  "\<exists>d. box_blur 1 1 2 2 white_pixel (blank 2) (blank 4) = Some d \<and> list_all (\<lambda>p. premult p \<and> in_s32 p) d"
proof (rule box_blur_premultiplied [OF white_sizes])
  show "list_all premult (px_data white_pixel)" by code_simp
  show "list_all (\<lambda>p. premult p \<and> in_s32 p) (px_data (blank 4))" by code_simp
qed

end
