(* ===== verification/Decora_Shadow.thy ===== *)
theory Decora_Shadow
  imports Decora_Box
begin

text \<open>
  The box shadows of the effects library (native-decora/SSEBoxShadowPeer.cc): as the box blur, but only the alpha channel
  of the source counts, sums outside a range that narrows with the spread are clamped, and the last pass colours
  the shadow. The products of a \<open>jfloat\<close> and their conversion to \<open>jint\<close> are the parameters \<open>spread\<close> and \<open>tint\<close>.
\<close>

section \<open>The passes\<close>

definition unaccumulate_alpha :: "jint \<Rightarrow> jint \<Rightarrow> jint" where
  "unaccumulate_alpha rgb a = a - (shr rgb 24 AND 255)"

definition accumulate_alpha :: "jint \<Rightarrow> jint \<Rightarrow> jint" where
  "accumulate_alpha rgb a = a + (shr rgb 24 AND 255)"

definition black_pixel :: "jint \<Rightarrow> jint \<Rightarrow> jint \<Rightarrow> jint \<Rightarrow> jint" where
  "black_pixel amin amax kscale a =
    (if a < amin then 0 else if a \<ge> amax then s32 0xff000000 else s32 (shl (scaled kscale a) 24))"

record shadow_scale =
  kscalea :: jint
  kscaler :: jint
  kscaleg :: jint
  kscaleb :: jint

definition shadow_pixel :: "jint \<Rightarrow> jint \<Rightarrow> jint \<Rightarrow> shadow_scale \<Rightarrow> jint \<Rightarrow> jint" where
  "shadow_pixel amin amax shadowRGB k a =
    (if a < amin then 0 else if a \<ge> amax then shadowRGB
     else s32 (shl (scaled (kscalea k) a) 24 OR shl (scaled (kscaler k) a) 16 OR shl (scaled (kscaleg k) a) 8 OR scaled (kscaleb k) a))"

text \<open>\<open>spread n\<close> is \<open>(jint) (n * spread)\<close>.\<close>

definition shadow_filterHorizontalBlack ::
    "(jint \<Rightarrow> jint) \<Rightarrow> jint list \<Rightarrow> jint \<Rightarrow> jint \<Rightarrow> jint \<Rightarrow> jint list \<Rightarrow> jint \<Rightarrow> jint \<Rightarrow> jint \<Rightarrow> jint list option" where
  "shadow_filterHorizontalBlack spread dst dstw dsth dstscan src srcw srch srcscan =
    (let hsize = s32 (dstw - srcw + 1); amax = s32 (hsize * 255); amax = s32 (amax + spread (s32 (255 - amax))) in do {
       kscale \<leftarrow> cdiv_checked 0x7fffffff amax;
       let amin = cdiv amax 255;
       box_rows 0 unaccumulate_alpha accumulate_alpha (black_pixel amin amax kscale) hsize dst dstw dsth dstscan src srcw srcscan })"

definition shadow_filterVerticalBlack ::
    "(jint \<Rightarrow> jint) \<Rightarrow> jint list \<Rightarrow> jint \<Rightarrow> jint \<Rightarrow> jint \<Rightarrow> jint list \<Rightarrow> jint \<Rightarrow> jint \<Rightarrow> jint \<Rightarrow> jint list option" where
  "shadow_filterVerticalBlack spread dst dstw dsth dstscan src srcw srch srcscan =
    (let vsize = s32 (dsth - srch + 1); amax = s32 (vsize * 255); amax = s32 (amax + spread (s32 (255 - amax))) in do {
       kscale \<leftarrow> cdiv_checked 0x7fffffff amax;
       let amin = cdiv amax 255;
       box_columns 0 unaccumulate_alpha accumulate_alpha (black_pixel amin amax kscale) vsize dst dstw dsth dstscan src srch srcscan })"

text \<open>\<open>tint i n\<close> is \<open>(jint) (n * shadowColor[i])\<close>.\<close>

definition shadow_filterVertical ::
    "(jint \<Rightarrow> jint) \<Rightarrow> (nat \<Rightarrow> jint \<Rightarrow> jint) \<Rightarrow>
     jint list \<Rightarrow> jint \<Rightarrow> jint \<Rightarrow> jint \<Rightarrow> jint list \<Rightarrow> jint \<Rightarrow> jint \<Rightarrow> jint \<Rightarrow> jint list option" where
  "shadow_filterVertical spread tint dst dstw dsth dstscan src srcw srch srcscan =
    (let vsize = s32 (dsth - srch + 1); amax = s32 (vsize * 255); amax = s32 (amax + spread (s32 (255 - amax))) in do {
       k \<leftarrow> cdiv_checked 0x7fffffff amax;
       let k = \<lparr>kscalea = tint 3 k, kscaler = tint 0 k, kscaleg = tint 1 k, kscaleb = tint 2 k\<rparr>;
       let amin = cdiv amax 255;
       let shadowRGB = s32 (shl (tint 0 255) 16 OR shl (tint 1 255) 8 OR tint 2 255 OR shl (tint 3 255) 24);
       box_columns 0 unaccumulate_alpha accumulate_alpha (shadow_pixel amin amax shadowRGB k) vsize
         dst dstw dsth dstscan src srch srcscan })"

section \<open>The sums obey the law\<close>

definition total_alpha :: "jint list \<Rightarrow> jint" where
  "total_alpha ps = sum_list (map pixA ps)"

interpretation alpha: box_sum 0 unaccumulate_alpha accumulate_alpha total_alpha
  by unfold_locales (simp_all add: unaccumulate_alpha_def accumulate_alpha_def total_alpha_def pixA_def shr_def)

section \<open>What a pass stores\<close>

text \<open>
  The largest sum that is not clamped, for a window of \<open>n\<close> pixels; \<open>spread\<close> takes it from \<open>n * 255\<close> down to 255. That the
  product with a spread between 0 and 1 is not rounded beyond its factor, \<open>spread_ok\<close>, holds for the \<open>jfloat\<close> product when the factor
  is exact, which is so for windows of up to 65794 pixels.
\<close>

definition spread_max :: "(jint \<Rightarrow> jint) \<Rightarrow> nat \<Rightarrow> jint" where
  "spread_max spread n = int n * 255 + spread (255 - int n * 255)"

definition spread_ok :: "(jint \<Rightarrow> jint) \<Rightarrow> nat \<Rightarrow> bool" where
  "spread_ok spread n \<longleftrightarrow> 255 - int n * 255 \<le> spread (255 - int n * 255) \<and> spread (255 - int n * 255) \<le> 0"

text \<open>
  What is used of the products with the colour: a component between 0 and 1 takes a number to one between 0 and itself. A
  number up to \<open>2 ^ 24\<close> is exact in \<open>jfloat\<close>, so that the product is not rounded above it; the scales of the code are smaller.
\<close>

definition tint_ok :: "(nat \<Rightarrow> jint \<Rightarrow> jint) \<Rightarrow> bool" where
  "tint_ok tint \<longleftrightarrow> (\<forall>i k. 0 \<le> k \<and> k \<le> 16777216 \<longrightarrow> 0 \<le> tint i k \<and> tint i k \<le> k)"

definition black_reference :: "jint \<Rightarrow> jint list \<Rightarrow> jint" where
  "black_reference amax ps =
    (let a = total_alpha ps
     in if a < amax div 255 then 0 else if a \<ge> amax then pack 255 0 0 0
        else pack (a * (2147483647 div amax) div 8388608) 0 0 0)"

definition shadow_reference :: "(nat \<Rightarrow> jint \<Rightarrow> jint) \<Rightarrow> jint \<Rightarrow> jint list \<Rightarrow> jint" where
  "shadow_reference tint amax ps =
    (let a = total_alpha ps; c = \<lambda>i. a * tint i (2147483647 div amax) div 8388608
     in if a < amax div 255 then 0 else if a \<ge> amax then pack (tint 3 255) (tint 0 255) (tint 1 255) (tint 2 255)
        else pack (c 3) (c 0) (c 1) (c 2))"

lemma total_alpha_range: "0 \<le> total_alpha ps" "total_alpha ps \<le> 255 * int (length ps)"
  unfolding total_alpha_def using channel_sum [of pixA ps] by simp_all

lemma chan_0 [simp]: "chan 0" "chan 255"
  by (simp_all add: chan_def)

lemma black_pixel_reference:
  assumes "255 \<le> amax"
  shows "black_pixel (amax div 255) amax (2147483647 div amax) (total_alpha ps) = black_reference amax ps"
proof -
  let ?a = "total_alpha ps"
  have "scaled (2147483647 div amax) ?a = ?a * (2147483647 div amax) div 8388608 \<and> chan (?a * (2147483647 div amax) div 8388608)"
    if "?a < amax"
    using scaled_sum [of ?a amax "2147483647 div amax"] total_alpha_range(1) that assms by (simp add: pos_imp_zdiv_nonneg_iff)
  then show ?thesis
    by (auto simp: black_pixel_def black_reference_def Let_def pack_arith shl_mult s32_eq_mod)
qed

lemma shadow_pixel_reference:
  assumes "255 \<le> amax" "tint_ok tint"
  shows "shadow_pixel (amax div 255) amax (s32 (shl (tint 0 255) 16 OR shl (tint 1 255) 8 OR tint 2 255 OR shl (tint 3 255) 24))
      \<lparr>kscalea = tint 3 (2147483647 div amax), kscaler = tint 0 (2147483647 div amax), kscaleg = tint 1 (2147483647 div amax),
       kscaleb = tint 2 (2147483647 div amax)\<rparr> (total_alpha ps) = shadow_reference tint amax ps"
proof -
  let ?a = "total_alpha ps" and ?k = "2147483647 div amax"
  have "?k \<le> 2147483647 div 255" using assms(1) by (intro zdiv_mono2) simp_all
  then have k: "0 \<le> ?k" "?k \<le> 16777216" using assms(1) by (simp_all add: pos_imp_zdiv_nonneg_iff)
  have sc: "scaled (tint i ?k) ?a = ?a * tint i ?k div 8388608" if "?a < amax" for i
    using scaled_sum(1) [of ?a amax "tint i ?k"] total_alpha_range(1) that assms k by (simp add: tint_ok_def)
  have "shl r 16 OR shl g 8 OR b OR shl a 24 = shl a 24 OR shl r 16 OR shl g 8 OR b" for a r g b :: int
    by (simp add: or.commute or.left_commute)
  then show ?thesis
    using sc by (simp add: shadow_pixel_def shadow_reference_def pack_def Let_def)
qed

section \<open>The passes by their windows\<close>

lemma spread_range:
  assumes "spread_ok spread n" "0 < n" "n * 255 \<le> 2147483647"
  shows "s32 (int n * 255 + spread (s32 (255 - int n * 255))) = spread_max spread n" "255 \<le> spread_max spread n"
    "cdiv_checked 0x7fffffff (spread_max spread n) = Some (2147483647 div spread_max spread n)"
    "cdiv (spread_max spread n) 255 = spread_max spread n div 255"
proof -
  have n: "int n * 255 \<le> 2147483647" "1 \<le> int n" using assms(2,3) by linarith+
  show r: "255 \<le> spread_max spread n" using assms(1) by (simp add: spread_ok_def spread_max_def)
  have "spread_max spread n \<le> 2147483647" using assms(1) n by (simp add: spread_ok_def spread_max_def)
  moreover have "s32 (255 - int n * 255) = 255 - int n * 255" using n by simp
  ultimately show "s32 (int n * 255 + spread (s32 (255 - int n * 255))) = spread_max spread n"
    using r by (simp add: spread_max_def)
  show "cdiv_checked 0x7fffffff (spread_max spread n) = Some (2147483647 div spread_max spread n)"
    "cdiv (spread_max spread n) 255 = spread_max spread n div 255"
    using r by (simp_all add: cdiv_checked_def cdiv_pos)
qed

lemma black_horizontal:
  assumes "m \<le> w" "(w - m + 1) * 255 \<le> 2147483647" "image_fits m h srcscan src" "image_fits w h dstscan dst"
    and "spread_ok spread (w - m + 1)" "java_array src" "java_array dst"
  shows "shadow_filterHorizontalBlack spread dst (int w) (int h) (int dstscan) src (int m) srch (int srcscan) =
    Some (upd_rect 0 dstscan w h (\<lambda>y x _. black_reference (spread_max spread (w - m + 1))
      (row_window src srcscan (w - m + 1) m y x)) dst)"
proof -
  let ?n = "w - m + 1" let ?amax = "spread_max spread ?n"
  have n: "0 < ?n" "w < m + ?n" using assms(1) by simp_all
  note sp = spread_range [OF assms(5) n(1) assms(2)]
  have "shadow_filterHorizontalBlack spread dst (int w) (int h) (int dstscan) src (int m) srch (int srcscan) =
      box_rows 0 unaccumulate_alpha accumulate_alpha (black_pixel (?amax div 255) ?amax (2147483647 div ?amax)) (int ?n)
        dst (int w) (int h) (int dstscan) src (int m) (int srcscan)"
    by (simp only: shadow_filterHorizontalBlack_def Let_def window_size [OF assms(1,2)] sp Option.bind.simps)
  also have "\<dots> = Some (upd_rect 0 dstscan w h (\<lambda>y x _. black_pixel (?amax div 255) ?amax (2147483647 div ?amax)
      (total_alpha (row_window src srcscan ?n m y x))) dst)"
    unfolding row_window_def using assms(3,4,6,7) by (intro alpha.rows [OF n]) (simp_all add: image_fits_def)
  finally show ?thesis by (simp only: black_pixel_reference [OF sp(2)])
qed

lemma shadow_vertical:
  assumes "k \<le> h" "(h - k + 1) * 255 \<le> 2147483647" "image_fits w k srcscan src" "image_fits w h dstscan dst"
    and "spread_ok spread (h - k + 1)" "tint_ok tint"
    and "column_offsets_fit w k h srcscan" "java_array dst"
  shows "shadow_filterVertical spread tint dst (int w) (int h) (int dstscan) src srcw (int k) (int srcscan) =
    Some (upd_rect 0 dstscan w h (\<lambda>y x _. shadow_reference tint (spread_max spread (h - k + 1))
      (column_window src srcscan (h - k + 1) k x y)) dst)"
proof -
  let ?n = "h - k + 1" let ?amax = "spread_max spread ?n"
  have n: "0 < ?n" "h < k + ?n" using assms(1) by simp_all
  note sp = spread_range [OF assms(5) n(1) assms(2)]
  let ?px = "shadow_pixel (?amax div 255) ?amax (s32 (shl (tint 0 255) 16 OR shl (tint 1 255) 8 OR tint 2 255 OR shl (tint 3 255) 24))
      \<lparr>kscalea = tint 3 (2147483647 div ?amax), kscaler = tint 0 (2147483647 div ?amax), kscaleg = tint 1 (2147483647 div ?amax),
       kscaleb = tint 2 (2147483647 div ?amax)\<rparr>"
  have "shadow_filterVertical spread tint dst (int w) (int h) (int dstscan) src srcw (int k) (int srcscan) =
      box_columns 0 unaccumulate_alpha accumulate_alpha ?px (int ?n) dst (int w) (int h) (int dstscan) src (int k) (int srcscan)"
    by (simp only: shadow_filterVertical_def Let_def window_size [OF assms(1,2)] sp Option.bind.simps)
  also have "\<dots> = Some (upd_rect 0 dstscan w h (\<lambda>y x _. ?px (total_alpha (column_window src srcscan ?n k x y))) dst)"
    unfolding column_window_def using assms(3,4,7,8) by (intro alpha.columns [OF n]) (simp_all add: image_fits_def column_offsets_fit_def)
  finally show ?thesis by (simp only: shadow_pixel_reference [OF sp(2) assms(6)])
qed

lemma black_vertical:
  assumes "k \<le> h" "(h - k + 1) * 255 \<le> 2147483647" "image_fits w k srcscan src" "image_fits w h dstscan dst"
    and "spread_ok spread (h - k + 1)" "column_offsets_fit w k h srcscan" "java_array dst"
  shows "shadow_filterVerticalBlack spread dst (int w) (int h) (int dstscan) src srcw (int k) (int srcscan) =
    Some (upd_rect 0 dstscan w h (\<lambda>y x _. black_reference (spread_max spread (h - k + 1))
      (column_window src srcscan (h - k + 1) k x y)) dst)"
proof -
  let ?n = "h - k + 1" let ?amax = "spread_max spread ?n"
  have n: "0 < ?n" "h < k + ?n" using assms(1) by simp_all
  note sp = spread_range [OF assms(5) n(1) assms(2)]
  let ?px = "black_pixel (?amax div 255) ?amax (2147483647 div ?amax)"
  have "shadow_filterVerticalBlack spread dst (int w) (int h) (int dstscan) src srcw (int k) (int srcscan) =
      box_columns 0 unaccumulate_alpha accumulate_alpha ?px (int ?n) dst (int w) (int h) (int dstscan) src (int k) (int srcscan)"
    by (simp only: shadow_filterVerticalBlack_def Let_def window_size [OF assms(1,2)] sp Option.bind.simps)
  also have "\<dots> = Some (upd_rect 0 dstscan w h (\<lambda>y x _. ?px (total_alpha (column_window src srcscan ?n k x y))) dst)"
    unfolding column_window_def using assms(3,4,6,7) by (intro alpha.columns [OF n]) (simp_all add: image_fits_def column_offsets_fit_def)
  finally show ?thesis by (simp only: black_pixel_reference [OF sp(2)])
qed

section \<open>Both passes\<close>

text \<open>The first pass is black; the last one black too when the shadow is, which is the case \<open>black\<close>.\<close>

definition box_shadow ::
    "(jint \<Rightarrow> jint) \<Rightarrow> (nat \<Rightarrow> jint \<Rightarrow> jint) option \<Rightarrow> nat \<Rightarrow> nat \<Rightarrow> nat \<Rightarrow> nat \<Rightarrow> pixels \<Rightarrow> pixels \<Rightarrow> pixels \<Rightarrow> jint list option" where
  "box_shadow spread colour m k w h src tmp dst =
    do { t \<leftarrow> shadow_filterHorizontalBlack spread (px_data tmp) (int w) (int k) (int (px_scan tmp))
               (px_data src) (int m) (int k) (int (px_scan src));
         case colour of
           None \<Rightarrow> shadow_filterVerticalBlack spread (px_data dst) (int w) (int h) (int (px_scan dst)) t (int w) (int k) (int (px_scan tmp))
         | Some tint \<Rightarrow> shadow_filterVertical spread tint (px_data dst) (int w) (int h) (int (px_scan dst)) t (int w) (int k)
             (int (px_scan tmp)) }"

definition box_shadowed ::
    "(jint \<Rightarrow> jint) \<Rightarrow> (nat \<Rightarrow> jint \<Rightarrow> jint) option \<Rightarrow> nat \<Rightarrow> nat \<Rightarrow> nat \<Rightarrow> nat \<Rightarrow> pixels \<Rightarrow> nat \<Rightarrow> nat \<Rightarrow> jint" where
  "box_shadowed spread colour m k w h src y x =
    (case colour of None \<Rightarrow> black_reference | Some tint \<Rightarrow> shadow_reference tint) (spread_max spread (h - k + 1))
      (window (\<lambda>i. black_reference (spread_max spread (w - m + 1))
         (row_window (px_data src) (px_scan src) (w - m + 1) m i x)) (h - k + 1) k (Suc y))"

text \<open>
  C23: the two passes of a box shadow, the last one black or coloured, give each pixel the clamped and scaled sum of the alpha
  values in its window. No access is outside the images and neither a product nor an offset wraps, as far as the products with
  the spread and the colour are not rounded beyond their factors (\<open>spread_ok\<close>, \<open>tint_ok\<close>), and what is outside the
  destination rectangle is unchanged.
\<close>

theorem box_shadow_windows:
  assumes "two_pass_sizes m k w h src tmp dst" "spread_ok spread (w - m + 1)" "spread_ok spread (h - k + 1)"
    and "pred_option tint_ok colour"
  shows "box_shadow spread colour m k w h src tmp dst =
    Some (upd_rect 0 (px_scan dst) w h (\<lambda>y x _. box_shadowed spread colour m k w h src y x) (px_data dst))"
proof -
  note g = assms(1) [unfolded two_pass_sizes_def]
  let ?f = "\<lambda>y x _. black_reference (spread_max spread (w - m + 1)) (row_window (px_data src) (px_scan src) (w - m + 1) m y x)"
  let ?t = "upd_rect 0 (px_scan tmp) w k ?f (px_data tmp)"
  let ?ref = "case colour of None \<Rightarrow> black_reference | Some tint \<Rightarrow> shadow_reference tint"
  have t: "image_fits w k (px_scan tmp) ?t" using g by (simp add: image_fits_def)
  have "box_shadow spread colour m k w h src tmp dst = Some (upd_rect 0 (px_scan dst) w h
      (\<lambda>y x _. ?ref (spread_max spread (h - k + 1)) (column_window ?t (px_scan tmp) (h - k + 1) k x y)) (px_data dst))"
    using g assms(4) black_horizontal [of m w k "px_scan src" "px_data src" "px_scan tmp" "px_data tmp" spread "int k", OF _ _ _ _ assms(2)]
      black_vertical [of k h w "px_scan tmp" ?t "px_scan dst" "px_data dst" spread "int w", OF _ _ t _ assms(3)]
      shadow_vertical [of k h w "px_scan tmp" ?t "px_scan dst" "px_data dst" spread _ "int w", OF _ _ t _ assms(3)]
    by (cases colour) (simp_all add: box_shadow_def)
  also have "\<dots> = Some (upd_rect 0 (px_scan dst) w h (\<lambda>y x _. box_shadowed spread colour m k w h src y x) (px_data dst))"
    using rect_column_window [of _ w k "px_scan tmp" "px_data tmp" ?f] g
    by (auto simp: box_shadowed_def intro!: upd_rect_cong)
  finally show ?thesis .
qed

text \<open>A white shadow without spread.\<close>

theorem box_shadow_windows_witness:
  "box_shadow (\<lambda>n. 0) (Some (\<lambda>i n. n)) 1 1 2 2 white_pixel (blank 2) (blank 4) = Some [1061109567, 1061109567, 1061109567, 1061109567]"
proof -
  have "upd_rect 0 (px_scan (blank 4)) 2 2 (\<lambda>y x _. box_shadowed (\<lambda>n. 0) (Some (\<lambda>i n. n)) 1 1 2 2 white_pixel y x) (px_data (blank 4)) =
      [1061109567, 1061109567, 1061109567, 1061109567]"
    by code_simp
  then show ?thesis using box_shadow_windows [OF white_sizes, of "\<lambda>n. 0" "Some (\<lambda>i n. n)"] by (simp add: spread_ok_def tint_ok_def)
qed

end
