(* ===== verification/Decora_Convolve.thy ===== *)
theory Decora_Convolve
  imports Decora_Box
begin

text \<open>
  The linear convolutions of the effects library along rows or columns
  (native-decora/SSELinearConvolvePeer.cc and SSELinearConvolveShadowPeer.cc, \<open>filterHV\<close>). The last pixels of a line
  are kept in a ring, and the kernel is passed twice in a row so that it can be read from any place of the ring. Floating-point
  arithmetic is the parameter \<open>jfloat_ops\<close>; sums are taken in the order of the code.
\<close>

section \<open>Floating-point arithmetic\<close>

text \<open>\<open>fo_of\<close> converts from \<open>jint\<close> and gives the whole-number literals; \<open>fo_trunc\<close> is the cast to \<open>jint\<close>.\<close>

record 'f jfloat_ops =
  fo_add :: "'f \<Rightarrow> 'f \<Rightarrow> 'f"
  fo_sub :: "'f \<Rightarrow> 'f \<Rightarrow> 'f"
  fo_mul :: "'f \<Rightarrow> 'f \<Rightarrow> 'f"
  fo_div :: "'f \<Rightarrow> 'f \<Rightarrow> 'f"
  fo_less :: "'f \<Rightarrow> 'f \<Rightarrow> bool"
  fo_le :: "'f \<Rightarrow> 'f \<Rightarrow> bool"
  fo_of :: "jint \<Rightarrow> 'f"
  fo_trunc :: "'f \<Rightarrow> jint"
  fo_half :: 'f
  fo_neg_half :: 'f
  fo_cmax :: 'f

text \<open>The four components of a colour, and the clamped conversion to a byte.\<close>

record 'f fvals =
  fv_a :: 'f
  fv_r :: 'f
  fv_g :: 'f
  fv_b :: 'f

definition fvaltobyte :: "'f jfloat_ops \<Rightarrow> 'f \<Rightarrow> jint" where
  "fvaltobyte F f = (if fo_less F f (fo_of F 1) then 0 else if fo_less F (fo_cmax F) f then 255 else fo_trunc F f)"

definition fvals_pixel :: "'f jfloat_ops \<Rightarrow> 'f fvals \<Rightarrow> jint" where
  "fvals_pixel F v = s32 (shl (fvaltobyte F (fv_a v)) 24 + shl (fvaltobyte F (fv_r v)) 16 +
     shl (fvaltobyte F (fv_g v)) 8 + fvaltobyte F (fv_b v))"

section \<open>One pass\<close>

text \<open>
  What is kept of a pixel, the empty slot, the sum before the first product, the addition of a product and what is
  stored for a sum.
\<close>

record ('s, 'f, 'a) hv_ops =
  hv_load :: "jint \<Rightarrow> 's"
  hv_zero :: 's
  hv_acc :: 'a
  hv_step :: "'s \<Rightarrow> 'f \<Rightarrow> 'a \<Rightarrow> 'a"
  hv_fin :: "'a \<Rightarrow> jint option"

definition hv_sum :: "('s, 'f, 'a) hv_ops \<Rightarrow> 'f list \<Rightarrow> nat \<Rightarrow> 's list \<Rightarrow> jint \<Rightarrow> 'a option" where
  "hv_sum H kvals kernelSize cvals koff =
    for_up 0 kernelSize (\<lambda>i acc. do {
      factor \<leftarrow> rd kvals (koff + int i);
      v \<leftarrow> rd cvals (int i);
      Some (hv_step H v factor acc) }) (hv_acc H)"

definition hv_col ::
    "('s, 'f, 'a) hv_ops \<Rightarrow> 'f list \<Rightarrow> nat \<Rightarrow> jint list \<Rightarrow> jint \<Rightarrow> jint \<Rightarrow> jint \<Rightarrow> nat \<Rightarrow>
     (jint \<times> 's list \<times> jint \<times> jint) \<times> jint list \<Rightarrow> ((jint \<times> 's list \<times> jint \<times> jint) \<times> jint list) option" where
  "hv_col H kvals kernelSize src srccols scolinc dcolinc c st =
    (let ((koff, cvals, dstoff, srcoff), dst) = st in do {
       rgb \<leftarrow> (if int c < srccols then rd src srcoff else Some 0);
       cvals \<leftarrow> wr cvals (int kernelSize - koff) (hv_load H rgb);
       let koff = koff - 1;
       let koff = (if koff \<le> 0 then koff + int kernelSize else koff);
       acc \<leftarrow> hv_sum H kvals kernelSize cvals koff;
       v \<leftarrow> hv_fin H acc;
       dst \<leftarrow> wr dst dstoff v;
       Some ((koff, cvals, dstoff + dcolinc, srcoff + scolinc), dst) })"

text \<open>The slots are an array of 128 elements with indeterminate contents \<open>junk\<close>; the used ones are cleared for every line.\<close>

definition hv_line ::
    "('s, 'f, 'a) hv_ops \<Rightarrow> 'f list \<Rightarrow> nat \<Rightarrow> jint \<Rightarrow> jint \<Rightarrow> jint \<Rightarrow> jint list \<Rightarrow> jint \<Rightarrow> jint \<Rightarrow> jint \<Rightarrow>
     nat \<Rightarrow> ('s list \<times> jint \<times> jint) \<times> jint list \<Rightarrow> (('s list \<times> jint \<times> jint) \<times> jint list) option" where
  "hv_line H kvals kernelSize dstcols dcolinc drowinc src srccols scolinc srowinc r st =
    (let ((cvals, dstrow, srcrow), dst) = st; cvals = replicate kernelSize (hv_zero H) @ drop kernelSize cvals in do {
       ((koff, cvals, dstoff, srcoff), dst) \<leftarrow>
         for_up 0 (nat dstcols) (hv_col H kvals kernelSize src srccols scolinc dcolinc) ((int kernelSize, cvals, dstrow, srcrow), dst);
       Some ((cvals, dstrow + drowinc, srcrow + srowinc), dst) })"

definition hv_pass ::
    "('s, 'f, 'a) hv_ops \<Rightarrow> 's \<Rightarrow> 'f list \<Rightarrow> jint list \<Rightarrow> jint \<Rightarrow> jint \<Rightarrow> jint \<Rightarrow> jint \<Rightarrow>
     jint list \<Rightarrow> jint \<Rightarrow> jint \<Rightarrow> jint \<Rightarrow> jint list option" where
  "hv_pass H junk kvals dst dstcols dstrows dcolinc drowinc src srccols scolinc srowinc =
    (let kernelSize = length kvals div 2 in
     if kernelSize > 128 then Some dst
     else map_option snd (for_up 0 (nat dstrows)
       (hv_line H kvals kernelSize dstcols dcolinc drowinc src srccols scolinc srowinc) ((replicate 128 junk, 0, 0), dst)))"

section \<open>The entry points\<close>

definition convolve_ops :: "'f jfloat_ops \<Rightarrow> ('f fvals, 'f, 'f fvals) hv_ops" where
  "convolve_ops F =
    (let zero = \<lparr>fv_a = fo_of F 0, fv_r = fo_of F 0, fv_g = fo_of F 0, fv_b = fo_of F 0\<rparr>
     in \<lparr>hv_load = \<lambda>rgb. \<lparr>fv_a = fo_of F (shr rgb 24 AND 255), fv_r = fo_of F (shr rgb 16 AND 255),
           fv_g = fo_of F (shr rgb 8 AND 255), fv_b = fo_of F (rgb AND 255)\<rparr>,
         hv_zero = zero, hv_acc = zero,
         hv_step = \<lambda>v factor s. \<lparr>fv_a = fo_add F (fv_a s) (fo_mul F (fv_a v) factor), fv_r = fo_add F (fv_r s) (fo_mul F (fv_r v) factor),
           fv_g = fo_add F (fv_g s) (fo_mul F (fv_g v) factor), fv_b = fo_add F (fv_b s) (fo_mul F (fv_b v) factor)\<rparr>,
         hv_fin = \<lambda>s. Some (fvals_pixel F s)\<rparr>)"

definition convolve_filterHV ::
    "'f jfloat_ops \<Rightarrow> 'f fvals \<Rightarrow> jint list \<Rightarrow> jint \<Rightarrow> jint \<Rightarrow> jint \<Rightarrow> jint \<Rightarrow> jint list \<Rightarrow> jint \<Rightarrow> jint \<Rightarrow> jint \<Rightarrow> jint \<Rightarrow>
     'f list \<Rightarrow> jint list option" where
  "convolve_filterHV F junk dst dstcols dstrows dcolinc drowinc src srccols srcrows scolinc srowinc kvals =
    hv_pass (convolve_ops F) junk kvals dst dstcols dstrows dcolinc drowinc src srccols scolinc srowinc"

text \<open>The colours of a shadow by its alpha value; \<open>tint i n\<close> is \<open>(int) (shadowColor[i] * n)\<close>.\<close>

definition shadowRGBs :: "(nat \<Rightarrow> jint \<Rightarrow> jint) \<Rightarrow> jint list" where
  "shadowRGBs tint = map (\<lambda>n. s32 (shl (tint 0 (int n)) 16 OR shl (tint 1 (int n)) 8 OR tint 2 (int n) OR shl (tint 3 (int n)) 24)) [0..<256]"

definition shadow_fin :: "'f jfloat_ops \<Rightarrow> jint list \<Rightarrow> 'f \<Rightarrow> jint option" where
  "shadow_fin F rgbs s =
    (if fo_less F s (fo_of F 0) then Some 0
     else if fo_le F (fo_of F 254) s then rd rgbs 255
     else rd rgbs (fo_trunc F s + 1))"

definition shadow_ops :: "'f jfloat_ops \<Rightarrow> (nat \<Rightarrow> jint \<Rightarrow> jint) \<Rightarrow> ('f, 'f, 'f) hv_ops" where
  "shadow_ops F tint =
    \<lparr>hv_load = \<lambda>rgb. fo_of F (shr rgb 24 AND 255), hv_zero = fo_of F 0, hv_acc = fo_neg_half F,
     hv_step = \<lambda>v factor s. fo_add F s (fo_mul F v factor), hv_fin = shadow_fin F (shadowRGBs tint)\<rparr>"

definition shadow_filterHV ::
    "'f jfloat_ops \<Rightarrow> 'f \<Rightarrow> (nat \<Rightarrow> jint \<Rightarrow> jint) \<Rightarrow> jint list \<Rightarrow> jint \<Rightarrow> jint \<Rightarrow> jint \<Rightarrow> jint \<Rightarrow>
     jint list \<Rightarrow> jint \<Rightarrow> jint \<Rightarrow> jint \<Rightarrow> jint \<Rightarrow> 'f list \<Rightarrow> jint list option" where
  "shadow_filterHV F junk tint dst dstcols dstrows dcolinc drowinc src srccols srcrows scolinc srowinc kvals =
    hv_pass (shadow_ops F tint) junk kvals dst dstcols dstrows dcolinc drowinc src srccols scolinc srowinc"

section \<open>The ring\<close>

text \<open>The last \<open>K\<close> pixels before column \<open>c\<close>, oldest first; \<open>ring\<close> has the pixel of column \<open>p\<close> in slot \<open>p mod K\<close>.\<close>

definition last_slots :: "'s \<Rightarrow> (nat \<Rightarrow> 's) \<Rightarrow> nat \<Rightarrow> nat \<Rightarrow> 's list" where
  "last_slots zero val K c = map (\<lambda>j. if K \<le> c + j then val (c + j - K) else zero) [0..<K]"

primrec ring :: "'s \<Rightarrow> (nat \<Rightarrow> 's) \<Rightarrow> nat \<Rightarrow> nat \<Rightarrow> 's list" where
  "ring zero val K 0 = replicate K zero"
| "ring zero val K (Suc c) = (ring zero val K c)[c mod K := val c]"

lemma length_ring [simp]: "length (ring zero val K c) = K"
  by (induction c) simp_all

lemma ring_last_slot: "j < K \<Longrightarrow> ring zero val K c ! ((c + j) mod K) = last_slots zero val K c ! j"
proof (induction c arbitrary: j)
  case 0
  then show ?case by (simp add: last_slots_def)
next
  case (Suc c)
  show ?case
  proof (cases "Suc j = K")
    case True
    then have "(Suc c + j) mod K = c mod K" by (metis add_Suc_shift mod_add_self2)
    moreover have "Suc (c + j) - K = c" using True by simp
    ultimately show ?thesis using Suc.prems True by (simp add: last_slots_def)
  next
    case False
    then have j: "Suc j < K" using Suc.prems by simp
    have "(c + Suc j) mod K \<noteq> c mod K"
    proof
      assume "(c + Suc j) mod K = c mod K"
      then have "K dvd Suc j" by (metis add_diff_cancel_left' le_add1 mod_eq_dvd_iff_nat)
      then show False using j by (auto dest: dvd_imp_le)
    qed
    then have "ring zero val K (Suc c) ! ((Suc c + j) mod K) = ring zero val K c ! ((c + Suc j) mod K)" by simp
    also have "\<dots> = last_slots zero val K c ! Suc j" by (rule Suc.IH [OF j])
    also have "\<dots> = last_slots zero val K (Suc c) ! j" using j by (simp add: last_slots_def)
    finally show ?thesis .
  qed
qed

text \<open>The place of the oldest pixel in the doubled kernel's reading order.\<close>

definition ring_place :: "nat \<Rightarrow> nat \<Rightarrow> nat" where
  "ring_place K c = K - c mod K"

lemma ring_place_range: "0 < K \<Longrightarrow> 0 < ring_place K c \<and> ring_place K c \<le> K"
  by (simp add: ring_place_def)

lemma ring_place_Suc:
  assumes "0 < K"
  shows "(if int (ring_place K c) - 1 \<le> 0 then int (ring_place K c) - 1 + int K else int (ring_place K c) - 1) = int (ring_place K (Suc c))"
proof -
  have "c mod K < K" using assms by simp
  then show ?thesis by (auto simp: ring_place_def mod_Suc)
qed

lemma ring_slot_place: "0 < K \<Longrightarrow> K - ring_place K c = c mod K"
  by (simp add: ring_place_def)

text \<open>Read from slot 0 with the kernel from the place of the ring: a rotation of the pixels with the kernel from its start.\<close>

lemma ring_taps:
  assumes "length k = K" "0 < K"
  shows "map (\<lambda>i. (ring zero val K c ! i, (k @ k) ! (ring_place K c + i))) [0..<K] =
    rotate (ring_place K c) (zip (last_slots zero val K c) k)"
proof (rule nth_equalityI)
  show len: "length (map (\<lambda>i. (ring zero val K c ! i, (k @ k) ! (ring_place K c + i))) [0..<K]) =
      length (rotate (ring_place K c) (zip (last_slots zero val K c) k))"
    using assms(1) by (simp add: last_slots_def)
  fix i assume "i < length (map (\<lambda>i. (ring zero val K c ! i, (k @ k) ! (ring_place K c + i))) [0..<K])"
  then have i: "i < K" by simp
  define j where "j = (ring_place K c + i) mod K"
  have j: "j < K" using assms(2) by (simp add: j_def)
  have "(c + j) mod K = (c mod K + ring_place K c + i) mod K" by (simp add: j_def mod_simps add.assoc)
  also have "\<dots> = i" using i assms(2) by (simp add: ring_place_def)
  finally have slot: "ring zero val K c ! i = last_slots zero val K c ! j" using ring_last_slot [OF j, of zero val c] by simp
  have "(k @ k) ! (ring_place K c + i) = k ! j"
    using ring_place_range [OF assms(2), of c] i assms(1) by (auto simp: nth_append j_def le_mod_geq)
  then show "map (\<lambda>i. (ring zero val K c ! i, (k @ k) ! (ring_place K c + i))) [0..<K] ! i =
      rotate (ring_place K c) (zip (last_slots zero val K c) k) ! i"
    using i j slot assms(1) by (simp add: nth_rotate last_slots_def j_def)
qed

section \<open>A line\<close>

lemma for_up_fold:
  "(\<And>i acc. i < n \<Longrightarrow> body (k + i) acc = Some (g (xs ! i) acc)) \<Longrightarrow> length xs = n \<Longrightarrow> for_up k n body acc = Some (fold g xs acc)"
proof (induction n arbitrary: k xs acc)
  case (Suc n)
  then obtain x ys where xs: "xs = x # ys" "length ys = n" by (cases xs) simp_all
  have "body k acc = Some (g x acc)" using Suc.prems(1) [of 0] xs by simp
  moreover have "for_up (Suc k) n body (g x acc) = Some (fold g ys (g x acc))"
    using Suc.prems(1) [of "Suc _"] xs by (intro Suc.IH) simp_all
  ultimately show ?case by (simp add: xs(1))
qed simp

text \<open>
  The sum at column \<open>c\<close> over the last pixels and the kernel, in the order of the ring, and the pixel stored for it.
\<close>

definition hv_total :: "('s, 'f, 'a) hv_ops \<Rightarrow> (nat \<Rightarrow> 's) \<Rightarrow> 'f list \<Rightarrow> nat \<Rightarrow> 'a" where
  "hv_total H val k c = fold (\<lambda>(v, factor). hv_step H v factor)
     (rotate (ring_place (length k) (Suc c)) (zip (last_slots (hv_zero H) val (length k) (Suc c)) k)) (hv_acc H)"

definition hv_pixel :: "('s, 'f, 'a) hv_ops \<Rightarrow> (nat \<Rightarrow> 's) \<Rightarrow> 'f list \<Rightarrow> nat \<Rightarrow> jint" where
  "hv_pixel H val k c = the (hv_fin H (hv_total H val k c))"

lemma hv_sum_total:
  assumes "0 < length k"
  shows "hv_sum H (k @ k) (length k) (ring (hv_zero H) val (length k) (Suc c) @ rest) (int (ring_place (length k) (Suc c))) =
    Some (hv_total H val k c)"
proof -
  let ?K = "length k" and ?r = "ring (hv_zero H) val (length k) (Suc c)" and ?p = "ring_place (length k) (Suc c)"
  have p: "?p \<le> ?K" using ring_place_range [OF assms] by blast
  have "hv_sum H (k @ k) ?K (?r @ rest) (int ?p) =
      Some (fold (\<lambda>(v, factor). hv_step H v factor) (map (\<lambda>i. (?r ! i, (k @ k) ! (?p + i))) [0..<?K]) (hv_acc H))"
    unfolding hv_sum_def
  proof (rule for_up_fold)
    fix i acc assume i: "i < ?K"
    then have "rd (k @ k) (int ?p + int i) = Some ((k @ k) ! (?p + i))" "rd (?r @ rest) (int i) = Some (?r ! i)"
      using p by (simp_all add: rd_def nth_append nat_add_distrib)
    then show "(do { factor \<leftarrow> rd (k @ k) (int ?p + int (0 + i)); v \<leftarrow> rd (?r @ rest) (int (0 + i)); Some (hv_step H v factor acc) }) =
        Some ((\<lambda>(v, factor). hv_step H v factor) (map (\<lambda>i. (?r ! i, (k @ k) ! (?p + i))) [0..<?K] ! i) acc)"
      using i by simp
  qed simp
  then show ?thesis using ring_taps [OF refl assms, of "hv_zero H" val "Suc c"] by (simp only: hv_total_def)
qed

text \<open>The values along a line of \<open>m\<close> pixels that starts at \<open>so\<close>.\<close>

definition line_val :: "('s, 'f, 'a) hv_ops \<Rightarrow> jint list \<Rightarrow> nat \<Rightarrow> nat \<Rightarrow> nat \<Rightarrow> nat \<Rightarrow> 's" where
  "line_val H src so inc m c = hv_load H (if c < m then src ! (so + c * inc) else 0)"

lemma hv_line_pixels:
  assumes "0 < length k" "0 < dinc" "\<And>c. c < m \<Longrightarrow> c < w \<Longrightarrow> so + c * sinc < length src" "\<And>c. c < w \<Longrightarrow> b + c * dinc < length d"
    and "\<And>acc. hv_fin H acc \<noteq> None"
  shows "for_up 0 w (hv_col H (k @ k) (length k) src (int m) (int sinc) (int dinc))
      ((int (length k), replicate (length k) (hv_zero H) @ rest, int b, int so), d) =
    Some ((int (ring_place (length k) w), ring (hv_zero H) (line_val H src so sinc m) (length k) w @ rest,
        int (b + w * dinc), int (so + w * sinc)),
      upd_rect b dinc 1 w (\<lambda>c _ _. hv_pixel H (line_val H src so sinc m) k c) d)"
proof -
  let ?K = "length k" and ?val = "line_val H src so sinc m"
  let ?st = "\<lambda>c d. ((int (ring_place ?K c), ring (hv_zero H) ?val ?K c @ rest, int (b + c * dinc), int (so + c * sinc)), d)"
  have "for_up 0 w (hv_col H (k @ k) ?K src (int m) (int sinc) (int dinc)) (?st 0 d) =
      Some (?st (0 + w) (upd_rect b dinc 1 w (\<lambda>c _ _. hv_pixel H ?val k c) d))"
  proof (rule for_up_rect)
    show "1 \<le> dinc" using assms(2) by simp
    show "0 < w \<Longrightarrow> b + (w - 1) * dinc + 1 \<le> length d" using assms(4) [of "w - 1"] by simp
    fix c and d' :: "jint list" assume c: "c < w" "length d' = length d"
    have r: "(if int c < int m then rd src (int (so + c * sinc)) else Some 0) = Some (if c < m then src ! (so + c * sinc) else 0)"
      using assms(3) [of c] c(1) by (simp only: rd_def of_nat_less_iff of_nat_0_le_iff nat_int simp_thms if_True split: if_split) blast
    have slot: "int ?K - int (ring_place ?K c) = int (c mod ?K)"
      using ring_slot_place [OF assms(1), of c] ring_place_range [OF assms(1), of c] by (metis of_nat_diff)
    have "c mod ?K < ?K" using assms(1) by simp
    then have w1: "wr (ring (hv_zero H) ?val ?K c @ rest) (int (c mod ?K)) (?val c) = Some (ring (hv_zero H) ?val ?K (Suc c) @ rest)"
      by (simp add: wr_def list_update_append1)
    have w2: "wr d' (int (b + c * dinc)) v = Some (d'[b + c * dinc := v])" for v
      using assms(4) [OF c(1)] c(2) by (simp only: wr_def of_nat_less_iff of_nat_0_le_iff nat_int) simp
    have one: "upd_range (b + c * dinc) 1 (\<lambda>_ _. v) d' = d'[b + c * dinc := v]" for v
      using assms(4) [OF c(1)] c(2) by (intro upd_range_one) simp
    have fin: "hv_fin H (hv_total H ?val k c) = Some (hv_pixel H ?val k c)" using assms(5) by (simp add: hv_pixel_def)
    have off: "int (b + c * dinc) + int dinc = int (b + Suc c * dinc)" "int (so + c * sinc) + int sinc = int (so + Suc c * sinc)" by simp_all
    show "hv_col H (k @ k) ?K src (int m) (int sinc) (int dinc) (0 + c) (?st (0 + c) d') =
        Some (?st (0 + Suc c) (upd_range (b + c * dinc) 1 (\<lambda>_ _. hv_pixel H ?val k c) d'))"
      unfolding one hv_col_def Let_def case_prod_conv add_0 r Option.bind.simps slot line_val_def [symmetric] w1
        ring_place_Suc [OF assms(1)] hv_sum_total [OF assms(1)] fin w2 off by simp
  qed
  then show ?thesis by (simp add: ring_place_def)
qed

section \<open>A pass\<close>

lemma upd_rect_line: "upd_rect b 1 1 n f xs = upd_range b n (\<lambda>c. f c 0) xs"
  by (auto simp: list_eq_iff_nth_eq nth_upd_rect nth_upd_range)

text \<open>The slots before line \<open>r\<close>.\<close>

definition slots_before :: "('s, 'f, 'a) hv_ops \<Rightarrow> 's \<Rightarrow> (nat \<Rightarrow> nat \<Rightarrow> 's) \<Rightarrow> nat \<Rightarrow> nat \<Rightarrow> nat \<Rightarrow> 's list" where
  "slots_before H junk val K w r =
    (if r = 0 then replicate K junk else ring (hv_zero H) (val (r - 1)) K w) @ replicate (128 - K) junk"

lemma slots_start: "K \<le> 128 \<Longrightarrow> slots_before H junk val K w 0 = replicate 128 junk"
  by (simp add: slots_before_def flip: replicate_add)

lemma hv_line_result:
  assumes "0 < length k" "0 < dinc" "\<And>c. c < m \<Longrightarrow> c < w \<Longrightarrow> so + c * sinc < length src" "\<And>c. c < w \<Longrightarrow> b + c * dinc < length d"
    and "\<And>acc. hv_fin H acc \<noteq> None" and "val r = line_val H src so sinc m"
  shows "hv_line H (k @ k) (length k) (int w) (int dinc) drow src (int m) (int sinc) srow r
      ((slots_before H junk val (length k) w r, int b, int so), d) =
    Some ((slots_before H junk val (length k) w (Suc r), int b + drow, int so + srow),
      upd_rect b dinc 1 w (\<lambda>c _ _. hv_pixel H (val r) k c) d)"
proof -
  have "replicate (length k) (hv_zero H) @ drop (length k) (slots_before H junk val (length k) w r) =
      replicate (length k) (hv_zero H) @ replicate (128 - length k) junk"
    by (simp add: slots_before_def)
  then show ?thesis
    by (simp only: hv_line_def Let_def case_prod_conv nat_int hv_line_pixels [OF assms(1-5)] Option.bind.simps)
      (simp add: slots_before_def assms(6))
qed

lemma hv_pass_lines:
  assumes "0 < length k" "length k \<le> 128"
    and "for_up 0 h (hv_line H (k @ k) (length k) dstcols dcolinc drowinc src srccols scolinc srowinc)
      ((slots_before H junk val (length k) w 0, 0, 0), dst) = Some (st, d)"
  shows "hv_pass H junk (k @ k) dst dstcols (int h) dcolinc drowinc src srccols scolinc srowinc = Some d"
  using assms by (simp add: hv_pass_def Let_def slots_start)

text \<open>Along the rows of an image, and down its columns.\<close>

lemma hv_rows:
  assumes "0 < length k" "length k \<le> 128" "image_fits m h srcscan src" "image_fits w h dstscan dst" "\<And>acc. hv_fin H acc \<noteq> None"
  shows "hv_pass H junk (k @ k) dst (int w) (int h) 1 (int dstscan) src (int m) 1 (int srcscan) =
    Some (upd_rect 0 dstscan w h (\<lambda>y x _. hv_pixel H (line_val H src (y * srcscan) 1 m) k x) dst)"
proof -
  let ?val = "\<lambda>y. line_val H src (y * srcscan) 1 m"
  let ?st = "\<lambda>y d. ((slots_before H junk ?val (length k) w y, int (y * dstscan), int (y * srcscan)), d)"
  have "for_up 0 h (hv_line H (k @ k) (length k) (int w) (int 1) (int dstscan) src (int m) (int 1) (int srcscan)) (?st 0 dst) =
      Some (?st (0 + h) (upd_rect 0 dstscan w h (\<lambda>y x _. hv_pixel H (?val y) k x) dst))"
  proof (rule for_up_rect)
    show "w \<le> dstscan" "0 < h \<Longrightarrow> 0 + (h - 1) * dstscan + w \<le> length dst" using assms(4) by (simp_all add: image_fits_def)
    fix y and d :: "jint list" assume y: "y < h" "length d = length dst"
    have src: "y * srcscan + c * 1 < length src" if "c < m" for c using image_cell(1) [OF assms(3) y(1) that] by simp
    have dst: "y * dstscan + c * 1 < length d" if "c < w" for c using image_cell(1) [OF assms(4) y(1) that] y(2) by simp
    have step: "int (y * dstscan) + int dstscan = int (Suc y * dstscan)" "int (y * srcscan) + int srcscan = int (Suc y * srcscan)"
      by simp_all
    show "hv_line H (k @ k) (length k) (int w) (int 1) (int dstscan) src (int m) (int 1) (int srcscan) (0 + y) (?st (0 + y) d) =
        Some (?st (0 + Suc y) (upd_range (0 + y * dstscan) w (\<lambda>x _. hv_pixel H (?val y) k x) d))"
      unfolding add_0 using src dst
      by (subst hv_line_result [OF assms(1) _ _ _ assms(5)]) (simp_all only: upd_rect_line step zero_less_one)
  qed
  from hv_pass_lines [OF assms(1,2), of h H "int w" "int 1" "int dstscan" src "int m" "int 1" "int srcscan" junk ?val w dst] this
  show ?thesis by simp
qed

lemma hv_columns:
  assumes "0 < length k" "length k \<le> 128" "image_fits w n srcscan src" "image_fits w h dstscan dst" "\<And>acc. hv_fin H acc \<noteq> None"
  shows "hv_pass H junk (k @ k) dst (int h) (int w) (int dstscan) 1 src (int n) (int srcscan) 1 =
    Some (upd_rect 0 dstscan w h (\<lambda>y x _. hv_pixel H (line_val H src x srcscan n) k y) dst)"
proof -
  let ?val = "\<lambda>x. line_val H src x srcscan n"
  let ?st = "\<lambda>x d. ((slots_before H junk ?val (length k) h x, int x, int x), d)"
  have "for_up 0 w (hv_line H (k @ k) (length k) (int h) (int dstscan) (int 1) src (int n) (int srcscan) (int 1)) (?st 0 dst) =
      Some (?st w (upd_rect 0 dstscan w h (\<lambda>y x _. hv_pixel H (?val x) k y) dst))"
  proof (rule for_up_columns)
    show "w \<le> dstscan" using assms(4) by (simp add: image_fits_def)
    fix x and d :: "jint list" assume x: "x < w" "length d = length dst"
    have src: "x + c * srcscan < length src" if "c < n" for c using image_cell(1) [OF assms(3) that x(1)] by (simp add: add.commute)
    have dst: "x + c * dstscan < length d" if "c < h" for c using image_cell(1) [OF assms(4) that x(1)] x(2) by (simp add: add.commute)
    have pos: "0 < dstscan" using assms(4) x(1) by (simp add: image_fits_def)
    have step: "int x + int 1 = int (Suc x)" by simp
    show "hv_line H (k @ k) (length k) (int h) (int dstscan) (int 1) src (int n) (int srcscan) (int 1) x (?st x d) =
        Some (?st (Suc x) (upd_rect x dstscan 1 h (\<lambda>y _. (\<lambda>_. hv_pixel H (?val x) k y)) d))"
      using src dst by (subst hv_line_result [OF assms(1) pos _ _ assms(5)]) (simp_all only: step)
  qed
  from hv_pass_lines [OF assms(1,2), of w H "int h" "int dstscan" "int 1" src "int n" "int srcscan" "int 1" junk ?val h dst] this
  show ?thesis by simp
qed

text \<open>Where products may be added in any order, the rotation does not matter.\<close>

lemma hv_total_exact:
  assumes "\<And>v f v' f' acc. hv_step H v f (hv_step H v' f' acc) = hv_step H v' f' (hv_step H v f acc)"
  shows "hv_total H val k c = fold (\<lambda>(v, factor). hv_step H v factor) (zip (last_slots (hv_zero H) val (length k) (Suc c)) k) (hv_acc H)"
proof -
  let ?f = "\<lambda>(v, factor). hv_step H v factor"
  have swap: "fold ?f xs (?f x acc) = ?f x (fold ?f xs acc)" for xs x acc
  proof (induction xs arbitrary: acc)
    case (Cons a xs)
    have "?f a (?f x acc) = ?f x (?f a acc)" by (simp add: case_prod_beta assms [of "fst a" "snd a"])
    then show ?case using Cons.IH [of "?f a acc"] by (simp only: fold_Cons o_apply)
  qed simp
  have "fold ?f (rotate1 xs) acc = fold ?f xs acc" for xs acc
    by (cases xs) (simp_all add: swap)
  then have "fold ?f (rotate n xs) acc = fold ?f xs acc" for n xs acc
    by (induction n) simp_all
  then show ?thesis by (simp add: hv_total_def)
qed

section \<open>Both directions\<close>

text \<open>The calls of \<open>SSELinearConvolvePeer.filter\<close>, with the kernel \<open>k\<close> passed twice in a row.\<close>

definition convolve_hv ::
    "'f jfloat_ops \<Rightarrow> 'f fvals \<Rightarrow> bool \<Rightarrow> 'f list \<Rightarrow> nat \<Rightarrow> nat \<Rightarrow> nat \<Rightarrow> nat \<Rightarrow> pixels \<Rightarrow> pixels \<Rightarrow> jint list option" where
  "convolve_hv F junk vertical k m n w h src dst =
    (if vertical
     then convolve_filterHV F junk (px_data dst) (int h) (int w) (int (px_scan dst)) 1
            (px_data src) (int n) (int m) (int (px_scan src)) 1 (k @ k)
     else convolve_filterHV F junk (px_data dst) (int w) (int h) 1 (int (px_scan dst))
            (px_data src) (int m) (int n) 1 (int (px_scan src)) (k @ k))"

definition shadow_hv ::
    "'f jfloat_ops \<Rightarrow> 'f \<Rightarrow> (nat \<Rightarrow> jint \<Rightarrow> jint) \<Rightarrow> bool \<Rightarrow> 'f list \<Rightarrow> nat \<Rightarrow> nat \<Rightarrow> nat \<Rightarrow> nat \<Rightarrow> pixels \<Rightarrow> pixels \<Rightarrow> jint list option" where
  "shadow_hv F junk tint vertical k m n w h src dst =
    (if vertical
     then shadow_filterHV F junk tint (px_data dst) (int h) (int w) (int (px_scan dst)) 1
            (px_data src) (int n) (int m) (int (px_scan src)) 1 (k @ k)
     else shadow_filterHV F junk tint (px_data dst) (int w) (int h) 1 (int (px_scan dst))
            (px_data src) (int m) (int n) 1 (int (px_scan src)) (k @ k))"

text \<open>The pixel at row \<open>y\<close> and column \<open>x\<close> for the line through it.\<close>

definition convolved :: "('s, 'f, 'a) hv_ops \<Rightarrow> bool \<Rightarrow> 'f list \<Rightarrow> nat \<Rightarrow> nat \<Rightarrow> pixels \<Rightarrow> nat \<Rightarrow> nat \<Rightarrow> jint" where
  "convolved H vertical k m n src y x =
    (if vertical then hv_pixel H (line_val H (px_data src) x (px_scan src) n) k y
     else hv_pixel H (line_val H (px_data src) (y * px_scan src) 1 m) k x)"

definition convolve_sizes :: "bool \<Rightarrow> 'f list \<Rightarrow> nat \<Rightarrow> nat \<Rightarrow> nat \<Rightarrow> nat \<Rightarrow> pixels \<Rightarrow> pixels \<Rightarrow> bool" where
  "convolve_sizes vertical k m n w h src dst \<longleftrightarrow> 0 < length k \<and> length k \<le> 128 \<and> (if vertical then w = m else h = n) \<and>
     image_fits m n (px_scan src) (px_data src) \<and> image_fits w h (px_scan dst) (px_data dst)"

lemma hv_both:
  assumes "convolve_sizes vertical k m n w h src dst" "\<And>acc. hv_fin H acc \<noteq> None"
  shows "(if vertical
     then hv_pass H junk (k @ k) (px_data dst) (int h) (int w) (int (px_scan dst)) 1 (px_data src) (int n) (int (px_scan src)) 1
     else hv_pass H junk (k @ k) (px_data dst) (int w) (int h) 1 (int (px_scan dst)) (px_data src) (int m) 1 (int (px_scan src))) =
    Some (upd_rect 0 (px_scan dst) w h (\<lambda>y x _. convolved H vertical k m n src y x) (px_data dst))"
  using assms hv_rows [of k m h "px_scan src" "px_data src" w "px_scan dst" "px_data dst" H junk]
    hv_columns [of k w n "px_scan src" "px_data src" h "px_scan dst" "px_data dst" H junk]
  by (simp add: convolve_sizes_def convolved_def split: if_splits)

text \<open>
  C13: a linear convolution with the ring of the last pixels and the doubled kernel gives each pixel the weighted sum over the pixels
  before it: the newest pixel meets the last weight and the one \<open>d\<close> places back the weight \<open>d\<close> places before,
  in both directions, with every access inside the arrays and everything outside the destination rectangle unchanged.
\<close>

theorem convolve_hv_windows:
  assumes "convolve_sizes vertical k m n w h src dst"
  shows "convolve_hv F junk vertical k m n w h src dst =
    Some (upd_rect 0 (px_scan dst) w h (\<lambda>y x _. convolved (convolve_ops F) vertical k m n src y x) (px_data dst))"
  unfolding convolve_hv_def convolve_filterHV_def
  by (rule hv_both [OF assms]) (simp add: convolve_ops_def Let_def)

text \<open>Integers for numbers, and a kernel that moves an image by one pixel.\<close>

definition whole :: "int jfloat_ops" where
  "whole = \<lparr>fo_add = (+), fo_sub = (-), fo_mul = (*), fo_div = (div), fo_less = (<), fo_le = (\<le>), fo_of = id, fo_trunc = id,
     fo_half = 0, fo_neg_half = 0, fo_cmax = 254\<rparr>"

definition no_color :: "int fvals" where "no_color = \<lparr>fv_a = 0, fv_r = 0, fv_g = 0, fv_b = 0\<rparr>"

theorem convolve_hv_windows_witness:
  "convolve_hv whole no_color False [1, 0] 1 1 2 1 white_pixel (blank 2) = Some [0, -1]"
proof -
  have "convolve_sizes False [1 :: int, 0] 1 1 2 1 white_pixel (blank 2)"
    by (simp add: convolve_sizes_def image_fits_def white_pixel_def blank_def)
  moreover have "upd_rect 0 (px_scan (blank 2)) 2 1 (\<lambda>y x _. convolved (convolve_ops whole) False [1, 0] 1 1 white_pixel y x)
      (px_data (blank 2)) = [0, -1]"
    by code_simp
  ultimately show ?thesis using convolve_hv_windows [of False "[1, 0]" 1 1 2 1 white_pixel "blank 2" whole no_color] by simp
qed

text \<open>The shadow's table of colours is read inside its bounds when casts of numbers in its range stay there.\<close>

definition table_safe :: "'f jfloat_ops \<Rightarrow> bool" where
  "table_safe F \<longleftrightarrow> (\<forall>s. \<not> fo_less F s (fo_of F 0) \<and> \<not> fo_le F (fo_of F 254) s \<longrightarrow> 0 \<le> fo_trunc F s \<and> fo_trunc F s < 254)"

lemma shadow_hv_windows:
  assumes "convolve_sizes vertical k m n w h src dst" "table_safe F"
  shows "shadow_hv F junk tint vertical k m n w h src dst =
    Some (upd_rect 0 (px_scan dst) w h (\<lambda>y x _. convolved (shadow_ops F tint) vertical k m n src y x) (px_data dst))"
proof -
  have "shadow_fin F (shadowRGBs tint) s \<noteq> None" for s
  proof -
    have "rd (shadowRGBs tint) i \<noteq> None" if "0 \<le> i" "i < 256" for i
      using that by (simp add: rd_def shadowRGBs_def)
    then show ?thesis using assms(2) by (force simp: shadow_fin_def table_safe_def)
  qed
  then show ?thesis
    unfolding shadow_hv_def shadow_filterHV_def by (intro hv_both [OF assms(1)]) (simp add: shadow_ops_def)
qed

end
