(* ===== verification/Decora_Sample.thy ===== *)
theory Decora_Sample
  imports Decora_Convolve
begin

text \<open>
  Sampling an image at a position between its pixels (native-decora/SSEUtils.cc), and the convolutions along any direction,
  whose samples lie on a line through the source (\<open>filterVector\<close> of SSELinearConvolvePeer.cc and
  SSELinearConvolveShadowPeer.cc).
\<close>

section \<open>Samples\<close>

definition laccum :: "'f jfloat_ops \<Rightarrow> jint list \<Rightarrow> jint \<Rightarrow> 'f \<Rightarrow> 'f fvals \<Rightarrow> 'f fvals option" where
  "laccum F img offset f v =
    do { pixel \<leftarrow> rd img offset;
         let f = fo_div F f (fo_of F 255);
         Some \<lparr>fv_a = fo_add F (fv_a v) (fo_mul F (fo_of F (shr pixel 24 AND 255)) f),
               fv_r = fo_add F (fv_r v) (fo_mul F (fo_of F (shr pixel 16 AND 255)) f),
               fv_g = fo_add F (fv_g v) (fo_mul F (fo_of F (shr pixel 8 AND 255)) f),
               fv_b = fo_add F (fv_b v) (fo_mul F (fo_of F (pixel AND 255)) f)\<rparr> }"

definition faccum :: "'f jfloat_ops \<Rightarrow> 'f list \<Rightarrow> jint \<Rightarrow> 'f \<Rightarrow> 'f list \<Rightarrow> 'f list option" where
  "faccum F fmap offset fract v =
    for_up 0 4 (\<lambda>i v. do { m \<leftarrow> rd fmap (offset + int i); a \<leftarrow> rd v (int i); wr v (int i) (fo_add F a (fo_mul F m fract)) }) v"

text \<open>
  The common part of the three functions: the position has been shifted by half a pixel, and \<open>tap\<close> adds the pixel at an
  offset with a weight.
\<close>

definition sample_taps ::
    "'f jfloat_ops \<Rightarrow> (jint \<Rightarrow> 'f \<Rightarrow> 'v \<Rightarrow> 'v option) \<Rightarrow> 'f \<Rightarrow> 'f \<Rightarrow> jint \<Rightarrow> jint \<Rightarrow> jint \<Rightarrow> 'v \<Rightarrow> 'v option" where
  "sample_taps F tap floc_x floc_y w h scan v =
    (let iloc_x = fo_trunc F floc_x; iloc_y = fo_trunc F floc_y
     in if fo_less F (fo_of F 0) floc_x \<and> fo_less F (fo_of F 0) floc_y \<and> iloc_x \<le> w \<and> iloc_y \<le> h
        then let fx = fo_sub F floc_x (fo_of F iloc_x); fy = fo_sub F floc_y (fo_of F iloc_y);
                 offset = iloc_y * scan + iloc_x; fract = fo_mul F fx fy
             in do {
               v \<leftarrow> (if iloc_y < h
                     then do { v \<leftarrow> (if iloc_x < w then tap offset fract v else Some v);
                               if iloc_x > 0 then tap (offset - 1) (fo_sub F fy fract) v else Some v }
                     else Some v);
               if iloc_y > 0
               then do { v \<leftarrow> (if iloc_x < w then tap (offset - scan) (fo_sub F fx fract) v else Some v);
                         if iloc_x > 0
                         then tap (offset - scan - 1) (fo_add F (fo_sub F (fo_sub F (fo_of F 1) fx) fy) fract) v else Some v }
               else Some v }
        else Some v)"

definition zero_fvals :: "'f jfloat_ops \<Rightarrow> 'f fvals" where
  "zero_fvals F = \<lparr>fv_a = fo_of F 0, fv_r = fo_of F 0, fv_g = fo_of F 0, fv_b = fo_of F 0\<rparr>"

definition lsample :: "'f jfloat_ops \<Rightarrow> jint list \<Rightarrow> 'f \<Rightarrow> 'f \<Rightarrow> jint \<Rightarrow> jint \<Rightarrow> jint \<Rightarrow> 'f fvals option" where
  "lsample F img floc_x floc_y w h scan =
    sample_taps F (laccum F img) (fo_add F (fo_mul F floc_x (fo_of F w)) (fo_half F))
      (fo_add F (fo_mul F floc_y (fo_of F h)) (fo_half F)) w h scan (zero_fvals F)"

definition laccumsample ::
    "'f jfloat_ops \<Rightarrow> jint list \<Rightarrow> 'f \<Rightarrow> 'f \<Rightarrow> jint \<Rightarrow> jint \<Rightarrow> jint \<Rightarrow> 'f \<Rightarrow> 'f fvals \<Rightarrow> 'f fvals option" where
  "laccumsample F img fpix_x fpix_y w h scan factor v =
    (let factor = fo_mul F factor (fo_of F 255)
     in sample_taps F (\<lambda>offset f. laccum F img offset (fo_mul F f factor)) (fo_add F fpix_x (fo_half F))
          (fo_add F fpix_y (fo_half F)) w h scan v)"

text \<open>A map of four numbers per pixel.\<close>

definition fsample :: "'f jfloat_ops \<Rightarrow> 'f list \<Rightarrow> 'f \<Rightarrow> 'f \<Rightarrow> jint \<Rightarrow> jint \<Rightarrow> jint \<Rightarrow> 'f list option" where
  "fsample F fmap floc_x floc_y w h scan =
    sample_taps F (\<lambda>offset. faccum F fmap (4 * offset)) (fo_add F (fo_mul F floc_x (fo_of F w)) (fo_half F))
      (fo_add F (fo_mul F floc_y (fo_of F h)) (fo_half F)) w h scan (replicate 4 (fo_of F 0))"

section \<open>Along a direction\<close>

record 'f vector_args =
  va_srcx0 :: 'f
  va_srcy0 :: 'f
  va_offsetx :: 'f
  va_offsety :: 'f
  va_deltax :: 'f
  va_deltay :: 'f
  va_dxcol :: 'f
  va_dycol :: 'f
  va_dxrow :: 'f
  va_dyrow :: 'f

text \<open>The loops over the destination; \<open>pixel\<close> computes a pixel from the position of its first sample.\<close>

definition vector_pass ::
    "'f jfloat_ops \<Rightarrow> 'f vector_args \<Rightarrow> ('f \<Rightarrow> 'f \<Rightarrow> jint option) \<Rightarrow> jint list \<Rightarrow> jint \<Rightarrow> jint \<Rightarrow> jint \<Rightarrow> jint list option" where
  "vector_pass F V pixel dst dstw dsth dstscan =
    (let srcx0 = fo_add F (va_srcx0 V) (fo_mul F (fo_add F (va_dxrow V) (va_dxcol V)) (fo_half F));
         srcy0 = fo_add F (va_srcy0 V) (fo_mul F (fo_add F (va_dyrow V) (va_dycol V)) (fo_half F))
     in map_option snd (for_up 0 (nat dsth) (\<lambda>dy ((srcx0, srcy0, dstrow), dst). do {
          ((srcx, srcy), dst) \<leftarrow> for_up 0 (nat dstw) (\<lambda>dx ((srcx, srcy), dst). do {
            p \<leftarrow> pixel (fo_add F srcx (va_offsetx V)) (fo_add F srcy (va_offsety V));
            dst \<leftarrow> wr dst (dstrow + int dx) p;
            Some ((fo_add F srcx (va_dxcol V), fo_add F srcy (va_dycol V)), dst) }) ((srcx0, srcy0), dst);
          Some ((fo_add F srcx0 (va_dxrow V), fo_add F srcy0 (va_dyrow V), dstrow + dstscan), dst) }) ((srcx0, srcy0, 0), dst)))"

definition convolve_vector_pixel ::
    "'f jfloat_ops \<Rightarrow> 'f vector_args \<Rightarrow> jint list \<Rightarrow> jint \<Rightarrow> jint \<Rightarrow> jint \<Rightarrow> 'f list \<Rightarrow> jint \<Rightarrow> 'f \<Rightarrow> 'f \<Rightarrow> jint option" where
  "convolve_vector_pixel F V src srcw srch srcscan weights count sampx sampy =
    do { (sampx, sampy, v) \<leftarrow> for_up 0 (nat count) (\<lambda>i (sampx, sampy, v). do {
           weight \<leftarrow> rd weights (int i);
           v \<leftarrow> laccumsample F src sampx sampy srcw srch srcscan weight v;
           Some (fo_add F sampx (va_deltax V), fo_add F sampy (va_deltay V), v) }) (sampx, sampy, zero_fvals F);
         Some (fvals_pixel F v) }"

definition convolve_filterVector ::
    "'f jfloat_ops \<Rightarrow> jint list \<Rightarrow> jint \<Rightarrow> jint \<Rightarrow> jint \<Rightarrow> jint list \<Rightarrow> jint \<Rightarrow> jint \<Rightarrow> jint \<Rightarrow>
     'f list \<Rightarrow> jint \<Rightarrow> 'f vector_args \<Rightarrow> jint list option" where
  "convolve_filterVector F dst dstw dsth dstscan src srcw srch srcscan weights count V =
    (if count > 128 then Some dst
     else vector_pass F V (convolve_vector_pixel F V src srcw srch srcscan weights count) dst dstw dsth dstscan)"

text \<open>\<open>tint i s\<close> is \<open>(jint) (shadowColor[i] * s)\<close>.\<close>

definition shadow_vector_pixel ::
    "'f jfloat_ops \<Rightarrow> (nat \<Rightarrow> 'f \<Rightarrow> jint) \<Rightarrow> 'f vector_args \<Rightarrow> jint list \<Rightarrow> jint \<Rightarrow> jint \<Rightarrow> jint \<Rightarrow> 'f list \<Rightarrow> jint \<Rightarrow>
     'f \<Rightarrow> 'f \<Rightarrow> jint option" where
  "shadow_vector_pixel F tint V src srcw srch srcscan weights count sampx sampy =
    do { (sampx, sampy, s) \<leftarrow> for_up 0 (nat count) (\<lambda>i (sampx, sampy, s). do {
           s \<leftarrow> (if fo_le F (fo_of F 0) sampx \<and> fo_le F (fo_of F 0) sampy
                 then let ix = fo_trunc F sampx; iy = fo_trunc F sampy
                      in if ix < srcw \<and> iy < srch
                         then do { argb \<leftarrow> rd src (iy * srcscan + ix);
                                   weight \<leftarrow> rd weights (int i);
                                   Some (fo_add F s (fo_mul F (fo_of F (shr argb 24 AND 255)) weight)) }
                         else Some s
                 else Some s);
           Some (fo_add F sampx (va_deltax V), fo_add F sampy (va_deltay V), s) }) (sampx, sampy, fo_of F 0);
         let s = (if fo_less F s (fo_of F 0) then fo_of F 0 else if fo_less F (fo_of F 255) s then fo_of F 255 else s);
         Some (s32 (shl (tint 0 s) 16 OR shl (tint 1 s) 8 OR tint 2 s OR shl (tint 3 s) 24)) }"

definition shadow_filterVector ::
    "'f jfloat_ops \<Rightarrow> (nat \<Rightarrow> 'f \<Rightarrow> jint) \<Rightarrow> jint list \<Rightarrow> jint \<Rightarrow> jint \<Rightarrow> jint \<Rightarrow> jint list \<Rightarrow> jint \<Rightarrow> jint \<Rightarrow> jint \<Rightarrow>
     'f list \<Rightarrow> jint \<Rightarrow> 'f vector_args \<Rightarrow> jint list option" where
  "shadow_filterVector F tint dst dstw dsth dstscan src srcw srch srcscan weights count V =
    (if count > 128 then Some dst
     else vector_pass F V (shadow_vector_pixel F tint V src srcw srch srcscan weights count) dst dstw dsth dstscan)"

section \<open>Samples stay inside the image\<close>

text \<open>
  What C promises of the cast to \<open>jint\<close>: a number that is not negative and below \<open>2 ^ 31\<close> gives one that is not negative. Beyond, the
  cast is undefined; x86 gives the most negative \<open>jint\<close>.
\<close>

definition cast_law :: "'f jfloat_ops \<Rightarrow> bool" where
  "cast_law F \<longleftrightarrow> (\<forall>f. (fo_less F (fo_of F 0) f \<or> fo_le F (fo_of F 0) f) \<and> \<not> fo_le F (fo_of F 2147483648) f \<longrightarrow> 0 \<le> fo_trunc F f)"

definition in_reach :: "'f jfloat_ops \<Rightarrow> 'f \<Rightarrow> bool" where
  "in_reach F f \<longleftrightarrow> \<not> fo_le F (fo_of F 2147483648) f"

lemma sample_taps_total:
  assumes "cast_law F \<and> in_reach F fx \<and> in_reach F fy" "\<And>y x f v. y < h \<Longrightarrow> x < w \<Longrightarrow> P v \<Longrightarrow> \<exists>v'. tap (int (y * scan + x)) f v = Some v' \<and> P v'" "P v"
  shows "\<exists>v'. sample_taps F tap fx fy (int w) (int h) (int scan) v = Some v' \<and> P v'"
proof (cases "fo_less F (fo_of F 0) fx \<and> fo_less F (fo_of F 0) fy \<and> fo_trunc F fx \<le> int w \<and> fo_trunc F fy \<le> int h")
  case True
  define x where "x = nat (fo_trunc F fx)"
  define y where "y = nat (fo_trunc F fy)"
  have xy: "fo_trunc F fx = int x" "fo_trunc F fy = int y" "x \<le> w" "y \<le> h"
    using True assms(1) by (auto simp: x_def y_def cast_law_def in_reach_def)
  have t1: "\<exists>u'. (if int x < int w then tap (int y * int scan + int x) f u else Some u) = Some u' \<and> P u'" if "y < h" "P u" for f u
    using assms(2) [of y x u f] that by auto
  have t2: "\<exists>u'. (if 0 < int x then tap (int y * int scan + int x - 1) f u else Some u) = Some u' \<and> P u'" if "y < h" "P u" for f u
    using assms(2) [of y "x - 1" u f] that xy(3) by (cases x) (auto simp: add.assoc)
  have t3: "\<exists>u'. (if int x < int w then tap (int y * int scan + int x - int scan) f u else Some u) = Some u' \<and> P u'"
    if "0 < y" "P u" for f u
    using assms(2) [of "y - 1" x u f] that xy(4) by (cases y) (auto simp: algebra_simps)
  have t4: "\<exists>u'. (if 0 < int x then tap (int y * int scan + int x - int scan - 1) f u else Some u) = Some u' \<and> P u'"
    if "0 < y" "P u" for f u
    using assms(2) [of "y - 1" "x - 1" u f] that xy(3,4) by (cases y; cases x) (auto simp: algebra_simps)
  obtain u where u: "(if int y < int h
        then do { v \<leftarrow> (if int x < int w then tap (int y * int scan + int x) (fo_mul F (fo_sub F fx (fo_of F (int x))) (fo_sub F fy (fo_of F (int y)))) v else Some v);
                  if 0 < int x then tap (int y * int scan + int x - 1) (fo_sub F (fo_sub F fy (fo_of F (int y)))
                    (fo_mul F (fo_sub F fx (fo_of F (int x))) (fo_sub F fy (fo_of F (int y))))) v else Some v }
        else Some v) = Some u" "P u"
  proof (cases "y < h")
    case yh: True
    obtain a where a: "(if int x < int w then tap (int y * int scan + int x) (fo_mul F (fo_sub F fx (fo_of F (int x))) (fo_sub F fy (fo_of F (int y)))) v else Some v) = Some a" "P a"
      using t1 [OF yh assms(3)] by blast
    then show ?thesis using t2 [OF yh a(2)] that yh by (auto simp del: of_nat_0_less_iff of_nat_less_iff) 
  qed (use assms(3) that in auto)
  show ?thesis
  proof (cases "0 < y")
    case y0: True
    obtain b where "(if int x < int w then tap (int y * int scan + int x - int scan) (fo_sub F (fo_sub F fx (fo_of F (int x)))
        (fo_mul F (fo_sub F fx (fo_of F (int x))) (fo_sub F fy (fo_of F (int y))))) u else Some u) = Some b" "P b"
      using t3 [OF y0 u(2)] by blast
    then show ?thesis
      using t4 [OF y0 \<open>P b\<close>] True u(1) y0 unfolding sample_taps_def Let_def xy(1,2)
      by (simp del: of_nat_0_less_iff of_nat_less_iff) 
  next
    case False
    then show ?thesis using True u unfolding sample_taps_def Let_def xy(1,2) by (simp del: of_nat_less_iff)
  qed
qed (use assms(3) in \<open>auto simp: sample_taps_def Let_def\<close>)

lemma laccum_inside: "0 \<le> offset \<Longrightarrow> offset < int (length img) \<Longrightarrow> \<exists>v'. laccum F img offset f v = Some v'"
  by (simp add: laccum_def rd_def Let_def)

lemma faccum_inside:
  assumes "0 \<le> offset" "offset + 4 \<le> int (length fmap)" "length v = 4"
  shows "\<exists>v'. faccum F fmap offset f v = Some v' \<and> length v' = 4"
  unfolding faccum_def
  by (rule for_up_total [where I = "\<lambda>_ v. length v = 4"]) (use assms in \<open>auto simp: rd_def wr_def\<close>)

lemma laccum_taps:
  assumes "cast_law F \<and> in_reach F fx \<and> in_reach F fy" "image_fits w h scan img"
  shows "\<exists>v'. sample_taps F (\<lambda>offset f. laccum F img offset (g f)) fx fy (int w) (int h) (int scan) v = Some v'"
proof -
  have "\<exists>v'. laccum F img (int (y * scan + x)) (g f) v = Some v' \<and> True" if "y < h" "x < w" for y x f v
    using laccum_inside [of "int (y * scan + x)" img F "g f" v] image_cell(1) [OF assms(2) that]
    by (simp only: of_nat_less_iff of_nat_0_le_iff simp_thms)
  then have "\<exists>v'. sample_taps F (\<lambda>offset f. laccum F img offset (g f)) fx fy (int w) (int h) (int scan) v = Some v' \<and> True"
    by (rule sample_taps_total [OF assms(1)]) simp_all
  then show ?thesis by simp
qed

lemma lsample_total:
  assumes "cast_law F \<and> in_reach F (fo_add F (fo_mul F fx (fo_of F (int w))) (fo_half F)) \<and>
      in_reach F (fo_add F (fo_mul F fy (fo_of F (int h))) (fo_half F))" "image_fits w h scan img"
  shows "\<exists>v. lsample F img fx fy (int w) (int h) (int scan) = Some v"
  unfolding lsample_def by (rule laccum_taps [OF assms, where g = "\<lambda>f. f"])

lemma laccumsample_total:
  assumes "cast_law F \<and> in_reach F (fo_add F fx (fo_half F)) \<and> in_reach F (fo_add F fy (fo_half F))" "image_fits w h scan img"
  shows "\<exists>v'. laccumsample F img fx fy (int w) (int h) (int scan) factor v = Some v'"
  unfolding laccumsample_def Let_def by (rule laccum_taps [OF assms])

lemma fsample_total:
  assumes "cast_law F \<and> in_reach F (fo_add F (fo_mul F fx (fo_of F (int w))) (fo_half F)) \<and>
      in_reach F (fo_add F (fo_mul F fy (fo_of F (int h))) (fo_half F))" "w \<le> scan" "0 < h \<Longrightarrow> 4 * ((h - 1) * scan + w) \<le> length fmap"
  shows "\<exists>v. fsample F fmap fx fy (int w) (int h) (int scan) = Some v"
proof -
  have "4 * int (y * scan + x) + 4 \<le> int (length fmap)" if "y < h" "x < w" for y x
  proof -
    have "y * scan \<le> (h - 1) * scan" using that(1) by (intro mult_le_mono1) simp
    moreover have "4 * ((h - 1) * scan + w) \<le> length fmap" using assms(3) that(1) by simp
    moreover have "4 * (y * scan + x + 1) \<le> 4 * ((h - 1) * scan + w)"
      using calculation(1) that(2) by (intro mult_le_mono2) linarith
    ultimately have "int (4 * (y * scan + x + 1)) \<le> int (length fmap)" by (meson le_trans of_nat_le_iff)
    then show ?thesis by simp
  qed
  then have tap: "\<exists>v'. faccum F fmap (4 * int (y * scan + x)) f v = Some v' \<and> length v' = 4" if "y < h" "x < w" "length v = 4" for y x f v
    by (intro faccum_inside that(3)) (use that in simp_all)
  have "\<exists>v'. sample_taps F (\<lambda>offset. faccum F fmap (4 * offset)) (fo_add F (fo_mul F fx (fo_of F (int w))) (fo_half F))
      (fo_add F (fo_mul F fy (fo_of F (int h))) (fo_half F)) (int w) (int h) (int scan) (replicate 4 (fo_of F 0)) = Some v' \<and>
      length v' = 4"
    by (rule sample_taps_total [OF assms(1)]) (use tap in simp_all)
  then show ?thesis unfolding fsample_def by blast
qed

section \<open>The pass over the destination\<close>

text \<open>The positions of the first sample for a pixel, by repeated addition.\<close>

definition sample_x :: "'f jfloat_ops \<Rightarrow> 'f vector_args \<Rightarrow> nat \<Rightarrow> nat \<Rightarrow> 'f" where
  "sample_x F V y x = ((\<lambda>a. fo_add F a (va_dxcol V)) ^^ x) (((\<lambda>a. fo_add F a (va_dxrow V)) ^^ y)
     (fo_add F (va_srcx0 V) (fo_mul F (fo_add F (va_dxrow V) (va_dxcol V)) (fo_half F))))"

definition sample_y :: "'f jfloat_ops \<Rightarrow> 'f vector_args \<Rightarrow> nat \<Rightarrow> nat \<Rightarrow> 'f" where
  "sample_y F V y x = ((\<lambda>a. fo_add F a (va_dycol V)) ^^ x) (((\<lambda>a. fo_add F a (va_dyrow V)) ^^ y)
     (fo_add F (va_srcy0 V) (fo_mul F (fo_add F (va_dyrow V) (va_dycol V)) (fo_half F))))"

lemma sample_next:
  "fo_add F (sample_x F V y x) (va_dxcol V) = sample_x F V y (Suc x)" "fo_add F (sample_y F V y x) (va_dycol V) = sample_y F V y (Suc x)"
  "fo_add F (sample_x F V y 0) (va_dxrow V) = sample_x F V (Suc y) 0" "fo_add F (sample_y F V y 0) (va_dyrow V) = sample_y F V (Suc y) 0"
  by (simp_all add: sample_x_def sample_y_def)

lemma sample_first:
  "sample_x F V 0 0 = fo_add F (va_srcx0 V) (fo_mul F (fo_add F (va_dxrow V) (va_dxcol V)) (fo_half F))"
  "sample_y F V 0 0 = fo_add F (va_srcy0 V) (fo_mul F (fo_add F (va_dyrow V) (va_dycol V)) (fo_half F))"
  by (simp_all add: sample_x_def sample_y_def)

definition vector_at :: "'f jfloat_ops \<Rightarrow> 'f vector_args \<Rightarrow> ('f \<Rightarrow> 'f \<Rightarrow> jint option) \<Rightarrow> nat \<Rightarrow> nat \<Rightarrow> jint" where
  "vector_at F V pixel y x =
     the (pixel (fo_add F (sample_x F V y x) (va_offsetx V)) (fo_add F (sample_y F V y x) (va_offsety V)))"

lemma vector_pass_result:
  assumes "image_fits w h dstscan dst" "\<And>y x. y < h \<Longrightarrow> x < w \<Longrightarrow>
      \<exists>p. pixel (fo_add F (sample_x F V y x) (va_offsetx V)) (fo_add F (sample_y F V y x) (va_offsety V)) = Some p"
  shows "vector_pass F V pixel dst (int w) (int h) (int dstscan) =
    Some (upd_rect 0 dstscan w h (\<lambda>y x _. vector_at F V pixel y x) dst)"
proof -
  let ?X = "sample_x F V" and ?Y = "sample_y F V"
  let ?st = "\<lambda>y d. ((?X y 0, ?Y y 0, int (y * dstscan)), d)"
  let ?col = "\<lambda>dstrow dx ((srcx, srcy), dst). do {
      p \<leftarrow> pixel (fo_add F srcx (va_offsetx V)) (fo_add F srcy (va_offsety V));
      dst \<leftarrow> wr dst (dstrow + int dx) p;
      Some ((fo_add F srcx (va_dxcol V), fo_add F srcy (va_dycol V)), dst) }"
  have p: "pixel (fo_add F (?X y x) (va_offsetx V)) (fo_add F (?Y y x) (va_offsety V)) = Some (vector_at F V pixel y x)"
    if "y < h" "x < w" for y x
    using assms(2) [OF that] by (auto simp: vector_at_def)
  have line: "for_up 0 w (?col (int (y * dstscan))) ((?X y 0, ?Y y 0), d) =
      Some ((?X y w, ?Y y w), upd_range (y * dstscan) w (\<lambda>x _. vector_at F V pixel y x) d)"
    if y: "y < h" "length d = length dst" for y d
  proof -
    have cell: "y * dstscan + x < length d" if "x < w" for x using image_cell(1) [OF assms(1) y(1) that] y(2) by simp
    have "for_up 0 w (?col (int (y * dstscan))) ((?X y 0, ?Y y 0), d) =
        Some ((?X y (0 + w), ?Y y (0 + w)), upd_range (y * dstscan) w (\<lambda>x _. vector_at F V pixel y x) d)"
    proof (rule for_up_range [where st = "\<lambda>x d. ((?X y x, ?Y y x), d)"])
      have "y * dstscan \<le> (h - 1) * dstscan" using y(1) by (intro mult_le_mono1) simp
      moreover have "(h - 1) * dstscan + w \<le> length d" using y assms(1) by (simp add: image_fits_def)
      ultimately show "y * dstscan + w \<le> length d" by linarith
      fix x and d' :: "jint list" assume x: "x < w" "length d' = length d"
      have "wr d' (int (y * dstscan) + int x) v = Some (d'[y * dstscan + x := v])" for v
        using cell [OF x(1)] x(2) by (simp only: wr_def of_nat_less_iff of_nat_0_le_iff nat_int flip: of_nat_add) simp
      then show "?col (int (y * dstscan)) (0 + x) ((?X y (0 + x), ?Y y (0 + x)), d') =
          Some ((?X y (0 + Suc x), ?Y y (0 + Suc x)), d'[y * dstscan + x := vector_at F V pixel y x])"
        by (simp only: add_0 case_prod_conv p [OF y(1) x(1)] Option.bind.simps sample_next)
    qed
    then show ?thesis by simp
  qed
  have "for_up 0 h (\<lambda>dy ((srcx0, srcy0, dstrow), dst). do {
        ((srcx, srcy), dst) \<leftarrow> for_up 0 w (?col dstrow) ((srcx0, srcy0), dst);
        Some ((fo_add F srcx0 (va_dxrow V), fo_add F srcy0 (va_dyrow V), dstrow + int dstscan), dst) }) (?st 0 dst) =
      Some (?st (0 + h) (upd_rect 0 dstscan w h (\<lambda>y x _. vector_at F V pixel y x) dst))"
  proof (rule for_up_rect)
    show "w \<le> dstscan" "0 < h \<Longrightarrow> 0 + (h - 1) * dstscan + w \<le> length dst" using assms(1) by (simp_all add: image_fits_def)
    fix y and d :: "jint list" assume y: "y < h" "length d = length dst"
    have step: "int (y * dstscan) + int dstscan = int (Suc y * dstscan)" by simp
    show "(\<lambda>((srcx0, srcy0, dstrow), dst). do {
        ((srcx, srcy), dst) \<leftarrow> for_up 0 w (?col dstrow) ((srcx0, srcy0), dst);
        Some ((fo_add F srcx0 (va_dxrow V), fo_add F srcy0 (va_dyrow V), dstrow + int dstscan), dst) }) (?st (0 + y) d) =
      Some (?st (0 + Suc y) (upd_range (0 + y * dstscan) w (\<lambda>x _. vector_at F V pixel y x) d))"
      by (simp only: add_0 case_prod_conv line [OF y] Option.bind.simps sample_next step)
  qed
  then show ?thesis by (simp add: vector_pass_def sample_first)
qed

section \<open>Both filters\<close>

text \<open>
  The positions of the \<open>i\<close>-th sample of a pixel, and what is asked of them: that the casts of \<open>filterVector\<close> are defined, which C
  leaves them at \<open>2 ^ 31\<close> and beyond.
\<close>

definition tap_pos :: "'f jfloat_ops \<Rightarrow> 'f \<Rightarrow> 'f \<Rightarrow> nat \<Rightarrow> 'f" where
  "tap_pos F d p i = ((\<lambda>a. fo_add F a d) ^^ i) p"

definition tap_in_reach :: "'f jfloat_ops \<Rightarrow> 'f \<Rightarrow> bool" where
  "tap_in_reach F p \<longleftrightarrow> in_reach F p \<and> in_reach F (fo_add F p (fo_half F))"

definition taps_in_reach :: "'f jfloat_ops \<Rightarrow> 'f vector_args \<Rightarrow> nat \<Rightarrow> 'f \<Rightarrow> 'f \<Rightarrow> bool" where
  "taps_in_reach F V count px py \<longleftrightarrow>
     (\<forall>i < count. tap_in_reach F (tap_pos F (va_deltax V) px i) \<and> tap_in_reach F (tap_pos F (va_deltay V) py i))"

definition positions_in_reach :: "'f jfloat_ops \<Rightarrow> 'f vector_args \<Rightarrow> nat \<Rightarrow> nat \<Rightarrow> nat \<Rightarrow> bool" where
  "positions_in_reach F V count w h \<longleftrightarrow>
     (\<forall>y < h. \<forall>x < w. taps_in_reach F V count (fo_add F (sample_x F V y x) (va_offsetx V)) (fo_add F (sample_y F V y x) (va_offsety V)))"

lemma tap_pos_simps [simp]: "tap_pos F d p 0 = p" "fo_add F (tap_pos F d p i) d = tap_pos F d p (Suc i)"
  by (simp_all add: tap_pos_def)

text \<open>A loop that moves along a line: its body is run at the positions of the line only.\<close>

lemma for_up_line:
  fixes body :: "nat \<Rightarrow> 'f \<times> 'f \<times> 'v \<Rightarrow> ('f \<times> 'f \<times> 'v) option"
  assumes "\<And>i v. i < n \<Longrightarrow> \<exists>v'. body i (tap_pos F dx px i, tap_pos F dy py i, v) = Some (tap_pos F dx px (Suc i), tap_pos F dy py (Suc i), v')"
  shows "\<exists>t. for_up 0 n body (px, py, v) = Some t"
proof -
  have "\<exists>t. for_up 0 n body (px, py, v) = Some t \<and> (\<exists>v'. t = (tap_pos F dx px (0 + n), tap_pos F dy py (0 + n), v'))"
  proof (rule for_up_total [where I = "\<lambda>i t. \<exists>v'. t = (tap_pos F dx px i, tap_pos F dy py i, v')"])
    fix k and t :: "'f \<times> 'f \<times> 'v" assume "0 \<le> k" "k < 0 + n" "\<exists>v'. t = (tap_pos F dx px k, tap_pos F dy py k, v')"
    then show "\<exists>t'. body k t = Some t' \<and> (\<exists>v'. t' = (tap_pos F dx px (Suc k), tap_pos F dy py (Suc k), v'))"
      using assms [of k] by force
  qed simp
  then show ?thesis by blast
qed

lemma convolve_pixel_total:
  assumes "cast_law F" "taps_in_reach F V count fx fy" "image_fits m n scan src" "count \<le> length weights"
  shows "\<exists>p. convolve_vector_pixel F V src (int m) (int n) (int scan) weights (int count) fx fy = Some p"
proof -
  let ?body = "\<lambda>i (sampx, sampy, v). do { weight \<leftarrow> rd weights (int i); v \<leftarrow> laccumsample F src sampx sampy (int m) (int n) (int scan) weight v;
      Some (fo_add F sampx (va_deltax V), fo_add F sampy (va_deltay V), v) }"
  have "\<exists>t. for_up 0 count ?body (fx, fy, zero_fvals F) = Some t"
  proof (rule for_up_line [where F = F and dx = "va_deltax V" and dy = "va_deltay V"])
    fix i v assume i: "i < count"
    then have "rd weights (int i) = Some (weights ! i)" using assms(4) by (simp add: rd_def)
    moreover obtain v' where "laccumsample F src (tap_pos F (va_deltax V) fx i) (tap_pos F (va_deltay V) fy i) (int m) (int n) (int scan) (weights ! i) v = Some v'"
      using laccumsample_total [OF _ assms(3)] assms(1,2) i by (meson taps_in_reach_def tap_in_reach_def)
    ultimately show "\<exists>v'. ?body i (tap_pos F (va_deltax V) fx i, tap_pos F (va_deltay V) fy i, v) =
        Some (tap_pos F (va_deltax V) fx (Suc i), tap_pos F (va_deltay V) fy (Suc i), v')" by simp
  qed
  then show ?thesis by (auto simp: convolve_vector_pixel_def)
qed

lemma shadow_pixel_total:
  assumes "cast_law F" "taps_in_reach F V count fx fy" "image_fits m n scan src" "count \<le> length weights"
  shows "\<exists>p. shadow_vector_pixel F tint V src (int m) (int n) (int scan) weights (int count) fx fy = Some p"
proof -
  let ?add = "\<lambda>i sampx sampy s. if fo_le F (fo_of F 0) sampx \<and> fo_le F (fo_of F 0) sampy
      then let ix = fo_trunc F sampx; iy = fo_trunc F sampy
           in if ix < int m \<and> iy < int n
              then do { argb \<leftarrow> rd src (iy * int scan + ix); weight \<leftarrow> rd weights (int i);
                        Some (fo_add F s (fo_mul F (fo_of F (shr argb 24 AND 255)) weight)) }
              else Some s
      else Some s"
  let ?body = "\<lambda>i (sampx, sampy, s). do { s \<leftarrow> ?add i sampx sampy s; Some (fo_add F sampx (va_deltax V), fo_add F sampy (va_deltay V), s) }"
  have read: "\<exists>s'. ?add i sx sy s = Some s'" if "i < count" "in_reach F sx" "in_reach F sy" for i sx sy s
  proof (cases "fo_le F (fo_of F 0) sx \<and> fo_le F (fo_of F 0) sy \<and> fo_trunc F sx < int m \<and> fo_trunc F sy < int n")
    case True
    define x where "x = nat (fo_trunc F sx)"
    define y where "y = nat (fo_trunc F sy)"
    have "fo_trunc F sx = int x" "fo_trunc F sy = int y" "x < m" "y < n"
      using True assms(1) that(2,3) by (auto simp: x_def y_def cast_law_def in_reach_def)
    moreover have "rd src (int y * int scan + int x) = Some (src ! (y * scan + x))"
      using image_cell(1) [OF assms(3) \<open>y < n\<close> \<open>x < m\<close>] by (simp only: rd_def of_nat_less_iff of_nat_0_le_iff nat_int flip: of_nat_mult of_nat_add) simp
    moreover have "rd weights (int i) = Some (weights ! i)" using that(1) assms(4) by (simp add: rd_def)
    ultimately show ?thesis by (simp add: Let_def)
  qed (auto simp: Let_def)
  have "\<exists>t. for_up 0 count ?body (fx, fy, fo_of F 0) = Some t"
  proof (rule for_up_line [where F = F and dx = "va_deltax V" and dy = "va_deltay V"])
    fix i s assume i: "i < count"
    then obtain s' where "?add i (tap_pos F (va_deltax V) fx i) (tap_pos F (va_deltay V) fy i) s = Some s'"
      using read assms(2) by (meson taps_in_reach_def tap_in_reach_def)
    then show "\<exists>s'. ?body i (tap_pos F (va_deltax V) fx i, tap_pos F (va_deltay V) fy i, s) =
        Some (tap_pos F (va_deltax V) fx (Suc i), tap_pos F (va_deltay V) fy (Suc i), s')" unfolding case_prod_conv by simp
  qed
  then show ?thesis by (auto simp: shadow_vector_pixel_def Let_def)
qed

text \<open>The peers of the two effects with the same arguments.\<close>

datatype 'f vector_effect = Blur_Effect | Shadow_Effect "nat \<Rightarrow> 'f \<Rightarrow> jint"

definition filterVector ::
    "'f jfloat_ops \<Rightarrow> 'f vector_effect \<Rightarrow> 'f list \<Rightarrow> nat \<Rightarrow> 'f vector_args \<Rightarrow> nat \<Rightarrow> nat \<Rightarrow> nat \<Rightarrow> nat \<Rightarrow> pixels \<Rightarrow> pixels \<Rightarrow> jint list option" where
  "filterVector F ef weights count V m n w h src dst =
    (case ef of
       Blur_Effect \<Rightarrow> convolve_filterVector F (px_data dst) (int w) (int h) (int (px_scan dst))
         (px_data src) (int m) (int n) (int (px_scan src)) weights (int count) V
     | Shadow_Effect tint \<Rightarrow> shadow_filterVector F tint (px_data dst) (int w) (int h) (int (px_scan dst))
         (px_data src) (int m) (int n) (int (px_scan src)) weights (int count) V)"

definition effect_pixel ::
    "'f jfloat_ops \<Rightarrow> 'f vector_effect \<Rightarrow> 'f list \<Rightarrow> nat \<Rightarrow> 'f vector_args \<Rightarrow> nat \<Rightarrow> nat \<Rightarrow> pixels \<Rightarrow> 'f \<Rightarrow> 'f \<Rightarrow> jint option" where
  "effect_pixel F ef weights count V m n src =
    (case ef of
       Blur_Effect \<Rightarrow> convolve_vector_pixel F V (px_data src) (int m) (int n) (int (px_scan src)) weights (int count)
     | Shadow_Effect tint \<Rightarrow> shadow_vector_pixel F tint V (px_data src) (int m) (int n) (int (px_scan src)) weights (int count))"

text \<open>
  C25: a convolution along any direction never leaves its images. As long as the positions it samples stay below \<open>2 ^ 31\<close>, where C
  defines their cast to \<open>jint\<close>, both filters read only pixels of the source and weights that were passed, return, and change
  nothing outside the destination rectangle; the positions may be negative, not a number, or far outside the source.
\<close>

theorem filterVector_inside:
  assumes "cast_law F" "positions_in_reach F V count w h"
    and "image_fits m n (px_scan src) (px_data src)" "image_fits w h (px_scan dst) (px_data dst)"
    and "count \<le> 128" "count \<le> length weights"
  shows "filterVector F ef weights count V m n w h src dst =
    Some (upd_rect 0 (px_scan dst) w h (\<lambda>y x _. vector_at F V (effect_pixel F ef weights count V m n src) y x) (px_data dst))"
proof -
  have reach: "taps_in_reach F V count (fo_add F (sample_x F V y x) (va_offsetx V)) (fo_add F (sample_y F V y x) (va_offsety V))"
    if "y < h" "x < w" for y x using assms(2) that by (simp add: positions_in_reach_def)
  show ?thesis
    using assms(5) convolve_pixel_total [OF assms(1) reach assms(3,6)] shadow_pixel_total [OF assms(1) reach assms(3,6)]
    by (cases ef) (simp_all add: filterVector_def effect_pixel_def convolve_filterVector_def shadow_filterVector_def
        vector_pass_result [OF assms(4)])
qed

text \<open>
  Numbers for the examples: fixed-point numbers with four bits after the point, whose cast to \<open>jint\<close> is that of x86 (the
  integer part towards zero, or the most negative \<open>jint\<close> when it does not fit).
\<close>

definition sixteenths :: "int jfloat_ops" where
  "sixteenths = \<lparr>fo_add = (+), fo_sub = (-), fo_mul = (\<lambda>a b. a * b div 16), fo_div = (\<lambda>a b. a * 16 div b), fo_less = (<), fo_le = (\<le>),
     fo_of = (\<lambda>n. n * 16), fo_trunc = (\<lambda>f. let n = cdiv f 16 in if -2147483648 \<le> n \<and> n < 2147483648 then n else -2147483648),
     fo_half = 8, fo_neg_half = -8, fo_cmax = 4079\<rparr>"

lemma sixteenths_cast: "cast_law sixteenths"
  by (simp add: cast_law_def sixteenths_def Let_def cdiv_def sgn_if) linarith

definition still :: "int vector_args" where
  "still = \<lparr>va_srcx0 = 0, va_srcy0 = 0, va_offsetx = 0, va_offsety = 0, va_deltax = 0, va_deltay = 0,
     va_dxcol = 16, va_dycol = 0, va_dxrow = 0, va_dyrow = 16\<rparr>"

theorem filterVector_inside_witness:
  "filterVector sixteenths Blur_Effect [16] 1 still 1 1 2 1 white_pixel (blank 2) = Some [-1, 0]"
proof -
  have "upd_rect 0 (px_scan (blank 2)) 2 1
      (\<lambda>y x _. vector_at sixteenths still (effect_pixel sixteenths Blur_Effect [16] 1 still 1 1 white_pixel) y x) (px_data (blank 2)) = [-1, 0]"
    by code_simp
  moreover have "positions_in_reach sixteenths still 1 2 1"
    by (simp add: positions_in_reach_def taps_in_reach_def tap_in_reach_def in_reach_def tap_pos_def sample_x_def sample_y_def
        still_def sixteenths_def less_Suc_eq numeral_2_eq_2)
  ultimately show ?thesis
    using filterVector_inside [OF sixteenths_cast, of still 1 2 1 1 1 white_pixel "blank 2" "[16]" Blur_Effect]
    by (simp add: image_fits_def white_pixel_def blank_def)
qed

text \<open>
  Beyond the reach of the cast the test against the size lets the most negative \<open>jint\<close> pass, and the read is outside the image.
\<close>

lemma huge_position_reads_outside: "laccumsample sixteenths [0] 68719476736 68719476736 1 1 1 1 no_color = None"
  by code_simp

end
