(* ===== verification/Spec2Isabelle.thy ===== *)
theory Spec2Isabelle
  imports Pisces_Blit_LCD Pisces_Masks Flv_File Progress_Pull HLS_Fifo Java_Race Decora_Shadow Decora_Sample
begin

text \<open>
  A verification development for the native C code of JavaFX (jdk8u_jfx): the Pisces software
  rasterizer and the Decora effects of the graphics module, and the sources, the FLV demuxer and the
  progress buffers of the media module.

  \<^bold>\<open>The program.\<close> JavaFX is a Java toolkit over native libraries. Without a GPU the Java class
  \<open>PiscesRenderer\<close> draws through the C code of \<open>modules/graphics/src/main/native-prism-sw\<close>: a Java
  call enters JPiscesRenderer.c, acquires the pixel array of a surface (JAbstractSurface.c,
  JJavaSurface.c), revalidates the renderer (PiscesRenderer.inl), lets a paint generator fill a row of
  source pixels (PiscesPaint.c) and blits it under a coverage (PiscesBlit.c). Media files in the FLV
  format are read by the GStreamer element of \<open>modules/media/src/main/native/gstreamer/plugins/vp6\<close>:
  flvdemux.c receives or pulls bytes, feeds them block by block to the parser (flvparser.c), reads
  the metadata of script tags (flvmetadata.c), sends the packets of audio and video tags downstream
  and seeks with an index of keyframes. What it receives comes through a progress buffer
  (\<open>plugins/progressbuffer\<close>): the thread of the network source writes the stream into a file cache
  (posix/filecache.c), and progressbuffer.c hands it on from a task of its own or on request;
  hlsprogressbuffer.c does so for live streams with a ring of three caches. In front of both is the
  source element of \<open>plugins/javasource\<close>, which asks the Java connection for blocks and positions. The
  effects of \<open>modules/graphics/src/main/native-decora\<close> (blur, shadow) are filters from one pixel array to another,
  called once for the rows and once for the columns of an image.

  \<^bold>\<open>Conventions.\<close> \<open>Prelude\<close> holds the shared vocabulary. A C integer is an \<open>int\<close> or \<open>nat\<close> with its
  wrap-around written out (\<open>s32\<close>, \<open>s64\<close>, \<open>add64\<close>, \<open>sub64\<close>); an array is a list whose accesses are
  checked (\<open>rd\<close>, \<open>wr\<close>, \<open>byte_at\<close>), and an access outside it, a NULL pointer that is followed and a
  division by zero are the value \<open>None\<close>. A theorem that concludes that an operation is \<open>Some\<close> thus
  states that it returns and that it is memory safe. Structs are records with the names of
  their fields, enums are datatypes, and each C function is the definition of the same name.

  \<^bold>\<open>Pisces.\<close>
  \<^item> \<open>Pisces_Pixel\<close>: packed pixels, \<open>div255\<close> and the \<open>blend\<close> functions of PiscesBlit.c; blending keeps
    premultiplied pixels premultiplied.
  \<^item> \<open>Pisces_State\<close>: the \<open>Renderer\<close> struct of PiscesRenderer.h. \<open>Pisces_Blit\<close>: all row, mask and span
    blitters. \<open>Pisces_Blit_Rows\<close>, \<open>Pisces_Blit_Spans\<close> and \<open>Pisces_Blit_LCD\<close> prove them equal to
    pointwise specifications; the locales \<open>pixel_op\<close> and \<open>line_op\<close> are what a loop relies on from
    one pixel and one line.
  \<^item> \<open>Pisces_Paint\<close>, \<open>Pisces_Texture\<close>: gradient and texture generators of PiscesPaint.c.
    \<open>Pisces_Paint_Safe\<close>, \<open>Pisces_Texture_Safe\<close>: they read inside their tables and fill the paint
    buffer with premultiplied pixels; locales \<open>bounds_law\<close> and \<open>sampler\<close>. Interpolation needs a texture of 2 by 2
    texels: for one texel high \<open>one_texel_reads_outside\<close> shows the access outside it.
  \<^item> \<open>Pisces_Surface\<close>: surfaces, \<open>CORRECT_DIMS\<close>, \<open>getRGBImpl\<close>, \<open>setRGBImpl\<close> and their round trip.
  \<^item> \<open>Pisces_Renderer\<close>: the setters and update functions of PiscesRenderer.inl. \<open>Pisces_Validate\<close>: the
    lazy validation by state bits selects the same routines as a validation from scratch, and gives the renderer
    the pixels of the surface, whose pointer is stale after each release and set again by \<open>updateRendererSurface\<close>
    (\<open>acquired\<close> is a surface that has been acquired anew).
  \<^item> \<open>Pisces_Transform\<close>: affine transforms and the paint setters that use them.
  \<^item> \<open>Pisces_Driver\<close>: the drawing entry points of JPiscesRenderer.c. \<open>Pisces_Sources\<close>, \<open>Pisces_Fill\<close>,
    \<open>Pisces_Session\<close>, \<open>Pisces_Masks\<close>: after any sequence of setters and drawing operations, filling a
    rectangle, drawing an image, emitting an anti-aliased row and filling under a mask return, write
    only inside the clip and keep the surface premultiplied.

  \<^bold>\<open>FLV.\<close>
  \<^item> \<open>Flv_Parser\<close>: the block parser; the locale \<open>block_reader\<close> is the contract every reader keeps, the
    inductive relations \<open>parser_step\<close> and \<open>parser_reach\<close> its reachable states. No reader leaves its
    buffer, and an accepted packet lies in its tag.
  \<^item> \<open>Flv_Script\<close>: the reader of script data; the locale \<open>script_handler\<close> is what a loop over values relies
    on from a value handler. Reading returns on every content without leaving the tag. A string is handed to \<open>gst_tag_list_add\<close>
    (gsttaglist.c and gststructure.c of gstreamer-lite), which collects it by the type its name is registered for: it is
    stored, refused, read as a number, or, under a name registered for objects, misread as one, which is marked in
    \<open>md_misread\<close> and not followed further. \<open>Flv_Metadata\<close>: an encoder of metadata
    and the round trip, and how the two keyframe tables are read.
  \<^item> \<open>Flv_Demux\<close>: the element of flvdemux.c. What it does to the pipeline is a log of outputs.
    \<open>Flv_Index\<close>: the keyframe list refines a map (locale \<open>keyframe_index\<close>). \<open>Flv_Stream\<close>: runs of the
    element by any calls (\<open>demux_run\<close>), totality of the push loop, independence of how the stream is
    cut into buffers. \<open>Flv_File\<close>: an encoder of FLV files and the delivery of their packets, and the one block
    outside which indexing in pull mode reads.

  \<^bold>\<open>Progress buffers.\<close>
  \<^item> \<open>File_Cache\<close>: the cache over a file with a write and a read handle; the locale \<open>byte_cache\<close> is what the
    elements rely on, interpreted on the cache. A cache is a queue of bytes.
  \<^item> \<open>Progress_Buffer\<close>: the element of progressbuffer.c; a function is the code between taking and releasing
    the lock, and \<open>loop_pc\<close> is where the task waits or calls out. \<open>Progress_Stream\<close>: the inductive relations
    \<open>pb_step\<close> and \<open>pb_run\<close> are the interleavings of source, task and seeks in push mode, a seek being its two locked parts
    with the source in between; in all of them every buffer holds the bytes of the stream at its offset. An end of
    stream may clear a segment that the task has not announced yet (progressbuffer.c:593): the field \<open>pb_lost\<close>, which is not
    in the code, counts these, \<open>gaps\<close> counts the jumps in what is sent, and there are no more jumps than lost
    segments; with none lost the buffers follow each other from each segment on. \<open>Progress_Live\<close>: the task finishes the stream, and how an
    end of stream is lost. \<open>Progress_Pull\<close>: what requests return in pull mode (\<open>pull_run\<close>).
  \<^item> \<open>HLS_Buffer\<close>: the element of hlsprogressbuffer.c. \<open>HLS_Ring\<close>: its threads and flushes as steps, and the
    ring of caches. \<open>HLS_Fifo\<close>: the invariant of all interleavings, the ring as a queue, and a race.

  \<^bold>\<open>Java source.\<close>
  \<^item> \<open>Java_Source\<close>: the element of javasource.c: properties, activation, seeks, the task with its events and
    blocks for plain and HLS streams, queries, state changes, and pull mode with what it answers for a
    range of a file. What the element sends is a log of outputs.
  \<^item> \<open>Java_Pipe\<close>: the source linked to the progress buffer as \<open>GstPipelineFactory\<close> does it. \<open>receive\<close> hands an output of
    the source to the handler of the buffer, \<open>seek_locked\<close> and \<open>seek_answered\<close> are the buffer's seek before
    and after the call into the source, and \<open>pipe_step\<close> and \<open>pipe_run\<close> are the interleavings of the two tasks and
    the application's seeks. In all of them the bytes sent downstream are those of the file. The runs are those of a plain
    stream of known size below \<open>2 ^ 63\<close>, with \<open>stop-on-pause\<close> off as in a pipeline with a buffer;
    a seekable connection accepts seeks inside the stream, and allocation succeeds. An end of stream may overtake
    a segment still pending in the buffer (\<open>block_unannounced\<close>).
  \<^item> \<open>Java_Race\<close>: a seek that crosses the end of the stream is lost.

  \<^bold>\<open>Decora.\<close>
  \<^item> \<open>Decora_Box\<close>: the box blur of SSEBoxBlurPeer.cc. The locale \<open>box_sum\<close> is what the two loops rely on from their
    sums, interpreted on the four channels (\<open>argb\<close>) and, in \<open>Decora_Shadow\<close>, on alpha alone. Sliding sums agree
    with summing every window anew, and premultiplied pixels stay so.
  \<^item> \<open>Decora_Shadow\<close>: the three passes of SSEBoxShadowPeer.cc.
  \<^item> \<open>Decora_Convolve\<close>: \<open>filterHV\<close> of SSELinearConvolvePeer.cc and SSELinearConvolveShadowPeer.cc, one loop with the
    pixel arithmetic as the argument \<open>hv_ops\<close>; the ring of the last pixels holds the window of each pixel.
  \<^item> \<open>Decora_Sample\<close>: the samples of SSEUtils.cc and \<open>filterVector\<close> of both peers; they stay inside the source.

  \<^bold>\<open>Parameters.\<close> \<open>file_io\<close> stands for the system calls on the cache's file and the allocator, \<open>pb_ops\<close> for the
  floating-point tests of the progress buffer, \<open>pb_env\<close> for what GStreamer answers during one call;
  \<open>reliable\<close> is a system that completes writes and reads something, \<open>complete\<close> one that also reads all there is. \<open>float_ops\<close> and the gradient geometry stand for the float arithmetic of the gradients,
  \<open>pow\<close> for the gamma curve, \<open>double_ops\<close> for the conversions of a double (its bit pattern) to
  integers and for the kind of type under which a tag's name is registered (\<open>gst_tag_initialize\<close> is the registry as the core
  fills it), \<open>gst_env\<close> for what the GStreamer library answers to each call as a function of the calls so
  far, \<open>pull_range\<close> for the upstream element, \<open>sk_do_seek\<close> for \<open>gst_segment_do_seek\<close>, and \<open>junk\<close> for the
  value of an uninitialised variable. \<open>java_env\<close> is what the Java side, the allocator and the peer answer
  during one call of the source, \<open>read_block\<close> the connection in pull mode. For Decora the record \<open>jfloat_ops\<close> is the
  float arithmetic of the convolutions, \<open>spread\<close> and \<open>tint\<close> are the products with the spread and the
  shadow colour cast to \<open>jint\<close>; \<open>spread_ok\<close> and \<open>tint_ok\<close> say what is used of these, for factors up to \<open>2 ^ 24\<close>, the integers a float holds exactly. The cast
  of a float to \<open>jint\<close> is used only where C defines it (\<open>cast_law\<close>, with \<open>positions_in_reach\<close> as a hypothesis on what is
  sampled; \<open>huge_position_reads_outside\<close> shows what happens without it). The other safety and totality theorems
  hold for every value of the parameters.

  \<^bold>\<open>Fuel.\<close> \<open>chain_loop\<close> gets one round per available byte and one for the final test, \<open>script_loop\<close> one
  round per byte left and one for the final test, the skip handler one level per byte left: the
  totality theorems prove that this is enough. \<open>run_task\<close> gets three steps for each byte that is left and four
  for the events (\<open>task_sends_rest\<close>), \<open>drain\<close> one read for each byte. \<open>getrange_loop\<close> needs one request
  for each \<open>MAX_READ_SIZE\<close> bytes and two more, which \<open>getrange_file\<close> proves; with a failing connection no fuel is enough
  (\<open>getrange_retries_errors\<close>). Only \<open>index_loop\<close> is bounded by a parameter: it
  runs until the upstream element fails or a late enough tag is found, which no C code bounds.

  \<^bold>\<open>Not modelled.\<close> Memory is always available in Pisces, and freeing is not part of the state. JNI
  field access and class registration of the GStreamer elements are outside the model. Threads are modelled
  for the progress buffers and the source only, as interleaved steps from one acquisition of the lock to its release; flags that
  the code tests just before or after are read in the same step. Elsewhere an operation runs under the
  pad's stream lock or on the caller's thread from start to end. In Decora the transposing blur is compiled out and the
  peers generated from shader sources at build time are not in the repository. The cache for Windows, the
  hardware pipelines, the windowing code, fonts, image codecs, WebKit, GStreamer and GLib
  are platform glue or vendored libraries and are not part of the development.
\<close>

end
